(* ===== verification/Py_Prelude.thy ===== *)
theory Py_Prelude
  imports Complex_Main "HOL-Library.Word" "HOL-Library.List_Lexorder" "HOL-Library.AList" "HOL-Library.Code_Target_Nat"
begin

text \<open>
  The vocabulary shared by the component theories: Python strings as lists of code points,
  byte strings, dynamically typed values with Python's equality, exceptions as values of a sum
  type with a bind that stops at the first error, insertion-ordered dictionaries and sets, and
  the generic lemmas about them.  Exceptions are kept by class; message texts are dropped.
\<close>

section \<open>Strings and bytes\<close>

text \<open>A Python \<open>str\<close> is a sequence of code points; its order is the lexicographic one.\<close>

type_synonym ustr = "nat list"
type_synonym byte = "8 word"
type_synonym bytes = "8 word list"

definition u :: "string \<Rightarrow> ustr" where
  "u s = map of_char s"

lemma u_eq_iff [simp]: "u s = u t \<longleftrightarrow> s = t"
  unfolding u_def by (simp add: inj_map_eq_map inj_of_char)

lemma u_Nil_iff [simp]: "u s = [] \<longleftrightarrow> s = []" "[] = u s \<longleftrightarrow> s = []"
  by (auto simp: u_def)

lemma u_Nil [simp]: "u [] = []"
  by (simp add: u_def)

lemma length_u [simp]: "length (u s) = length s"
  by (simp add: u_def)

definition starts_with :: "'a list \<Rightarrow> 'a list \<Rightarrow> bool" where
  "starts_with s p \<longleftrightarrow> take (length p) s = p"

definition ends_with :: "'a list \<Rightarrow> 'a list \<Rightarrow> bool" where
  "ends_with s p \<longleftrightarrow> length p \<le> length s \<and> drop (length s - length p) s = p"

lemma starts_with_append [simp]: "starts_with (p @ s) p"
  by (simp add: starts_with_def)

lemma starts_with_iff: "starts_with s p \<longleftrightarrow> (\<exists>r. s = p @ r)"
  unfolding starts_with_def by (metis append_eq_conv_conj append_take_drop_id)

section \<open>Exceptions\<close>

text \<open>
  One constructor per exception class the modelled code raises.  \<open>MappingConflictError\<close>
  carries the conflicts its Python counterpart stores; \<open>IntegrityError\<close> is SQLite's.
  \<open>NotModelled\<close> is not an exception of the code: it marks the few inputs on which the model
  makes no statement (the text of a float in \<open>str()\<close>, lenient number parsing).
\<close>

datatype bytes_kind = BBytes | BByteArray | BMemoryView

datatype pyval =
    PNone
  | PBool bool
  | PInt int
  | PFloat "64 word"
  | PStr ustr
  | PBytes bytes_kind bytes
  | PList "pyval list"
  | PTuple "pyval list"
  | PDict "(pyval \<times> pyval) list"

text \<open>\<open>hash(v)\<close> raises \<open>TypeError\<close> for lists, dictionaries, byte arrays and tuples holding them.\<close>

fun hashable :: "pyval \<Rightarrow> bool" where
  "hashable (PList _) = False"
| "hashable (PDict _) = False"
| "hashable (PBytes k _) = (k \<noteq> BByteArray)"
| "hashable (PTuple vs) = list_all hashable vs"
| "hashable _ = True"

datatype py_exc =
    ValueError | TypeError | OverflowError | KeyError | IndexError | RuntimeError | StopIteration
  | IntegrityError | NotModelled
  | LtHashError | LedgerFormatError | LedgerHeadConflictError | DuplicateIngestKeyError
  | PolicyNonDeterminismError | ViewProjectionError | MappingResolveError
  | MappingConflictError "(pyval list \<times> pyval list list \<times> ustr list) list"
  | WhereValidationError | WhereASTError | WhereASTValidationError
  | MetaKeyPolicyError | SchemaIRValidationError | PolicyIRValidationError
  | WriteProtocolError | RuleCompileError | RuleASTError | SchemaReprTemplateError
  | AggregateValidationError | AggregateVariableScopeError | RuleASTValidationError | AttributeError
  | DatabaseError | DuplicateAssertionError | DatabaseIntegrityError | DatabaseLockedError | HeadConflictError

type_synonym 'a res = "py_exc + 'a"

abbreviation Ok :: "'a \<Rightarrow> 'a res" where "Ok \<equiv> Inr"
abbreviation Err :: "py_exc \<Rightarrow> 'a res" where "Err \<equiv> Inl"

definition bindE :: "'a res \<Rightarrow> ('a \<Rightarrow> 'b res) \<Rightarrow> 'b res" where
  "bindE m f = (case m of Inl e \<Rightarrow> Inl e | Inr a \<Rightarrow> f a)"

definition guardE :: "bool \<Rightarrow> py_exc \<Rightarrow> unit res" where
  "guardE b e = (if b then Inr () else Inl e)"

text \<open>\<open>catchE m P h\<close> is \<open>try: m except P: h\<close>, which rewrites the exceptions in \<open>P\<close>.\<close>

definition catchE :: "'a res \<Rightarrow> (py_exc \<Rightarrow> bool) \<Rightarrow> (py_exc \<Rightarrow> 'a res) \<Rightarrow> 'a res" where
  "catchE m P h = (case m of Inl e \<Rightarrow> (if P e then h e else Inl e) | Inr a \<Rightarrow> Inr a)"

primrec mapE :: "('a \<Rightarrow> 'b res) \<Rightarrow> 'a list \<Rightarrow> 'b list res" where
  "mapE f [] = Inr []"
| "mapE f (x # xs) = bindE (f x) (\<lambda>y. bindE (mapE f xs) (\<lambda>ys. Inr (y # ys)))"

primrec foldE :: "('s \<Rightarrow> 'a \<Rightarrow> 's res) \<Rightarrow> 's \<Rightarrow> 'a list \<Rightarrow> 's res" where
  "foldE f s [] = Inr s"
| "foldE f s (x # xs) = bindE (f s x) (\<lambda>s'. foldE f s' xs)"

text \<open>\<open>for x in xs: check(x)\<close>.\<close>

primrec forE :: "('a \<Rightarrow> unit res) \<Rightarrow> 'a list \<Rightarrow> unit res" where
  "forE f [] = Inr ()"
| "forE f (x # xs) = bindE (f x) (\<lambda>_. forE f xs)"

text \<open>\<open>for x in xs: out.extend(f(x))\<close>.\<close>

definition concatE :: "('a \<Rightarrow> 'b list res) \<Rightarrow> 'a list \<Rightarrow> 'b list res" where
  "concatE f xs = bindE (mapE f xs) (\<lambda>yss. Inr (concat yss))"

named_theorems err_simps "rewriting of the error monad"

lemma bindE_simps [simp]:
  "bindE (Inl e) f = Inl e" "bindE (Inr a) f = f a"
  by (simp_all add: bindE_def)

lemma guardE_simps [simp]: "guardE True e = Inr ()" "guardE False e = Inl e"
  by (simp_all add: guardE_def)

lemma catchE_simps [simp]:
  "catchE (Inr a) P h = Inr a" "catchE (Inl e) P h = (if P e then h e else Inl e)"
  by (simp_all add: catchE_def)

lemma bindE_Inr_iff [err_simps]: "bindE m f = Inr b \<longleftrightarrow> (\<exists>a. m = Inr a \<and> f a = Inr b)"
  by (cases m) auto

lemma bindE_Inl_iff:
  "bindE m f = Inl e \<longleftrightarrow> m = Inl e \<or> (\<exists>a. m = Inr a \<and> f a = Inl e)"
  by (cases m) auto

lemma guardE_Inr_iff [err_simps]: "guardE b e = Inr x \<longleftrightarrow> b"
  by (simp add: guardE_def)

lemma guardE_Inl_iff: "guardE b e = Inl e' \<longleftrightarrow> \<not> b \<and> e' = e"
  by (auto simp: guardE_def)

lemma bindE_guardE [simp]: "bindE (guardE b e) f = (if b then f () else Inl e)"
  by (simp add: guardE_def)

lemma bindE_assoc: "bindE (bindE m f) g = bindE m (\<lambda>a. bindE (f a) g)"
  by (cases m) auto

lemma bindE_cong [fundef_cong]:
  "m = m' \<Longrightarrow> (\<And>a. m' = Inr a \<Longrightarrow> f a = f' a) \<Longrightarrow> bindE m f = bindE m' f'"
  by (cases m') auto

lemma mapE_cong [fundef_cong]:
  "xs = ys \<Longrightarrow> (\<And>x. x \<in> set ys \<Longrightarrow> f x = g x) \<Longrightarrow> mapE f xs = mapE g ys"
  by (induction ys arbitrary: xs) auto

lemma forE_cong [fundef_cong]:
  "xs = ys \<Longrightarrow> (\<And>x. x \<in> set ys \<Longrightarrow> f x = g x) \<Longrightarrow> forE f xs = forE g ys"
  by (induction ys arbitrary: xs) auto

lemma concatE_cong [fundef_cong]:
  "xs = ys \<Longrightarrow> (\<And>x. x \<in> set ys \<Longrightarrow> f x = g x) \<Longrightarrow> concatE f xs = concatE g ys"
  unfolding concatE_def by (metis (mono_tags, lifting) mapE_cong)

lemma forE_Inr_iff: "forE f xs = Inr x \<longleftrightarrow> (\<forall>y \<in> set xs. f y = Inr ())"
  by (induction xs) (auto simp: err_simps)

lemma concatE_simps [simp]:
  "concatE f [] = Inr []"
  "concatE f (x # xs) = bindE (f x) (\<lambda>y. bindE (concatE f xs) (\<lambda>ys. Inr (y @ ys)))"
  by (simp_all add: concatE_def) (cases "f x"; cases "mapE f xs"; simp)

lemma concatE_append:
  "concatE f (xs @ ys) = bindE (concatE f xs) (\<lambda>a. bindE (concatE f ys) (\<lambda>b. Inr (a @ b)))"
  by (induction xs) (auto simp: bindE_assoc, cases "concatE f ys", auto)

lemma concatE_member:
  "concatE f xs = Inr ys \<Longrightarrow> y \<in> set ys \<longleftrightarrow> (\<exists>x \<in> set xs. \<exists>zs. f x = Inr zs \<and> y \<in> set zs)"
  by (induction xs arbitrary: ys) (auto simp: err_simps)

lemma mapE_Inr_iff:
  "mapE f xs = Inr ys \<longleftrightarrow> list_all2 (\<lambda>x y. f x = Inr y) xs ys"
  by (induction xs arbitrary: ys) (auto simp: err_simps list_all2_Cons1)

lemma mapE_append:
  "mapE f (xs @ ys) = bindE (mapE f xs) (\<lambda>a. bindE (mapE f ys) (\<lambda>b. Inr (a @ b)))"
  by (induction xs) (auto simp: bindE_assoc, cases "mapE f ys", auto)

lemma foldE_append: "foldE f s (xs @ ys) = bindE (foldE f s xs) (\<lambda>s'. foldE f s' ys)"
  by (induction xs arbitrary: s) (auto simp: bindE_assoc)

lemma foldE_invariant:
  assumes "foldE f s xs = Inr s'" and "P s"
    and "\<And>a x b. x \<in> set xs \<Longrightarrow> P a \<Longrightarrow> f a x = Inr b \<Longrightarrow> P b"
  shows "P s'"
  using assms
proof (induction xs arbitrary: s)
  case Nil
  then show ?case by simp
next
  case (Cons x xs)
  from Cons.prems(1) obtain b where b: "f s x = Inr b" "foldE f b xs = Inr s'"
    by (auto simp: err_simps)
  moreover have "P b" using b Cons.prems(2,3) by auto
  ultimately show ?case using Cons.prems(3) by (intro Cons.IH) auto
qed

section \<open>State and exceptions\<close>

text \<open>
  A step that mutates a state and may raise returns the state it leaves behind together with
  its result: an exception does not undo the mutation unless the code rolls it back.
\<close>

definition thenS :: "'s \<times> 'a res \<Rightarrow> ('s \<Rightarrow> 'a \<Rightarrow> 's \<times> 'b res) \<Rightarrow> 's \<times> 'b res" where
  "thenS p f = (case snd p of Inl e \<Rightarrow> (fst p, Inl e) | Inr a \<Rightarrow> f (fst p) a)"

primrec foldS :: "('s \<Rightarrow> 'a \<Rightarrow> 's \<times> unit res) \<Rightarrow> 's \<Rightarrow> 'a list \<Rightarrow> 's \<times> unit res" where
  "foldS f s [] = (s, Inr ())"
| "foldS f s (x # xs) = thenS (f s x) (\<lambda>s' _. foldS f s' xs)"

lemma thenS_simps [simp]:
  "thenS (s, Inl e) f = (s, Inl e)" "thenS (s, Inr a) f = f s a"
  by (simp_all add: thenS_def)

lemma thenS_Inr_iff:
  "thenS p f = (s, Inr b) \<longleftrightarrow> (\<exists>s' a. p = (s', Inr a) \<and> f s' a = (s, Inr b))"
  by (cases p; cases "snd p") (auto simp: thenS_def)

lemma thenS_invariant:
  assumes "P (fst p)" "\<And>s a. p = (s, Inr a) \<Longrightarrow> P s \<Longrightarrow> P (fst (f s a))"
  shows "P (fst (thenS p f))"
  using assms by (cases p; cases "snd p") (auto simp: thenS_def)

lemma foldS_invariant:
  assumes "P s" "\<And>s x. x \<in> set xs \<Longrightarrow> P s \<Longrightarrow> P (fst (f s x))"
  shows "P (fst (foldS f s xs))"
  using assms
proof (induction xs arbitrary: s)
  case (Cons x xs)
  have "P (fst (thenS (f s x) (\<lambda>s' _. foldS f s' xs)))"
  proof (rule thenS_invariant)
    show "P (fst (f s x))" using Cons.prems by simp
    show "P (fst (foldS f s' xs))" if "P s'" for s'
      using that Cons.prems(2) by (intro Cons.IH) auto
  qed
  then show ?case by simp
qed simp

lemma thenS_assoc: "thenS (thenS p f) g = thenS p (\<lambda>s a. thenS (f s a) g)"
proof -
  obtain s r where "p = (s, r)" by fastforce
  then show ?thesis by (cases r) simp_all
qed

lemma foldS_append:
  "foldS f s (xs @ ys) = thenS (foldS f s xs) (\<lambda>s' _. foldS f s' ys)"
  by (induction xs arbitrary: s) (simp_all add: thenS_assoc)

section \<open>Insertion-ordered dictionaries\<close>

text \<open>
  A \<open>dict\<close> is an association list in insertion order; \<open>d[k] = v\<close> keeps the place of
  an existing key.  \<open>dict_append\<close> is \<open>d.setdefault(k, []).append(x)\<close>.
\<close>

type_synonym ('k, 'v) dict = "('k \<times> 'v) list"

abbreviation dict_set :: "'k \<Rightarrow> 'v \<Rightarrow> ('k, 'v) dict \<Rightarrow> ('k, 'v) dict" where
  "dict_set \<equiv> AList.update"

abbreviation dict_get :: "('k, 'v) dict \<Rightarrow> 'k \<Rightarrow> 'v option" where
  "dict_get \<equiv> map_of"

definition dict_list :: "('k, 'v list) dict \<Rightarrow> 'k \<Rightarrow> 'v list" where
  "dict_list d k = (case map_of d k of None \<Rightarrow> [] | Some xs \<Rightarrow> xs)"

definition dict_append :: "'k \<Rightarrow> 'v \<Rightarrow> ('k, 'v list) dict \<Rightarrow> ('k, 'v list) dict" where
  "dict_append k x d = AList.update k (dict_list d k @ [x]) d"

definition dict_setdefault :: "'k \<Rightarrow> 'v \<Rightarrow> ('k, 'v) dict \<Rightarrow> ('k, 'v) dict" where
  "dict_setdefault k v d = (case map_of d k of None \<Rightarrow> AList.update k v d | Some _ \<Rightarrow> d)"

lemma dict_get_set [simp]: "map_of (AList.update k v d) = (map_of d)(k \<mapsto> v)"
  by (simp add: update_conv')

lemma dict_list_append [simp]:
  "dict_list (dict_append k x d) k' = (if k' = k then dict_list d k @ [x] else dict_list d k')"
  by (simp add: dict_append_def dict_list_def)

lemma dict_list_Nil [simp]: "dict_list [] k = []"
  by (simp add: dict_list_def)

lemma dict_get_setdefault:
  "map_of (dict_setdefault k v d) k' =
     (if k' = k \<and> map_of d k = None then Some v else map_of d k')"
  by (auto simp: dict_setdefault_def split: option.splits)

lemma distinct_keys_dict_set: "distinct (map fst d) \<Longrightarrow> distinct (map fst (AList.update k v d))"
  by (rule distinct_update)

lemma set_keys_dict_set: "fst ` set (AList.update k v d) = insert k (fst ` set d)"
  by (simp add: dom_map_of_conv_image_fst [symmetric])

section \<open>Dictionaries that mirror a list\<close>

text \<open>
  In-memory indexes: dictionaries that mirror a list.  \<open>grouped f xs d\<close> says that \<open>d\<close> maps
  every key to the sublist of \<open>xs\<close> with that key, \<open>latest\<close> that it maps a key to the last
  element with it, \<open>earliest\<close> to the first.  The lemmas say how the code's updates keep them.
\<close>

section \<open>Operations\<close>

text \<open>\<open>rows = d.get(k)\<close>; \<open>rows.remove(x)\<close> when present; \<open>d.pop(k)\<close> when that leaves none.\<close>

definition dict_list_remove :: "'k \<Rightarrow> 'v \<Rightarrow> ('k, 'v list) dict \<Rightarrow> ('k, 'v list) dict" where
  "dict_list_remove k x d = (case map_of d k of
      None \<Rightarrow> d
    | Some rows \<Rightarrow>
        (let rest = remove1 x rows in if rest = [] then AList.delete k d else AList.update k rest d))"

section \<open>What an index mirrors\<close>

definition grouped :: "('a \<Rightarrow> 'k) \<Rightarrow> 'a list \<Rightarrow> ('k, 'a list) dict \<Rightarrow> bool" where
  "grouped f xs d \<longleftrightarrow> (\<forall>k. dict_list d k = filter (\<lambda>x. f x = k) xs)"

definition latest :: "('a \<Rightarrow> 'k) \<Rightarrow> ('a \<Rightarrow> 'v) \<Rightarrow> 'a list \<Rightarrow> ('k, 'v) dict \<Rightarrow> bool" where
  "latest f g xs d \<longleftrightarrow> (\<forall>k. map_of d k = map_of (rev (map (\<lambda>x. (f x, g x)) xs)) k)"

definition earliest :: "('a \<Rightarrow> 'k) \<Rightarrow> ('a \<Rightarrow> 'v) \<Rightarrow> 'a list \<Rightarrow> ('k, 'v) dict \<Rightarrow> bool" where
  "earliest f g xs d \<longleftrightarrow> (\<forall>k. map_of d k = map_of (map (\<lambda>x. (f x, g x)) xs) k)"

named_theorems index_intros "updates keep what an index mirrors"

lemma grouped_Nil [simp]: "grouped f [] []"
  by (simp add: grouped_def)

lemma latest_Nil [simp]: "latest f g [] []"
  by (simp add: latest_def)

lemma earliest_Nil [simp]: "earliest f g [] []"
  by (simp add: earliest_def)

lemma grouped_append [index_intros]:
  "grouped f xs d \<Longrightarrow> k = f x \<Longrightarrow> grouped f (xs @ [x]) (dict_append k x d)"
  by (auto simp: grouped_def)

lemma latest_append [index_intros]:
  "latest f g xs d \<Longrightarrow> k = f x \<Longrightarrow> v = g x \<Longrightarrow> latest f g (xs @ [x]) (AList.update k v d)"
  by (auto simp: latest_def update_conv')

lemma earliest_append [index_intros]:
  "earliest f g xs d \<Longrightarrow> k = f x \<Longrightarrow> v = g x \<Longrightarrow> earliest f g (xs @ [x]) (dict_setdefault k v d)"
  by (auto simp: earliest_def dict_get_setdefault map_add_def split: option.splits)

lemma grouped_lookup: "grouped f xs d \<Longrightarrow> dict_list d k = filter (\<lambda>x. f x = k) xs"
  by (simp add: grouped_def)

lemma grouped_default:
  "grouped f xs d \<Longrightarrow> (case map_of d k of None \<Rightarrow> [] | Some ys \<Rightarrow> ys) = filter (\<lambda>x. f x = k) xs"
  by (simp add: grouped_def dict_list_def)

lemma latest_member: "latest f g xs d \<Longrightarrow> map_of d k \<noteq> None \<longleftrightarrow> k \<in> f ` set xs"
  by (auto simp: latest_def map_of_eq_None_iff image_iff)

lemma latest_SomeD:
  assumes "latest f g xs d" "map_of d k = Some v"
  shows "\<exists>x \<in> set xs. f x = k \<and> g x = v"
proof -
  from assms have "map_of (rev (map (\<lambda>x. (f x, g x)) xs)) k = Some v" by (simp add: latest_def)
  then have "(k, v) \<in> set (rev (map (\<lambda>x. (f x, g x)) xs))" by (rule map_of_SomeD)
  then show ?thesis by auto
qed

lemma latest_distinct:
  assumes "latest f g xs d" "distinct (map f xs)" "x \<in> set xs"
  shows "map_of d (f x) = Some (g x)"
proof -
  have "map fst (rev (map (\<lambda>x. (f x, g x)) xs)) = rev (map f xs)"
    by (simp add: rev_map o_def)
  moreover have "distinct (rev (map f xs))" using assms(2) by simp
  ultimately have "distinct (map fst (rev (map (\<lambda>x. (f x, g x)) xs)))" by metis
  moreover have "(f x, g x) \<in> set (rev (map (\<lambda>x. (f x, g x)) xs))" using assms(3) by auto
  ultimately show ?thesis using assms(1) by (metis latest_def map_of_is_SomeI)
qed

lemma dict_list_list_remove [simp]:
  "dict_list (dict_list_remove k x d) k' =
     (if k' = k then remove1 x (dict_list d k) else dict_list d k')"
  by (auto simp: dict_list_remove_def dict_list_def Let_def AList.delete_conv' split: option.splits)

lemma grouped_remove [index_intros]:
  "grouped f xs d \<Longrightarrow> k = f x \<Longrightarrow> grouped f (remove1 x xs) (dict_list_remove k x d)"
  by (auto simp: grouped_def filter_remove1 remove1_idem filter_empty_conv)

section \<open>Unique index of the present element\<close>

definition unique_index :: "('a \<Rightarrow> 'k) \<Rightarrow> 'a list \<Rightarrow> ('k, 'a) dict \<Rightarrow> bool" where
  "unique_index f xs d \<longleftrightarrow> distinct (map f xs) \<and> (\<forall>k. map_of d k = map_of (map (\<lambda>x. (f x, x)) xs) k)"

lemma unique_index_Nil [simp]: "unique_index f [] []"
  by (simp add: unique_index_def)

lemma unique_index_mem:
  assumes "unique_index f xs d"
  shows "map_of d k = Some x \<longleftrightarrow> x \<in> set xs \<and> f x = k"
proof -
  have "distinct (map fst (map (\<lambda>x. (f x, x)) xs))"
    using assms by (simp add: unique_index_def o_def)
  then have "map_of (map (\<lambda>x. (f x, x)) xs) k = Some x \<longleftrightarrow> (k, x) \<in> set (map (\<lambda>x. (f x, x)) xs)"
    by (rule map_of_eq_Some_iff)
  then show ?thesis using assms by (auto simp: unique_index_def)
qed

lemma unique_index_None:
  assumes "unique_index f xs d"
  shows "map_of d k = None \<longleftrightarrow> k \<notin> f ` set xs"
proof -
  have "map_of d k \<noteq> None \<longleftrightarrow> (\<exists>x. x \<in> set xs \<and> f x = k)"
    by (simp add: unique_index_mem [OF assms, symmetric])
  then show ?thesis by auto
qed

lemma option_eqI:
  assumes "\<And>x. a = Some x \<longleftrightarrow> b = Some x"
  shows "a = b"
  using assms [of "the a"] assms [of "the b"] by (cases a; cases b) simp_all

lemma unique_indexI:
  assumes "distinct (map f xs)" "\<And>k x. map_of d k = Some x \<longleftrightarrow> x \<in> set xs \<and> f x = k"
  shows "unique_index f xs d"
proof -
  have "distinct (map fst (map (\<lambda>x. (f x, x)) xs))" using assms(1) by (simp add: o_def)
  then have m: "map_of (map (\<lambda>x. (f x, x)) xs) k = Some x \<longleftrightarrow> (k, x) \<in> set (map (\<lambda>x. (f x, x)) xs)" for k x
    by (rule map_of_eq_Some_iff)
  have "map_of d k = map_of (map (\<lambda>x. (f x, x)) xs) k" for k
    by (rule option_eqI) (auto simp: m assms(2))
  with assms(1) show ?thesis by (simp add: unique_index_def)
qed

lemma unique_index_append:
  assumes "unique_index f xs d" "f x \<notin> f ` set xs" "k = f x"
  shows "unique_index f (xs @ [x]) (AList.update k x d)"
proof (rule unique_indexI)
  show "distinct (map f (xs @ [x]))"
    using assms by (auto simp: unique_index_def)
  show "map_of (AList.update k x d) j = Some y \<longleftrightarrow> y \<in> set (xs @ [x]) \<and> f y = j" for j y
    using assms(2,3) unique_index_mem [OF assms(1), of j y] by (auto simp: image_iff)
qed

lemma unique_index_remove:
  assumes "unique_index f xs d" "x \<in> set xs" "k = f x"
  shows "unique_index f (remove1 x xs) (AList.delete k d)"
proof (rule unique_indexI)
  have d: "distinct (map f xs)" using assms(1) by (simp add: unique_index_def)
  then have dx: "distinct xs" by (simp add: distinct_map)
  show "distinct (map f (remove1 x xs))"
    using d dx by (auto simp: distinct_map intro: inj_on_subset)
  fix j y
  have "j = f x \<Longrightarrow> y \<in> set xs \<Longrightarrow> f y = j \<Longrightarrow> y = x"
    using d assms(2) by (auto simp: distinct_map inj_on_def)
  then show "map_of (AList.delete k d) j = Some y \<longleftrightarrow> y \<in> set (remove1 x xs) \<and> f y = j"
    using dx assms(3) unique_index_mem [OF assms(1), of j y]
    by (auto simp: AList.delete_conv')
qed

end
