(* ===== verification/Py_Codec.thy ===== *)
theory Py_Codec
  imports Py_Prelude
begin

text \<open>
  The standard-library encoders that the protocol modules call, with their inverses: UTF-8,
  big-endian integers, decimal and hexadecimal text, and the base-64 and base-32 alphabets
  (without padding, as every caller strips it).  Each encoder comes with the round-trip lemma
  the protocol theories rest on.
\<close>

section \<open>Bytes and numbers\<close>

lemma unat_of_nat_byte [simp]: "n < 256 \<Longrightarrow> unat (of_nat n :: byte) = n"
  by (simp add: unat_of_nat)

lemma unat_byte_less [simp]: "unat (b :: byte) < 256"
  using unsigned_less [of b, where 'a = nat] by simp

primrec be_bytes :: "nat \<Rightarrow> nat \<Rightarrow> bytes" where
  "be_bytes 0 n = []"
| "be_bytes (Suc k) n = of_nat (n div 256 ^ k) # be_bytes k n"

lemma be_bytes_numeral:
  "be_bytes (numeral k) n = of_nat (n div 256 ^ pred_numeral k) # be_bytes (pred_numeral k) n"
  by (simp add: numeral_eq_Suc)

definition be_val :: "bytes \<Rightarrow> nat" where
  "be_val bs = foldl (\<lambda>a b. 256 * a + unat b) 0 bs"

lemma length_be_bytes [simp]: "length (be_bytes k n) = k"
  by (induction k) auto

lemma foldl_be_bytes:
  "foldl (\<lambda>a b. 256 * a + unat b) a (be_bytes k n) = a * 256 ^ k + n mod 256 ^ k"
proof (induction k arbitrary: a)
  case 0
  then show ?case by simp
next
  case (Suc k)
  have "n mod 256 ^ Suc k = 256 ^ k * (n div 256 ^ k mod 256) + n mod 256 ^ k"
    using mod_mult2_eq [of n "256 ^ k" 256] by (simp add: mult.commute)
  with Suc show ?case by (simp add: unat_of_nat algebra_simps)
qed

lemma be_val_be_bytes: "n < 256 ^ k \<Longrightarrow> be_val (be_bytes k n) = n"
  by (simp add: be_val_def foldl_be_bytes)

text \<open>\<open>number.to_bytes(4, "big", signed=False)\<close>, which raises on overflow.\<close>

definition u32be :: "nat \<Rightarrow> bytes res" where
  "u32be n = (if n < 2 ^ 32 then Ok (be_bytes 4 n) else Err OverflowError)"

lemma u32be_Ok: "u32be n = Inr b \<Longrightarrow> b = be_bytes 4 n \<and> be_val b = n \<and> length b = 4 \<and> n < 2 ^ 32"
  by (auto simp: u32be_def be_val_be_bytes split: if_splits)

text \<open>A length-framed block can be cut off the front of a byte string in one way only.\<close>

lemma be_val_4: "n < 2 ^ 32 \<Longrightarrow> be_val (be_bytes 4 n) = n"
  by (rule be_val_be_bytes) simp

lemma be_bytes_inj:
  assumes "m < 2 ^ 32" "n < 2 ^ 32" "be_bytes 4 m = be_bytes 4 n"
  shows "m = n"
  using assms(3) be_val_4 [OF assms(1)] be_val_4 [OF assms(2)] by metis

lemma frame_inj:
  assumes "be_bytes 4 (length x) @ x @ r = be_bytes 4 (length y) @ y @ s"
    and "length x < 2 ^ 32" "length y < 2 ^ 32"
  shows "x = y \<and> r = s"
proof -
  from assms(1) have "be_bytes 4 (length x) = be_bytes 4 (length y)" and xy: "x @ r = y @ s"
    using append_eq_append_conv [of "be_bytes 4 (length x)" "be_bytes 4 (length y)"] by auto
  from be_bytes_inj [OF assms(2,3) this(1)] xy show ?thesis
    using append_eq_append_conv [of x y] by auto
qed

section \<open>UTF-8\<close>

definition surrogate :: "nat \<Rightarrow> bool" where
  "surrogate c \<longleftrightarrow> 0xD800 \<le> c \<and> c < 0xE000"

definition utf8_point :: "nat \<Rightarrow> nat list res" where
  "utf8_point c =
     (if c < 0x80 then Ok [c]
      else if c < 0x800 then Ok [0xC0 + c div 64, 0x80 + c mod 64]
      else if surrogate c then Err ValueError
      else if c < 0x10000 then
        Ok [0xE0 + c div 4096, 0x80 + c div 64 mod 64, 0x80 + c mod 64]
      else if c < 0x110000 then
        Ok [0xF0 + c div 262144, 0x80 + c div 4096 mod 64, 0x80 + c div 64 mod 64, 0x80 + c mod 64]
      else Err ValueError)"

definition utf8_encode :: "ustr \<Rightarrow> bytes res" where
  "utf8_encode s = bindE (mapE utf8_point s) (\<lambda>ps. Ok (map of_nat (concat ps)))"

definition cont_byte :: "nat \<Rightarrow> bool" where
  "cont_byte b \<longleftrightarrow> 0x80 \<le> b \<and> b < 0xC0"

fun utf8_dec :: "nat list \<Rightarrow> ustr res" where
  "utf8_dec [] = Ok []"
| "utf8_dec (a # xs) =
     (if a < 0x80 then bindE (utf8_dec xs) (\<lambda>r. Ok (a # r))
      else if 0xC2 \<le> a \<and> a < 0xE0 then
        (case xs of
          b # ys \<Rightarrow>
            if cont_byte b
            then bindE (utf8_dec ys) (\<lambda>r. Ok (((a - 0xC0) * 64 + (b - 0x80)) # r))
            else Err ValueError
        | _ \<Rightarrow> Err ValueError)
      else if 0xE0 \<le> a \<and> a < 0xF0 then
        (case xs of
          b # c # ys \<Rightarrow>
            (let p = (a - 0xE0) * 4096 + (b - 0x80) * 64 + (c - 0x80)
             in if cont_byte b \<and> cont_byte c \<and> 0x800 \<le> p \<and> \<not> surrogate p
                then bindE (utf8_dec ys) (\<lambda>r. Ok (p # r))
                else Err ValueError)
        | _ \<Rightarrow> Err ValueError)
      else if 0xF0 \<le> a \<and> a < 0xF5 then
        (case xs of
          b # c # d # ys \<Rightarrow>
            (let p = (a - 0xF0) * 262144 + (b - 0x80) * 4096 + (c - 0x80) * 64 + (d - 0x80)
             in if cont_byte b \<and> cont_byte c \<and> cont_byte d \<and> 0x10000 \<le> p \<and> p < 0x110000
                then bindE (utf8_dec ys) (\<lambda>r. Ok (p # r))
                else Err ValueError)
        | _ \<Rightarrow> Err ValueError)
      else Err ValueError)"

definition utf8_decode :: "bytes \<Rightarrow> ustr res" where
  "utf8_decode bs = utf8_dec (map unat bs)"

lemma div_mod_64: "(q :: nat) div 64 * 64 + q mod 64 = q"
  by simp

lemma split3: "(c :: nat) = c div 4096 * 4096 + c div 64 mod 64 * 64 + c mod 64"
proof -
  have "c div 4096 = c div 64 div 64" by (simp add: div_mult2_eq [symmetric])
  then show ?thesis using div_mod_64 [of c] div_mod_64 [of "c div 64"] by linarith
qed

lemma split4: "(c :: nat) = c div 262144 * 262144 + c div 4096 mod 64 * 4096 + c div 64 mod 64 * 64 + c mod 64"
proof -
  have "c div 262144 = c div 4096 div 64" by (simp add: div_mult2_eq [symmetric])
  then show ?thesis using split3 [of c] div_mod_64 [of "c div 4096"] by linarith
qed

lemma utf8_dec_point:
  assumes "utf8_point c = Inr ps"
  shows "utf8_dec (ps @ rest) = bindE (utf8_dec rest) (\<lambda>r. Ok (c # r))"
proof -
  consider "c < 0x80" | "0x80 \<le> c" "c < 0x800"
    | "0x800 \<le> c" "\<not> surrogate c" "c < 0x10000"
    | "0x10000 \<le> c" "c < 0x110000"
    using assms by (force simp: utf8_point_def split: if_splits)
  then show ?thesis
  proof cases
    case 1
    with assms have "ps = [c]" by (simp add: utf8_point_def)
    with 1 show ?thesis by simp
  next
    case 2
    with assms have ps: "ps = [0xC0 + c div 64, 0x80 + c mod 64]" by (simp add: utf8_point_def)
    have "2 \<le> c div 64" "c div 64 < 32" using 2 by auto
    then show ?thesis by (simp add: ps cont_byte_def)
  next
    case 3
    with assms have ps: "ps = [0xE0 + c div 4096, 0x80 + c div 64 mod 64, 0x80 + c mod 64]"
      by (simp add: utf8_point_def)
    have "c div 4096 < 16" using 3 by auto
    moreover have "c div 4096 * 4096 + c div 64 mod 64 * 64 + c mod 64 = c"
      using split3 [of c] by simp
    ultimately show ?thesis using 3 by (simp add: ps cont_byte_def Let_def)
  next
    case 4
    then have ns: "\<not> surrogate c" by (simp add: surrogate_def)
    with 4 assms have ps: "ps = [0xF0 + c div 262144, 0x80 + c div 4096 mod 64,
        0x80 + c div 64 mod 64, 0x80 + c mod 64]"
      by (simp add: utf8_point_def)
    have "c div 262144 < 5" using 4 by auto
    moreover have "c div 262144 * 262144 + c div 4096 mod 64 * 4096 + c div 64 mod 64 * 64 + c mod 64 = c"
      using split4 [of c] by simp
    ultimately show ?thesis using 4 by (simp add: ps cont_byte_def Let_def)
  qed
qed

lemma utf8_point_bytes: "utf8_point c = Inr ps \<Longrightarrow> list_all (\<lambda>b. b < 256) ps"
  by (auto simp: utf8_point_def split: if_splits)

lemma utf8_roundtrip_nat: "mapE utf8_point s = Inr ps \<Longrightarrow> utf8_dec (concat ps) = Inr s"
proof (induction s arbitrary: ps)
  case Nil
  then show ?case by simp
next
  case (Cons c s)
  then show ?case by (auto simp: err_simps utf8_dec_point)
qed

lemma utf8_points_bytes: "mapE utf8_point s = Inr ps \<Longrightarrow> list_all (\<lambda>b. b < 256) (concat ps)"
proof (induction s arbitrary: ps)
  case (Cons c s)
  then show ?case by (auto simp: err_simps dest!: utf8_point_bytes)
qed simp

lemma map_unat_of_nat_bytes:
  "list_all (\<lambda>b. b < 256) ns \<Longrightarrow> map unat (map of_nat ns :: bytes) = ns"
  by (induction ns) auto

theorem utf8_roundtrip: "utf8_encode s = Inr b \<Longrightarrow> utf8_decode b = Inr s"
  by (auto simp: utf8_encode_def utf8_decode_def err_simps utf8_roundtrip_nat utf8_points_bytes
      map_unat_of_nat_bytes simp del: map_map)

lemma utf8_encode_inj: "utf8_encode s = Inr b \<Longrightarrow> utf8_encode t = Inr b \<Longrightarrow> s = t"
  using utf8_roundtrip [of s b] utf8_roundtrip [of t b] by simp

lemma utf8_encode_Err: "utf8_encode s = Inl e \<Longrightarrow> e = ValueError"
proof -
  have "mapE utf8_point s = Inl e \<Longrightarrow> e = ValueError" for s
    by (induction s) (auto simp: bindE_Inl_iff utf8_point_def split: if_splits)
  then show "utf8_encode s = Inl e \<Longrightarrow> e = ValueError"
    by (auto simp: utf8_encode_def bindE_Inl_iff)
qed

text \<open>ASCII text is its own encoding.\<close>

lemma utf8_encode_ascii:
  "list_all (\<lambda>c. c < 128) s \<Longrightarrow> utf8_encode s = Inr (map of_nat s)"
proof -
  have "list_all (\<lambda>c. c < 128) s \<Longrightarrow> mapE utf8_point s = Inr (map (\<lambda>c. [c]) s)"
    by (induction s) (auto simp: utf8_point_def)
  moreover have "concat (map (\<lambda>c. [c]) s) = s" by (induction s) auto
  ultimately show "list_all (\<lambda>c. c < 128) s \<Longrightarrow> utf8_encode s = Inr (map of_nat s)"
    by (simp add: utf8_encode_def)
qed

section \<open>Texts of numbers\<close>

text \<open>
  Numbers as text (\<open>str(int)\<close>, \<open>f"{n:016x}"\<close>, \<open>int(text, 16)\<close>) and the base-64 and
  base-32 renderings of byte strings, with their left inverses.
\<close>

section \<open>Decimal text\<close>

fun dec_nat :: "nat \<Rightarrow> ustr" where
  "dec_nat n = (if n < 10 then [48 + n] else dec_nat (n div 10) @ [48 + n mod 10])"

declare dec_nat.simps [simp del]

definition dec_int :: "int \<Rightarrow> ustr" where
  "dec_int i = (if i < 0 then 45 # dec_nat (nat (- i)) else dec_nat (nat i))"

definition dec_val :: "ustr \<Rightarrow> nat" where
  "dec_val s = foldl (\<lambda>a d. 10 * a + (d - 48)) 0 s"

definition dec_int_val :: "ustr \<Rightarrow> int" where
  "dec_int_val s = (case s of [] \<Rightarrow> 0 | c # r \<Rightarrow> if c = 45 then - int (dec_val r) else int (dec_val s))"

definition is_digit :: "nat \<Rightarrow> bool" where
  "is_digit c \<longleftrightarrow> 48 \<le> c \<and> c \<le> 57"

text \<open>\<open>re.fullmatch(r"-?[0-9]+", s)\<close>.\<close>

definition is_dec_int :: "ustr \<Rightarrow> bool" where
  "is_dec_int s =
     (case s of [] \<Rightarrow> False
      | c # r \<Rightarrow> if c = 45 then r \<noteq> [] \<and> list_all is_digit r else list_all is_digit s)"

lemma dec_val_dec_nat [simp]: "dec_val (dec_nat n) = n"
proof (induction n rule: dec_nat.induct)
  case (1 n)
  then show ?case
    by (cases "n < 10") (simp_all add: dec_val_def dec_nat.simps [of n])
qed

lemma dec_nat_digits: "list_all is_digit (dec_nat n)"
proof (induction n rule: dec_nat.induct)
  case (1 n)
  have "n mod 10 < 10" by simp
  then have "n mod 10 \<le> 9" by linarith
  with 1 show ?case
    by (cases "n < 10") (auto simp add: dec_nat.simps [of n] is_digit_def)
qed

lemma dec_nat_nonempty [simp]: "dec_nat n \<noteq> []"
  by (subst dec_nat.simps) simp

lemma dec_nat_first: "dec_nat n = c # r \<Longrightarrow> c \<noteq> 45"
  using dec_nat_digits [of n] by (auto simp: is_digit_def)

lemma dec_int_val_dec_int [simp]: "dec_int_val (dec_int i) = i"
proof (cases "i < 0")
  case True
  then show ?thesis by (simp add: dec_int_def dec_int_val_def)
next
  case False
  obtain c r where cr: "dec_nat (nat i) = c # r"
    by (cases "dec_nat (nat i)") auto
  then have "c \<noteq> 45" by (rule dec_nat_first)
  moreover have "dec_val (c # r) = nat i" using cr dec_val_dec_nat by metis
  ultimately show ?thesis using False cr by (simp add: dec_int_def dec_int_val_def)
qed

lemma dec_int_inj: "dec_int i = dec_int j \<longleftrightarrow> i = j"
  by (metis dec_int_val_dec_int)

lemma is_dec_int_dec_int: "is_dec_int (dec_int i)"
proof (cases "i < 0")
  case True
  then show ?thesis by (simp add: dec_int_def is_dec_int_def dec_nat_digits)
next
  case False
  then show ?thesis
    using dec_nat_digits [of "nat i"]
    by (cases "dec_nat (nat i)") (auto simp: dec_int_def is_dec_int_def dest: dec_nat_first)
qed

section \<open>Hexadecimal text\<close>

definition hex_char :: "nat \<Rightarrow> nat" where
  "hex_char d = (if d < 10 then 48 + d else 87 + d)"

definition is_hex :: "nat \<Rightarrow> bool" where
  "is_hex c \<longleftrightarrow> 48 \<le> c \<and> c \<le> 57 \<or> 97 \<le> c \<and> c \<le> 102"

definition hex_digit :: "nat \<Rightarrow> nat" where
  "hex_digit c = (if c < 58 then c - 48 else c - 87)"

primrec hex_text :: "nat \<Rightarrow> nat \<Rightarrow> ustr" where
  "hex_text 0 n = []"
| "hex_text (Suc k) n = hex_char (n div 16 ^ k mod 16) # hex_text k n"

definition hex_val :: "ustr \<Rightarrow> nat" where
  "hex_val s = foldl (\<lambda>a c. 16 * a + hex_digit c) 0 s"

lemma hex_digit_char [simp]: "d < 16 \<Longrightarrow> hex_digit (hex_char d) = d"
  by (auto simp: hex_digit_def hex_char_def)

lemma hex_char_digit: "is_hex c \<Longrightarrow> hex_char (hex_digit c) = c \<and> hex_digit c < 16"
  by (auto simp: hex_digit_def hex_char_def is_hex_def)

lemma is_hex_char: "d < 16 \<Longrightarrow> is_hex (hex_char d)"
  by (auto simp: hex_char_def is_hex_def)

lemma length_hex_text [simp]: "length (hex_text k n) = k"
  by (induction k) auto

lemma hex_text_is_hex: "list_all is_hex (hex_text k n)"
  by (induction k) (auto intro: is_hex_char)

lemma foldl_hex_text:
  "foldl (\<lambda>a c. 16 * a + hex_digit c) a (hex_text k n) = a * 16 ^ k + n mod 16 ^ k"
proof (induction k arbitrary: a)
  case 0
  then show ?case by simp
next
  case (Suc k)
  have "n mod 16 ^ Suc k = 16 ^ k * (n div 16 ^ k mod 16) + n mod 16 ^ k"
    using mod_mult2_eq [of n "16 ^ k" 16] by (simp add: mult.commute)
  with Suc show ?case by (simp add: algebra_simps)
qed

lemma hex_val_hex_text [simp]: "n < 16 ^ k \<Longrightarrow> hex_val (hex_text k n) = n"
  by (simp add: hex_val_def foldl_hex_text)

lemma hex_val_Cons: "hex_val (c # s) = hex_digit c * 16 ^ length s + hex_val s"
proof -
  have "foldl (\<lambda>a c. 16 * a + hex_digit c) x s = x * 16 ^ length s + hex_val s" for x
  proof (induction s arbitrary: x)
    case (Cons d s)
    show ?case
      using Cons [of "16 * x + hex_digit d"] Cons [of "hex_digit d"]
      by (simp add: hex_val_def algebra_simps)
  qed (simp add: hex_val_def)
  from this [of "hex_digit c"] show ?thesis by (simp add: hex_val_def)
qed

lemma hex_val_less: "list_all is_hex s \<Longrightarrow> hex_val s < 16 ^ length s"
proof (induction s)
  case Nil
  then show ?case by (simp add: hex_val_def)
next
  case (Cons c s)
  then have "hex_digit c \<le> 15" "hex_val s < 16 ^ length s"
    using hex_char_digit [of c] by auto
  then have "hex_digit c * 16 ^ length s \<le> 15 * 16 ^ length s" by (intro mult_right_mono) auto
  with \<open>hex_val s < _\<close> have "hex_digit c * 16 ^ length s + hex_val s < 16 * 16 ^ length s"
    by linarith
  then show ?case by (simp add: hex_val_Cons)
qed

lemma hex_text_hex_val: "list_all is_hex s \<Longrightarrow> hex_text (length s) (hex_val s) = s"
proof (induction s)
  case Nil
  then show ?case by simp
next
  case (Cons c s)
  then have c: "is_hex c" and s: "hex_val s < 16 ^ length s" by (auto simp: hex_val_less)
  have drop: "hex_text k (a * 16 ^ (k + j) + b) = hex_text k b" for a b k j
  proof (induction k arbitrary: j)
    case 0
    then show ?case by simp
  next
    case (Suc k)
    have "a * 16 ^ (Suc k + j) + b = 16 ^ k * (a * 16 ^ Suc j) + b"
      by (simp add: power_add algebra_simps)
    then have "(a * 16 ^ (Suc k + j) + b) div 16 ^ k = 16 * (a * 16 ^ j) + b div 16 ^ k"
      by (simp only: div_mult_self4) simp
    then have "(a * 16 ^ (Suc k + j) + b) div 16 ^ k mod 16 = b div 16 ^ k mod 16"
      by (simp only: mod_mult_self4)
    with Suc.IH [of "Suc j"] show ?case by simp
  qed
  have "(hex_digit c * 16 ^ length s + hex_val s) div 16 ^ length s = hex_digit c"
    using s by simp
  then show ?case
    using Cons c s drop [of "length s" "hex_digit c" 0 "hex_val s"] hex_char_digit [of c]
    by (simp add: hex_val_Cons)
qed

end
