(* ===== verification/Py_Base.thy ===== *)
theory Py_Base
  imports Py_Codec
begin

text \<open>
  \<open>base64.b64encode\<close>, \<open>base64.urlsafe_b64encode\<close> and \<open>base64.b32encode\<close> with the
  padding stripped: the bits of the input, cut in groups of 6 or 5 (the last one filled with
  zero bits), each group one character.  \<open>base_decode\<close> is the strict inverse.
\<close>

section \<open>Bits\<close>

primrec bits_be :: "nat \<Rightarrow> nat \<Rightarrow> bool list" where
  "bits_be 0 n = []"
| "bits_be (Suc w) n = odd (n div 2 ^ w) # bits_be w n"

definition unbits :: "bool list \<Rightarrow> nat" where
  "unbits bs = foldl (\<lambda>a b. 2 * a + of_bool b) 0 bs"

lemma length_bits_be [simp]: "length (bits_be w n) = w"
  by (induction w) auto

lemma foldl_unbits: "foldl (\<lambda>a b. 2 * a + of_bool b) x bs = x * 2 ^ length bs + unbits bs"
proof (induction bs arbitrary: x)
  case Nil
  then show ?case by (simp add: unbits_def)
next
  case (Cons b bs)
  show ?case
    using Cons [of "2 * x + of_bool b"] Cons [of "of_bool b"]
    by (simp add: unbits_def algebra_simps)
qed

lemma unbits_Cons: "unbits (b # bs) = of_bool b * 2 ^ length bs + unbits bs"
  using foldl_unbits [of "of_bool b" bs] by (simp add: unbits_def)

lemma unbits_less: "unbits bs < 2 ^ length bs"
proof (induction bs)
  case Nil
  then show ?case by (simp add: unbits_def)
next
  case (Cons b bs)
  then show ?case by (cases b) (simp_all add: unbits_Cons)
qed

lemma unbits_bits_be: "unbits (bits_be w n) = n mod 2 ^ w"
proof (induction w)
  case 0
  then show ?case by (simp add: unbits_def)
next
  case (Suc w)
  have "n mod 2 ^ Suc w = 2 ^ w * (n div 2 ^ w mod 2) + n mod 2 ^ w"
    using mod_mult2_eq [of n "2 ^ w" 2] by (simp add: mult.commute)
  moreover have "of_bool (odd (n div 2 ^ w)) = n div 2 ^ w mod 2"
    by (simp add: mod_2_eq_odd)
  ultimately show ?case using Suc by (simp add: unbits_Cons)
qed

lemma bits_be_add: "bits_be w (a * 2 ^ (w + j) + b) = bits_be w b"
proof (induction w arbitrary: j)
  case 0
  then show ?case by simp
next
  case (Suc w)
  have "a * 2 ^ (Suc w + j) + b = 2 ^ w * (2 * (a * 2 ^ j)) + b"
    by (simp add: power_add algebra_simps)
  then have "(a * 2 ^ (Suc w + j) + b) div 2 ^ w = 2 * (a * 2 ^ j) + b div 2 ^ w"
    by (simp only: div_mult_self4) simp
  then have "odd ((a * 2 ^ (Suc w + j) + b) div 2 ^ w) = odd (b div 2 ^ w)" by simp
  with Suc.IH [of "Suc j"] show ?case by simp
qed

lemma bits_be_unbits: "bits_be (length bs) (unbits bs) = bs"
proof (induction bs)
  case Nil
  then show ?case by simp
next
  case (Cons b bs)
  have "(of_bool b * 2 ^ length bs + unbits bs) div 2 ^ length bs = (of_bool b :: nat)"
    using unbits_less [of bs] by simp
  then show ?case
    using Cons bits_be_add [of "length bs" "of_bool b" 0 "unbits bs"]
    by (simp add: unbits_Cons)
qed

section \<open>Groups\<close>

text \<open>Cut into groups of \<open>k\<close>, the last one filled up with \<open>False\<close>.\<close>

function chunks :: "nat \<Rightarrow> bool list \<Rightarrow> bool list list" where
  "chunks k xs = (if k = 0 \<or> xs = [] then []
     else take k (xs @ replicate k False) # chunks k (drop k xs))"
  by pat_completeness auto
termination by (relation "measure (\<lambda>(k, xs). length xs)") auto

declare chunks.simps [simp del]

lemma chunks_Nil [simp]: "chunks k [] = []"
  by (simp add: chunks.simps)

lemma chunks_step: "0 < k \<Longrightarrow> xs \<noteq> [] \<Longrightarrow>
    chunks k xs = take k (xs @ replicate k False) # chunks k (drop k xs)"
  by (simp add: chunks.simps [of k xs])

lemma chunks_length: "c \<in> set (chunks k xs) \<Longrightarrow> length c = k"
proof (induction k xs rule: chunks.induct)
  case (1 k xs)
  then show ?case by (cases "k = 0 \<or> xs = []") (auto simp: chunks.simps [of k xs])
qed

lemma concat_chunks:
  "0 < k \<Longrightarrow> \<exists>r < k. concat (chunks k xs) = xs @ replicate r False"
proof (induction k xs rule: chunks.induct)
  case (1 k xs)
  show ?case
  proof (cases "xs = []")
    case True
    with "1.prems" show ?thesis by auto
  next
    case False
    with "1.prems" have st: "chunks k xs = take k (xs @ replicate k False) # chunks k (drop k xs)"
      by (rule chunks_step)
    show ?thesis
    proof (cases "k \<le> length xs")
      case True
      from "1.IH" False "1.prems" obtain r where "r < k"
        "concat (chunks k (drop k xs)) = drop k xs @ replicate r False" by auto
      with st True show ?thesis by (auto simp: append_assoc [symmetric])
    next
      case sm: False
      then have "concat (chunks k xs) = xs @ replicate (k - length xs) False"
        by (simp add: st)
      moreover have "k - length xs < k" using False sm by simp
      ultimately show ?thesis by blast
    qed
  qed
qed

lemma chunks_concat:
  "0 < k \<Longrightarrow> \<forall>c \<in> set cs. length c = k \<Longrightarrow> chunks k (concat cs) = cs"
  by (induction cs) (auto simp: chunks_step)

section \<open>The alphabets\<close>

definition byte_bits :: "bytes \<Rightarrow> bool list" where
  "byte_bits bs = concat (map (\<lambda>b. bits_be 8 (unat b)) bs)"

definition base_encode :: "nat \<Rightarrow> (nat \<Rightarrow> nat) \<Rightarrow> bytes \<Rightarrow> ustr" where
  "base_encode k al bs = map (\<lambda>c. al (unbits c)) (chunks k (byte_bits bs))"

definition base_decode :: "nat \<Rightarrow> (nat \<Rightarrow> nat option) \<Rightarrow> ustr \<Rightarrow> bytes option" where
  "base_decode k iv cs =
     (if list_all (\<lambda>c. iv c \<noteq> None) cs
      then (let bits = concat (map (\<lambda>c. bits_be k (the (iv c))) cs);
                n = length bits div 8
            in Some (map (\<lambda>g. of_nat (unbits g)) (chunks 8 (take (8 * n) bits))))
      else None)"

lemma length_byte_bits [simp]: "length (byte_bits bs) = 8 * length bs"
  by (induction bs) (auto simp: byte_bits_def)

lemma base_roundtrip:
  assumes k: "0 < k" "k \<le> 8" and alph: "\<And>v. v < 2 ^ k \<Longrightarrow> iv (al v) = Some v"
  shows "base_decode k iv (base_encode k al bs) = Some bs"
proof -
  let ?g = "chunks k (byte_bits bs)"
  have v: "iv (al (unbits c)) = Some (unbits c) \<and> bits_be k (unbits c) = c" if "c \<in> set ?g" for c
    using that unbits_less [of c] bits_be_unbits [of c] by (auto simp: alph chunks_length)
  then have all: "list_all (\<lambda>c. iv c \<noteq> None) (base_encode k al bs)"
    by (auto simp: base_encode_def list_all_iff)
  have bk: "concat (map (\<lambda>c. bits_be k (the (iv c))) (base_encode k al bs)) = concat ?g"
    unfolding base_encode_def using v by (simp add: o_def cong: map_cong)
  obtain r where r: "r < k" "concat ?g = byte_bits bs @ replicate r False"
    using concat_chunks [OF k(1)] by blast
  have "(8 * length bs + r) div 8 = length bs" using r(1) k(2) by simp
  then have tk: "take (8 * (length (concat ?g) div 8)) (concat ?g) = byte_bits bs"
    by (simp add: r(2))
  have "chunks 8 (byte_bits bs) = map (\<lambda>b. bits_be 8 (unat b)) bs"
    unfolding byte_bits_def by (rule chunks_concat) auto
  then have "map (\<lambda>g. of_nat (unbits g)) (chunks 8 (byte_bits bs)) = bs"
    by (simp add: o_def unbits_bits_be)
  with all tk show ?thesis unfolding base_decode_def bk by (simp add: Let_def)
qed

text \<open>
  The last two characters of the base-64 alphabet are \<open>+ /\<close>, or \<open>- _\<close> in the URL-safe
  one; base 32 uses \<open>a .. z 2 .. 7\<close> after \<open>lower()\<close>.
\<close>

definition b64_char :: "nat \<Rightarrow> nat \<Rightarrow> nat \<Rightarrow> nat" where
  "b64_char c62 c63 v =
     (if v < 26 then 65 + v else if v < 52 then 71 + v else if v < 62 then v - 4
      else if v = 62 then c62 else c63)"

definition b64_inv :: "nat \<Rightarrow> nat \<Rightarrow> nat \<Rightarrow> nat option" where
  "b64_inv c62 c63 c =
     (if c = c62 then Some 62 else if c = c63 then Some 63
      else if 65 \<le> c \<and> c \<le> 90 then Some (c - 65)
      else if 97 \<le> c \<and> c \<le> 122 then Some (c - 71)
      else if 48 \<le> c \<and> c \<le> 57 then Some (c + 4) else None)"

definition b64url_encode :: "bytes \<Rightarrow> ustr" where
  "b64url_encode = base_encode 6 (b64_char 45 95)"

definition b64url_decode :: "ustr \<Rightarrow> bytes option" where
  "b64url_decode = base_decode 6 (b64_inv 45 95)"

definition b32_char :: "nat \<Rightarrow> nat" where
  "b32_char v = (if v < 26 then 97 + v else 24 + v)"

definition b32_inv :: "nat \<Rightarrow> nat option" where
  "b32_inv c = (if 97 \<le> c \<and> c \<le> 122 then Some (c - 97)
     else if 50 \<le> c \<and> c \<le> 55 then Some (c - 24) else None)"

definition b32_lower_encode :: "bytes \<Rightarrow> ustr" where
  "b32_lower_encode = base_encode 5 b32_char"

lemma b64url_roundtrip [simp]: "b64url_decode (b64url_encode bs) = Some bs"
  unfolding b64url_decode_def b64url_encode_def
  by (rule base_roundtrip) (auto simp: b64_char_def b64_inv_def)

lemma b64url_encode_inj: "b64url_encode a = b64url_encode b \<longleftrightarrow> a = b"
  by (metis b64url_roundtrip option.inject)

lemma b32_roundtrip: "base_decode 5 b32_inv (b32_lower_encode bs) = Some bs"
  unfolding b32_lower_encode_def by (rule base_roundtrip) (auto simp: b32_char_def b32_inv_def)

lemma b32_lower_encode_inj: "b32_lower_encode a = b32_lower_encode b \<longleftrightarrow> a = b"
  by (metis b32_roundtrip option.inject)

text \<open>\<open>base64.b64encode\<close> with its padding, and the decoder.\<close>

definition b64_encode :: "bytes \<Rightarrow> ustr" where
  "b64_encode b = base_encode 6 (b64_char 43 47) b @ replicate ((3 - length b mod 3) mod 3) 61"

definition b64_decode :: "ustr \<Rightarrow> bytes option" where
  "b64_decode s = base_decode 6 (b64_inv 43 47) (takeWhile (\<lambda>c. c \<noteq> 61) s)"

lemma b64_roundtrip [simp]: "b64_decode (b64_encode bs) = Some bs"
proof -
  have "c \<noteq> 61" if "c \<in> set (base_encode 6 (b64_char 43 47) bs)" for c
    using that by (auto simp: base_encode_def b64_char_def split: if_splits)
  then have "takeWhile (\<lambda>c. c \<noteq> 61) (b64_encode bs) = base_encode 6 (b64_char 43 47) bs"
    by (simp add: b64_encode_def takeWhile_append2)
  moreover have "base_decode 6 (b64_inv 43 47) (base_encode 6 (b64_char 43 47) bs) = Some bs"
    by (rule base_roundtrip) (auto simp: b64_char_def b64_inv_def)
  ultimately show ?thesis by (simp add: b64_decode_def)
qed

end
