(* ===== verification/Tup_V1.thy ===== *)
theory Tup_V1
  imports Py_Base
begin

text \<open>
  \<^verbatim>\<open>core/protocol/tup_v1.py\<close>: the canonical byte encoding of a tuple of tagged values
  (each value framed by a tag byte and a four-byte length) and the claim-argument rows that
  the ledger stores for the same tuple.  A float is its 64 bits.  The lemmas show that the
  bytes determine the rows and the rows the bytes, so a digest of the bytes identifies the
  stored row and nothing else.
\<close>

section \<open>Constants\<close>

definition TUP_V1_PREFIX :: bytes where
  "TUP_V1_PREFIX = map of_nat (u ''factpy'' @ [0] @ u ''tup_v1'' @ [0])"

definition INT64_MIN :: int where "INT64_MIN = - (2 ^ 63)"
definition INT64_MAX :: int where "INT64_MAX = 2 ^ 63 - 1"

definition TAG_CODE_BY_NAME :: "(ustr \<times> byte) list" where
  "TAG_CODE_BY_NAME =
     [(u ''string'', 1), (u ''int'', 2), (u ''float64'', 3), (u ''bool'', 4), (u ''bytes'', 5),
      (u ''time'', 6), (u ''uuid'', 7), (u ''entity_ref'', 8)]"

definition TAG_NAME_BY_CODE :: "(byte \<times> ustr) list" where
  "TAG_NAME_BY_CODE = map (\<lambda>(name, code). (code, name)) TAG_CODE_BY_NAME"

definition ENTITY_REF_PREFIX :: ustr where "ENTITY_REF_PREFIX = u ''idref_v1:''"

text \<open>\<open>UUID_CANONICAL_RE.fullmatch\<close> and \<open>FLOAT64_HEX_RE.fullmatch\<close>.\<close>

definition is_uuid :: "ustr \<Rightarrow> bool" where
  "is_uuid s \<longleftrightarrow> length s = 36 \<and>
     list_all (\<lambda>i. if i \<in> {8, 13, 18, 23} then s ! i = 45 else is_hex (s ! i)) [0..<36]"

definition is_float64_hex :: "ustr \<Rightarrow> bool" where
  "is_float64_hex s \<longleftrightarrow> length s = 18 \<and> starts_with s (u ''0x'') \<and> list_all is_hex (drop 2 s)"

section \<open>Values\<close>

definition require_int64 :: "pyval \<Rightarrow> int res" where
  "require_int64 v = (case v of
      PInt i \<Rightarrow> if i < INT64_MIN \<or> i > INT64_MAX then Err ValueError else Ok i
    | _ \<Rightarrow> Err ValueError)"

definition encode_string :: "pyval \<Rightarrow> bytes res" where
  "encode_string v = (case v of PStr s \<Rightarrow> utf8_encode s | _ \<Rightarrow> Err ValueError)"

definition encode_entity_ref :: "pyval \<Rightarrow> bytes res" where
  "encode_entity_ref v = (case v of
      PStr s \<Rightarrow> if starts_with s ENTITY_REF_PREFIX then encode_string v else Err ValueError
    | _ \<Rightarrow> Err ValueError)"

definition int_to_canonical_text :: "int \<Rightarrow> ustr" where
  "int_to_canonical_text i = (if i = 0 then u ''0'' else dec_int i)"

text \<open>\<open>math.isfinite\<close> of the float with the given bits: the exponent is not all ones.\<close>

definition float64_finite :: "nat \<Rightarrow> bool" where
  "float64_finite n \<longleftrightarrow> n div 2 ^ 52 mod 2048 \<noteq> 2047"

definition float64_bits :: "pyval \<Rightarrow> nat res" where
  "float64_bits v =
     bindE (case v of
         PFloat w \<Rightarrow>
           if \<not> float64_finite (unat w) then Err ValueError
           else Ok (if unat w = 0 \<or> unat w = 2 ^ 63 then 0 else unat w)
       | PStr s \<Rightarrow> if is_float64_hex s then Ok (hex_val (drop 2 s)) else Err ValueError
       | _ \<Rightarrow> Err ValueError)
       (\<lambda>bits. let bits = (if bits = 0x8000000000000000 then 0 else bits)
               in if float64_finite bits then Ok bits else Err ValueError)"

definition encode_bool :: "pyval \<Rightarrow> bytes res" where
  "encode_bool v = (case v of PBool b \<Rightarrow> Ok (if b then [1] else [0]) | _ \<Rightarrow> Err ValueError)"

definition to_raw_bytes :: "pyval \<Rightarrow> bytes res" where
  "to_raw_bytes v = (case v of PBytes k b \<Rightarrow> Ok b | _ \<Rightarrow> Err ValueError)"

text \<open>\<open>bytes.fromhex\<close> on lower-case digits.\<close>

fun from_hex :: "ustr \<Rightarrow> bytes" where
  "from_hex (a # b # r) = of_nat (16 * hex_digit a + hex_digit b) # from_hex r"
| "from_hex _ = []"

definition uuid_bytes :: "pyval \<Rightarrow> bytes res" where
  "uuid_bytes v = (case v of
      PStr s \<Rightarrow> if is_uuid s then Ok (from_hex (filter (\<lambda>c. c \<noteq> 45) s)) else Err ValueError
    | _ \<Rightarrow> Err ValueError)"

definition normalize_tag :: "pyval \<Rightarrow> ustr res" where
  "normalize_tag t = (case t of
      PStr s \<Rightarrow> if map_of TAG_CODE_BY_NAME s = None then Err ValueError else Ok s
    | _ \<Rightarrow> Err ValueError)"

text \<open>\<open>struct.pack(">q", n)\<close>: eight bytes, two's complement.\<close>

definition pack_q :: "int \<Rightarrow> bytes" where
  "pack_q i = be_bytes 8 (nat (i mod 2 ^ 64))"

definition encode_value_bytes :: "pyval \<Rightarrow> pyval \<Rightarrow> bytes res" where
  "encode_value_bytes tag value =
     bindE (normalize_tag tag) (\<lambda>t.
       if t = u ''entity_ref'' then encode_entity_ref value
       else if t = u ''string'' then encode_string value
       else if t = u ''int'' then
         bindE (require_int64 value) (\<lambda>i. Ok (map of_nat (int_to_canonical_text i)))
       else if t = u ''float64'' then bindE (float64_bits value) (\<lambda>n. Ok (be_bytes 8 n))
       else if t = u ''bool'' then encode_bool value
       else if t = u ''bytes'' then to_raw_bytes value
       else if t = u ''time'' then bindE (require_int64 value) (\<lambda>i. Ok (pack_q i))
       else if t = u ''uuid'' then uuid_bytes value
       else Err ValueError)"

definition tag_code :: "ustr \<Rightarrow> byte" where
  "tag_code t = the (map_of TAG_CODE_BY_NAME t)"

definition canonical_item :: "pyval \<Rightarrow> bytes res" where
  "canonical_item item = (case item of
      PTuple [tag, value] \<Rightarrow>
        bindE (normalize_tag tag) (\<lambda>t.
        bindE (encode_value_bytes (PStr t) value) (\<lambda>payload.
        bindE (u32be (length payload)) (\<lambda>n.
        Ok ([tag_code t] @ n @ payload))))
    | _ \<Rightarrow> Err ValueError)"

definition canonical_bytes_tup_v1 :: "pyval list \<Rightarrow> bytes res" where
  "canonical_bytes_tup_v1 rest_terms =
     bindE (u32be (length rest_terms)) (\<lambda>n.
     bindE (mapE canonical_item rest_terms) (\<lambda>items.
     Ok (TUP_V1_PREFIX @ n @ concat items)))"

section \<open>Claim arguments\<close>

type_synonym arg_row = "nat \<times> pyval \<times> ustr"

definition val_atom_for_claim_arg :: "ustr \<Rightarrow> pyval \<Rightarrow> pyval res" where
  "val_atom_for_claim_arg tag value =
     (if tag = u ''entity_ref'' then
        bindE (encode_entity_ref value) (\<lambda>b. bindE (utf8_decode b) (\<lambda>s. Ok (PStr s)))
      else if tag = u ''string'' then
        bindE (encode_string value) (\<lambda>b. bindE (utf8_decode b) (\<lambda>s. Ok (PStr s)))
      else if tag = u ''int'' then bindE (require_int64 value) (\<lambda>i. Ok (PInt i))
      else if tag = u ''float64'' then
        bindE (float64_bits value) (\<lambda>n. Ok (PStr (u ''0x'' @ hex_text 16 n)))
      else if tag = u ''bool'' then (case value of PBool b \<Rightarrow> Ok value | _ \<Rightarrow> Err ValueError)
      else if tag = u ''bytes'' then bindE (to_raw_bytes value) (\<lambda>b. Ok (PStr (b64url_encode b)))
      else if tag = u ''time'' then bindE (require_int64 value) (\<lambda>i. Ok (PInt i))
      else if tag = u ''uuid'' then
        (case value of PStr s \<Rightarrow> if is_uuid s then Ok value else Err ValueError
         | _ \<Rightarrow> Err ValueError)
      else Err ValueError)"

definition claim_arg_item :: "pyval \<Rightarrow> (pyval \<times> ustr) res" where
  "claim_arg_item item = (case item of
      PTuple [tag, value] \<Rightarrow>
        bindE (normalize_tag tag) (\<lambda>t.
        bindE (val_atom_for_claim_arg t value) (\<lambda>a. Ok (a, t)))
    | _ \<Rightarrow> Err ValueError)"

definition claim_args_from_rest_terms :: "pyval list \<Rightarrow> arg_row list res" where
  "claim_args_from_rest_terms rest_terms =
     bindE (mapE claim_arg_item rest_terms) (\<lambda>ats.
       let rows = enumerate 0 ats
       in if list_all (\<lambda>(expected_idx, row). fst row = expected_idx) (enumerate 0 rows)
          then Ok rows else Err ValueError)"

section \<open>Reading the bytes back\<close>

text \<open>
  The specification the encoder is checked against: a reader of the framed bytes that yields
  claim-argument rows.  The code has no such reader; its existence as a left inverse is what
  makes the encoding injective.
\<close>

definition uuid_text :: "ustr \<Rightarrow> ustr" where
  "uuid_text ds = take 8 ds @ [45] @ take 4 (drop 8 ds) @ [45] @ take 4 (drop 12 ds) @ [45] @
     take 4 (drop 16 ds) @ [45] @ drop 20 ds"

definition signed64 :: "nat \<Rightarrow> int" where
  "signed64 n = (if n < 2 ^ 63 then int n else int n - 2 ^ 64)"

definition ok_str :: "ustr res \<Rightarrow> ustr" where
  "ok_str r = (case r of Inr s \<Rightarrow> s | Inl _ \<Rightarrow> [])"

definition atom_of_payload :: "ustr \<Rightarrow> bytes \<Rightarrow> pyval" where
  "atom_of_payload t b =
     (if t = u ''entity_ref'' \<or> t = u ''string'' then PStr (ok_str (utf8_decode b))
      else if t = u ''int'' then PInt (dec_int_val (map unat b))
      else if t = u ''float64'' then PStr (u ''0x'' @ hex_text 16 (be_val b))
      else if t = u ''bool'' then PBool (b = [1])
      else if t = u ''bytes'' then PStr (b64url_encode b)
      else if t = u ''time'' then PInt (signed64 (be_val b))
      else PStr (uuid_text (concat (map (\<lambda>x. hex_text 2 (unat x)) b))))"

fun decode_items :: "nat \<Rightarrow> bytes \<Rightarrow> (pyval \<times> ustr) list" where
  "decode_items 0 bs = []"
| "decode_items (Suc n) bs =
     (let t = the (map_of TAG_NAME_BY_CODE (hd bs));
          len = be_val (take 4 (drop 1 bs))
      in (atom_of_payload t (take len (drop 5 bs)), t) # decode_items n (drop (5 + len) bs))"

definition decode_tup_v1 :: "bytes \<Rightarrow> arg_row list" where
  "decode_tup_v1 bs =
     (let k = length TUP_V1_PREFIX
      in enumerate 0 (decode_items (be_val (take 4 (drop k bs))) (drop (k + 4) bs)))"

text \<open>The other direction: the payload that belongs to a claim argument.\<close>

definition payload_of_atom :: "ustr \<Rightarrow> pyval \<Rightarrow> bytes res" where
  "payload_of_atom t a =
     (if t = u ''bytes''
      then (case a of PStr s \<Rightarrow> (case b64url_decode s of Some b \<Rightarrow> Ok b | None \<Rightarrow> Err ValueError)
            | _ \<Rightarrow> Err ValueError)
      else encode_value_bytes (PStr t) a)"

lemma normalize_tag_Ok:
  "normalize_tag v = Inr t \<longleftrightarrow> v = PStr t \<and> t \<in>
     {u ''string'', u ''int'', u ''float64'', u ''bool'', u ''bytes'', u ''time'', u ''uuid'',
      u ''entity_ref''}"
  by (cases v) (auto simp: normalize_tag_def TAG_CODE_BY_NAME_def)

lemma normalize_tag_PStr:
  "t \<in> {u ''string'', u ''int'', u ''float64'', u ''bool'', u ''bytes'', u ''time'', u ''uuid'',
      u ''entity_ref''} \<Longrightarrow> normalize_tag (PStr t) = Inr t"
  by (simp add: normalize_tag_Ok)

lemma tag_code_name: "normalize_tag v = Inr t \<Longrightarrow> map_of TAG_NAME_BY_CODE (tag_code t) = Some t"
  by (auto simp: normalize_tag_Ok TAG_NAME_BY_CODE_def TAG_CODE_BY_NAME_def tag_code_def)

lemma int_text_simp: "int_to_canonical_text i = dec_int i"
  by (simp add: int_to_canonical_text_def dec_int_def dec_nat.simps u_def)

lemma dec_int_bytes: "list_all (\<lambda>b. b < 256) (dec_int i)"
  using dec_nat_digits [of "nat i"] dec_nat_digits [of "nat (- i)"]
  by (auto simp: dec_int_def is_digit_def list_all_iff)

lemma signed64_pack:
  assumes "INT64_MIN \<le> i" "i \<le> INT64_MAX"
  shows "signed64 (be_val (pack_q i)) = i"
proof -
  have "i mod 2 ^ 64 < 2 ^ 64" by simp
  then have v: "be_val (pack_q i) = nat (i mod 2 ^ 64)"
    unfolding pack_q_def by (intro be_val_be_bytes) (simp add: nat_less_iff)
  show ?thesis
  proof (cases "0 \<le> i")
    case True
    with assms have "i mod 2 ^ 64 = i" by (intro mod_pos_pos_trivial) (auto simp: INT64_MAX_def)
    with True assms v show ?thesis by (simp add: signed64_def INT64_MAX_def nat_less_iff)
  next
    case False
    have "i mod 2 ^ 64 = (i + 2 ^ 64) mod 2 ^ 64" by simp
    also have "\<dots> = i + 2 ^ 64"
      using False assms by (intro mod_pos_pos_trivial) (auto simp: INT64_MIN_def)
    finally have m: "i mod 2 ^ 64 = i + 2 ^ 64" .
    with False assms v show ?thesis by (simp add: signed64_def INT64_MIN_def nat_less_iff)
  qed
qed

lemma float64_bits_less: "float64_bits v = Inr n \<Longrightarrow> n < 2 ^ 64"
proof -
  assume a: "float64_bits v = Inr n"
  show ?thesis
  proof (cases v)
    case (PFloat w)
    have "unat w < 2 ^ 64" using unsigned_less [of w, where 'a = nat] by simp
    with a PFloat show ?thesis by (auto simp: float64_bits_def Let_def split: if_splits)
  next
    case (PStr s)
    have "hex_val (drop 2 s) < 16 ^ 16" if "is_float64_hex s"
      using that hex_val_less [of "drop 2 s"] by (simp add: is_float64_hex_def)
    with a PStr show ?thesis by (auto simp: float64_bits_def Let_def split: if_splits)
  qed (use a in \<open>auto simp: float64_bits_def\<close>)
qed

lemma hex_pair: "is_hex a \<Longrightarrow> is_hex b \<Longrightarrow>
    hex_text 2 (unat (of_nat (16 * hex_digit a + hex_digit b) :: byte)) = [a, b]"
proof -
  assume "is_hex a" "is_hex b"
  then have a: "hex_char (hex_digit a) = a" "hex_digit a < 16"
    and b: "hex_char (hex_digit b) = b" "hex_digit b < 16"
    by (auto dest: hex_char_digit)
  then have "16 * hex_digit a + hex_digit b < 256" by linarith
  then have "unat (of_nat (16 * hex_digit a + hex_digit b) :: byte) = 16 * hex_digit a + hex_digit b"
    by (rule unat_of_nat_byte)
  with a b show ?thesis by (simp add: numeral_2_eq_2 del: of_nat_add of_nat_mult)
qed

lemma from_hex_back:
  "list_all is_hex ds \<Longrightarrow> even (length ds) \<Longrightarrow>
     concat (map (\<lambda>x. hex_text 2 (unat x)) (from_hex ds)) = ds"
  by (induction ds rule: from_hex.induct) (auto simp: hex_pair simp del: of_nat_add of_nat_mult)

lemma hex_segment:
  assumes "\<forall>j < n. is_hex (s ! (k + j))" "k + n \<le> length s"
  shows "filter (\<lambda>c. c \<noteq> 45) (take n (drop k s)) = take n (drop k s)"
    and "list_all is_hex (take n (drop k s))"
proof -
  have el: "is_hex c" if c: "c \<in> set (take n (drop k s))" for c
  proof -
    from c obtain j where "j < length (take n (drop k s))" "c = take n (drop k s) ! j"
      by (auto simp: in_set_conv_nth)
    with assms show ?thesis by simp
  qed
  show "filter (\<lambda>c. c \<noteq> 45) (take n (drop k s)) = take n (drop k s)"
    using el [of 45] by (auto simp: filter_id_conv is_hex_def)
  show "list_all is_hex (take n (drop k s))"
    using el by (auto simp: list_all_iff)
qed

lemma uuid_shape:
  assumes "is_uuid s"
  obtains a b c d e where "s = a @ 45 # b @ 45 # c @ 45 # d @ 45 # e"
    "length a = 8" "length b = 4" "length c = 4" "length d = 4" "length e = 12"
    "list_all is_hex (a @ b @ c @ d @ e)"
    "filter (\<lambda>x. x \<noteq> 45) s = a @ b @ c @ d @ e"
proof -
  from assms have len: "length s = 36" by (simp add: is_uuid_def)
  have at: "if i \<in> {8, 13, 18, 23} then s ! i = 45 else is_hex (s ! i)" if "i < 36" for i
    using assms that unfolding is_uuid_def list_all_iff by (metis atLeast0LessThan atLeastLessThan_upt lessThan_iff)
  have dash: "s ! 8 = 45" "s ! 13 = 45" "s ! 18 = 45" "s ! 23 = 45"
    using at [of 8] at [of 13] at [of 18] at [of 23] by simp_all
  have hexs: "is_hex (s ! i)" if "i < 36" "i \<noteq> 8" "i \<noteq> 13" "i \<noteq> 18" "i \<noteq> 23" for i
    using at [of i] that by simp
  let ?a = "take 8 (drop 0 s)" and ?b = "take 4 (drop 9 s)" and ?c = "take 4 (drop 14 s)"
    and ?d = "take 4 (drop 19 s)" and ?e = "take 12 (drop 24 s)"
  have 1: "s = ?a @ 45 # drop 9 s" using id_take_nth_drop [of 8 s] len dash by simp
  have 2: "drop 9 s = ?b @ 45 # drop 14 s" using id_take_nth_drop [of 4 "drop 9 s"] len dash by simp
  have 3: "drop 14 s = ?c @ 45 # drop 19 s" using id_take_nth_drop [of 4 "drop 14 s"] len dash by simp
  have 4: "drop 19 s = ?d @ 45 # drop 24 s" using id_take_nth_drop [of 4 "drop 19 s"] len dash by simp
  have 5: "drop 24 s = ?e" using len by simp
  have s: "s = ?a @ 45 # ?b @ 45 # ?c @ 45 # ?d @ 45 # ?e" using 1 2 3 4 5 by metis
  have ha: "filter (\<lambda>x. x \<noteq> 45) ?a = ?a" "list_all is_hex ?a"
    by (rule hex_segment; use hexs len in simp)+
  have hb: "filter (\<lambda>x. x \<noteq> 45) ?b = ?b" "list_all is_hex ?b"
    by (rule hex_segment; use hexs len in simp)+
  have hc: "filter (\<lambda>x. x \<noteq> 45) ?c = ?c" "list_all is_hex ?c"
    by (rule hex_segment; use hexs len in simp)+
  have hd: "filter (\<lambda>x. x \<noteq> 45) ?d = ?d" "list_all is_hex ?d"
    by (rule hex_segment; use hexs len in simp)+
  have he: "filter (\<lambda>x. x \<noteq> 45) ?e = ?e" "list_all is_hex ?e"
    by (rule hex_segment; use hexs len in simp)+
  have f: "filter (\<lambda>x. x \<noteq> 45) s = ?a @ ?b @ ?c @ ?d @ ?e"
    by (subst s) (simp only: filter_append filter.simps ha hb hc hd he simp_thms if_False if_True append.simps)
  show ?thesis
    by (rule that [OF s _ _ _ _ _ _ f]) (use len ha hb hc hd he in simp_all)
qed

lemma uuid_text_filter: "is_uuid s \<Longrightarrow> uuid_text (filter (\<lambda>x. x \<noteq> 45) s) = s"
  by (erule uuid_shape) (simp add: uuid_text_def)

lemma uuid_payload:
  assumes "is_uuid s"
  shows "concat (map (\<lambda>x. hex_text 2 (unat x)) (from_hex (filter (\<lambda>x. x \<noteq> 45) s)))
       = filter (\<lambda>x. x \<noteq> 45) s"
  using assms by (elim uuid_shape) (rule from_hex_back; simp)

section \<open>Round trip\<close>

lemma atom_of_payload_correct:
  assumes t: "normalize_tag (PStr t) = Inr t" and e: "encode_value_bytes (PStr t) v = Inr b"
  shows "val_atom_for_claim_arg t v = Inr (atom_of_payload t b)"
proof -
  from t consider "t = u ''entity_ref''" | "t = u ''string''" | "t = u ''int''"
    | "t = u ''float64''" | "t = u ''bool''" | "t = u ''bytes''" | "t = u ''time''"
    | "t = u ''uuid''"
    by (auto simp: normalize_tag_Ok)
  then show ?thesis
  proof cases
    case 1
    with e have "encode_entity_ref v = Inr b" by (simp add: encode_value_bytes_def normalize_tag_PStr)
    then obtain s where "v = PStr s" "utf8_encode s = Inr b" "encode_entity_ref v = Inr b"
      by (cases v) (auto simp: encode_entity_ref_def encode_string_def split: if_splits)
    with 1 show ?thesis
      by (simp add: val_atom_for_claim_arg_def atom_of_payload_def utf8_roundtrip ok_str_def)
  next
    case 2
    with e have "encode_string v = Inr b" by (simp add: encode_value_bytes_def normalize_tag_PStr)
    then obtain s where "v = PStr s" "utf8_encode s = Inr b"
      by (cases v) (auto simp: encode_string_def)
    with 2 show ?thesis
      by (simp add: val_atom_for_claim_arg_def atom_of_payload_def encode_string_def utf8_roundtrip
          ok_str_def)
  next
    case 3
    with e obtain i where "require_int64 v = Inr i" "b = map of_nat (dec_int i)"
      by (auto simp: encode_value_bytes_def normalize_tag_PStr err_simps int_text_simp)
    with 3 show ?thesis
      by (simp add: val_atom_for_claim_arg_def atom_of_payload_def map_unat_of_nat_bytes
          dec_int_bytes del: map_map)
  next
    case 4
    with e obtain n where "float64_bits v = Inr n" "b = be_bytes 8 n"
      by (auto simp: encode_value_bytes_def normalize_tag_PStr err_simps)
    moreover from this have "be_val (be_bytes 8 n) = n"
      using float64_bits_less [of v n] by (intro be_val_be_bytes) simp
    ultimately show ?thesis using 4
      by (simp add: val_atom_for_claim_arg_def atom_of_payload_def)
  next
    case 5
    with e show ?thesis
      by (cases v) (auto simp: encode_value_bytes_def normalize_tag_PStr encode_bool_def
          val_atom_for_claim_arg_def atom_of_payload_def split: if_splits)
  next
    case 6
    with e show ?thesis
      by (simp add: encode_value_bytes_def normalize_tag_PStr val_atom_for_claim_arg_def
          atom_of_payload_def)
  next
    case 7
    with e obtain i where i: "require_int64 v = Inr i" "b = pack_q i"
      by (auto simp: encode_value_bytes_def normalize_tag_PStr err_simps)
    then have "INT64_MIN \<le> i" "i \<le> INT64_MAX"
      by (cases v; simp add: require_int64_def not_less split: if_splits)+
    with i 7 show ?thesis
      by (simp add: val_atom_for_claim_arg_def atom_of_payload_def signed64_pack)
  next
    case 8
    with e have "uuid_bytes v = Inr b" by (simp add: encode_value_bytes_def normalize_tag_PStr)
    then obtain s where "v = PStr s" "is_uuid s" "b = from_hex (filter (\<lambda>c. c \<noteq> 45) s)"
      by (cases v) (auto simp: uuid_bytes_def split: if_splits)
    with 8 show ?thesis
      by (simp add: val_atom_for_claim_arg_def atom_of_payload_def uuid_payload uuid_text_filter)
  qed
qed

lemma float64_bits_hex:
  "float64_bits v = Inr n \<Longrightarrow> float64_bits (PStr (u ''0x'' @ hex_text 16 n)) = Inr n"
proof -
  assume a: "float64_bits v = Inr n"
  then have n: "n < 16 ^ 16" using float64_bits_less by fastforce
  have "n \<noteq> 0x8000000000000000" "float64_finite n"
    using a by (auto simp: float64_bits_def err_simps Let_def float64_finite_def split: if_splits)
  moreover have "is_float64_hex (u ''0x'' @ hex_text 16 n)"
    by (simp add: is_float64_hex_def hex_text_is_hex)
  ultimately show ?thesis using n by (simp add: float64_bits_def Let_def)
qed

lemma payload_of_atom_correct:
  assumes t: "normalize_tag (PStr t) = Inr t" and a: "val_atom_for_claim_arg t v = Inr a"
  shows "encode_value_bytes (PStr t) v = payload_of_atom t a"
proof -
  from t consider "t = u ''entity_ref''" | "t = u ''string''" | "t = u ''int''"
    | "t = u ''float64''" | "t = u ''bool''" | "t = u ''bytes''" | "t = u ''time''"
    | "t = u ''uuid''"
    by (auto simp: normalize_tag_Ok)
  then show ?thesis
  proof cases
    case 1
    with a obtain b s' where b: "encode_entity_ref v = Inr b" "utf8_decode b = Inr s'" "a = PStr s'"
      by (auto simp: val_atom_for_claim_arg_def err_simps)
    from b(1) obtain s where s: "v = PStr s" "utf8_encode s = Inr b"
      by (cases v) (auto simp: encode_entity_ref_def encode_string_def split: if_splits)
    with b have "a = v" by (simp add: utf8_roundtrip)
    with 1 show ?thesis by (simp add: payload_of_atom_def)
  next
    case 2
    with a obtain b s' where b: "encode_string v = Inr b" "utf8_decode b = Inr s'" "a = PStr s'"
      by (auto simp: val_atom_for_claim_arg_def err_simps)
    from b(1) obtain s where s: "v = PStr s" "utf8_encode s = Inr b"
      by (cases v) (auto simp: encode_string_def)
    with b have "a = v" by (simp add: utf8_roundtrip)
    with 2 show ?thesis by (simp add: payload_of_atom_def)
  next
    case 3
    with a obtain i where "require_int64 v = Inr i" "a = PInt i"
      by (auto simp: val_atom_for_claim_arg_def err_simps)
    moreover from this have "v = PInt i"
      by (cases v) (auto simp: require_int64_def split: if_splits)
    ultimately show ?thesis using 3 by (simp add: payload_of_atom_def)
  next
    case 4
    with a obtain n where "float64_bits v = Inr n" "a = PStr (u ''0x'' @ hex_text 16 n)"
      by (auto simp: val_atom_for_claim_arg_def err_simps)
    with 4 show ?thesis
      by (simp add: encode_value_bytes_def normalize_tag_PStr payload_of_atom_def float64_bits_hex)
  next
    case 6
    with a obtain b where "to_raw_bytes v = Inr b" "a = PStr (b64url_encode b)"
      by (auto simp: val_atom_for_claim_arg_def err_simps)
    with 6 show ?thesis
      by (simp add: encode_value_bytes_def normalize_tag_PStr payload_of_atom_def)
  next
    case 7
    with a obtain i where "require_int64 v = Inr i" "a = PInt i"
      by (auto simp: val_atom_for_claim_arg_def err_simps)
    moreover from this have "v = PInt i"
      by (cases v) (auto simp: require_int64_def split: if_splits)
    ultimately show ?thesis using 7 by (simp add: payload_of_atom_def)
  qed (use a in \<open>cases v; simp add: val_atom_for_claim_arg_def payload_of_atom_def split: if_splits\<close>)+
qed

lemma canonical_item_Ok:
  assumes "canonical_item it = Inr b"
  shows "\<exists>t v p. it = PTuple [PStr t, v] \<and> normalize_tag (PStr t) = Inr t \<and>
     encode_value_bytes (PStr t) v = Inr p \<and> length p < 2 ^ 32 \<and>
     b = tag_code t # be_bytes 4 (length p) @ p"
  using assms
  by (auto simp: canonical_item_def err_simps normalize_tag_Ok dest!: u32be_Ok
      split: pyval.splits list.splits)

lemma claim_arg_item_Ok:
  assumes "claim_arg_item it = Inr (a, t)"
  shows "\<exists>v. it = PTuple [PStr t, v] \<and> normalize_tag (PStr t) = Inr t \<and>
     val_atom_for_claim_arg t v = Inr a"
  using assms
  by (auto simp: claim_arg_item_def err_simps normalize_tag_Ok split: pyval.splits list.splits)

lemma enumerate_contiguous:
  "list_all (\<lambda>(i, row). fst row = i) (enumerate k (enumerate k xs))"
  by (induction xs arbitrary: k) auto

lemma claim_args_eq:
  "claim_args_from_rest_terms ts = bindE (mapE claim_arg_item ts) (\<lambda>ats. Ok (enumerate 0 ats))"
  unfolding claim_args_from_rest_terms_def Let_def
  by (cases "mapE claim_arg_item ts") (simp_all add: enumerate_contiguous)

lemma decode_items_correct:
  "mapE canonical_item ts = Inr bs \<Longrightarrow>
     mapE claim_arg_item ts = Inr (decode_items (length ts) (concat bs))"
proof (induction ts arbitrary: bs)
  case Nil
  then show ?case by simp
next
  case (Cons it ts)
  then obtain b bs' where it: "canonical_item it = Inr b" and ts: "mapE canonical_item ts = Inr bs'"
    and bs: "bs = b # bs'"
    by (auto simp: err_simps)
  from canonical_item_Ok [OF it] obtain t v p where
    t: "it = PTuple [PStr t, v]" "normalize_tag (PStr t) = Inr t"
    and p: "encode_value_bytes (PStr t) v = Inr p" "length p < 2 ^ 32"
    and b: "b = tag_code t # be_bytes 4 (length p) @ p"
    by blast
  have len: "be_val (be_bytes 4 (length p)) = length p"
    using p(2) by (intro be_val_be_bytes) simp
  have "claim_arg_item it = Inr (atom_of_payload t p, t)"
    using atom_of_payload_correct [OF t(2) p(1)] t by (simp add: claim_arg_item_def)
  moreover have "decode_items (length (it # ts)) (concat bs) =
      (atom_of_payload t p, t) # decode_items (length ts) (concat bs')"
    using tag_code_name [OF t(2)] by (simp add: bs b len Let_def drop_Cons')
  ultimately show ?case using Cons.IH [OF ts] by simp
qed

lemma canonical_bytes_Ok:
  assumes "canonical_bytes_tup_v1 ts = Inr b"
  shows "\<exists>items. mapE canonical_item ts = Inr items \<and> length ts < 2 ^ 32 \<and>
     b = TUP_V1_PREFIX @ be_bytes 4 (length ts) @ concat items"
  using assms by (auto simp: canonical_bytes_tup_v1_def err_simps dest!: u32be_Ok)

lemma tup_v1_decodes:
  assumes "canonical_bytes_tup_v1 ts = Inr b"
  shows "claim_args_from_rest_terms ts = Inr (decode_tup_v1 b)"
proof -
  from canonical_bytes_Ok [OF assms] obtain items where
    items: "mapE canonical_item ts = Inr items" and n: "length ts < 2 ^ 32"
    and b: "b = TUP_V1_PREFIX @ be_bytes 4 (length ts) @ concat items"
    by blast
  have len: "be_val (be_bytes 4 (length ts)) = length ts"
    using n by (intro be_val_be_bytes) simp
  show ?thesis
    using decode_items_correct [OF items]
    by (simp add: claim_args_eq decode_tup_v1_def b len Let_def)
qed

text \<open>C36: reading the canonical bytes of a tuple back yields exactly the claim-argument rows
  that the ledger stores for it, so every encodable tuple also has rows and nothing about the
  rows is lost in the bytes.\<close>

theorem tup_v1_roundtrip:
  assumes "canonical_bytes_tup_v1 ts = Inr b"
  shows "claim_args_from_rest_terms ts = Inr (decode_tup_v1 b)"
  using assms by (rule tup_v1_decodes)

lemmas tup_v1_eval =
  canonical_bytes_tup_v1_def canonical_item_def u32be_def normalize_tag_PStr encode_value_bytes_def
  require_int64_def INT64_MIN_def INT64_MAX_def int_text_simp dec_int_def dec_nat.simps tag_code_def
  TAG_CODE_BY_NAME_def encode_bool_def be_bytes_numeral float64_bits_def float64_finite_def
  is_float64_hex_def starts_with_def is_hex_def hex_val_def hex_digit_def

lemma tup_v1_sample:
  "canonical_bytes_tup_v1 [PTuple [PStr (u ''int''), PInt 7], PTuple [PStr (u ''bool''), PBool True]] =
     Inr (TUP_V1_PREFIX @ [0, 0, 0, 2, 2, 0, 0, 0, 1, 55, 4, 0, 0, 0, 1, 1])"
  by (simp add: tup_v1_eval u_def)

theorem tup_v1_roundtrip_witness:
  "claim_args_from_rest_terms [PTuple [PStr (u ''int''), PInt 7], PTuple [PStr (u ''bool''), PBool True]] =
     Inr (decode_tup_v1 (TUP_V1_PREFIX @ [0, 0, 0, 2, 2, 0, 0, 0, 1, 55, 4, 0, 0, 0, 1, 1]))"
  by (rule tup_v1_roundtrip [OF tup_v1_sample])

lemma canonical_item_of_row:
  assumes "canonical_item it = Inr b" "claim_arg_item it = Inr (a, t)"
  shows "canonical_item it = bindE (payload_of_atom t a)
     (\<lambda>p. bindE (u32be (length p)) (\<lambda>n. Ok ([tag_code t] @ n @ p)))"
proof -
  from claim_arg_item_Ok [OF assms(2)] obtain v where
    "it = PTuple [PStr t, v]" "normalize_tag (PStr t) = Inr t" "val_atom_for_claim_arg t v = Inr a"
    by blast
  then show ?thesis by (simp add: canonical_item_def payload_of_atom_correct)
qed

lemma items_determined:
  "mapE canonical_item ts = Inr bs \<Longrightarrow> mapE canonical_item ts' = Inr bs' \<Longrightarrow>
   mapE claim_arg_item ts = Inr rows \<Longrightarrow> mapE claim_arg_item ts' = Inr rows \<Longrightarrow> bs = bs'"
proof (induction rows arbitrary: ts ts' bs bs')
  case Nil
  then show ?case by (auto simp: mapE_Inr_iff)
next
  case (Cons r rows)
  obtain a t where r: "r = (a, t)" by (cases r)
  from Cons.prems(3,4) obtain it tl it' tl' where
    ts: "ts = it # tl" "claim_arg_item it = Inr (a, t)" "mapE claim_arg_item tl = Inr rows"
    and ts': "ts' = it' # tl'" "claim_arg_item it' = Inr (a, t)" "mapE claim_arg_item tl' = Inr rows"
    by (auto simp: mapE_Inr_iff list_all2_Cons2 r)
  from Cons.prems(1,2) ts(1) ts'(1) obtain b bt b' bt' where
    b: "canonical_item it = Inr b" "mapE canonical_item tl = Inr bt" "bs = b # bt"
    and b': "canonical_item it' = Inr b'" "mapE canonical_item tl' = Inr bt'" "bs' = b' # bt'"
    by (auto simp: err_simps)
  have "Inr b = (Inr b' :: bytes res)"
    using canonical_item_of_row [OF b(1) ts(2)] canonical_item_of_row [OF b'(1) ts'(2)] b(1) b'(1)
    by simp
  with Cons.IH [OF b(2) b'(2) ts(3) ts'(3)] b(3) b'(3) show ?case by simp
qed

text \<open>two encodable tuples have the same canonical bytes if and only if they give the same
  claim-argument rows: the encoding neither merges different rows nor separates equal ones
  (a float and its hexadecimal spelling, \<open>0.0\<close> and \<open>-0.0\<close>, any kind of byte buffer).\<close>

lemma tup_v1_injective:
  assumes "canonical_bytes_tup_v1 ts = Inr b" "canonical_bytes_tup_v1 ts' = Inr b'"
  shows "b = b' \<longleftrightarrow> claim_args_from_rest_terms ts = claim_args_from_rest_terms ts'"
proof
  assume eq: "claim_args_from_rest_terms ts = claim_args_from_rest_terms ts'"
  from canonical_bytes_Ok [OF assms(1)] canonical_bytes_Ok [OF assms(2)]
  obtain i i' where i: "mapE canonical_item ts = Inr i" "b = TUP_V1_PREFIX @ be_bytes 4 (length ts) @ concat i"
    and i': "mapE canonical_item ts' = Inr i'" "b' = TUP_V1_PREFIX @ be_bytes 4 (length ts') @ concat i'"
    by blast
  let ?r = "decode_items (length ts) (concat i)" and ?r' = "decode_items (length ts') (concat i')"
  have r: "mapE claim_arg_item ts = Inr ?r" "mapE claim_arg_item ts' = Inr ?r'"
    using decode_items_correct i(1) i'(1) by blast+
  with eq have "map snd (enumerate 0 ?r) = map snd (enumerate 0 ?r')" by (simp add: claim_args_eq)
  then have rr: "?r = ?r'" by simp
  have "length ts = length ?r" "length ts' = length ?r'"
    by (rule list_all2_lengthD [OF r(1) [unfolded mapE_Inr_iff]],
        rule list_all2_lengthD [OF r(2) [unfolded mapE_Inr_iff]])
  then have len: "length ts = length ts'" by (simp only: rr)
  have "mapE claim_arg_item ts' = Inr ?r" using r(2) by (simp only: rr)
  from items_determined [OF i(1) i'(1) r(1) this] show "b = b'"
    by (simp only: i(2) i'(2) len)
next
  assume "b = b'"
  with assms show "claim_args_from_rest_terms ts = claim_args_from_rest_terms ts'"
    by (simp add: tup_v1_decodes)
qed

theorem tup_v1_injective_witness:
  "\<exists>b b'. canonical_bytes_tup_v1 [PTuple [PStr (u ''float64''), PFloat 0]] = Inr b \<and>
     canonical_bytes_tup_v1 [PTuple [PStr (u ''float64''), PStr (u ''0x0000000000000000'')]] = Inr b' \<and>
     b = b'"
proof -
  let ?b = "TUP_V1_PREFIX @ [0, 0, 0, 1, 3, 0, 0, 0, 8, 0, 0, 0, 0, 0, 0, 0, 0]"
  have 1: "canonical_bytes_tup_v1 [PTuple [PStr (u ''float64''), PFloat 0]] = Inr ?b"
    by (simp add: tup_v1_eval u_def)
  have 2: "canonical_bytes_tup_v1 [PTuple [PStr (u ''float64''), PStr (u ''0x0000000000000000'')]] = Inr ?b"
    by (simp add: tup_v1_eval u_def)
  have "claim_args_from_rest_terms [PTuple [PStr (u ''float64''), PFloat 0]] =
      claim_args_from_rest_terms [PTuple [PStr (u ''float64''), PStr (u ''0x0000000000000000'')]]"
    by (rule tup_v1_injective [OF 1 2, THEN iffD1]) (rule refl)
  with 1 2 show ?thesis by blast
qed

end
