(* ===== verification/Id_Ref.thy ===== *)
theory Id_Ref
  imports Tup_V1
begin

text \<open>
  \<^verbatim>\<open>core/protocol/idref_v1.py\<close> and \<^verbatim>\<open>core/protocol/digests.py\<close>: the reference of an
  entity is its type and the base-32 SHA-256 of a framed encoding of its identity fields.
  SHA-256 is the parameter \<open>sha\<close>; no theorem assumes it injective, a collision is an
  explicit alternative of the conclusion.
\<close>

section \<open>Definitions\<close>

definition sha256_hex :: "(bytes \<Rightarrow> bytes) \<Rightarrow> bytes \<Rightarrow> ustr" where
  "sha256_hex sha data = concat (map (\<lambda>b. hex_text 2 (unat b)) (sha data))"

definition sha256_token :: "(bytes \<Rightarrow> bytes) \<Rightarrow> bytes \<Rightarrow> ustr" where
  "sha256_token sha data = u ''sha256:'' @ sha256_hex sha data"

definition b32_nopad_lower :: "bytes \<Rightarrow> ustr" where
  "b32_nopad_lower data = b32_lower_encode data"

definition IDREF_V1_PREFIX :: bytes where
  "IDREF_V1_PREFIX = map of_nat (u ''factpy'' @ [0] @ u ''idref_v1'' @ [0])"

definition is_alpha :: "nat \<Rightarrow> bool" where
  "is_alpha c \<longleftrightarrow> 65 \<le> c \<and> c \<le> 90 \<or> 97 \<le> c \<and> c \<le> 122"

text \<open>\<open>ENTITY_TYPE_RE.fullmatch\<close>.\<close>

definition is_entity_type :: "ustr \<Rightarrow> bool" where
  "is_entity_type s =
     (case s of [] \<Rightarrow> False
      | c # r \<Rightarrow> is_alpha c \<and> length r \<le> 127 \<and>
          list_all (\<lambda>d. is_alpha d \<or> is_digit d \<or> d = 95 \<or> d = 46 \<or> d = 45) r)"

definition validate_entity_type :: "pyval \<Rightarrow> ustr res" where
  "validate_entity_type v = (case v of
      PStr s \<Rightarrow> if is_entity_type s then Ok s else Err ValueError
    | _ \<Rightarrow> Err ValueError)"

definition tag_code_of :: "pyval \<Rightarrow> byte res" where
  "tag_code_of v =
     (if \<not> hashable v then Err TypeError
      else case v of
        PStr s \<Rightarrow> (case map_of TAG_CODE_BY_NAME s of Some c \<Rightarrow> Ok c | None \<Rightarrow> Err ValueError)
      | _ \<Rightarrow> Err ValueError)"

definition idref_field :: "pyval \<Rightarrow> bytes res" where
  "idref_field field = (case field of
      PTuple [field_name, type_domain, value] \<Rightarrow>
        (case field_name of
          PStr name \<Rightarrow>
            if name = [] then Err ValueError
            else
              bindE (utf8_encode name) (\<lambda>name_bytes.
              bindE (tag_code_of type_domain) (\<lambda>code.
              bindE (encode_value_bytes type_domain value) (\<lambda>payload.
              bindE (u32be (length name_bytes)) (\<lambda>nl.
              bindE (u32be (length payload)) (\<lambda>pl.
              Ok (nl @ name_bytes @ [code] @ pl @ payload))))))
        | _ \<Rightarrow> Err ValueError)
    | _ \<Rightarrow> Err ValueError)"

definition canonical_bytes_idref_v1 :: "pyval \<Rightarrow> pyval list \<Rightarrow> bytes res" where
  "canonical_bytes_idref_v1 entity_type identity_fields =
     bindE (validate_entity_type entity_type) (\<lambda>et.
     bindE (utf8_encode et) (\<lambda>et_bytes.
     bindE (u32be (length et_bytes)) (\<lambda>el.
     bindE (u32be (length identity_fields)) (\<lambda>fl.
     bindE (mapE idref_field identity_fields) (\<lambda>fields.
     Ok (IDREF_V1_PREFIX @ el @ et_bytes @ fl @ concat fields))))))"

definition encode_idref_v1 :: "(bytes \<Rightarrow> bytes) \<Rightarrow> pyval \<Rightarrow> pyval list \<Rightarrow> ustr res" where
  "encode_idref_v1 sha entity_type identity_fields =
     bindE (canonical_bytes_idref_v1 entity_type identity_fields) (\<lambda>canonical.
     bindE (validate_entity_type entity_type) (\<lambda>et.
     Ok (u ''idref_v1:'' @ et @ [58] @ b32_nopad_lower (sha canonical))))"

section \<open>The identity an encoding stands for\<close>

text \<open>Name, type domain and canonical value of one identity field.\<close>

definition identity_row :: "pyval \<Rightarrow> (ustr \<times> ustr \<times> pyval) res" where
  "identity_row field = (case field of
      PTuple [PStr name, PStr td, value] \<Rightarrow>
        bindE (val_atom_for_claim_arg td value) (\<lambda>a. Ok (name, td, a))
    | _ \<Rightarrow> Err ValueError)"

definition identity_rows :: "pyval list \<Rightarrow> (ustr \<times> ustr \<times> pyval) list res" where
  "identity_rows fields = mapE identity_row fields"

lemma tag_code_of_Ok: "tag_code_of d = Inr c \<longleftrightarrow> (\<exists>t. d = PStr t \<and> normalize_tag d = Inr t \<and> c = tag_code t)"
  by (cases d) (auto simp: tag_code_of_def normalize_tag_def tag_code_def split: option.splits)

lemma idref_field_Ok:
  assumes "idref_field f = Inr b"
  shows "\<exists>name nb t v p. f = PTuple [PStr name, PStr t, v] \<and> utf8_encode name = Inr nb \<and>
     normalize_tag (PStr t) = Inr t \<and> encode_value_bytes (PStr t) v = Inr p \<and>
     length nb < 2 ^ 32 \<and> length p < 2 ^ 32 \<and>
     b = be_bytes 4 (length nb) @ nb @ tag_code t # be_bytes 4 (length p) @ p"
  using assms
  by (auto simp: idref_field_def err_simps tag_code_of_Ok dest!: u32be_Ok
      split: pyval.splits list.splits if_splits)

lemma tag_code_inj:
  "normalize_tag (PStr t) = Inr t \<Longrightarrow> normalize_tag (PStr t') = Inr t' \<Longrightarrow>
     tag_code t = tag_code t' \<Longrightarrow> t = t'"
  by (metis tag_code_name option.inject)

lemma payload_eq_iff:
  assumes "normalize_tag (PStr t) = Inr t"
    and "encode_value_bytes (PStr t) v = Inr p" "encode_value_bytes (PStr t) v' = Inr p'"
  shows "p = p' \<longleftrightarrow> val_atom_for_claim_arg t v = val_atom_for_claim_arg t v'"
proof
  assume "p = p'"
  with assms show "val_atom_for_claim_arg t v = val_atom_for_claim_arg t v'"
    by (simp add: atom_of_payload_correct)
next
  assume eq: "val_atom_for_claim_arg t v = val_atom_for_claim_arg t v'"
  have 1: "val_atom_for_claim_arg t v = Inr (atom_of_payload t p)"
    using assms(1,2) by (rule atom_of_payload_correct)
  with eq have 2: "val_atom_for_claim_arg t v' = Inr (atom_of_payload t p)" by simp
  from payload_of_atom_correct [OF assms(1) 1] payload_of_atom_correct [OF assms(1) 2]
  have "(Inr p :: bytes res) = Inr p'" using assms(2,3) by metis
  then show "p = p'" by simp
qed

text \<open>Equal bytes, whatever follows them, mean the same field; equal fields have equal bytes.\<close>

lemma idref_field_prefix:
  assumes "idref_field f = Inr b" "idref_field f' = Inr b'"
  shows "b @ r = b' @ r' \<longleftrightarrow> identity_row f = identity_row f' \<and> r = r'"
proof -
  from idref_field_Ok [OF assms(1)] obtain name nb t v p where
    f: "f = PTuple [PStr name, PStr t, v]" "utf8_encode name = Inr nb" "normalize_tag (PStr t) = Inr t"
      "encode_value_bytes (PStr t) v = Inr p" "length nb < 2 ^ 32" "length p < 2 ^ 32"
    and b: "b = be_bytes 4 (length nb) @ nb @ tag_code t # be_bytes 4 (length p) @ p"
    by blast
  from idref_field_Ok [OF assms(2)] obtain name' nb' t' v' p' where
    f': "f' = PTuple [PStr name', PStr t', v']" "utf8_encode name' = Inr nb'"
      "normalize_tag (PStr t') = Inr t'" "encode_value_bytes (PStr t') v' = Inr p'"
      "length nb' < 2 ^ 32" "length p' < 2 ^ 32"
    and b': "b' = be_bytes 4 (length nb') @ nb' @ tag_code t' # be_bytes 4 (length p') @ p'"
    by blast
  have rows: "identity_row f = Inr (name, t, atom_of_payload t p)"
    "identity_row f' = Inr (name', t', atom_of_payload t' p')"
    using atom_of_payload_correct [OF f(3,4)] atom_of_payload_correct [OF f'(3,4)]
    by (simp_all add: identity_row_def f(1) f'(1))
  show ?thesis
  proof
    assume "b @ r = b' @ r'"
    then have 1: "be_bytes 4 (length nb) @ nb @ (tag_code t # be_bytes 4 (length p) @ p @ r) =
        be_bytes 4 (length nb') @ nb' @ (tag_code t' # be_bytes 4 (length p') @ p' @ r')"
      by (simp add: b b')
    have "nb = nb'" and 2: "tag_code t # be_bytes 4 (length p) @ p @ r =
        tag_code t' # be_bytes 4 (length p') @ p' @ r'"
      using frame_inj [OF 1 f(5) f'(5)] by auto
    from 2 have "tag_code t = tag_code t'" "p = p' \<and> r = r'"
      using frame_inj [of p r p' r'] f(6) f'(6) by auto
    with \<open>nb = nb'\<close> show "identity_row f = identity_row f' \<and> r = r'"
      using tag_code_inj [OF f(3) f'(3)] utf8_encode_inj [OF f(2)] f'(2) by (simp add: rows)
  next
    assume eq: "identity_row f = identity_row f' \<and> r = r'"
    then have "name = name'" "t = t'" "atom_of_payload t p = atom_of_payload t' p'"
      by (auto simp: rows)
    moreover from this have "p = p'"
      using payload_eq_iff [OF f(3,4), of v' p'] f'(3,4) atom_of_payload_correct [OF f(3,4)]
        atom_of_payload_correct [OF f'(3,4)] by simp
    ultimately show "b @ r = b' @ r'" using f(2) f'(2) eq by (simp add: b b')
  qed
qed

lemma idref_field_row: "idref_field f = Inr b \<Longrightarrow> \<exists>row. identity_row f = Inr row"
  using idref_field_Ok atom_of_payload_correct by (fastforce simp: identity_row_def)

lemma idref_fields_inj:
  "mapE idref_field fs = Inr bs \<Longrightarrow> mapE idref_field fs' = Inr bs' \<Longrightarrow> length fs = length fs' \<Longrightarrow>
     concat bs = concat bs' \<longleftrightarrow> identity_rows fs = identity_rows fs'"
proof (induction fs arbitrary: fs' bs bs')
  case Nil
  then show ?case by simp
next
  case (Cons f fs)
  then obtain f' tl' where fs': "fs' = f' # tl'" by (cases fs') auto
  from Cons.prems fs' obtain b bt b' bt' where
    b: "idref_field f = Inr b" "mapE idref_field fs = Inr bt" "bs = b # bt"
    and b': "idref_field f' = Inr b'" "mapE idref_field tl' = Inr bt'" "bs' = b' # bt'"
    by (auto simp: err_simps)
  from idref_field_row [OF b(1)] idref_field_row [OF b'(1)] obtain r r' where
    r: "identity_row f = Inr r" "identity_row f' = Inr r'" by blast
  have "\<exists>rs. identity_rows gs = Inr rs" if "mapE idref_field gs = Inr cs" for gs cs
    using that by (induction gs arbitrary: cs) (auto simp: identity_rows_def err_simps dest!: idref_field_row)
  with b(2) b'(2) obtain rs rs' where rs: "identity_rows fs = Inr rs" "identity_rows tl' = Inr rs'"
    by blast
  have "concat bs = concat bs' \<longleftrightarrow> identity_row f = identity_row f' \<and> concat bt = concat bt'"
    using idref_field_prefix [OF b(1) b'(1)] by (simp add: b(3) b'(3))
  also have "\<dots> \<longleftrightarrow> identity_row f = identity_row f' \<and> identity_rows fs = identity_rows tl'"
    using Cons.IH [OF b(2) b'(2)] Cons.prems(3) by (simp add: fs')
  also have "\<dots> \<longleftrightarrow> identity_rows (f # fs) = identity_rows fs'"
    using r rs by (simp add: identity_rows_def fs')
  finally show ?case .
qed

lemma canonical_bytes_idref_Ok:
  assumes "canonical_bytes_idref_v1 et fs = Inr b"
  shows "\<exists>s items. et = PStr s \<and> is_entity_type s \<and> length s < 2 ^ 32 \<and> length fs < 2 ^ 32 \<and>
     mapE idref_field fs = Inr items \<and> utf8_encode s = Inr (map of_nat s) \<and>
     b = IDREF_V1_PREFIX @ be_bytes 4 (length s) @ map of_nat s @ be_bytes 4 (length fs) @ concat items"
proof -
  from assms obtain s where s: "et = PStr s" "is_entity_type s"
    by (auto simp: canonical_bytes_idref_v1_def err_simps validate_entity_type_def
        split: pyval.splits if_splits)
  then have "list_all (\<lambda>c. c < 128) s"
    by (auto simp: is_entity_type_def is_alpha_def is_digit_def list_all_iff split: list.splits)
  then have "utf8_encode s = Inr (map of_nat s)" by (rule utf8_encode_ascii)
  with s assms show ?thesis
    by (auto simp: canonical_bytes_idref_v1_def err_simps validate_entity_type_def dest!: u32be_Ok)
qed

lemma idref_bytes_iff:
  assumes "canonical_bytes_idref_v1 et fs = Inr b" "canonical_bytes_idref_v1 et' fs' = Inr b'"
  shows "b = b' \<longleftrightarrow> et = et' \<and> identity_rows fs = identity_rows fs'"
proof -
  from canonical_bytes_idref_Ok [OF assms(1)] obtain s i where
    s: "et = PStr s" "length s < 2 ^ 32" "length fs < 2 ^ 32" "mapE idref_field fs = Inr i"
      "utf8_encode s = Inr (map of_nat s)"
    and b: "b = IDREF_V1_PREFIX @ be_bytes 4 (length s) @ map of_nat s @ be_bytes 4 (length fs) @ concat i"
    by blast
  from canonical_bytes_idref_Ok [OF assms(2)] obtain s' i' where
    s': "et' = PStr s'" "length s' < 2 ^ 32" "length fs' < 2 ^ 32" "mapE idref_field fs' = Inr i'"
      "utf8_encode s' = Inr (map of_nat s')"
    and b': "b' = IDREF_V1_PREFIX @ be_bytes 4 (length s') @ map of_nat s' @ be_bytes 4 (length fs') @ concat i'"
    by blast
  have lens: "length fs = length fs'" if "identity_rows fs = identity_rows fs'"
  proof -
    have "\<exists>rs. identity_rows gs = Inr rs \<and> length rs = length gs" if "mapE idref_field gs = Inr cs" for gs cs
      using that
      by (induction gs arbitrary: cs) (auto simp: identity_rows_def err_simps dest!: idref_field_row)
    from this [OF s(4)] this [OF s'(4)] that show ?thesis by auto
  qed
  show ?thesis
  proof
    assume "b = b'"
    then have 1: "be_bytes 4 (length (map of_nat s :: bytes)) @ map of_nat s @ (be_bytes 4 (length fs) @ concat i)
        = be_bytes 4 (length (map of_nat s' :: bytes)) @ map of_nat s' @ (be_bytes 4 (length fs') @ concat i')"
      by (simp add: b b')
    have m: "(map of_nat s :: bytes) = map of_nat s'"
      and 2: "be_bytes 4 (length fs) @ concat i = be_bytes 4 (length fs') @ concat i'"
      using frame_inj [OF 1] s(2) s'(2) by auto
    from m have "s = s'" using utf8_encode_inj [OF s(5)] s'(5) by simp
    from 2 have "be_bytes 4 (length fs) = be_bytes 4 (length fs')" and c: "concat i = concat i'"
      using append_eq_append_conv [of "be_bytes 4 (length fs)" "be_bytes 4 (length fs')"] by auto
    from be_bytes_inj [OF s(3) s'(3) this(1)] c \<open>s = s'\<close> show "et = et' \<and> identity_rows fs = identity_rows fs'"
      using idref_fields_inj [OF s(4) s'(4)] s(1) s'(1) by simp
  next
    assume "et = et' \<and> identity_rows fs = identity_rows fs'"
    moreover from this have "concat i = concat i'"
      using idref_fields_inj [OF s(4) s'(4)] lens by simp
    ultimately show "b = b'" using lens s(1) s'(1) by (simp add: b b')
  qed
qed

text \<open>Two identities have the same canonical bytes exactly when they name the same entity
  type and the same list of fields (name, type domain and canonical value).\<close>

theorem idref_bytes_injective:
  assumes "canonical_bytes_idref_v1 et fs = Inr b" "canonical_bytes_idref_v1 et' fs' = Inr b'"
  shows "b = b' \<longleftrightarrow> et = et' \<and> identity_rows fs = identity_rows fs'"
  using assms by (rule idref_bytes_iff)

lemmas idref_eval = canonical_bytes_idref_v1_def idref_field_def validate_entity_type_def
  is_entity_type_def is_alpha_def is_digit_def u32be_def utf8_encode_ascii tag_code_of_def
  TAG_CODE_BY_NAME_def encode_value_bytes_def normalize_tag_PStr encode_bool_def be_bytes_numeral u_def

lemma idref_sample:
  "canonical_bytes_idref_v1 (PStr (u ''User'')) [PTuple [PStr (u ''a''), PStr (u ''bool''), PBool x]] =
     Inr (IDREF_V1_PREFIX @ [0, 0, 0, 4, 85, 115, 101, 114, 0, 0, 0, 1, 0, 0, 0, 1, 97, 4, 0, 0, 0, 1]
       @ (if x then [1] else [0]))"
  by (simp add: idref_eval)

theorem idref_bytes_injective_witness:
  "\<not> (PStr (u ''User'') = PStr (u ''User'') \<and>
     identity_rows [PTuple [PStr (u ''a''), PStr (u ''bool''), PBool True]] =
     identity_rows [PTuple [PStr (u ''a''), PStr (u ''bool''), PBool False]])"
  by (subst idref_bytes_injective [OF idref_sample idref_sample, symmetric]) simp

text \<open>The base-32 digest and the entity type are free of the separator.\<close>

lemma entity_type_no_colon: "is_entity_type s \<Longrightarrow> 58 \<notin> set s"
  by (auto simp: is_entity_type_def is_alpha_def is_digit_def list_all_iff split: list.splits)

lemma split_at_first:
  "c \<notin> set a \<Longrightarrow> c \<notin> set b \<Longrightarrow> a @ c # x = b @ c # y \<Longrightarrow> a = b \<and> x = y"
proof (induction a arbitrary: b)
  case Nil
  then show ?case by (cases b) auto
next
  case (Cons d a)
  then show ?case by (cases b) auto
qed

text \<open>C37: two entities share a reference only if they have the same type and identity, or
  SHA-256 maps two different byte strings to the same digest.\<close>

theorem idref_unique_or_collision:
  assumes "encode_idref_v1 sha et fs = Inr r" "encode_idref_v1 sha et' fs' = Inr r"
  shows "et = et' \<and> identity_rows fs = identity_rows fs' \<or>
    (\<exists>x y. x \<noteq> y \<and> sha x = sha y \<and> canonical_bytes_idref_v1 et fs = Inr x \<and>
       canonical_bytes_idref_v1 et' fs' = Inr y)"
proof -
  from assms obtain c s c' s' where
    c: "canonical_bytes_idref_v1 et fs = Inr c" "validate_entity_type et = Inr s"
      "r = u ''idref_v1:'' @ s @ 58 # b32_nopad_lower (sha c)"
    and c': "canonical_bytes_idref_v1 et' fs' = Inr c'" "validate_entity_type et' = Inr s'"
      "r = u ''idref_v1:'' @ s' @ 58 # b32_nopad_lower (sha c')"
    by (auto simp: encode_idref_v1_def err_simps)
  have "is_entity_type s" "is_entity_type s'"
    using c(2) c'(2) by (auto simp: validate_entity_type_def split: pyval.splits if_splits)
  then have "b32_nopad_lower (sha c) = b32_nopad_lower (sha c')"
    using split_at_first [of 58 s s'] c(3) c'(3) entity_type_no_colon by simp
  then have "sha c = sha c'" by (simp add: b32_nopad_lower_def b32_lower_encode_inj)
  with idref_bytes_iff [OF c(1) c'(1)] c(1) c'(1) show ?thesis by blast
qed

theorem idref_unique_or_collision_witness:
  "\<exists>r. encode_idref_v1 (\<lambda>b. b) (PStr (u ''User'')) [PTuple [PStr (u ''a''), PStr (u ''bool''), PBool True]] = Inr r \<and>
     (PStr (u ''User'') = PStr (u ''User'') \<or> (\<exists>x y. x \<noteq> y \<and> id x = id (y :: bytes)))"
proof -
  let ?f = "[PTuple [PStr (u ''a''), PStr (u ''bool''), PBool True]]"
  obtain r where r: "encode_idref_v1 (\<lambda>b. b) (PStr (u ''User'')) ?f = Inr r"
    by (simp add: encode_idref_v1_def idref_sample)
       (simp add: validate_entity_type_def is_entity_type_def is_alpha_def is_digit_def u_def)
  from idref_unique_or_collision [OF r r] r show ?thesis by auto
qed

lemma b32_lower_ascii: "list_all (\<lambda>c. c < 128) (b32_lower_encode bs)"
proof -
  have "unbits c < 32" if "c \<in> set (chunks 5 (byte_bits bs))" for c
    using unbits_less [of c] chunks_length [OF that] by simp
  then have "b32_char (unbits c) < 128" if "c \<in> set (chunks 5 (byte_bits bs))" for c
    using that by (fastforce simp: b32_char_def)
  then show ?thesis by (auto simp: b32_lower_encode_def base_encode_def list_all_iff)
qed

text \<open>C38: every reference the encoder produces is accepted by the tuple codec as a value of the
  tag \<open>entity_ref\<close>, and the codec stores it unchanged.\<close>

theorem idref_is_entity_ref:
  assumes "encode_idref_v1 sha et fs = Inr r"
  shows "val_atom_for_claim_arg (u ''entity_ref'') (PStr r) = Inr (PStr r)"
proof -
  from assms obtain s c where r: "r = u ''idref_v1:'' @ s @ 58 # b32_nopad_lower (sha c)"
    and "validate_entity_type et = Inr s"
    by (auto simp: encode_idref_v1_def err_simps)
  then have "is_entity_type s" by (auto simp: validate_entity_type_def split: pyval.splits if_splits)
  then have "list_all (\<lambda>c. c < 128) s"
    by (auto simp: is_entity_type_def is_alpha_def is_digit_def list_all_iff split: list.splits)
  moreover have "list_all (\<lambda>c. c < 128) (u ''idref_v1:'')" by (simp add: u_def)
  ultimately have "list_all (\<lambda>c. c < 128) r"
    using b32_lower_ascii by (simp add: r b32_nopad_lower_def)
  then have "utf8_encode r = Inr (map of_nat r)" by (rule utf8_encode_ascii)
  moreover have "starts_with r ENTITY_REF_PREFIX" by (simp add: r ENTITY_REF_PREFIX_def)
  ultimately show ?thesis
    by (simp add: val_atom_for_claim_arg_def encode_entity_ref_def encode_string_def utf8_roundtrip)
qed

theorem idref_is_entity_ref_witness:
  "\<exists>r. encode_idref_v1 (\<lambda>b. b) (PStr (u ''User'')) [] = Inr r \<and>
     val_atom_for_claim_arg (u ''entity_ref'') (PStr r) = Inr (PStr r)"
proof -
  obtain r where r: "encode_idref_v1 (\<lambda>b. b) (PStr (u ''User'')) [] = Inr r"
    by (simp add: encode_idref_v1_def idref_eval)
  from r idref_is_entity_ref [OF r] show ?thesis by blast
qed

end
