(* ===== verification/Lt_Hash.thy ===== *)
theory Lt_Hash
  imports Py_Base "HOL-Library.Multiset"
begin

text \<open>
  \<^verbatim>\<open>core/protocol/lthash.py\<close>: the set commitment of a database state, 1024 lanes of 16 bits
  added modulo \<open>2^16\<close>.  SHAKE-256 is the parameter \<open>xof\<close> (input, output length); no
  assumption on it is needed, a wrong length is the error branch the code has.  The lemmas
  relate the byte loop to addition of \<open>16 word\<close> lanes and derive that the commitment depends
  on the set only and can be maintained incrementally.
\<close>

section \<open>Definitions\<close>

definition LTHASH_LANES :: nat where "LTHASH_LANES = 1024"
definition LTHASH_LANE_BITS :: nat where "LTHASH_LANE_BITS = 16"
definition LTHASH_STATE_BYTES :: nat where
  "LTHASH_STATE_BYTES = LTHASH_LANES * (LTHASH_LANE_BITS div 8)"
definition LTHASH_TOKEN_PREFIX :: ustr where "LTHASH_TOKEN_PREFIX = u ''lthash16-v2:''"
definition ELEMENT_DOMAIN :: bytes where
  "ELEMENT_DOMAIN = map of_nat (u ''factgraph'' @ [0] @ u ''lthash16-v2'' @ [0] @ u ''element'' @ [0])"
definition LANE_MASK :: int where "LANE_MASK = push_bit LTHASH_LANE_BITS 1 - 1"

definition empty_state :: bytes where
  "empty_state = replicate LTHASH_STATE_BYTES 0"

definition require_state :: "pyval \<Rightarrow> bytes res" where
  "require_state v = (case v of
      PBytes BBytes s \<Rightarrow> if length s \<noteq> LTHASH_STATE_BYTES then Err LtHashError else Ok s
    | _ \<Rightarrow> Err TypeError)"

definition hash_element :: "(bytes \<Rightarrow> nat \<Rightarrow> bytes) \<Rightarrow> pyval \<Rightarrow> bytes res" where
  "hash_element xof element = (case element of
      PBytes BBytes b \<Rightarrow>
        if length b < 2 ^ 64
        then Ok (xof (ELEMENT_DOMAIN @ be_bytes 8 (length b) @ b) LTHASH_STATE_BYTES)
        else Err OverflowError
    | _ \<Rightarrow> Err TypeError)"

text \<open>One turn of the loop of \<open>_combine\<close>: two bytes of the result are assigned.\<close>

definition lane_value :: "bool \<Rightarrow> bytes \<Rightarrow> bytes \<Rightarrow> nat \<Rightarrow> int" where
  "lane_value subtract state vector offset =
     (let left = or (uint (state ! offset)) (push_bit 8 (uint (state ! (offset + 1))));
          right = or (uint (vector ! offset)) (push_bit 8 (uint (vector ! (offset + 1))))
      in and (if subtract then left - right else left + right) LANE_MASK)"

definition lane_step :: "bool \<Rightarrow> bytes \<Rightarrow> bytes \<Rightarrow> bytes \<Rightarrow> nat \<Rightarrow> bytes" where
  "lane_step subtract state vector result offset =
     (let value = lane_value subtract state vector offset
      in result[offset := word_of_int (and value 0xFF), offset + 1 := word_of_int (drop_bit 8 value)])"

definition combine :: "pyval \<Rightarrow> pyval \<Rightarrow> bool \<Rightarrow> bytes res" where
  "combine state vector subtract =
     bindE (require_state state) (\<lambda>s.
     bindE (require_state vector) (\<lambda>v.
     Ok (foldl (lane_step subtract s v) (replicate LTHASH_STATE_BYTES 0)
           (map (\<lambda>i. 2 * i) [0..<LTHASH_STATE_BYTES div 2]))))"

definition lt_add :: "(bytes \<Rightarrow> nat \<Rightarrow> bytes) \<Rightarrow> pyval \<Rightarrow> pyval \<Rightarrow> bytes res" where
  "lt_add xof state element =
     bindE (hash_element xof element) (\<lambda>h. combine state (PBytes BBytes h) False)"

definition lt_remove :: "(bytes \<Rightarrow> nat \<Rightarrow> bytes) \<Rightarrow> pyval \<Rightarrow> pyval \<Rightarrow> bytes res" where
  "lt_remove xof state element =
     bindE (hash_element xof element) (\<lambda>h. combine state (PBytes BBytes h) True)"

definition from_elements_step ::
  "(bytes \<Rightarrow> nat \<Rightarrow> bytes) \<Rightarrow> bytes \<times> bytes set \<Rightarrow> pyval \<Rightarrow> (bytes \<times> bytes set) res" where
  "from_elements_step xof acc element = (case element of
      PBytes BBytes b \<Rightarrow>
        if b \<in> snd acc then Err LtHashError
        else bindE (lt_add xof (PBytes BBytes (fst acc)) element) (\<lambda>s. Ok (s, insert b (snd acc)))
    | _ \<Rightarrow> Err TypeError)"

definition from_elements :: "(bytes \<Rightarrow> nat \<Rightarrow> bytes) \<Rightarrow> pyval list \<Rightarrow> bytes res" where
  "from_elements xof elements =
     bindE (foldE (from_elements_step xof) (empty_state, {}) elements) (\<lambda>acc. Ok (fst acc))"

definition encode_state :: "pyval \<Rightarrow> ustr res" where
  "encode_state state =
     bindE (require_state state) (\<lambda>s. Ok (LTHASH_TOKEN_PREFIX @ b64url_encode s))"

text \<open>
  The library decoder is more lenient than \<open>b64url_decode\<close> (it skips stray bits and takes
  \<open>+\<close> and \<open>/\<close>), but every input on which they differ is refused by the canonicity check
  that follows, with the same error.
\<close>

definition decode_state :: "pyval \<Rightarrow> bytes res" where
  "decode_state token = (case token of
      PStr t \<Rightarrow>
        if \<not> starts_with t LTHASH_TOKEN_PREFIX then Err LtHashError
        else
          (let payload = drop (length LTHASH_TOKEN_PREFIX) t
           in if payload = [] then Err LtHashError
              else (case b64url_decode payload of
                  None \<Rightarrow> Err LtHashError
                | Some state \<Rightarrow>
                    bindE (require_state (PBytes BBytes state)) (\<lambda>_.
                    bindE (encode_state (PBytes BBytes state)) (\<lambda>t'.
                    if t' \<noteq> t then Err LtHashError else Ok state))))
    | _ \<Rightarrow> Err LtHashError)"

section \<open>Lanes\<close>

text \<open>The abstraction: the state as 1024 words.\<close>

definition lane :: "bytes \<Rightarrow> nat \<Rightarrow> 16 word" where
  "lane s i = word_of_int (uint (s ! (2 * i)) + 256 * uint (s ! (2 * i + 1)))"

definition lanes :: "bytes \<Rightarrow> 16 word list" where
  "lanes s = map (lane s) [0..<LTHASH_LANES]"

lemma uint_byte_bounds: "0 \<le> uint (b :: byte)" "uint (b :: byte) < 256"
  using uint_bounded [of b] by simp_all

lemma or_shift8:
  assumes "0 \<le> a" "a < 256"
  shows "or a (push_bit 8 b) = a + 256 * (b :: int)"
proof -
  have "take_bit 8 a = a" using assms by (simp add: take_bit_eq_mod)
  then have "or a (push_bit 8 b) = concat_bit 8 a b" by (simp add: concat_bit_def)
  with \<open>take_bit 8 a = a\<close> show ?thesis by (simp add: concat_bit_eq push_bit_eq_mult)
qed

lemma lane_mask: "LANE_MASK = mask 16"
  by (simp add: LANE_MASK_def LTHASH_LANE_BITS_def mask_eq_exp_minus_1)

lemma uint16: "uint (word_of_int k :: 16 word) = k mod 65536"
  by (simp add: unsigned_of_int take_bit_eq_mod)

lemma uint8: "uint (word_of_int k :: byte) = k mod 256"
  by (simp add: unsigned_of_int take_bit_eq_mod)

lemma uint_lane: "uint (lane s i) = uint (s ! (2 * i)) + 256 * uint (s ! (2 * i + 1))"
  unfolding lane_def uint16
  using uint_byte_bounds [of "s ! (2 * i)"] uint_byte_bounds [of "s ! (2 * i + 1)"]
  by (intro mod_pos_pos_trivial) linarith+

lemma lane_value_eq:
  "lane_value sub s v (2 * i) =
     uint (if sub then lane s i - lane v i else lane s i + lane v i)"
proof -
  have o: "or (uint (x ! j)) (push_bit 8 (uint (x ! (j + 1)))) = uint (x ! j) + 256 * uint (x ! (j + 1))"
    for x :: bytes and j
    by (rule or_shift8) (rule uint_byte_bounds)+
  have "lane_value sub s v (2 * i) =
      (if sub then uint (lane s i) - uint (lane v i) else uint (lane s i) + uint (lane v i)) mod 2 ^ 16"
    unfolding lane_value_def lane_mask o Let_def uint_lane take_bit_eq_mask [symmetric] take_bit_eq_mod
    by (rule refl)
  then show ?thesis by (simp add: uint_word_ariths)
qed

lemma lane_of_bytes:
  fixes w :: "16 word"
  shows "(word_of_int (uint (word_of_int (and (uint w) 255) :: byte)
      + 256 * uint (word_of_int (drop_bit 8 (uint w)) :: byte)) :: 16 word) = w"
proof -
  have b: "0 \<le> uint w" "uint w < 65536" using uint_bounded [of w] by simp_all
  then have "uint w div 256 < 256" "0 \<le> uint w div 256"
    by (simp_all add: pos_imp_zdiv_nonneg_iff)
  then have d: "drop_bit 8 (uint w) mod 256 = uint w div 256"
    by (simp add: drop_bit_eq_div)
  have m: "and (uint w) 255 = uint w mod 256"
    using take_bit_eq_mask [of 8 "uint w"] by (simp add: mask_eq_exp_minus_1 take_bit_eq_mod)
  show ?thesis unfolding uint8 d m by (simp only: mod_mod_trivial mod_mult_div_eq word_of_int_uint)
qed

lemma lane_update:
  assumes "2 * n + 1 < length r"
  shows "lane (r[2 * n := word_of_int (and (uint w) 255), 2 * n + 1 := word_of_int (drop_bit 8 (uint w))]) n = w"
    (is "lane ?r n = w")
proof -
  have "?r ! (2 * n) = word_of_int (and (uint w) 255)" "?r ! (2 * n + 1) = word_of_int (drop_bit 8 (uint w))"
    using assms by simp_all
  then show ?thesis by (simp only: lane_def lane_of_bytes)
qed

lemma combine_loop:
  assumes "n \<le> LTHASH_LANES"
  shows "let r = foldl (lane_step sub s v) (replicate LTHASH_STATE_BYTES 0) (map (\<lambda>i. 2 * i) [0..<n])
    in length r = LTHASH_STATE_BYTES \<and>
       (\<forall>i < n. lane r i = (if sub then lane s i - lane v i else lane s i + lane v i))"
  using assms
proof (induction n)
  case 0
  then show ?case by simp
next
  case (Suc n)
  let ?r = "foldl (lane_step sub s v) (replicate LTHASH_STATE_BYTES 0) (map (\<lambda>i. 2 * i) [0..<n])"
  let ?w = "if sub then lane s n - lane v n else lane s n + lane v n"
  let ?r' = "lane_step sub s v ?r (2 * n)"
  from Suc have len: "length ?r = LTHASH_STATE_BYTES"
    and IH: "\<And>i. i < n \<Longrightarrow> lane ?r i = (if sub then lane s i - lane v i else lane s i + lane v i)"
    by (simp_all add: Let_def)
  have b: "2 * n + 1 < LTHASH_STATE_BYTES"
    using Suc.prems by (simp add: LTHASH_STATE_BYTES_def LTHASH_LANES_def LTHASH_LANE_BITS_def)
  have r': "?r' = ?r[2 * n := word_of_int (and (uint ?w) 255), 2 * n + 1 := word_of_int (drop_bit 8 (uint ?w))]"
    by (simp add: lane_step_def lane_value_eq Let_def)
  have new: "lane ?r' n = ?w"
    unfolding r' using b len by (intro lane_update) simp
  have old: "lane ?r' i = lane ?r i" if "i < n" for i
    using that by (simp add: r' lane_def)
  show ?case using new old IH len by (auto simp: Let_def r' less_Suc_eq)
qed

lemma require_state_bytes [simp]: "require_state (PBytes BBytes s) = Inr s' \<longleftrightarrow> s' = s \<and> length s = LTHASH_STATE_BYTES"
  by (auto simp: require_state_def)

lemma require_state_good [simp]: "length s = LTHASH_STATE_BYTES \<Longrightarrow> require_state (PBytes BBytes s) = Inr s"
  by (simp add: require_state_def)

lemma require_state_Ok: "require_state v = Inr s \<longleftrightarrow> v = PBytes BBytes s \<and> length s = LTHASH_STATE_BYTES"
  by (auto simp: require_state_def split: pyval.splits bytes_kind.splits if_splits)

lemma length_lanes [simp]: "length (lanes s) = LTHASH_LANES"
  by (simp add: lanes_def)

text \<open>The loop is lane-wise addition or subtraction modulo \<open>2^16\<close>.\<close>

lemma combine_lanes:
  assumes "combine (PBytes BBytes s) (PBytes BBytes v) sub = Inr r"
  shows "length r = LTHASH_STATE_BYTES \<and> length s = LTHASH_STATE_BYTES \<and> length v = LTHASH_STATE_BYTES \<and>
    lanes r = map2 (\<lambda>a b. if sub then a - b else a + b) (lanes s) (lanes v)"
proof -
  from assms have r: "r = foldl (lane_step sub s v) (replicate LTHASH_STATE_BYTES 0) (map (\<lambda>i. 2 * i) [0..<LTHASH_LANES])"
    and l: "length s = LTHASH_STATE_BYTES" "length v = LTHASH_STATE_BYTES"
    by (auto simp: combine_def err_simps LTHASH_STATE_BYTES_def LTHASH_LANE_BITS_def)
  from combine_loop [of LTHASH_LANES sub s v] l show ?thesis
    by (auto simp: Let_def r [symmetric] lanes_def intro!: nth_equalityI)
qed

lemma combine_defined:
  "length s = LTHASH_STATE_BYTES \<Longrightarrow> length v = LTHASH_STATE_BYTES \<Longrightarrow>
     \<exists>r. combine (PBytes BBytes s) (PBytes BBytes v) sub = Inr r"
  by (simp add: combine_def require_state_def)

lemma lane_inj:
  assumes "lane s i = lane t i"
  shows "s ! (2 * i) = t ! (2 * i) \<and> s ! (2 * i + 1) = t ! (2 * i + 1)"
proof -
  have "uint (s ! (2 * i)) + 256 * uint (s ! (2 * i + 1)) = uint (t ! (2 * i)) + 256 * uint (t ! (2 * i + 1))"
    using arg_cong [OF assms, of uint] by (simp only: uint_lane)
  moreover have "a = c \<and> b = d" if "a + 256 * b = c + 256 * d" "0 \<le> a" "a < 256" "0 \<le> c" "c < 256"
    for a b c d :: int
  proof -
    have "a = (a + 256 * b) mod 256" using that(2,3) by simp
    moreover have "c = (c + 256 * d) mod 256" using that(4,5) by simp
    ultimately have "a = c" using that(1) by metis
    with that(1) show ?thesis by simp
  qed
  ultimately have "uint (s ! (2 * i)) = uint (t ! (2 * i))" "uint (s ! (2 * i + 1)) = uint (t ! (2 * i + 1))"
    using uint_byte_bounds by blast+
  then show ?thesis by (simp add: word_uint_eq_iff)
qed

lemma lanes_inj:
  assumes "lanes s = lanes t" "length s = LTHASH_STATE_BYTES" "length t = LTHASH_STATE_BYTES"
  shows "s = t"
proof (rule nth_equalityI)
  fix j assume "j < length s"
  then have i: "j div 2 < LTHASH_LANES"
    using assms(2) by (simp add: LTHASH_STATE_BYTES_def LTHASH_LANE_BITS_def)
  have "lane s (j div 2) = lane t (j div 2)"
    using arg_cong [OF assms(1), of "\<lambda>l. l ! (j div 2)"] i by (simp add: lanes_def)
  from lane_inj [OF this] show "s ! j = t ! j"
    by (cases "even j") (auto elim!: evenE oddE)
qed (use assms in simp)

section \<open>Accumulators of a set\<close>

text \<open>
  What a set commitment promises its client: elements can be added in any order, and removing
  an element undoes adding it.
\<close>

locale set_accumulator =
  fixes invar :: "'s \<Rightarrow> bool"
    and add :: "'s \<Rightarrow> 'e \<Rightarrow> 's"
    and rem :: "'s \<Rightarrow> 'e \<Rightarrow> 's"
  assumes add_invar: "invar s \<Longrightarrow> invar (add s a)"
    and add_comm: "invar s \<Longrightarrow> add (add s a) b = add (add s b) a"
    and rem_add: "invar s \<Longrightarrow> rem (add s a) a = s"
begin

lemma fold_invar: "invar s \<Longrightarrow> invar (foldl add s xs)"
  by (induction xs arbitrary: s) (auto simp: add_invar)

lemma fold_last: "invar s \<Longrightarrow> add (foldl add s xs) a = foldl add (add s a) xs"
  by (induction xs arbitrary: s) (auto simp: add_invar add_comm)

lemma fold_remove1: "invar s \<Longrightarrow> x \<in> set xs \<Longrightarrow> foldl add s xs = add (foldl add s (remove1 x xs)) x"
proof (induction xs arbitrary: s)
  case (Cons y xs)
  then show ?case by (cases "x = y") (auto simp: add_invar fold_last)
qed simp

lemma fold_mset:
  "invar s \<Longrightarrow> mset xs = mset ys \<Longrightarrow> foldl add s xs = foldl add s ys"
proof (induction xs arbitrary: s ys)
  case (Cons x xs)
  then have x: "x \<in> set ys" by (metis list.set_intros(1) mset_eq_setD)
  have "foldl add s (x # xs) = add (foldl add s xs) x" using Cons.prems(1) by (simp add: fold_last)
  also have "foldl add s xs = foldl add s (remove1 x ys)"
  proof (rule Cons.IH)
    show "mset xs = mset (remove1 x ys)" using arg_cong [OF Cons.prems(2), of "\<lambda>m. m - {#x#}"] by simp
  qed (rule Cons.prems(1))
  also have "add (foldl add s (remove1 x ys)) x = foldl add s ys"
    using fold_remove1 [OF Cons.prems(1) x] by simp
  finally show ?case .
qed simp

lemma fold_rem: "invar s \<Longrightarrow> x \<in> set xs \<Longrightarrow> rem (foldl add s xs) x = foldl add s (remove1 x xs)"
  by (simp add: fold_remove1 [of s x xs] rem_add fold_invar)

end

text \<open>The code's operations as total functions: the state stays where the code raises.\<close>

definition lt_apply :: "(bytes \<Rightarrow> nat \<Rightarrow> bytes) \<Rightarrow> bool \<Rightarrow> bytes \<Rightarrow> bytes \<Rightarrow> bytes" where
  "lt_apply xof sub s b =
     (case (if sub then lt_remove else lt_add) xof (PBytes BBytes s) (PBytes BBytes b) of
        Inr r \<Rightarrow> r | Inl _ \<Rightarrow> s)"

definition good_hash :: "(bytes \<Rightarrow> nat \<Rightarrow> bytes) \<Rightarrow> bytes \<Rightarrow> bool" where
  "good_hash xof b \<longleftrightarrow> (\<exists>h. hash_element xof (PBytes BBytes b) = Inr h \<and> length h = LTHASH_STATE_BYTES)"

lemma lt_op_cases:
  "(if sub then lt_remove else lt_add) xof (PBytes BBytes s) (PBytes BBytes b) = Inr r \<longleftrightarrow>
     (\<exists>h. hash_element xof (PBytes BBytes b) = Inr h \<and> combine (PBytes BBytes s) (PBytes BBytes h) sub = Inr r)"
  by (cases sub) (simp_all add: lt_add_def lt_remove_def err_simps)

lemma lt_apply_good:
  assumes "good_hash xof b" "length s = LTHASH_STATE_BYTES"
  obtains h where "hash_element xof (PBytes BBytes b) = Inr h"
    "(if sub then lt_remove else lt_add) xof (PBytes BBytes s) (PBytes BBytes b) = Inr (lt_apply xof sub s b)"
    "length (lt_apply xof sub s b) = LTHASH_STATE_BYTES"
    "lanes (lt_apply xof sub s b) = map2 (\<lambda>a b. if sub then a - b else a + b) (lanes s) (lanes h)"
proof -
  from assms(1) obtain h where h: "hash_element xof (PBytes BBytes b) = Inr h" "length h = LTHASH_STATE_BYTES"
    by (auto simp: good_hash_def)
  obtain r where r: "combine (PBytes BBytes s) (PBytes BBytes h) sub = Inr r"
    using combine_defined [OF assms(2) h(2)] by blast
  then have "(if sub then lt_remove else lt_add) xof (PBytes BBytes s) (PBytes BBytes b) = Inr r"
    using h(1) lt_op_cases by blast
  with combine_lanes [OF r] h(1) that [of h] show thesis by (simp add: lt_apply_def)
qed

lemma lt_apply_bad: "\<not> good_hash xof b \<Longrightarrow> lt_apply xof sub s b = s"
proof -
  assume "\<not> good_hash xof b"
  then have "(if sub then lt_remove else lt_add) xof (PBytes BBytes s) (PBytes BBytes b) \<noteq> Inr r" for r
    unfolding lt_op_cases good_hash_def using combine_lanes by blast
  then show ?thesis
    by (cases "(if sub then lt_remove else lt_add) xof (PBytes BBytes s) (PBytes BBytes b)")
       (auto simp: lt_apply_def)
qed

lemma lt_apply_length: "length s = LTHASH_STATE_BYTES \<Longrightarrow> length (lt_apply xof sub s b) = LTHASH_STATE_BYTES"
  by (cases "good_hash xof b") (auto simp: lt_apply_bad elim: lt_apply_good)

lemma lt_apply_lanes:
  "good_hash xof b \<Longrightarrow> length s = LTHASH_STATE_BYTES \<Longrightarrow> hash_element xof (PBytes BBytes b) = Inr h \<Longrightarrow>
     lanes (lt_apply xof sub s b) = map2 (\<lambda>a b. if sub then a - b else a + b) (lanes s) (lanes h)"
  by (elim lt_apply_good) auto

lemma map2_add_comm:
  fixes a b c :: "'a :: ab_group_add list"
  assumes "length a = n" "length b = n" "length c = n"
  shows "map2 (+) (map2 (+) a b) c = map2 (+) (map2 (+) a c) b"
  using assms by (auto intro!: nth_equalityI simp: add_ac)

lemma map2_add_minus:
  fixes a b :: "'a :: ab_group_add list"
  assumes "length a = n" "length b = n"
  shows "map2 (-) (map2 (+) a b) b = a"
  using assms by (auto intro!: nth_equalityI)

interpretation lt: set_accumulator "\<lambda>s. length s = LTHASH_STATE_BYTES"
  "lt_apply xof False" "lt_apply xof True" for xof
proof unfold_locales
  fix s a b assume s: "length (s :: bytes) = LTHASH_STATE_BYTES"
  then show "length (lt_apply xof False s a) = LTHASH_STATE_BYTES" by (rule lt_apply_length)
  show "lt_apply xof False (lt_apply xof False s a) b = lt_apply xof False (lt_apply xof False s b) a"
  proof (cases "good_hash xof a \<and> good_hash xof b")
    case True
    then obtain ha hb where "hash_element xof (PBytes BBytes a) = Inr ha" "hash_element xof (PBytes BBytes b) = Inr hb"
      by (auto simp: good_hash_def)
    with True s show ?thesis
      by (intro lanes_inj) (simp_all add: lt_apply_lanes lt_apply_length
          map2_add_comm [of _ LTHASH_LANES])
  qed (auto simp: lt_apply_bad)
  show "lt_apply xof True (lt_apply xof False s a) a = s"
  proof (cases "good_hash xof a")
    case True
    then obtain ha where "hash_element xof (PBytes BBytes a) = Inr ha" by (auto simp: good_hash_def)
    with True s show ?thesis
      by (intro lanes_inj) (simp_all add: lt_apply_lanes lt_apply_length
          map2_add_minus [of _ LTHASH_LANES])
  qed (simp add: lt_apply_bad)
qed

section \<open>The commitment of a set\<close>

abbreviation py_bytes :: "bytes \<Rightarrow> pyval" where "py_bytes \<equiv> PBytes BBytes"

lemma map_py_bytes_inj: "map py_bytes xs = map py_bytes ys \<longleftrightarrow> xs = ys"
  by (rule inj_map_eq_map) (simp add: inj_def)

lemma length_empty_state [simp]: "length empty_state = LTHASH_STATE_BYTES"
  by (simp add: empty_state_def)

lemma from_elements_step_Ok:
  assumes "length s = LTHASH_STATE_BYTES"
  shows "from_elements_step xof (s, seen) e = Inr acc \<longleftrightarrow>
    (\<exists>b. e = py_bytes b \<and> b \<notin> seen \<and> good_hash xof b \<and> acc = (lt_apply xof False s b, insert b seen))"
proof -
  have "lt_add xof (py_bytes s) (py_bytes b) = Inr r \<longleftrightarrow> good_hash xof b \<and> r = lt_apply xof False s b" for b r
  proof (cases "good_hash xof b")
    case True
    from lt_apply_good [OF this assms, of False]
    have "lt_add xof (py_bytes s) (py_bytes b) = Inr (lt_apply xof False s b)" by auto
    with True show ?thesis by auto
  next
    case False
    then have "lt_add xof (py_bytes s) (py_bytes b) \<noteq> Inr r"
      using lt_op_cases [of False xof s b r] combine_lanes by (auto simp: good_hash_def)
    with False show ?thesis by simp
  qed
  then show ?thesis
    by (auto simp: from_elements_step_def err_simps split: pyval.splits bytes_kind.splits if_splits)
qed

lemma from_elements_fold:
  "length s = LTHASH_STATE_BYTES \<Longrightarrow>
    foldE (from_elements_step xof) (s, seen) es = Inr acc \<longleftrightarrow>
      (\<exists>bs. es = map py_bytes bs \<and> distinct bs \<and> set bs \<inter> seen = {} \<and> list_all (good_hash xof) bs \<and>
         acc = (foldl (lt_apply xof False) s bs, seen \<union> set bs))"
proof (induction es arbitrary: s seen)
  case Nil
  then show ?case by auto
next
  case (Cons e es)
  have "foldE (from_elements_step xof) (s, seen) (e # es) = Inr acc \<longleftrightarrow>
     (\<exists>b. e = py_bytes b \<and> b \<notin> seen \<and> good_hash xof b \<and>
       foldE (from_elements_step xof) (lt_apply xof False s b, insert b seen) es = Inr acc)"
    using from_elements_step_Ok [OF Cons.prems] by (auto simp: err_simps)
  also have "\<dots> \<longleftrightarrow> (\<exists>b bs. e # es = map py_bytes (b # bs) \<and> b \<notin> seen \<and> good_hash xof b \<and>
       distinct bs \<and> set bs \<inter> insert b seen = {} \<and> list_all (good_hash xof) bs \<and>
       acc = (foldl (lt_apply xof False) (lt_apply xof False s b) bs, insert b seen \<union> set bs))"
    using Cons.IH lt_apply_length [OF Cons.prems] by auto
  also have "\<dots> \<longleftrightarrow> (\<exists>bs. e # es = map py_bytes bs \<and> distinct bs \<and> set bs \<inter> seen = {} \<and>
      list_all (good_hash xof) bs \<and> acc = (foldl (lt_apply xof False) s bs, seen \<union> set bs))"
    (is "?l \<longleftrightarrow> ?r")
  proof
    assume ?l
    then obtain b bs where e: "e # es = map py_bytes (b # bs)"
      and g: "b \<notin> seen" "good_hash xof b" "distinct bs" "set bs \<inter> insert b seen = {}" "list_all (good_hash xof) bs"
      and acc: "acc = (foldl (lt_apply xof False) (lt_apply xof False s b) bs, insert b seen \<union> set bs)"
      by (elim exE conjE) (rule that)
    have "distinct (b # bs)" "set (b # bs) \<inter> seen = {}" "list_all (good_hash xof) (b # bs)"
      using g by auto
    moreover have "acc = (foldl (lt_apply xof False) s (b # bs), seen \<union> set (b # bs))"
      using acc by simp
    ultimately show ?r using e by (intro exI [of _ "b # bs"] conjI)
  next
    assume ?r
    then obtain bs where bs: "e # es = map py_bytes bs" "distinct bs" "set bs \<inter> seen = {}"
      "list_all (good_hash xof) bs" "acc = (foldl (lt_apply xof False) s bs, seen \<union> set bs)"
      by (elim exE conjE) (rule that)
    then obtain b bt where "bs = b # bt" by (cases bs) auto
    with bs have "e # es = map py_bytes (b # bt)" "b \<notin> seen" "good_hash xof b" "distinct bt"
      "set bt \<inter> insert b seen = {}" "list_all (good_hash xof) bt"
      "acc = (foldl (lt_apply xof False) (lt_apply xof False s b) bt, insert b seen \<union> set bt)" by auto
    then show ?l by (intro exI [of _ b] exI [of _ bt] conjI)
  qed
  finally show ?case .
qed

lemma from_elements_Ok:
  "from_elements xof es = Inr s \<longleftrightarrow>
     (\<exists>bs. es = map py_bytes bs \<and> distinct bs \<and> list_all (good_hash xof) bs \<and>
        s = foldl (lt_apply xof False) empty_state bs)"
  unfolding from_elements_def bindE_Inr_iff using from_elements_fold [of empty_state xof "{}" es] by auto

text \<open>C39: the commitment of a set does not depend on the order in which its elements are
  listed: a permutation of an accepted list is accepted and gives the same state.\<close>

theorem lt_order_independent:
  assumes "from_elements xof es = Inr s" "mset es = mset es'"
  shows "from_elements xof es' = Inr s"
proof -
  from assms(1) obtain bs where bs: "es = map py_bytes bs" "distinct bs" "list_all (good_hash xof) bs"
    "s = foldl (lt_apply xof False) empty_state bs" by (auto simp: from_elements_Ok)
  have "set es' = set es" using assms(2) by (metis mset_eq_setD)
  then obtain bs' where bs': "es' = map py_bytes bs'" by (metis bs(1) ex_map_conv image_eqI list.set_map)
  let ?raw = "\<lambda>v. case v of PBytes k b \<Rightarrow> b | _ \<Rightarrow> []"
  have "image_mset ?raw (mset (map py_bytes bs)) = image_mset ?raw (mset (map py_bytes bs'))"
    using assms(2) bs(1) bs' by simp
  then have m: "mset bs = mset bs'" by (simp add: image_mset.compositionality o_def)
  then have "foldl (lt_apply xof False) empty_state bs' = s"
    using lt.fold_mset [of empty_state bs bs' xof] bs(4) by simp
  moreover have "distinct bs'" "list_all (good_hash xof) bs'"
    using m bs(2,3) by (metis mset_eq_imp_distinct_iff, metis list_all_iff mset_eq_setD)
  ultimately show ?thesis using bs' by (auto simp: from_elements_Ok)
qed

lemma good_hash_const: "length b < 2 ^ 64 \<Longrightarrow> good_hash (\<lambda>d n. replicate n 1) b"
  by (simp add: good_hash_def hash_element_def)

lemma from_elements_two:
  "\<exists>s. from_elements (\<lambda>d n. replicate n 1) [py_bytes [1], py_bytes [2]] = Inr s"
  unfolding from_elements_Ok
  by (intro exI [of _ "foldl (lt_apply (\<lambda>d n. replicate n 1) False) empty_state [[1], [2]]"] exI [of _ "[[1], [2]]"])
     (simp add: good_hash_const)

theorem lt_order_independent_witness:
  "\<exists>s. from_elements (\<lambda>d n. replicate n 1) [py_bytes [1], py_bytes [2]] = Inr s \<and>
       from_elements (\<lambda>d n. replicate n 1) [py_bytes [2], py_bytes [1]] = Inr s"
proof -
  obtain s where s: "from_elements (\<lambda>d n. replicate n 1) [py_bytes [1], py_bytes [2]] = Inr s"
    using from_elements_two by blast
  have "mset [py_bytes [1], py_bytes [2]] = mset [py_bytes [2], py_bytes [1]]" by simp
  with s show ?thesis using lt_order_independent [OF s] by blast
qed

text \<open>The commitment can be kept incrementally.  Adding a new element to the state of a set
  gives the state of the extended set (and is refused exactly when the extended set is), and
  removing a member gives the state of the remaining set.\<close>

theorem lt_incremental:
  assumes "from_elements xof es = Inr s"
  shows "(py_bytes b \<notin> set es \<longrightarrow>
      (\<forall>r. from_elements xof (es @ [py_bytes b]) = Inr r \<longleftrightarrow> lt_add xof (py_bytes s) (py_bytes b) = Inr r)) \<and>
    (py_bytes b \<in> set es \<longrightarrow>
      lt_remove xof (py_bytes s) (py_bytes b) = from_elements xof (remove1 (py_bytes b) es))"
proof (intro conjI impI allI)
  from assms obtain bs where bs: "es = map py_bytes bs" "distinct bs" "list_all (good_hash xof) bs"
    and s: "s = foldl (lt_apply xof False) empty_state bs" by (auto simp: from_elements_Ok)
  have len: "length s = LTHASH_STATE_BYTES" using lt.fold_invar [of empty_state xof bs] s by simp
  show "from_elements xof (es @ [py_bytes b]) = Inr r \<longleftrightarrow> lt_add xof (py_bytes s) (py_bytes b) = Inr r"
    if new: "py_bytes b \<notin> set es" for r
  proof -
    have "from_elements xof (es @ [py_bytes b]) = Inr r \<longleftrightarrow> good_hash xof b \<and> r = lt_apply xof False s b"
    proof
      assume "from_elements xof (es @ [py_bytes b]) = Inr r"
      then obtain cs where cs: "map py_bytes bs @ [py_bytes b] = map py_bytes cs" "list_all (good_hash xof) cs"
        "r = foldl (lt_apply xof False) empty_state cs" by (auto simp: from_elements_Ok bs(1))
      have "map py_bytes cs = map py_bytes (bs @ [b])" using cs(1) by simp
      then have "cs = bs @ [b]" by (rule map_py_bytes_inj [THEN iffD1])
      with cs show "good_hash xof b \<and> r = lt_apply xof False s b" by (simp add: s)
    next
      assume "good_hash xof b \<and> r = lt_apply xof False s b"
      then have "es @ [py_bytes b] = map py_bytes (bs @ [b])" "distinct (bs @ [b])"
        "list_all (good_hash xof) (bs @ [b])" "r = foldl (lt_apply xof False) empty_state (bs @ [b])"
        using bs s new by auto
      then show "from_elements xof (es @ [py_bytes b]) = Inr r" unfolding from_elements_Ok by blast
    qed
    also have "\<dots> \<longleftrightarrow> lt_add xof (py_bytes s) (py_bytes b) = Inr r"
      using from_elements_step_Ok [OF len, of xof "{}" "py_bytes b" "(r, {b})"]
      by (auto simp: from_elements_step_def err_simps)
    finally show ?thesis .
  qed
  show "lt_remove xof (py_bytes s) (py_bytes b) = from_elements xof (remove1 (py_bytes b) es)"
    if mem: "py_bytes b \<in> set es"
  proof -
    have b: "b \<in> set bs" using mem bs(1) by auto
    then have "good_hash xof b" using bs(3) by (simp add: list_all_iff)
    from lt_apply_good [OF this len, of True]
    have "lt_remove xof (py_bytes s) (py_bytes b) = Inr (lt_apply xof True s b)" by auto
    also have "lt_apply xof True s b = foldl (lt_apply xof False) empty_state (remove1 b bs)"
      unfolding s using b by (intro lt.fold_rem) simp_all
    also have "Inr \<dots> = from_elements xof (remove1 (py_bytes b) es)"
    proof -
      have "remove1 (py_bytes b) es = map py_bytes (remove1 b bs)" unfolding bs(1) by (induction bs) auto
      moreover have "list_all (good_hash xof) (remove1 b bs)" "distinct (remove1 b bs)"
        using bs(2,3) by (auto simp: list_all_iff dest: notin_set_remove1)
      ultimately have "from_elements xof (remove1 (py_bytes b) es) =
          Inr (foldl (lt_apply xof False) empty_state (remove1 b bs))"
        unfolding from_elements_Ok by blast
      then show ?thesis by simp
    qed
    finally show ?thesis .
  qed
qed

theorem lt_incremental_witness:
  "\<exists>s t. from_elements (\<lambda>d n. replicate n 1) [py_bytes [1]] = Inr t \<and>
     from_elements (\<lambda>d n. replicate n 1) [py_bytes [1], py_bytes [2]] = Inr s \<and>
     lt_add (\<lambda>d n. replicate n 1) (py_bytes t) (py_bytes [2]) = Inr s \<and>
     lt_remove (\<lambda>d n. replicate n 1) (py_bytes s) (py_bytes [2]) = Inr t"
proof -
  let ?x = "\<lambda>d n. replicate n (1 :: byte)"
  obtain s where s: "from_elements ?x [py_bytes [1], py_bytes [2]] = Inr s" using from_elements_two by blast
  obtain t where t: "from_elements ?x [py_bytes [1]] = Inr t"
    using good_hash_const [of "[1]"] by (force simp: from_elements_Ok intro!: exI [of _ "[[1]]"])
  have "lt_add ?x (py_bytes t) (py_bytes [2]) = Inr s"
    using lt_incremental [OF t, of "[2]", THEN conjunct1, THEN mp, THEN spec, of s] s by simp
  moreover have "lt_remove ?x (py_bytes s) (py_bytes [2]) = Inr t"
    using lt_incremental [OF s, of "[2]"] t by simp
  ultimately show ?thesis using s t by blast
qed

text \<open>A token decodes to a state exactly when it is that state's encoding: every state
  survives the round trip, and no second token is accepted for it.\<close>

theorem lt_token_roundtrip:
  "decode_state (PStr t) = Inr s \<longleftrightarrow> encode_state (py_bytes s) = Inr t"
proof
  assume "decode_state (PStr t) = Inr s"
  then show "encode_state (py_bytes s) = Inr t"
    by (auto simp: decode_state_def err_simps Let_def split: if_splits option.splits)
next
  assume e: "encode_state (py_bytes s) = Inr t"
  then have t: "t = LTHASH_TOKEN_PREFIX @ b64url_encode s" "length s = LTHASH_STATE_BYTES"
    by (auto simp: encode_state_def err_simps)
  have "b64url_encode s \<noteq> []"
    using t(2) b64url_roundtrip [of s] b64url_roundtrip [of "[]"]
    by (auto simp: LTHASH_STATE_BYTES_def LTHASH_LANES_def LTHASH_LANE_BITS_def b64url_encode_def
        base_encode_def byte_bits_def b64url_decode_def base_decode_def)
  with e t show "decode_state (PStr t) = Inr s"
    by (simp add: decode_state_def Let_def)
qed

end
