(* ===== verification/Ledger_Types.thy ===== *)
theory Ledger_Types
  imports Tup_V1
begin

text \<open>
  The data of \<^verbatim>\<open>core/store/ledger.py\<close> and the metadata projection of
  \<^verbatim>\<open>core/protocol/annotation_v1.py\<close>: claims, metadata rows and events, annotations,
  revocations, the rows of the three SQLite tables, the column codecs, and the validators.
  Fields that the code declares as \<open>str\<close> have a string type, so the \<open>isinstance\<close> half of
  a check is the type; the other half is a definition.
\<close>

section \<open>Records\<close>

record claim =
  c_asrt :: ustr
  c_pred :: ustr
  c_eref :: ustr
  c_terms :: "pyval list"

record claim_arg =
  g_asrt :: ustr
  g_idx :: nat
  g_atom :: pyval
  g_tag :: ustr

text \<open>
  A metadata key is a plain string, or the reserved storage key of an annotation: the text
  \<open>_ANNOTATION_COMPAT_PREFIX + base64url(json(...))\<close> of the five identity columns, which is
  kept here in decoded form.
\<close>

datatype meta_key =
    MKey ustr
  | AKey (k_ns: ustr) (k_cat: ustr) (k_key: ustr) (k_origin: ustr) (k_deriv: "ustr option")

record meta_row =
  m_asrt :: ustr
  m_key :: meta_key
  m_kind :: ustr
  m_value :: pyval

text \<open>An appended event: a row (flagged when it is an annotation storage row) or an UNSET.\<close>

datatype meta_append = MRow bool meta_row | MTombstone ustr meta_key

record annotation_row =
  a_asrt :: ustr
  a_ns :: ustr
  a_cat :: ustr
  a_key :: ustr
  a_kind :: ustr
  a_value :: pyval
  a_origin :: ustr
  a_deriv :: "ustr option"

record revokes_row =
  r_revoker :: ustr
  r_revoked :: ustr

datatype on_conflict = Skip | ErrorOnConflict

record idempotency =
  i_key :: ustr
  i_conflict :: on_conflict

record append_result =
  ar_asrt :: ustr
  ar_written :: bool

record meta_event =
  e_asrt :: ustr
  e_key :: meta_key
  e_kind :: "ustr option"
  e_value :: pyval
  e_tx :: nat
  e_op :: nat

definition event_seq :: "meta_event \<Rightarrow> nat \<times> nat" where
  "event_seq e = (e_tx e, e_op e)"

definition is_unset :: "meta_event \<Rightarrow> bool" where
  "is_unset e \<longleftrightarrow> e_kind e = None"

record tx_meta_default =
  t_tx :: nat
  t_key :: meta_key
  t_kind :: ustr
  t_value :: pyval

record assertion_write =
  w_claim :: claim
  w_args :: "claim_arg list"
  w_meta :: "meta_row list"
  w_anno :: "annotation_row list"

record revocation_write =
  v_revokes :: revokes_row
  v_meta :: "meta_row list"
  v_anno :: "annotation_row list"

section \<open>Constants\<close>

definition META_KINDS :: "ustr list" where
  "META_KINDS = [u ''str'', u ''int'', u ''float'', u ''bool'', u ''time'', u ''json'']"

definition ANNOTATION_ORIGINS :: "ustr list" where
  "ANNOTATION_ORIGINS = [u ''observed'', u ''derived'']"

definition ANNOTATION_CATEGORIES :: "ustr list" where
  "ANNOTATION_CATEGORIES = [u ''source'', u ''semantic'', u ''derived'', u ''operational'']"

definition SYSTEM_PREFIX :: ustr where "SYSTEM_PREFIX = u ''__system__.''"
definition REVOCATION_PREDICATE :: ustr where "REVOCATION_PREDICATE = u ''__system__.revokes''"
definition ANNOTATION_COMPAT_PREFIX :: ustr where
  "ANNOTATION_COMPAT_PREFIX = u ''__factgraph_annotation_v1__:''"
definition JSON_BYTES_KEY :: ustr where "JSON_BYTES_KEY = u ''__factpy_bytes_b64__''"

fun is_reserved_annotation_meta_key :: "meta_key \<Rightarrow> bool" where
  "is_reserved_annotation_meta_key (AKey _ _ _ _ _) = True"
| "is_reserved_annotation_meta_key (MKey s) = starts_with s ANNOTATION_COMPAT_PREFIX"

section \<open>Metadata projected to annotations\<close>

definition SHARED_ANNOTATION_KEYS :: "(ustr \<times> ustr \<times> ustr) list" where
  "SHARED_ANNOTATION_KEYS =
     [(u ''source'', u ''source'', u ''observed''), (u ''source_loc'', u ''source'', u ''observed''),
      (u ''trace_id'', u ''source'', u ''observed''), (u ''approved_by'', u ''source'', u ''observed''),
      (u ''note'', u ''source'', u ''observed''), (u ''raw_kind'', u ''semantic'', u ''observed''),
      (u ''bound'', u ''semantic'', u ''observed'')]"

text \<open>Namespace, category, origin and derivation of the projection of an initial meta key.\<close>

definition initial_meta_annotation_v1 :: "meta_key \<Rightarrow> (ustr \<times> ustr \<times> ustr \<times> ustr option) option" where
  "initial_meta_annotation_v1 key = (case key of
      MKey k \<Rightarrow>
        (case map_of SHARED_ANNOTATION_KEYS k of
          None \<Rightarrow> None
        | Some (category, origin) \<Rightarrow> Some (u ''shared'', category, origin, None))
    | AKey _ _ _ _ _ \<Rightarrow> None)"

definition key_text :: "meta_key \<Rightarrow> ustr" where
  "key_text k = (case k of MKey s \<Rightarrow> s | AKey _ _ s _ _ \<Rightarrow> s)"

definition initial_meta_annotation_row :: "meta_row \<Rightarrow> annotation_row option" where
  "initial_meta_annotation_row row = (case initial_meta_annotation_v1 (m_key row) of
      None \<Rightarrow> None
    | Some (ns, cat, origin, deriv) \<Rightarrow>
        Some \<lparr>a_asrt = m_asrt row, a_ns = ns, a_cat = cat, a_key = key_text (m_key row),
          a_kind = m_kind row, a_value = m_value row, a_origin = origin, a_deriv = deriv\<rparr>)"

definition initial_meta_annotation_rows :: "meta_row list \<Rightarrow> annotation_row list" where
  "initial_meta_annotation_rows rows = List.map_filter initial_meta_annotation_row rows"

type_synonym anno_identity = "ustr \<times> ustr \<times> ustr \<times> ustr"

definition anno_id :: "annotation_row \<Rightarrow> anno_identity" where
  "anno_id r = (a_asrt r, a_ns r, a_cat r, a_key r)"

text \<open>A later row takes the place of an earlier one with the same identity.\<close>

definition merge_annotation_rows :: "annotation_row list \<Rightarrow> annotation_row list \<Rightarrow> annotation_row list" where
  "merge_annotation_rows contract explicit =
     map snd (foldl (\<lambda>merged row. dict_set (anno_id row) row merged) [] (contract @ explicit))"

definition annotation_storage_key :: "annotation_row \<Rightarrow> meta_key" where
  "annotation_storage_key r = AKey (a_ns r) (a_cat r) (a_key r) (a_origin r) (a_deriv r)"

end
