(* ===== verification/Ledger_Codec.thy ===== *)
theory Ledger_Codec
  imports Ledger_Types
begin

text \<open>
  The text columns of the ledger and the validators of \<^verbatim>\<open>core/store/ledger.py\<close>.  A column
  holds plain text, the \<open>repr\<close> of a float (kept as its bits) or a JSON document (kept as
  the document, keys sorted): \<open>repr\<close>/\<open>float\<close> and \<open>json.dumps\<close>/\<open>json.loads\<close> are
  the standard library's inverse pairs.
\<close>

section \<open>Column values\<close>

datatype sql_text = TText ustr | TFloat nat | TJson pyval

definition str_of_key :: "pyval \<Rightarrow> ustr res" where
  "str_of_key v = (case v of
      PStr s \<Rightarrow> Ok s
    | PInt i \<Rightarrow> Ok (dec_int i)
    | PBool b \<Rightarrow> Ok (if b then u ''True'' else u ''False'')
    | PNone \<Rightarrow> Ok (u ''None'')
    | _ \<Rightarrow> Err NotModelled)"

fun to_jsonable :: "pyval \<Rightarrow> pyval res" where
  "to_jsonable (PBytes k b) = Ok (PDict [(PStr JSON_BYTES_KEY, PStr (b64_encode b))])"
| "to_jsonable (PList vs) = bindE (mapE to_jsonable vs) (\<lambda>ws. Ok (PList ws))"
| "to_jsonable (PTuple vs) = bindE (mapE to_jsonable vs) (\<lambda>ws. Ok (PList ws))"
| "to_jsonable (PDict d) =
     bindE (mapE (\<lambda>(k, v). bindE (str_of_key k) (\<lambda>s. bindE (to_jsonable v) (\<lambda>w. Ok (s, w)))) d)
       (\<lambda>es. Ok (PDict (map (\<lambda>(s, w). (PStr s, w)) (foldl (\<lambda>m (s, w). dict_set s w m) [] es))))"
| "to_jsonable v = Ok v"

text \<open>
  \<open>base64.b64decode(raw.encode("ascii"))\<close>: canonical text decodes, non-ASCII text and missing padding
  raise subclasses of \<open>ValueError\<close>; the decoder's tolerance of other texts is not modelled.
\<close>

definition py_b64decode :: "ustr \<Rightarrow> bytes res" where
  "py_b64decode raw = (case b64_decode raw of
      Some b \<Rightarrow> if b64_encode b = raw then Ok b
               else if list_all (\<lambda>c. b64_inv 43 47 c \<noteq> None) raw \<and> length raw mod 4 \<noteq> 0 then Err ValueError
               else Err NotModelled
    | None \<Rightarrow> if list_ex (\<lambda>c. 128 \<le> c) raw then Err ValueError else Err NotModelled)"

fun from_jsonable :: "pyval \<Rightarrow> pyval res" where
  "from_jsonable (PDict d) =
     (case d of
        [(PStr k, PStr raw)] \<Rightarrow>
          if k = JSON_BYTES_KEY
          then bindE (py_b64decode raw) (\<lambda>b. Ok (PBytes BBytes b))
          else Ok (PDict d)
      | _ \<Rightarrow> bindE (mapE (\<lambda>(k, v). bindE (from_jsonable v) (\<lambda>w. Ok (k, w))) d) (\<lambda>es. Ok (PDict es)))"
| "from_jsonable (PList vs) = bindE (mapE from_jsonable vs) (\<lambda>ws. Ok (PList ws))"
| "from_jsonable v = Ok v"

text \<open>The document \<open>json.dumps(..., sort_keys=True, allow_nan=False)\<close> writes.\<close>

definition json_key :: "pyval \<Rightarrow> ustr" where
  "json_key v = (case v of PStr s \<Rightarrow> s | _ \<Rightarrow> [])"

fun json_canon :: "pyval \<Rightarrow> pyval res" where
  "json_canon (PFloat w) = (if float64_finite (unat w) then Ok (PFloat w) else Err ValueError)"
| "json_canon (PList vs) = bindE (mapE json_canon vs) (\<lambda>ws. Ok (PList ws))"
| "json_canon (PDict d) =
     bindE (mapE (\<lambda>(k, v). bindE (json_canon v) (\<lambda>w. Ok (k, w))) d)
       (\<lambda>es. Ok (PDict (sort_key (\<lambda>(k, v). json_key k) es)))"
| "json_canon v = Ok v"

section \<open>Numbers\<close>

text \<open>\<open>int(text)\<close> on plain decimal text; its leniency (spaces, sign, underscores) is not modelled.\<close>

definition py_int_of_text :: "ustr \<Rightarrow> int res" where
  "py_int_of_text s =
     (if is_dec_int s then Ok (dec_int_val s)
      else if s \<noteq> [] \<and> list_all (\<lambda>c. 97 \<le> c \<and> c \<le> 122) s then Err ValueError
      else Err NotModelled)"

text \<open>\<open>float(i)\<close>, exact below \<open>2^53\<close>.\<close>

fun log2_floor :: "nat \<Rightarrow> nat" where
  "log2_floor n = (if n < 2 then 0 else Suc (log2_floor (n div 2)))"

declare log2_floor.simps [simp del]

definition float_of_int :: "int \<Rightarrow> nat res" where
  "float_of_int i =
     (let m = nat \<bar>i\<bar>; e = log2_floor m
      in if m = 0 then Ok 0
         else if m < 2 ^ 53 then
           Ok ((if i < 0 then 2 ^ 63 else 0) + (e + 1023) * 2 ^ 52 + (m * 2 ^ (52 - e) - 2 ^ 52))
         else Err NotModelled)"

definition zero_float :: "nat \<Rightarrow> nat" where
  "zero_float n = (if n = 0 \<or> n = 2 ^ 63 then 0 else n)"

section \<open>The value column of a claim\<close>

definition encode_claim_value :: "pyval list \<Rightarrow> (sql_text option \<times> ustr option) res" where
  "encode_claim_value rest_terms =
     (if rest_terms = [] then Ok (None, None)
      else if length rest_terms \<noteq> 1 then Err ValueError
      else bindE (claim_args_from_rest_terms rest_terms) (\<lambda>rows.
        (case rows of
          (_, value, tag) # _ \<Rightarrow>
            if tag \<in> {u ''entity_ref'', u ''string'', u ''uuid'', u ''bytes''} then
              (case value of PStr s \<Rightarrow> Ok (Some (TText s), Some tag) | _ \<Rightarrow> Err NotModelled)
            else if tag \<in> {u ''int'', u ''time''} then
              (case value of PInt i \<Rightarrow> Ok (Some (TText (dec_int i)), Some tag) | _ \<Rightarrow> Err NotModelled)
            else if tag = u ''bool'' then
              (case value of
                PBool b \<Rightarrow> Ok (Some (TText (if b then u ''true'' else u ''false'')), Some tag)
              | _ \<Rightarrow> Err NotModelled)
            else if tag = u ''float64'' then
              (case value of
                PStr s \<Rightarrow> Ok (Some (TFloat (zero_float (hex_val (drop 2 s)))), Some tag)
              | _ \<Rightarrow> Err NotModelled)
            else Err ValueError
        | [] \<Rightarrow> Err IndexError)))"

definition decode_claim_value :: "sql_text option \<Rightarrow> ustr option \<Rightarrow> pyval list res" where
  "decode_claim_value value tag = (case (value, tag) of
      (None, None) \<Rightarrow> Ok []
    | (None, Some _) \<Rightarrow> Err LedgerFormatError
    | (Some _, None) \<Rightarrow> Err LedgerFormatError
    | (Some cell, Some t) \<Rightarrow>
        bindE
         (if t \<in> {u ''entity_ref'', u ''string'', u ''uuid''} then
            (case cell of TText s \<Rightarrow> Ok (PStr s) | _ \<Rightarrow> Err NotModelled)
          else if t \<in> {u ''int'', u ''time''} then
            (case cell of TText s \<Rightarrow> bindE (py_int_of_text s) (\<lambda>i. Ok (PInt i)) | _ \<Rightarrow> Err NotModelled)
          else if t = u ''bool'' then
            (case cell of
              TText s \<Rightarrow>
                if s \<notin> {u ''true'', u ''false''} then Err LedgerFormatError
                else Ok (PBool (s = u ''true''))
            | _ \<Rightarrow> Err NotModelled)
          else if t = u ''float64'' then
            (case cell of
              TFloat n \<Rightarrow>
                if \<not> float64_finite n then Err LedgerFormatError
                else Ok (PFloat (of_nat (zero_float n)))
            | _ \<Rightarrow> Err NotModelled)
          else if t = u ''bytes'' then
            (case cell of
              TText s \<Rightarrow>
                (case b64url_decode s of Some b \<Rightarrow> Ok (PBytes BBytes b) | None \<Rightarrow> Err NotModelled)
            | _ \<Rightarrow> Err NotModelled)
          else Err LedgerFormatError)
         (\<lambda>decoded.
            bindE (claim_args_from_rest_terms [PTuple [PStr t, decoded]])
              (\<lambda>_. Ok [PTuple [PStr t, decoded]])))"

definition normalize_term :: "pyval \<Rightarrow> pyval res" where
  "normalize_term term = (case term of
      PTuple [PStr tag, value] \<Rightarrow> if tag = [] then Err ValueError else Ok (PTuple [PStr tag, value])
    | _ \<Rightarrow> Err ValueError)"

text \<open>The legacy carrier of tuples with several terms: a JSON list of \<open>[tag, value]\<close> pairs.\<close>

definition enc_rest_terms :: "pyval list \<Rightarrow> pyval list res" where
  "enc_rest_terms rest_terms =
     mapE (\<lambda>term. case term of
         PTuple [tag, value] \<Rightarrow> bindE (to_jsonable value) (\<lambda>w. Ok (PList [tag, w]))
       | _ \<Rightarrow> Err ValueError) rest_terms"

definition dec_rest_terms :: "pyval list \<Rightarrow> pyval list res" where
  "dec_rest_terms raw =
     mapE (\<lambda>item. case item of
         PList [PStr tag, value] \<Rightarrow> bindE (from_jsonable value) (\<lambda>w. Ok (PTuple [PStr tag, w]))
       | _ \<Rightarrow> Err NotModelled) raw"

definition decode_claim_terms :: "pyval list option \<Rightarrow> sql_text option \<Rightarrow> ustr option \<Rightarrow> pyval list res" where
  "decode_claim_terms rest_terms value value_tag =
     bindE (case rest_terms of None \<Rightarrow> Ok [] | Some raw \<Rightarrow> dec_rest_terms raw) (\<lambda>legacy_terms.
     bindE (mapE normalize_term legacy_terms) (\<lambda>normalized_legacy.
       if normalized_legacy \<noteq> [] \<and> (value \<noteq> None \<or> value_tag \<noteq> None) then Err LedgerFormatError
       else if normalized_legacy \<noteq> [] then
         bindE (claim_args_from_rest_terms normalized_legacy) (\<lambda>_. Ok normalized_legacy)
       else decode_claim_value value value_tag))"

section \<open>The value column of a metadata event\<close>

definition encode_meta_value :: "ustr \<Rightarrow> pyval \<Rightarrow> sql_text res" where
  "encode_meta_value kind value =
     (if kind = u ''str'' then (case value of PStr s \<Rightarrow> Ok (TText s) | _ \<Rightarrow> Err ValueError)
      else if kind \<in> {u ''int'', u ''time''} then
        (case value of PInt i \<Rightarrow> Ok (TText (dec_int i)) | _ \<Rightarrow> Err ValueError)
      else if kind = u ''float'' then
        (case value of
          PInt i \<Rightarrow> bindE (float_of_int i) (\<lambda>n. Ok (TFloat (zero_float n)))
        | PFloat w \<Rightarrow>
            if \<not> float64_finite (unat w) then Err ValueError else Ok (TFloat (zero_float (unat w)))
        | _ \<Rightarrow> Err ValueError)
      else if kind = u ''bool'' then
        (case value of
          PBool b \<Rightarrow> Ok (TText (if b then u ''true'' else u ''false''))
        | _ \<Rightarrow> Err ValueError)
      else if kind = u ''json'' then
        bindE (to_jsonable value) (\<lambda>j. bindE (json_canon j) (\<lambda>c. Ok (TJson c)))
      else Err ValueError)"

definition decode_meta_value :: "ustr option \<Rightarrow> sql_text option \<Rightarrow> pyval res" where
  "decode_meta_value kind value = (case (kind, value) of
      (None, None) \<Rightarrow> Ok PNone
    | (None, Some _) \<Rightarrow> Err LedgerFormatError
    | (Some _, None) \<Rightarrow> Err LedgerFormatError
    | (Some k, Some cell) \<Rightarrow>
        catchE
         (if k = u ''str'' then (case cell of TText s \<Rightarrow> Ok (PStr s) | _ \<Rightarrow> Err NotModelled)
          else if k \<in> {u ''int'', u ''time''} then
            (case cell of TText s \<Rightarrow> bindE (py_int_of_text s) (\<lambda>i. Ok (PInt i)) | _ \<Rightarrow> Err NotModelled)
          else if k = u ''float'' then
            (case cell of
              TFloat n \<Rightarrow>
                if \<not> float64_finite n then Err LedgerFormatError
                else Ok (PFloat (of_nat (zero_float n)))
            | _ \<Rightarrow> Err NotModelled)
          else if k = u ''bool'' then
            (case cell of
              TText s \<Rightarrow>
                if s \<notin> {u ''true'', u ''false''} then Err LedgerFormatError
                else Ok (PBool (s = u ''true''))
            | _ \<Rightarrow> Err NotModelled)
          else if k = u ''json'' then
            (case cell of TJson j \<Rightarrow> from_jsonable j | _ \<Rightarrow> Err NotModelled)
          else Err LedgerFormatError)
         (\<lambda>e. e \<in> {TypeError, ValueError}) (\<lambda>_. Err LedgerFormatError))"

end
