(* ===== verification/Ledger_Validate.thy ===== *)
theory Ledger_Validate
  imports Ledger_Codec
begin

text \<open>
  The checks that \<^verbatim>\<open>core/store/ledger.py\<close> makes before it writes, the projection of
  annotations to storage rows, and the round trip of the value columns.
\<close>

section \<open>Validators\<close>

definition validate_claim_identity :: "ustr option \<Rightarrow> ustr \<Rightarrow> ustr \<Rightarrow> unit res" where
  "validate_claim_identity asrt_id pred_id e_ref =
     (if asrt_id = Some [] then Err ValueError
      else if pred_id = [] then Err ValueError
      else if e_ref = [] then Err ValueError
      else Ok ())"

definition validate_claim_input :: "claim \<Rightarrow> bool \<Rightarrow> unit res" where
  "validate_claim_input claim require_asrt_id =
     bindE (validate_claim_identity (if require_asrt_id then Some (c_asrt claim) else None)
              (c_pred claim) (c_eref claim)) (\<lambda>_.
       if starts_with (c_pred claim) SYSTEM_PREFIX then Err ValueError else Ok ())"

definition validate_claim_args_rows :: "claim_arg list \<Rightarrow> unit res" where
  "validate_claim_args_rows rows =
     (if list_all (\<lambda>row. g_tag row \<noteq> []) rows then Ok () else Err ValueError)"

definition validate_meta_row :: "bool \<Rightarrow> meta_row \<Rightarrow> unit res" where
  "validate_meta_row is_storage row =
     (if m_kind row \<notin> set META_KINDS then Err ValueError
      else if m_key row = MKey [] then Err ValueError
      else if is_reserved_annotation_meta_key (m_key row) \<and> \<not> is_storage then Err ValueError
      else if m_asrt row = [] then Err ValueError
      else Ok ())"

definition validate_meta_rows :: "meta_row list \<Rightarrow> unit res" where
  "validate_meta_rows rows = foldE (\<lambda>_ row. validate_meta_row False row) () rows"

definition validate_meta_events :: "meta_append list \<Rightarrow> unit res" where
  "validate_meta_events rows =
     bindE (foldE (\<lambda>_ r. case r of MRow s row \<Rightarrow> validate_meta_row s row | MTombstone _ _ \<Rightarrow> Ok ()) () rows)
     (\<lambda>_. foldE (\<lambda>_ r. case r of
         MRow _ _ \<Rightarrow> Ok ()
       | MTombstone asrt_id key \<Rightarrow>
           if asrt_id = [] then Err ValueError
           else if key = MKey [] then Err ValueError
           else if is_reserved_annotation_meta_key key then Err ValueError
           else Ok ()) () rows)"

text \<open>On an initial row the assertion id is still to be filled in, so it may be empty.\<close>

definition validate_meta_rows_for_append_assertion :: "meta_row list \<Rightarrow> unit res" where
  "validate_meta_rows_for_append_assertion rows =
     foldE (\<lambda>_ row.
       if m_kind row \<notin> set META_KINDS then Err ValueError
       else if m_key row = MKey [] then Err ValueError
       else if is_reserved_annotation_meta_key (m_key row) then Err ValueError
       else Ok ()) () rows"

definition reject_duplicate_meta_keys :: "meta_row list \<Rightarrow> unit res" where
  "reject_duplicate_meta_keys rows =
     (if distinct (map m_key rows) then Ok () else Err ValueError)"

definition materialize_idempotency_meta ::
  "meta_row list \<Rightarrow> idempotency option \<Rightarrow> ustr \<Rightarrow> meta_row list res" where
  "materialize_idempotency_meta rows idem asrt_id = (case idem of
      None \<Rightarrow> Ok rows
    | Some i \<Rightarrow>
        if i_key i = [] then Err ValueError
        else
          (case filter (\<lambda>row. m_key row = MKey (u ''ingest_key'')) rows of
            row # _ \<Rightarrow>
              if m_kind row \<noteq> u ''str'' \<or> m_value row \<noteq> PStr (i_key i) then Err ValueError
              else Ok rows
          | [] \<Rightarrow>
              Ok (rows @ [\<lparr>m_asrt = asrt_id, m_key = MKey (u ''ingest_key''), m_kind = u ''str'',
                 m_value = PStr (i_key i)\<rparr>])))"

definition validate_annotation_rows :: "annotation_row list \<Rightarrow> unit res" where
  "validate_annotation_rows rows =
     foldE (\<lambda>_ row.
       if a_asrt row = [] then Err ValueError
       else if a_ns row = [] then Err ValueError
       else if a_cat row \<notin> set ANNOTATION_CATEGORIES then Err ValueError
       else if a_key row = [] then Err ValueError
       else if a_kind row \<notin> set META_KINDS then Err ValueError
       else if a_origin row \<notin> set ANNOTATION_ORIGINS then Err ValueError
       else if a_origin row = u ''derived'' \<and> (a_deriv row = None \<or> a_deriv row = Some []) then Err ValueError
       else Ok ()) () rows"

definition validate_revokes_row :: "revokes_row \<Rightarrow> unit res" where
  "validate_revokes_row row =
     (if r_revoker row = [] then Err ValueError
      else if r_revoked row = [] then Err ValueError
      else Ok ())"

section \<open>Annotation storage rows\<close>

type_synonym full_identity =
  "ustr \<times> ustr \<times> ustr \<times> ustr \<times> ustr \<times> sql_text \<times> ustr \<times> ustr option"

definition annotation_identity :: "annotation_row \<Rightarrow> full_identity res" where
  "annotation_identity row =
     bindE (encode_meta_value (a_kind row) (a_value row)) (\<lambda>cell.
       Ok (a_asrt row, a_ns row, a_cat row, a_key row, a_kind row, cell, a_origin row, a_deriv row))"

definition storage_row :: "annotation_row \<Rightarrow> meta_row" where
  "storage_row row =
     \<lparr>m_asrt = a_asrt row, m_key = annotation_storage_key row, m_kind = a_kind row, m_value = a_value row\<rparr>"

definition annotation_compatibility_meta_rows ::
  "annotation_row list \<Rightarrow> meta_row list \<Rightarrow> meta_row list res" where
  "annotation_compatibility_meta_rows rows skip_meta_rows =
     bindE (mapE annotation_identity (initial_meta_annotation_rows skip_meta_rows)) (\<lambda>reproducible.
     bindE (mapE annotation_identity rows) (\<lambda>identities.
     Ok (map (\<lambda>p. storage_row (fst p))
           (filter (\<lambda>p. snd p \<notin> set reproducible) (zip rows identities)))))"

definition annotation_from_storage_key :: "ustr \<Rightarrow> meta_key \<Rightarrow> ustr \<Rightarrow> pyval \<Rightarrow> annotation_row res" where
  "annotation_from_storage_key asrt_id key kind value = (case key of
      MKey _ \<Rightarrow> Err LedgerFormatError
    | AKey ns cat k origin deriv \<Rightarrow>
        (let row = \<lparr>a_asrt = asrt_id, a_ns = ns, a_cat = cat, a_key = k, a_kind = kind,
                     a_value = value, a_origin = origin, a_deriv = deriv\<rparr>
         in catchE (bindE (validate_annotation_rows [row]) (\<lambda>_. Ok row))
              (\<lambda>e. e \<in> {TypeError, ValueError, KeyError}) (\<lambda>_. Err LedgerFormatError)))"

section \<open>Round trip of the columns\<close>

lemma py_int_of_text_dec [simp]: "py_int_of_text (dec_int i) = Inr i"
  by (simp add: py_int_of_text_def is_dec_int_dec_int)

lemma claim_args_single:
  "claim_args_from_rest_terms [t] = Inr rows \<longleftrightarrow>
     (\<exists>a tag. claim_arg_item t = Inr (a, tag) \<and> rows = [(0, a, tag)])"
  by (auto simp: claim_args_eq err_simps)

lemma float64_bits_props:
  assumes "float64_bits v = Inr n"
  shows "n < 2 ^ 64 \<and> n \<noteq> 2 ^ 63 \<and> float64_finite n"
proof -
  have z: "float64_finite 0" by (simp add: float64_finite_def)
  show ?thesis
    using assms float64_bits_less [OF assms]
    by (auto simp: float64_bits_def err_simps Let_def z split: if_splits)
qed

lemma float64_bits_of_bits:
  assumes "n < 2 ^ 64" "n \<noteq> 2 ^ 63" "float64_finite n"
  shows "float64_bits (PFloat (of_nat n)) = Inr n"
proof -
  have "unat (of_nat n :: 64 word) = n" using assms(1) by (simp add: unat_of_nat)
  moreover have "float64_finite 0" by (simp add: float64_finite_def)
  ultimately show ?thesis using assms by (auto simp: float64_bits_def Let_def)
qed

text \<open>A stored single-value claim is read back with the same claim arguments.\<close>

lemma claim_value_roundtrip:
  assumes "encode_claim_value terms = Inr (v, t)"
  shows "\<exists>terms'. decode_claim_value v t = Inr terms' \<and>
     claim_args_from_rest_terms terms' = claim_args_from_rest_terms terms"
proof (cases terms)
  case Nil
  with assms show ?thesis by (simp add: encode_claim_value_def decode_claim_value_def)
next
  case (Cons it rest)
  with assms have it: "terms = [it]" by (simp add: encode_claim_value_def split: if_splits)
  from assms it obtain a tag where item: "claim_arg_item it = Inr (a, tag)"
    by (auto simp: encode_claim_value_def err_simps claim_args_single)
  then have args: "claim_args_from_rest_terms terms = Inr [(0, a, tag)]"
    by (simp add: it claim_args_single)
  from claim_arg_item_Ok [OF item] obtain val where
    val: "normalize_tag (PStr tag) = Inr tag" "val_atom_for_claim_arg tag val = Inr a" by blast
  have bk: "\<exists>terms'. decode_claim_value v t = Inr terms' \<and>
      claim_args_from_rest_terms terms' = claim_args_from_rest_terms terms"
    if d: "t = Some tag" "decode_claim_value v t =
        bindE (claim_args_from_rest_terms [PTuple [PStr tag, w]]) (\<lambda>_. Ok [PTuple [PStr tag, w]])"
      and w: "val_atom_for_claim_arg tag w = Inr a" for w
  proof -
    have "claim_args_from_rest_terms [PTuple [PStr tag, w]] = Inr [(0, a, tag)]"
      using val(1) w by (simp add: claim_args_single claim_arg_item_def)
    with d args show ?thesis by auto
  qed
  from val(1) consider "tag = u ''entity_ref''" | "tag = u ''string''" | "tag = u ''int''"
    | "tag = u ''float64''" | "tag = u ''bool''" | "tag = u ''bytes''" | "tag = u ''time''"
    | "tag = u ''uuid''"
    by (auto simp: normalize_tag_Ok)
  then show ?thesis
  proof cases
    case 1
    then obtain s where "a = PStr s" using val(2) by (auto simp: val_atom_for_claim_arg_def err_simps)
    moreover have "val_atom_for_claim_arg tag a = Inr a"
    proof -
      from val(2) 1 obtain b where b: "encode_entity_ref val = Inr b" "utf8_decode b = Inr s"
        using \<open>a = PStr s\<close> by (auto simp: val_atom_for_claim_arg_def err_simps)
      from b(1) have "val = a" using b(2) \<open>a = PStr s\<close>
        by (auto simp: encode_entity_ref_def encode_string_def utf8_roundtrip split: pyval.splits if_splits)
      with val(2) show ?thesis by simp
    qed
    ultimately show ?thesis using assms it args 1
      by (intro bk [of a]) (auto simp: encode_claim_value_def decode_claim_value_def)
  next
    case 2
    then obtain s where s: "a = PStr s" using val(2) by (auto simp: val_atom_for_claim_arg_def err_simps)
    moreover have "val_atom_for_claim_arg tag a = Inr a"
    proof -
      from val(2) 2 obtain b where b: "encode_string val = Inr b" "utf8_decode b = Inr s"
        using s by (auto simp: val_atom_for_claim_arg_def err_simps)
      from b(1) have "val = a" using b(2) s
        by (auto simp: encode_string_def utf8_roundtrip split: pyval.splits if_splits)
      with val(2) show ?thesis by simp
    qed
    ultimately show ?thesis using assms it args 2
      by (intro bk [of a]) (auto simp: encode_claim_value_def decode_claim_value_def)
  next
    case 3
    then obtain i where i: "require_int64 val = Inr i" "a = PInt i"
      using val(2) by (auto simp: val_atom_for_claim_arg_def err_simps)
    then have "val = a" by (auto simp: require_int64_def split: pyval.splits if_splits)
    with assms it args 3 i val(2) show ?thesis
      by (intro bk [of a]) (auto simp: encode_claim_value_def decode_claim_value_def)
  next
    case 4
    then obtain n where n: "float64_bits val = Inr n" "a = PStr (u ''0x'' @ hex_text 16 n)"
      using val(2) by (auto simp: val_atom_for_claim_arg_def err_simps)
    from float64_bits_props [OF n(1)] have p: "n < 2 ^ 64" "n \<noteq> 2 ^ 63" "float64_finite n" by auto
    then have "hex_val (hex_text 16 n) = n" "zero_float n = n" by (auto simp: zero_float_def)
    with assms it args 4 n p show ?thesis
      by (intro bk [of "PFloat (of_nat n)"])
         (auto simp: encode_claim_value_def decode_claim_value_def val_atom_for_claim_arg_def
            float64_bits_of_bits)
  next
    case 5
    then obtain b where "val = PBool b" "a = PBool b"
      using val(2) by (auto simp: val_atom_for_claim_arg_def split: pyval.splits)
    with assms it args 5 val(2) show ?thesis
      by (intro bk [of a]) (cases b; auto simp: encode_claim_value_def decode_claim_value_def)+
  next
    case 6
    then obtain b where "to_raw_bytes val = Inr b" "a = PStr (b64url_encode b)"
      using val(2) by (auto simp: val_atom_for_claim_arg_def err_simps)
    with assms it args 6 show ?thesis
      by (intro bk [of "PBytes BBytes b"])
         (auto simp: encode_claim_value_def decode_claim_value_def val_atom_for_claim_arg_def to_raw_bytes_def)
  next
    case 7
    then obtain i where i: "require_int64 val = Inr i" "a = PInt i"
      using val(2) by (auto simp: val_atom_for_claim_arg_def err_simps)
    then have "val = a" by (auto simp: require_int64_def split: pyval.splits if_splits)
    with assms it args 7 i val(2) show ?thesis
      by (intro bk [of a]) (auto simp: encode_claim_value_def decode_claim_value_def)
  next
    case 8
    then obtain s where "val = PStr s" "a = PStr s"
      using val(2) by (auto simp: val_atom_for_claim_arg_def split: pyval.splits if_splits)
    with assms it args 8 val(2) show ?thesis
      by (intro bk [of a]) (auto simp: encode_claim_value_def decode_claim_value_def)
  qed
qed

end
