(* ===== verification/Ledger_Index.thy ===== *)
theory Ledger_Index
  imports Ledger_Validate Py_Prelude
begin

text \<open>
  The in-memory indexes of \<open>Ledger\<close> (the fields set by \<open>_reset_indexes\<close>, in its order) and
  the \<open>_idx_*\<close> methods that update them.  A method that raises leaves behind what it had
  changed.  \<open>ix_ok\<close> says that every secondary index mirrors its primary list; each method
  keeps it, so an indexed lookup is a scan.
\<close>

record ledger_index =
  x_claims :: "claim list"
  x_claim_by_id :: "(ustr, claim) dict"
  x_by_pred :: "(ustr, claim list) dict"
  x_by_eref :: "(ustr, claim list) dict"
  x_by_pred_eref :: "(ustr \<times> ustr, claim list) dict"
  x_system :: "(ustr, claim) dict"
  x_tx_refs :: "(ustr, nat) dict"
  x_op_ordinals :: "(ustr, nat) dict"
  x_events :: "meta_event list"
  x_events_by_asrt :: "(ustr, meta_event list) dict"
  x_events_by_asrt_key :: "(ustr \<times> meta_key, meta_event list) dict"
  x_tx_defaults :: "(nat, (meta_key, tx_meta_default) dict) dict"
  x_args :: "claim_arg list"
  x_args_by_asrt :: "(ustr, claim_arg list) dict"
  x_meta :: "meta_row list"
  x_meta_by_asrt :: "(ustr, meta_row list) dict"
  x_meta_by_kind :: "(ustr, meta_row list) dict"
  x_meta_by_key :: "(meta_key, meta_row list) dict"
  x_meta_by_asrt_key :: "(ustr \<times> meta_key, meta_row list) dict"
  x_meta_by_asrt_key_kind :: "(ustr \<times> meta_key \<times> ustr, meta_row list) dict"
  x_ingest :: "(ustr, ustr list) dict"
  x_anno :: "annotation_row list"
  x_anno_by_asrt :: "(ustr, annotation_row list) dict"
  x_anno_by_ns_cat :: "(ustr \<times> ustr, annotation_row list) dict"
  x_anno_by_key :: "(ustr, annotation_row list) dict"
  x_anno_by_identity :: "(anno_identity, annotation_row) dict"
  x_revokes :: "revokes_row list"
  x_revokers :: "ustr set"
  x_revoked :: "ustr set"
  x_first_revoker :: "(ustr, ustr) dict"

definition reset_indexes :: ledger_index where
  "reset_indexes =
     \<lparr>x_claims = [], x_claim_by_id = [], x_by_pred = [], x_by_eref = [], x_by_pred_eref = [],
      x_system = [], x_tx_refs = [], x_op_ordinals = [],
      x_events = [], x_events_by_asrt = [], x_events_by_asrt_key = [], x_tx_defaults = [],
      x_args = [], x_args_by_asrt = [],
      x_meta = [], x_meta_by_asrt = [], x_meta_by_kind = [], x_meta_by_key = [],
      x_meta_by_asrt_key = [], x_meta_by_asrt_key_kind = [], x_ingest = [],
      x_anno = [], x_anno_by_asrt = [], x_anno_by_ns_cat = [], x_anno_by_key = [],
      x_anno_by_identity = [],
      x_revokes = [], x_revokers = {}, x_revoked = {}, x_first_revoker = []\<rparr>"

type_synonym idx_res = "ledger_index \<times> unit res"

section \<open>Claims\<close>

definition set_tx_ref :: "ustr \<Rightarrow> nat option \<Rightarrow> ledger_index \<Rightarrow> ledger_index" where
  "set_tx_ref a tx_ref ix = (case tx_ref of
      None \<Rightarrow> ix | Some t \<Rightarrow> ix\<lparr>x_tx_refs := dict_set a t (x_tx_refs ix)\<rparr>)"

definition set_op_ordinal :: "ustr \<Rightarrow> nat \<Rightarrow> ledger_index \<Rightarrow> ledger_index" where
  "set_op_ordinal a op ix = ix\<lparr>x_op_ordinals := dict_set a op (x_op_ordinals ix)\<rparr>"

definition is_revocation_shape :: "pyval list \<Rightarrow> bool" where
  "is_revocation_shape terms = (case terms of
      [PTuple [tag, _]] \<Rightarrow> tag = PStr (u ''string'') | _ \<Rightarrow> False)"

definition idx_add_system_revocation_claim :: "claim \<Rightarrow> nat option \<Rightarrow> ledger_index \<Rightarrow> idx_res" where
  "idx_add_system_revocation_claim claim tx_ref ix =
     (if c_pred claim \<noteq> REVOCATION_PREDICATE then (ix, Err LedgerFormatError)
      else if \<not> is_revocation_shape (c_terms claim) then (ix, Err LedgerFormatError)
      else (set_tx_ref (c_asrt claim) tx_ref
              (ix\<lparr>x_system := dict_set (c_asrt claim) claim (x_system ix)\<rparr>), Ok ()))"

definition idx_add_claim_arg :: "claim_arg \<Rightarrow> ledger_index \<Rightarrow> ledger_index" where
  "idx_add_claim_arg row ix =
     ix\<lparr>x_args := x_args ix @ [row],
        x_args_by_asrt := dict_append (g_asrt row) row (x_args_by_asrt ix)\<rparr>"

definition idx_add_claim_args :: "claim_arg list \<Rightarrow> ledger_index \<Rightarrow> ledger_index" where
  "idx_add_claim_args rows ix = fold idx_add_claim_arg rows ix"

definition claim_arg_rows :: "claim \<Rightarrow> claim_arg list res" where
  "claim_arg_rows claim =
     bindE (claim_args_from_rest_terms (c_terms claim)) (\<lambda>rows.
       Ok (map (\<lambda>(idx, value, tag).
         \<lparr>g_asrt = c_asrt claim, g_idx = idx, g_atom = value, g_tag = tag\<rparr>) rows))"

definition idx_put_claim :: "claim \<Rightarrow> nat option \<Rightarrow> ledger_index \<Rightarrow> ledger_index" where
  "idx_put_claim claim tx_ref ix =
     (let ix = ix\<lparr>x_claims := x_claims ix @ [claim],
                x_claim_by_id := dict_set (c_asrt claim) claim (x_claim_by_id ix)\<rparr>;
          ix = set_tx_ref (c_asrt claim) tx_ref ix
      in ix\<lparr>x_by_pred := dict_append (c_pred claim) claim (x_by_pred ix),
            x_by_eref := dict_append (c_eref claim) claim (x_by_eref ix),
            x_by_pred_eref := dict_append (c_pred claim, c_eref claim) claim (x_by_pred_eref ix)\<rparr>)"

definition idx_add_claim :: "claim \<Rightarrow> nat option \<Rightarrow> ledger_index \<Rightarrow> idx_res" where
  "idx_add_claim claim tx_ref ix =
     (if starts_with (c_pred claim) SYSTEM_PREFIX then idx_add_system_revocation_claim claim tx_ref ix
      else
        (let ix = idx_put_claim claim tx_ref ix
         in case claim_arg_rows claim of
              Inl e \<Rightarrow> (ix, Err e)
            | Inr rows \<Rightarrow> (idx_add_claim_args rows ix, Ok ())))"

section \<open>Metadata\<close>

text \<open>Lazily loaded keys are plain keys; their rows stay in SQL.\<close>

definition is_lazy :: "ustr list \<Rightarrow> meta_key \<Rightarrow> bool" where
  "is_lazy lazy key = (case key of MKey k \<Rightarrow> k \<in> set lazy | AKey _ _ _ _ _ \<Rightarrow> False)"

definition ingest_value :: "meta_row \<Rightarrow> ustr option" where
  "ingest_value row =
     (if m_key row = MKey (u ''ingest_key'') \<and> m_kind row = u ''str''
      then (case m_value row of PStr s \<Rightarrow> Some s | _ \<Rightarrow> None) else None)"

definition idx_add_meta1 :: "ustr list \<Rightarrow> meta_row \<Rightarrow> ledger_index \<Rightarrow> ledger_index" where
  "idx_add_meta1 lazy row ix =
     (if is_lazy lazy (m_key row) then ix
      else
        (let ix = ix\<lparr>x_meta := x_meta ix @ [row],
               x_meta_by_asrt := dict_append (m_asrt row) row (x_meta_by_asrt ix),
               x_meta_by_kind := dict_append (m_kind row) row (x_meta_by_kind ix),
               x_meta_by_key := dict_append (m_key row) row (x_meta_by_key ix),
               x_meta_by_asrt_key := dict_append (m_asrt row, m_key row) row (x_meta_by_asrt_key ix),
               x_meta_by_asrt_key_kind :=
                 dict_append (m_asrt row, m_key row, m_kind row) row (x_meta_by_asrt_key_kind ix)\<rparr>
         in case ingest_value row of
              None \<Rightarrow> ix
            | Some s \<Rightarrow> ix\<lparr>x_ingest := dict_append s (m_asrt row) (x_ingest ix)\<rparr>))"

definition idx_add_meta :: "ustr list \<Rightarrow> meta_row list \<Rightarrow> ledger_index \<Rightarrow> ledger_index" where
  "idx_add_meta lazy rows ix = fold (idx_add_meta1 lazy) rows ix"

definition idx_add_claim_meta_event :: "ustr list \<Rightarrow> meta_event \<Rightarrow> ledger_index \<Rightarrow> ledger_index" where
  "idx_add_claim_meta_event lazy event ix =
     (if is_lazy lazy (e_key event) then ix
      else ix\<lparr>x_events := x_events ix @ [event],
             x_events_by_asrt := dict_append (e_asrt event) event (x_events_by_asrt ix),
             x_events_by_asrt_key :=
               dict_append (e_asrt event, e_key event) event (x_events_by_asrt_key ix)\<rparr>)"

definition event_of_append :: "nat \<Rightarrow> nat \<Rightarrow> meta_append \<Rightarrow> meta_event" where
  "event_of_append tx_seq op_ordinal a = (case a of
      MRow _ row \<Rightarrow> \<lparr>e_asrt = m_asrt row, e_key = m_key row, e_kind = Some (m_kind row),
        e_value = m_value row, e_tx = tx_seq, e_op = op_ordinal\<rparr>
    | MTombstone asrt_id key \<Rightarrow> \<lparr>e_asrt = asrt_id, e_key = key, e_kind = None,
        e_value = PNone, e_tx = tx_seq, e_op = op_ordinal\<rparr>)"

definition append_meta_rows :: "meta_append list \<Rightarrow> meta_row list" where
  "append_meta_rows rows =
     List.map_filter (\<lambda>a. case a of MRow _ row \<Rightarrow> Some row | MTombstone _ _ \<Rightarrow> None) rows"

definition idx_add_claim_meta_events ::
  "ustr list \<Rightarrow> meta_append list \<Rightarrow> nat \<Rightarrow> nat \<Rightarrow> bool \<Rightarrow> ledger_index \<Rightarrow> ledger_index" where
  "idx_add_claim_meta_events lazy rows tx_seq op_ordinal project_meta ix =
     (let events = map (event_of_append tx_seq op_ordinal) rows;
          ix = fold (idx_add_claim_meta_event lazy) events ix
      in if project_meta then idx_add_meta lazy (append_meta_rows rows) ix else ix)"

section \<open>Annotations and revocations\<close>

definition idx_remove_annotation :: "annotation_row \<Rightarrow> ledger_index \<Rightarrow> ledger_index" where
  "idx_remove_annotation row ix =
     ix\<lparr>x_anno := remove1 row (x_anno ix),
        x_anno_by_asrt := dict_list_remove (a_asrt row) row (x_anno_by_asrt ix),
        x_anno_by_ns_cat := dict_list_remove (a_ns row, a_cat row) row (x_anno_by_ns_cat ix),
        x_anno_by_key := dict_list_remove (a_key row) row (x_anno_by_key ix),
        x_anno_by_identity := AList.delete (anno_id row) (x_anno_by_identity ix)\<rparr>"

definition idx_add_annotation1 :: "ustr list \<Rightarrow> annotation_row \<Rightarrow> ledger_index \<Rightarrow> ledger_index" where
  "idx_add_annotation1 lazy row ix =
     (if is_lazy lazy (MKey (a_key row)) then ix
      else
        (let ix = (case dict_get (x_anno_by_identity ix) (anno_id row) of
                     None \<Rightarrow> ix | Some existing \<Rightarrow> idx_remove_annotation existing ix)
         in ix\<lparr>x_anno := x_anno ix @ [row],
               x_anno_by_asrt := dict_append (a_asrt row) row (x_anno_by_asrt ix),
               x_anno_by_ns_cat := dict_append (a_ns row, a_cat row) row (x_anno_by_ns_cat ix),
               x_anno_by_key := dict_append (a_key row) row (x_anno_by_key ix),
               x_anno_by_identity := dict_set (anno_id row) row (x_anno_by_identity ix)\<rparr>))"

definition idx_add_annotation :: "ustr list \<Rightarrow> annotation_row list \<Rightarrow> ledger_index \<Rightarrow> ledger_index" where
  "idx_add_annotation lazy rows ix = fold (idx_add_annotation1 lazy) rows ix"

definition idx_add_revoke :: "revokes_row \<Rightarrow> ledger_index \<Rightarrow> ledger_index" where
  "idx_add_revoke row ix =
     ix\<lparr>x_revokes := x_revokes ix @ [row],
        x_revokers := insert (r_revoker row) (x_revokers ix),
        x_revoked := insert (r_revoked row) (x_revoked ix),
        x_first_revoker := dict_setdefault (r_revoked row) (r_revoker row) (x_first_revoker ix)\<rparr>"

end
