(* ===== verification/Ledger_Index_Inv.thy ===== *)
theory Ledger_Index_Inv
  imports Ledger_Index
begin

text \<open>
  The index invariant \<open>ix_ok\<close>: every secondary index of the ledger mirrors its primary
  list.  It holds of the empty index and every \<open>_idx_*\<close> method keeps it, whether or not the
  method raises.
\<close>

section \<open>The invariant\<close>

definition claim_arg_list :: "claim \<Rightarrow> claim_arg list" where
  "claim_arg_list c = (case claim_arg_rows c of Inl _ \<Rightarrow> [] | Inr rows \<Rightarrow> rows)"

definition claims_ok :: "ledger_index \<Rightarrow> bool" where
  "claims_ok ix \<longleftrightarrow>
     latest c_asrt id (x_claims ix) (x_claim_by_id ix) \<and>
     grouped c_pred (x_claims ix) (x_by_pred ix) \<and>
     grouped c_eref (x_claims ix) (x_by_eref ix) \<and>
     grouped (\<lambda>c. (c_pred c, c_eref c)) (x_claims ix) (x_by_pred_eref ix)"

definition args_ok :: "ledger_index \<Rightarrow> bool" where
  "args_ok ix \<longleftrightarrow>
     x_args ix = concat (map claim_arg_list (x_claims ix)) \<and>
     grouped g_asrt (concat (map claim_arg_list (x_claims ix))) (x_args_by_asrt ix)"

definition events_ok :: "ledger_index \<Rightarrow> bool" where
  "events_ok ix \<longleftrightarrow>
     grouped e_asrt (x_events ix) (x_events_by_asrt ix) \<and>
     grouped (\<lambda>e. (e_asrt e, e_key e)) (x_events ix) (x_events_by_asrt_key ix)"

definition meta_ok :: "ledger_index \<Rightarrow> bool" where
  "meta_ok ix \<longleftrightarrow>
     grouped m_asrt (x_meta ix) (x_meta_by_asrt ix) \<and>
     grouped m_kind (x_meta ix) (x_meta_by_kind ix) \<and>
     grouped m_key (x_meta ix) (x_meta_by_key ix) \<and>
     grouped (\<lambda>r. (m_asrt r, m_key r)) (x_meta ix) (x_meta_by_asrt_key ix) \<and>
     grouped (\<lambda>r. (m_asrt r, m_key r, m_kind r)) (x_meta ix) (x_meta_by_asrt_key_kind ix)"

definition ingest_ok :: "ledger_index \<Rightarrow> bool" where
  "ingest_ok ix \<longleftrightarrow>
     (\<forall>k. dict_list (x_ingest ix) k = map m_asrt (filter (\<lambda>r. ingest_value r = Some k) (x_meta ix)))"

definition anno_ok :: "ledger_index \<Rightarrow> bool" where
  "anno_ok ix \<longleftrightarrow>
     unique_index anno_id (x_anno ix) (x_anno_by_identity ix) \<and>
     grouped a_asrt (x_anno ix) (x_anno_by_asrt ix) \<and>
     grouped (\<lambda>r. (a_ns r, a_cat r)) (x_anno ix) (x_anno_by_ns_cat ix) \<and>
     grouped a_key (x_anno ix) (x_anno_by_key ix)"

definition revokes_ok :: "ledger_index \<Rightarrow> bool" where
  "revokes_ok ix \<longleftrightarrow>
     x_revokers ix = r_revoker ` set (x_revokes ix) \<and>
     x_revoked ix = r_revoked ` set (x_revokes ix) \<and>
     earliest r_revoked r_revoker (x_revokes ix) (x_first_revoker ix)"

text \<open>A default is filed under its own key.\<close>

definition defaults_ok :: "(nat, (meta_key, tx_meta_default) dict) dict \<Rightarrow> bool" where
  "defaults_ok d \<longleftrightarrow> (\<forall>tx by_key k row. dict_get d tx = Some by_key \<longrightarrow> dict_get by_key k = Some row \<longrightarrow> t_key row = k)"

definition ix_ok :: "ledger_index \<Rightarrow> bool" where
  "ix_ok ix \<longleftrightarrow> claims_ok ix \<and> args_ok ix \<and> events_ok ix \<and> meta_ok ix \<and> ingest_ok ix \<and>
     anno_ok ix \<and> revokes_ok ix \<and> defaults_ok (x_tx_defaults ix)"

lemmas ix_ok_defs = ix_ok_def claims_ok_def args_ok_def events_ok_def meta_ok_def ingest_ok_def
  anno_ok_def revokes_ok_def

lemma ix_ok_reset [simp]: "ix_ok reset_indexes"
  by (simp add: ix_ok_defs defaults_ok_def reset_indexes_def)

section \<open>Every method keeps it\<close>

lemma ix_ok_set_tx_ref [simp]: "ix_ok (set_tx_ref a t ix) \<longleftrightarrow> ix_ok ix"
  by (simp add: set_tx_ref_def ix_ok_defs split: option.splits)

lemma ix_ok_set_op_ordinal [simp]: "ix_ok (set_op_ordinal a t ix) \<longleftrightarrow> ix_ok ix"
  by (simp add: set_op_ordinal_def ix_ok_defs)

lemma ix_ok_system [simp]: "ix_ok (ix\<lparr>x_system := d\<rparr>) \<longleftrightarrow> ix_ok ix"
  by (simp add: ix_ok_defs)

lemma ix_ok_tx_defaults [simp]: "ix_ok ix \<Longrightarrow> ix_ok (ix\<lparr>x_tx_defaults := d\<rparr>) \<longleftrightarrow> defaults_ok d"
  by (simp add: ix_ok_defs)

lemma ix_ok_add_system: "ix_ok ix \<Longrightarrow> ix_ok (fst (idx_add_system_revocation_claim c t ix))"
  by (simp add: idx_add_system_revocation_claim_def)

lemma fold_claim_args:
  "fold idx_add_claim_arg rows ix =
     ix\<lparr>x_args := x_args ix @ rows,
        x_args_by_asrt := fold (\<lambda>r. dict_append (g_asrt r) r) rows (x_args_by_asrt ix)\<rparr>"
  by (induction rows arbitrary: ix) (simp_all add: idx_add_claim_arg_def)

lemma grouped_fold:
  "grouped f xs d \<Longrightarrow> grouped f (xs @ ys) (fold (\<lambda>r. dict_append (f r) r) ys d)"
proof (induction ys arbitrary: xs d)
  case (Cons y ys)
  from Cons.IH [OF grouped_append [OF Cons.prems refl]] show ?case by simp
qed simp

lemma put_claim_fields:
  "x_claims (idx_put_claim c t ix) = x_claims ix @ [c]"
  "x_args (idx_put_claim c t ix) = x_args ix"
  "x_args_by_asrt (idx_put_claim c t ix) = x_args_by_asrt ix"
  "claims_ok ix \<Longrightarrow> claims_ok (idx_put_claim c t ix)"
  "events_ok (idx_put_claim c t ix) = events_ok ix"
  "meta_ok (idx_put_claim c t ix) = meta_ok ix"
  "ingest_ok (idx_put_claim c t ix) = ingest_ok ix"
  "anno_ok (idx_put_claim c t ix) = anno_ok ix"
  "revokes_ok (idx_put_claim c t ix) = revokes_ok ix"
  "x_tx_defaults (idx_put_claim c t ix) = x_tx_defaults ix"
  by (auto simp: idx_put_claim_def Let_def set_tx_ref_def ix_ok_defs split: option.splits
      intro!: index_intros)

lemma ix_ok_add_claim: "ix_ok ix \<Longrightarrow> ix_ok (fst (idx_add_claim c t ix))"
proof (cases "starts_with (c_pred c) SYSTEM_PREFIX")
  case True
  assume "ix_ok ix"
  then show ?thesis using True by (simp add: idx_add_claim_def ix_ok_add_system)
next
  case False
  assume ok: "ix_ok ix"
  let ?i = "idx_put_claim c t ix"
  have base: "claims_ok ?i \<and> events_ok ?i \<and> meta_ok ?i \<and> ingest_ok ?i \<and> anno_ok ?i \<and> revokes_ok ?i \<and>
      defaults_ok (x_tx_defaults ?i)"
    using ok by (simp add: ix_ok_def put_claim_fields)
  have args: "x_args ?i = concat (map claim_arg_list (x_claims ix))"
    "grouped g_asrt (concat (map claim_arg_list (x_claims ix))) (x_args_by_asrt ?i)"
    using ok by (simp_all add: put_claim_fields ix_ok_def args_ok_def)
  show ?thesis
  proof (cases "claim_arg_rows c")
    case (Inl e)
    then have "claim_arg_list c = []" by (simp add: claim_arg_list_def)
    with args have "args_ok ?i" by (simp add: args_ok_def put_claim_fields(1))
    with base False Inl show ?thesis by (simp add: idx_add_claim_def ix_ok_def)
  next
    case (Inr rows)
    then have "claim_arg_list c = rows" by (simp add: claim_arg_list_def)
    with args have "args_ok (idx_add_claim_args rows ?i)"
      by (simp add: args_ok_def put_claim_fields(1) idx_add_claim_args_def fold_claim_args grouped_fold)
    with base have "ix_ok (idx_add_claim_args rows ?i)"
      by (simp add: ix_ok_defs idx_add_claim_args_def fold_claim_args)
    with False Inr show ?thesis by (simp add: idx_add_claim_def Let_def)
  qed
qed

lemma ix_ok_add_meta1: "ix_ok ix \<Longrightarrow> ix_ok (idx_add_meta1 lazy row ix)"
proof (cases "is_lazy lazy (m_key row)")
  case False
  assume ok: "ix_ok ix"
  let ?i = "idx_add_meta1 lazy row ix"
  have "claims_ok ?i \<and> args_ok ?i \<and> events_ok ?i \<and> anno_ok ?i \<and> revokes_ok ?i \<and>
      defaults_ok (x_tx_defaults ?i)"
    using ok False by (auto simp: idx_add_meta1_def Let_def ix_ok_defs split: option.splits)
  moreover have "meta_ok ?i"
    using ok False unfolding idx_add_meta1_def Let_def
    by (cases "ingest_value row") (simp_all add: ix_ok_def meta_ok_def index_intros)
  moreover have "ingest_ok ?i"
    using ok False by (auto simp: idx_add_meta1_def Let_def ix_ok_def ingest_ok_def split: option.splits)
  ultimately show ?thesis by (simp add: ix_ok_def)
qed (simp add: idx_add_meta1_def)

lemma ix_ok_add_meta: "ix_ok ix \<Longrightarrow> ix_ok (idx_add_meta lazy rows ix)"
  unfolding idx_add_meta_def by (rule fold_invariant [where Q = "\<lambda>_. True"]) (auto intro: ix_ok_add_meta1)

lemma ix_ok_add_event: "ix_ok ix \<Longrightarrow> ix_ok (idx_add_claim_meta_event lazy e ix)"
proof (cases "is_lazy lazy (e_key e)")
  case False
  assume ok: "ix_ok ix"
  let ?i = "idx_add_claim_meta_event lazy e ix"
  have "events_ok ?i"
    using ok False by (simp add: idx_add_claim_meta_event_def ix_ok_def events_ok_def index_intros)
  then show ?thesis using ok False by (simp add: idx_add_claim_meta_event_def ix_ok_defs)
qed (simp add: idx_add_claim_meta_event_def)

lemma ix_ok_add_events: "ix_ok ix \<Longrightarrow> ix_ok (idx_add_claim_meta_events lazy rows t op p ix)"
proof -
  assume ok: "ix_ok ix"
  have "ix_ok (fold (idx_add_claim_meta_event lazy) es ix)" for es
    by (rule fold_invariant [where Q = "\<lambda>_. True"]) (auto intro: ix_ok_add_event ok)
  then show ?thesis by (simp add: idx_add_claim_meta_events_def Let_def ix_ok_add_meta)
qed

lemma ix_ok_remove_annotation:
  "ix_ok ix \<Longrightarrow> row \<in> set (x_anno ix) \<Longrightarrow> ix_ok (idx_remove_annotation row ix)"
proof -
  assume ok: "ix_ok ix" and row: "row \<in> set (x_anno ix)"
  let ?i = "idx_remove_annotation row ix"
  have "anno_ok ?i" using ok row
    by (auto simp: idx_remove_annotation_def ix_ok_def anno_ok_def unique_index_remove
        intro!: index_intros)
  then show ?thesis using ok by (simp add: idx_remove_annotation_def ix_ok_defs)
qed

lemma ix_ok_put_annotation:
  assumes "ix_ok ix" "anno_id row \<notin> anno_id ` set (x_anno ix)"
  shows "ix_ok (ix\<lparr>x_anno := x_anno ix @ [row],
               x_anno_by_asrt := dict_append (a_asrt row) row (x_anno_by_asrt ix),
               x_anno_by_ns_cat := dict_append (a_ns row, a_cat row) row (x_anno_by_ns_cat ix),
               x_anno_by_key := dict_append (a_key row) row (x_anno_by_key ix),
               x_anno_by_identity := dict_set (anno_id row) row (x_anno_by_identity ix)\<rparr>)"
    (is "ix_ok ?i")
proof -
  have "anno_ok ?i" using assms
    by (auto simp: ix_ok_def anno_ok_def unique_index_append intro!: index_intros)
  then show ?thesis using assms(1) by (simp add: ix_ok_defs)
qed

lemma ix_ok_add_annotation1: "ix_ok ix \<Longrightarrow> ix_ok (idx_add_annotation1 lazy row ix)"
proof (cases "is_lazy lazy (MKey (a_key row))")
  case False
  assume ok: "ix_ok ix"
  then have u: "unique_index anno_id (x_anno ix) (x_anno_by_identity ix)"
    by (simp add: ix_ok_def anno_ok_def)
  show ?thesis
  proof (cases "dict_get (x_anno_by_identity ix) (anno_id row)")
    case None
    then have "anno_id row \<notin> anno_id ` set (x_anno ix)" by (simp add: unique_index_None [OF u])
    with ix_ok_put_annotation [OF ok this] None False show ?thesis
      by (simp add: idx_add_annotation1_def Let_def)
  next
    case (Some old)
    then have old: "old \<in> set (x_anno ix)" "anno_id old = anno_id row"
      by (simp_all add: unique_index_mem [OF u])
    let ?j = "idx_remove_annotation old ix"
    have j: "ix_ok ?j" by (rule ix_ok_remove_annotation [OF ok old(1)])
    have "x_anno_by_identity ?j = AList.delete (anno_id row) (x_anno_by_identity ix)"
      by (simp add: idx_remove_annotation_def old(2))
    then have "dict_get (x_anno_by_identity ?j) (anno_id row) = None"
      by (simp add: AList.delete_conv')
    moreover have "unique_index anno_id (x_anno ?j) (x_anno_by_identity ?j)"
      using j by (simp add: ix_ok_def anno_ok_def)
    ultimately have "anno_id row \<notin> anno_id ` set (x_anno ?j)" by (simp add: unique_index_None)
    from ix_ok_put_annotation [OF j this] Some False show ?thesis
      by (simp add: idx_add_annotation1_def Let_def)
  qed
qed (simp add: idx_add_annotation1_def)

lemma ix_ok_add_annotation: "ix_ok ix \<Longrightarrow> ix_ok (idx_add_annotation lazy rows ix)"
  unfolding idx_add_annotation_def
  by (rule fold_invariant [where Q = "\<lambda>_. True"]) (auto intro: ix_ok_add_annotation1)

lemma ix_ok_add_revoke: "ix_ok ix \<Longrightarrow> ix_ok (idx_add_revoke row ix)"
proof -
  assume ok: "ix_ok ix"
  have "revokes_ok (idx_add_revoke row ix)"
    using ok by (auto simp: idx_add_revoke_def ix_ok_def revokes_ok_def intro!: index_intros)
  then show ?thesis using ok by (simp add: idx_add_revoke_def ix_ok_defs)
qed

lemmas ix_ok_intros = ix_ok_add_system ix_ok_add_claim ix_ok_add_meta ix_ok_add_event
  ix_ok_add_events ix_ok_add_annotation ix_ok_add_revoke

end
