(* ===== verification/Ledger_State.thy ===== *)
theory Ledger_State
  imports Ledger_Index_Inv "HOL-Library.Product_Lexorder"
begin

text \<open>
  The persistent half of the ledger: the three SQLite tables, the statements the code runs on
  them, and the write session.  A session computes the new tables; an exception inside it rolls
  back, success commits and then runs the post-commit hook on the indexes, which can itself
  raise with the tables already committed.
\<close>

section \<open>Tables\<close>

record claim_row =
  cr_seq :: nat
  cr_asrt :: ustr
  cr_pred :: ustr
  cr_eref :: ustr
  cr_rest :: "pyval list option"
  cr_value :: "sql_text option"
  cr_tag :: "ustr option"
  cr_tx :: nat

record cmeta_row =
  cm_asrt :: ustr
  cm_key :: meta_key
  cm_kind :: "ustr option"
  cm_value :: "sql_text option"
  cm_tx :: nat
  cm_op :: nat

record ledger_db =
  d_claims :: "claim_row list"
  d_meta :: "(ustr, ustr) dict"
  d_cmeta :: "cmeta_row list"

record ledger =
  l_db :: ledger_db
  l_ix :: ledger_index
  l_lazy :: "ustr list"
  l_closed :: bool

definition SQL_INT_LIMIT :: int where "SQL_INT_LIMIT = 2 ^ 63"

definition ensure_open :: "ledger \<Rightarrow> unit res" where
  "ensure_open L = guardE (\<not> l_closed L) RuntimeError"

definition write_session :: "ledger \<Rightarrow> (ledger_db \<times> (ledger_index \<Rightarrow> idx_res)) res \<Rightarrow> ledger \<times> unit res" where
  "write_session L body =
     (case bindE (ensure_open L) (\<lambda>_. body) of
        Inl e \<Rightarrow> (L, Inl e)
      | Inr (db, hook) \<Rightarrow>
          (let (ix, r) = hook (l_ix L) in (L\<lparr>l_db := db, l_ix := ix\<rparr>, r)))"

section \<open>Statements\<close>

type_synonym claim_cols = "pyval list option \<times> sql_text option \<times> ustr option"

definition claim_columns :: "claim \<Rightarrow> claim_cols res" where
  "claim_columns claim =
     bindE (mapE normalize_term (c_terms claim)) (\<lambda>normalized.
       if length normalized \<le> 1 then
         bindE (encode_claim_value normalized) (\<lambda>(value, tag).
         bindE (enc_rest_terms []) (\<lambda>rest. Ok (Some rest, value, tag)))
       else bindE (enc_rest_terms normalized) (\<lambda>rest. Ok (Some rest, None, None)))"

definition insert_claim :: "claim \<Rightarrow> ustr \<Rightarrow> nat \<Rightarrow> ledger_db \<Rightarrow> ledger_db res" where
  "insert_claim claim asrt_id tx_ref db =
     bindE (validate_claim_identity (Some asrt_id) (c_pred claim) (c_eref claim)) (\<lambda>_.
     bindE (claim_columns claim) (\<lambda>(rest, value, tag).
       if SQL_INT_LIMIT \<le> int tx_ref then Err OverflowError
       else if asrt_id \<in> cr_asrt ` set (d_claims db) then Err ValueError
       else Ok (db\<lparr>d_claims := d_claims db @
         [\<lparr>cr_seq = Suc (length (d_claims db)), cr_asrt = asrt_id, cr_pred = c_pred claim,
           cr_eref = c_eref claim, cr_rest = rest, cr_value = value, cr_tag = tag,
           cr_tx = tx_ref\<rparr>]\<rparr>)))"

definition cmeta_pk :: "cmeta_row \<Rightarrow> ustr \<times> meta_key \<times> nat \<times> nat" where
  "cmeta_pk r = (cm_asrt r, cm_key r, cm_tx r, cm_op r)"

definition encode_append :: "ustr \<Rightarrow> nat \<Rightarrow> nat \<Rightarrow> meta_append \<Rightarrow> cmeta_row res" where
  "encode_append asrt_id tx_seq op_ordinal a = (case a of
      MRow _ row \<Rightarrow>
        bindE (encode_meta_value (m_kind row) (m_value row)) (\<lambda>cell.
          Ok \<lparr>cm_asrt = asrt_id, cm_key = m_key row, cm_kind = Some (m_kind row),
              cm_value = Some cell, cm_tx = tx_seq, cm_op = op_ordinal\<rparr>)
    | MTombstone _ key \<Rightarrow>
        Ok \<lparr>cm_asrt = asrt_id, cm_key = key, cm_kind = None, cm_value = None,
            cm_tx = tx_seq, cm_op = op_ordinal\<rparr>)"

definition insert_cmeta :: "ledger_db \<Rightarrow> cmeta_row \<Rightarrow> ledger_db res" where
  "insert_cmeta db r =
     (if SQL_INT_LIMIT \<le> int (cm_tx r) \<or> SQL_INT_LIMIT \<le> int (cm_op r) then Err OverflowError
      else if cmeta_pk r \<in> cmeta_pk ` set (d_cmeta db) then Err IntegrityError
      else Ok (db\<lparr>d_cmeta := d_cmeta db @ [r]\<rparr>))"

definition insert_meta_rows ::
  "meta_append list \<Rightarrow> ustr \<Rightarrow> nat \<Rightarrow> nat \<Rightarrow> ledger_db \<Rightarrow> ledger_db res" where
  "insert_meta_rows rows asrt_id tx_seq op_ordinal db =
     bindE (mapE (encode_append asrt_id tx_seq op_ordinal) rows) (\<lambda>rs. foldE insert_cmeta db rs)"

definition insert_annotation_rows ::
  "annotation_row list \<Rightarrow> nat \<Rightarrow> nat \<Rightarrow> meta_row list \<Rightarrow> ledger_db \<Rightarrow> ledger_db res" where
  "insert_annotation_rows rows tx_seq op_ordinal skip_meta_rows db =
     bindE (annotation_compatibility_meta_rows rows skip_meta_rows) (\<lambda>compatibility_rows.
       foldE (\<lambda>db row. insert_meta_rows [MRow True row] (m_asrt row) tx_seq op_ordinal db)
         db compatibility_rows)"

definition next_direct_tx_seq :: "ledger_db \<Rightarrow> nat" where
  "next_direct_tx_seq db =
     (let s = map cr_tx (d_claims db) @ map cm_tx (d_cmeta db)
      in if s = [] then 0 else Max (set s) + 1)"

section \<open>Lookups used by the writers\<close>

definition is_known_asrt_id :: "ledger_index \<Rightarrow> ustr \<Rightarrow> bool" where
  "is_known_asrt_id ix a \<longleftrightarrow>
     dict_get (x_claim_by_id ix) a \<noteq> None \<or> dict_get (x_system ix) a \<noteq> None"

definition has_active_revocation :: "ledger \<Rightarrow> ustr \<Rightarrow> bool res" where
  "has_active_revocation L a = bindE (ensure_open L) (\<lambda>_. Ok (a \<in> x_revoked (l_ix L)))"

fun scan_ingest :: "ledger \<Rightarrow> ustr list \<Rightarrow> ustr option res" where
  "scan_ingest L [] = Ok None"
| "scan_ingest L (a # as) =
     (if dict_get (x_claim_by_id (l_ix L)) a \<noteq> None then
        bindE (has_active_revocation L a) (\<lambda>revoked. if revoked then scan_ingest L as else Ok (Some a))
      else if a \<in> x_revokers (l_ix L) then Ok (Some a)
      else scan_ingest L as)"

definition find_ingest_key :: "ledger \<Rightarrow> ustr \<Rightarrow> ustr option res" where
  "find_ingest_key L key = scan_ingest L (dict_list (x_ingest (l_ix L)) key)"

text \<open>The idempotency check of \<open>append_assertion\<close> and \<open>append_revocation\<close>.\<close>

definition check_idempotency :: "ledger \<Rightarrow> idempotency option \<Rightarrow> ustr option res" where
  "check_idempotency L idem = (case idem of
      None \<Rightarrow> Ok None
    | Some i \<Rightarrow> bindE (find_ingest_key L (i_key i)) (\<lambda>existing.
        if existing \<noteq> None \<and> i_conflict i = ErrorOnConflict then Err DuplicateIngestKeyError
        else Ok existing))"

end
