(* ===== verification/Py_Value.thy ===== *)
theory Py_Value
  imports Tup_V1
begin

text \<open>
  Python's \<open>==\<close> and \<open><\<close> on the modelled values: booleans are integers, an integer and a
  float are compared exactly, \<open>bytes\<close>, \<open>bytearray\<close> and \<open>memoryview\<close> by content, lists,
  tuples and dictionaries element by element.  A NaN is unequal to everything (the identity
  shortcut that containers take for one and the same NaN object is not modelled).
\<close>

section \<open>Floats\<close>

definition float_sign :: "64 word \<Rightarrow> int" where
  "float_sign w = (if unat w < 2 ^ 63 then 1 else - 1)"

definition float_exponent :: "64 word \<Rightarrow> nat" where
  "float_exponent w = unat w div 2 ^ 52 mod 2048"

definition float_fraction :: "64 word \<Rightarrow> nat" where
  "float_fraction w = unat w mod 2 ^ 52"

definition is_nan :: "64 word \<Rightarrow> bool" where
  "is_nan w \<longleftrightarrow> float_exponent w = 2047 \<and> float_fraction w \<noteq> 0"

text \<open>A number is \<open>Fin m k\<close>, the value \<open>m * 2 ^ k / 2 ^ 1074\<close>, or an infinity.\<close>

datatype number = Fin int nat | Inf bool

definition float_number :: "64 word \<Rightarrow> number" where
  "float_number w =
     (if float_exponent w = 2047 then Inf (float_sign w = 1)
      else if float_exponent w = 0 then Fin (float_sign w * int (float_fraction w)) 0
      else Fin (float_sign w * int (2 ^ 52 + float_fraction w)) (float_exponent w - 1))"

fun number_le :: "number \<Rightarrow> number \<Rightarrow> bool" where
  "number_le (Fin a j) (Fin b k) = (a * 2 ^ j \<le> b * 2 ^ k)"
| "number_le (Inf p) (Inf q) = (p \<longrightarrow> q)"
| "number_le (Inf p) (Fin _ _) = (\<not> p)"
| "number_le (Fin _ _) (Inf p) = p"

definition py_number :: "pyval \<Rightarrow> number option" where
  "py_number v = (case v of
      PBool b \<Rightarrow> Some (Fin (of_bool b) 1074)
    | PInt i \<Rightarrow> Some (Fin i 1074)
    | PFloat w \<Rightarrow> if is_nan w then None else Some (float_number w)
    | _ \<Rightarrow> None)"

definition number_eq :: "number \<Rightarrow> number \<Rightarrow> bool" where
  "number_eq x y \<longleftrightarrow> number_le x y \<and> number_le y x"

definition py_is_number :: "pyval \<Rightarrow> bool" where
  "py_is_number v = (case v of PBool _ \<Rightarrow> True | PInt _ \<Rightarrow> True | PFloat _ \<Rightarrow> True | _ \<Rightarrow> False)"

definition py_num_eq :: "pyval \<Rightarrow> pyval \<Rightarrow> bool" where
  "py_num_eq v w = (case (py_number v, py_number w) of (Some x, Some y) \<Rightarrow> number_eq x y | _ \<Rightarrow> False)"

section \<open>Equality\<close>

fun py_eq :: "pyval \<Rightarrow> pyval \<Rightarrow> bool" where
  "py_eq PNone w = (w = PNone)"
| "py_eq (PStr s) w = (w = PStr s)"
| "py_eq (PBytes _ b) w = (case w of PBytes _ c \<Rightarrow> b = c | _ \<Rightarrow> False)"
| "py_eq (PList vs) w = (case w of PList ws \<Rightarrow> list_all2 py_eq vs ws | _ \<Rightarrow> False)"
| "py_eq (PTuple vs) w = (case w of PTuple ws \<Rightarrow> list_all2 py_eq vs ws | _ \<Rightarrow> False)"
| "py_eq (PDict d) w = (case w of
      PDict e \<Rightarrow> length d = length e \<and>
        list_all (\<lambda>(k, v). list_ex (\<lambda>(k', v'). py_eq k k' \<and> py_eq v v') e) d
    | _ \<Rightarrow> False)"
| "py_eq v w = py_num_eq v w"

lemma number_le_refl [simp]: "number_le x x"
  by (cases x) auto

lemma number_eq_refl [simp]: "number_eq x x"
  by (simp add: number_eq_def)

lemma number_le_trans: "number_le x y \<Longrightarrow> number_le y z \<Longrightarrow> number_le x z"
  by (cases x; cases y; cases z) auto

lemma number_eq_sym: "number_eq x y \<longleftrightarrow> number_eq y x"
  by (auto simp: number_eq_def)

lemma number_eq_trans: "number_eq x y \<Longrightarrow> number_eq y z \<Longrightarrow> number_eq x z"
  by (auto simp: number_eq_def intro: number_le_trans)

lemma py_num_eq_int [simp]: "py_num_eq (PInt i) (PInt j) \<longleftrightarrow> i = j"
  by (auto simp: py_num_eq_def py_number_def number_eq_def)

lemma py_num_eq_bool [simp]: "py_num_eq (PBool b) (PBool c) \<longleftrightarrow> b = c"
  by (auto simp: py_num_eq_def py_number_def number_eq_def)

lemma py_num_eq_bool_int [simp]: "py_num_eq (PBool b) (PInt j) \<longleftrightarrow> of_bool b = j"
  by (auto simp: py_num_eq_def py_number_def number_eq_def)

fun nan_free :: "pyval \<Rightarrow> bool" where
  "nan_free (PFloat w) = (\<not> is_nan w)"
| "nan_free (PList vs) = list_all nan_free vs"
| "nan_free (PTuple vs) = list_all nan_free vs"
| "nan_free (PDict d) = list_all (\<lambda>(k, v). nan_free k \<and> nan_free v) d"
| "nan_free _ = True"

lemma py_eq_refl: "nan_free v \<Longrightarrow> py_eq v v"
proof (induction v)
  case (PFloat w)
  then show ?case by (simp add: py_num_eq_def py_number_def)
next
  case (PBool b)
  then show ?case by simp
next
  case (PInt i)
  then show ?case by simp
next
  case (PList vs)
  then show ?case by (auto simp: list_all_iff intro!: list.rel_refl_strong)
next
  case (PTuple vs)
  then show ?case by (auto simp: list_all_iff intro!: list.rel_refl_strong)
next
  case (PDict d)
  then show ?case
    by (fastforce simp: list_all_iff list_ex_iff)
qed auto

end
