(* ===== verification/Ledger_Ops.thy ===== *)
theory Ledger_Ops
  imports Ledger_State Py_Value
begin

text \<open>
  The write operations of \<open>Ledger\<close>: assertions, revocations, the deprecated single-table
  appends, and the atomic batch commit with its compare-and-swap on the head.  \<open>uuid4\<close> ids are
  an argument (\<open>fresh\<close>).
\<close>

definition with_asrt :: "ustr \<Rightarrow> meta_row list \<Rightarrow> meta_row list" where
  "with_asrt a rows = map (\<lambda>r. \<lparr>m_asrt = a, m_key = m_key r, m_kind = m_kind r, m_value = m_value r\<rparr>) rows"

definition anno_with_asrt :: "ustr \<Rightarrow> annotation_row list \<Rightarrow> annotation_row list" where
  "anno_with_asrt a rows = map (\<lambda>r. r\<lparr>a_asrt := a\<rparr>) rows"

definition arg_with_asrt :: "ustr \<Rightarrow> claim_arg list \<Rightarrow> claim_arg list" where
  "arg_with_asrt a rows = map (\<lambda>r. r\<lparr>g_asrt := a\<rparr>) rows"

definition effective_id :: "ustr option \<Rightarrow> ustr \<Rightarrow> ustr \<Rightarrow> ustr" where
  "effective_id given own fresh =
     (case given of Some a \<Rightarrow> if a \<noteq> [] then a else if own \<noteq> [] then own else fresh
      | None \<Rightarrow> if own \<noteq> [] then own else fresh)"

section \<open>Post-commit hooks\<close>

definition idx_add_compatibility ::
  "ustr list \<Rightarrow> annotation_row list \<Rightarrow> meta_row list \<Rightarrow> nat \<Rightarrow> nat \<Rightarrow> ledger_index \<Rightarrow> idx_res" where
  "idx_add_compatibility lazy anno skip tx op ix =
     (case annotation_compatibility_meta_rows anno skip of
        Inl e \<Rightarrow> (ix, Err e)
      | Inr rows \<Rightarrow> (idx_add_claim_meta_events lazy (map (MRow True) rows) tx op False ix, Ok ()))"

definition idx_add_initial ::
  "ustr list \<Rightarrow> meta_row list \<Rightarrow> annotation_row list \<Rightarrow> nat \<Rightarrow> nat \<Rightarrow> ledger_index \<Rightarrow> idx_res" where
  "idx_add_initial lazy meta anno tx op ix =
     (let ix = idx_add_claim_meta_events lazy (map (MRow False) meta) tx op True ix
      in if anno = [] then (ix, Ok ())
         else thenS (idx_add_compatibility lazy anno meta tx op ix)
                (\<lambda>ix _. (idx_add_annotation lazy anno ix, Ok ())))"

definition apply_claim_index :: "claim \<Rightarrow> nat \<Rightarrow> nat \<Rightarrow> ledger_index \<Rightarrow> idx_res" where
  "apply_claim_index claim tx op ix =
     idx_add_claim claim None
       (set_op_ordinal (c_asrt claim) op (set_tx_ref (c_asrt claim) (Some tx) ix))"

definition apply_assertion_indexes ::
  "ustr list \<Rightarrow> claim \<Rightarrow> meta_row list \<Rightarrow> annotation_row list \<Rightarrow> nat \<Rightarrow> nat \<Rightarrow> ledger_index \<Rightarrow> idx_res" where
  "apply_assertion_indexes lazy claim meta anno tx op ix =
     thenS (apply_claim_index claim tx op ix) (\<lambda>ix _. idx_add_initial lazy meta anno tx op ix)"

definition revoke_claim :: "revokes_row \<Rightarrow> ustr \<Rightarrow> claim" where
  "revoke_claim r eref =
     \<lparr>c_asrt = r_revoker r, c_pred = REVOCATION_PREDICATE, c_eref = eref,
      c_terms = [PTuple [PStr (u ''string''), PStr (r_revoked r)]]\<rparr>"

definition apply_revoke_claim :: "claim \<Rightarrow> revokes_row \<Rightarrow> nat \<Rightarrow> nat \<Rightarrow> ledger_index \<Rightarrow> idx_res" where
  "apply_revoke_claim claim r tx op ix =
     thenS (idx_add_system_revocation_claim claim (Some tx) ix) (\<lambda>ix _.
       (idx_add_revoke r (set_op_ordinal (c_asrt claim) op ix), Ok ()))"

definition apply_revocation_indexes ::
  "ustr list \<Rightarrow> claim \<Rightarrow> revokes_row \<Rightarrow> meta_row list \<Rightarrow> annotation_row list \<Rightarrow> nat \<Rightarrow>
   ledger_index \<Rightarrow> idx_res" where
  "apply_revocation_indexes lazy claim r meta anno tx ix =
     thenS (apply_revoke_claim claim r tx 0 ix) (\<lambda>ix _.
       (let ix = idx_add_claim_meta_events lazy (map (MRow False) meta) tx 0 True ix
        in (if anno = [] then ix else idx_add_annotation lazy anno ix, Ok ())))"

section \<open>Assertions\<close>

definition expected_claim_args :: "ustr \<Rightarrow> pyval list \<Rightarrow> claim_arg list res" where
  "expected_claim_args a terms =
     bindE (claim_args_from_rest_terms terms) (\<lambda>rows.
       Ok (map (\<lambda>(idx, value, tag). \<lparr>g_asrt = a, g_idx = idx, g_atom = value, g_tag = tag\<rparr>) rows))"

definition claim_arg_eq :: "claim_arg \<Rightarrow> claim_arg \<Rightarrow> bool" where
  "claim_arg_eq r s \<longleftrightarrow> g_asrt r = g_asrt s \<and> g_idx r = g_idx s \<and> py_eq (g_atom r) (g_atom s) \<and>
     g_tag r = g_tag s"

text \<open>The initial metadata and annotations of an assertion or revocation.\<close>

definition insert_initial :: "ustr \<Rightarrow> meta_row list \<Rightarrow> annotation_row list \<Rightarrow> nat \<Rightarrow> nat \<Rightarrow> ledger_db \<Rightarrow> ledger_db res" where
  "insert_initial a meta anno tx op db =
     bindE (insert_meta_rows (map (MRow False) meta) a tx op db) (\<lambda>db.
       if anno = [] then Ok db else insert_annotation_rows anno tx op meta db)"

definition write_assertion ::
  "ledger \<Rightarrow> claim \<Rightarrow> meta_row list \<Rightarrow> annotation_row list \<Rightarrow> ledger \<times> unit res" where
  "write_assertion L claim meta anno =
     (let tx = next_direct_tx_seq (l_db L)
      in write_session L
       (bindE (insert_claim claim (c_asrt claim) tx (l_db L)) (\<lambda>db.
        bindE (insert_initial (c_asrt claim) meta anno tx 0 db) (\<lambda>db.
        Ok (db, apply_assertion_indexes (l_lazy L) claim meta anno tx 0)))))"

text \<open>What \<open>append_assertion\<close> settles before it opens the write session.\<close>

definition prepare_assertion ::
  "ledger \<Rightarrow> claim \<Rightarrow> claim_arg list \<Rightarrow> meta_row list \<Rightarrow> annotation_row list \<Rightarrow> idempotency option \<Rightarrow>
   ustr \<Rightarrow> (ustr + claim \<times> meta_row list \<times> annotation_row list) res" where
  "prepare_assertion L claim claim_args meta_rows annotation_rows idem a =
     bindE (materialize_idempotency_meta (with_asrt a meta_rows) idem a) (\<lambda>actual_meta.
     bindE (check_idempotency L idem) (\<lambda>existing.
       case existing of Some e \<Rightarrow> Ok (Inl e) | None \<Rightarrow>
     bindE (mapE normalize_term (c_terms claim)) (\<lambda>normalized.
     bindE (expected_claim_args a normalized) (\<lambda>expected.
       if \<not> list_all2 claim_arg_eq (arg_with_asrt a claim_args) expected then Err ValueError else
       (let anno = merge_annotation_rows (initial_meta_annotation_rows actual_meta)
                     (anno_with_asrt a annotation_rows)
        in bindE (validate_annotation_rows anno) (\<lambda>_.
             Ok (Inr (\<lparr>c_asrt = a, c_pred = c_pred claim, c_eref = c_eref claim,
                        c_terms = normalized\<rparr>, actual_meta, anno))))))))"

definition append_assertion ::
  "ustr \<Rightarrow> claim \<Rightarrow> claim_arg list \<Rightarrow> meta_row list \<Rightarrow> annotation_row list \<Rightarrow> idempotency option \<Rightarrow>
   ustr option \<Rightarrow> ledger \<Rightarrow> ledger \<times> append_result res" where
  "append_assertion fresh claim claim_args meta_rows annotation_rows idem asrt_id L =
     (case bindE (validate_claim_input claim False) (\<lambda>_.
           bindE (validate_claim_args_rows claim_args) (\<lambda>_.
           bindE (validate_meta_rows_for_append_assertion meta_rows) (\<lambda>_.
           bindE (reject_duplicate_meta_keys meta_rows) (\<lambda>_.
           prepare_assertion L claim claim_args meta_rows annotation_rows idem
             (effective_id asrt_id (c_asrt claim) fresh))))) of
        Inl e \<Rightarrow> (L, Inl e)
      | Inr (Inl existing) \<Rightarrow> (L, Ok \<lparr>ar_asrt = existing, ar_written = False\<rparr>)
      | Inr (Inr (actual_claim, actual_meta, anno)) \<Rightarrow>
          thenS (write_assertion L actual_claim actual_meta anno) (\<lambda>L _.
            (L, Ok \<lparr>ar_asrt = c_asrt actual_claim, ar_written = True\<rparr>)))"

section \<open>Revocations\<close>

definition write_revocation ::
  "ledger \<Rightarrow> revokes_row \<Rightarrow> meta_row list \<Rightarrow> annotation_row list \<Rightarrow> ledger \<times> unit res" where
  "write_revocation L r meta anno =
     (let tx = next_direct_tx_seq (l_db L)
      in write_session L
       (case dict_get (x_claim_by_id (l_ix L)) (r_revoked r) of
          None \<Rightarrow> Err ValueError
        | Some target \<Rightarrow>
            (let rc = revoke_claim r (c_eref target)
             in bindE (insert_claim rc (r_revoker r) tx (l_db L)) (\<lambda>db.
                bindE (insert_initial (r_revoker r) meta anno tx 0 db) (\<lambda>db.
                Ok (db, apply_revocation_indexes (l_lazy L) rc r meta anno tx))))))"

definition prepare_revocation ::
  "ledger \<Rightarrow> meta_row list \<Rightarrow> idempotency option \<Rightarrow> ustr \<Rightarrow>
   (ustr + meta_row list \<times> annotation_row list) res" where
  "prepare_revocation L meta_rows idem a =
     bindE (materialize_idempotency_meta (with_asrt a meta_rows) idem a) (\<lambda>actual_meta.
     bindE (check_idempotency L idem) (\<lambda>existing.
       case existing of Some e \<Rightarrow> Ok (Inl e) | None \<Rightarrow>
       (let anno = initial_meta_annotation_rows actual_meta
        in bindE (validate_annotation_rows anno) (\<lambda>_. Ok (Inr (actual_meta, anno))))))"

definition append_revocation ::
  "ustr \<Rightarrow> revokes_row \<Rightarrow> meta_row list \<Rightarrow> idempotency option \<Rightarrow> ustr option \<Rightarrow>
   ledger \<Rightarrow> ledger \<times> append_result res" where
  "append_revocation fresh revokes meta_rows idem revoker_asrt_id L =
     (let a = effective_id revoker_asrt_id (r_revoker revokes) fresh
      in case bindE (validate_revokes_row revokes) (\<lambda>_.
           bindE (validate_meta_rows meta_rows) (\<lambda>_.
           bindE (reject_duplicate_meta_keys meta_rows) (\<lambda>_.
           prepare_revocation L meta_rows idem a))) of
        Inl e \<Rightarrow> (L, Inl e)
      | Inr (Inl existing) \<Rightarrow> (L, Ok \<lparr>ar_asrt = existing, ar_written = False\<rparr>)
      | Inr (Inr (actual_meta, anno)) \<Rightarrow>
          thenS (write_revocation L \<lparr>r_revoker = a, r_revoked = r_revoked revokes\<rparr> actual_meta anno)
            (\<lambda>L _. (L, Ok \<lparr>ar_asrt = a, ar_written = True\<rparr>)))"

section \<open>Single-table appends\<close>

definition append_claim :: "claim \<Rightarrow> ledger \<Rightarrow> ledger \<times> unit res" where
  "append_claim claim L =
     (case bindE (validate_claim_input claim True) (\<lambda>_. mapE normalize_term (c_terms claim)) of
        Inl e \<Rightarrow> (L, Inl e)
      | Inr normalized \<Rightarrow>
          (let actual_claim = claim\<lparr>c_terms := normalized\<rparr>; tx = next_direct_tx_seq (l_db L)
           in write_session L
                (bindE (insert_claim actual_claim (c_asrt claim) tx (l_db L)) (\<lambda>db.
                   Ok (db, apply_claim_index actual_claim tx 0)))))"

definition append_claim_args :: "claim_arg list \<Rightarrow> ledger \<Rightarrow> ledger \<times> unit res" where
  "append_claim_args rows L =
     (L, bindE (validate_claim_args_rows rows) (\<lambda>_.
         if \<not> list_all (\<lambda>row. is_known_asrt_id (l_ix L) (g_asrt row)) rows then Err ValueError
         else foldE (\<lambda>_ row.
           bindE (claim_args_from_rest_terms
                    (case dict_get (x_claim_by_id (l_ix L)) (g_asrt row) of
                       None \<Rightarrow> [] | Some c \<Rightarrow> c_terms c)) (\<lambda>expected.
             if list_ex (\<lambda>(idx, atom, tag). g_idx row = idx \<and> py_eq (g_atom row) atom \<and> g_tag row = tag) expected
             then Ok () else Err ValueError)) () rows))"

definition number :: "'a list \<Rightarrow> (nat \<times> 'a) list" where
  "number xs = enumerate 0 xs"

text \<open>A managed ledger hands the rows to its database; \<open>writer\<close> is that callback.\<close>

definition append_meta ::
  "(meta_row list \<Rightarrow> ledger \<Rightarrow> ledger \<times> unit res) option \<Rightarrow> meta_row list \<Rightarrow> ledger \<Rightarrow> ledger \<times> unit res" where
  "append_meta writer rows L =
     (case validate_meta_rows rows of Inl e \<Rightarrow> (L, Inl e) | Inr _ \<Rightarrow>
       (case writer of Some w \<Rightarrow> w rows L | None \<Rightarrow>
         if \<not> list_all (\<lambda>row. is_known_asrt_id (l_ix L) (m_asrt row)) rows then (L, Err ValueError)
         else
          (let tx = next_direct_tx_seq (l_db L)
           in write_session L
             (bindE (foldE (\<lambda>db (op, row). insert_meta_rows [MRow False row] (m_asrt row) tx op db)
                       (l_db L) (number rows)) (\<lambda>db.
              Ok (db, \<lambda>ix. (fold (\<lambda>(op, row) ix.
                       idx_add_claim_meta_events (l_lazy L) [MRow False row] tx op True ix)
                     (number rows) ix, Ok ())))))))"

definition append_annotations ::
  "(annotation_row list \<Rightarrow> ledger \<Rightarrow> ledger \<times> unit res) option \<Rightarrow> annotation_row list \<Rightarrow> ledger \<Rightarrow>
   ledger \<times> unit res" where
  "append_annotations writer rows L =
     (case writer of Some w \<Rightarrow> w rows L | None \<Rightarrow>
       (case validate_annotation_rows rows of Inl e \<Rightarrow> (L, Inl e) | Inr _ \<Rightarrow>
         if \<not> list_all (\<lambda>row. is_known_asrt_id (l_ix L) (a_asrt row)) rows then (L, Err ValueError)
         else
          (let tx = next_direct_tx_seq (l_db L)
           in write_session L
             (bindE (foldE (\<lambda>db (op, row). insert_annotation_rows [row] tx op [] db)
                       (l_db L) (number rows)) (\<lambda>db.
              Ok (db, \<lambda>ix. thenS
                 (foldS (\<lambda>ix (op, row). idx_add_compatibility (l_lazy L) [row] [] tx op ix) ix (number rows))
                 (\<lambda>ix _. (idx_add_annotation (l_lazy L) rows ix, Ok ()))))))))"

definition append_revokes :: "revokes_row \<Rightarrow> ledger \<Rightarrow> ledger \<times> unit res" where
  "append_revokes row L =
     (case validate_revokes_row row of Inl e \<Rightarrow> (L, Inl e) | Inr _ \<Rightarrow>
       (let tx = next_direct_tx_seq (l_db L)
        in write_session L
          (case dict_get (x_claim_by_id (l_ix L)) (r_revoked row) of
             None \<Rightarrow> Err ValueError
           | Some target \<Rightarrow>
               (let rc = revoke_claim row (c_eref target)
                in bindE (insert_claim rc (r_revoker row) tx (l_db L)) (\<lambda>db.
                   Ok (db, apply_revoke_claim rc row tx 0))))))"

section \<open>Ledger metadata\<close>

definition get_ledger_meta :: "ledger \<Rightarrow> ustr \<Rightarrow> ustr option res" where
  "get_ledger_meta L key = bindE (ensure_open L) (\<lambda>_. Ok (dict_get (d_meta (l_db L)) key))"

definition get_ledger_meta_snapshot :: "ledger \<Rightarrow> ustr list \<Rightarrow> (ustr, ustr option) dict res" where
  "get_ledger_meta_snapshot L keys =
     (if [] \<in> set keys then Err ValueError
      else if keys = [] then Ok []
      else bindE (ensure_open L) (\<lambda>_.
        Ok (foldl (\<lambda>m k. dict_set k (dict_get (d_meta (l_db L)) k) m) [] keys)))"

definition keep_index :: "ledger_index \<Rightarrow> idx_res" where
  "keep_index ix = (ix, Ok ())"

definition set_ledger_meta :: "ustr \<Rightarrow> ustr \<Rightarrow> ledger \<Rightarrow> ledger \<times> unit res" where
  "set_ledger_meta key value L =
     write_session L (Ok ((l_db L)\<lparr>d_meta := dict_setdefault key value (d_meta (l_db L))\<rparr>, keep_index))"

definition replace_ledger_meta :: "ustr \<Rightarrow> ustr \<Rightarrow> ledger \<Rightarrow> ledger \<times> unit res" where
  "replace_ledger_meta key value L =
     write_session L (Ok ((l_db L)\<lparr>d_meta := dict_set key value (d_meta (l_db L))\<rparr>, keep_index))"

end
