(* ===== verification/Ledger_Commit.thy ===== *)
theory Ledger_Commit
  imports Ledger_Ops
begin

text \<open>
  \<open>Ledger.commit_batch\<close>: one SQLite transaction for a database commit, guarded by a
  compare-and-swap on \<open>head_tx_id\<close>, and the indexes it updates afterwards.
\<close>

section \<open>Validation before the session\<close>

definition HEAD_TX_ID :: ustr where "HEAD_TX_ID = u ''head_tx_id''"
definition HEAD_TX_SEQ :: ustr where "HEAD_TX_SEQ = u ''head_tx_seq''"

definition validate_commit_metadata :: "ustr option \<Rightarrow> ustr \<Rightarrow> (ustr, ustr) dict \<Rightarrow> unit res" where
  "validate_commit_metadata expected_head head metadata =
     (if head = [] then Err ValueError
      else if expected_head = Some [] then Err ValueError
      else if dict_get metadata HEAD_TX_ID \<noteq> None then Err ValueError
      else if [] \<in> fst ` set metadata then Err ValueError
      else Ok ())"

text \<open>\<open>isdecimal()\<close> followed by \<open>int()\<close>; other scripts' digits are not modelled.\<close>

definition parse_head_tx_seq :: "(ustr, ustr) dict \<Rightarrow> nat res" where
  "parse_head_tx_seq metadata = (case dict_get metadata HEAD_TX_SEQ of
      None \<Rightarrow> Err ValueError
    | Some raw \<Rightarrow>
        if raw \<noteq> [] \<and> list_all is_digit raw then Ok (dec_val raw)
        else if list_ex (\<lambda>c. 128 \<le> c) raw then Err NotModelled
        else Err ValueError)"

definition merge_assertion_write :: "assertion_write \<Rightarrow> assertion_write" where
  "merge_assertion_write w =
     w\<lparr>w_anno := merge_annotation_rows (initial_meta_annotation_rows (w_meta w)) (w_anno w)\<rparr>"

definition merge_revocation_write :: "revocation_write \<Rightarrow> revocation_write" where
  "merge_revocation_write w =
     w\<lparr>v_anno := merge_annotation_rows (initial_meta_annotation_rows (v_meta w)) (v_anno w)\<rparr>"

definition validate_assertion_write :: "ustr list \<Rightarrow> assertion_write \<Rightarrow> ustr list res" where
  "validate_assertion_write new_claim_ids w =
     bindE (validate_claim_input (w_claim w) True) (\<lambda>_.
     bindE (validate_claim_args_rows (w_args w)) (\<lambda>_.
     bindE (validate_meta_rows (w_meta w)) (\<lambda>_.
     bindE (reject_duplicate_meta_keys (w_meta w)) (\<lambda>_.
     bindE (validate_annotation_rows (w_anno w)) (\<lambda>_.
     let a = c_asrt (w_claim w) in
       if a \<in> set new_claim_ids then Err ValueError
       else if list_ex (\<lambda>row. g_asrt row \<noteq> a) (w_args w) then Err ValueError
       else if list_ex (\<lambda>row. m_asrt row \<noteq> a) (w_meta w) then Err ValueError
       else if list_ex (\<lambda>row. a_asrt row \<noteq> a) (w_anno w) then Err ValueError
       else Ok (new_claim_ids @ [a]))))))"

definition validate_revocation_write :: "ustr list \<Rightarrow> ustr list \<Rightarrow> revocation_write \<Rightarrow> ustr list res" where
  "validate_revocation_write new_claim_ids new_revoker_ids w =
     bindE (validate_revokes_row (v_revokes w)) (\<lambda>_.
     bindE (validate_meta_rows (v_meta w)) (\<lambda>_.
     bindE (reject_duplicate_meta_keys (v_meta w)) (\<lambda>_.
     bindE (validate_annotation_rows (v_anno w)) (\<lambda>_.
     let a = r_revoker (v_revokes w) in
       if a \<in> set new_revoker_ids \<or> a \<in> set new_claim_ids then Err ValueError
       else if list_ex (\<lambda>row. m_asrt row \<noteq> a) (v_meta w) then Err ValueError
       else if list_ex (\<lambda>row. a_asrt row \<noteq> a) (v_anno w) then Err ValueError
       else Ok (new_revoker_ids @ [a])))))"

definition append_asrt :: "meta_append \<Rightarrow> ustr" where
  "append_asrt a = (case a of MRow _ row \<Rightarrow> m_asrt row | MTombstone asrt_id _ \<Rightarrow> asrt_id)"

definition validate_batch ::
  "ledger \<Rightarrow> assertion_write list \<Rightarrow> revocation_write list \<Rightarrow> meta_append list \<Rightarrow> ustr list res" where
  "validate_batch L assertions revocations meta_appends =
     bindE (foldE validate_assertion_write [] assertions) (\<lambda>new_claim_ids.
     bindE (foldE (validate_revocation_write new_claim_ids) [] revocations) (\<lambda>new_revoker_ids.
       if list_all (\<lambda>r. append_asrt r \<in> set (new_claim_ids @ new_revoker_ids) \<or>
                        is_known_asrt_id (l_ix L) (append_asrt r)) meta_appends
       then Ok (new_claim_ids @ new_revoker_ids) else Err ValueError))"

section \<open>The transaction\<close>

text \<open>\<open>INSERT OR IGNORE\<close> or \<open>UPDATE ... WHERE\<close>; the row count must be one.\<close>

definition cas_head :: "ustr option \<Rightarrow> ustr \<Rightarrow> ledger_db \<Rightarrow> ledger_db res" where
  "cas_head expected_head head db =
     (if dict_get (d_meta db) HEAD_TX_ID = expected_head
      then Ok (db\<lparr>d_meta := dict_set HEAD_TX_ID head (d_meta db)\<rparr>)
      else Err LedgerHeadConflictError)"

definition insert_assertion_write :: "nat \<Rightarrow> ledger_db \<Rightarrow> nat \<times> assertion_write \<Rightarrow> ledger_db res" where
  "insert_assertion_write tx db p = (case p of (op, w) \<Rightarrow>
     bindE (insert_claim (w_claim w) (c_asrt (w_claim w)) tx db) (\<lambda>db.
       insert_initial (c_asrt (w_claim w)) (w_meta w) (w_anno w) tx op db))"

definition revocation_target :: "ledger_index \<Rightarrow> assertion_write list \<Rightarrow> ustr \<Rightarrow> claim option" where
  "revocation_target ix assertions a = (case dict_get (x_claim_by_id ix) a of
      Some c \<Rightarrow> Some c
    | None \<Rightarrow> find (\<lambda>c. c_asrt c = a) (map w_claim assertions))"

definition insert_revocation_write ::
  "ledger_index \<Rightarrow> assertion_write list \<Rightarrow> nat \<Rightarrow> ledger_db \<Rightarrow> nat \<times> revocation_write \<Rightarrow> ledger_db res" where
  "insert_revocation_write ix assertions tx db p = (case p of (op, w) \<Rightarrow>
     (case revocation_target ix assertions (r_revoked (v_revokes w)) of
        None \<Rightarrow> Err ValueError
      | Some target \<Rightarrow>
          bindE (insert_claim (revoke_claim (v_revokes w) (c_eref target)) (r_revoker (v_revokes w)) tx db) (\<lambda>db.
            insert_initial (r_revoker (v_revokes w)) (v_meta w) (v_anno w) tx op db)))"

definition insert_meta_append :: "nat \<Rightarrow> ledger_db \<Rightarrow> nat \<times> meta_append \<Rightarrow> ledger_db res" where
  "insert_meta_append tx db p = (case p of (op, row) \<Rightarrow>
     insert_meta_rows [row] (append_asrt row) tx op db)"

definition upsert_metadata :: "(ustr, ustr) dict \<Rightarrow> ledger_db \<Rightarrow> ledger_db" where
  "upsert_metadata metadata db =
     db\<lparr>d_meta := fold (\<lambda>(k, v). dict_set k v) (sort_key fst metadata) (d_meta db)\<rparr>"

definition batch_db ::
  "ledger \<Rightarrow> assertion_write list \<Rightarrow> revocation_write list \<Rightarrow> ustr option \<Rightarrow> ustr \<Rightarrow> (ustr, ustr) dict \<Rightarrow>
   meta_append list \<Rightarrow> nat \<Rightarrow> ustr list \<Rightarrow> ledger_db res" where
  "batch_db L assertions revocations expected_head head metadata meta_appends tx new_ids =
     (if list_ex (is_known_asrt_id (l_ix L)) new_ids then Err ValueError
      else
        bindE (cas_head expected_head head (l_db L)) (\<lambda>db.
        bindE (foldE (insert_assertion_write tx) db (enumerate 0 assertions)) (\<lambda>db.
        bindE (foldE (insert_revocation_write (l_ix L) assertions tx) db
                 (enumerate (length assertions) revocations)) (\<lambda>db.
        bindE (foldE (insert_meta_append tx) db
                 (enumerate (length assertions + length revocations) meta_appends)) (\<lambda>db.
        Ok (upsert_metadata metadata db))))))"

section \<open>The post-commit hook\<close>

definition idx_add_assertion_write ::
  "ustr list \<Rightarrow> nat \<Rightarrow> ledger_index \<Rightarrow> nat \<times> assertion_write \<Rightarrow> idx_res" where
  "idx_add_assertion_write lazy tx ix p = (case p of (op, w) \<Rightarrow>
     apply_assertion_indexes lazy (w_claim w) (w_meta w) (w_anno w) tx op ix)"

definition idx_add_revocation_write ::
  "ustr list \<Rightarrow> assertion_write list \<Rightarrow> nat \<Rightarrow> ledger_index \<Rightarrow> nat \<times> revocation_write \<Rightarrow> idx_res" where
  "idx_add_revocation_write lazy assertions tx ix p = (case p of (op, w) \<Rightarrow>
     (case revocation_target ix assertions (r_revoked (v_revokes w)) of
        None \<Rightarrow> (ix, Err StopIteration)
      | Some target \<Rightarrow>
          thenS (apply_revoke_claim (revoke_claim (v_revokes w) (c_eref target)) (v_revokes w) tx op ix)
            (\<lambda>ix _. idx_add_initial lazy (v_meta w) (v_anno w) tx op ix)))"

definition idx_add_meta_append :: "ustr list \<Rightarrow> nat \<Rightarrow> ledger_index \<Rightarrow> nat \<times> meta_append \<Rightarrow> idx_res" where
  "idx_add_meta_append lazy tx ix p = (case p of (op, row) \<Rightarrow>
     (let projected = (case row of MRow is_storage _ \<Rightarrow> \<not> is_storage | MTombstone _ _ \<Rightarrow> False);
          ix = idx_add_claim_meta_events lazy [row] tx op projected ix
      in case row of
           MRow True m \<Rightarrow>
             (case annotation_from_storage_key (m_asrt m) (m_key m) (m_kind m) (m_value m) of
                Inl e \<Rightarrow> (ix, Err e)
              | Inr anno \<Rightarrow> (idx_add_annotation lazy [anno] ix, Ok ()))
         | _ \<Rightarrow> (ix, Ok ())))"

definition apply_batch_indexes ::
  "ustr list \<Rightarrow> assertion_write list \<Rightarrow> revocation_write list \<Rightarrow> meta_append list \<Rightarrow> nat \<Rightarrow>
   ledger_index \<Rightarrow> idx_res" where
  "apply_batch_indexes lazy assertions revocations meta_appends tx ix =
     thenS (foldS (idx_add_assertion_write lazy tx) ix (enumerate 0 assertions)) (\<lambda>ix _.
     thenS (foldS (idx_add_revocation_write lazy assertions tx) ix
              (enumerate (length assertions) revocations)) (\<lambda>ix _.
     foldS (idx_add_meta_append lazy tx) ix
       (enumerate (length assertions + length revocations) meta_appends)))"

definition commit_batch ::
  "assertion_write list \<Rightarrow> revocation_write list \<Rightarrow> ustr option \<Rightarrow> ustr \<Rightarrow> (ustr, ustr) dict \<Rightarrow>
   meta_append list \<Rightarrow> ledger \<Rightarrow> ledger \<times> unit res" where
  "commit_batch raw_assertions raw_revocations expected_head head metadata meta_appends L =
     (let assertions = map merge_assertion_write raw_assertions;
          revocations = map merge_revocation_write raw_revocations
      in case bindE (validate_commit_metadata expected_head head metadata) (\<lambda>_.
              bindE (validate_meta_events meta_appends) (\<lambda>_.
              bindE (parse_head_tx_seq metadata) (\<lambda>tx.
              bindE (validate_batch L assertions revocations meta_appends) (\<lambda>new_ids.
              Ok (tx, new_ids))))) of
           Inl e \<Rightarrow> (L, Inl e)
         | Inr (tx, new_ids) \<Rightarrow>
             write_session L
               (bindE (batch_db L assertions revocations expected_head head metadata meta_appends tx new_ids)
                 (\<lambda>db. Ok (db, apply_batch_indexes (l_lazy L) assertions revocations meta_appends tx))))"

end
