(* ===== verification/Ledger_Load.thy ===== *)
theory Ledger_Load
  imports Ledger_Commit
begin

text \<open>
  Opening a ledger: \<open>_load_from_db_via\<close> rebuilds every index from the tables, in the order of
  the claims and of the metadata events.  Also the operations that reload:
  \<open>_force_replace_meta_rows\<close>, \<open>configure_meta_load_policy\<close> and the deep copy, and the
  transaction defaults, which live in memory only.
\<close>

section \<open>Loading claims\<close>

definition row_to_claim :: "claim_row \<Rightarrow> claim res" where
  "row_to_claim row =
     bindE (decode_claim_terms (cr_rest row) (cr_value row) (cr_tag row)) (\<lambda>terms.
       Ok \<lparr>c_asrt = cr_asrt row, c_pred = cr_pred row, c_eref = cr_eref row, c_terms = terms\<rparr>)"

definition first_value_text :: "pyval list \<Rightarrow> ustr res" where
  "first_value_text terms = (case terms of PTuple [_, PStr s] # _ \<Rightarrow> Ok s | _ \<Rightarrow> Err NotModelled)"

text \<open>The loop carries the index, the next ordinal of each transaction and the last \<open>tx_ref\<close>.\<close>

type_synonym load_state = "ledger_index \<times> (nat, nat) dict \<times> int"

definition load_claim_index :: "claim \<Rightarrow> nat \<Rightarrow> ledger_index \<Rightarrow> idx_res" where
  "load_claim_index claim tx ix =
     (if starts_with (c_pred claim) SYSTEM_PREFIX then
        thenS (idx_add_system_revocation_claim claim (Some tx) ix) (\<lambda>ix _.
          case first_value_text (c_terms claim) of
            Inl e \<Rightarrow> (ix, Err e)
          | Inr s \<Rightarrow> (idx_add_revoke \<lparr>r_revoker = c_asrt claim, r_revoked = s\<rparr> ix, Ok ()))
      else idx_add_claim claim None (set_tx_ref (c_asrt claim) (Some tx) ix))"

definition load_claim :: "load_state \<Rightarrow> claim_row \<Rightarrow> load_state \<times> unit res" where
  "load_claim st row = (case st of (ix, next_op, prev) \<Rightarrow>
     (case row_to_claim row of
        Inl e \<Rightarrow> (st, Err e)
      | Inr claim \<Rightarrow>
          if int (cr_tx row) < prev then (st, Err LedgerFormatError)
          else
            (let op = (case dict_get next_op (cr_tx row) of None \<Rightarrow> 0 | Some n \<Rightarrow> n);
                 (ix, r) = load_claim_index claim (cr_tx row) (set_op_ordinal (c_asrt claim) op ix)
             in ((ix, dict_set (cr_tx row) (op + 1) next_op, int (cr_tx row)), r))))"

section \<open>Loading metadata events\<close>

definition event_order :: "cmeta_row list \<Rightarrow> cmeta_row list" where
  "event_order rows = sort_key (\<lambda>r. (cm_tx r, cm_op r)) rows"

definition TX_ID :: meta_key where "TX_ID = MKey (u ''tx_id'')"

definition is_identity_row :: "cmeta_row \<Rightarrow> bool" where
  "is_identity_row row \<longleftrightarrow> cm_key row = TX_ID \<and> cm_kind row = Some (u ''str'')"

definition event_of_row :: "cmeta_row \<Rightarrow> meta_event res" where
  "event_of_row row =
     bindE (decode_meta_value (cm_kind row) (cm_value row)) (\<lambda>value.
       Ok \<lparr>e_asrt = cm_asrt row, e_key = cm_key row, e_kind = cm_kind row, e_value = value,
           e_tx = cm_tx row, e_op = cm_op row\<rparr>)"

definition is_initial_meta :: "ustr set \<Rightarrow> ustr set \<Rightarrow> cmeta_row \<Rightarrow> ledger_index \<Rightarrow> bool" where
  "is_initial_meta marked sealed row ix =
     (if cm_asrt row \<in> marked then cm_asrt row \<notin> sealed
      else dict_get (x_tx_refs ix) (cm_asrt row) = Some (cm_tx row) \<and>
           dict_get (x_op_ordinals ix) (cm_asrt row) = Some (cm_op row))"

definition load_meta_row ::
  "ustr list \<Rightarrow> ustr set \<Rightarrow> ledger_index \<times> ustr set \<Rightarrow> cmeta_row \<Rightarrow> (ledger_index \<times> ustr set) \<times> unit res" where
  "load_meta_row lazy marked st row = (case st of (ix, sealed) \<Rightarrow>
     (case event_of_row row of
        Inl e \<Rightarrow> (st, Err e)
      | Inr event \<Rightarrow>
          (let ix = idx_add_claim_meta_event lazy event ix
           in case cm_kind row of
                None \<Rightarrow> ((ix, sealed), Ok ())
              | Some kind \<Rightarrow>
                  if is_reserved_annotation_meta_key (cm_key row) then
                    (case annotation_from_storage_key (cm_asrt row) (cm_key row) kind (e_value event) of
                       Inl e \<Rightarrow> ((ix, sealed), Err e)
                     | Inr anno \<Rightarrow> ((idx_add_annotation lazy [anno] ix, sealed), Ok ()))
                  else
                    (let meta = \<lparr>m_asrt = cm_asrt row, m_key = cm_key row, m_kind = kind,
                                 m_value = e_value event\<rparr>;
                         ix = idx_add_meta lazy [meta] ix;
                         ix = (if is_initial_meta marked sealed row ix then
                                 (case initial_meta_annotation_row meta of
                                    None \<Rightarrow> ix | Some anno \<Rightarrow> idx_add_annotation lazy [anno] ix)
                               else ix)
                     in ((ix, if is_identity_row row then insert (cm_asrt row) sealed else sealed), Ok ())))))"

definition load_from_db :: "ustr list \<Rightarrow> ledger_db \<Rightarrow> idx_res" where
  "load_from_db lazy db =
     (let (st, r) = foldS load_claim (reset_indexes, [], - 1) (d_claims db)
      in thenS (fst st, r) (\<lambda>ix _.
           let marked = cm_asrt ` set (filter is_identity_row (event_order (d_cmeta db)));
               (st, r) = foldS (load_meta_row lazy marked) (ix, {}) (event_order (d_cmeta db))
           in (fst st, r)))"

section \<open>Opening, copying, closing\<close>

definition LEGACY_TABLES :: "ustr list" where
  "LEGACY_TABLES = [u ''claim_args'', u ''meta_rows'', u ''revokes'', u ''ingest_keys'', u ''annotation_rows'']"

definition init_schema :: "ustr list \<Rightarrow> ledger_db \<Rightarrow> ledger_db res" where
  "init_schema existing_tables db =
     (if list_ex (\<lambda>t. t \<in> set LEGACY_TABLES) existing_tables then Err LedgerFormatError
      else Ok (db\<lparr>d_meta :=
        dict_setdefault (u ''ledger_format_version'') (u ''slice3b-v1'') (d_meta db)\<rparr>))"

definition open_ledger :: "ustr list \<Rightarrow> ledger_db \<Rightarrow> ledger res" where
  "open_ledger existing_tables db =
     bindE (init_schema existing_tables db) (\<lambda>db.
       (case load_from_db [] db of
          (_, Inl e) \<Rightarrow> Err e
        | (ix, Inr _) \<Rightarrow> Ok \<lparr>l_db = db, l_ix = ix, l_lazy = [], l_closed = False\<rparr>))"

definition close_ledger :: "ledger \<Rightarrow> ledger" where
  "close_ledger L = L\<lparr>l_closed := True\<rparr>"

section \<open>Transaction defaults\<close>

definition add_tx_default ::
  "(nat, (meta_key, tx_meta_default) dict) dict \<Rightarrow> tx_meta_default \<Rightarrow>
   (nat, (meta_key, tx_meta_default) dict) dict res" where
  "add_tx_default normalized row =
     (if t_key row = MKey [] then Err ValueError
      else if t_kind row \<notin> set META_KINDS then Err ValueError
      else
        (let by_key = (case dict_get normalized (t_tx row) of None \<Rightarrow> [] | Some d \<Rightarrow> d)
         in if dict_get by_key (t_key row) \<noteq> None then Err ValueError
            else Ok (dict_set (t_tx row) (dict_set (t_key row) row by_key) normalized)))"

definition replace_tx_meta_defaults :: "tx_meta_default list \<Rightarrow> ledger \<Rightarrow> ledger \<times> unit res" where
  "replace_tx_meta_defaults rows L =
     (case bindE (foldE add_tx_default [] rows) (\<lambda>d. bindE (ensure_open L) (\<lambda>_. Ok d)) of
        Inl e \<Rightarrow> (L, Inl e)
      | Inr d \<Rightarrow> (L\<lparr>l_ix := (l_ix L)\<lparr>x_tx_defaults := d\<rparr>\<rparr>, Ok ()))"

definition tx_meta_defaults :: "ledger \<Rightarrow> tx_meta_default list" where
  "tx_meta_defaults L = concat (map (\<lambda>(_, by_key). map snd by_key) (x_tx_defaults (l_ix L)))"

definition record_tx_meta_defaults :: "tx_meta_default list \<Rightarrow> ledger \<Rightarrow> ledger \<times> unit res" where
  "record_tx_meta_defaults rows L =
     (case ensure_open L of
        Inl e \<Rightarrow> (L, Inl e)
      | Inr _ \<Rightarrow> replace_tx_meta_defaults (tx_meta_defaults L @ rows) L)"

section \<open>Operations that reload\<close>

definition reload :: "ledger \<Rightarrow> ledger \<times> unit res" where
  "reload L = (let (ix, r) = load_from_db (l_lazy L) (l_db L) in (L\<lparr>l_ix := ix\<rparr>, r))"

definition configure_meta_load_policy :: "ustr list \<Rightarrow> ledger \<Rightarrow> ledger \<times> unit res" where
  "configure_meta_load_policy lazy_keys L =
     (if [] \<in> set lazy_keys then (L, Err ValueError)
      else case ensure_open L of
        Inl e \<Rightarrow> (L, Inl e)
      | Inr _ \<Rightarrow>
          if set lazy_keys = set (l_lazy L) then (L, Ok ())
          else thenS (reload (L\<lparr>l_lazy := lazy_keys\<rparr>)) (\<lambda>L' _.
                 replace_tx_meta_defaults (tx_meta_defaults L) L'))"

definition deepcopy_ledger :: "ledger \<Rightarrow> ledger res" where
  "deepcopy_ledger L =
     bindE (ensure_open L) (\<lambda>_.
       (case thenS (reload \<lparr>l_db = l_db L, l_ix = reset_indexes, l_lazy = l_lazy L, l_closed = False\<rparr>)
               (\<lambda>C _. replace_tx_meta_defaults (tx_meta_defaults L) C) of
          (_, Inl e) \<Rightarrow> Err e
        | (C, Inr _) \<Rightarrow> Ok C))"

text \<open>\<open>key LIKE prefix%\<close>: an underscore of the pattern matches any character, letters of either case match.\<close>

definition ascii_lower :: "nat \<Rightarrow> nat" where
  "ascii_lower c = (if 65 \<le> c \<and> c \<le> 90 then c + 32 else c)"

definition like_compat_prefix :: "meta_key \<Rightarrow> bool" where
  "like_compat_prefix key = (case key of
      AKey _ _ _ _ _ \<Rightarrow> True
    | MKey s \<Rightarrow> length ANNOTATION_COMPAT_PREFIX \<le> length s \<and>
        list_all2 (\<lambda>p c. p = 95 \<or> ascii_lower p = ascii_lower c) ANNOTATION_COMPAT_PREFIX
          (take (length ANNOTATION_COMPAT_PREFIX) s))"

definition force_replace_meta_rows :: "meta_row list \<Rightarrow> ledger \<Rightarrow> ledger \<times> unit res" where
  "force_replace_meta_rows rows L =
     (case validate_meta_rows rows of Inl e \<Rightarrow> (L, Inl e) | Inr _ \<Rightarrow>
       (let tx = next_direct_tx_seq (l_db L);
            db = (l_db L)\<lparr>d_cmeta := filter (\<lambda>r. like_compat_prefix (cm_key r)) (d_cmeta (l_db L))\<rparr>
        in write_session L
             (bindE (foldE (\<lambda>db (op, row). insert_meta_rows [MRow False row] (m_asrt row) tx op db)
                       db (number rows)) (\<lambda>db.
                Ok (db, \<lambda>_. load_from_db (l_lazy L) db)))))"

end
