(* ===== verification/Ledger_Query.thy ===== *)
theory Ledger_Query
  imports Ledger_Load
begin

text \<open>
  The read side of the ledger: lookups through the indexes, the event history, last-wins
  metadata with transaction defaults, event positions and annotations.
\<close>

section \<open>The text of a metadata key\<close>

definition json_escape_char :: "nat \<Rightarrow> ustr" where
  "json_escape_char c =
     (if c = 34 then [92, 34] else if c = 92 then [92, 92]
      else if c = 8 then [92, 98] else if c = 12 then [92, 102]
      else if c = 10 then [92, 110] else if c = 13 then [92, 114] else if c = 9 then [92, 116]
      else if 32 \<le> c \<and> c \<le> 126 then [c]
      else if c < 65536 then [92, 117] @ hex_text 4 c
      else (let v = c - 65536
            in [92, 117] @ hex_text 4 (55296 + v div 1024) @ [92, 117] @ hex_text 4 (56320 + v mod 1024)))"

definition json_text :: "ustr \<Rightarrow> ustr" where
  "json_text s = [34] @ concat (map json_escape_char s) @ [34]"

definition storage_key_payload :: "ustr \<Rightarrow> ustr \<Rightarrow> ustr \<Rightarrow> ustr \<Rightarrow> ustr option \<Rightarrow> ustr" where
  "storage_key_payload ns cat k origin deriv =
     u ''{\"category\":'' @ json_text cat @
     u '',\"derivation\":'' @ (case deriv of None \<Rightarrow> u ''null'' | Some d \<Rightarrow> json_text d) @
     u '',\"key\":'' @ json_text k @ u '',\"namespace\":'' @ json_text ns @
     u '',\"origin\":'' @ json_text origin @ u ''}''"

definition meta_key_text :: "meta_key \<Rightarrow> ustr" where
  "meta_key_text key = (case key of
      MKey s \<Rightarrow> s
    | AKey ns cat k origin deriv \<Rightarrow>
        ANNOTATION_COMPAT_PREFIX @ b64url_encode (map of_nat (storage_key_payload ns cat k origin deriv)))"

type_synonym event_key = "nat \<times> nat \<times> ustr \<times> ustr"

definition claim_meta_event_sort_key :: "meta_event \<Rightarrow> event_key" where
  "claim_meta_event_sort_key e = (e_tx e, e_op e, e_asrt e, meta_key_text (e_key e))"

section \<open>Claims\<close>

definition get_claim :: "ledger \<Rightarrow> ustr \<Rightarrow> claim option res" where
  "get_claim L a = bindE (ensure_open L) (\<lambda>_. Ok (dict_get (x_claim_by_id (l_ix L)) a))"

definition claim_sequence :: "ledger \<Rightarrow> ustr \<Rightarrow> nat option res" where
  "claim_sequence L a =
     (if a = [] then Err ValueError
      else bindE (ensure_open L) (\<lambda>_.
        Ok (map_option cr_seq (find (\<lambda>r. cr_asrt r = a) (d_claims (l_db L))))))"

definition get_claim_including_system :: "ledger \<Rightarrow> ustr \<Rightarrow> claim option res" where
  "get_claim_including_system L a =
     bindE (ensure_open L) (\<lambda>_. Ok (case dict_get (x_claim_by_id (l_ix L)) a of
        Some c \<Rightarrow> Some c | None \<Rightarrow> dict_get (x_system (l_ix L)) a))"

definition find_claims :: "ledger \<Rightarrow> ustr option \<Rightarrow> ustr option \<Rightarrow> claim list res" where
  "find_claims L pred_id e_ref =
     bindE (ensure_open L) (\<lambda>_. Ok (case (pred_id, e_ref) of
        (Some p, Some e) \<Rightarrow> dict_list (x_by_pred_eref (l_ix L)) (p, e)
      | (Some p, None) \<Rightarrow> dict_list (x_by_pred (l_ix L)) p
      | (None, Some e) \<Rightarrow> dict_list (x_by_eref (l_ix L)) e
      | (None, None) \<Rightarrow> x_claims (l_ix L)))"

definition opt_ok :: "'a option \<Rightarrow> 'a \<Rightarrow> bool" where
  "opt_ok w x \<longleftrightarrow> (case w of None \<Rightarrow> True | Some y \<Rightarrow> x = y)"

definition find_claim_args :: "ledger \<Rightarrow> ustr option \<Rightarrow> nat option \<Rightarrow> ustr option \<Rightarrow> claim_arg list res" where
  "find_claim_args L asrt_id idx tag =
     bindE (ensure_open L) (\<lambda>_.
       (let rows = (case asrt_id of Some a \<Rightarrow> dict_list (x_args_by_asrt (l_ix L)) a
                    | None \<Rightarrow> x_args (l_ix L));
            rows = filter (\<lambda>r. opt_ok idx (g_idx r)) rows
        in Ok (filter (\<lambda>r. opt_ok tag (g_tag r)) rows)))"

definition find_revoker :: "ledger \<Rightarrow> ustr \<Rightarrow> ustr option res" where
  "find_revoker L a = bindE (ensure_open L) (\<lambda>_. Ok (dict_get (x_first_revoker (l_ix L)) a))"

definition find_active_assertion_by_ingest_key :: "ledger \<Rightarrow> ustr \<Rightarrow> ustr option res" where
  "find_active_assertion_by_ingest_key L key =
     (if key = [] then Err ValueError
      else bindE (ensure_open L) (\<lambda>_.
        Ok (find (\<lambda>a. dict_get (x_claim_by_id (l_ix L)) a \<noteq> None \<and> a \<notin> x_revoked (l_ix L))
              (dict_list (x_ingest (l_ix L)) key))))"

section \<open>Metadata rows and events\<close>

definition row_meta :: "cmeta_row \<Rightarrow> meta_row res" where
  "row_meta r =
     bindE (decode_meta_value (cm_kind r) (cm_value r)) (\<lambda>v.
       Ok \<lparr>m_asrt = cm_asrt r, m_key = cm_key r, m_kind = (case cm_kind r of Some k \<Rightarrow> k | None \<Rightarrow> []),
           m_value = v\<rparr>)"

definition projected_meta_rows_from_sql :: "ledger \<Rightarrow> meta_row list res" where
  "projected_meta_rows_from_sql L =
     mapE row_meta
       (filter (\<lambda>r. \<not> is_reserved_annotation_meta_key (cm_key r))
         (event_order (filter (\<lambda>r. cm_kind r \<noteq> None) (d_cmeta (l_db L)))))"

definition find_meta :: "ledger \<Rightarrow> ustr option \<Rightarrow> meta_key option \<Rightarrow> ustr option \<Rightarrow> meta_row list res" where
  "find_meta L asrt_id key kind =
     bindE (ensure_open L) (\<lambda>_.
       if l_lazy L \<noteq> [] then
         bindE (projected_meta_rows_from_sql L) (\<lambda>rows.
           Ok (filter (\<lambda>r. opt_ok kind (m_kind r))
                (filter (\<lambda>r. opt_ok key (m_key r)) (filter (\<lambda>r. opt_ok asrt_id (m_asrt r)) rows))))
       else
        (let ix = l_ix L in Ok (case asrt_id of
           Some a \<Rightarrow>
             (case (key, kind) of
                (Some k, Some kd) \<Rightarrow> dict_list (x_meta_by_asrt_key_kind ix) (a, k, kd)
              | (Some k, None) \<Rightarrow> dict_list (x_meta_by_asrt_key ix) (a, k)
              | (None, _) \<Rightarrow> filter (\<lambda>r. opt_ok kind (m_kind r)) (dict_list (x_meta_by_asrt ix) a))
         | None \<Rightarrow>
             (case key of
                Some k \<Rightarrow> filter (\<lambda>r. opt_ok kind (m_kind r)) (dict_list (x_meta_by_key ix) k)
              | None \<Rightarrow> (case kind of
                    Some kd \<Rightarrow> dict_list (x_meta_by_kind ix) kd | None \<Rightarrow> x_meta ix)))))"

definition lazy_meta_events :: "ledger \<Rightarrow> ustr option \<Rightarrow> meta_key option \<Rightarrow> meta_event list res" where
  "lazy_meta_events L asrt_id key =
     mapE event_of_row
       (event_order (filter (\<lambda>r. is_lazy (l_lazy L) (cm_key r) \<and> opt_ok key (cm_key r) \<and>
                                 opt_ok asrt_id (cm_asrt r)) (d_cmeta (l_db L))))"

definition meta_history_events :: "ledger \<Rightarrow> ustr option \<Rightarrow> meta_key option \<Rightarrow> meta_event list res" where
  "meta_history_events L asrt_id key =
     bindE (ensure_open L) (\<lambda>_.
       (let ix = l_ix L;
            eager = (case (asrt_id, key) of
                (Some a, Some k) \<Rightarrow> dict_list (x_events_by_asrt_key ix) (a, k)
              | (Some a, None) \<Rightarrow> dict_list (x_events_by_asrt ix) a
              | (None, Some k) \<Rightarrow> filter (\<lambda>e. e_key e = k) (x_events ix)
              | (None, None) \<Rightarrow> x_events ix)
        in bindE (lazy_meta_events L asrt_id key) (\<lambda>lazy.
             Ok (sort_key claim_meta_event_sort_key (eager @ lazy)))))"

definition after_boundary :: "(nat \<times> nat) option \<Rightarrow> nat \<times> nat \<Rightarrow> bool" where
  "after_boundary boundary position \<longleftrightarrow> (case boundary of None \<Rightarrow> False | Some b \<Rightarrow> b < position)"

definition latest_events :: "(nat \<times> nat) option \<Rightarrow> meta_event list \<Rightarrow> (ustr \<times> meta_key, meta_event) dict" where
  "latest_events boundary history =
     foldl (\<lambda>newest e. if after_boundary boundary (event_seq e) then newest
                       else dict_set (e_asrt e, e_key e) e newest) [] history"

definition default_event :: "ustr \<Rightarrow> nat \<Rightarrow> nat \<Rightarrow> tx_meta_default \<Rightarrow> meta_event" where
  "default_event a tx op d =
     \<lparr>e_asrt = a, e_key = t_key d, e_kind = Some (t_kind d), e_value = t_value d, e_tx = tx, e_op = op\<rparr>"

definition inherited_events ::
  "ledger_index \<Rightarrow> (ustr \<times> meta_key, meta_event) dict \<Rightarrow> (nat \<times> nat) option \<Rightarrow> meta_key option \<Rightarrow>
   ustr option \<Rightarrow> ustr \<Rightarrow> meta_event list" where
  "inherited_events ix newest boundary key kind a =
     (case (dict_get (x_tx_refs ix) a, dict_get (x_op_ordinals ix) a) of
        (Some tx, Some op) \<Rightarrow>
          if after_boundary boundary (tx, op) then []
          else
           (let defaults = (case dict_get (x_tx_defaults ix) tx of None \<Rightarrow> [] | Some d \<Rightarrow> d);
                inherited = (case key of
                    Some k \<Rightarrow> (case dict_get defaults k of None \<Rightarrow> [] | Some d \<Rightarrow> [d])
                  | None \<Rightarrow> map snd defaults)
            in map (default_event a tx op)
                 (filter (\<lambda>d. dict_get newest (a, t_key d) = None \<and> opt_ok kind (t_kind d)) inherited))
      | _ \<Rightarrow> [])"

definition effective_meta_events ::
  "ledger \<Rightarrow> ustr option \<Rightarrow> meta_key option \<Rightarrow> ustr option \<Rightarrow> (nat \<times> nat) option \<Rightarrow> meta_event list res" where
  "effective_meta_events L asrt_id key kind as_of =
     bindE (meta_history_events L asrt_id key) (\<lambda>history.
       (let newest = latest_events as_of history;
            rows = filter (\<lambda>e. \<not> is_unset e \<and> (case kind of None \<Rightarrow> True | Some k \<Rightarrow> e_kind e = Some k))
                     (map snd newest);
            candidate_ids = (case asrt_id of Some a \<Rightarrow> [a] | None \<Rightarrow> map fst (x_tx_refs (l_ix L)));
            inherited = concat (map (inherited_events (l_ix L) newest as_of key kind) candidate_ids)
        in Ok (sort_key claim_meta_event_sort_key (rows @ inherited))))"

definition event_meta_row :: "meta_event \<Rightarrow> meta_row" where
  "event_meta_row e =
     \<lparr>m_asrt = e_asrt e, m_key = e_key e,
      m_kind = (case e_kind e of Some k \<Rightarrow> k | None \<Rightarrow> u ''None''), m_value = e_value e\<rparr>"

definition effective_meta_rows ::
  "ledger \<Rightarrow> ustr option \<Rightarrow> meta_key option \<Rightarrow> ustr option \<Rightarrow> (nat \<times> nat) option \<Rightarrow> meta_row list res" where
  "effective_meta_rows L asrt_id key kind as_of =
     bindE (effective_meta_events L asrt_id key kind as_of) (\<lambda>es. Ok (map event_meta_row es))"

section \<open>Positions\<close>

definition max_position :: "(nat \<times> nat) list \<Rightarrow> (nat \<times> nat) option" where
  "max_position ps = (if ps = [] then None else Some (fold max ps (0, 0)))"

definition latest_meta_event_sequence :: "ledger \<Rightarrow> (nat \<times> nat) option res" where
  "latest_meta_event_sequence L =
     bindE (ensure_open L) (\<lambda>_.
       Ok (max_position (map event_seq (x_events (l_ix L)) @
             map (\<lambda>r. (cm_tx r, cm_op r))
               (filter (\<lambda>r. is_lazy (l_lazy L) (cm_key r)) (d_cmeta (l_db L))))))"

definition claim_positions :: "ledger_index \<Rightarrow> (nat \<times> nat) list" where
  "claim_positions ix =
     List.map_filter (\<lambda>(a, tx). map_option (\<lambda>op. (tx, op)) (dict_get (x_op_ordinals ix) a)) (x_tx_refs ix)"

definition latest_event_sequence :: "ledger \<Rightarrow> (nat \<times> nat) option res" where
  "latest_event_sequence L =
     bindE (ensure_open L) (\<lambda>_.
       (let positions = claim_positions (l_ix L) @ map event_seq (x_events (l_ix L))
        in case parse_head_tx_seq (d_meta (l_db L)) of
             Inr head_tx_seq \<Rightarrow>
               (let ordinals = map snd (filter (\<lambda>p. fst p = head_tx_seq) positions) @
                      map cm_op (filter (\<lambda>r. cm_tx r = head_tx_seq) (d_cmeta (l_db L)))
                in Ok (Some (head_tx_seq, fold max ordinals 0)))
           | Inl e \<Rightarrow> if e = NotModelled then Err NotModelled else Ok (max_position positions)))"

section \<open>Annotations\<close>

text \<open>
  With lazy keys annotations come from SQL.  The query for the identity positions has no
  \<open>ORDER BY\<close>: \<open>scan\<close> is the order in which SQLite returns its rows.
\<close>

definition project_sql_annotation ::
  "ledger_index \<Rightarrow> (ustr, nat \<times> nat) dict \<Rightarrow> cmeta_row \<Rightarrow> annotation_row option res" where
  "project_sql_annotation ix identity_positions r =
     bindE (row_meta r) (\<lambda>m.
       if is_reserved_annotation_meta_key (cm_key r) then
         bindE (annotation_from_storage_key (m_asrt m) (m_key m) (m_kind m) (m_value m)) (\<lambda>a. Ok (Some a))
       else
        (let is_initial = (case dict_get identity_positions (cm_asrt r) of
                Some p \<Rightarrow> (cm_tx r, cm_op r) = p
              | None \<Rightarrow> dict_get (x_tx_refs ix) (cm_asrt r) = Some (cm_tx r) \<and>
                        dict_get (x_op_ordinals ix) (cm_asrt r) = Some (cm_op r))
         in Ok (if is_initial then initial_meta_annotation_row m else None)))"

definition put_annotation ::
  "annotation_row list \<times> (anno_identity, annotation_row) dict \<Rightarrow> annotation_row \<Rightarrow>
   annotation_row list \<times> (anno_identity, annotation_row) dict" where
  "put_annotation st a = (case st of (rows, by_identity) \<Rightarrow>
     ((case dict_get by_identity (anno_id a) of None \<Rightarrow> rows | Some previous \<Rightarrow> remove1 previous rows) @ [a],
      dict_set (anno_id a) a by_identity))"

definition projected_annotation_rows_from_sql ::
  "(cmeta_row list \<Rightarrow> cmeta_row list) \<Rightarrow> ledger \<Rightarrow> annotation_row list res" where
  "projected_annotation_rows_from_sql scan L =
     (let identity_positions =
            foldl (\<lambda>d r. dict_set (cm_asrt r) (cm_tx r, cm_op r) d) []
              (scan (filter is_identity_row (d_cmeta (l_db L))))
      in bindE (mapE (project_sql_annotation (l_ix L) identity_positions)
                  (event_order (filter (\<lambda>r. cm_kind r \<noteq> None) (d_cmeta (l_db L)))))
           (\<lambda>as. Ok (fst (foldl put_annotation ([], []) (List.map_filter id as)))))"

definition find_annotations ::
  "(cmeta_row list \<Rightarrow> cmeta_row list) \<Rightarrow> ledger \<Rightarrow> ustr option \<Rightarrow> ustr option \<Rightarrow> ustr option \<Rightarrow>
   ustr option \<Rightarrow> annotation_row list res" where
  "find_annotations scan L asrt_id namespace category key =
     bindE (ensure_open L) (\<lambda>_.
     bindE (if l_lazy L \<noteq> [] then projected_annotation_rows_from_sql scan L
            else Ok (case asrt_id of
                Some a \<Rightarrow> dict_list (x_anno_by_asrt (l_ix L)) a
              | None \<Rightarrow> (case (namespace, category) of
                    (Some n, Some c) \<Rightarrow> dict_list (x_anno_by_ns_cat (l_ix L)) (n, c)
                  | _ \<Rightarrow> (case key of
                        Some k \<Rightarrow> dict_list (x_anno_by_key (l_ix L)) k
                      | None \<Rightarrow> x_anno (l_ix L))))) (\<lambda>rows.
       Ok (filter (\<lambda>r. opt_ok asrt_id (a_asrt r) \<and> opt_ok namespace (a_ns r) \<and>
                       opt_ok category (a_cat r) \<and> opt_ok key (a_key r)) rows)))"

end
