(* ===== verification/Ledger_Steps.thy ===== *)
theory Ledger_Steps
  imports Ledger_Query
begin

text \<open>
  Histories of a ledger: a step is one write operation, successful or not; a ledger is
  reachable when it was opened from any tables and then driven by steps.  Every reachable
  ledger has coherent indexes, and no step rewrites the claims.
\<close>

section \<open>Steps\<close>

inductive ledger_step :: "ledger \<Rightarrow> ledger \<Rightarrow> bool" where
  step_append_assertion: "ledger_step L (fst (append_assertion fresh claim args meta anno idem asrt_id L))"
| step_append_revocation: "ledger_step L (fst (append_revocation fresh revokes meta idem revoker L))"
| step_append_claim: "ledger_step L (fst (append_claim claim L))"
| step_append_claim_args: "ledger_step L (fst (append_claim_args rows L))"
| step_append_meta: "ledger_step L (fst (append_meta None mrows L))"
| step_append_annotations: "ledger_step L (fst (append_annotations None arows L))"
| step_append_revokes: "ledger_step L (fst (append_revokes row L))"
| step_commit_batch:
    "ledger_step L (fst (commit_batch assertions revocations expected_head head metadata meta_appends L))"
| step_set_meta: "ledger_step L (fst (set_ledger_meta key value L))"
| step_replace_meta: "ledger_step L (fst (replace_ledger_meta key value L))"
| step_force_replace: "ledger_step L (fst (force_replace_meta_rows mrows L))"
| step_replace_defaults: "ledger_step L (fst (replace_tx_meta_defaults defaults L))"
| step_record_defaults: "ledger_step L (fst (record_tx_meta_defaults defaults L))"
| step_configure: "ledger_step L (fst (configure_meta_load_policy lazy_keys L))"
| step_close: "ledger_step L (close_ledger L)"

inductive reachable :: "ledger \<Rightarrow> bool" where
  opened: "open_ledger tables db = Inr L \<Longrightarrow> reachable L"
| stepped: "reachable L \<Longrightarrow> ledger_step L L' \<Longrightarrow> reachable L'"

section \<open>Indexes stay coherent\<close>

lemmas ix_thenS = thenS_invariant [where P = ix_ok]
lemmas ix_foldS = foldS_invariant [where P = ix_ok]
lemmas ledger_thenS = thenS_invariant [where P = "\<lambda>L. ix_ok (l_ix L)"]

abbreviation hook_ok :: "(ledger_index \<Rightarrow> idx_res) \<Rightarrow> bool" where
  "hook_ok h \<equiv> \<forall>ix. ix_ok ix \<longrightarrow> ix_ok (fst (h ix))"

lemma write_session_cases:
  obtains (failed) e where "write_session L body = (L, Inl e)"
  | (committed) db hook where "body = Inr (db, hook)" "\<not> l_closed L"
      "write_session L body = (L\<lparr>l_db := db, l_ix := fst (hook (l_ix L))\<rparr>, snd (hook (l_ix L)))"
proof (cases "bindE (ensure_open L) (\<lambda>_. body)")
  case (Inl e)
  then show ?thesis using failed by (simp add: write_session_def)
next
  case (Inr p)
  obtain db hook where p: "p = (db, hook)" by (cases p)
  from Inr have b: "body = Inr (db, hook)" "\<not> l_closed L"
    by (auto simp: p ensure_open_def err_simps split: if_splits)
  then show ?thesis
    using committed Inr p by (simp add: write_session_def case_prod_beta Let_def)
qed

lemma write_session_ix_ok:
  assumes "ix_ok (l_ix L)" "\<And>db hook. body = Inr (db, hook) \<Longrightarrow> hook_ok hook"
  shows "ix_ok (l_ix (fst (write_session L body)))"
  using assms by (cases rule: write_session_cases [of L body]) auto

lemma hook_compatibility: "hook_ok (idx_add_compatibility lazy anno skip tx op)"
  by (auto simp: idx_add_compatibility_def ix_ok_intros split: sum.splits)

lemma hook_initial: "hook_ok (idx_add_initial lazy meta anno tx op)"
  by (auto simp: idx_add_initial_def Let_def ix_ok_intros hook_compatibility intro!: ix_thenS)

lemma hook_claim: "hook_ok (apply_claim_index claim tx op)"
  by (simp add: apply_claim_index_def ix_ok_intros)

lemma hook_assertion: "hook_ok (apply_assertion_indexes lazy claim meta anno tx op)"
  by (auto simp: apply_assertion_indexes_def hook_claim hook_initial intro!: ix_thenS)

lemma hook_revoke: "hook_ok (apply_revoke_claim claim r tx op)"
  by (auto simp: apply_revoke_claim_def ix_ok_intros intro!: ix_thenS)

lemma hook_revocation: "hook_ok (apply_revocation_indexes lazy claim r meta anno tx)"
  by (auto simp: apply_revocation_indexes_def hook_revoke ix_ok_intros Let_def intro!: ix_thenS)

lemma hook_batch: "hook_ok (apply_batch_indexes lazy assertions revocations appends tx)"
proof (intro allI impI)
  fix ix assume ok: "ix_ok ix"
  have a: "ix_ok (fst (idx_add_assertion_write lazy tx s p))" if "ix_ok s" for s p
    using that by (cases p) (simp add: idx_add_assertion_write_def hook_assertion)
  have r: "ix_ok (fst (idx_add_revocation_write lazy assertions tx s p))" if "ix_ok s" for s p
    using that by (cases p) (auto simp: idx_add_revocation_write_def hook_revoke hook_initial
        intro!: ix_thenS split: option.splits)
  have m: "ix_ok (fst (idx_add_meta_append lazy tx s p))" if "ix_ok s" for s p
    using that by (cases p)
      (auto simp: idx_add_meta_append_def Let_def ix_ok_intros split: meta_append.splits bool.splits sum.splits)
  show "ix_ok (fst (apply_batch_indexes lazy assertions revocations appends tx ix))"
    unfolding apply_batch_indexes_def
    by (intro ix_thenS ix_foldS ok a r m)
qed

lemma ix_ok_load_claim: "ix_ok (fst st) \<Longrightarrow> ix_ok (fst (fst (load_claim st row)))"
proof -
  assume ok: "ix_ok (fst st)"
  have h: "ix_ok (fst (load_claim_index c tx ix))" if "ix_ok ix" for c tx ix
    using that by (auto simp: load_claim_index_def ix_ok_intros intro!: ix_thenS split: sum.splits)
  from ok show ?thesis
    by (cases st) (auto simp: load_claim_def Let_def case_prod_beta h split: sum.splits)
qed

lemma ix_ok_load_meta: "ix_ok (fst st) \<Longrightarrow> ix_ok (fst (fst (load_meta_row lazy marked st row)))"
  by (cases st)
    (auto simp: load_meta_row_def Let_def ix_ok_intros split: sum.splits option.splits)

lemma ix_ok_load: "ix_ok (fst (load_from_db lazy db))"
proof -
  let ?p = "foldS load_claim (reset_indexes, [], - 1) (d_claims db)"
  have "ix_ok (fst (fst ?p))"
    by (rule foldS_invariant [where P = "\<lambda>s. ix_ok (fst s)"]) (auto intro: ix_ok_load_claim)
  moreover have "ix_ok (fst (fst (foldS (load_meta_row lazy marked) (ix, {}) rows)))" if "ix_ok ix" for ix marked rows
    by (rule foldS_invariant [where P = "\<lambda>s. ix_ok (fst s)"]) (auto intro: ix_ok_load_meta that)
  ultimately show ?thesis
    unfolding load_from_db_def case_prod_beta Let_def by (intro ix_thenS) auto
qed

lemma ix_ok_open: "open_ledger tables db = Inr L \<Longrightarrow> ix_ok (l_ix L)"
proof -
  assume "open_ledger tables db = Inr L"
  then obtain db' where "(case load_from_db [] db' of (_, Inl e) \<Rightarrow> Inl e
      | (ix, Inr _) \<Rightarrow> Inr \<lparr>l_db = db', l_ix = ix, l_lazy = [], l_closed = False\<rparr>) = Inr L"
    by (auto simp: open_ledger_def bindE_Inr_iff)
  then have "l_ix L = fst (load_from_db [] db')"
    by (cases "load_from_db [] db'"; cases "snd (load_from_db [] db')") auto
  then show ?thesis by (simp add: ix_ok_load)
qed

lemma ix_ok_reload: "ix_ok (l_ix (fst (reload L)))"
  by (simp add: reload_def case_prod_beta Let_def ix_ok_load)

lemma defaults_ok_fold: "foldE add_tx_default [] rows = Inr d \<Longrightarrow> defaults_ok d"
proof (erule foldE_invariant [where P = defaults_ok])
  show "defaults_ok []" by (simp add: defaults_ok_def)
  show "defaults_ok b" if "defaults_ok a" "add_tx_default a x = Inr b" for a x b
    using that by (auto simp: add_tx_default_def defaults_ok_def Let_def split: if_splits option.splits)
qed

lemma ix_ok_defaults: "ix_ok (l_ix L) \<Longrightarrow> ix_ok (l_ix (fst (replace_tx_meta_defaults rows L)))"
  by (auto simp: replace_tx_meta_defaults_def err_simps dest: defaults_ok_fold split: sum.splits)

lemma ix_ok_step: "ledger_step L L' \<Longrightarrow> ix_ok (l_ix L) \<Longrightarrow> ix_ok (l_ix L')"
proof (induction rule: ledger_step.induct)
  case (step_append_assertion L fresh claim args meta anno idem asrt_id)
  have "ix_ok (l_ix (fst (write_assertion L c m a)))" for c m a
    unfolding write_assertion_def Let_def using step_append_assertion
    by (intro write_session_ix_ok) (auto simp: err_simps hook_assertion split: if_splits)
  with step_append_assertion show ?case
    by (auto simp: append_assertion_def intro!: ledger_thenS split: sum.splits)
next
  case (step_append_revocation L fresh revokes meta idem revoker)
  have "ix_ok (l_ix (fst (write_revocation L r m a)))" for r m a
    unfolding write_revocation_def Let_def using step_append_revocation
    by (intro write_session_ix_ok) (auto simp: err_simps hook_revocation split: option.splits)
  with step_append_revocation show ?case
    by (auto simp: append_revocation_def Let_def intro!: ledger_thenS split: sum.splits)
next
  case (step_append_claim L claim)
  then show ?case
    by (auto simp: append_claim_def Let_def hook_claim err_simps split: sum.splits intro!: write_session_ix_ok)
next
  case (step_append_claim_args L rows)
  then show ?case by (simp add: append_claim_args_def)
next
  case (step_append_meta L mrows)
  have "ix_ok (fold (\<lambda>(op, row). idx_add_claim_meta_events lazy [MRow False row] tx op True) xs ix)"
    if "ix_ok ix" for lazy tx xs ix
    by (rule fold_invariant [where Q = "\<lambda>_. True"]) (auto intro: that ix_ok_intros)
  with step_append_meta show ?case
    by (auto simp: append_meta_def Let_def err_simps split: sum.splits intro!: write_session_ix_ok)
next
  case (step_append_annotations L arows)
  have "ix_ok (fst (thenS (foldS (\<lambda>ix (op, row). idx_add_compatibility lazy [row] [] tx op ix) ix xs)
      (\<lambda>ix _. (idx_add_annotation lazy arows ix, Inr ()))))" if "ix_ok ix" for lazy tx xs ix
    by (intro ix_thenS ix_foldS that)
      (auto intro: ix_ok_intros simp: hook_compatibility split: prod.splits)
  with step_append_annotations show ?case
    by (auto simp: append_annotations_def Let_def err_simps split: sum.splits intro!: write_session_ix_ok)
next
  case (step_append_revokes L row)
  then show ?case
    by (auto simp: append_revokes_def Let_def hook_revoke err_simps split: sum.splits option.splits
        intro!: write_session_ix_ok)
next
  case (step_commit_batch L assertions revocations expected_head head metadata meta_appends)
  then show ?case
    by (auto simp: commit_batch_def Let_def hook_batch err_simps split: sum.splits intro!: write_session_ix_ok)
next
  case (step_set_meta L key v)
  then show ?case by (auto simp: set_ledger_meta_def keep_index_def intro!: write_session_ix_ok)
next
  case (step_replace_meta L key v)
  then show ?case by (auto simp: replace_ledger_meta_def keep_index_def intro!: write_session_ix_ok)
next
  case (step_force_replace L mrows)
  then show ?case
    by (auto simp: force_replace_meta_rows_def Let_def err_simps ix_ok_load split: sum.splits
        intro!: write_session_ix_ok)
next
  case (step_replace_defaults L defaults)
  then show ?case by (rule ix_ok_defaults)
next
  case (step_record_defaults L defaults)
  then show ?case by (auto simp: record_tx_meta_defaults_def ix_ok_defaults split: sum.splits)
next
  case (step_configure L lazy_keys)
  have "ix_ok (l_ix (fst (thenS (reload K) (\<lambda>L' _. replace_tx_meta_defaults d L'))))" for K d
    by (intro thenS_invariant [where P = "\<lambda>L. ix_ok (l_ix L)"] ix_ok_reload ix_ok_defaults)
  with step_configure show ?case
    by (auto simp: configure_meta_load_policy_def split: sum.splits)
next
  case (step_close L)
  then show ?case by (simp add: close_ledger_def)
qed

lemma reachable_ix_ok: "reachable L \<Longrightarrow> ix_ok (l_ix L)"
  by (induction rule: reachable.induct) (auto intro: ix_ok_open ix_ok_step)

end
