(* ===== verification/Ledger_Roundtrip.thy ===== *)
theory Ledger_Roundtrip
  imports Ledger_Steps
begin

text \<open>
  The columns are read back as they were written: the columns of a claim with valid terms
  decode to terms with the same claim arguments that encode to the same columns, and a
  metadata value decodes to a value with the same encoding, unless it is a JSON document that
  uses the reserved bytes marker.
\<close>

section \<open>Claims\<close>

lemma val_atom_scalar:
  assumes "val_atom_for_claim_arg t v = Inr a"
  shows "(\<exists>s. v = PStr s) \<or> (\<exists>i. v = PInt i) \<or> (\<exists>w. v = PFloat w) \<or> (\<exists>b. v = PBool b) \<or>
     (\<exists>k b. v = PBytes k b)"
  using assms
  by (cases v)
    (auto simp: val_atom_for_claim_arg_def encode_entity_ref_def encode_string_def require_int64_def
      float64_bits_def to_raw_bytes_def split: if_splits)

lemma val_atom_bytes_kind: "val_atom_for_claim_arg t (PBytes k b) = val_atom_for_claim_arg t (PBytes k' b)"
  by (simp add: val_atom_for_claim_arg_def encode_entity_ref_def encode_string_def require_int64_def
      float64_bits_def to_raw_bytes_def)

text \<open>What the JSON carrier makes of a term with a valid claim argument.\<close>

lemma json_term:
  assumes "val_atom_for_claim_arg t v = Inr a"
  shows "\<exists>w v'. to_jsonable v = Inr w \<and> from_jsonable w = Inr v' \<and> to_jsonable v' = Inr w \<and>
     val_atom_for_claim_arg t v' = Inr a"
  using val_atom_scalar [OF assms] assms
proof (elim disjE exE, goal_cases)
  case (5 k b)
  let ?w = "PDict [(PStr JSON_BYTES_KEY, PStr (b64_encode b))]"
  have "to_jsonable v = Inr ?w" "from_jsonable ?w = Inr (PBytes BBytes b)" "to_jsonable (PBytes BBytes b) = Inr ?w"
    using 5 by (simp_all add: py_b64decode_def)
  moreover have "val_atom_for_claim_arg t (PBytes BBytes b) = Inr a"
    using 5 val_atom_bytes_kind by metis
  ultimately show ?case by blast
qed simp_all

lemma enc_dec_terms:
  assumes "mapE claim_arg_item terms = Inr ats"
  shows "\<exists>rest terms'. enc_rest_terms terms = Inr rest \<and> dec_rest_terms rest = Inr terms' \<and>
     enc_rest_terms terms' = Inr rest \<and> mapE claim_arg_item terms' = Inr ats \<and>
     mapE normalize_term terms' = Inr terms'"
  using assms
proof (induction terms arbitrary: ats)
  case Nil
  then show ?case by (simp add: enc_rest_terms_def dec_rest_terms_def)
next
  case (Cons x xs)
  from Cons.prems obtain a t as where x: "claim_arg_item x = Inr (a, t)"
    and xs: "mapE claim_arg_item xs = Inr as" and ats: "ats = (a, t) # as"
    by (auto simp: err_simps)
  from Cons.IH [OF xs] obtain rest terms' where ih: "enc_rest_terms xs = Inr rest"
    "dec_rest_terms rest = Inr terms'" "enc_rest_terms terms' = Inr rest"
    "mapE claim_arg_item terms' = Inr as" "mapE normalize_term terms' = Inr terms'" by blast
  from claim_arg_item_Ok [OF x] obtain v where v: "x = PTuple [PStr t, v]"
    "normalize_tag (PStr t) = Inr t" "val_atom_for_claim_arg t v = Inr a" by blast
  from json_term [OF v(3)] obtain w v' where w: "to_jsonable v = Inr w" "from_jsonable w = Inr v'"
    "to_jsonable v' = Inr w" "val_atom_for_claim_arg t v' = Inr a" by blast
  from v(2) have "t \<noteq> []" by (auto simp: normalize_tag_Ok)
  then have "enc_rest_terms (x # xs) = Inr (PList [PStr t, w] # rest) \<and>
      dec_rest_terms (PList [PStr t, w] # rest) = Inr (PTuple [PStr t, v'] # terms') \<and>
      enc_rest_terms (PTuple [PStr t, v'] # terms') = Inr (PList [PStr t, w] # rest) \<and>
      mapE claim_arg_item (PTuple [PStr t, v'] # terms') = Inr ats \<and>
      mapE normalize_term (PTuple [PStr t, v'] # terms') = Inr (PTuple [PStr t, v'] # terms')"
    using ih v(1,2) w ats
    by (simp add: enc_rest_terms_def dec_rest_terms_def claim_arg_item_def normalize_term_def)
  then show ?case by blast
qed

lemma normalize_terms_id: "mapE normalize_term ts = Inr ns \<Longrightarrow> ns = ts"
proof (induction ts arbitrary: ns)
  case (Cons t ts)
  then obtain n ns' where n: "normalize_term t = Inr n" "mapE normalize_term ts = Inr ns'" "ns = n # ns'"
    by (auto simp: err_simps)
  moreover from n(1) have "n = t"
    by (auto simp: normalize_term_def split: pyval.splits list.splits if_splits)
  ultimately show ?case using Cons.IH by simp
qed simp

lemma claim_args_normalizes:
  "claim_args_from_rest_terms ts = Inr rows \<Longrightarrow> mapE normalize_term ts = Inr ts"
proof -
  assume "claim_args_from_rest_terms ts = Inr rows"
  then obtain ats where "mapE claim_arg_item ts = Inr ats" by (auto simp: claim_args_eq err_simps)
  then show ?thesis
  proof (induction ts arbitrary: ats)
    case (Cons t ts)
    then obtain a g as where "claim_arg_item t = Inr (a, g)" "mapE claim_arg_item ts = Inr as"
      by (auto simp: err_simps)
    moreover from claim_arg_item_Ok [OF this(1)] have "normalize_term t = Inr t"
      by (auto simp: normalize_term_def normalize_tag_Ok)
    ultimately show ?case using Cons.IH by simp
  qed simp
qed

lemma encode_claim_value_cong:
  assumes "claim_args_from_rest_terms ts = claim_args_from_rest_terms ts'"
    and "length ts = length ts'"
  shows "encode_claim_value ts = encode_claim_value ts'"
proof -
  have "ts = [] \<longleftrightarrow> ts' = []" using assms(2) by auto
  then show ?thesis unfolding encode_claim_value_def assms by simp
qed

lemma decode_claim_value_length:
  "decode_claim_value v t = Inr ts \<Longrightarrow> length ts = (if v = None then 0 else 1)"
  by (auto simp: decode_claim_value_def err_simps split: option.splits)

lemma encode_claim_value_length:
  assumes "encode_claim_value ts = Inr (v, t)"
  shows "length ts = (if v = None then 0 else 1)"
proof (cases "ts = []")
  case True
  with assms show ?thesis by (simp add: encode_claim_value_def)
next
  case False
  with assms have l: "length ts = 1" by (simp add: encode_claim_value_def split: if_splits)
  from assms False l obtain rows where rows: "claim_args_from_rest_terms ts = Inr rows"
    by (cases "claim_args_from_rest_terms ts") (auto simp: encode_claim_value_def)
  have "v \<noteq> None"
  proof (cases rows)
    case Nil
    with assms False l rows show ?thesis by (simp add: encode_claim_value_def)
  next
    case (Cons p ps)
    obtain idx val tag where "p = (idx, val, tag)" by (cases p)
    with assms False l rows Cons show ?thesis
      by (auto simp: encode_claim_value_def split: if_split_asm pyval.splits)
  qed
  with l show ?thesis by simp
qed

lemma claim_columns_roundtrip:
  assumes "claim_columns c = Inr (rest, v, t)"
    and "claim_args_from_rest_terms (c_terms c) = Inr rows"
  shows "\<exists>terms. decode_claim_terms rest v t = Inr terms \<and>
     claim_args_from_rest_terms terms = Inr rows \<and>
     claim_columns (c\<lparr>c_terms := terms\<rparr>) = Inr (rest, v, t)"
proof (cases "length (c_terms c) \<le> 1")
  case True
  have n: "mapE normalize_term (c_terms c) = Inr (c_terms c)"
    by (rule claim_args_normalizes [OF assms(2)])
  with assms(1) True have e: "encode_claim_value (c_terms c) = Inr (v, t)" "rest = Some []"
    by (auto simp: claim_columns_def enc_rest_terms_def err_simps)
  from claim_value_roundtrip [OF e(1)] obtain terms where d: "decode_claim_value v t = Inr terms"
    "claim_args_from_rest_terms terms = Inr rows" using assms(2) by auto
  have len: "length terms = length (c_terms c)"
    using decode_claim_value_length [OF d(1)] encode_claim_value_length [OF e(1)] by simp
  then have "encode_claim_value terms = Inr (v, t)"
    using encode_claim_value_cong [of terms "c_terms c"] d(2) assms(2) e(1) by simp
  then have "claim_columns (c\<lparr>c_terms := terms\<rparr>) = Inr (rest, v, t)"
    using claim_args_normalizes [OF d(2)] len True e(2) by (simp add: claim_columns_def enc_rest_terms_def)
  moreover have "decode_claim_terms rest v t = Inr terms"
    using d(1) e(2) by (simp add: decode_claim_terms_def dec_rest_terms_def)
  ultimately show ?thesis using d(2) by blast
next
  case False
  from assms(2) obtain ats where ats: "mapE claim_arg_item (c_terms c) = Inr ats" "rows = enumerate 0 ats"
    by (auto simp: claim_args_eq err_simps)
  from enc_dec_terms [OF ats(1)] obtain raw terms where r: "enc_rest_terms (c_terms c) = Inr raw"
    "dec_rest_terms raw = Inr terms" "enc_rest_terms terms = Inr raw"
    "mapE claim_arg_item terms = Inr ats" "mapE normalize_term terms = Inr terms" by blast
  have n: "mapE normalize_term (c_terms c) = Inr (c_terms c)"
    by (rule claim_args_normalizes [OF assms(2)])
  with assms(1) False r have cols: "rest = Some raw" "v = None" "t = None"
    by (auto simp: claim_columns_def err_simps)
  have args: "claim_args_from_rest_terms terms = Inr rows"
    using r(4) ats(2) by (simp add: claim_args_eq)
  have "length terms = length (c_terms c)"
    using r(4) ats(1) by (auto simp: mapE_Inr_iff dest!: list_all2_lengthD)
  with False have len: "\<not> length terms \<le> 1" "terms \<noteq> []" by auto
  then have "claim_columns (c\<lparr>c_terms := terms\<rparr>) = Inr (rest, v, t)"
    using r cols by (simp add: claim_columns_def)
  moreover have "decode_claim_terms rest v t = Inr terms"
    using r args cols len by (simp add: decode_claim_terms_def)
  ultimately show ?thesis using args by blast
qed

section \<open>Metadata values\<close>

text \<open>The code reads the cell back as a value with the same encoding.\<close>

definition cell_stable :: "ustr \<Rightarrow> sql_text \<Rightarrow> bool" where
  "cell_stable kind cell \<longleftrightarrow>
     (\<exists>v. decode_meta_value (Some kind) (Some cell) = Inr v \<and> encode_meta_value kind v = Inr cell)"

text \<open>A JSON document without the marker of bytes (and without NaN, which is not stored).\<close>

fun no_marker :: "pyval \<Rightarrow> bool" where
  "no_marker (PDict d) = ((case d of [(PStr k, PStr _)] \<Rightarrow> k \<noteq> JSON_BYTES_KEY | _ \<Rightarrow> True) \<and>
     list_all (\<lambda>(k, v). no_marker v) d)"
| "no_marker (PList vs) = list_all no_marker vs"
| "no_marker _ = True"

lemma float_of_int_bounds:
  assumes "float_of_int i = Inr n"
  shows "float64_finite n \<and> n < 2 ^ 64"
proof (cases "nat \<bar>i\<bar> = 0")
  case True
  then show ?thesis using assms by (simp add: float_of_int_def float64_finite_def)
next
  case False
  define m where "m = nat \<bar>i\<bar>"
  define e where "e = log2_floor m"
  have log: "0 < k \<Longrightarrow> 2 ^ log2_floor k \<le> k \<and> k < 2 ^ Suc (log2_floor k)" for k :: nat
  proof (induction k rule: log2_floor.induct)
    case (1 n)
    show ?case
    proof (cases "n < 2")
      case True
      with 1 have "n = 1" by simp
      then show ?thesis by (simp add: log2_floor.simps)
    next
      case False
      then have "0 < n div 2" by simp
      with 1 False have "2 ^ log2_floor (n div 2) \<le> n div 2 \<and> n div 2 < 2 ^ Suc (log2_floor (n div 2))"
        by blast
      moreover have "log2_floor n = Suc (log2_floor (n div 2))"
        using False by (subst log2_floor.simps) simp
      ultimately show ?thesis by (simp only: power_Suc) linarith
    qed
  qed
  have m: "0 < m" "m < 2 ^ 53"
    using False assms by (auto simp: m_def float_of_int_def Let_def split: if_splits)
  from log [OF m(1)] have le: "2 ^ e \<le> m" "m < 2 ^ Suc e" by (auto simp: e_def)
  with m(2) have "(2::nat) ^ e < 2 ^ 53" by linarith
  then have e: "e < 53" by (rule power_less_imp_less_exp [rotated]) simp
  have p: "(2::nat) ^ e * 2 ^ (52 - e) = 2 ^ 52" using e by (simp flip: power_add)
  have lo: "2 ^ 52 \<le> m * 2 ^ (52 - e)"
    using mult_right_mono [OF le(1), of "2 ^ (52 - e)"] p by simp
  have hi: "m * 2 ^ (52 - e) < 2 ^ 53"
  proof -
    have "m * 2 ^ (52 - e) < 2 ^ Suc e * 2 ^ (52 - e)" using le(2) by simp
    also have "\<dots> = 2 * 2 ^ 52" using p by simp
    finally show ?thesis by simp
  qed
  define f where "f = m * 2 ^ (52 - e) - 2 ^ 52"
  have f: "f < 2 ^ 52" using lo hi by (simp add: f_def)
  have n: "n = (if i < 0 then 2 ^ 63 else 0) + (e + 1023) * 2 ^ 52 + f"
    using assms False m by (auto simp: float_of_int_def Let_def m_def e_def f_def split: if_splits)
  define k where "k = (if i < 0 then 2048 else 0) + (e + 1023)"
  have "n = f + k * 2 ^ 52" by (simp add: n k_def)
  then have "n div 2 ^ 52 = k + f div 2 ^ 52" by (simp only: div_mult_self1 power_eq_0_iff) simp
  then have d: "n div 2 ^ 52 = (if i < 0 then 2048 else 0) + (e + 1023)"
    using f by (simp add: k_def)
  have "n div 2 ^ 52 mod 2048 = e + 1023"
    unfolding d using e by (auto simp: mod_if)
  then have "float64_finite n" using e by (simp add: float64_finite_def)
  moreover have "n < 2 ^ 64"
  proof -
    have "(e + 1023) * 2 ^ 52 \<le> 1075 * 2 ^ (52::nat)" using e by simp
    then show ?thesis using f by (simp add: n)
  qed
  ultimately show ?thesis by simp
qed

lemma float_cell_stable:
  assumes "float64_finite n" "n < 2 ^ 64"
  shows "cell_stable (u ''float'') (TFloat (zero_float n))"
proof -
  let ?n = "zero_float n"
  have fin: "float64_finite ?n" "?n < 2 ^ 64" "zero_float ?n = ?n"
    using assms by (auto simp: zero_float_def float64_finite_def)
  then have "unat (of_nat ?n :: 64 word) = ?n" by (simp add: unat_of_nat)
  with fin have "decode_meta_value (Some (u ''float'')) (Some (TFloat ?n)) = Inr (PFloat (of_nat ?n))"
    "encode_meta_value (u ''float'') (PFloat (of_nat ?n)) = Inr (TFloat ?n)"
    by (simp_all add: decode_meta_value_def encode_meta_value_def)
  then show ?thesis unfolding cell_stable_def by blast
qed

text \<open>Every kind but JSON is read back faithfully.\<close>

lemma meta_cell_stable:
  assumes "encode_meta_value kind v = Inr cell" "kind \<noteq> u ''json''"
  shows "cell_stable kind cell"
proof -
  from assms have "kind \<in> {u ''str'', u ''int'', u ''time'', u ''float'', u ''bool''}"
    by (auto simp: encode_meta_value_def split: if_splits)
  then consider "kind = u ''float''" | "kind \<in> {u ''str'', u ''int'', u ''time'', u ''bool''}" by auto
  then show ?thesis
  proof cases
    case 1
    with assms(1) obtain n where "cell = TFloat (zero_float n)" "float64_finite n" "n < 2 ^ 64"
      using unsigned_less [where 'b = 64]
      by (auto simp: encode_meta_value_def err_simps dest: float_of_int_bounds
          split: pyval.splits if_splits)
    with 1 float_cell_stable show ?thesis by simp
  next
    case 2
    then consider "kind = u ''str''" | "kind = u ''int''" | "kind = u ''time''" | "kind = u ''bool''" by auto
    then show ?thesis
      using assms(1)
      by cases (cases v; simp add: cell_stable_def encode_meta_value_def decode_meta_value_def;
          force)+
  qed
qed

end
