(* ===== verification/Ledger_Coherent.thy ===== *)
theory Ledger_Coherent
  imports Ledger_Roundtrip
begin

text \<open>
  The refinement between the tables and the live indexes.  \<open>db_ok\<close> is the invariant of the
  tables, \<open>coherent\<close> relates an index to them: the same claims, revocations, positions and
  events, in the same order, with values that have the stored encoding.  Loading the tables
  gives a coherent index, and every write that adds the same rows to both keeps coherence.
\<close>

section \<open>The tables\<close>

definition is_system_row :: "claim_row \<Rightarrow> bool" where
  "is_system_row r \<longleftrightarrow> starts_with (cr_pred r) SYSTEM_PREFIX"

definition user_rows :: "ledger_db \<Rightarrow> claim_row list" where
  "user_rows db = filter (\<lambda>r. \<not> is_system_row r) (d_claims db)"

definition system_rows :: "ledger_db \<Rightarrow> claim_row list" where
  "system_rows db = filter is_system_row (d_claims db)"

type_synonym claim_view = "ustr \<times> ustr \<times> ustr \<times> claim_cols res"

definition row_view :: "claim_row \<Rightarrow> claim_view" where
  "row_view r = (cr_asrt r, cr_pred r, cr_eref r, Inr (cr_rest r, cr_value r, cr_tag r))"

definition claim_view :: "claim \<Rightarrow> claim_view" where
  "claim_view c = (c_asrt c, c_pred c, c_eref c, claim_columns c)"

definition valid_claim :: "claim \<Rightarrow> bool" where
  "valid_claim c \<longleftrightarrow> (\<exists>rows. claim_args_from_rest_terms (c_terms c) = Inr rows)"

definition user_row_ok :: "claim_row \<Rightarrow> bool" where
  "user_row_ok r \<longleftrightarrow> (\<exists>c. claim_view c = row_view r \<and> valid_claim c)"

definition row_revokes :: "claim_row \<Rightarrow> revokes_row \<Rightarrow> bool" where
  "row_revokes r v \<longleftrightarrow> claim_view (revoke_claim v (cr_eref r)) = row_view r \<and>
     valid_claim (revoke_claim v (cr_eref r))"

definition position :: "cmeta_row \<Rightarrow> nat \<times> nat" where
  "position r = (cm_tx r, cm_op r)"

definition storage_key_ok :: "ustr \<Rightarrow> meta_key \<Rightarrow> ustr \<Rightarrow> bool" where
  "storage_key_ok a key kind \<longleftrightarrow> (\<forall>v. \<exists>anno. annotation_from_storage_key a key kind v = Inr anno)"

definition cmeta_row_ok :: "cmeta_row \<Rightarrow> bool" where
  "cmeta_row_ok r \<longleftrightarrow> (case (cm_kind r, cm_value r) of
      (None, None) \<Rightarrow> True
    | (Some kind, Some cell) \<Rightarrow> cell_stable kind cell \<and>
        (is_reserved_annotation_meta_key (cm_key r) \<longrightarrow> storage_key_ok (cm_asrt r) (cm_key r) kind)
    | _ \<Rightarrow> False)"

definition db_ok :: "ledger_db \<Rightarrow> bool" where
  "db_ok db \<longleftrightarrow>
     distinct (map cr_asrt (d_claims db)) \<and>
     sorted (map cr_tx (d_claims db)) \<and>
     (\<forall>r \<in> set (user_rows db). user_row_ok r) \<and>
     (\<forall>r \<in> set (system_rows db). \<exists>v. row_revokes r v) \<and>
     sorted (map position (d_cmeta db)) \<and>
     (\<forall>r \<in> set (d_cmeta db). cmeta_row_ok r)"

section \<open>The relation\<close>

definition tx_count :: "nat \<Rightarrow> claim_row list \<Rightarrow> nat" where
  "tx_count tx rows = length (filter (\<lambda>r. cr_tx r = tx) rows)"

text \<open>Rows paired with their ordinal: the number of earlier rows of the same transaction.\<close>

definition with_ops :: "claim_row list \<Rightarrow> (claim_row \<times> nat) list" where
  "with_ops rows = map (\<lambda>i. (rows ! i, tx_count (cr_tx (rows ! i)) (take i rows))) [0..<length rows]"

definition system_claim :: "claim_row \<Rightarrow> claim" where
  "system_claim r = \<lparr>c_asrt = cr_asrt r, c_pred = cr_pred r, c_eref = cr_eref r,
     c_terms = (case cr_value r of Some (TText s) \<Rightarrow> [PTuple [PStr (u ''string''), PStr s]] | _ \<Rightarrow> [])\<rparr>"

definition event_cell :: "ustr option \<Rightarrow> pyval \<Rightarrow> sql_text option res" where
  "event_cell kind v = (case kind of
      None \<Rightarrow> if v = PNone then Ok None else Err ValueError
    | Some k \<Rightarrow> bindE (encode_meta_value k v) (\<lambda>c. Ok (Some c)))"

type_synonym event_view = "ustr \<times> meta_key \<times> ustr option \<times> nat \<times> nat \<times> sql_text option res"

definition event_view :: "meta_event \<Rightarrow> event_view" where
  "event_view e = (e_asrt e, e_key e, e_kind e, e_tx e, e_op e, event_cell (e_kind e) (e_value e))"

definition cmeta_view :: "cmeta_row \<Rightarrow> event_view" where
  "cmeta_view r = (cm_asrt r, cm_key r, cm_kind r, cm_tx r, cm_op r, Inr (cm_value r))"

definition eager_rows :: "ustr list \<Rightarrow> ledger_db \<Rightarrow> cmeta_row list" where
  "eager_rows lazy db = filter (\<lambda>r. \<not> is_lazy lazy (cm_key r)) (d_cmeta db)"

definition projected_events :: "meta_event list \<Rightarrow> meta_event list" where
  "projected_events es =
     filter (\<lambda>e. \<not> is_unset e \<and> \<not> is_reserved_annotation_meta_key (e_key e)) es"

definition coherent_claims :: "ledger_db \<Rightarrow> ledger_index \<Rightarrow> bool" where
  "coherent_claims db ix \<longleftrightarrow>
     map claim_view (x_claims ix) = map row_view (user_rows db) \<and>
     (\<forall>c \<in> set (x_claims ix). valid_claim c) \<and>
     list_all2 row_revokes (system_rows db) (x_revokes ix) \<and>
     latest cr_asrt system_claim (system_rows db) (x_system ix) \<and>
     latest cr_asrt cr_tx (d_claims db) (x_tx_refs ix) \<and>
     latest (cr_asrt \<circ> fst) snd (with_ops (d_claims db)) (x_op_ordinals ix)"

definition coherent_events :: "ustr list \<Rightarrow> ledger_db \<Rightarrow> ledger_index \<Rightarrow> bool" where
  "coherent_events lazy db ix \<longleftrightarrow>
     map event_view (x_events ix) = map cmeta_view (eager_rows lazy db) \<and>
     x_meta ix = map event_meta_row (projected_events (x_events ix))"

definition coherent :: "ustr list \<Rightarrow> ledger_db \<Rightarrow> ledger_index \<Rightarrow> bool" where
  "coherent lazy db ix \<longleftrightarrow> db_ok db \<and> ix_ok ix \<and> coherent_claims db ix \<and> coherent_events lazy db ix"

section \<open>Rows at the end\<close>

lemma with_ops_Nil [simp]: "with_ops [] = []"
  by (simp add: with_ops_def)

lemma with_ops_snoc [simp]: "with_ops (rows @ [r]) = with_ops rows @ [(r, tx_count (cr_tx r) rows)]"
  by (auto simp: with_ops_def nth_append)

lemma fst_with_ops [simp]: "map fst (with_ops rows) = rows"
  by (simp add: with_ops_def o_def map_nth)

lemma valid_claim_rows: "valid_claim c \<longleftrightarrow> (\<exists>rows. claim_arg_rows c = Inr rows)"
  by (auto simp: valid_claim_def claim_arg_rows_def err_simps)

lemma REVOCATION_is_system [simp]: "starts_with REVOCATION_PREDICATE SYSTEM_PREFIX"
proof -
  have "REVOCATION_PREDICATE = SYSTEM_PREFIX @ u ''revokes''"
    by (simp add: REVOCATION_PREDICATE_def SYSTEM_PREFIX_def u_def)
  then show ?thesis by (metis starts_with_append)
qed

text \<open>The stored columns of a revocation.\<close>

lemma revoke_columns:
  assumes "claim_columns (revoke_claim v e) = Inr (rest, value, tag)"
  shows "rest = Some [] \<and> value = Some (TText (r_revoked v)) \<and> tag = Some (u ''string'') \<and>
     valid_claim (revoke_claim v e)"
proof -
  let ?ts = "[PTuple [PStr (u ''string''), PStr (r_revoked v)]]"
  from assms have e: "encode_claim_value ?ts = Inr (value, tag)" "rest = Some []"
    by (auto simp: claim_columns_def revoke_claim_def normalize_term_def enc_rest_terms_def err_simps)
  then obtain rows where rows: "claim_args_from_rest_terms ?ts = Inr rows"
    by (cases "claim_args_from_rest_terms ?ts") (auto simp: encode_claim_value_def)
  then obtain a g where item: "claim_arg_item (PTuple [PStr (u ''string''), PStr (r_revoked v)]) = Inr (a, g)"
    "rows = [(0, a, g)]" by (auto simp: claim_args_single)
  then have g: "g = u ''string'' \<and> a = PStr (r_revoked v)"
    by (auto simp: claim_arg_item_def normalize_tag_Ok val_atom_for_claim_arg_def encode_string_def
        utf8_roundtrip err_simps)
  then have "value = Some (TText (r_revoked v)) \<and> tag = Some (u ''string'')"
    using e(1) rows item(2) by (simp add: encode_claim_value_def)
  then show ?thesis using e(2) rows by (auto simp: valid_claim_def revoke_claim_def)
qed

lemma row_revokes_cols:
  assumes "row_revokes r v"
  shows "cr_asrt r = r_revoker v \<and> cr_pred r = REVOCATION_PREDICATE \<and> cr_rest r = Some [] \<and>
     cr_value r = Some (TText (r_revoked v)) \<and> cr_tag r = Some (u ''string'')"
proof -
  from assms have v: "cr_asrt r = r_revoker v" "cr_pred r = REVOCATION_PREDICATE"
    "claim_columns (revoke_claim v (cr_eref r)) = Inr (cr_rest r, cr_value r, cr_tag r)"
    by (auto simp: row_revokes_def claim_view_def row_view_def revoke_claim_def)
  with revoke_columns [OF v(3)] show ?thesis by simp
qed

lemma system_claim_revokes:
  "row_revokes r v \<Longrightarrow> system_claim r = revoke_claim v (cr_eref r)"
  using row_revokes_cols [of r v] by (simp add: system_claim_def revoke_claim_def)

section \<open>Adding a claim\<close>

lemma insert_claim_Ok:
  assumes "insert_claim c a tx db = Inr db'"
  obtains rest v t where "claim_columns c = Inr (rest, v, t)" "a \<noteq> []" "int tx < SQL_INT_LIMIT"
    "a \<notin> cr_asrt ` set (d_claims db)"
    "db' = db\<lparr>d_claims := d_claims db @ [\<lparr>cr_seq = Suc (length (d_claims db)), cr_asrt = a,
       cr_pred = c_pred c, cr_eref = c_eref c, cr_rest = rest, cr_value = v, cr_tag = t, cr_tx = tx\<rparr>]\<rparr>"
  using assms
  by (auto simp: insert_claim_def validate_claim_identity_def err_simps not_le split: if_splits)

lemma add_claim_fields:
  assumes "apply_claim_index c tx op ix = (ix', Inr ())" "\<not> starts_with (c_pred c) SYSTEM_PREFIX"
  shows "x_claims ix' = x_claims ix @ [c]" "valid_claim c"
    "x_tx_refs ix' = dict_set (c_asrt c) tx (x_tx_refs ix)"
    "x_op_ordinals ix' = dict_set (c_asrt c) op (x_op_ordinals ix)"
    "x_revokes ix' = x_revokes ix" "x_system ix' = x_system ix"
    "x_events ix' = x_events ix" "x_meta ix' = x_meta ix" "x_revoked ix' = x_revoked ix"
proof -
  from assms obtain rows where rows: "claim_arg_rows c = Inr rows"
    and ix': "ix' = idx_add_claim_args rows
      (idx_put_claim c None (set_op_ordinal (c_asrt c) op (set_tx_ref (c_asrt c) (Some tx) ix)))"
    by (auto simp: apply_claim_index_def idx_add_claim_def Let_def split: sum.splits)
  show "valid_claim c" using rows by (auto simp: valid_claim_rows)
  note defs = ix' idx_add_claim_args_def fold_claim_args idx_put_claim_def set_op_ordinal_def
    set_tx_ref_def Let_def
  show "x_claims ix' = x_claims ix @ [c]"
    "x_tx_refs ix' = dict_set (c_asrt c) tx (x_tx_refs ix)"
    "x_op_ordinals ix' = dict_set (c_asrt c) op (x_op_ordinals ix)"
    "x_revokes ix' = x_revokes ix" "x_system ix' = x_system ix"
    "x_events ix' = x_events ix" "x_meta ix' = x_meta ix" "x_revoked ix' = x_revoked ix"
    by (simp_all add: defs)
qed

text \<open>The transaction of a new claim: not older than any claim, with the next ordinal.\<close>

definition next_claim_at :: "nat \<Rightarrow> nat \<Rightarrow> ledger_db \<Rightarrow> bool" where
  "next_claim_at tx op db \<longleftrightarrow>
     (\<forall>r \<in> set (d_claims db). cr_tx r \<le> tx) \<and> op = tx_count tx (d_claims db)"

lemma next_claim_at_insert:
  "next_claim_at tx op db \<Longrightarrow> insert_claim c a tx db = Inr db' \<Longrightarrow> next_claim_at tx (Suc op) db'"
  by (erule insert_claim_Ok) (auto simp: next_claim_at_def tx_count_def)

lemma coherent_add_claim_row:
  assumes coh: "coherent lazy db ix" and view: "claim_view c = row_view r"
    and new: "c_asrt c \<notin> cr_asrt ` set (d_claims db)" and user: "\<not> starts_with (c_pred c) SYSTEM_PREFIX"
    and at: "next_claim_at tx op db" and tx: "cr_tx r = tx"
    and db': "db' = db\<lparr>d_claims := d_claims db @ [r]\<rparr>"
    and hook: "apply_claim_index c tx op ix = (ix', Inr ())"
  shows "coherent lazy db' ix'"
proof -
  note f = add_claim_fields [OF hook user]
  have r: "cr_asrt r = c_asrt c" "cr_pred r = c_pred c"
    using view by (simp_all add: claim_view_def row_view_def)
  have rows: "user_rows db' = user_rows db @ [r]" "system_rows db' = system_rows db"
    "d_claims db' = d_claims db @ [r]" "d_cmeta db' = d_cmeta db"
    using user by (simp_all add: db' user_rows_def system_rows_def is_system_row_def r)
  have "db_ok db'"
    using coh new at view f(2)
    by (auto simp: coherent_def db_ok_def rows next_claim_at_def sorted_append user_row_ok_def r tx)
  moreover have "ix_ok ix'" using coh hook hook_claim [of c tx op] by (metis coherent_def fst_conv)
  moreover have "coherent_claims db' ix'"
    using coh f view at unfolding coherent_def coherent_claims_def rows
    by (auto simp: next_claim_at_def r tx intro!: latest_append)
  moreover have "coherent_events lazy db' ix'"
    using coh f by (simp add: db' coherent_def coherent_events_def eager_rows_def)
  ultimately show ?thesis by (simp add: coherent_def)
qed

lemma coherent_add_claim:
  assumes "coherent lazy db ix" "insert_claim c (c_asrt c) tx db = Inr db'"
    "\<not> starts_with (c_pred c) SYSTEM_PREFIX" "next_claim_at tx op db"
    "apply_claim_index c tx op ix = (ix', Inr ())"
  shows "coherent lazy db' ix'"
  using assms(2)
proof (rule insert_claim_Ok)
  fix rest v t
  assume "claim_columns c = Inr (rest, v, t)" "c_asrt c \<notin> cr_asrt ` set (d_claims db)"
    "db' = db\<lparr>d_claims := d_claims db @ [\<lparr>cr_seq = Suc (length (d_claims db)), cr_asrt = c_asrt c,
       cr_pred = c_pred c, cr_eref = c_eref c, cr_rest = rest, cr_value = v, cr_tag = t, cr_tx = tx\<rparr>]\<rparr>"
  then show ?thesis
    using assms by (intro coherent_add_claim_row [of lazy db ix c _ tx op db' ix'])
      (auto simp: claim_view_def row_view_def)
qed

section \<open>Adding a revocation\<close>

lemma revoke_claim_fields [simp]:
  "c_asrt (revoke_claim v e) = r_revoker v" "c_pred (revoke_claim v e) = REVOCATION_PREDICATE"
  "c_eref (revoke_claim v e) = e" "is_revocation_shape (c_terms (revoke_claim v e))"
  by (simp_all add: revoke_claim_def is_revocation_shape_def)

lemma apply_revoke_fields:
  "apply_revoke_claim (revoke_claim v e) v tx op ix =
     (ix\<lparr>x_system := dict_set (r_revoker v) (revoke_claim v e) (x_system ix),
         x_tx_refs := dict_set (r_revoker v) tx (x_tx_refs ix),
         x_op_ordinals := dict_set (r_revoker v) op (x_op_ordinals ix),
         x_revokes := x_revokes ix @ [v],
         x_revokers := insert (r_revoker v) (x_revokers ix),
         x_revoked := insert (r_revoked v) (x_revoked ix),
         x_first_revoker := dict_setdefault (r_revoked v) (r_revoker v) (x_first_revoker ix)\<rparr>, Inr ())"
  by (simp add: apply_revoke_claim_def idx_add_system_revocation_claim_def set_tx_ref_def
      set_op_ordinal_def idx_add_revoke_def)

lemma coherent_add_revoke_row:
  assumes coh: "coherent lazy db ix" and rev: "row_revokes r v"
    and new: "cr_asrt r \<notin> cr_asrt ` set (d_claims db)" and at: "next_claim_at tx op db" and tx: "cr_tx r = tx"
    and db': "db' = db\<lparr>d_claims := d_claims db @ [r]\<rparr>"
    and hook: "apply_revoke_claim (revoke_claim v (cr_eref r)) v tx op ix = (ix', res)"
  shows "coherent lazy db' ix'"
proof -
  have r: "cr_asrt r = r_revoker v" "cr_pred r = REVOCATION_PREDICATE"
    using row_revokes_cols [OF rev] by simp_all
  have rows: "user_rows db' = user_rows db" "system_rows db' = system_rows db @ [r]"
    "d_claims db' = d_claims db @ [r]" "d_cmeta db' = d_cmeta db"
    by (simp_all add: db' user_rows_def system_rows_def is_system_row_def r)
  have ix': "ix' = fst (apply_revoke_claim (revoke_claim v (cr_eref r)) v tx op ix)" using hook by simp
  have "db_ok db'"
    using coh new at rev
    by (auto simp: coherent_def db_ok_def rows next_claim_at_def sorted_append tx)
  moreover have "ix_ok ix'" using coh ix' hook_revoke by (simp add: coherent_def)
  moreover have "coherent_claims db' ix'"
    using coh rev at system_claim_revokes [OF rev]
    unfolding coherent_def coherent_claims_def rows ix' apply_revoke_fields
    by (auto simp: next_claim_at_def list_all2_appendI r tx intro!: latest_append)
  moreover have "coherent_events lazy db' ix'"
    using coh by (simp add: db' ix' apply_revoke_fields coherent_def coherent_events_def eager_rows_def)
  ultimately show ?thesis by (simp add: coherent_def)
qed

lemma coherent_add_revoke:
  assumes "coherent lazy db ix" "insert_claim (revoke_claim v e) (r_revoker v) tx db = Inr db'"
    "next_claim_at tx op db" "apply_revoke_claim (revoke_claim v e) v tx op ix = (ix', r)"
  shows "coherent lazy db' ix'"
  using assms(2)
proof (rule insert_claim_Ok)
  fix rest val t
  assume cols: "claim_columns (revoke_claim v e) = Inr (rest, val, t)"
    and new: "r_revoker v \<notin> cr_asrt ` set (d_claims db)"
    and db': "db' = db\<lparr>d_claims := d_claims db @ [\<lparr>cr_seq = Suc (length (d_claims db)), cr_asrt = r_revoker v,
       cr_pred = c_pred (revoke_claim v e), cr_eref = c_eref (revoke_claim v e), cr_rest = rest,
       cr_value = val, cr_tag = t, cr_tx = tx\<rparr>]\<rparr>"
  let ?r = "\<lparr>cr_seq = Suc (length (d_claims db)), cr_asrt = r_revoker v,
       cr_pred = c_pred (revoke_claim v e), cr_eref = c_eref (revoke_claim v e), cr_rest = rest,
       cr_value = val, cr_tag = t, cr_tx = tx\<rparr>"
  have "row_revokes ?r v"
    using cols revoke_columns [OF cols] by (simp add: row_revokes_def claim_view_def row_view_def)
  then show ?thesis
    using assms new db' by (intro coherent_add_revoke_row [of lazy db ix ?r v tx op db' ix' r]) auto
qed

section \<open>Adding metadata events\<close>

lemma insert_cmeta_all:
  "foldE insert_cmeta db rs = Inr db' \<Longrightarrow> db' = db\<lparr>d_cmeta := d_cmeta db @ rs\<rparr>"
proof (induction rs arbitrary: db)
  case (Cons r rs)
  then obtain db1 where db1: "insert_cmeta db r = Inr db1" "foldE insert_cmeta db1 rs = Inr db'"
    by (auto simp: err_simps)
  then have "db1 = db\<lparr>d_cmeta := d_cmeta db @ [r]\<rparr>" by (simp add: insert_cmeta_def split: if_splits)
  with Cons.IH [OF db1(2)] show ?case by simp
qed simp

lemma insert_meta_rows_Ok:
  assumes "insert_meta_rows rows a tx op db = Inr db'"
  obtains rs where "list_all2 (\<lambda>x r. encode_append a tx op x = Inr r) rows rs"
    "db' = db\<lparr>d_cmeta := d_cmeta db @ rs\<rparr>"
  using assms by (auto simp: insert_meta_rows_def err_simps mapE_Inr_iff dest: insert_cmeta_all)

definition keep_eager :: "ustr list \<Rightarrow> meta_append \<Rightarrow> bool" where
  "keep_eager lazy x \<longleftrightarrow> \<not> is_lazy lazy (case x of MRow _ row \<Rightarrow> m_key row | MTombstone _ key \<Rightarrow> key)"

lemma e_key_append [simp]:
  "e_key (event_of_append tx op x) = (case x of MRow _ row \<Rightarrow> m_key row | MTombstone _ key \<Rightarrow> key)"
  by (cases x) (simp_all add: event_of_append_def)

definition same_claim_side :: "ledger_index \<Rightarrow> ledger_index \<Rightarrow> bool" where
  "same_claim_side ix ix' \<longleftrightarrow>
     x_claims ix' = x_claims ix \<and> x_claim_by_id ix' = x_claim_by_id ix \<and>
     x_revokes ix' = x_revokes ix \<and> x_revokers ix' = x_revokers ix \<and> x_revoked ix' = x_revoked ix \<and>
     x_system ix' = x_system ix \<and> x_tx_refs ix' = x_tx_refs ix \<and> x_op_ordinals ix' = x_op_ordinals ix \<and>
     x_tx_defaults ix' = x_tx_defaults ix"

lemma same_claim_side_refl [simp]: "same_claim_side ix ix"
  by (simp add: same_claim_side_def)

lemma same_claim_side_trans:
  "same_claim_side a b \<Longrightarrow> same_claim_side b c \<Longrightarrow> same_claim_side a c"
  by (simp add: same_claim_side_def)

lemma coherent_claims_side: "same_claim_side ix ix' \<Longrightarrow> coherent_claims db ix \<Longrightarrow> coherent_claims db ix'"
  by (simp add: same_claim_side_def coherent_claims_def)

lemma fold_event_fields:
  "x_events (fold (idx_add_claim_meta_event lazy) es ix) =
     x_events ix @ filter (\<lambda>e. \<not> is_lazy lazy (e_key e)) es \<and>
   x_meta (fold (idx_add_claim_meta_event lazy) es ix) = x_meta ix \<and>
   same_claim_side ix (fold (idx_add_claim_meta_event lazy) es ix)"
proof (induction es arbitrary: ix)
  case (Cons e es)
  have "same_claim_side ix (idx_add_claim_meta_event lazy e ix)"
    by (simp add: idx_add_claim_meta_event_def same_claim_side_def)
  from same_claim_side_trans [OF this] Cons.IH [of "idx_add_claim_meta_event lazy e ix"] show ?case
    by (auto simp: idx_add_claim_meta_event_def)
qed simp

lemma add_meta1_fields:
  "x_meta (idx_add_meta1 lazy row ix) = x_meta ix @ (if is_lazy lazy (m_key row) then [] else [row])"
  "x_events (idx_add_meta1 lazy row ix) = x_events ix"
  "same_claim_side ix (idx_add_meta1 lazy row ix)"
  by (auto simp: idx_add_meta1_def same_claim_side_def Let_def split: option.splits)

lemma add_meta_fields:
  "x_meta (idx_add_meta lazy rows ix) = x_meta ix @ filter (\<lambda>r. \<not> is_lazy lazy (m_key r)) rows \<and>
   x_events (idx_add_meta lazy rows ix) = x_events ix \<and> same_claim_side ix (idx_add_meta lazy rows ix)"
proof (induction rows arbitrary: ix)
  case (Cons r rows)
  from Cons.IH [of "idx_add_meta1 lazy r ix"] show ?case
    using same_claim_side_trans [OF add_meta1_fields(3)]
    by (auto simp: idx_add_meta_def add_meta1_fields)
qed (simp add: idx_add_meta_def)

lemma add_events_fields:
  fixes rows lazy tx op
  defines "es \<equiv> filter (\<lambda>e. \<not> is_lazy lazy (e_key e)) (map (event_of_append tx op) rows)"
  shows "x_events (idx_add_claim_meta_events lazy rows tx op p ix) = x_events ix @ es"
    "x_meta (idx_add_claim_meta_events lazy rows tx op p ix) = x_meta ix @
       (if p then filter (\<lambda>r. \<not> is_lazy lazy (m_key r)) (append_meta_rows rows) else [])"
    "same_claim_side ix (idx_add_claim_meta_events lazy rows tx op p ix)"
proof -
  let ?i = "fold (idx_add_claim_meta_event lazy) (map (event_of_append tx op) rows) ix"
  have ev: "x_events ?i = x_events ix @ es" "x_meta ?i = x_meta ix" "same_claim_side ix ?i"
    by (simp_all add: fold_event_fields es_def)
  show "x_events (idx_add_claim_meta_events lazy rows tx op p ix) = x_events ix @ es"
    "x_meta (idx_add_claim_meta_events lazy rows tx op p ix) = x_meta ix @
       (if p then filter (\<lambda>r. \<not> is_lazy lazy (m_key r)) (append_meta_rows rows) else [])"
    using ev by (cases p; simp add: idx_add_claim_meta_events_def add_meta_fields Let_def)+
  show "same_claim_side ix (idx_add_claim_meta_events lazy rows tx op p ix)"
    using ev(3) same_claim_side_trans [OF ev(3)]
    by (cases p) (simp_all add: idx_add_claim_meta_events_def add_meta_fields Let_def)
qed

text \<open>A row is projected to the public metadata exactly when its key is not reserved.\<close>

definition projected_as :: "bool \<Rightarrow> meta_append \<Rightarrow> bool" where
  "projected_as p x \<longleftrightarrow> (case x of
      MRow _ row \<Rightarrow> p \<longleftrightarrow> \<not> is_reserved_annotation_meta_key (m_key row) | MTombstone _ _ \<Rightarrow> True)"

lemma projected_new_events:
  assumes "\<forall>x \<in> set rows. projected_as p x"
  shows "map event_meta_row (projected_events (filter (\<lambda>e. \<not> is_lazy lazy (e_key e))
       (map (event_of_append tx op) rows))) =
     (if p then filter (\<lambda>r. \<not> is_lazy lazy (m_key r)) (append_meta_rows rows) else [])"
  using assms
proof (induction rows)
  case (Cons x rows)
  then show ?case
    by (cases x) (auto simp: projected_events_def append_meta_rows_def event_of_append_def is_unset_def
        projected_as_def event_meta_row_def List.map_filter_simps)
qed (simp_all add: projected_events_def append_meta_rows_def List.map_filter_simps)

lemma projected_events_append: "projected_events (a @ b) = projected_events a @ projected_events b"
  by (simp add: projected_events_def)

lemma append_event_view:
  assumes "encode_append a tx op x = Inr r" "append_asrt x = a"
  shows "event_view (event_of_append tx op x) = cmeta_view r"
    and "cm_key r = e_key (event_of_append tx op x)" and "position r = (tx, op)"
  using assms
  by (cases x; auto simp: encode_append_def event_of_append_def event_view_def cmeta_view_def event_cell_def
      append_asrt_def position_def err_simps)+

lemma append_event_views:
  assumes "list_all2 (\<lambda>x r. encode_append a tx op x = Inr r) rows rs" "\<forall>x \<in> set rows. append_asrt x = a"
  shows "map event_view (filter (\<lambda>e. \<not> is_lazy lazy (e_key e)) (map (event_of_append tx op) rows)) =
     map cmeta_view (filter (\<lambda>r. \<not> is_lazy lazy (cm_key r)) rs)" and "\<forall>r \<in> set rs. position r = (tx, op)"
proof -
  from assms show "map event_view (filter (\<lambda>e. \<not> is_lazy lazy (e_key e)) (map (event_of_append tx op) rows)) =
     map cmeta_view (filter (\<lambda>r. \<not> is_lazy lazy (cm_key r)) rs)"
    by (induction rule: list_all2_induct) (auto dest: append_event_view simp del: e_key_append)
  from assms show "\<forall>r \<in> set rs. position r = (tx, op)"
    by (induction rule: list_all2_induct) (auto dest: append_event_view)
qed

lemma coherent_add_meta_rows:
  assumes coh: "coherent lazy db ix" and rs: "list_all2 (\<lambda>x r. encode_append a tx op x = Inr r) rows rs"
    and db': "db' = db\<lparr>d_cmeta := d_cmeta db @ rs\<rparr>"
    and own: "\<forall>x \<in> set rows. append_asrt x = a" and at: "\<forall>r \<in> set (d_cmeta db). position r \<le> (tx, op)"
    and ok: "\<forall>r \<in> set rs. cmeta_row_ok r" and proj: "\<forall>x \<in> set rows. projected_as p x"
  shows "coherent lazy db' (idx_add_claim_meta_events lazy rows tx op p ix)"
    and "\<forall>r \<in> set (d_cmeta db'). position r \<le> (tx, op)"
proof -
  let ?i = "idx_add_claim_meta_events lazy rows tx op p ix"
  note v = append_event_views [OF rs own]
  have const: "map position rs = replicate (length rs) (tx, op)"
  proof -
    have "\<forall>r \<in> set xs. position r = k \<Longrightarrow> map position xs = replicate (length xs) k" for xs k
      by (induction xs) auto
    then show ?thesis using v(2) .
  qed
  have "db_ok db'"
    using coh at ok v(2)
    by (auto simp: coherent_def db_ok_def db' user_rows_def system_rows_def sorted_append const)
  moreover have "ix_ok ?i" using coh by (simp add: coherent_def ix_ok_intros)
  moreover have "coherent_claims db' ?i"
    using coh coherent_claims_side [OF add_events_fields(3)]
    by (auto simp: coherent_def coherent_claims_def db' user_rows_def system_rows_def)
  moreover have "coherent_events lazy db' ?i"
    using coh v(1) projected_new_events [OF proj]
    by (simp add: coherent_def coherent_events_def add_events_fields eager_rows_def db' projected_events_append)
  ultimately show "coherent lazy db' ?i" by (simp add: coherent_def)
  show "\<forall>r \<in> set (d_cmeta db'). position r \<le> (tx, op)" using at v(2) by (auto simp: db')
qed

section \<open>Adding annotations\<close>

lemma add_annotation_fields:
  "x_events (idx_add_annotation lazy rows ix) = x_events ix \<and>
   x_meta (idx_add_annotation lazy rows ix) = x_meta ix \<and> same_claim_side ix (idx_add_annotation lazy rows ix)"
proof (induction rows arbitrary: ix)
  case (Cons r rows)
  have "x_events (idx_add_annotation1 lazy r ix) = x_events ix \<and>
      x_meta (idx_add_annotation1 lazy r ix) = x_meta ix \<and> same_claim_side ix (idx_add_annotation1 lazy r ix)"
    by (simp add: idx_add_annotation1_def idx_remove_annotation_def same_claim_side_def Let_def
        split: option.splits)
  with Cons.IH [of "idx_add_annotation1 lazy r ix"] show ?case
    using same_claim_side_trans by (auto simp: idx_add_annotation_def)
qed (simp add: idx_add_annotation_def)

lemma coherent_add_annotation: "coherent lazy db ix \<Longrightarrow> coherent lazy db (idx_add_annotation lazy rows ix)"
  unfolding coherent_def coherent_events_def
  using coherent_claims_side [of ix "idx_add_annotation lazy rows ix" db]
  by (simp add: add_annotation_fields ix_ok_intros)

end
