(* ===== verification/Ledger_Reopen.thy ===== *)
theory Ledger_Reopen
  imports Ledger_Coherent
begin

text \<open>
  Loading well-formed tables succeeds and gives an index that is coherent with them.  Two
  indexes coherent with the same tables agree on everything the queries read of claims,
  arguments, revocations, positions and events.
\<close>

section \<open>Claims\<close>

definition claims_db :: "claim_row list \<Rightarrow> ledger_db \<Rightarrow> ledger_db" where
  "claims_db rows db = db\<lparr>d_claims := rows, d_cmeta := []\<rparr>"

definition next_op_of :: "(nat, nat) dict \<Rightarrow> nat \<Rightarrow> nat" where
  "next_op_of d tx = (case dict_get d tx of None \<Rightarrow> 0 | Some n \<Rightarrow> n)"

definition claim_loop_inv :: "ustr list \<Rightarrow> ledger_db \<Rightarrow> claim_row list \<Rightarrow> load_state \<Rightarrow> bool" where
  "claim_loop_inv lazy db rows st \<longleftrightarrow> (case st of (ix, next_op, prev) \<Rightarrow>
     coherent lazy (claims_db rows db) ix \<and> (\<forall>tx. next_op_of next_op tx = tx_count tx rows) \<and>
     prev = (if rows = [] then - 1 else int (cr_tx (last rows))))"

lemma row_to_claim_user:
  assumes "user_row_ok r"
  shows "\<exists>c. row_to_claim r = Inr c \<and> claim_view c = row_view r \<and> valid_claim c"
proof -
  from assms obtain c rows where c: "claim_view c = row_view r"
    "claim_args_from_rest_terms (c_terms c) = Inr rows"
    by (auto simp: user_row_ok_def valid_claim_def)
  then have cols: "claim_columns c = Inr (cr_rest r, cr_value r, cr_tag r)"
    by (simp add: claim_view_def row_view_def)
  from claim_columns_roundtrip [OF cols c(2)] obtain terms where t:
    "decode_claim_terms (cr_rest r) (cr_value r) (cr_tag r) = Inr terms"
    "claim_args_from_rest_terms terms = Inr rows"
    "claim_columns (c\<lparr>c_terms := terms\<rparr>) = Inr (cr_rest r, cr_value r, cr_tag r)" by blast
  let ?c = "c\<lparr>c_terms := terms\<rparr>"
  have "row_to_claim r = Inr ?c"
    using t(1) c(1) by (cases c) (simp add: row_to_claim_def claim_view_def row_view_def)
  moreover have "claim_view ?c = row_view r" "valid_claim ?c"
    using t c(1) by (auto simp: claim_view_def row_view_def valid_claim_def)
  ultimately show ?thesis by blast
qed

lemma row_to_claim_system:
  assumes "row_revokes r v"
  shows "row_to_claim r = Inr (revoke_claim v (cr_eref r))"
proof -
  note c = row_revokes_cols [OF assms]
  from assms obtain rows where "claim_args_from_rest_terms [PTuple [PStr (u ''string''), PStr (r_revoked v)]] = Inr rows"
    by (auto simp: row_revokes_def valid_claim_def revoke_claim_def)
  then have "decode_claim_terms (Some []) (Some (TText (r_revoked v))) (Some (u ''string'')) =
      Inr [PTuple [PStr (u ''string''), PStr (r_revoked v)]]"
    by (simp add: decode_claim_terms_def dec_rest_terms_def decode_claim_value_def)
  then show ?thesis using c by (simp add: row_to_claim_def revoke_claim_def)
qed

lemma load_index_user:
  assumes "valid_claim c" "\<not> starts_with (c_pred c) SYSTEM_PREFIX"
  shows "\<exists>ix'. load_claim_index c tx (set_op_ordinal (c_asrt c) op ix) = (ix', Inr ()) \<and>
     apply_claim_index c tx op ix = (ix', Inr ())"
proof -
  have "set_tx_ref (c_asrt c) (Some tx) (set_op_ordinal (c_asrt c) op ix) =
      set_op_ordinal (c_asrt c) op (set_tx_ref (c_asrt c) (Some tx) ix)"
    by (simp add: set_tx_ref_def set_op_ordinal_def)
  moreover obtain rows where "claim_arg_rows c = Inr rows"
    using assms(1) by (auto simp: valid_claim_rows)
  ultimately show ?thesis
    using assms(2) by (auto simp: load_claim_index_def apply_claim_index_def idx_add_claim_def Let_def)
qed

lemma load_index_system:
  "load_claim_index (revoke_claim v e) tx (set_op_ordinal (r_revoker v) op ix) =
     apply_revoke_claim (revoke_claim v e) v tx op ix"
proof -
  have "first_value_text (c_terms (revoke_claim v e)) = Inr (r_revoked v)"
    by (simp add: revoke_claim_def first_value_text_def)
  then show ?thesis
    by (simp add: load_claim_index_def apply_revoke_fields idx_add_system_revocation_claim_def
        set_tx_ref_def set_op_ordinal_def idx_add_revoke_def)
qed

lemma db_ok_claims_prefix: "db_ok (claims_db (rows @ rest) db) \<Longrightarrow> db_ok (claims_db rows db)"
  by (auto simp: db_ok_def claims_db_def user_rows_def system_rows_def sorted_append)

lemma load_claim_step:
  assumes inv: "claim_loop_inv lazy db rows st" and ok: "db_ok (claims_db (rows @ [r]) db)"
  shows "\<exists>st'. load_claim st r = (st', Inr ()) \<and> claim_loop_inv lazy db (rows @ [r]) st'"
proof -
  obtain ix next_op prev where st: "st = (ix, next_op, prev)" by (cases st)
  let ?tx = "cr_tx r" and ?op = "next_op_of next_op (cr_tx r)"
  from inv st have coh: "coherent lazy (claims_db rows db) ix"
    and ops: "\<And>tx. next_op_of next_op tx = tx_count tx rows"
    and prev: "prev = (if rows = [] then - 1 else int (cr_tx (last rows)))"
    by (auto simp: claim_loop_inv_def)
  have le: "\<forall>q \<in> set rows. cr_tx q \<le> ?tx" and new: "cr_asrt r \<notin> cr_asrt ` set (d_claims (claims_db rows db))"
    using ok by (auto simp: db_ok_def claims_db_def sorted_append)
  then have prev_le: "\<not> int ?tx < prev" by (auto simp: prev not_less)
  have at: "next_claim_at ?tx ?op (claims_db rows db)"
    using le ops by (simp add: next_claim_at_def claims_db_def)
  have db': "claims_db (rows @ [r]) db = (claims_db rows db)\<lparr>d_claims := d_claims (claims_db rows db) @ [r]\<rparr>"
    by (simp add: claims_db_def)
  have "\<exists>c ix'. row_to_claim r = Inr c \<and> load_claim_index c ?tx (set_op_ordinal (c_asrt c) ?op ix) = (ix', Inr ()) \<and>
      coherent lazy (claims_db (rows @ [r]) db) ix'"
  proof (cases "is_system_row r")
    case True
    with ok obtain v where v: "row_revokes r v"
      by (auto simp: db_ok_def claims_db_def system_rows_def)
    let ?c = "revoke_claim v (cr_eref r)"
    obtain ix' where ix': "apply_revoke_claim ?c v ?tx ?op ix = (ix', Inr ())"
      by (simp add: apply_revoke_fields)
    from coherent_add_revoke_row [OF coh v new at refl db' ix'] ix'
    show ?thesis using row_to_claim_system [OF v] load_index_system [of v "cr_eref r" ?tx ?op ix] by auto
  next
    case False
    with ok have "user_row_ok r" by (auto simp: db_ok_def claims_db_def user_rows_def)
    from row_to_claim_user [OF this] obtain c where c: "row_to_claim r = Inr c"
      "claim_view c = row_view r" "valid_claim c" by blast
    then have fields: "c_asrt c = cr_asrt r" "\<not> starts_with (c_pred c) SYSTEM_PREFIX"
      using False by (simp_all add: claim_view_def row_view_def is_system_row_def)
    from load_index_user [OF c(3) fields(2)] obtain ix' where ix':
      "load_claim_index c ?tx (set_op_ordinal (c_asrt c) ?op ix) = (ix', Inr ())"
      "apply_claim_index c ?tx ?op ix = (ix', Inr ())" by blast
    from coherent_add_claim_row [OF coh c(2) _ fields(2) at refl db' ix'(2)] new fields(1) c(1) ix'(1)
    show ?thesis by auto
  qed
  then obtain c ix' where c: "row_to_claim r = Inr c"
    "load_claim_index c ?tx (set_op_ordinal (c_asrt c) ?op ix) = (ix', Inr ())"
    "coherent lazy (claims_db (rows @ [r]) db) ix'" by blast
  let ?st = "(ix', dict_set ?tx (?op + 1) next_op, int ?tx)"
  have "load_claim st r = (?st, Inr ())"
    using c(1,2) prev_le by (simp add: load_claim_def st Let_def next_op_of_def)
  moreover have "claim_loop_inv lazy db (rows @ [r]) ?st"
    using c(3) ops by (auto simp: claim_loop_inv_def next_op_of_def tx_count_def)
  ultimately show ?thesis by blast
qed

lemma load_claims_ok:
  assumes "claim_loop_inv lazy db rows st" "db_ok (claims_db (rows @ rest) db)"
  shows "\<exists>st'. foldS load_claim st rest = (st', Inr ()) \<and> claim_loop_inv lazy db (rows @ rest) st'"
  using assms
proof (induction rest arbitrary: rows st)
  case (Cons r rest)
  have "db_ok (claims_db (rows @ [r]) db)"
    by (rule db_ok_claims_prefix [where rest = rest]) (use Cons.prems(2) in simp)
  from load_claim_step [OF Cons.prems(1) this] obtain st1 where
    "load_claim st r = (st1, Inr ())" "claim_loop_inv lazy db (rows @ [r]) st1" by blast
  with Cons.IH [of "rows @ [r]" st1] Cons.prems(2) show ?case by auto
qed auto

section \<open>Events\<close>

definition events_db :: "cmeta_row list \<Rightarrow> ledger_db \<Rightarrow> ledger_db" where
  "events_db rows db = db\<lparr>d_cmeta := rows\<rparr>"

lemma load_meta_step:
  assumes coh: "coherent lazy (events_db rows db) ix" and ok: "cmeta_row_ok r"
    and at: "\<forall>q \<in> set rows. position q \<le> position r"
  shows "\<exists>ix' sealed'. load_meta_row lazy marked (ix, sealed) r = ((ix', sealed'), Inr ()) \<and>
     coherent lazy (events_db (rows @ [r]) db) ix'"
proof -
  let ?tx = "cm_tx r" and ?op = "cm_op r" and ?db' = "events_db (rows @ [r]) db"
  have db': "?db' = (events_db rows db)\<lparr>d_cmeta := d_cmeta (events_db rows db) @ [r]\<rparr>"
    by (simp add: events_db_def)
  have at': "\<forall>q \<in> set (d_cmeta (events_db rows db)). position q \<le> (?tx, ?op)"
    using at by (simp add: events_db_def position_def)
  have step: "coherent lazy ?db' (idx_add_claim_meta_events lazy [x] ?tx ?op p ix)"
    if "encode_append (cm_asrt r) ?tx ?op x = Inr r" "append_asrt x = cm_asrt r" "projected_as p x" for x p
    using that ok by (intro coherent_add_meta_rows(1) [OF coh _ db' _ at']) auto
  show ?thesis
  proof (cases "cm_kind r")
    case None
    with ok have v: "cm_value r = None" by (simp add: cmeta_row_ok_def split: option.splits)
    let ?x = "MTombstone (cm_asrt r) (cm_key r)"
    have "coherent lazy ?db' (idx_add_claim_meta_events lazy [?x] ?tx ?op False ix)"
      using None v by (intro step) (auto simp: encode_append_def append_asrt_def projected_as_def)
    moreover have "event_of_row r = Inr (event_of_append ?tx ?op ?x)"
      using None v by (simp add: event_of_row_def decode_meta_value_def event_of_append_def)
    ultimately show ?thesis
      using None by (auto simp: load_meta_row_def idx_add_claim_meta_events_def)
  next
    case (Some kind)
    with ok obtain cell v where v: "cm_value r = Some cell" "decode_meta_value (Some kind) (Some cell) = Inr v"
      "encode_meta_value kind v = Inr cell"
      and st: "is_reserved_annotation_meta_key (cm_key r) \<Longrightarrow> storage_key_ok (cm_asrt r) (cm_key r) kind"
      by (auto simp: cmeta_row_ok_def cell_stable_def split: option.splits)
    let ?m = "\<lparr>m_asrt = cm_asrt r, m_key = cm_key r, m_kind = kind, m_value = v\<rparr>"
    let ?x = "MRow False ?m"
    have enc: "encode_append (cm_asrt r) ?tx ?op ?x = Inr r" "append_asrt ?x = cm_asrt r"
      using Some v by (simp_all add: encode_append_def append_asrt_def)
    have ev: "event_of_row r = Inr (event_of_append ?tx ?op ?x)"
      using Some v by (simp add: event_of_row_def event_of_append_def)
    have val: "e_value (event_of_append ?tx ?op ?x) = v" by (simp add: event_of_append_def)
    show ?thesis
    proof (cases "is_reserved_annotation_meta_key (cm_key r)")
      case True
      with st obtain anno where "annotation_from_storage_key (cm_asrt r) (cm_key r) kind v = Inr anno"
        by (auto simp: storage_key_ok_def)
      moreover have "coherent lazy ?db' (idx_add_claim_meta_events lazy [?x] ?tx ?op False ix)"
        using True enc by (intro step) (auto simp: projected_as_def)
      ultimately show ?thesis
        using Some True ev val
        by (auto simp: load_meta_row_def idx_add_claim_meta_events_def intro: coherent_add_annotation)
    next
      case False
      let ?i = "idx_add_claim_meta_events lazy [?x] ?tx ?op True ix"
      have c: "coherent lazy ?db' ?i"
        using False enc by (intro step) (auto simp: projected_as_def)
      have "?i = idx_add_meta lazy [?m] (idx_add_claim_meta_event lazy (event_of_append ?tx ?op ?x) ix)"
        by (simp add: idx_add_claim_meta_events_def append_meta_rows_def List.map_filter_simps)
      then show ?thesis
        using Some False ev val c coherent_add_annotation [OF c]
        by (auto simp: load_meta_row_def Let_def split: option.splits)
    qed
  qed
qed

lemma load_meta_ok:
  assumes "coherent lazy (events_db rows db) ix" "\<forall>r \<in> set rest. cmeta_row_ok r"
    "sorted (map position (rows @ rest))"
  shows "\<exists>st'. foldS (load_meta_row lazy marked) (ix, sealed) rest = (st', Inr ()) \<and>
     coherent lazy (events_db (rows @ rest) db) (fst st')"
  using assms
proof (induction rest arbitrary: rows ix sealed)
  case (Cons r rest)
  have "\<forall>q \<in> set rows. position q \<le> position r"
    using Cons.prems(3) by (auto simp: sorted_append)
  with load_meta_step [OF Cons.prems(1)] Cons.prems(2) obtain ix1 sealed1 where
    s: "load_meta_row lazy marked (ix, sealed) r = ((ix1, sealed1), Inr ())"
    and c: "coherent lazy (events_db (rows @ [r]) db) ix1" by (metis list.set_intros(1))
  with Cons.IH [OF c] Cons.prems(2,3) show ?case by auto
qed auto

section \<open>Loading\<close>

lemma coherent_reset: "coherent lazy (claims_db [] db) reset_indexes"
  by (simp add: coherent_def db_ok_def claims_db_def user_rows_def system_rows_def coherent_claims_def
      coherent_events_def eager_rows_def projected_events_def)
    (simp add: reset_indexes_def)

lemma load_coherent:
  assumes "db_ok db"
  shows "\<exists>ix. load_from_db lazy db = (ix, Inr ()) \<and> coherent lazy db ix"
proof -
  let ?init = "(reset_indexes, [], - 1)"
  have init: "claim_loop_inv lazy db [] ?init"
    by (simp add: claim_loop_inv_def coherent_reset next_op_of_def tx_count_def)
  have "db_ok (claims_db ([] @ d_claims db) db)"
    using assms by (simp add: db_ok_def claims_db_def user_rows_def system_rows_def)
  from load_claims_ok [OF init this] obtain st where
    st: "foldS load_claim ?init (d_claims db) = (st, Inr ())" "claim_loop_inv lazy db (d_claims db) st"
    by auto
  then have coh: "coherent lazy (events_db [] db) (fst st)"
    by (cases st) (simp add: claim_loop_inv_def claims_db_def events_db_def)
  have order: "event_order (d_cmeta db) = d_cmeta db"
    unfolding event_order_def
    by (rule sort_key_id_if_sorted) (use assms in \<open>simp add: db_ok_def position_def [abs_def]\<close>)
  let ?marked = "cm_asrt ` set (filter is_identity_row (d_cmeta db))"
  from load_meta_ok [OF coh, of "d_cmeta db" ?marked "{}"] assms obtain st' where
    "foldS (load_meta_row lazy ?marked) (fst st, {}) (d_cmeta db) = (st', Inr ())"
    "coherent lazy (events_db (d_cmeta db) db) (fst st')" by (auto simp: db_ok_def)
  then show ?thesis
    using st(1) by (simp add: load_from_db_def order events_db_def)
qed

end
