(* ===== verification/Ledger_Append.thy ===== *)
theory Ledger_Append
  imports Ledger_Reopen "HOL-Library.Sublist"
begin

text \<open>
  The ledger only grows: every statement appends to the tables, so no step of any history
  rewrites or removes a claim, and the durable sequence number of a claim never changes.
\<close>

section \<open>Tables grow\<close>

text \<open>The sequence numbers SQLite hands out, one more for each row; ids are not empty.\<close>

definition seq_ok :: "ledger_db \<Rightarrow> bool" where
  "seq_ok db \<longleftrightarrow> map cr_seq (d_claims db) = map Suc [0..<length (d_claims db)] \<and>
     (\<forall>r \<in> set (d_claims db). cr_asrt r \<noteq> [])"

definition extends :: "ledger_db \<Rightarrow> ledger_db \<Rightarrow> bool" where
  "extends db db' \<longleftrightarrow> prefix (d_claims db) (d_claims db') \<and> prefix (d_cmeta db) (d_cmeta db') \<and>
     (seq_ok db \<longrightarrow> seq_ok db')"

lemma seq_ok_meta [simp]: "seq_ok (db\<lparr>d_meta := m\<rparr>) = seq_ok db" "seq_ok (db\<lparr>d_cmeta := c\<rparr>) = seq_ok db"
  by (simp_all add: seq_ok_def)

lemma extends_refl [simp]: "extends db db"
  by (simp add: extends_def)

lemma extends_trans: "extends a b \<Longrightarrow> extends b c \<Longrightarrow> extends a c"
  by (auto simp: extends_def intro: prefix_order.trans)

lemma extends_meta [simp]:
  "extends db (db'\<lparr>d_meta := m\<rparr>) \<longleftrightarrow> extends db db'" "extends (db\<lparr>d_meta := m\<rparr>) db' \<longleftrightarrow> extends db db'"
  by (simp_all add: extends_def)

lemma extends_user_rows: "extends db db' \<Longrightarrow> set (user_rows db) \<subseteq> set (user_rows db')"
  by (auto simp: extends_def user_rows_def prefix_def)

lemma extends_cmeta: "extends db db' \<Longrightarrow> set (d_cmeta db) \<subseteq> set (d_cmeta db')"
  by (auto simp: extends_def prefix_def)

lemma extends_insert_claim: "insert_claim c a tx db = Inr db' \<Longrightarrow> extends db db'"
  by (erule insert_claim_Ok) (simp add: extends_def seq_ok_def)

lemma extends_insert_meta: "insert_meta_rows rows a tx op db = Inr db' \<Longrightarrow> extends db db'"
  by (erule insert_meta_rows_Ok) (simp add: extends_def)

lemma extends_fold:
  assumes "foldE f db xs = Inr db'" "\<And>x a b. x \<in> set xs \<Longrightarrow> f a x = Inr b \<Longrightarrow> extends a b"
  shows "extends db db'"
  by (rule foldE_invariant [where P = "extends db", OF assms(1)]) (auto intro: extends_trans assms(2))

lemma extends_insert_annotations: "insert_annotation_rows rows tx op skip db = Inr db' \<Longrightarrow> extends db db'"
  by (auto simp: insert_annotation_rows_def err_simps intro: extends_fold extends_insert_meta)

lemma extends_initial: "insert_initial a meta anno tx op db = Inr db' \<Longrightarrow> extends db db'"
  by (auto simp: insert_initial_def err_simps split: if_splits
      intro: extends_trans extends_insert_meta extends_insert_annotations)

lemma extends_assertion_write: "insert_assertion_write tx db p = Inr db' \<Longrightarrow> extends db db'"
  by (auto simp: insert_assertion_write_def err_simps split: prod.splits
      intro: extends_trans extends_insert_claim extends_initial)

lemma extends_revocation_write: "insert_revocation_write ix ws tx db p = Inr db' \<Longrightarrow> extends db db'"
  by (auto simp: insert_revocation_write_def err_simps split: prod.splits option.splits
      intro: extends_trans extends_insert_claim extends_initial)

lemma extends_meta_append: "insert_meta_append tx db p = Inr db' \<Longrightarrow> extends db db'"
  by (auto simp: insert_meta_append_def split: prod.splits intro: extends_insert_meta)

lemma extends_cas: "cas_head expected head db = Inr db' \<Longrightarrow> extends db db'"
  by (auto simp: cas_head_def split: if_splits)

lemma extends_batch: "batch_db L as rs expected head md ms tx ids = Inr db' \<Longrightarrow> extends (l_db L) db'"
proof -
  assume "batch_db L as rs expected head md ms tx ids = Inr db'"
  then obtain db1 db2 db3 db4 where d: "cas_head expected head (l_db L) = Inr db1"
    "foldE (insert_assertion_write tx) db1 (enumerate 0 as) = Inr db2"
    "foldE (insert_revocation_write (l_ix L) as tx) db2 (enumerate (length as) rs) = Inr db3"
    "foldE (insert_meta_append tx) db3 (enumerate (length as + length rs) ms) = Inr db4"
    and db': "db' = upsert_metadata md db4"
    by (auto simp: batch_db_def err_simps split: if_splits)
  have "extends (l_db L) db1" by (rule extends_cas [OF d(1)])
  moreover have "extends db1 db2" by (rule extends_fold [OF d(2)]) (rule extends_assertion_write)
  moreover have "extends db2 db3" by (rule extends_fold [OF d(3)]) (rule extends_revocation_write)
  moreover have "extends db3 db4" by (rule extends_fold [OF d(4)]) (rule extends_meta_append)
  ultimately have "extends (l_db L) db4" by (blast intro: extends_trans)
  then show ?thesis by (simp add: db' upsert_metadata_def)
qed

section \<open>Steps\<close>

lemma write_session_extends:
  assumes "\<And>db hook. body = Inr (db, hook) \<Longrightarrow> extends (l_db L) db"
  shows "extends (l_db L) (l_db (fst (write_session L body)))"
  using assms by (cases rule: write_session_cases [of L body]) auto

lemma same_db_replace_defaults [simp]: "l_db (fst (replace_tx_meta_defaults rows L)) = l_db L"
  by (simp add: replace_tx_meta_defaults_def split: sum.splits)

lemma same_db_reload [simp]: "l_db (fst (reload L)) = l_db L"
  by (simp add: reload_def case_prod_beta Let_def)

lemma same_db_configure [simp]: "l_db (fst (configure_meta_load_policy keys L)) = l_db L"
proof -
  have "l_db (fst (thenS (reload K) (\<lambda>L' _. replace_tx_meta_defaults d L'))) = l_db K" for K d
    by (rule thenS_invariant [where P = "\<lambda>L. l_db L = l_db K"]) simp_all
  then show ?thesis by (simp add: configure_meta_load_policy_def split: sum.splits)
qed

lemma thenS_result [simp]: "fst (thenS p (\<lambda>L _. (L, r))) = fst p"
  by (cases p; cases "snd p") simp_all

definition claims_grow :: "ledger_db \<Rightarrow> ledger_db \<Rightarrow> bool" where
  "claims_grow db db' \<longleftrightarrow> prefix (d_claims db) (d_claims db') \<and> (seq_ok db \<longrightarrow> seq_ok db')"

lemma claims_grow_refl [simp]: "claims_grow db db"
  by (simp add: claims_grow_def)

lemma claims_grow_trans: "claims_grow a b \<Longrightarrow> claims_grow b c \<Longrightarrow> claims_grow a c"
  by (auto simp: claims_grow_def intro: prefix_order.trans)

lemma claims_force_replace:
  "claims_grow (l_db L) (l_db (fst (force_replace_meta_rows rows L)))"
proof -
  let ?db0 = "(l_db L)\<lparr>d_cmeta := filter (\<lambda>r. like_compat_prefix (cm_key r)) (d_cmeta (l_db L))\<rparr>"
  have "claims_grow ?db0 db"
    if "foldE (\<lambda>db (op, row). insert_meta_rows [MRow False row] (m_asrt row) tx op db) ?db0 xs = Inr db"
    for db tx xs
    using extends_fold [OF that] extends_insert_meta by (fastforce simp: extends_def claims_grow_def)
  then have "claims_grow (l_db L) (l_db (fst (write_session L (bindE
      (foldE (\<lambda>db (op, row). insert_meta_rows [MRow False row] (m_asrt row) tx op db) ?db0 xs) (\<lambda>db. Inr (db, h db))))))"
    for tx xs h
    by (cases rule: write_session_cases [of L "bindE
      (foldE (\<lambda>db (op, row). insert_meta_rows [MRow False row] (m_asrt row) tx op db) ?db0 xs) (\<lambda>db. Inr (db, h db))"])
      (auto simp: err_simps claims_grow_def)
  then show ?thesis
    by (auto simp: force_replace_meta_rows_def Let_def claims_grow_def split: sum.splits)
qed

lemma step_claims: "ledger_step L L' \<Longrightarrow> claims_grow (l_db L) (l_db L')"
proof -
  have ext: "extends (l_db L) (l_db L') \<Longrightarrow> ?thesis" by (simp add: extends_def claims_grow_def)
  assume "ledger_step L L'"
  then show ?thesis
  proof cases
    case (step_append_assertion fresh claim args meta anno idem asrt_id)
    have "extends (l_db L) (l_db (fst (write_assertion L c m a)))" for c m a
      unfolding write_assertion_def Let_def
      by (rule write_session_extends) (auto simp: err_simps intro: extends_trans extends_insert_claim extends_initial)
    then have "extends (l_db L) (l_db L')"
      by (auto simp: step_append_assertion append_assertion_def split: sum.splits)
    then show ?thesis by (rule ext)
  next
    case (step_append_revocation fresh revokes meta idem revoker)
    have "extends (l_db L) (l_db (fst (write_revocation L r m a)))" for r m a
      unfolding write_revocation_def Let_def
      by (rule write_session_extends)
        (auto simp: err_simps split: option.splits intro: extends_trans extends_insert_claim extends_initial)
    then have "extends (l_db L) (l_db L')"
      by (auto simp: step_append_revocation append_revocation_def Let_def split: sum.splits)
    then show ?thesis by (rule ext)
  next
    case (step_append_claim claim)
    then have "extends (l_db L) (l_db L')"
      by (auto simp: append_claim_def Let_def err_simps split: sum.splits
          intro!: write_session_extends intro: extends_insert_claim)
    then show ?thesis by (rule ext)
  next
    case (step_append_meta mrows)
    then have "extends (l_db L) (l_db L')"
      by (auto simp: append_meta_def Let_def err_simps split: sum.splits
          intro!: write_session_extends intro: extends_fold extends_insert_meta)
    then show ?thesis by (rule ext)
  next
    case (step_append_annotations arows)
    then have "extends (l_db L) (l_db L')"
      by (auto simp: append_annotations_def Let_def err_simps split: sum.splits
          intro!: write_session_extends intro: extends_fold extends_insert_annotations)
    then show ?thesis by (rule ext)
  next
    case (step_append_revokes row)
    then have "extends (l_db L) (l_db L')"
      by (auto simp: append_revokes_def Let_def err_simps split: sum.splits option.splits
          intro!: write_session_extends intro: extends_insert_claim)
    then show ?thesis by (rule ext)
  next
    case (step_commit_batch assertions revocations expected_head head metadata meta_appends)
    then have "extends (l_db L) (l_db L')"
      by (auto simp: commit_batch_def Let_def err_simps split: sum.splits
          intro!: write_session_extends intro: extends_batch)
    then show ?thesis by (rule ext)
  next
    case (step_set_meta key v)
    then have "extends (l_db L) (l_db L')" by (auto simp: set_ledger_meta_def intro!: write_session_extends)
    then show ?thesis by (rule ext)
  next
    case (step_replace_meta key v)
    then have "extends (l_db L) (l_db L')" by (auto simp: replace_ledger_meta_def intro!: write_session_extends)
    then show ?thesis by (rule ext)
  next
    case (step_force_replace mrows)
    then show ?thesis by (simp add: claims_force_replace)
  qed (auto simp: append_claim_args_def record_tx_meta_defaults_def close_ledger_def intro: ext split: sum.splits)
qed

text \<open>Histories: any number of steps.\<close>

abbreviation ledger_steps :: "ledger \<Rightarrow> ledger \<Rightarrow> bool" where
  "ledger_steps \<equiv> ledger_step\<^sup>*\<^sup>*"

lemma steps_claims: "ledger_steps L L' \<Longrightarrow> claims_grow (l_db L) (l_db L')"
  by (induction rule: rtranclp_induct) (auto intro: step_claims claims_grow_trans)

lemma steps_claims_prefix: "ledger_steps L L' \<Longrightarrow> prefix (d_claims (l_db L)) (d_claims (l_db L'))"
  using steps_claims by (simp add: claims_grow_def)

lemma find_prefix: "find P xs = Some x \<Longrightarrow> prefix xs ys \<Longrightarrow> find P ys = Some x"
proof -
  have "find P xs = Some x \<Longrightarrow> find P (xs @ zs) = Some x" for zs
    by (induction xs) (auto split: if_splits)
  then show "find P xs = Some x \<Longrightarrow> prefix xs ys \<Longrightarrow> find P ys = Some x"
    by (auto simp: prefix_def)
qed

lemma sequence_stable:
  assumes "ledger_steps L L'" "claim_sequence L a = Inr (Some n)" "\<not> l_closed L'"
  shows "claim_sequence L' a = Inr (Some n)"
proof -
  from assms(2) obtain r where r: "find (\<lambda>r. cr_asrt r = a) (d_claims (l_db L)) = Some r" "n = cr_seq r" "a \<noteq> []"
    by (auto simp: claim_sequence_def err_simps split: if_splits)
  from find_prefix [OF r(1) steps_claims_prefix [OF assms(1)]] show ?thesis
    using r assms(3) by (simp add: claim_sequence_def ensure_open_def)
qed

end
