(* ===== verification/Ledger_Refine.thy ===== *)
theory Ledger_Refine
  imports Ledger_Append
begin

text \<open>
  Every successful write keeps the indexes coherent with the tables: a simulation between the
  statements of a write session and its post-commit hook, operation by operation.
\<close>

section \<open>New metadata rows\<close>

definition meta_stable :: "ledger_db \<Rightarrow> bool" where
  "meta_stable db \<longleftrightarrow> (\<forall>r \<in> set (d_cmeta db). \<forall>k c. cm_kind r = Some k \<longrightarrow> cm_value r = Some c \<longrightarrow> cell_stable k c)"

lemma meta_stable_extends: "extends db db' \<Longrightarrow> meta_stable db' \<Longrightarrow> meta_stable db"
  using extends_cmeta by (fastforce simp: meta_stable_def)

lemma meta_stable_d_meta [simp]: "meta_stable (db\<lparr>d_meta := m\<rparr>) = meta_stable db"
  by (simp add: meta_stable_def)

lemma foldE_check: "foldE (\<lambda>_ x. g x) () xs = Inr () \<longleftrightarrow> (\<forall>x \<in> set xs. g x = Inr ())"
  by (induction xs) (auto simp: err_simps)

lemma storage_key_valid:
  assumes "validate_annotation_rows rows = Inr ()" "r \<in> set rows"
  shows "storage_key_ok (a_asrt r) (annotation_storage_key r) (a_kind r)"
proof -
  from assms have "validate_annotation_rows [r\<lparr>a_value := v\<rparr>] = Inr ()" for v
    by (auto simp: validate_annotation_rows_def foldE_check split: if_splits)
  moreover have "r\<lparr>a_value := v\<rparr> = \<lparr>a_asrt = a_asrt r, a_ns = a_ns r, a_cat = a_cat r, a_key = a_key r,
      a_kind = a_kind r, a_value = v, a_origin = a_origin r, a_deriv = a_deriv r\<rparr>" for v
    by (cases r) simp
  ultimately show ?thesis
    by (simp add: storage_key_ok_def annotation_storage_key_def annotation_from_storage_key_def)
qed

lemma storage_key_value_free:
  assumes "annotation_from_storage_key a key kind v = Inr anno"
  shows "storage_key_ok a key kind" and "is_reserved_annotation_meta_key key"
proof -
  from assms obtain ns cat k origin deriv where key: "key = AKey ns cat k origin deriv"
    by (cases key) (auto simp: annotation_from_storage_key_def)
  let ?row = "\<lambda>v. \<lparr>a_asrt = a, a_ns = ns, a_cat = cat, a_key = k, a_kind = kind, a_value = v,
    a_origin = origin, a_deriv = deriv\<rparr>"
  from assms key have "validate_annotation_rows [?row v] = Inr ()"
    by (cases "validate_annotation_rows [?row v]") (auto simp: annotation_from_storage_key_def split: if_splits)
  then have "validate_annotation_rows [?row w] = Inr ()" for w
    by (auto simp: validate_annotation_rows_def foldE_check split: if_splits)
  then show "storage_key_ok a key kind"
    by (simp add: storage_key_ok_def annotation_from_storage_key_def key)
  show "is_reserved_annotation_meta_key key" by (simp add: key)
qed

definition append_ok :: "ustr \<Rightarrow> meta_append \<Rightarrow> bool" where
  "append_ok a x \<longleftrightarrow> (case x of
      MRow _ row \<Rightarrow> is_reserved_annotation_meta_key (m_key row) \<longrightarrow> storage_key_ok a (m_key row) (m_kind row)
    | MTombstone _ _ \<Rightarrow> True)"

lemma cmeta_row_ok_append:
  assumes "encode_append a tx op x = Inr r" "append_ok a x"
    "\<And>k c. cm_kind r = Some k \<Longrightarrow> cm_value r = Some c \<Longrightarrow> cell_stable k c"
  shows "cmeta_row_ok r"
  using assms by (cases x) (auto simp: encode_append_def err_simps cmeta_row_ok_def append_ok_def)

lemma coherent_insert_meta:
  assumes coh: "coherent lazy db ix" and ins: "insert_meta_rows rows a tx op db = Inr db'"
    and own: "\<forall>x \<in> set rows. append_asrt x = a \<and> append_ok a x \<and> projected_as p x"
    and at: "\<forall>r \<in> set (d_cmeta db). position r \<le> (tx, op)" and stable: "meta_stable db'"
  shows "coherent lazy db' (idx_add_claim_meta_events lazy rows tx op p ix)"
    and "\<forall>r \<in> set (d_cmeta db'). position r \<le> (tx, op)" and "d_claims db' = d_claims db"
proof -
  from ins obtain rs where rs: "list_all2 (\<lambda>x r. encode_append a tx op x = Inr r) rows rs"
    and db': "db' = db\<lparr>d_cmeta := d_cmeta db @ rs\<rparr>" by (rule insert_meta_rows_Ok)
  have "\<forall>r \<in> set rs. cmeta_row_ok r"
  proof
    fix r assume r: "r \<in> set rs"
    with rs obtain x where x: "x \<in> set rows" "encode_append a tx op x = Inr r"
      by (auto simp: list_all2_conv_all_nth in_set_conv_nth [of r]) (metis nth_mem)
    moreover have "cm_kind r = Some k \<Longrightarrow> cm_value r = Some c \<Longrightarrow> cell_stable k c" for k c
      using stable r by (auto simp: meta_stable_def db')
    ultimately show "cmeta_row_ok r" using own cmeta_row_ok_append by blast
  qed
  then show "coherent lazy db' (idx_add_claim_meta_events lazy rows tx op p ix)"
    "\<forall>r \<in> set (d_cmeta db'). position r \<le> (tx, op)"
    using own by (intro coherent_add_meta_rows [OF coh rs db' _ at, where p = p]; simp)+
  show "d_claims db' = d_claims db" by (simp add: db')
qed

section \<open>Initial metadata and annotations\<close>

definition initial_ok :: "ustr \<Rightarrow> meta_row list \<Rightarrow> annotation_row list \<Rightarrow> bool" where
  "initial_ok a meta anno \<longleftrightarrow>
     (\<forall>m \<in> set meta. m_asrt m = a \<and> \<not> is_reserved_annotation_meta_key (m_key m)) \<and>
     (\<forall>r \<in> set anno. a_asrt r = a) \<and> validate_annotation_rows anno = Inr ()"

lemma compatibility_rows:
  assumes "annotation_compatibility_meta_rows rows skip = Inr cs" "c \<in> set cs"
  shows "\<exists>r \<in> set rows. c = storage_row r"
proof -
  from assms(1) obtain rep ids where "mapE annotation_identity (initial_meta_annotation_rows skip) = Inr rep"
    and cs: "cs = map (\<lambda>p. storage_row (fst p)) (filter (\<lambda>p. snd p \<notin> set rep) (zip rows ids))"
    by (auto simp: annotation_compatibility_meta_rows_def err_simps)
  with assms(2) obtain r i where "(r, i) \<in> set (zip rows ids)" "c = storage_row r" by auto
  then show ?thesis using set_zip_leftD by metis
qed

lemma compatibility_reproducible:
  assumes "annotation_compatibility_meta_rows (initial_meta_annotation_rows meta) meta = Inr cs"
  shows "cs = []"
proof -
  from assms obtain ids where "mapE annotation_identity (initial_meta_annotation_rows meta) = Inr ids"
    and "cs = map (\<lambda>p. storage_row (fst p))
      (filter (\<lambda>p. snd p \<notin> set ids) (zip (initial_meta_annotation_rows meta) ids))"
    by (auto simp: annotation_compatibility_meta_rows_def err_simps)
  moreover from this have "snd p \<in> set ids" if "p \<in> set (zip xs ids)" for p and xs :: "annotation_row list"
    using that by (cases p) (auto dest: set_zip_rightD)
  ultimately show ?thesis by (simp add: filter_empty_conv)
qed

lemma insert_one_by_one:
  assumes "foldE (\<lambda>db row. insert_meta_rows [MRow True row] (m_asrt row) tx op db) db cs = Inr db'"
    and "\<forall>c \<in> set cs. m_asrt c = a"
  shows "insert_meta_rows (map (MRow True) cs) a tx op db = Inr db'"
  using assms
proof (induction cs arbitrary: db)
  case Nil
  then show ?case by (simp add: insert_meta_rows_def)
next
  case (Cons c cs)
  from Cons.prems obtain db1 where db1: "insert_meta_rows [MRow True c] a tx op db = Inr db1"
    "foldE (\<lambda>db row. insert_meta_rows [MRow True row] (m_asrt row) tx op db) db1 cs = Inr db'"
    by (auto simp: err_simps)
  from Cons.IH [OF db1(2)] Cons.prems(2) have "insert_meta_rows (map (MRow True) cs) a tx op db1 = Inr db'"
    by simp
  with db1(1) show ?case by (auto simp: insert_meta_rows_def err_simps)
qed

lemma coherent_initial:
  assumes coh: "coherent lazy db ix" and ins: "insert_initial a meta anno tx op db = Inr db'"
    and ok: "initial_ok a meta anno" and at: "\<forall>r \<in> set (d_cmeta db). position r \<le> (tx, op)"
    and stable: "meta_stable db'" and hook: "idx_add_initial lazy meta anno tx op ix = (ix', Inr ())"
  shows "coherent lazy db' ix'" and "\<forall>r \<in> set (d_cmeta db'). position r \<le> (tx, op)"
    and "d_claims db' = d_claims db"
proof -
  from ins obtain db1 where db1: "insert_meta_rows (map (MRow False) meta) a tx op db = Inr db1"
    and rest: "(if anno = [] then Inr db1 else insert_annotation_rows anno tx op meta db1) = Inr db'"
    by (auto simp: insert_initial_def err_simps)
  have "extends db1 db'"
    using rest by (auto split: if_splits intro: extends_insert_annotations)
  then have st1: "meta_stable db1" using stable by (rule meta_stable_extends)
  have own: "\<forall>x \<in> set (map (MRow False) meta). append_asrt x = a \<and> append_ok a x \<and> projected_as True x"
    using ok by (auto simp: initial_ok_def append_asrt_def append_ok_def projected_as_def)
  note c1 = coherent_insert_meta [OF coh db1 own at st1]
  let ?i = "idx_add_claim_meta_events lazy (map (MRow False) meta) tx op True ix"
  have "coherent lazy db' ix' \<and> (\<forall>r \<in> set (d_cmeta db'). position r \<le> (tx, op)) \<and> d_claims db' = d_claims db1"
  proof (cases "anno = []")
    case True
    then show ?thesis using rest hook c1 by (simp add: idx_add_initial_def Let_def)
  next
    case False
    with rest obtain cs where cs: "annotation_compatibility_meta_rows anno meta = Inr cs"
      and ins2: "foldE (\<lambda>db row. insert_meta_rows [MRow True row] (m_asrt row) tx op db) db1 cs = Inr db'"
      by (auto simp: insert_annotation_rows_def err_simps)
    have row: "\<exists>r \<in> set anno. c = storage_row r" if "c \<in> set cs" for c
      using compatibility_rows [OF cs that] .
    then have asrt: "\<forall>c \<in> set cs. m_asrt c = a" using ok by (fastforce simp: initial_ok_def storage_row_def)
    have own2: "\<forall>x \<in> set (map (MRow True) cs). append_asrt x = a \<and> append_ok a x \<and> projected_as False x"
    proof
      fix x assume "x \<in> set (map (MRow True) cs)"
      then obtain r where r: "r \<in> set anno" "x = MRow True (storage_row r)" using row by auto
      with ok have "storage_key_ok (a_asrt r) (annotation_storage_key r) (a_kind r)" "a_asrt r = a"
        by (auto simp: initial_ok_def intro: storage_key_valid)
      then show "append_asrt x = a \<and> append_ok a x \<and> projected_as False x"
        by (simp add: r(2) storage_row_def append_asrt_def append_ok_def projected_as_def annotation_storage_key_def)
    qed
    note c2 = coherent_insert_meta [OF c1(1) insert_one_by_one [OF ins2 asrt] own2 c1(2) stable]
    from hook False cs have "ix' = idx_add_annotation lazy anno
        (idx_add_claim_meta_events lazy (map (MRow True) cs) tx op False ?i)"
      by (simp add: idx_add_initial_def idx_add_compatibility_def Let_def)
    with c2 show ?thesis by (simp add: coherent_add_annotation)
  qed
  then show "coherent lazy db' ix'" "\<forall>r \<in> set (d_cmeta db'). position r \<le> (tx, op)"
    "d_claims db' = d_claims db" using c1(3) by auto
qed

section \<open>Positions\<close>

definition next_at :: "nat \<Rightarrow> nat \<Rightarrow> ledger_db \<Rightarrow> bool" where
  "next_at tx op db \<longleftrightarrow> next_claim_at tx op db \<and> (\<forall>r \<in> set (d_cmeta db). position r < (tx, op))"

lemma insert_claim_cmeta: "insert_claim c a tx db = Inr db' \<Longrightarrow> d_cmeta db' = d_cmeta db"
  by (erule insert_claim_Ok) simp

lemma next_at_after:
  assumes "next_at tx op db" "insert_claim c a tx db = Inr db1" "d_claims db' = d_claims db1"
    "\<forall>r \<in> set (d_cmeta db'). position r \<le> (tx, op)"
  shows "next_at tx (Suc op) db'"
proof -
  have "next_claim_at tx (Suc op) db1"
    using assms(1) next_claim_at_insert [OF _ assms(2)] by (simp add: next_at_def)
  moreover have "p \<le> (tx, op) \<Longrightarrow> p < (tx, Suc op)" for p :: "nat \<times> nat"
    by (cases p) auto
  ultimately show ?thesis using assms(3,4) by (auto simp: next_at_def next_claim_at_def)
qed

lemma next_direct_bounds:
  assumes "next_direct_tx_seq db \<le> tx"
  shows "\<forall>r \<in> set (d_claims db). cr_tx r < tx" "\<forall>r \<in> set (d_cmeta db). cm_tx r < tx"
proof -
  let ?s = "map cr_tx (d_claims db) @ map cm_tx (d_cmeta db)"
  have "n < tx" if "n \<in> set ?s" for n
  proof -
    have "n \<le> Max (set ?s)" using that by simp
    moreover have "next_direct_tx_seq db = Max (set ?s) + 1"
      using that by (auto simp: next_direct_tx_seq_def Let_def)
    ultimately show ?thesis using assms by linarith
  qed
  then show "\<forall>r \<in> set (d_claims db). cr_tx r < tx" "\<forall>r \<in> set (d_cmeta db). cm_tx r < tx" by auto
qed

lemma next_at_direct:
  assumes "next_direct_tx_seq db \<le> tx"
  shows "next_at tx 0 db"
  using next_direct_bounds [OF assms]
  by (fastforce simp: next_at_def next_claim_at_def tx_count_def position_def filter_empty_conv)

section \<open>One assertion, one revocation\<close>

lemma coherent_assertion:
  assumes "coherent lazy db ix" "insert_claim c (c_asrt c) tx db = Inr db1"
    "insert_initial (c_asrt c) meta anno tx op db1 = Inr db'" "initial_ok (c_asrt c) meta anno"
    "\<not> starts_with (c_pred c) SYSTEM_PREFIX" "next_at tx op db" "meta_stable db'"
    "apply_assertion_indexes lazy c meta anno tx op ix = (ix', Inr ())"
  shows "coherent lazy db' ix' \<and> next_at tx (Suc op) db'"
proof -
  from assms(8) obtain ix1 where ix1: "apply_claim_index c tx op ix = (ix1, Inr ())"
    "idx_add_initial lazy meta anno tx op ix1 = (ix', Inr ())"
    by (auto simp: apply_assertion_indexes_def thenS_Inr_iff)
  have at: "next_claim_at tx op db" using assms(6) by (simp add: next_at_def)
  have "\<forall>r \<in> set (d_cmeta db1). position r \<le> (tx, op)"
    using assms(6) insert_claim_cmeta [OF assms(2)] by (auto simp: next_at_def less_imp_le)
  note c = coherent_initial [OF coherent_add_claim [OF assms(1,2,5) at ix1(1)] assms(3,4) this assms(7) ix1(2)]
  with next_at_after [OF assms(6,2)] show ?thesis by blast
qed

lemma coherent_revocation:
  assumes "coherent lazy db ix" "insert_claim (revoke_claim v e) (r_revoker v) tx db = Inr db1"
    "insert_initial (r_revoker v) meta anno tx op db1 = Inr db'" "initial_ok (r_revoker v) meta anno"
    "next_at tx op db" "meta_stable db'"
    "thenS (apply_revoke_claim (revoke_claim v e) v tx op ix)
       (\<lambda>ix _. idx_add_initial lazy meta anno tx op ix) = (ix', Inr ())"
  shows "coherent lazy db' ix' \<and> next_at tx (Suc op) db'"
proof -
  from assms(7) obtain ix1 where ix1: "apply_revoke_claim (revoke_claim v e) v tx op ix = (ix1, Inr ())"
    "idx_add_initial lazy meta anno tx op ix1 = (ix', Inr ())"
    by (auto simp: thenS_Inr_iff)
  have at: "next_claim_at tx op db" using assms(5) by (simp add: next_at_def)
  have "\<forall>r \<in> set (d_cmeta db1). position r \<le> (tx, op)"
    using assms(5) insert_claim_cmeta [OF assms(2)] by (auto simp: next_at_def less_imp_le)
  note c = coherent_initial [OF coherent_add_revoke [OF assms(1,2) at ix1(1)] assms(3,4) this assms(6) ix1(2)]
  with next_at_after [OF assms(5,2)] show ?thesis by blast
qed

end
