(* ===== verification/Ledger_Simulation.thy ===== *)
theory Ledger_Simulation
  imports Ledger_Refine
begin

text \<open>
  The simulation for whole operations.  \<open>clean_step\<close> is a write that returned normally or
  failed without committing; a batch commit must use a transaction number above all stored
  ones, which is what a database-managed ledger does.  Clean steps preserve coherence, hence
  along clean histories the live indexes agree with what reopening the tables would give.
\<close>

abbreviation coherent_ledger :: "ledger \<Rightarrow> bool" where
  "coherent_ledger L \<equiv> coherent (l_lazy L) (l_db L) (l_ix L)"

section \<open>Folding a simulation\<close>

lemma sim_fold:
  assumes "foldE f db (enumerate n xs) = Inr db'" "foldS g ix (enumerate n xs) = (ix', Inr ())"
    and "R n db ix" "meta_stable db'"
    and step: "\<And>k x db ix db1 ix1. x \<in> set xs \<Longrightarrow> R k db ix \<Longrightarrow> f db (k, x) = Inr db1 \<Longrightarrow>
      g ix (k, x) = (ix1, Inr ()) \<Longrightarrow> meta_stable db1 \<Longrightarrow> R (Suc k) db1 ix1"
    and ext: "\<And>p a b. f a p = Inr b \<Longrightarrow> extends a b"
  shows "R (n + length xs) db' ix'"
  using assms(1-3) step
proof (induction xs arbitrary: n db ix)
  case (Cons x xs)
  from Cons.prems(1,2) obtain db1 ix1 where s: "f db (n, x) = Inr db1" "foldE f db1 (enumerate (Suc n) xs) = Inr db'"
    "g ix (n, x) = (ix1, Inr ())" "foldS g ix1 (enumerate (Suc n) xs) = (ix', Inr ())"
    by (auto simp: err_simps thenS_Inr_iff)
  have "meta_stable db1" using extends_fold [OF s(2)] ext assms(4) meta_stable_extends by blast
  from Cons.prems(4) [OF _ Cons.prems(3) s(1,3) this] have "R (Suc n) db1 ix1" by simp
  have "R (Suc n + length xs) db' ix'"
    by (rule Cons.IH [OF s(2,4) \<open>R (Suc n) db1 ix1\<close>]) (rule Cons.prems(4); simp)
  then show ?case by simp
qed simp

lemma fold_as_foldS: "foldS (\<lambda>ix p. (h p ix, Inr ())) ix xs = (fold h xs ix, Inr ())"
  by (induction xs arbitrary: ix) simp_all

section \<open>Validated input\<close>

lemma merge_annotation_subset: "set (merge_annotation_rows a b) \<subseteq> set a \<union> set b"
proof -
  have "snd ` set (foldl (\<lambda>m r. dict_set (anno_id r) r m) d xs) \<subseteq> snd ` set d \<union> set xs" for d xs
  proof (induction xs arbitrary: d)
    case (Cons x xs)
    have "snd ` set (dict_set (anno_id x) x d) \<subseteq> insert x (snd ` set d)"
      by (induction d) auto
    with Cons.IH [of "dict_set (anno_id x) x d"] show ?case by auto
  qed simp
  from this [of "[]" "a @ b"] show ?thesis by (auto simp: merge_annotation_rows_def)
qed

lemma initial_annotation_asrt: "r \<in> set (initial_meta_annotation_rows meta) \<Longrightarrow> \<exists>m \<in> set meta. a_asrt r = m_asrt m"
  by (auto simp: initial_meta_annotation_rows_def initial_meta_annotation_row_def List.map_filter_def
      split: option.splits if_splits)

lemma ingest_key_plain [simp]: "\<not> starts_with (u ''ingest_key'') ANNOTATION_COMPAT_PREFIX"
  by (simp add: ANNOTATION_COMPAT_PREFIX_def starts_with_def u_def)

lemma materialize_ok:
  assumes "materialize_idempotency_meta (with_asrt a rows) idem a = Inr meta"
    "\<forall>m \<in> set rows. \<not> is_reserved_annotation_meta_key (m_key m)"
  shows "\<forall>m \<in> set meta. m_asrt m = a \<and> \<not> is_reserved_annotation_meta_key (m_key m)"
proof -
  have base: "\<forall>m \<in> set (with_asrt a rows). m_asrt m = a \<and> \<not> is_reserved_annotation_meta_key (m_key m)"
    using assms(2) by (auto simp: with_asrt_def)
  from assms(1) have "meta = with_asrt a rows \<or> (\<exists>k. meta = with_asrt a rows @
      [\<lparr>m_asrt = a, m_key = MKey (u ''ingest_key''), m_kind = u ''str'', m_value = PStr k\<rparr>])"
    by (auto simp: materialize_idempotency_meta_def split: option.splits list.splits if_splits)
  with base show ?thesis by auto
qed

lemma plain_rows_assertion:
  "validate_meta_rows_for_append_assertion rows = Inr () \<Longrightarrow>
     \<forall>m \<in> set rows. \<not> is_reserved_annotation_meta_key (m_key m)"
  by (auto simp: validate_meta_rows_for_append_assertion_def foldE_check split: if_splits)

lemma plain_rows:
  "validate_meta_rows rows = Inr () \<Longrightarrow> \<forall>m \<in> set rows. \<not> is_reserved_annotation_meta_key (m_key m)"
  by (auto simp: validate_meta_rows_def validate_meta_row_def foldE_check split: if_splits)

lemma prepared_assertion:
  assumes "prepare_assertion L claim args meta_rows anno_rows idem a = Inr (Inr (c, meta, anno))"
    "\<forall>m \<in> set meta_rows. \<not> is_reserved_annotation_meta_key (m_key m)"
  shows "c_asrt c = a \<and> c_pred c = c_pred claim \<and> initial_ok a meta anno"
proof -
  from assms(1) obtain existing where "existing = None"
    "materialize_idempotency_meta (with_asrt a meta_rows) idem a = Inr meta"
    and c: "c_asrt c = a" "c_pred c = c_pred claim"
    and anno: "anno = merge_annotation_rows (initial_meta_annotation_rows meta) (anno_with_asrt a anno_rows)"
      "validate_annotation_rows anno = Inr ()"
    by (auto simp: prepare_assertion_def err_simps Let_def split: option.splits if_splits)
  then have m: "\<forall>m \<in> set meta. m_asrt m = a \<and> \<not> is_reserved_annotation_meta_key (m_key m)"
    using materialize_ok assms(2) by blast
  moreover have "\<forall>r \<in> set anno. a_asrt r = a"
    using m merge_annotation_subset initial_annotation_asrt
    by (fastforce simp: anno(1) anno_with_asrt_def)
  ultimately show ?thesis using c anno(2) by (simp add: initial_ok_def)
qed

lemma prepared_revocation:
  assumes "prepare_revocation L meta_rows idem a = Inr (Inr (meta, anno))"
    "\<forall>m \<in> set meta_rows. \<not> is_reserved_annotation_meta_key (m_key m)"
  shows "initial_ok a meta anno \<and> anno = initial_meta_annotation_rows meta"
proof -
  from assms(1) have mat: "materialize_idempotency_meta (with_asrt a meta_rows) idem a = Inr meta"
    and anno: "anno = initial_meta_annotation_rows meta" "validate_annotation_rows anno = Inr ()"
    by (auto simp: prepare_revocation_def err_simps Let_def split: option.splits)
  from materialize_ok [OF mat assms(2)] have m: "\<forall>m \<in> set meta. m_asrt m = a \<and> \<not> is_reserved_annotation_meta_key (m_key m)" .
  moreover have "\<forall>r \<in> set anno. a_asrt r = a" using m initial_annotation_asrt anno(1) by fastforce
  ultimately show ?thesis using anno by (simp add: initial_ok_def)
qed

section \<open>Direct writes\<close>

lemma write_session_coherent:
  assumes "write_session L body = (L', Inr r)"
    and "\<And>db hook ix'. body = Inr (db, hook) \<Longrightarrow> hook (l_ix L) = (ix', Inr ()) \<Longrightarrow> meta_stable db \<Longrightarrow>
      coherent (l_lazy L) db ix'"
    and "meta_stable (l_db L')"
  shows "coherent_ledger L'"
proof (cases rule: write_session_cases [of L body])
  case (failed e)
  with assms(1) show ?thesis by simp
next
  case (committed db hook)
  obtain ix' where ix': "hook (l_ix L) = (ix', Inr ())"
    using committed(3) assms(1) by (cases "hook (l_ix L)") auto
  with committed(3) assms(1) have "L' = L\<lparr>l_db := db, l_ix := ix'\<rparr>" by simp
  with assms(2) [OF committed(1) ix'] assms(3) show ?thesis by simp
qed

lemma coherent_write_assertion:
  assumes "coherent_ledger L" "write_assertion L c meta anno = (L', Inr ())"
    "initial_ok (c_asrt c) meta anno" "\<not> starts_with (c_pred c) SYSTEM_PREFIX" "meta_stable (l_db L')"
  shows "coherent_ledger L'"
  using assms(2) unfolding write_assertion_def Let_def
  by (rule write_session_coherent)
    (use assms in \<open>auto simp: err_simps dest: coherent_assertion [OF assms(1) _ _ assms(3,4) next_at_direct [OF order.refl]]\<close>)

lemma revocation_hook:
  assumes "annotation_compatibility_meta_rows anno meta = Inr cs \<or> anno = []"
    "anno = initial_meta_annotation_rows meta"
  shows "apply_revocation_indexes lazy claim r meta anno tx ix =
    thenS (apply_revoke_claim claim r tx 0 ix) (\<lambda>ix _. idx_add_initial lazy meta anno tx 0 ix)"
proof (cases "anno = []")
  case True
  then show ?thesis by (simp add: apply_revocation_indexes_def idx_add_initial_def Let_def)
next
  case False
  with assms have cs: "annotation_compatibility_meta_rows anno meta = Inr cs" by simp
  with assms(2) compatibility_reproducible have "cs = []" by blast
  with cs have "idx_add_compatibility lazy anno meta tx 0 i = (i, Inr ())" for i
    by (simp add: idx_add_compatibility_def idx_add_claim_meta_events_def)
  with False show ?thesis by (simp add: apply_revocation_indexes_def idx_add_initial_def Let_def)
qed

lemma coherent_write_revocation:
  assumes "coherent_ledger L" "write_revocation L v meta anno = (L', Inr ())"
    "initial_ok (r_revoker v) meta anno" "anno = initial_meta_annotation_rows meta" "meta_stable (l_db L')"
  shows "coherent_ledger L'"
  using assms(2) unfolding write_revocation_def Let_def
proof (rule write_session_coherent)
  let ?tx = "next_direct_tx_seq (l_db L)"
  fix db hook ix'
  assume "(case dict_get (x_claim_by_id (l_ix L)) (r_revoked v) of None \<Rightarrow> Inl ValueError
      | Some target \<Rightarrow>
          bindE (insert_claim (revoke_claim v (c_eref target)) (r_revoker v) ?tx (l_db L)) (\<lambda>db.
          bindE (insert_initial (r_revoker v) meta anno ?tx 0 db) (\<lambda>db.
          Inr (db, apply_revocation_indexes (l_lazy L) (revoke_claim v (c_eref target)) v meta anno ?tx)))) =
      Inr (db, hook)"
    and hook: "hook (l_ix L) = (ix', Inr ())" and st: "meta_stable db"
  then obtain e db1 where
    db1: "insert_claim (revoke_claim v e) (r_revoker v) ?tx (l_db L) = Inr db1"
    and db: "insert_initial (r_revoker v) meta anno ?tx 0 db1 = Inr db"
    and h: "hook = apply_revocation_indexes (l_lazy L) (revoke_claim v e) v meta anno ?tx"
    by (auto simp: err_simps split: option.splits)
  from db obtain cs where "annotation_compatibility_meta_rows anno meta = Inr cs \<or> anno = []"
    by (auto simp: insert_initial_def insert_annotation_rows_def err_simps split: if_splits)
  from revocation_hook [OF this assms(4)] hook h
  have "thenS (apply_revoke_claim (revoke_claim v e) v ?tx 0 (l_ix L))
      (\<lambda>ix _. idx_add_initial (l_lazy L) meta anno ?tx 0 ix) = (ix', Inr ())" by simp
  from coherent_revocation [OF assms(1) db1 db assms(3) next_at_direct [OF order.refl] st this]
  show "coherent (l_lazy L) db ix'" by simp
qed (rule assms(5))

section \<open>Batch commits\<close>

lemma foldE_each:
  assumes "foldE f s xs = Inr s'" "x \<in> set xs"
  shows "\<exists>a b. f a x = Inr b"
  using assms by (induction xs arbitrary: s) (auto simp: err_simps)

lemma validated_assertion:
  assumes "validate_assertion_write ids w = Inr ids'"
  shows "initial_ok (c_asrt (w_claim w)) (w_meta w) (w_anno w)"
    and "\<not> starts_with (c_pred (w_claim w)) SYSTEM_PREFIX"
  using assms
  by (auto simp: validate_assertion_write_def err_simps Let_def initial_ok_def list_ex_iff
      validate_claim_input_def dest: plain_rows split: if_splits)

lemma validated_revocation:
  assumes "validate_revocation_write ids rids w = Inr rids'"
  shows "initial_ok (r_revoker (v_revokes w)) (v_meta w) (v_anno w)"
  using assms
  by (auto simp: validate_revocation_write_def err_simps Let_def initial_ok_def list_ex_iff
      dest: plain_rows split: if_splits)

lemma insert_initial_claims: "insert_initial a meta anno tx op db = Inr db' \<Longrightarrow> d_claims db' = d_claims db"
proof -
  have m: "insert_meta_rows rows a tx op db = Inr db' \<Longrightarrow> d_claims db' = d_claims db" for rows a db db'
    by (erule insert_meta_rows_Ok) simp
  have "insert_annotation_rows anno tx op meta db = Inr db' \<Longrightarrow> d_claims db' = d_claims db" for db db'
    by (auto simp: insert_annotation_rows_def err_simps
        dest!: foldE_invariant [where P = "\<lambda>d. d_claims d = d_claims db"] m)
  with m show "insert_initial a meta anno tx op db = Inr db' \<Longrightarrow> d_claims db' = d_claims db"
    by (fastforce simp: insert_initial_def err_simps split: if_splits)
qed

lemma assertion_stage:
  assumes "foldE (insert_assertion_write tx) db (enumerate n ws) = Inr db'"
    "foldS (idx_add_assertion_write lazy tx) ix (enumerate n ws) = (ix', Inr ())"
    "coherent lazy db ix" "next_at tx n db" "meta_stable db'"
    "\<forall>w \<in> set ws. initial_ok (c_asrt (w_claim w)) (w_meta w) (w_anno w) \<and>
       \<not> starts_with (c_pred (w_claim w)) SYSTEM_PREFIX"
  shows "coherent lazy db' ix' \<and> next_at tx (n + length ws) db'"
proof (rule sim_fold [where R = "\<lambda>k db ix. coherent lazy db ix \<and> next_at tx k db", OF assms(1,2) _ assms(5)])
  show "coherent lazy db ix \<and> next_at tx n db" using assms(3,4) by simp
  show "extends a b" if "insert_assertion_write tx a p = Inr b" for p a b
    using that by (rule extends_assertion_write)
  fix k w db ix db1 ix1
  assume a: "w \<in> set ws" "coherent lazy db ix \<and> next_at tx k db" "insert_assertion_write tx db (k, w) = Inr db1"
    "idx_add_assertion_write lazy tx ix (k, w) = (ix1, Inr ())" "meta_stable db1"
  from a(3) obtain d where "insert_claim (w_claim w) (c_asrt (w_claim w)) tx db = Inr d"
    "insert_initial (c_asrt (w_claim w)) (w_meta w) (w_anno w) tx k d = Inr db1"
    by (auto simp: insert_assertion_write_def err_simps)
  then show "coherent lazy db1 ix1 \<and> next_at tx (Suc k) db1"
    using a assms(6) by (intro coherent_assertion) (auto simp: idx_add_assertion_write_def)
qed

text \<open>The claims of a batch are rows of the tables afterwards.\<close>

definition claims_stored :: "assertion_write list \<Rightarrow> claim_row list \<Rightarrow> bool" where
  "claims_stored ws rows \<longleftrightarrow>
     (\<forall>w \<in> set ws. \<exists>r \<in> set rows. cr_asrt r = c_asrt (w_claim w) \<and> cr_eref r = c_eref (w_claim w))"

lemma assertions_stored:
  assumes "foldE (insert_assertion_write tx) db (enumerate n ws) = Inr db'"
    "\<forall>w \<in> set ws. \<not> starts_with (c_pred (w_claim w)) SYSTEM_PREFIX"
  shows "claims_stored ws (user_rows db')"
  using assms
proof (induction ws arbitrary: n db)
  case (Cons w ws)
  from Cons.prems(1) obtain db1 where w: "insert_assertion_write tx db (n, w) = Inr db1"
    and rest: "foldE (insert_assertion_write tx) db1 (enumerate (Suc n) ws) = Inr db'"
    by (auto simp: err_simps)
  from w obtain d where "insert_claim (w_claim w) (c_asrt (w_claim w)) tx db = Inr d"
    "insert_initial (c_asrt (w_claim w)) (w_meta w) (w_anno w) tx n d = Inr db1"
    by (auto simp: insert_assertion_write_def err_simps)
  note s = this rest
  have "\<exists>r \<in> set (user_rows db1). cr_asrt r = c_asrt (w_claim w) \<and> cr_eref r = c_eref (w_claim w)"
    using s(1) insert_initial_claims [OF s(2)] Cons.prems(2)
    by (auto elim!: insert_claim_Ok simp: user_rows_def is_system_row_def)
  moreover have "set (user_rows db1) \<subseteq> set (user_rows db')"
    by (rule extends_user_rows, rule extends_fold [OF s(3)]) (rule extends_assertion_write)
  moreover have "claims_stored ws (user_rows db')" using Cons.IH [OF s(3)] Cons.prems(2) by simp
  ultimately show ?case by (auto simp: claims_stored_def)
qed (simp add: claims_stored_def)

lemma coherent_claim_row:
  assumes "coherent lazy db ix" "dict_get (x_claim_by_id ix) a = Some c"
  shows "\<exists>r \<in> set (user_rows db). cr_asrt r = a \<and> cr_eref r = c_eref c"
proof -
  from assms have "latest c_asrt id (x_claims ix) (x_claim_by_id ix)"
    by (simp add: coherent_def ix_ok_def claims_ok_def)
  from latest_SomeD [OF this assms(2)] have c: "c \<in> set (x_claims ix)" "c_asrt c = a" by auto
  then have "claim_view c \<in> set (map claim_view (x_claims ix))" by simp
  moreover have "map claim_view (x_claims ix) = map row_view (user_rows db)"
    using assms(1) by (simp add: coherent_def coherent_claims_def)
  ultimately have "claim_view c \<in> set (map row_view (user_rows db))" by simp
  then show ?thesis using c(2) by (auto simp: claim_view_def row_view_def)
qed

lemma target_row:
  assumes "coherent lazy db ix" "set (user_rows db) \<subseteq> set U" "claims_stored ws U"
    "revocation_target ix ws a = Some t"
  shows "\<exists>r \<in> set U. cr_asrt r = a \<and> cr_eref r = c_eref t"
proof (cases "dict_get (x_claim_by_id ix) a")
  case None
  with assms(4) have "find (\<lambda>c. c_asrt c = a) (map w_claim ws) = Some t"
    by (simp add: revocation_target_def)
  then have "t \<in> w_claim ` set ws" "c_asrt t = a" by (auto simp: find_Some_iff)
  then show ?thesis using assms(3) by (fastforce simp: claims_stored_def)
next
  case (Some c)
  with assms(4) have "t = c" by (simp add: revocation_target_def)
  with coherent_claim_row [OF assms(1) Some] assms(2) show ?thesis by blast
qed

lemma revocation_stage:
  assumes "foldE (insert_revocation_write ix0 ws tx) db (enumerate n rs) = Inr db'"
    "foldS (idx_add_revocation_write lazy ws tx) ix (enumerate n rs) = (ix', Inr ())"
    "coherent lazy db ix" "next_at tx n db" "meta_stable db'"
    "\<forall>w \<in> set rs. initial_ok (r_revoker (v_revokes w)) (v_meta w) (v_anno w)"
    "claims_stored ws (user_rows db)" "coherent lazy0 db0 ix0" "extends db0 db"
  shows "coherent lazy db' ix' \<and> next_at tx (n + length rs) db'"
proof -
  let ?U = "user_rows db"
  have distinct: "r = r'" if "r \<in> set ?U" "r' \<in> set ?U" "cr_asrt r = cr_asrt r'" for r r'
    using that assms(3) by (auto simp: coherent_def db_ok_def user_rows_def distinct_map inj_on_def)
  have "coherent lazy db' ix' \<and> next_at tx (n + length rs) db' \<and> user_rows db' = ?U"
  proof (rule sim_fold [where R = "\<lambda>k db ix. coherent lazy db ix \<and> next_at tx k db \<and> user_rows db = ?U",
        OF assms(1,2) _ assms(5)])
    show "coherent lazy db ix \<and> next_at tx n db \<and> user_rows db = ?U" using assms(3,4) by simp
    show "extends a b" if "insert_revocation_write ix0 ws tx a p = Inr b" for p a b
      using that by (rule extends_revocation_write)
    fix k w db' ix' db1 ix1
    assume a: "w \<in> set rs" "coherent lazy db' ix' \<and> next_at tx k db' \<and> user_rows db' = ?U"
      "insert_revocation_write ix0 ws tx db' (k, w) = Inr db1"
      "idx_add_revocation_write lazy ws tx ix' (k, w) = (ix1, Inr ())" "meta_stable db1"
    let ?v = "v_revokes w"
    from a(3) obtain t d where t: "revocation_target ix0 ws (r_revoked ?v) = Some t"
      and ins: "insert_claim (revoke_claim ?v (c_eref t)) (r_revoker ?v) tx db' = Inr d"
      and ini: "insert_initial (r_revoker ?v) (v_meta w) (v_anno w) tx k d = Inr db1"
      by (auto simp: insert_revocation_write_def err_simps split: option.splits)
    from a(4) obtain t' where t': "revocation_target ix' ws (r_revoked ?v) = Some t'"
      and hook: "thenS (apply_revoke_claim (revoke_claim ?v (c_eref t')) ?v tx k ix')
        (\<lambda>ix _. idx_add_initial lazy (v_meta w) (v_anno w) tx k ix) = (ix1, Inr ())"
      by (auto simp: idx_add_revocation_write_def split: option.splits)
    have "c_eref t = c_eref t'"
    proof -
      from target_row [OF assms(8) extends_user_rows [OF assms(9)] assms(7) t] obtain r where
        r: "r \<in> set ?U" "cr_asrt r = r_revoked ?v" "cr_eref r = c_eref t" by blast
      have "coherent lazy db' ix'" "set (user_rows db') \<subseteq> set ?U" using a(2) by simp_all
      from target_row [OF this assms(7) t'] obtain r' where
        "r' \<in> set ?U" "cr_asrt r' = r_revoked ?v" "cr_eref r' = c_eref t'" by blast
      with r distinct show ?thesis by metis
    qed
    with hook have "thenS (apply_revoke_claim (revoke_claim ?v (c_eref t)) ?v tx k ix')
        (\<lambda>ix _. idx_add_initial lazy (v_meta w) (v_anno w) tx k ix) = (ix1, Inr ())" by simp
    with ins ini have "coherent lazy db1 ix1 \<and> next_at tx (Suc k) db1"
      using a assms(6) by (intro coherent_revocation) auto
    moreover have "user_rows db1 = user_rows db'"
      using ins insert_initial_claims [OF ini]
      by (auto elim!: insert_claim_Ok simp: user_rows_def is_system_row_def)
    ultimately show "coherent lazy db1 ix1 \<and> next_at tx (Suc k) db1 \<and> user_rows db1 = ?U" using a(2) by simp
  qed
  then show ?thesis by simp
qed

text \<open>Appended events: a storage row carries a reserved key, a plain row does not.\<close>

lemma validated_append:
  assumes "validate_meta_events ms = Inr ()" "MRow s row \<in> set ms" "is_reserved_annotation_meta_key (m_key row)"
  shows "s"
proof -
  from assms(1,2) have "validate_meta_row s row = Inr ()"
    by (auto simp: validate_meta_events_def err_simps foldE_check)
  with assms(3) show ?thesis by (simp add: validate_meta_row_def split: if_splits)
qed

lemma meta_append_step:
  assumes "coherent lazy db ix" "\<forall>r \<in> set (d_cmeta db). position r < (tx, k)"
    "insert_meta_append tx db (k, x) = Inr db1" "idx_add_meta_append lazy tx ix (k, x) = (ix1, Inr ())"
    "meta_stable db1" "validate_meta_events ms = Inr ()" "x \<in> set ms"
  shows "coherent lazy db1 ix1 \<and> (\<forall>r \<in> set (d_cmeta db1). position r < (tx, Suc k))"
proof -
  let ?p = "case x of MRow is_storage _ \<Rightarrow> \<not> is_storage | MTombstone _ _ \<Rightarrow> False"
  let ?i = "idx_add_claim_meta_events lazy [x] tx k ?p ix"
  have ins: "insert_meta_rows [x] (append_asrt x) tx k db = Inr db1"
    using assms(3) by (simp add: insert_meta_append_def)
  have hook: "ix1 = ?i \<or> (\<exists>anno. ix1 = idx_add_annotation lazy [anno] ?i)"
    "\<And>row. x = MRow True row \<Longrightarrow> \<exists>anno. annotation_from_storage_key (m_asrt row) (m_key row) (m_kind row) (m_value row) = Inr anno"
    using assms(4) by (auto simp: idx_add_meta_append_def Let_def split: meta_append.splits bool.splits sum.splits)
  have own: "\<forall>y \<in> set [x]. append_asrt y = append_asrt x \<and> append_ok (append_asrt x) y \<and> projected_as ?p y"
  proof (cases x)
    case (MRow s row)
    show ?thesis
    proof (cases s)
      case True
      with hook(2) MRow storage_key_value_free show ?thesis
        by (fastforce simp: append_ok_def append_asrt_def projected_as_def)
    next
      case False
      with MRow validated_append [OF assms(6)] assms(7) show ?thesis
        by (auto simp: append_ok_def projected_as_def)
    qed
  qed (simp add: append_ok_def projected_as_def)
  have at: "\<forall>r \<in> set (d_cmeta db). position r \<le> (tx, k)" using assms(2) less_imp_le by blast
  note c = coherent_insert_meta [OF assms(1) ins own at assms(5)]
  then have "coherent lazy db1 ix1" using hook(1) coherent_add_annotation by blast
  moreover have "q \<le> (tx, k) \<Longrightarrow> q < (tx, Suc k)" for q :: "nat \<times> nat" by (cases q) auto
  ultimately show ?thesis using c(2) by blast
qed

lemma meta_stage:
  assumes "foldE (insert_meta_append tx) db (enumerate n ms) = Inr db'"
    "foldS (idx_add_meta_append lazy tx) ix (enumerate n ms) = (ix', Inr ())"
    "coherent lazy db ix" "\<forall>r \<in> set (d_cmeta db). position r < (tx, n)" "meta_stable db'"
    "validate_meta_events ms = Inr ()"
  shows "coherent lazy db' ix'"
proof -
  have "coherent lazy db' ix' \<and> (\<forall>r \<in> set (d_cmeta db'). position r < (tx, n + length ms))"
  proof (rule sim_fold [where R = "\<lambda>k db ix. coherent lazy db ix \<and> (\<forall>r \<in> set (d_cmeta db). position r < (tx, k))",
        OF assms(1,2) _ assms(5)])
    show "coherent lazy db ix \<and> (\<forall>r \<in> set (d_cmeta db). position r < (tx, n))" using assms(3,4) by simp
    show "extends a b" if "insert_meta_append tx a p = Inr b" for p a b using that by (rule extends_meta_append)
    show "coherent lazy db1 ix1 \<and> (\<forall>r \<in> set (d_cmeta db1). position r < (tx, Suc k))"
      if "x \<in> set ms" "coherent lazy db ix \<and> (\<forall>r \<in> set (d_cmeta db). position r < (tx, k))"
        "insert_meta_append tx db (k, x) = Inr db1" "idx_add_meta_append lazy tx ix (k, x) = (ix1, Inr ())"
        "meta_stable db1" for k x db ix db1 ix1
      using that assms(6) meta_append_step by blast
  qed
  then show ?thesis by simp
qed

lemma coherent_d_meta [simp]: "coherent lazy (db\<lparr>d_meta := m\<rparr>) ix = coherent lazy db ix"
  by (simp add: coherent_def db_ok_def user_rows_def system_rows_def coherent_claims_def
      coherent_events_def eager_rows_def)

lemma next_at_d_meta [simp]: "next_at tx op (db\<lparr>d_meta := m\<rparr>) = next_at tx op db"
  by (simp add: next_at_def next_claim_at_def)

lemma coherent_batch:
  assumes "coherent_ledger L" "batch_db L ws rs expected head md ms tx ids = Inr db'"
    "apply_batch_indexes (l_lazy L) ws rs ms tx (l_ix L) = (ix', Inr ())" "meta_stable db'"
    "next_direct_tx_seq (l_db L) \<le> tx" "validate_batch L ws rs ms = Inr ids" "validate_meta_events ms = Inr ()"
  shows "coherent (l_lazy L) db' ix'"
proof -
  from assms(2) obtain db1 db2 db3 db4 where d: "cas_head expected head (l_db L) = Inr db1"
    "foldE (insert_assertion_write tx) db1 (enumerate 0 ws) = Inr db2"
    "foldE (insert_revocation_write (l_ix L) ws tx) db2 (enumerate (length ws) rs) = Inr db3"
    "foldE (insert_meta_append tx) db3 (enumerate (length ws + length rs) ms) = Inr db4"
    and db': "db' = upsert_metadata md db4"
    by (auto simp: batch_db_def err_simps split: if_splits)
  from assms(3) obtain ix1 ix2 where h:
    "foldS (idx_add_assertion_write (l_lazy L) tx) (l_ix L) (enumerate 0 ws) = (ix1, Inr ())"
    "foldS (idx_add_revocation_write (l_lazy L) ws tx) ix1 (enumerate (length ws) rs) = (ix2, Inr ())"
    "foldS (idx_add_meta_append (l_lazy L) tx) ix2 (enumerate (length ws + length rs) ms) = (ix', Inr ())"
    by (auto simp: apply_batch_indexes_def thenS_Inr_iff)
  from assms(6) obtain cids where "foldE validate_assertion_write [] ws = Inr cids"
    "\<exists>rids. foldE (validate_revocation_write cids) [] rs = Inr rids"
    by (auto simp: validate_batch_def err_simps)
  then have ok: "\<forall>w \<in> set ws. initial_ok (c_asrt (w_claim w)) (w_meta w) (w_anno w) \<and>
       \<not> starts_with (c_pred (w_claim w)) SYSTEM_PREFIX"
    "\<forall>w \<in> set rs. initial_ok (r_revoker (v_revokes w)) (v_meta w) (v_anno w)"
    by (meson foldE_each validated_assertion validated_revocation)+
  obtain m where db1: "db1 = (l_db L)\<lparr>d_meta := m\<rparr>"
    using d(1) by (auto simp: cas_head_def split: if_splits)
  have "extends db2 db3" by (rule extends_fold [OF d(3)]) (rule extends_revocation_write)
  moreover have "extends db3 db4" by (rule extends_fold [OF d(4)]) (rule extends_meta_append)
  ultimately have ext: "extends db2 db3" "extends db3 db4" .
  have ext12: "extends db1 db2" by (rule extends_fold [OF d(2)]) (rule extends_assertion_write)
  have st: "meta_stable db4" using assms(4) by (simp add: db' upsert_metadata_def)
  then have st': "meta_stable db3" "meta_stable db2"
    using ext meta_stable_extends extends_trans by blast+
  have start: "coherent (l_lazy L) db1 (l_ix L)" "next_at tx 0 db1"
    using assms(1) next_at_direct [OF assms(5)] by (simp_all add: db1)
  from assertion_stage [OF d(2) h(1) start st'(2) ok(1)]
  have s1: "coherent (l_lazy L) db2 ix1" "next_at tx (length ws) db2" by simp_all
  have stored: "claims_stored ws (user_rows db2)" using assertions_stored [OF d(2)] ok(1) by blast
  from revocation_stage [OF d(3) h(2) s1 st'(1) ok(2) stored start(1) ext12]
  have s2: "coherent (l_lazy L) db3 ix2" "next_at tx (length ws + length rs) db3" by simp_all
  from meta_stage [OF d(4) h(3) s2(1) _ st assms(7)] s2(2)
  have "coherent (l_lazy L) db4 ix'" by (simp add: next_at_def)
  then show ?thesis by (simp add: db' upsert_metadata_def)
qed

end
