(* ===== verification/Ledger_Agree.thy ===== *)
theory Ledger_Agree
  imports Ledger_Simulation
begin

text \<open>
  Clean histories: the remaining operations preserve coherence, so along any clean history from
  an opened ledger the live indexes and the ones rebuilt from the tables agree.
\<close>

section \<open>The remaining writes\<close>

lemma meta_rows_stage:
  assumes "foldE (\<lambda>db (op, row). insert_meta_rows [MRow False row] (m_asrt row) tx op db) db (enumerate n rows) = Inr db'"
    "ix' = fold (\<lambda>(op, row) ix. idx_add_claim_meta_events lazy [MRow False row] tx op True ix) (enumerate n rows) ix"
    "coherent lazy db ix" "\<forall>r \<in> set (d_cmeta db). position r < (tx, n)" "meta_stable db'"
    "validate_meta_rows rows = Inr ()"
  shows "coherent lazy db' ix'"
proof -
  let ?g = "\<lambda>ix p. ((\<lambda>(op, row) ix. idx_add_claim_meta_events lazy [MRow False row] tx op True ix) p ix, Inr () :: unit res)"
  have h: "foldS ?g ix (enumerate n rows) = (ix', Inr ())"
    using fold_as_foldS [of "\<lambda>(op, row). idx_add_claim_meta_events lazy [MRow False row] tx op True"] assms(2)
    by (simp add: case_prod_beta)
  have "coherent lazy db' ix' \<and> (\<forall>r \<in> set (d_cmeta db'). position r < (tx, n + length rows))"
  proof (rule sim_fold [where R = "\<lambda>k db ix. coherent lazy db ix \<and> (\<forall>r \<in> set (d_cmeta db). position r < (tx, k))",
        OF assms(1) h _ assms(5)])
    show "coherent lazy db ix \<and> (\<forall>r \<in> set (d_cmeta db). position r < (tx, n))" using assms(3,4) by simp
    show "extends a b" if "(case p of (op, row) \<Rightarrow> insert_meta_rows [MRow False row] (m_asrt row) tx op a) = Inr b" for p a b
      using that by (cases p) (auto intro: extends_insert_meta)
    fix k x db ix db1 ix1
    assume a: "x \<in> set rows" "coherent lazy db ix \<and> (\<forall>r \<in> set (d_cmeta db). position r < (tx, k))"
      "(case (k, x) of (op, row) \<Rightarrow> insert_meta_rows [MRow False row] (m_asrt row) tx op db) = Inr db1"
      "?g ix (k, x) = (ix1, Inr ())" "meta_stable db1"
    have "validate_meta_events [MRow False x] = Inr ()"
      using assms(6) a(1) by (simp add: validate_meta_events_def validate_meta_rows_def foldE_check)
    moreover have "insert_meta_append tx db (k, MRow False x) = Inr db1"
      using a(3) by (simp add: insert_meta_append_def append_asrt_def)
    moreover have "idx_add_meta_append lazy tx ix (k, MRow False x) = (ix1, Inr ())"
      using a(4) by (simp add: idx_add_meta_append_def)
    ultimately show "coherent lazy db1 ix1 \<and> (\<forall>r \<in> set (d_cmeta db1). position r < (tx, Suc k))"
      using a meta_append_step [of lazy db ix tx k "MRow False x" db1 ix1 "[MRow False x]"] by simp
  qed
  then show ?thesis by simp
qed

lemma annotation_stage:
  assumes "foldE (\<lambda>db (op, row). insert_annotation_rows [row] tx op [] db) db (enumerate n rows) = Inr db'"
    "foldS (\<lambda>ix (op, row). idx_add_compatibility lazy [row] [] tx op ix) ix (enumerate n rows) = (ix', Inr ())"
    "coherent lazy db ix" "\<forall>r \<in> set (d_cmeta db). position r < (tx, n)" "meta_stable db'"
    "validate_annotation_rows rows = Inr ()"
  shows "coherent lazy db' ix'"
proof -
  have "coherent lazy db' ix' \<and> (\<forall>r \<in> set (d_cmeta db'). position r < (tx, n + length rows))"
  proof (rule sim_fold [where R = "\<lambda>k db ix. coherent lazy db ix \<and> (\<forall>r \<in> set (d_cmeta db). position r < (tx, k))",
        OF assms(1,2) _ assms(5)])
    show "coherent lazy db ix \<and> (\<forall>r \<in> set (d_cmeta db). position r < (tx, n))" using assms(3,4) by simp
    show "extends a b" if "(case p of (op, row) \<Rightarrow> insert_annotation_rows [row] tx op [] a) = Inr b" for p a b
      using that by (cases p) (auto intro: extends_insert_annotations)
    fix k row db ix db1 ix1
    assume a: "row \<in> set rows" "coherent lazy db ix \<and> (\<forall>r \<in> set (d_cmeta db). position r < (tx, k))"
      "(case (k, row) of (op, row) \<Rightarrow> insert_annotation_rows [row] tx op [] db) = Inr db1"
      "(case (k, row) of (op, row) \<Rightarrow> idx_add_compatibility lazy [row] [] tx op ix) = (ix1, Inr ())" "meta_stable db1"
    from a(3) obtain cs where cs: "annotation_compatibility_meta_rows [row] [] = Inr cs"
      and ins: "foldE (\<lambda>db row. insert_meta_rows [MRow True row] (m_asrt row) tx k db) db cs = Inr db1"
      by (auto simp: insert_annotation_rows_def err_simps)
    have eq: "c = storage_row row" if "c \<in> set cs" for c using compatibility_rows [OF cs that] by simp
    have asrt: "\<forall>c \<in> set cs. m_asrt c = a_asrt row"
    proof
      fix c assume "c \<in> set cs"
      from eq [OF this] show "m_asrt c = a_asrt row" by (simp add: storage_row_def)
    qed
    have "storage_key_ok (a_asrt row) (annotation_storage_key row) (a_kind row)"
      using assms(6) a(1) by (rule storage_key_valid)
    then have own: "\<forall>x \<in> set (map (MRow True) cs). append_asrt x = a_asrt row \<and> append_ok (a_asrt row) x \<and> projected_as False x"
      using asrt by (auto dest!: eq simp: storage_row_def append_asrt_def append_ok_def projected_as_def annotation_storage_key_def)
    have at: "\<forall>r \<in> set (d_cmeta db). position r \<le> (tx, k)" using a(2) less_imp_le by blast
    from a(2) have coh: "coherent lazy db ix" by simp
    note c = coherent_insert_meta [OF coh insert_one_by_one [OF ins asrt] own at a(5)]
    from a(4) cs have "ix1 = idx_add_claim_meta_events lazy (map (MRow True) cs) tx k False ix"
      by (simp add: idx_add_compatibility_def)
    with c(1) have "coherent lazy db1 ix1" by simp
    moreover have "q \<le> (tx, k) \<Longrightarrow> q < (tx, Suc k)" for q :: "nat \<times> nat" by (cases q) auto
    ultimately show "coherent lazy db1 ix1 \<and> (\<forall>r \<in> set (d_cmeta db1). position r < (tx, Suc k))"
      using c(2) by blast
  qed
  then show ?thesis by simp
qed

lemma next_direct_claim: "next_claim_at (next_direct_tx_seq db) 0 db"
  using next_at_direct [OF order.refl] by (simp add: next_at_def)

lemma next_direct_meta: "\<forall>r \<in> set (d_cmeta db). position r < (next_direct_tx_seq db, 0)"
  using next_at_direct [OF order.refl] by (simp add: next_at_def)

lemma coherent_append_claim:
  assumes "append_claim claim L = (L', Inr r)" "coherent_ledger L" "meta_stable (l_db L')"
  shows "coherent_ledger L'"
proof -
  let ?tx = "next_direct_tx_seq (l_db L)"
  from assms(1) obtain ns where ns: "mapE normalize_term (c_terms claim) = Inr ns"
    and user: "\<not> starts_with (c_pred claim) SYSTEM_PREFIX"
    and ws: "write_session L (bindE (insert_claim (claim\<lparr>c_terms := ns\<rparr>) (c_asrt claim) ?tx (l_db L)) (\<lambda>db.
      Inr (db, apply_claim_index (claim\<lparr>c_terms := ns\<rparr>) ?tx 0))) = (L', Inr r)"
    by (auto simp: append_claim_def Let_def err_simps validate_claim_input_def split: sum.splits if_splits)
  show ?thesis
  proof (rule write_session_coherent [OF ws _ assms(3)])
    fix db hook ix'
    assume "bindE (insert_claim (claim\<lparr>c_terms := ns\<rparr>) (c_asrt claim) ?tx (l_db L)) (\<lambda>db.
      Inr (db, apply_claim_index (claim\<lparr>c_terms := ns\<rparr>) ?tx 0)) = Inr (db, hook)"
      and "hook (l_ix L) = (ix', Inr ())"
    then show "coherent (l_lazy L) db ix'"
      using coherent_add_claim [OF assms(2) _ _ next_direct_claim, of "claim\<lparr>c_terms := ns\<rparr>" db ix'] user
      by (auto simp: err_simps)
  qed
qed

lemma coherent_append_revokes:
  assumes "append_revokes row L = (L', Inr r)" "coherent_ledger L" "meta_stable (l_db L')"
  shows "coherent_ledger L'"
proof -
  let ?tx = "next_direct_tx_seq (l_db L)"
  from assms(1) have ws: "write_session L
      (case dict_get (x_claim_by_id (l_ix L)) (r_revoked row) of
         None \<Rightarrow> Inl ValueError
       | Some target \<Rightarrow>
            bindE (insert_claim (revoke_claim row (c_eref target)) (r_revoker row) ?tx (l_db L)) (\<lambda>db.
            Inr (db, apply_revoke_claim (revoke_claim row (c_eref target)) row ?tx 0))) = (L', Inr r)"
    unfolding append_revokes_def Let_def by (auto split: sum.splits)
  show ?thesis
  proof (rule write_session_coherent [OF ws _ assms(3)])
    fix db hook ix'
    assume "(case dict_get (x_claim_by_id (l_ix L)) (r_revoked row) of
         None \<Rightarrow> Inl ValueError
       | Some target \<Rightarrow>
            bindE (insert_claim (revoke_claim row (c_eref target)) (r_revoker row) ?tx (l_db L)) (\<lambda>db.
            Inr (db, apply_revoke_claim (revoke_claim row (c_eref target)) row ?tx 0))) = Inr (db, hook)"
      and "hook (l_ix L) = (ix', Inr ())"
    then show "coherent (l_lazy L) db ix'"
      using coherent_add_revoke [OF assms(2) _ next_direct_claim, of row _ db ix']
      by (auto simp: err_simps split: option.splits)
  qed
qed

lemma coherent_append_meta:
  assumes "append_meta None rows L = (L', Inr r)" "coherent_ledger L" "meta_stable (l_db L')"
  shows "coherent_ledger L'"
proof -
  let ?tx = "next_direct_tx_seq (l_db L)"
  from assms(1) have ok: "validate_meta_rows rows = Inr ()"
    and ws: "write_session L
             (bindE (foldE (\<lambda>db (op, row). insert_meta_rows [MRow False row] (m_asrt row) ?tx op db)
                       (l_db L) (enumerate 0 rows)) (\<lambda>db.
              Inr (db, \<lambda>ix. (fold (\<lambda>(op, row) ix.
                       idx_add_claim_meta_events (l_lazy L) [MRow False row] ?tx op True ix)
                     (enumerate 0 rows) ix, Inr ())))) = (L', Inr r)"
    by (auto simp: append_meta_def Let_def number_def split: sum.splits if_splits)
  show ?thesis
    by (rule write_session_coherent [OF ws _ assms(3)])
      (auto simp: err_simps intro: meta_rows_stage [OF _ refl assms(2) next_direct_meta _ ok])
qed

lemma coherent_append_annotations:
  assumes "append_annotations None rows L = (L', Inr r)" "coherent_ledger L" "meta_stable (l_db L')"
  shows "coherent_ledger L'"
proof -
  let ?tx = "next_direct_tx_seq (l_db L)"
  from assms(1) have ok: "validate_annotation_rows rows = Inr ()"
    and ws: "write_session L
             (bindE (foldE (\<lambda>db (op, row). insert_annotation_rows [row] ?tx op [] db)
                       (l_db L) (enumerate 0 rows)) (\<lambda>db.
              Inr (db, \<lambda>ix. thenS
                 (foldS (\<lambda>ix (op, row). idx_add_compatibility (l_lazy L) [row] [] ?tx op ix) ix (enumerate 0 rows))
                 (\<lambda>ix _. (idx_add_annotation (l_lazy L) rows ix, Inr ()))))) = (L', Inr r)"
    by (auto simp: append_annotations_def Let_def number_def split: sum.splits if_splits)
  show ?thesis
    by (rule write_session_coherent [OF ws _ assms(3)])
      (auto simp: err_simps thenS_Inr_iff
        intro!: coherent_add_annotation intro: annotation_stage [OF _ _ assms(2) next_direct_meta _ ok])
qed

lemma coherent_append_assertion:
  assumes "append_assertion fresh claim args meta_rows anno_rows idem a L = (L', Inr r)" "coherent_ledger L"
    "meta_stable (l_db L')"
  shows "coherent_ledger L'"
proof -
  let ?a = "effective_id a (c_asrt claim) fresh"
  from assms(1) consider "L' = L"
    | c meta anno where "validate_claim_input claim False = Inr ()"
      "validate_meta_rows_for_append_assertion meta_rows = Inr ()"
      "prepare_assertion L claim args meta_rows anno_rows idem ?a = Inr (Inr (c, meta, anno))"
      "write_assertion L c meta anno = (L', Inr ())"
    by (auto simp: append_assertion_def err_simps thenS_Inr_iff split: sum.splits)
  then show ?thesis
  proof cases
    case 2
    from prepared_assertion [OF 2(3) plain_rows_assertion [OF 2(2)]] 2(1)
    have "initial_ok (c_asrt c) meta anno" "\<not> starts_with (c_pred c) SYSTEM_PREFIX"
      by (auto simp: validate_claim_input_def err_simps split: if_splits)
    with coherent_write_assertion [OF assms(2) 2(4)] assms(3) show ?thesis by blast
  qed (simp add: assms(2))
qed

lemma coherent_append_revocation:
  assumes "append_revocation fresh v meta_rows idem a L = (L', Inr r)" "coherent_ledger L"
    "meta_stable (l_db L')"
  shows "coherent_ledger L'"
proof -
  let ?a = "effective_id a (r_revoker v) fresh"
  let ?v = "\<lparr>r_revoker = ?a, r_revoked = r_revoked v\<rparr>"
  from assms(1) consider "L' = L"
    | meta anno where "validate_meta_rows meta_rows = Inr ()"
      "prepare_revocation L meta_rows idem ?a = Inr (Inr (meta, anno))"
      "write_revocation L ?v meta anno = (L', Inr ())"
    by (auto simp: append_revocation_def Let_def err_simps thenS_Inr_iff split: sum.splits)
  then show ?thesis
  proof cases
    case 2
    from prepared_revocation [OF 2(2) plain_rows [OF 2(1)]]
    have "initial_ok (r_revoker ?v) meta anno" "anno = initial_meta_annotation_rows meta" by auto
    from coherent_write_revocation [OF assms(2) 2(3) this assms(3)] show ?thesis .
  qed (simp add: assms(2))
qed

lemma coherent_commit_batch:
  assumes "commit_batch ws rs expected head md ms L = (L', Inr r)" "coherent_ledger L" "meta_stable (l_db L')"
    "\<And>tx. parse_head_tx_seq md = Inr tx \<Longrightarrow> next_direct_tx_seq (l_db L) \<le> tx"
  shows "coherent_ledger L'"
proof -
  let ?ws = "map merge_assertion_write ws" and ?rs = "map merge_revocation_write rs"
  from assms(1) obtain tx ids where ok: "validate_meta_events ms = Inr ()" "parse_head_tx_seq md = Inr tx"
    "validate_batch L ?ws ?rs ms = Inr ids"
    and w: "write_session L (bindE (batch_db L ?ws ?rs expected head md ms tx ids) (\<lambda>db.
      Inr (db, apply_batch_indexes (l_lazy L) ?ws ?rs ms tx))) = (L', Inr r)"
    by (auto simp: commit_batch_def Let_def err_simps split: sum.splits)
  show ?thesis
    by (rule write_session_coherent [OF w _ assms(3)])
      (auto simp: err_simps intro: coherent_batch [OF assms(2) _ _ _ assms(4) [OF ok(2)] ok(3,1)])
qed

section \<open>Reloading operations\<close>

lemma coherent_tx_defaults: "defaults_ok d \<Longrightarrow> coherent lazy db ix \<Longrightarrow> coherent lazy db (ix\<lparr>x_tx_defaults := d\<rparr>)"
  by (simp add: coherent_def coherent_claims_def coherent_events_def)

lemma coherent_replace_defaults:
  "coherent_ledger L \<Longrightarrow> coherent_ledger (fst (replace_tx_meta_defaults rows L))"
  by (auto simp: replace_tx_meta_defaults_def err_simps dest: defaults_ok_fold
      intro: coherent_tx_defaults split: sum.splits)

lemma coherent_db_ok: "coherent lazy db ix \<Longrightarrow> db_ok db"
  by (simp add: coherent_def)

lemma coherent_load: "db_ok db \<Longrightarrow> load_from_db lazy db = (ix, r) \<Longrightarrow> coherent lazy db ix \<and> r = Inr ()"
  using load_coherent [of db lazy] by auto

lemma coherent_force_replace:
  assumes "force_replace_meta_rows rows L = (L', Inr r)" "coherent_ledger L" "meta_stable (l_db L')"
  shows "coherent_ledger L'"
proof -
  let ?tx = "next_direct_tx_seq (l_db L)"
  let ?db0 = "(l_db L)\<lparr>d_cmeta := filter (\<lambda>r. like_compat_prefix (cm_key r)) (d_cmeta (l_db L))\<rparr>"
  from assms(1) have ok: "validate_meta_rows rows = Inr ()"
    and ws: "write_session L
      (bindE (foldE (\<lambda>db (op, row). insert_meta_rows [MRow False row] (m_asrt row) ?tx op db)
               ?db0 (enumerate 0 rows)) (\<lambda>db. Inr (db, \<lambda>_. load_from_db (l_lazy L) db))) = (L', Inr r)"
    by (auto simp: force_replace_meta_rows_def Let_def number_def split: sum.splits)
  have "db_ok (l_db L)" using assms(2) by (rule coherent_db_ok)
  then have "db_ok ?db0"
    by (auto simp: db_ok_def user_rows_def system_rows_def intro: sorted_filter)
  then obtain ix0 where ix0: "coherent (l_lazy L) ?db0 ix0" using load_coherent by blast
  have at: "\<forall>r \<in> set (d_cmeta ?db0). position r < (?tx, 0)" using next_direct_meta by simp
  show ?thesis
  proof (rule write_session_coherent [OF ws _ assms(3)])
    fix db hook ix'
    assume "bindE (foldE (\<lambda>db (op, row). insert_meta_rows [MRow False row] (m_asrt row) ?tx op db)
               ?db0 (enumerate 0 rows)) (\<lambda>db. Inr (db, \<lambda>_. load_from_db (l_lazy L) db)) = Inr (db, hook)"
      and h: "hook (l_ix L) = (ix', Inr ())" and st: "meta_stable db"
    then have f: "foldE (\<lambda>db (op, row). insert_meta_rows [MRow False row] (m_asrt row) ?tx op db)
               ?db0 (enumerate 0 rows) = Inr db" and hook: "hook = (\<lambda>_. load_from_db (l_lazy L) db)"
      by (auto simp: err_simps)
    from meta_rows_stage [OF f refl ix0 at st ok] have "db_ok db" by (rule coherent_db_ok)
    with coherent_load h hook show "coherent (l_lazy L) db ix'" by blast
  qed
qed

lemma coherent_reload: "coherent_ledger L \<Longrightarrow> coherent_ledger (fst (reload (L\<lparr>l_lazy := lazy\<rparr>)))"
  using load_coherent [OF coherent_db_ok, of "l_lazy L" "l_db L" "l_ix L" lazy]
  by (auto simp: reload_def)

lemma coherent_configure:
  assumes "coherent_ledger L"
  shows "coherent_ledger (fst (configure_meta_load_policy keys L))"
proof -
  have "coherent_ledger (fst (thenS (reload (L\<lparr>l_lazy := keys\<rparr>)) (\<lambda>L' _. replace_tx_meta_defaults d L')))" for d
  proof (rule thenS_invariant [where P = coherent_ledger])
    show "coherent_ledger (fst (reload (L\<lparr>l_lazy := keys\<rparr>)))" by (rule coherent_reload [OF assms])
    show "coherent_ledger (fst (replace_tx_meta_defaults d s))" if "coherent_ledger s" for s
      by (rule coherent_replace_defaults [OF that])
  qed
  then show ?thesis using assms by (simp add: configure_meta_load_policy_def split: sum.splits)
qed

end
