(* ===== verification/Ledger_Props.thy ===== *)
theory Ledger_Props
  imports Ledger_Agree
begin

text \<open>
  The properties of the ledger over its histories: reopening agrees with the live indexes,
  indexed lookups are scans, claims are append-only, revocation is permanent.
\<close>

section \<open>Clean histories\<close>

definition clean_result :: "ledger \<Rightarrow> ledger \<times> 'a res \<Rightarrow> bool" where
  "clean_result L p \<longleftrightarrow> (isl (snd p) \<longrightarrow> fst p = L) \<and> meta_stable (l_db (fst p))"

definition fresh_tx :: "(ustr, ustr) dict \<Rightarrow> ledger \<Rightarrow> bool" where
  "fresh_tx metadata L \<longleftrightarrow> (case parse_head_tx_seq metadata of
      Inl _ \<Rightarrow> True | Inr tx \<Rightarrow> next_direct_tx_seq (l_db L) \<le> tx)"

inductive clean_step :: "ledger \<Rightarrow> ledger \<Rightarrow> bool" where
  clean_append_assertion: "p = append_assertion fresh claim args meta anno idem asrt_id L \<Longrightarrow>
    clean_result L p \<Longrightarrow> clean_step L (fst p)"
| clean_append_revocation: "p = append_revocation fresh revokes meta idem revoker L \<Longrightarrow>
    clean_result L p \<Longrightarrow> clean_step L (fst p)"
| clean_append_claim: "q = append_claim claim L \<Longrightarrow> clean_result L q \<Longrightarrow> clean_step L (fst q)"
| clean_append_claim_args: "q = append_claim_args rows L \<Longrightarrow> clean_result L q \<Longrightarrow> clean_step L (fst q)"
| clean_append_meta: "q = append_meta None mrows L \<Longrightarrow> clean_result L q \<Longrightarrow> clean_step L (fst q)"
| clean_append_annotations: "q = append_annotations None arows L \<Longrightarrow> clean_result L q \<Longrightarrow> clean_step L (fst q)"
| clean_append_revokes: "q = append_revokes row L \<Longrightarrow> clean_result L q \<Longrightarrow> clean_step L (fst q)"
| clean_commit_batch: "q = commit_batch ws rs expected_head head metadata ms L \<Longrightarrow> fresh_tx metadata L \<Longrightarrow>
    clean_result L q \<Longrightarrow> clean_step L (fst q)"
| clean_set_meta: "q = set_ledger_meta key val L \<Longrightarrow> clean_step L (fst q)"
| clean_replace_meta: "q = replace_ledger_meta key val L \<Longrightarrow> clean_step L (fst q)"
| clean_force_replace: "q = force_replace_meta_rows mrows L \<Longrightarrow> clean_result L q \<Longrightarrow> clean_step L (fst q)"
| clean_replace_defaults: "q = replace_tx_meta_defaults defaults L \<Longrightarrow> clean_step L (fst q)"
| clean_record_defaults: "q = record_tx_meta_defaults defaults L \<Longrightarrow> clean_step L (fst q)"
| clean_configure: "q = configure_meta_load_policy lazy_keys L \<Longrightarrow> clean_step L (fst q)"
| clean_close: "clean_step L (close_ledger L)"

lemma clean_is_step: "clean_step L L' \<Longrightarrow> ledger_step L L'"
  by (induction rule: clean_step.induct) (auto intro: ledger_step.intros)

lemma clean_coherent:
  assumes "clean_result L p" "coherent_ledger L"
    "\<And>L' r. p = (L', Inr r) \<Longrightarrow> meta_stable (l_db L') \<Longrightarrow> coherent_ledger L'"
  shows "coherent_ledger (fst p)"
  using assms by (cases p; cases "snd p") (auto simp: clean_result_def)

lemma coherent_meta_session:
  "coherent_ledger L \<Longrightarrow> coherent_ledger (fst (write_session L (Inr ((l_db L)\<lparr>d_meta := m\<rparr>, keep_index))))"
  by (cases rule: write_session_cases [of L "Inr ((l_db L)\<lparr>d_meta := m\<rparr>, keep_index)"])
    (auto simp: keep_index_def)

lemma clean_step_coherent: "clean_step L L' \<Longrightarrow> coherent_ledger L \<Longrightarrow> coherent_ledger L'"
proof (induction rule: clean_step.induct)
  case clean_append_assertion
  then show ?case by (intro clean_coherent) (auto dest: sym intro: coherent_append_assertion)
next
  case clean_append_revocation
  then show ?case by (intro clean_coherent) (auto dest: sym intro: coherent_append_revocation)
next
  case clean_append_claim
  then show ?case by (intro clean_coherent) (auto dest: sym intro: coherent_append_claim)
next
  case (clean_append_claim_args q rows L)
  then show ?case by (simp add: append_claim_args_def)
next
  case clean_append_meta
  then show ?case by (intro clean_coherent) (auto dest: sym intro: coherent_append_meta)
next
  case clean_append_annotations
  then show ?case by (intro clean_coherent) (auto dest: sym intro: coherent_append_annotations)
next
  case clean_append_revokes
  then show ?case by (intro clean_coherent) (auto dest: sym intro: coherent_append_revokes)
next
  case clean_commit_batch
  then show ?case
    by (intro clean_coherent) (auto dest: sym simp: fresh_tx_def intro: coherent_commit_batch)
next
  case (clean_set_meta q key val L)
  then show ?case by (simp only: set_ledger_meta_def coherent_meta_session)
next
  case (clean_replace_meta q key val L)
  then show ?case by (simp only: replace_ledger_meta_def coherent_meta_session)
next
  case clean_force_replace
  then show ?case by (intro clean_coherent) (auto dest: sym intro: coherent_force_replace)
next
  case clean_replace_defaults
  then show ?case by (simp only: coherent_replace_defaults)
next
  case (clean_record_defaults q defaults L)
  from coherent_replace_defaults [OF this(2), of "tx_meta_defaults L @ defaults"] this show ?case
    by (cases "ensure_open L") (simp_all add: record_tx_meta_defaults_def)
next
  case clean_configure
  then show ?case by (simp only: coherent_configure)
qed (simp add: close_ledger_def)

abbreviation clean_steps :: "ledger \<Rightarrow> ledger \<Rightarrow> bool" where
  "clean_steps \<equiv> clean_step\<^sup>*\<^sup>*"

lemma clean_steps_coherent: "clean_steps L L' \<Longrightarrow> coherent_ledger L \<Longrightarrow> coherent_ledger L'"
  by (induction rule: rtranclp_induct) (auto intro: clean_step_coherent)

lemma clean_steps_are_steps: "clean_steps L L' \<Longrightarrow> ledger_steps L L'"
  by (induction rule: rtranclp_induct) (auto intro: clean_is_step rtranclp.rtrancl_into_rtrancl)

lemma open_coherent:
  assumes "db_ok db" "open_ledger tables db = Inr L"
  shows "coherent_ledger L"
proof -
  from assms(2) obtain m where "(case load_from_db [] (db\<lparr>d_meta := m\<rparr>) of (_, Inl e) \<Rightarrow> Inl e
      | (ix, Inr _) \<Rightarrow> Inr \<lparr>l_db = db\<lparr>d_meta := m\<rparr>, l_ix = ix, l_lazy = [], l_closed = False\<rparr>) = Inr L"
    by (auto simp: open_ledger_def init_schema_def bindE_Inr_iff split: if_splits)
  moreover have "db_ok (db\<lparr>d_meta := m\<rparr>)"
    using assms(1) by (simp add: db_ok_def user_rows_def system_rows_def)
  then obtain ix where "load_from_db [] (db\<lparr>d_meta := m\<rparr>) = (ix, Inr ())" "coherent [] (db\<lparr>d_meta := m\<rparr>) ix"
    using load_coherent by blast
  ultimately show ?thesis by auto
qed

section \<open>Reopening\<close>

definition meta_view :: "meta_row \<Rightarrow> ustr \<times> meta_key \<times> ustr \<times> sql_text res" where
  "meta_view m = (m_asrt m, m_key m, m_kind m, encode_meta_value (m_kind m) (m_value m))"

text \<open>What two indexes must share: everything but the spelling of equal values.\<close>

definition agree :: "ledger_index \<Rightarrow> ledger_index \<Rightarrow> bool" where
  "agree ix ix' \<longleftrightarrow>
     map claim_view (x_claims ix) = map claim_view (x_claims ix') \<and> x_args ix = x_args ix' \<and>
     x_revokes ix = x_revokes ix' \<and> dict_get (x_system ix) = dict_get (x_system ix') \<and>
     dict_get (x_tx_refs ix) = dict_get (x_tx_refs ix') \<and>
     dict_get (x_op_ordinals ix) = dict_get (x_op_ordinals ix') \<and>
     map event_view (x_events ix) = map event_view (x_events ix') \<and>
     map meta_view (x_meta ix) = map meta_view (x_meta ix')"

lemma claim_view_args:
  assumes "claim_view c = claim_view c'" "valid_claim c" "valid_claim c'"
    "claim_columns c = Inr (rest, v, t)"
  shows "claim_arg_list c = claim_arg_list c'"
proof -
  from assms(2,3) obtain rows rows' where r: "claim_args_from_rest_terms (c_terms c) = Inr rows"
    "claim_args_from_rest_terms (c_terms c') = Inr rows'" by (auto simp: valid_claim_def)
  from assms(1,4) have "claim_columns c' = Inr (rest, v, t)" "c_asrt c = c_asrt c'"
    by (simp_all add: claim_view_def)
  from claim_columns_roundtrip [OF this(1) r(2)] claim_columns_roundtrip [OF assms(4) r(1)]
  have "rows = rows'" by auto
  then show ?thesis using r \<open>c_asrt c = c_asrt c'\<close> by (simp add: claim_arg_list_def claim_arg_rows_def)
qed

lemma claim_lists_args:
  assumes "map claim_view cs = map claim_view ds" "\<forall>c \<in> set cs. valid_claim c \<and> (\<exists>p. claim_columns c = Inr p)"
    "\<forall>d \<in> set ds. valid_claim d"
  shows "concat (map claim_arg_list cs) = concat (map claim_arg_list ds)"
  using assms
proof (induction cs arbitrary: ds)
  case (Cons c cs)
  then obtain d ds' where ds: "ds = d # ds'" "claim_view c = claim_view d" "map claim_view cs = map claim_view ds'"
    by (cases ds) auto
  with Cons.prems obtain rest v t where "claim_columns c = Inr (rest, v, t)" by fastforce
  with ds Cons.prems have "claim_arg_list c = claim_arg_list d" by (intro claim_view_args) auto
  moreover have "concat (map claim_arg_list cs) = concat (map claim_arg_list ds')"
    using Cons.prems ds by (intro Cons.IH) auto
  ultimately show ?case using ds(1) by simp
qed simp

lemma row_revokes_determined: "list_all2 row_revokes rs vs \<Longrightarrow> list_all2 row_revokes rs vs' \<Longrightarrow> vs = vs'"
proof (induction rs arbitrary: vs vs')
  case (Cons r rs)
  then obtain v w ws ws' where v: "vs = v # ws" "vs' = w # ws'" "row_revokes r v" "row_revokes r w"
    "list_all2 row_revokes rs ws" "list_all2 row_revokes rs ws'"
    by (auto simp: list_all2_Cons1)
  then have "v = w" using row_revokes_cols [OF v(3)] row_revokes_cols [OF v(4)] by (cases v; cases w) simp
  with Cons.IH v show ?case by simp
qed simp

lemma meta_view_events:
  assumes "map event_view es = map event_view fs"
  shows "map meta_view (map event_meta_row (projected_events es)) = map meta_view (map event_meta_row (projected_events fs))"
  using assms
proof (induction es arbitrary: fs)
  case (Cons e es)
  then obtain f fs' where fs: "fs = f # fs'" "event_view e = event_view f" "map event_view es = map event_view fs'"
    by (cases fs) auto
  have cell: "event_cell (e_kind e) (e_value e) = event_cell (e_kind e) (e_value f)"
    using fs(2) by (auto simp: event_view_def)
  have "encode_meta_value k (e_value e) = encode_meta_value k (e_value f)" if "e_kind e = Some k" for k
    using cell that by (cases "encode_meta_value k (e_value e)"; cases "encode_meta_value k (e_value f)")
      (simp_all add: event_cell_def)
  then show ?case using Cons.IH [OF fs(3)] fs(1,2)
    by (auto simp: projected_events_def is_unset_def event_view_def meta_view_def event_meta_row_def)
qed (simp add: projected_events_def)

lemma coherent_agree:
  assumes "coherent lazy db ix" "coherent lazy db ix'"
  shows "agree ix ix'"
proof -
  note c = assms [unfolded coherent_def coherent_claims_def coherent_events_def]
  have views: "map claim_view (x_claims ix) = map claim_view (x_claims ix')" using c by simp
  have cols: "\<exists>p. claim_columns d = Inr p" if "d \<in> set (x_claims ix)" for d
  proof -
    have "claim_view d \<in> set (map row_view (user_rows db))" using c(1) that by (metis image_eqI list.set_map)
    then show ?thesis by (auto simp: claim_view_def row_view_def)
  qed
  have "x_args ix = concat (map claim_arg_list (x_claims ix))"
    "x_args ix' = concat (map claim_arg_list (x_claims ix'))"
    using c by (simp_all add: ix_ok_def args_ok_def)
  moreover have "concat (map claim_arg_list (x_claims ix)) = concat (map claim_arg_list (x_claims ix'))"
    using views c cols by (intro claim_lists_args) auto
  ultimately have "x_args ix = x_args ix'" by simp
  moreover have "x_revokes ix = x_revokes ix'" using c row_revokes_determined by blast
  moreover have "dict_get (x_system ix) = dict_get (x_system ix')"
    "dict_get (x_tx_refs ix) = dict_get (x_tx_refs ix')"
    "dict_get (x_op_ordinals ix) = dict_get (x_op_ordinals ix')"
    using c by (auto simp: latest_def)
  moreover have ev: "map event_view (x_events ix) = map event_view (x_events ix')" using c by simp
  moreover have "map meta_view (x_meta ix) = map meta_view (x_meta ix')"
    using meta_view_events [OF ev] c by simp
  ultimately show ?thesis using views by (simp add: agree_def)
qed

lemma agree_queries:
  assumes "agree (l_ix L) (l_ix L2)" "ix_ok (l_ix L)" "ix_ok (l_ix L2)" "l_closed L2 = l_closed L"
  shows "find_claim_args L2 a i t = find_claim_args L a i t"
    "has_active_revocation L2 b = has_active_revocation L b" "find_revoker L2 b = find_revoker L b"
proof -
  have args: "x_args (l_ix L) = x_args (l_ix L2)" "x_revokes (l_ix L) = x_revokes (l_ix L2)"
    using assms(1) by (simp_all add: agree_def)
  have g: "grouped g_asrt (x_args (l_ix M)) (x_args_by_asrt (l_ix M))" if "ix_ok (l_ix M)" for M
    using that by (simp add: ix_ok_def args_ok_def)
  show "find_claim_args L2 a i t = find_claim_args L a i t"
    using args grouped_lookup [OF g [OF assms(2)]] grouped_lookup [OF g [OF assms(3)]] assms(4)
    by (simp add: find_claim_args_def ensure_open_def split: option.splits)
  show "has_active_revocation L2 b = has_active_revocation L b" "find_revoker L2 b = find_revoker L b"
    using args assms by (simp_all add: has_active_revocation_def find_revoker_def ensure_open_def
        ix_ok_def revokes_ok_def earliest_def)
qed

lemma reopen_lemma:
  assumes "db_ok db" "open_ledger tables db = Inr L0" "clean_steps L0 L"
  shows "\<exists>L2. reload L = (L2, Inr ()) \<and> agree (l_ix L) (l_ix L2) \<and>
     (\<forall>a i t. find_claim_args L2 a i t = find_claim_args L a i t) \<and>
     (\<forall>a. has_active_revocation L2 a = has_active_revocation L a \<and> find_revoker L2 a = find_revoker L a)"
proof -
  have coh: "coherent_ledger L" by (rule clean_steps_coherent [OF assms(3) open_coherent [OF assms(1,2)]])
  then obtain ix where ix: "load_from_db (l_lazy L) (l_db L) = (ix, Inr ())" "coherent (l_lazy L) (l_db L) ix"
    using load_coherent coherent_db_ok by blast
  let ?L2 = "L\<lparr>l_ix := ix\<rparr>"
  have "reload L = (?L2, Inr ())" using ix(1) by (simp add: reload_def)
  moreover have ag: "agree (l_ix L) (l_ix ?L2)" using coherent_agree [OF coh ix(2)] by simp
  moreover have "ix_ok (l_ix L)" "ix_ok (l_ix ?L2)" using coh ix(2) by (simp_all add: coherent_def)
  ultimately show ?thesis using agree_queries [OF ag] by (intro exI [of _ ?L2]) simp
qed

section \<open>Revocation\<close>

lemma coherent_revoked:
  assumes "coherent_ledger L"
  shows "x_revoked (l_ix L) = {s. \<exists>r \<in> set (system_rows (l_db L)). cr_value r = Some (TText s)}"
proof -
  have rv: "list_all2 row_revokes (system_rows (l_db L)) (x_revokes (l_ix L))"
    and x: "x_revoked (l_ix L) = r_revoked ` set (x_revokes (l_ix L))"
    using assms by (simp_all add: coherent_def coherent_claims_def ix_ok_def revokes_ok_def)
  from rv have "r_revoked ` set (x_revokes (l_ix L)) = {s. \<exists>r \<in> set (system_rows (l_db L)). cr_value r = Some (TText s)}"
  proof (induction rule: list_all2_induct)
    case (Cons r rs v vs)
    then show ?case using row_revokes_cols [OF Cons(1)] by auto
  qed simp
  with x show ?thesis by simp
qed

lemma revoked_stays:
  assumes "db_ok db" "open_ledger tables db = Inr L0" "clean_steps L0 L" "clean_steps L L'"
    "has_active_revocation L a = Inr True" "\<not> l_closed L'"
  shows "has_active_revocation L' a = Inr True"
proof -
  have c: "coherent_ledger L" by (rule clean_steps_coherent [OF assms(3) open_coherent [OF assms(1,2)]])
  then have c': "coherent_ledger L'" by (rule clean_steps_coherent [OF assms(4)])
  have "prefix (d_claims (l_db L)) (d_claims (l_db L'))"
    by (rule steps_claims_prefix [OF clean_steps_are_steps [OF assms(4)]])
  then have "set (system_rows (l_db L)) \<subseteq> set (system_rows (l_db L'))"
    by (auto simp: system_rows_def prefix_def)
  then have "x_revoked (l_ix L) \<subseteq> x_revoked (l_ix L')"
    unfolding coherent_revoked [OF c] coherent_revoked [OF c'] by blast
  then show ?thesis using assms(5,6)
    by (auto simp: has_active_revocation_def ensure_open_def err_simps split: if_splits)
qed

end
