(* ===== verification/Ledger_Samples.thy ===== *)
theory Ledger_Samples
  imports Ledger_Props
begin

text \<open>A small concrete history on which the properties of the ledger are exercised.\<close>

definition empty_db :: ledger_db where
  "empty_db = \<lparr>d_claims = [], d_meta = [], d_cmeta = []\<rparr>"

definition sample_L0 :: ledger where
  "sample_L0 = (case open_ledger [] empty_db of Inr L \<Rightarrow> L | Inl _ \<Rightarrow> undefined)"

definition sample_claim :: claim where
  "sample_claim = \<lparr>c_asrt = u ''a1'', c_pred = u ''p:likes'', c_eref = u ''e1'',
     c_terms = [PTuple [PStr (u ''string''), PStr (u ''tea'')]]\<rparr>"

definition sample_args :: "claim_arg list" where
  "sample_args = [\<lparr>g_asrt = u ''a1'', g_idx = 0, g_atom = PStr (u ''tea''), g_tag = u ''string''\<rparr>]"

definition sample_append :: "ledger \<times> append_result res" where
  "sample_append = append_assertion [] sample_claim sample_args [] [] None None sample_L0"

definition sample_L1 :: ledger where "sample_L1 = fst sample_append"

definition sample_note :: meta_row where
  "sample_note = \<lparr>m_asrt = u ''a1'', m_key = MKey (u ''note''), m_kind = u ''str'', m_value = PStr (u ''n'')\<rparr>"

definition sample_meta :: "ledger \<times> unit res" where
  "sample_meta = append_meta None [sample_note] sample_L1"

definition sample_L2 :: ledger where "sample_L2 = fst sample_meta"

definition sample_revokes :: revokes_row where
  "sample_revokes = \<lparr>r_revoker = u ''v1'', r_revoked = u ''a1''\<rparr>"

definition sample_revoke :: "ledger \<times> unit res" where
  "sample_revoke = append_revokes sample_revokes sample_L2"

definition sample_L3 :: ledger where "sample_L3 = fst sample_revoke"

definition sample_rows :: "cmeta_row list" where
  "sample_rows = [\<lparr>cm_asrt = u ''a1'', cm_key = MKey (u ''note''), cm_kind = Some (u ''str''),
     cm_value = Some (TText (u ''n'')), cm_tx = 1, cm_op = 0\<rparr>]"

lemma sample_open: "open_ledger [] empty_db = Inr sample_L0"
  by (simp add: sample_L0_def open_ledger_def init_schema_def empty_db_def load_from_db_def Let_def event_order_def)

lemma empty_db_ok: "db_ok empty_db"
  by (simp add: db_ok_def empty_db_def user_rows_def system_rows_def)

lemma sample_append_Ok: "\<not> isl (snd sample_append) \<and> d_cmeta (l_db (fst sample_append)) = []"
  by code_simp

lemma sample_meta_Ok: "\<not> isl (snd sample_meta) \<and> d_cmeta (l_db (fst sample_meta)) = sample_rows"
  by code_simp

lemma sample_revoke_Ok: "\<not> isl (snd sample_revoke) \<and> d_cmeta (l_db (fst sample_revoke)) = sample_rows \<and>
    has_active_revocation sample_L3 (u ''a1'') = Inr True \<and> \<not> l_closed sample_L3 \<and> l_lazy sample_L3 = []"
  by code_simp

lemma sample_stable: "d_cmeta db = sample_rows \<Longrightarrow> meta_stable db"
proof -
  have "encode_meta_value (u ''str'') (PStr (u ''n'')) = Inr (TText (u ''n''))"
    by (simp add: encode_meta_value_def)
  from meta_cell_stable [OF this] show "d_cmeta db = sample_rows \<Longrightarrow> meta_stable db"
    by (simp add: meta_stable_def sample_rows_def)
qed

lemma sample_step1: "clean_step sample_L0 sample_L1"
  unfolding sample_L1_def
  by (rule clean_append_assertion [OF sample_append_def])
    (use sample_append_Ok in \<open>simp add: clean_result_def meta_stable_def\<close>)

lemma sample_step2: "clean_step sample_L1 sample_L2"
  unfolding sample_L2_def
  by (rule clean_append_meta [OF sample_meta_def])
    (use sample_meta_Ok in \<open>simp add: clean_result_def sample_stable\<close>)

lemma sample_step3: "clean_step sample_L2 sample_L3"
  unfolding sample_L3_def
  by (rule clean_append_revokes [OF sample_revoke_def])
    (use sample_revoke_Ok in \<open>simp add: clean_result_def sample_stable\<close>)

lemma sample_history: "clean_steps sample_L0 sample_L2" "clean_steps sample_L0 sample_L3"
  using sample_step1 sample_step2 sample_step3 by (meson r_into_rtranclp rtranclp_trans)+

lemma sample_reachable: "reachable sample_L3"
  by (rule stepped [OF stepped [OF stepped [OF opened [OF sample_open] clean_is_step [OF sample_step1]]
        clean_is_step [OF sample_step2]] clean_is_step [OF sample_step3]])

end
