(* ===== verification/Ledger_Laws.thy ===== *)
theory Ledger_Laws
  imports Ledger_Samples
begin

text \<open>
  What the queries of a reachable ledger return: an indexed lookup is a scan of the primary
  list, and the effective metadata of a key is its last event up to the boundary, an explicit
  UNSET included, with the transaction default only for a key that was never written.
\<close>

section \<open>Lookups are scans\<close>

lemma find_claims_scan:
  assumes "ix_ok (l_ix L)" "\<not> l_closed L"
  shows "find_claims L p e = Inr (filter (\<lambda>c. opt_ok p (c_pred c) \<and> opt_ok e (c_eref c)) (x_claims (l_ix L)))"
proof -
  have c: "claims_ok (l_ix L)" using assms(1) by (simp add: ix_ok_def)
  show ?thesis
    using assms(2) c
    by (cases p; cases e)
      (auto simp: find_claims_def ensure_open_def claims_ok_def grouped_lookup opt_ok_def
        conj_ac)
qed

lemma find_args_scan:
  assumes "ix_ok (l_ix L)" "\<not> l_closed L"
  shows "find_claim_args L a i t = Inr (filter (\<lambda>r. opt_ok a (g_asrt r) \<and> opt_ok i (g_idx r) \<and> opt_ok t (g_tag r))
     (concat (map claim_arg_list (x_claims (l_ix L)))))"
proof -
  have c: "args_ok (l_ix L)" using assms(1) by (simp add: ix_ok_def)
  show ?thesis
    using assms(2) c
    by (cases a) (auto simp: find_claim_args_def ensure_open_def args_ok_def grouped_lookup opt_ok_def
        conj_ac)
qed

lemma find_meta_rows_scan:
  assumes "ix_ok (l_ix L)" "\<not> l_closed L" "l_lazy L = []"
  shows "find_meta L a k kd = Inr (filter (\<lambda>r. opt_ok a (m_asrt r) \<and> opt_ok k (m_key r) \<and> opt_ok kd (m_kind r))
     (x_meta (l_ix L)))"
proof -
  have c: "meta_ok (l_ix L)" using assms(1) by (simp add: ix_ok_def)
  show ?thesis
    using assms(2,3) c
    by (cases a; cases k; cases kd)
      (auto simp: find_meta_def ensure_open_def meta_ok_def grouped_lookup opt_ok_def Let_def
        conj_ac)
qed

lemma find_annotations_scan:
  assumes "ix_ok (l_ix L)" "\<not> l_closed L" "l_lazy L = []"
  shows "find_annotations scan L a n c k = Inr (filter (\<lambda>r. opt_ok a (a_asrt r) \<and> opt_ok n (a_ns r) \<and>
     opt_ok c (a_cat r) \<and> opt_ok k (a_key r)) (x_anno (l_ix L)))"
proof -
  have i: "anno_ok (l_ix L)" using assms(1) by (simp add: ix_ok_def)
  show ?thesis
    using assms(2,3) i
    by (cases a; cases n; cases c; cases k)
      (auto simp: find_annotations_def ensure_open_def anno_ok_def grouped_lookup opt_ok_def
        conj_ac)
qed

text \<open>
  C14: In every ledger reachable by any sequence of operations, failed ones included, the indexed
  lookups of claims, claim arguments, metadata rows and annotations return exactly the rows of
  the primary list that match, in insertion order.
\<close>

theorem lookups_are_scans:
  assumes "reachable L" "\<not> l_closed L" "l_lazy L = []"
  shows "find_claims L p e = Inr (filter (\<lambda>c. opt_ok p (c_pred c) \<and> opt_ok e (c_eref c)) (x_claims (l_ix L))) \<and>
    find_claim_args L a i t = Inr (filter (\<lambda>r. opt_ok a (g_asrt r) \<and> opt_ok i (g_idx r) \<and> opt_ok t (g_tag r))
      (concat (map claim_arg_list (x_claims (l_ix L))))) \<and>
    find_meta L a k kd = Inr (filter (\<lambda>r. opt_ok a (m_asrt r) \<and> opt_ok k (m_key r) \<and> opt_ok kd (m_kind r))
      (x_meta (l_ix L))) \<and>
    find_annotations scan L a n cat ak = Inr (filter (\<lambda>r. opt_ok a (a_asrt r) \<and> opt_ok n (a_ns r) \<and>
      opt_ok cat (a_cat r) \<and> opt_ok ak (a_key r)) (x_anno (l_ix L)))"
  using assms reachable_ix_ok [OF assms(1)]
  by (simp add: find_claims_scan find_args_scan find_meta_rows_scan find_annotations_scan)

lemma lookups_are_scans_witness:
  "find_claims sample_L3 (Some (u ''p:likes'')) None =
     Inr (filter (\<lambda>c. opt_ok (Some (u ''p:likes'')) (c_pred c) \<and> opt_ok None (c_eref c)) (x_claims (l_ix sample_L3)))"
  using lookups_are_scans [OF sample_reachable, of "Some (u ''p:likes'')" None None None None None None id None None None]
    sample_revoke_Ok by blast

section \<open>Effective metadata\<close>

lemma history_of_key:
  assumes "reachable L" "meta_history_events L (Some a) (Some k) = Inr h" "e \<in> set h"
  shows "e_asrt e = a \<and> e_key e = k"
proof -
  have "events_ok (l_ix L)" using reachable_ix_ok [OF assms(1)] by (simp add: ix_ok_def)
  then have eager: "f \<in> set (dict_list (x_events_by_asrt_key (l_ix L)) (a, k)) \<Longrightarrow> e_asrt f = a \<and> e_key f = k" for f
    by (auto simp: events_ok_def grouped_lookup)
  have lazy: "e_asrt f = a \<and> e_key f = k" if "lazy_meta_events L (Some a) (Some k) = Inr fs" "f \<in> set fs" for f fs
  proof -
    from that obtain r where "r \<in> set (event_order (filter (\<lambda>r. is_lazy (l_lazy L) (cm_key r) \<and>
        opt_ok (Some k) (cm_key r) \<and> opt_ok (Some a) (cm_asrt r)) (d_cmeta (l_db L))))" "event_of_row r = Inr f"
      by (auto simp: lazy_meta_events_def mapE_Inr_iff list_all2_conv_all_nth in_set_conv_nth [of f]) (metis nth_mem)
    then show ?thesis by (auto simp: event_order_def opt_ok_def event_of_row_def err_simps)
  qed
  from assms(2) obtain fs where fs: "lazy_meta_events L (Some a) (Some k) = Inr fs"
    and h: "h = sort_key claim_meta_event_sort_key (dict_list (x_events_by_asrt_key (l_ix L)) (a, k) @ fs)"
    by (auto simp: meta_history_events_def bindE_Inr_iff Let_def)
  from assms(3) have "e \<in> set (dict_list (x_events_by_asrt_key (l_ix L)) (a, k)) \<or> e \<in> set fs"
    by (simp add: h)
  with eager lazy [OF fs] show ?thesis by blast
qed

lemma latest_of_one_key:
  assumes "\<forall>e \<in> set h. e_asrt e = a \<and> e_key e = k"
  shows "latest_events b h = (let hs = filter (\<lambda>e. \<not> after_boundary b (event_seq e)) h
     in if hs = [] then [] else [((a, k), last hs)])"
  using assms
proof (induction h rule: rev_induct)
  case Nil
  then show ?case by (simp add: latest_events_def)
next
  case (snoc e h)
  have "e_asrt e = a" "e_key e = k" using snoc.prems by simp_all
  then have "latest_events b (h @ [e]) = (if after_boundary b (event_seq e) then latest_events b h
      else dict_set (a, k) e (latest_events b h))"
    unfolding latest_events_def foldl_append by simp
  moreover have "latest_events b h = (let hs = filter (\<lambda>e. \<not> after_boundary b (event_seq e)) h
     in if hs = [] then [] else [((a, k), last hs)])"
    by (rule snoc.IH) (use snoc.prems in simp)
  ultimately show ?case by (cases "after_boundary b (event_seq e)") (simp_all add: Let_def)
qed

lemma last_wins_lemma:
  assumes "reachable L" "meta_history_events L (Some a) (Some k) = Inr h"
  shows "effective_meta_events L (Some a) (Some k) None as_of =
    Inr (case rev (filter (\<lambda>e. \<not> after_boundary as_of (event_seq e)) h) of
        e # _ \<Rightarrow> if is_unset e then [] else [e]
      | [] \<Rightarrow> inherited_events (l_ix L) [] as_of (Some k) None a)"
proof -
  let ?hs = "filter (\<lambda>e. \<not> after_boundary as_of (event_seq e)) h"
  have h: "\<forall>e \<in> set h. e_asrt e = a \<and> e_key e = k" using history_of_key [OF assms] by blast
  note l = latest_of_one_key [OF h, of as_of]
  have inh: "length (inherited_events (l_ix L) nw as_of (Some k) None a) \<le> 1" for nw
    by (auto simp: inherited_events_def Let_def split: option.splits)
  have one: "sort_key f xs = xs" if "length xs \<le> 1" for xs :: "meta_event list" and f :: "meta_event \<Rightarrow> event_key"
    using that by (cases xs) (auto simp: sort_key_def)
  show ?thesis
  proof (cases ?hs rule: rev_cases)
    case Nil
    then show ?thesis
      using assms(2) l inh [of "[]"] by (simp add: effective_meta_events_def Let_def one)
  next
    case (snoc es e)
    have e: "e_key e = k" "e_asrt e = a"
    proof -
      have "e \<in> set ?hs" using snoc by simp
      then show "e_key e = k" "e_asrt e = a" using h by auto
    qed
    have df: "defaults_ok (x_tx_defaults (l_ix L))" using reachable_ix_ok [OF assms(1)] by (simp add: ix_ok_def)
    have "inherited_events (l_ix L) [((a, k), e)] as_of (Some k) None a = []"
      using df by (auto simp: inherited_events_def Let_def defaults_ok_def opt_ok_def split: option.splits)
    moreover have "effective_meta_events L (Some a) (Some k) None as_of = Inr (sort_key claim_meta_event_sort_key
        (filter (\<lambda>e. \<not> is_unset e) [e] @ inherited_events (l_ix L) [((a, k), e)] as_of (Some k) None a))"
      using assms(2) l snoc by (simp add: effective_meta_events_def Let_def)
    ultimately show ?thesis using snoc by (simp add: one)
  qed
qed

text \<open>
  C20: The effective metadata of a key is decided by the last event at or before the boundary: that
  event when it sets a value, nothing when it is an explicit UNSET, and the transaction default
  only when the history has no event there at all.
\<close>

theorem effective_meta_last_wins:
  assumes "reachable L" "meta_history_events L (Some a) (Some k) = Inr h"
  shows "effective_meta_events L (Some a) (Some k) None as_of =
    Inr (case rev (filter (\<lambda>e. case as_of of None \<Rightarrow> True | Some b \<Rightarrow> (e_tx e, e_op e) \<le> b) h) of
        e # _ \<Rightarrow> if is_unset e then [] else [e]
      | [] \<Rightarrow> inherited_events (l_ix L) [] as_of (Some k) None a)"
proof -
  have "(\<lambda>e. \<not> after_boundary as_of (event_seq e)) =
      (\<lambda>e. case as_of of None \<Rightarrow> True | Some b \<Rightarrow> (e_tx e, e_op e) \<le> b)"
    by (auto simp: after_boundary_def event_seq_def fun_eq_iff not_less split: option.splits)
  then show ?thesis using last_wins_lemma [OF assms, of as_of] by (simp only:)
qed

definition sample_event :: meta_event where
  "sample_event = \<lparr>e_asrt = u ''a1'', e_key = MKey (u ''note''), e_kind = Some (u ''str''),
     e_value = PStr (u ''n''), e_tx = 1, e_op = 0\<rparr>"

lemma sample_history_events:
  "meta_history_events sample_L3 (Some (u ''a1'')) (Some (MKey (u ''note''))) = Inr [sample_event]"
  by code_simp

lemma effective_meta_last_wins_witness:
  "effective_meta_events sample_L3 (Some (u ''a1'')) (Some (MKey (u ''note''))) None None = Inr [sample_event]"
  using effective_meta_last_wins [OF sample_reachable sample_history_events, of None]
  by (simp add: sample_event_def is_unset_def)

section \<open>Histories\<close>



text \<open>
  C33: Revocation is permanent: once an assertion is revoked, every later state of a clean history
  reports it revoked, reloads included.
\<close>

theorem revocation_permanent:
  assumes "db_ok db" "open_ledger tables db = Inr L0" "clean_steps L0 L" "clean_steps L L'"
    "has_active_revocation L a = Inr True" "\<not> l_closed L'"
  shows "has_active_revocation L' a = Inr True"
  using assms by (rule revoked_stays)

lemma sample_step4: "clean_steps sample_L3 (fst (set_ledger_meta (u ''k'') (u ''v'') sample_L3))"
  by (rule r_into_rtranclp) (rule clean_set_meta [OF refl])

lemma revocation_permanent_witness:
  "has_active_revocation (fst (set_ledger_meta (u ''k'') (u ''v'') sample_L3)) (u ''a1'') = Inr True"
proof (rule revocation_permanent [OF empty_db_ok sample_open sample_history(2) sample_step4])
  show "has_active_revocation sample_L3 (u ''a1'') = Inr True" using sample_revoke_Ok by simp
  show "\<not> l_closed (fst (set_ledger_meta (u ''k'') (u ''v'') sample_L3))"
    using sample_revoke_Ok by (simp add: set_ledger_meta_def write_session_def ensure_open_def keep_index_def)
qed

text \<open>
  Claims are append-only: whatever operations run, failed ones included, the rows of the claims
  table stay a prefix of the later table, so the durable sequence number of a claim never changes.
\<close>

lemma claims_append_only:
  assumes "ledger_steps L L'"
  shows "prefix (d_claims (l_db L)) (d_claims (l_db L')) \<and>
    (\<forall>a n. claim_sequence L a = Inr (Some n) \<longrightarrow> \<not> l_closed L' \<longrightarrow> claim_sequence L' a = Inr (Some n))"
  using steps_claims_prefix [OF assms] sequence_stable [OF assms] by blast

lemma claims_append_only_witness:
  "prefix (d_claims (l_db sample_L0)) (d_claims (l_db sample_L3))"
  using claims_append_only [OF clean_steps_are_steps [OF sample_history(2)]] by blast

end
