(* ===== verification/Ledger_Atomic.thy ===== *)
theory Ledger_Atomic
  imports Ledger_Simulation
begin

text \<open>
  Failure of the write operations: which of them leave the ledger as it was.  A session that
  raises rolls back; the post-commit hook runs after \<open>COMMIT\<close>, so an operation is atomic
  exactly when its hook cannot raise.
\<close>

section \<open>Hooks that cannot raise\<close>

lemma write_session_atomic:
  assumes "write_session L body = (L', Inl e)"
    and "\<And>db hook. body = Inr (db, hook) \<Longrightarrow> snd (hook (l_ix L)) = Inr ()"
  shows "L' = L"
  using assms by (cases rule: write_session_cases [of L body]) (auto simp: prod_eq_iff)

lemma thenS_calm: "snd p = Inr a \<Longrightarrow> snd (f (fst p) a) = Inr b \<Longrightarrow> snd (thenS p f) = Inr b"
  by (simp add: thenS_def)

lemma thenS_lift: "thenS p (\<lambda>L _. (L, Inr r)) = (L', Inl e) \<Longrightarrow> p = (L', Inl e)"
  by (cases p; cases "snd p") auto

lemma foldS_calm:
  assumes "P s" "\<And>s x. x \<in> set xs \<Longrightarrow> P s \<Longrightarrow> snd (f s x) = Inr () \<and> P (fst (f s x))"
  shows "snd (foldS f s xs) = Inr () \<and> P (fst (foldS f s xs))"
  using assms
proof (induction xs arbitrary: s)
  case (Cons x xs)
  then have x: "snd (f s x) = Inr ()" "P (fst (f s x))" by auto
  moreover have "snd (foldS f (fst (f s x)) xs) = Inr () \<and> P (fst (foldS f (fst (f s x)) xs))"
    using Cons.prems(2) x(2) by (intro Cons.IH) auto
  ultimately show ?case by (simp add: thenS_def)
qed simp

lemma calm_initial:
  assumes "insert_initial a meta anno tx op db = Inr db'"
  shows "snd (idx_add_initial lazy meta anno tx op ix) = Inr ()"
  using assms
  by (auto simp: idx_add_initial_def insert_initial_def insert_annotation_rows_def err_simps Let_def
      idx_add_compatibility_def split: if_splits)

lemma calm_claim:
  assumes "\<not> starts_with (c_pred c) SYSTEM_PREFIX" "claim_args_from_rest_terms (c_terms c) = Inr rows"
  shows "snd (apply_claim_index c tx op ix) = Inr ()"
  using assms by (simp add: apply_claim_index_def idx_add_claim_def claim_arg_rows_def Let_def)

lemma calm_revoke: "snd (apply_revoke_claim (revoke_claim r e) r' tx op ix) = Inr ()"
  by (simp add: apply_revoke_claim_def revoke_claim_def idx_add_system_revocation_claim_def
      is_revocation_shape_def)

lemma columns_valid:
  assumes "claim_columns c = Inr (rest, v, t)" "length (c_terms c) \<le> 1"
  shows "\<exists>rows. claim_args_from_rest_terms (c_terms c) = Inr rows"
proof (cases "c_terms c")
  case Nil
  then show ?thesis by (simp add: claim_args_eq)
next
  case (Cons x xs)
  from assms(1) obtain ns where ns: "mapE normalize_term (c_terms c) = Inr ns"
    by (auto simp: claim_columns_def err_simps)
  from normalize_terms_id [OF ns] have "ns = c_terms c" .
  with assms ns Cons show ?thesis
    by (auto simp: claim_columns_def encode_claim_value_def err_simps split: if_splits)
qed

section \<open>Single operations\<close>

lemma prepared_args:
  assumes "prepare_assertion L claim args meta anno idem a = Inr (Inr (c, m, n))"
  shows "\<exists>rows. claim_args_from_rest_terms (c_terms c) = Inr rows" "c_pred c = c_pred claim" "c_asrt c = a"
  using assms
  by (auto simp: prepare_assertion_def expected_claim_args_def err_simps Let_def split: option.splits if_splits)

lemma append_assertion_atomic:
  assumes "append_assertion fresh claim args meta anno idem asrt_id L = (L', Inl e)"
  shows "L' = L"
proof -
  let ?a = "effective_id asrt_id (c_asrt claim) fresh"
  have w: "L' = L" if "prepare_assertion L claim args meta anno idem ?a = Inr (Inr (c, m, n))"
    "\<not> starts_with (c_pred claim) SYSTEM_PREFIX" "write_assertion L c m n = (L', Inl e)" for c m n
    using that(3) unfolding write_assertion_def Let_def
  proof (rule write_session_atomic)
    fix db hook
    from prepared_args [OF that(1)] obtain rows where r: "claim_args_from_rest_terms (c_terms c) = Inr rows"
      "c_pred c = c_pred claim" by blast
    let ?tx = "next_direct_tx_seq (l_db L)"
    assume "bindE (insert_claim c (c_asrt c) ?tx (l_db L)) (\<lambda>db.
        bindE (insert_initial (c_asrt c) m n ?tx 0 db) (\<lambda>db.
        Inr (db, apply_assertion_indexes (l_lazy L) c m n ?tx 0))) = Inr (db, hook)"
    then obtain db1 where i: "insert_initial (c_asrt c) m n ?tx 0 db1 = Inr db"
      and h: "hook = apply_assertion_indexes (l_lazy L) c m n ?tx 0" by (auto simp: err_simps)
    show "snd (hook (l_ix L)) = Inr ()"
      unfolding h apply_assertion_indexes_def
      using calm_claim [of c rows] calm_initial [OF i] r that(2) by (intro thenS_calm) auto
  qed
  show ?thesis
  proof (cases "bindE (validate_claim_input claim False) (\<lambda>_.
           bindE (validate_claim_args_rows args) (\<lambda>_.
           bindE (validate_meta_rows_for_append_assertion meta) (\<lambda>_.
           bindE (reject_duplicate_meta_keys meta) (\<lambda>_.
           prepare_assertion L claim args meta anno idem ?a))))")
    case (Inl e')
    with assms show ?thesis by (simp add: append_assertion_def)
  next
    case (Inr p)
    then have v: "\<not> starts_with (c_pred claim) SYSTEM_PREFIX" "prepare_assertion L claim args meta anno idem ?a = Inr p"
      by (auto simp: err_simps validate_claim_input_def split: if_splits)
    show ?thesis
    proof (cases p)
      case Inl': (Inl x)
      with assms Inr show ?thesis by (simp add: append_assertion_def)
    next
      case Inr': (Inr q)
      obtain c m n where q: "q = (c, m, n)" by (cases q)
      with assms Inr Inr' have "write_assertion L c m n = (L', Inl e)"
        by (auto simp: append_assertion_def dest: thenS_lift)
      with w v Inr' q show ?thesis by simp
    qed
  qed
qed

lemma append_revocation_atomic:
  assumes "append_revocation fresh revokes meta idem revoker L = (L', Inl e)"
  shows "L' = L"
proof -
  have h: "snd (apply_revocation_indexes lazy (revoke_claim r e) r' m n tx ix) = Inr ()" for lazy r r' e m n tx ix
    unfolding apply_revocation_indexes_def
    by (rule thenS_calm [OF calm_revoke]) (simp add: Let_def)
  have w: "L' = L" if "write_revocation L r m n = (L', Inl e)" for r m n
    using that unfolding write_revocation_def Let_def
    by (rule write_session_atomic) (auto simp: err_simps h split: option.splits)
  show ?thesis
    using assms
    by (auto simp: append_revocation_def Let_def split: sum.splits dest!: thenS_lift intro: w)
qed

lemma append_claim_atomic:
  assumes "append_claim claim L = (L', Inl e)" "length (c_terms claim) \<le> 1"
  shows "L' = L"
proof (cases "bindE (validate_claim_input claim True) (\<lambda>_. mapE normalize_term (c_terms claim))")
  case (Inl e')
  with assms show ?thesis by (simp add: append_claim_def)
next
  case (Inr ns)
  then have v: "\<not> starts_with (c_pred claim) SYSTEM_PREFIX" "mapE normalize_term (c_terms claim) = Inr ns"
    by (auto simp: err_simps validate_claim_input_def split: if_splits)
  from normalize_terms_id [OF v(2)] have ns: "ns = c_terms claim" .
  have s: "write_session L (bindE (insert_claim claim (c_asrt claim) (next_direct_tx_seq (l_db L)) (l_db L))
      (\<lambda>db. Inr (db, apply_claim_index claim (next_direct_tx_seq (l_db L)) 0))) = (L', Inl e)"
    using assms(1) Inr by (simp add: append_claim_def Let_def ns)
  then show ?thesis
  proof (rule write_session_atomic)
    fix db hook
    assume "bindE (insert_claim claim (c_asrt claim) (next_direct_tx_seq (l_db L)) (l_db L))
      (\<lambda>db. Inr (db, apply_claim_index claim (next_direct_tx_seq (l_db L)) 0)) = Inr (db, hook)"
    then have i: "insert_claim claim (c_asrt claim) (next_direct_tx_seq (l_db L)) (l_db L) = Inr db"
      and hook: "hook = apply_claim_index claim (next_direct_tx_seq (l_db L)) 0" by (auto simp: err_simps)
    from i obtain rest v' t where "claim_columns claim = Inr (rest, v', t)" by (rule insert_claim_Ok)
    from columns_valid [OF this assms(2)] obtain rows where "claim_args_from_rest_terms (c_terms claim) = Inr rows" ..
    then show "snd (hook (l_ix L)) = Inr ()" unfolding hook by (rule calm_claim [OF v(1)])
  qed
qed

lemma append_revokes_atomic: "append_revokes row L = (L', Inl e) \<Longrightarrow> L' = L"
  by (auto simp: append_revokes_def Let_def err_simps calm_revoke split: sum.splits option.splits
      dest!: write_session_atomic)

lemma append_meta_atomic: "append_meta None rows L = (L', Inl e) \<Longrightarrow> L' = L"
  by (auto simp: append_meta_def Let_def err_simps split: sum.splits if_splits
      dest!: write_session_atomic)

lemma insert_annotation_calm:
  "insert_annotation_rows rows tx op skip db = Inr db' \<Longrightarrow>
    snd (idx_add_compatibility lazy rows skip tx' op' ix) = Inr ()"
  by (auto simp: insert_annotation_rows_def idx_add_compatibility_def err_simps)

lemma foldE_Ok_each: "foldE f s xs = Inr s' \<Longrightarrow> x \<in> set xs \<Longrightarrow> \<exists>a b. f a x = Inr b"
  by (induction xs arbitrary: s) (auto simp: err_simps)

lemma append_annotations_atomic:
  assumes "append_annotations None rows L = (L', Inl e)"
  shows "L' = L"
proof -
  let ?tx = "next_direct_tx_seq (l_db L)"
  let ?ins = "\<lambda>db (op, row). insert_annotation_rows [row] ?tx op [] db"
  let ?hook = "\<lambda>ix. thenS (foldS (\<lambda>ix (op, row). idx_add_compatibility (l_lazy L) [row] [] ?tx op ix) ix (number rows))
      (\<lambda>ix _. (idx_add_annotation (l_lazy L) rows ix, Inr ()))"
  have "L' = L" if "write_session L (bindE (foldE ?ins (l_db L) (number rows)) (\<lambda>db. Inr (db, ?hook))) = (L', Inl e)"
    using that
  proof (rule write_session_atomic)
    fix db hook
    assume "bindE (foldE ?ins (l_db L) (number rows)) (\<lambda>db. Inr (db, ?hook)) = Inr (db, hook)"
    then have i: "foldE ?ins (l_db L) (number rows) = Inr db" and hook: "hook = ?hook" by (auto simp: err_simps)
    have "snd ((\<lambda>ix (op, row). idx_add_compatibility (l_lazy L) [row] [] ?tx op ix) ix p) = Inr ()"
      if "p \<in> set (number rows)" for ix p
      using foldE_Ok_each [OF i that] by (cases p) (auto intro: insert_annotation_calm)
    from foldS_calm [where P = "\<lambda>_. True", OF _ conjI [OF this]]
    show "snd (hook (l_ix L)) = Inr ()" unfolding hook by (intro thenS_calm) auto
  qed
  with assms show ?thesis by (auto simp: append_annotations_def Let_def split: sum.splits if_splits)
qed

section \<open>The batch commit\<close>

definition batch_plain :: "assertion_write list \<Rightarrow> meta_append list \<Rightarrow> bool" where
  "batch_plain ws ms \<longleftrightarrow> (\<forall>w \<in> set ws. length (c_terms (w_claim w)) \<le> 1) \<and>
     (\<forall>m \<in> set ms. case m of MRow is_storage _ \<Rightarrow> \<not> is_storage | MTombstone _ _ \<Rightarrow> True)"

definition keeps_claims :: "ledger_index \<Rightarrow> ledger_index \<Rightarrow> bool" where
  "keeps_claims ix ix' \<longleftrightarrow> (\<forall>a. dict_get (x_claim_by_id ix) a \<noteq> None \<longrightarrow> dict_get (x_claim_by_id ix') a \<noteq> None)"

lemma keeps_target:
  "keeps_claims ix ix' \<Longrightarrow> revocation_target ix ws a \<noteq> None \<Longrightarrow> revocation_target ix' ws a \<noteq> None"
  by (auto simp: keeps_claims_def revocation_target_def split: option.splits)

lemma keeps_side: "keeps_claims ix0 ix \<Longrightarrow> same_claim_side ix ix' \<Longrightarrow> keeps_claims ix0 ix'"
  by (simp add: keeps_claims_def same_claim_side_def)


lemma side_idx_add_initial: "same_claim_side ix (fst (idx_add_initial lazy meta anno tx op ix))"
proof -
  have anno: "same_claim_side i (idx_add_annotation lazy rows i)" for rows i
    by (simp add: add_annotation_fields)
  have compat: "same_claim_side i (fst (idx_add_compatibility lazy anno meta tx op i))" for i
    by (simp add: idx_add_compatibility_def add_events_fields(3) split: sum.splits)
  have "same_claim_side ix (fst (thenS (idx_add_compatibility lazy anno meta tx op i)
      (\<lambda>ix _. (idx_add_annotation lazy anno ix, Inr ()))))" if "same_claim_side ix i" for i
    by (rule thenS_invariant [where P = "same_claim_side ix"])
      (use that compat anno same_claim_side_trans in auto)
  then show ?thesis using add_events_fields(3) by (simp add: idx_add_initial_def Let_def)
qed

lemma keeps_assertion:
  assumes "keeps_claims ix0 ix"
  shows "keeps_claims ix0 (fst (idx_add_assertion_write lazy tx ix p))"
proof (cases p)
  case (Pair op w)
  have args: "x_claim_by_id (idx_add_claim_args rows i) = x_claim_by_id i" for rows i
    by (induction rows arbitrary: i) (simp_all add: idx_add_claim_args_def idx_add_claim_arg_def)
  have claim: "keeps_claims ix0 (fst (apply_claim_index (w_claim w) tx op ix))"
    using assms by (auto simp: keeps_claims_def apply_claim_index_def idx_add_claim_def Let_def args
        idx_add_system_revocation_claim_def idx_put_claim_def set_tx_ref_def set_op_ordinal_def split: sum.splits)
  have side: "same_claim_side i (fst (idx_add_initial lazy (w_meta w) (w_anno w) tx op i))" for i
    by (rule side_idx_add_initial)
  show ?thesis unfolding Pair idx_add_assertion_write_def apply_assertion_indexes_def prod.case
    by (rule thenS_invariant [where P = "keeps_claims ix0"]) (auto intro: claim keeps_side side)
qed

lemma keeps_revocation:
  assumes "keeps_claims ix0 ix"
  shows "keeps_claims ix0 (fst (idx_add_revocation_write lazy ws tx ix p))"
proof (cases p)
  case (Pair op w)
  have r: "keeps_claims ix0 (fst (apply_revoke_claim c r tx op ix))" for c r
    using assms by (auto simp: keeps_claims_def apply_revoke_claim_def idx_add_system_revocation_claim_def
        set_tx_ref_def set_op_ordinal_def idx_add_revoke_def)
  have "keeps_claims ix0 (fst (thenS (apply_revoke_claim c r tx op ix) (\<lambda>ix _. idx_add_initial lazy m n tx op ix)))"
    for c r m n
    by (rule thenS_invariant [where P = "keeps_claims ix0"]) (auto intro: r keeps_side side_idx_add_initial)
  with assms show ?thesis by (simp add: Pair idx_add_revocation_write_def split: option.splits)
qed

lemma batch_hook_calm:
  assumes "batch_db L ws rs expected head md ms tx ids = Inr db" "batch_plain ws ms"
    and user: "\<And>w. w \<in> set ws \<Longrightarrow> \<not> starts_with (c_pred (w_claim w)) SYSTEM_PREFIX"
  shows "snd (apply_batch_indexes (l_lazy L) ws rs ms tx (l_ix L)) = Inr ()"
proof -
  let ?keep = "keeps_claims (l_ix L)"
  from assms(1) obtain db1 db2 db3 db4 where d: "foldE (insert_assertion_write tx) db1 (enumerate 0 ws) = Inr db2"
    "foldE (insert_revocation_write (l_ix L) ws tx) db2 (enumerate (length ws) rs) = Inr db3"
    "foldE (insert_meta_append tx) db3 (enumerate (length ws + length rs) ms) = Inr db4"
    by (auto simp: batch_db_def err_simps split: if_splits)
  have member: "snd p \<in> set xs" if "p \<in> set (enumerate n xs)" for p n and xs :: "'a list"
    using imageI [OF that, of snd] by (simp flip: list.set_map)
  have a: "snd (idx_add_assertion_write (l_lazy L) tx ix p) = Inr ()" if "p \<in> set (enumerate 0 ws)" for ix p
  proof -
    obtain op w where p: "p = (op, w)" by (cases p)
    with member [OF that] have w: "w \<in> set ws" by simp
    from foldE_Ok_each [OF d(1) that] obtain x y z where i: "insert_claim (w_claim w) (c_asrt (w_claim w)) tx x = Inr y"
      "insert_initial (c_asrt (w_claim w)) (w_meta w) (w_anno w) tx op y = Inr z"
      by (auto simp: p insert_assertion_write_def err_simps)
    from i(1) obtain rest v t where "claim_columns (w_claim w) = Inr (rest, v, t)" by (rule insert_claim_Ok)
    from columns_valid [OF this] assms(2) w obtain rows
      where rows: "claim_args_from_rest_terms (c_terms (w_claim w)) = Inr rows" by (auto simp: batch_plain_def)
    have "snd (apply_assertion_indexes (l_lazy L) (w_claim w) (w_meta w) (w_anno w) tx op ix) = Inr ()"
      unfolding apply_assertion_indexes_def
      by (rule thenS_calm [OF calm_claim [OF user [OF w] rows] calm_initial [OF i(2)]])
    then show ?thesis by (simp add: p idx_add_assertion_write_def)
  qed
  have r: "snd (idx_add_revocation_write (l_lazy L) ws tx ix p) = Inr ()"
    if "p \<in> set (enumerate (length ws) rs)" "?keep ix" for ix p
  proof -
    obtain op w where p: "p = (op, w)" by (cases p)
    from foldE_Ok_each [OF d(2) that(1)] obtain y z target where
      t: "revocation_target (l_ix L) ws (r_revoked (v_revokes w)) = Some target"
      and i: "insert_initial (r_revoker (v_revokes w)) (v_meta w) (v_anno w) tx op y = Inr z"
      by (auto simp: p insert_revocation_write_def err_simps split: option.splits)
    from keeps_target [OF that(2)] t obtain target'
      where t': "revocation_target ix ws (r_revoked (v_revokes w)) = Some target'" by fastforce
    have "snd (thenS (apply_revoke_claim (revoke_claim (v_revokes w) (c_eref target')) (v_revokes w) tx op ix)
        (\<lambda>ix _. idx_add_initial (l_lazy L) (v_meta w) (v_anno w) tx op ix)) = Inr ()"
      by (rule thenS_calm [OF calm_revoke calm_initial [OF i]])
    then show ?thesis by (simp add: p idx_add_revocation_write_def t')
  qed
  have m: "snd (idx_add_meta_append (l_lazy L) tx ix p) = Inr ()"
    if "p \<in> set (enumerate (length ws + length rs) ms)" for ix p
  proof -
    obtain op x where p: "p = (op, x)" by (cases p)
    with member [OF that] have "x \<in> set ms" by simp
    with assms(2) have "case x of MRow is_storage _ \<Rightarrow> \<not> is_storage | MTombstone _ _ \<Rightarrow> True"
      by (auto simp: batch_plain_def)
    then show ?thesis
      by (cases x) (simp_all add: p idx_add_meta_append_def Let_def)
  qed
  have refl: "?keep (l_ix L)" by (simp add: keeps_claims_def)
  have s1: "snd (foldS (idx_add_assertion_write (l_lazy L) tx) (l_ix L) (enumerate 0 ws)) = Inr () \<and>
      ?keep (fst (foldS (idx_add_assertion_write (l_lazy L) tx) (l_ix L) (enumerate 0 ws)))"
    by (rule foldS_calm [where P = ?keep]) (auto intro: a keeps_assertion refl)
  have s2: "snd (foldS (idx_add_revocation_write (l_lazy L) ws tx) ix (enumerate (length ws) rs)) = Inr ()"
    if "?keep ix" for ix
    using foldS_calm [where P = ?keep, OF that] r keeps_revocation by blast
  have s3: "snd (foldS (idx_add_meta_append (l_lazy L) tx) ix (enumerate (length ws + length rs) ms)) = Inr ()" for ix
    by (rule conjunct1 [OF foldS_calm [where P = "\<lambda>_. True"]]) (simp_all add: m)
  show ?thesis
    unfolding apply_batch_indexes_def
    by (rule thenS_calm) (use s1 s2 s3 in \<open>auto intro: thenS_calm\<close>)
qed

lemma merged_plain: "batch_plain (map merge_assertion_write ws) ms = batch_plain ws ms"
  by (simp add: batch_plain_def merge_assertion_write_def)

lemma commit_session:
  assumes "commit_batch ws rs expected head md ms L = (L', r)"
  obtains (refused) e where "L' = L" "r = Inl e"
  | (session) tx ids where "parse_head_tx_seq md = Inr tx"
      "validate_commit_metadata expected head md = Inr ()"
      "validate_batch L (map merge_assertion_write ws) (map merge_revocation_write rs) ms = Inr ids"
      "write_session L (bindE (batch_db L (map merge_assertion_write ws) (map merge_revocation_write rs)
          expected head md ms tx ids) (\<lambda>db. Inr (db, apply_batch_indexes (l_lazy L)
          (map merge_assertion_write ws) (map merge_revocation_write rs) ms tx))) = (L', r)"
  using assms by (auto simp: commit_batch_def Let_def err_simps split: sum.splits)

lemma commit_batch_atomic:
  assumes "commit_batch ws rs expected head md ms L = (L', Inl e)" "batch_plain ws ms"
  shows "L' = L"
  using assms(1)
proof (cases rule: commit_session)
  case (session tx ids)
  let ?ws = "map merge_assertion_write ws" and ?rs = "map merge_revocation_write rs"
  from session(3) obtain cids where "foldE validate_assertion_write [] ?ws = Inr cids"
    by (auto simp: validate_batch_def err_simps)
  then have user: "\<not> starts_with (c_pred (w_claim w)) SYSTEM_PREFIX" if "w \<in> set ?ws" for w
    using that by (meson foldE_each validated_assertion)
  show ?thesis
    using session(4)
    by (rule write_session_atomic)
      (use batch_hook_calm [where ws = ?ws] assms(2) user merged_plain in \<open>fastforce simp: err_simps\<close>)
qed simp

end
