(* ===== verification/Ledger_Heads.thy ===== *)
theory Ledger_Heads
  imports Ledger_Atomic
begin

text \<open>
  What a batch commit does to the head and to the claims table: a compare-and-swap on
  \<open>head_tx_id\<close>, the metadata upsert, and one row per assertion and revocation.
\<close>

section \<open>Metadata\<close>

lemma map_of_upserts:
  assumes "distinct (map fst xs)"
  shows "map_of (fold (\<lambda>(k, v). dict_set k v) xs d) = map_of d ++ map_of xs"
  using assms
proof (induction xs arbitrary: d)
  case (Cons p xs)
  obtain k v where p: "p = (k, v)" by (cases p)
  with Cons.prems have k: "map_of xs k = None" by (simp add: map_of_eq_None_iff)
  have "map_of (fold (\<lambda>(k, v). dict_set k v) (p # xs) d) = (map_of d)(k \<mapsto> v) ++ map_of xs"
    using Cons by (simp add: p)
  also have "\<dots> = map_of d ++ map_of (p # xs)"
    using k by (auto simp: p map_add_def fun_eq_iff split: option.splits)
  finally show ?case .
qed simp

lemma map_of_sorted:
  assumes "distinct (map fst md)"
  shows "map_of (sort_key fst md) = map_of md"
proof -
  have "distinct (map fst (sort_key fst md))"
    using assms by (simp add: distinct_map)
  with assms show ?thesis by (simp add: map_of_inject_set)
qed

lemma upsert_get:
  assumes "distinct (map fst md)"
  shows "dict_get (d_meta (upsert_metadata md db)) k =
    (case dict_get md k of None \<Rightarrow> dict_get (d_meta db) k | Some v \<Rightarrow> Some v)"
proof -
  have "distinct (map fst (sort_key fst md))"
    using assms by (simp add: distinct_map)
  then show ?thesis
    using assms by (simp add: upsert_metadata_def map_of_upserts map_of_sorted map_add_def split: option.splits)
qed

section \<open>Rows\<close>

lemma insert_claim_meta: "insert_claim c a tx db = Inr db' \<Longrightarrow> d_meta db' = d_meta db"
  by (erule insert_claim_Ok) simp

lemma insert_meta_rows_meta: "insert_meta_rows rows a tx op db = Inr db' \<Longrightarrow> d_meta db' = d_meta db"
  by (erule insert_meta_rows_Ok) simp

lemma insert_annotations_meta: "insert_annotation_rows rows tx op skip db = Inr db' \<Longrightarrow> d_meta db' = d_meta db"
  by (auto simp: insert_annotation_rows_def err_simps
      elim!: foldE_invariant [where P = "\<lambda>x. d_meta x = d_meta db"] dest: insert_meta_rows_meta)

lemma insert_initial_meta: "insert_initial a meta anno tx op db = Inr db' \<Longrightarrow> d_meta db' = d_meta db"
  by (auto simp: insert_initial_def err_simps insert_meta_rows_meta split: if_splits
      dest!: insert_meta_rows_meta insert_annotations_meta)

text \<open>What one row of a batch adds to the claims: the id and the transaction.\<close>

abbreviation row_ids :: "claim_row list \<Rightarrow> (ustr \<times> nat) list" where
  "row_ids rs \<equiv> map (\<lambda>r. (cr_asrt r, cr_tx r)) rs"

definition adds :: "nat \<Rightarrow> ustr list \<Rightarrow> ledger_db \<Rightarrow> ledger_db \<Rightarrow> bool" where
  "adds tx ids db db' \<longleftrightarrow> d_meta db' = d_meta db \<and>
     (\<exists>new. d_claims db' = d_claims db @ new \<and> row_ids new = map (\<lambda>a. (a, tx)) ids)"

lemma adds_Nil [simp]: "adds tx [] db db' \<longleftrightarrow> d_meta db' = d_meta db \<and> d_claims db' = d_claims db"
  by (auto simp: adds_def)

lemma adds_append: "adds tx as db db1 \<Longrightarrow> adds tx bs db1 db2 \<Longrightarrow> adds tx (as @ bs) db db2"
  by (fastforce simp: adds_def)

lemma adds_insert_claim: "insert_claim c a tx db = Inr db' \<Longrightarrow> adds tx [a] db db'"
  by (erule insert_claim_Ok) (simp add: adds_def)

lemma adds_initial: "insert_initial a meta anno tx op db = Inr db' \<Longrightarrow> adds tx [] db db'"
  by (simp add: insert_initial_meta insert_initial_claims)

lemma adds_assertion:
  "insert_assertion_write tx db p = Inr db' \<Longrightarrow> adds tx [c_asrt (w_claim (snd p))] db db'"
  using adds_append [OF adds_insert_claim adds_initial]
  by (fastforce simp: insert_assertion_write_def err_simps split: prod.splits)

lemma adds_revocation:
  "insert_revocation_write ix ws tx db p = Inr db' \<Longrightarrow> adds tx [r_revoker (v_revokes (snd p))] db db'"
  using adds_append [OF adds_insert_claim adds_initial]
  by (fastforce simp: insert_revocation_write_def err_simps split: prod.splits option.splits)

lemma insert_meta_rows_claims: "insert_meta_rows rows a tx op db = Inr db' \<Longrightarrow> d_claims db' = d_claims db"
  by (erule insert_meta_rows_Ok) simp

lemma adds_meta: "insert_meta_append tx db p = Inr db' \<Longrightarrow> adds tx [] db db'"
  by (cases p) (auto simp: insert_meta_append_def dest: insert_meta_rows_meta insert_meta_rows_claims)

lemma adds_fold:
  assumes "foldE f db xs = Inr db'" "\<And>a b x. f a x = Inr b \<Longrightarrow> adds tx (g x) a b"
  shows "adds tx (concat (map g xs)) db db'"
  using assms(1)
proof (induction xs arbitrary: db)
  case (Cons x xs)
  then obtain b where b: "f db x = Inr b" "foldE f b xs = Inr db'" by (auto simp: err_simps)
  from adds_append [OF assms(2) [OF b(1)] Cons.IH [OF b(2)]] show ?case by simp
qed simp

lemma concat_singletons: "concat (map (\<lambda>x. [f x]) xs) = map f xs"
  by (induction xs) simp_all

lemma concat_map_Nil: "concat (map (\<lambda>_. []) xs) = []"
  by (induction xs) simp_all

lemma map_snd_enum: "map (\<lambda>p. f (snd p)) (enumerate n xs) = map f xs"
proof -
  have "map (\<lambda>p. f (snd p)) (enumerate n xs) = map f (map snd (enumerate n xs))"
    unfolding map_map by (simp add: comp_def)
  then show ?thesis unfolding map_snd_enumerate .
qed

definition batch_ids :: "assertion_write list \<Rightarrow> revocation_write list \<Rightarrow> ustr list" where
  "batch_ids ws rs = map (\<lambda>w. c_asrt (w_claim w)) ws @ map (\<lambda>w. r_revoker (v_revokes w)) rs"

lemma batch_rows:
  assumes "batch_db L ws rs expected head md ms tx ids = Inr db"
  obtains db1 where "dict_get (d_meta (l_db L)) HEAD_TX_ID = expected"
    "d_meta db1 = dict_set HEAD_TX_ID head (d_meta (l_db L))" "db = upsert_metadata md db1"
    "adds tx (batch_ids ws rs) (l_db L\<lparr>d_meta := d_meta db1\<rparr>) db1"
proof -
  from assms obtain db0 db2 db3 db4 where d: "cas_head expected head (l_db L) = Inr db0"
    "foldE (insert_assertion_write tx) db0 (enumerate 0 ws) = Inr db2"
    "foldE (insert_revocation_write (l_ix L) ws tx) db2 (enumerate (length ws) rs) = Inr db3"
    "foldE (insert_meta_append tx) db3 (enumerate (length ws + length rs) ms) = Inr db4"
    and db: "db = upsert_metadata md db4"
    by (auto simp: batch_db_def err_simps split: if_splits)
  from d(1) have h: "dict_get (d_meta (l_db L)) HEAD_TX_ID = expected"
    "db0 = (l_db L)\<lparr>d_meta := dict_set HEAD_TX_ID head (d_meta (l_db L))\<rparr>"
    by (auto simp: cas_head_def split: if_splits)
  have s1: "adds tx (map (\<lambda>w. c_asrt (w_claim w)) ws) db0 db2"
    using adds_fold [where g = "\<lambda>p. [c_asrt (w_claim (snd p))]", OF d(2) adds_assertion]
    by (simp add: concat_singletons map_snd_enum [where f = "\<lambda>w. c_asrt (w_claim w)"])
  have s2: "adds tx (map (\<lambda>w. r_revoker (v_revokes w)) rs) db2 db3"
    using adds_fold [where g = "\<lambda>p. [r_revoker (v_revokes (snd p))]", OF d(3) adds_revocation]
    by (simp add: concat_singletons map_snd_enum [where f = "\<lambda>w. r_revoker (v_revokes w)"])
  have s3: "adds tx [] db3 db4"
    using adds_fold [where g = "\<lambda>_. []" and tx = tx, OF d(4)] adds_meta by (simp add: concat_map_Nil)
  have "adds tx (batch_ids ws rs) db0 db4"
    using adds_append [OF adds_append [OF s1 s2] s3] by (simp add: batch_ids_def)
  with h(2) show ?thesis
    by (intro that [OF h(1) _ db]) (auto simp: adds_def)
qed

section \<open>The commit\<close>

lemma merged_ids: "batch_ids (map merge_assertion_write ws) (map merge_revocation_write rs) = batch_ids ws rs"
  by (simp add: batch_ids_def merge_assertion_write_def merge_revocation_write_def)

definition advanced :: "assertion_write list \<Rightarrow> revocation_write list \<Rightarrow> ustr option \<Rightarrow> ustr \<Rightarrow>
    (ustr, ustr) dict \<Rightarrow> ledger_db \<Rightarrow> ledger_db \<Rightarrow> bool" where
  "advanced ws rs expected head md db db' \<longleftrightarrow>
     dict_get (d_meta db) HEAD_TX_ID = expected \<and>
     (\<forall>k. dict_get (d_meta db') k = (if k = HEAD_TX_ID then Some head
        else case dict_get md k of None \<Rightarrow> dict_get (d_meta db) k | Some v \<Rightarrow> Some v)) \<and>
     (\<exists>tx new. parse_head_tx_seq md = Inr tx \<and> d_claims db' = d_claims db @ new \<and>
        row_ids new = map (\<lambda>a. (a, tx)) (batch_ids ws rs))"

lemma commit_advances:
  assumes "commit_batch ws rs expected head md ms L = (L', r)" "distinct (map fst md)"
  shows "(L' = L \<and> isl r) \<or> advanced ws rs expected head md (l_db L) (l_db L')"
  using assms(1)
proof (cases rule: commit_session)
  case (session tx ids)
  let ?ws = "map merge_assertion_write ws" and ?rs = "map merge_revocation_write rs"
  let ?body = "bindE (batch_db L ?ws ?rs expected head md ms tx ids)
      (\<lambda>db. Inr (db, apply_batch_indexes (l_lazy L) ?ws ?rs ms tx))"
  show ?thesis
  proof (cases rule: write_session_cases [of L ?body])
    case (failed e)
    then show ?thesis using session(4) by simp
  next
    case (committed db hook)
    from committed(1) have b: "batch_db L ?ws ?rs expected head md ms tx ids = Inr db" by (auto simp: err_simps)
    from committed(3) session(4) have "l_db L' = db" by auto
    from session(2) have md: "dict_get md HEAD_TX_ID = None"
      by (auto simp: validate_commit_metadata_def split: if_splits)
    from b show ?thesis
    proof (rule batch_rows)
      fix db1 assume h: "dict_get (d_meta (l_db L)) HEAD_TX_ID = expected"
        "d_meta db1 = dict_set HEAD_TX_ID head (d_meta (l_db L))" "db = upsert_metadata md db1"
        "adds tx (batch_ids ?ws ?rs) (l_db L\<lparr>d_meta := d_meta db1\<rparr>) db1"
      then obtain new where "d_claims db1 = d_claims (l_db L) @ new"
        "row_ids new = map (\<lambda>a. (a, tx)) (batch_ids ws rs)"
        by (auto simp: adds_def merged_ids)
      moreover have "d_claims db = d_claims db1" by (simp add: h(3) upsert_metadata_def)
      ultimately have "advanced ws rs expected head md (l_db L) db"
        using h(1,2) session(1) md upsert_get [OF assms(2), of db1]
        by (auto simp: advanced_def h(3) split: option.splits)
      with \<open>l_db L' = db\<close> show ?thesis by simp
    qed
  qed
qed simp

lemma stale_commit:
  assumes "dict_get (d_meta (l_db L)) HEAD_TX_ID \<noteq> expected"
  shows "\<exists>e. commit_batch ws rs expected head md ms L = (L, Inl e)"
proof -
  have c: "cas_head expected head (l_db L) = Inl LedgerHeadConflictError"
    using assms by (simp add: cas_head_def)
  have fails: "\<exists>e. batch_db L a b expected head md ms tx ids = Inl e" for a b tx ids
    by (simp add: batch_db_def c)
  have "\<exists>e. write_session L (bindE (batch_db L a b expected head md ms tx ids) f) = (L, Inl e)" for a b tx ids f
  proof -
    obtain e where "batch_db L a b expected head md ms tx ids = Inl e" using fails by blast
    then show ?thesis by (simp add: write_session_def ensure_open_def guardE_def)
  qed
  then show ?thesis by (auto simp: commit_batch_def Let_def split: sum.splits)
qed

end
