(* ===== verification/Ledger_Writes.thy ===== *)
theory Ledger_Writes
  imports Ledger_Heads
begin

text \<open>
  What a successful direct write leaves behind: the row, the index entries, and what the next
  writer sees.
\<close>

section \<open>Assertions\<close>

lemma write_session_Ok:
  assumes "write_session L body = (L', Inr r)"
  obtains db hook where "body = Inr (db, hook)" "\<not> l_closed L" "hook (l_ix L) = (l_ix L', Inr r)"
    "l_db L' = db" "l_lazy L' = l_lazy L" "l_closed L' = l_closed L"
  using assms by (cases rule: write_session_cases [of L body]) (auto simp: prod_eq_iff)

lemma written_assertion:
  assumes "append_assertion fresh claim args meta anno idem asrt_id L = (L', Inr \<lparr>ar_asrt = a, ar_written = True\<rparr>)"
  obtains c m n where
    "prepare_assertion L claim args meta anno idem (effective_id asrt_id (c_asrt claim) fresh) = Inr (Inr (c, m, n))"
    "write_assertion L c m n = (L', Inr ())" "c_asrt c = a" "a = effective_id asrt_id (c_asrt claim) fresh"
    "validate_claim_input claim False = Inr ()" "validate_claim_args_rows args = Inr ()"
    "validate_meta_rows_for_append_assertion meta = Inr ()" "reject_duplicate_meta_keys meta = Inr ()"
proof -
  let ?a = "effective_id asrt_id (c_asrt claim) fresh"
  from assms obtain p where v: "validate_claim_input claim False = Inr ()" "validate_claim_args_rows args = Inr ()"
    "validate_meta_rows_for_append_assertion meta = Inr ()" "reject_duplicate_meta_keys meta = Inr ()"
    "prepare_assertion L claim args meta anno idem ?a = Inr p"
    by (auto simp: append_assertion_def err_simps split: sum.splits)
  from assms v obtain c m n where p: "p = Inr (c, m, n)"
    by (cases p) (auto simp: append_assertion_def)
  with assms v have "write_assertion L c m n = (L', Inr ())" "c_asrt c = a"
    by (auto simp: append_assertion_def thenS_Inr_iff)
  with v p prepared_args [of L claim args meta anno idem ?a c m n] show ?thesis by (intro that) auto
qed

lemma write_assertion_Ok:
  assumes "write_assertion L c m n = (L', Inr ())"
  obtains db ix where "insert_claim c (c_asrt c) (next_direct_tx_seq (l_db L)) (l_db L) = Inr db"
    "insert_initial (c_asrt c) m n (next_direct_tx_seq (l_db L)) 0 db = Inr (l_db L')"
    "apply_claim_index c (next_direct_tx_seq (l_db L)) 0 (l_ix L) = (ix, Inr ())"
    "idx_add_initial (l_lazy L) m n (next_direct_tx_seq (l_db L)) 0 ix = (l_ix L', Inr ())"
    "l_lazy L' = l_lazy L" "\<not> l_closed L" "\<not> l_closed L'"
  using assms unfolding write_assertion_def Let_def
  by (elim write_session_Ok)
    (auto simp: err_simps apply_assertion_indexes_def thenS_Inr_iff intro: that)

lemma claim_index_by_id:
  assumes "apply_claim_index c tx op ix = (ix', Inr ())" "\<not> starts_with (c_pred c) SYSTEM_PREFIX"
  shows "dict_get (x_claim_by_id ix') = (dict_get (x_claim_by_id ix))(c_asrt c \<mapsto> c)"
    "x_revokers ix' = x_revokers ix"
proof -
  from assms obtain rows where rows: "claim_arg_rows c = Inr rows"
    and ix': "ix' = idx_add_claim_args rows
      (idx_put_claim c None (set_op_ordinal (c_asrt c) op (set_tx_ref (c_asrt c) (Some tx) ix)))"
    by (auto simp: apply_claim_index_def idx_add_claim_def Let_def split: sum.splits)
  note defs = ix' idx_add_claim_args_def fold_claim_args idx_put_claim_def set_op_ordinal_def
    set_tx_ref_def Let_def
  show "dict_get (x_claim_by_id ix') = (dict_get (x_claim_by_id ix))(c_asrt c \<mapsto> c)"
    "x_revokers ix' = x_revokers ix" by (simp_all add: defs)
qed

lemma side_initial_Ok:
  "idx_add_initial lazy m n tx op ix = (ix', Inr ()) \<Longrightarrow> same_claim_side ix ix'"
  using side_idx_add_initial [of ix lazy m n tx op] by simp

text \<open>The metadata rows an initial write projects.\<close>

lemma initial_meta_rows:
  assumes "idx_add_initial lazy m n tx op ix = (ix', Inr ())"
  shows "x_meta ix' = x_meta ix @ filter (\<lambda>r. \<not> is_lazy lazy (m_key r)) m"
proof -
  have am: "append_meta_rows (map (MRow False) m) = m"
    by (induction m) (simp_all add: append_meta_rows_def List.map_filter_simps)
  note f = add_events_fields(2) add_annotation_fields
  show ?thesis
  proof (cases "n = []")
    case True
    with assms show ?thesis by (auto simp: idx_add_initial_def Let_def f am)
  next
    case False
    with assms show ?thesis
      by (auto simp: idx_add_initial_def Let_def thenS_Inr_iff idx_add_compatibility_def f am split: sum.splits)
  qed
qed

lemma append_assertion_effect:
  assumes "append_assertion fresh claim args meta anno idem asrt_id L = (L', Inr \<lparr>ar_asrt = a, ar_written = True\<rparr>)"
  obtains row where
    "dict_get (x_claim_by_id (l_ix L')) = (dict_get (x_claim_by_id (l_ix L)))(a \<mapsto> claim\<lparr>c_asrt := a\<rparr>)"
    "x_claims (l_ix L') = x_claims (l_ix L) @ [claim\<lparr>c_asrt := a\<rparr>]"
    "x_revoked (l_ix L') = x_revoked (l_ix L)" "x_revokers (l_ix L') = x_revokers (l_ix L)"
    "d_claims (l_db L') = d_claims (l_db L) @ [row]" "cr_asrt row = a"
    "cr_tx row = next_direct_tx_seq (l_db L)" "int (cr_tx row) < SQL_INT_LIMIT"
    "a \<notin> cr_asrt ` set (d_claims (l_db L))" "\<not> l_closed L" "\<not> l_closed L'" "l_lazy L' = l_lazy L"
  using assms
proof (rule written_assertion)
  fix c m n
  assume p: "prepare_assertion L claim args meta anno idem (effective_id asrt_id (c_asrt claim) fresh) = Inr (Inr (c, m, n))"
    and w: "write_assertion L c m n = (L', Inr ())" "c_asrt c = a"
    and v: "validate_claim_input claim False = Inr ()"
  from p have c: "c = claim\<lparr>c_asrt := a\<rparr>" using w(2)
    by (auto simp: prepare_assertion_def err_simps Let_def dest: normalize_terms_id split: option.splits if_splits)
  have user: "\<not> starts_with (c_pred c) SYSTEM_PREFIX"
    using v by (auto simp: c validate_claim_input_def err_simps split: if_splits)
  show ?thesis
    using w(1)
  proof (rule write_assertion_Ok)
    fix db ix
    let ?tx = "next_direct_tx_seq (l_db L)"
    assume i: "insert_claim c (c_asrt c) ?tx (l_db L) = Inr db" "insert_initial (c_asrt c) m n ?tx 0 db = Inr (l_db L')"
      and h: "apply_claim_index c ?tx 0 (l_ix L) = (ix, Inr ())"
        "idx_add_initial (l_lazy L) m n ?tx 0 ix = (l_ix L', Inr ())"
      and open': "l_lazy L' = l_lazy L" "\<not> l_closed L" "\<not> l_closed L'"
    note f = add_claim_fields [OF h(1) user] claim_index_by_id [OF h(1) user]
    note s = side_initial_Ok [OF h(2), unfolded same_claim_side_def]
    from i(1) show ?thesis
    proof (rule insert_claim_Ok)
      fix rest v t
      assume db: "claim_columns c = Inr (rest, v, t)" "c_asrt c \<noteq> []" "int ?tx < SQL_INT_LIMIT"
        "c_asrt c \<notin> cr_asrt ` set (d_claims (l_db L))"
        "db = l_db L\<lparr>d_claims := d_claims (l_db L) @ [\<lparr>cr_seq = Suc (length (d_claims (l_db L))), cr_asrt = c_asrt c,
           cr_pred = c_pred c, cr_eref = c_eref c, cr_rest = rest, cr_value = v, cr_tag = t, cr_tx = ?tx\<rparr>]\<rparr>"
      then have "d_claims (l_db L') = d_claims (l_db L) @ [\<lparr>cr_seq = Suc (length (d_claims (l_db L))), cr_asrt = a,
           cr_pred = c_pred c, cr_eref = c_eref c, cr_rest = rest, cr_value = v, cr_tag = t, cr_tx = ?tx\<rparr>]"
        using insert_initial_claims [OF i(2)] w(2) by simp
      then show ?thesis
        using f s db open' w(2) by (intro that) (auto simp: c)
    qed
  qed
qed

lemma append_assertion_cases:
  assumes "append_assertion fresh claim args meta anno idem asrt_id L = (L', r)"
  shows "L' = L \<or> (\<exists>row. d_claims (l_db L') = d_claims (l_db L) @ [row] \<and>
    cr_tx row = next_direct_tx_seq (l_db L) \<and> int (cr_tx row) < SQL_INT_LIMIT)"
proof (cases r)
  case (Inl e)
  with append_assertion_atomic assms show ?thesis by blast
next
  case (Inr ar)
  show ?thesis
  proof (cases "ar_written ar")
    case True
    then obtain a where "ar = \<lparr>ar_asrt = a, ar_written = True\<rparr>" by (cases ar) auto
    with assms Inr have "append_assertion fresh claim args meta anno idem asrt_id L =
        (L', Inr \<lparr>ar_asrt = a, ar_written = True\<rparr>)" by simp
    then show ?thesis by (rule append_assertion_effect) auto
  next
    case False
    with assms Inr show ?thesis
      by (auto simp: append_assertion_def thenS_Inr_iff split: sum.splits)
  qed
qed

section \<open>Idempotent retries\<close>

lemma scan_ingest_last:
  assumes "\<not> l_closed L" "scan_ingest L as = Inr None" "\<not> l_closed L'"
    "x_revoked (l_ix L') = x_revoked (l_ix L)" "x_revokers (l_ix L') = x_revokers (l_ix L)"
    "dict_get (x_claim_by_id (l_ix L')) = (dict_get (x_claim_by_id (l_ix L)))(a \<mapsto> c)"
    "a \<notin> x_revoked (l_ix L)"
  shows "scan_ingest L' (as @ [a]) = Inr (Some a)"
  using assms
proof (induction as)
  case Nil
  then show ?case by (simp add: has_active_revocation_def ensure_open_def)
next
  case (Cons b as)
  show ?case
  proof (cases "b = a")
    case True
    with Cons.prems show ?thesis by (simp add: has_active_revocation_def ensure_open_def)
  next
    case False
    with Cons show ?thesis
      by (auto simp: has_active_revocation_def ensure_open_def split: if_splits)
  qed
qed

lemma replicate_distinct: "distinct (replicate n x) \<Longrightarrow> n \<le> 1"
proof (rule ccontr)
  assume "distinct (replicate n x)" "\<not> n \<le> 1"
  moreover from this(2) obtain k where "n = Suc (Suc k)" by (metis One_nat_def not_less_eq_eq old.nat.exhaust zero_le)
  ultimately show False by simp
qed

lemma materialized_key:
  assumes "materialize_idempotency_meta rows (Some i) a = Inr m" "distinct (map m_key rows)"
    "\<forall>r \<in> set rows. m_asrt r = a"
  shows "map m_asrt (filter (\<lambda>r. ingest_value r = Some (i_key i)) m) = [a]" "i_key i \<noteq> []"
proof -
  let ?k = "MKey (u ''ingest_key'')"
  let ?P = "\<lambda>r. ingest_value r = Some (i_key i)"
  have iv: "ingest_value r = Some s \<Longrightarrow> m_key r = ?k" for r s
    by (simp add: ingest_value_def split: if_splits)
  from assms(1) show "i_key i \<noteq> []" by (simp add: materialize_idempotency_meta_def split: if_splits)
  show "map m_asrt (filter ?P m) = [a]"
  proof (cases "filter (\<lambda>r. m_key r = ?k) rows")
    case Nil
    then have none: "filter ?P rows = []" using iv by (auto simp: filter_empty_conv)
    from Nil assms(1) have "m = rows @ [\<lparr>m_asrt = a, m_key = ?k, m_kind = u ''str'', m_value = PStr (i_key i)\<rparr>]"
      by (auto simp: materialize_idempotency_meta_def split: if_splits)
    then show ?thesis using none by (simp add: ingest_value_def)
  next
    case (Cons r rs)
    with assms(1) have r: "m = rows" "ingest_value r = Some (i_key i)"
      by (auto simp: materialize_idempotency_meta_def ingest_value_def filter_eq_Cons_iff split: if_splits)
    have len: "length (filter (\<lambda>r. m_key r = ?k) rows) \<le> 1"
    proof -
      have "map m_key (filter (\<lambda>r. m_key r = ?k) rows) = replicate (length (filter (\<lambda>r. m_key r = ?k) rows)) ?k"
        by (induction rows) auto
      moreover have "distinct (map m_key (filter (\<lambda>r. m_key r = ?k) rows))"
        using assms(2) by (rule distinct_map_filter)
      ultimately have "distinct (replicate (length (filter (\<lambda>r. m_key r = ?k) rows)) ?k)" by simp
      then show ?thesis by (rule replicate_distinct)
    qed
    with Cons have one: "filter (\<lambda>r. m_key r = ?k) rows = [r]" by simp
    have "filter ?P rows = filter ?P (filter (\<lambda>r. m_key r = ?k) rows)"
      using iv by (auto simp: filter_filter intro!: filter_cong)
    also have "\<dots> = [r]" using one r(2) by simp
    finally have f: "filter ?P rows = [r]" .
    have "r \<in> set (filter (\<lambda>r. m_key r = ?k) rows)" using one by simp
    then have "r \<in> set rows" by simp
    then show ?thesis using f r(1) assms(3) by simp
  qed
qed

lemma materialize_any_id:
  assumes "materialize_idempotency_meta (with_asrt a rows) idem a = Inr m"
  shows "\<exists>m'. materialize_idempotency_meta (with_asrt b rows) idem b = Inr m'"
proof -
  have "filter (\<lambda>row. m_key row = MKey (u ''ingest_key'')) (with_asrt x rows) =
      with_asrt x (filter (\<lambda>row. m_key row = MKey (u ''ingest_key'')) rows)" for x
    by (simp add: with_asrt_def filter_map comp_def)
  with assms show ?thesis
    by (cases idem; cases "filter (\<lambda>row. m_key row = MKey (u ''ingest_key'')) rows")
      (auto simp: materialize_idempotency_meta_def with_asrt_def split: if_splits)
qed

lemma retry_found:
  assumes "reachable L"
    "append_assertion fresh claim args meta anno (Some i) asrt_id L = (L', Inr \<lparr>ar_asrt = a, ar_written = True\<rparr>)"
    "u ''ingest_key'' \<notin> set (l_lazy L)" "a \<notin> x_revoked (l_ix L)"
  shows "find_ingest_key L' (i_key i) = Inr (Some a)"
  using assms(2)
proof (rule written_assertion)
  fix c m n
  let ?a = "effective_id asrt_id (c_asrt claim) fresh"
  assume p: "prepare_assertion L claim args meta anno (Some i) ?a = Inr (Inr (c, m, n))"
    and w: "write_assertion L c m n = (L', Inr ())" "a = ?a" "reject_duplicate_meta_keys meta = Inr ()"
  from p have mat: "materialize_idempotency_meta (with_asrt a meta) (Some i) a = Inr m"
    and none: "find_ingest_key L (i_key i) = Inr None"
    by (auto simp: prepare_assertion_def err_simps w(2) check_idempotency_def Let_def split: option.splits if_splits)
  have "distinct (map m_key (with_asrt a meta))"
    using w(3) by (auto simp: reject_duplicate_meta_keys_def with_asrt_def comp_def split: if_splits)
  moreover have "\<forall>r \<in> set (with_asrt a meta). m_asrt r = a" by (auto simp: with_asrt_def)
  ultimately have key: "map m_asrt (filter (\<lambda>r. ingest_value r = Some (i_key i)) m) = [a]"
    using materialized_key [OF mat] by blast
  have ok: "ingest_ok (l_ix L)" "ingest_ok (l_ix L')"
  proof -
    have "reachable L'" using stepped [OF assms(1) step_append_assertion [of L fresh claim args meta anno "Some i" asrt_id]]
        assms(2) by simp
    then show "ingest_ok (l_ix L)" "ingest_ok (l_ix L')"
      using reachable_ix_ok assms(1) by (auto simp: ix_ok_def)
  qed
  have eager: "filter (\<lambda>r. ingest_value r = Some (i_key i)) (filter (\<lambda>r. \<not> is_lazy (l_lazy L) (m_key r)) m) =
      filter (\<lambda>r. ingest_value r = Some (i_key i)) m"
    using assms(3) by (auto simp: filter_filter ingest_value_def is_lazy_def intro!: filter_cong split: if_splits)
  obtain ix where meta': "x_meta ix = x_meta (l_ix L)"
    "idx_add_initial (l_lazy L) m n (next_direct_tx_seq (l_db L)) 0 ix = (l_ix L', Inr ())"
  proof -
    have "\<not> starts_with (c_pred c) SYSTEM_PREFIX"
    proof -
      from assms(2) have "validate_claim_input claim False = Inr ()" by (rule written_assertion)
      moreover have "c_pred c = c_pred claim" using prepared_args(2) [OF p] .
      ultimately show ?thesis by (auto simp: validate_claim_input_def err_simps split: if_splits)
    qed
    with w(1) show ?thesis by (elim write_assertion_Ok) (use add_claim_fields(8) in \<open>blast intro: that\<close>)
  qed
  have "dict_list (x_ingest (l_ix L')) (i_key i) = dict_list (x_ingest (l_ix L)) (i_key i) @ [a]"
    using ok key initial_meta_rows [OF meta'(2)] eager by (simp add: ingest_ok_def meta'(1))
  moreover from assms(2) have "scan_ingest L' (dict_list (x_ingest (l_ix L)) (i_key i) @ [a]) = Inr (Some a)"
    by (rule append_assertion_effect)
      (use none assms(4) in \<open>auto simp: find_ingest_key_def intro!: scan_ingest_last [of L]\<close>)
  ultimately show ?thesis by (simp add: find_ingest_key_def)
qed

lemma retry_lemma:
  assumes "reachable L"
    "append_assertion fresh claim args meta anno (Some i) asrt_id L = (L', Inr \<lparr>ar_asrt = a, ar_written = True\<rparr>)"
    "u ''ingest_key'' \<notin> set (l_lazy L)" "a \<notin> x_revoked (l_ix L)"
  shows "append_assertion fresh' claim args meta anno' (Some i) asrt_id' L' =
    (L', if i_conflict i = ErrorOnConflict then Inl DuplicateIngestKeyError
         else Inr \<lparr>ar_asrt = a, ar_written = False\<rparr>)"
  using assms(2)
proof (rule written_assertion)
  fix c m n
  assume p: "prepare_assertion L claim args meta anno (Some i) (effective_id asrt_id (c_asrt claim) fresh) = Inr (Inr (c, m, n))"
    and v: "validate_claim_input claim False = Inr ()" "validate_claim_args_rows args = Inr ()"
    "validate_meta_rows_for_append_assertion meta = Inr ()" "reject_duplicate_meta_keys meta = Inr ()"
  let ?b = "effective_id asrt_id' (c_asrt claim) fresh'"
  from p obtain m0 where "materialize_idempotency_meta
      (with_asrt (effective_id asrt_id (c_asrt claim) fresh) meta) (Some i) (effective_id asrt_id (c_asrt claim) fresh) = Inr m0"
    by (auto simp only: prepare_assertion_def bindE_Inr_iff)
  from materialize_any_id [OF this, of ?b]
  obtain m' where "materialize_idempotency_meta (with_asrt ?b meta) (Some i) ?b = Inr m'" by blast
  note m = this
  show ?thesis
  proof (cases "i_conflict i = ErrorOnConflict")
    case True
    with m have "prepare_assertion L' claim args meta anno' (Some i) ?b = Inl DuplicateIngestKeyError"
      using retry_found [OF assms] by (simp add: prepare_assertion_def check_idempotency_def)
    with True v show ?thesis by (simp only: append_assertion_def bindE_simps sum.case if_True simp_thms)
  next
    case False
    with m have "prepare_assertion L' claim args meta anno' (Some i) ?b = Inr (Inl a)"
      using retry_found [OF assms] by (simp add: prepare_assertion_def check_idempotency_def)
    with False v show ?thesis by (simp only: append_assertion_def bindE_simps sum.case if_False)
  qed
qed

section \<open>Revocations\<close>

lemma written_revocation:
  assumes "append_revocation fresh revokes meta idem revoker L = (L', Inr \<lparr>ar_asrt = a, ar_written = True\<rparr>)"
  obtains m n where "write_revocation L \<lparr>r_revoker = a, r_revoked = r_revoked revokes\<rparr> m n = (L', Inr ())"
    "a = effective_id revoker (r_revoker revokes) fresh"
proof -
  let ?a = "effective_id revoker (r_revoker revokes) fresh"
  from assms obtain p where v: "validate_revokes_row revokes = Inr ()" "validate_meta_rows meta = Inr ()"
    "reject_duplicate_meta_keys meta = Inr ()" "prepare_revocation L meta idem ?a = Inr p"
    by (auto simp: append_revocation_def Let_def err_simps split: sum.splits)
  with assms obtain m n where p: "p = Inr (m, n)"
    by (cases p) (auto simp: append_revocation_def Let_def)
  let ?w = "write_revocation L \<lparr>r_revoker = ?a, r_revoked = r_revoked revokes\<rparr> m n"
  from assms v p have "thenS ?w (\<lambda>L _. (L, Inr \<lparr>ar_asrt = ?a, ar_written = True\<rparr>)) =
      (L', Inr \<lparr>ar_asrt = a, ar_written = True\<rparr>)"
    by (simp only: append_revocation_def Let_def bindE_simps sum.case prod.case)
  then have "?w = (L', Inr ()) \<and> ?a = a" by (auto simp: thenS_Inr_iff)
  then show ?thesis by (intro that [of m n]) auto
qed

lemma revocation_effect:
  assumes "append_revocation fresh revokes meta idem revoker L = (L', Inr \<lparr>ar_asrt = a, ar_written = True\<rparr>)"
  obtains target where "dict_get (x_claim_by_id (l_ix L)) (r_revoked revokes) = Some target"
    "x_claim_by_id (l_ix L') = x_claim_by_id (l_ix L)" "x_claims (l_ix L') = x_claims (l_ix L)"
    "x_revoked (l_ix L') = insert (r_revoked revokes) (x_revoked (l_ix L))"
    "dict_get (x_system (l_ix L')) a =
       Some (revoke_claim \<lparr>r_revoker = a, r_revoked = r_revoked revokes\<rparr> (c_eref target))"
    "\<not> l_closed L" "\<not> l_closed L'"
  using assms
proof (rule written_revocation)
  fix m n
  let ?r = "\<lparr>r_revoker = a, r_revoked = r_revoked revokes\<rparr>" and ?tx = "next_direct_tx_seq (l_db L)"
  assume "write_revocation L ?r m n = (L', Inr ())"
  then show ?thesis
    unfolding write_revocation_def Let_def
  proof (rule write_session_Ok)
    fix db hook
    assume "(case dict_get (x_claim_by_id (l_ix L)) (r_revoked ?r) of None \<Rightarrow> Inl ValueError
        | Some target \<Rightarrow> bindE (insert_claim (revoke_claim ?r (c_eref target)) (r_revoker ?r) ?tx (l_db L)) (\<lambda>db.
            bindE (insert_initial (r_revoker ?r) m n ?tx 0 db) (\<lambda>db.
            Inr (db, apply_revocation_indexes (l_lazy L) (revoke_claim ?r (c_eref target)) ?r m n ?tx)))) = Inr (db, hook)"
      and h: "hook (l_ix L) = (l_ix L', Inr ())" and c: "\<not> l_closed L" "l_closed L' = l_closed L"
    then obtain target where t: "dict_get (x_claim_by_id (l_ix L)) (r_revoked revokes) = Some target"
      and hook: "hook = apply_revocation_indexes (l_lazy L) (revoke_claim ?r (c_eref target)) ?r m n ?tx"
      by (auto simp: err_simps split: option.splits)
    from h obtain ix where ix: "apply_revoke_claim (revoke_claim ?r (c_eref target)) ?r ?tx 0 (l_ix L) = (ix, Inr ())"
      and rest: "l_ix L' = (let i = idx_add_claim_meta_events (l_lazy L) (map (MRow False) m) ?tx 0 True ix
        in if n = [] then i else idx_add_annotation (l_lazy L) n i)"
      by (auto simp: hook apply_revocation_indexes_def thenS_Inr_iff Let_def)
    have side: "same_claim_side ix (l_ix L')"
      unfolding rest Let_def
      by (auto intro: same_claim_side_trans add_events_fields(3) conjunct2 [OF conjunct2 [OF add_annotation_fields]])
    from ix have "ix = idx_add_revoke ?r (set_op_ordinal a 0 (set_tx_ref a (Some ?tx) ((l_ix L)
        \<lparr>x_system := dict_set a (revoke_claim ?r (c_eref target)) (x_system (l_ix L))\<rparr>)))"
      by (auto simp: apply_revoke_claim_def idx_add_system_revocation_claim_def thenS_Inr_iff revoke_claim_def
          split: if_splits)
    with side c t show ?thesis
      by (intro that) (auto simp: same_claim_side_def idx_add_revoke_def set_op_ordinal_def set_tx_ref_def)
  qed
qed

section \<open>Progress\<close>

lemma atom_shape:
  assumes "val_atom_for_claim_arg t v = Inr a"
  shows "t \<in> {u ''entity_ref'', u ''string'', u ''uuid'', u ''bytes'', u ''float64''} \<and> (\<exists>s. a = PStr s) \<or>
    t \<in> {u ''int'', u ''time''} \<and> (\<exists>i. a = PInt i) \<or> t = u ''bool'' \<and> (\<exists>b. a = PBool b)"
  using assms
  by (auto simp: val_atom_for_claim_arg_def err_simps split: if_split_asm pyval.split_asm)

lemma columns_exist:
  assumes "claim_args_from_rest_terms (c_terms c) = Inr rows"
  shows "\<exists>cols. claim_columns c = Inr cols"
proof -
  have n: "mapE normalize_term (c_terms c) = Inr (c_terms c)" by (rule claim_args_normalizes [OF assms])
  show ?thesis
  proof (cases "length (c_terms c) \<le> 1")
    case True
    have "\<exists>p. encode_claim_value (c_terms c) = Inr p"
    proof (cases "c_terms c")
      case Nil
      then show ?thesis by (simp add: encode_claim_value_def)
    next
      case (Cons t ts)
      with True have t: "c_terms c = [t]" by simp
      with assms obtain a g where r: "claim_arg_item t = Inr (a, g)" "rows = [(0, a, g)]"
        by (auto simp: claim_args_single)
      from claim_arg_item_Ok [OF r(1)] obtain v where "val_atom_for_claim_arg g v = Inr a" by blast
      from atom_shape [OF this] show ?thesis
        using t assms r by (auto simp: encode_claim_value_def)
    qed
    with n True show ?thesis by (auto simp: claim_columns_def enc_rest_terms_def)
  next
    case False
    from assms obtain ats where "mapE claim_arg_item (c_terms c) = Inr ats" by (auto simp: claim_args_eq err_simps)
    from enc_dec_terms [OF this] n False show ?thesis by (auto simp: claim_columns_def)
  qed
qed

definition plain_claim :: "claim \<Rightarrow> bool" where
  "plain_claim c \<longleftrightarrow> c_pred c \<noteq> [] \<and> c_eref c \<noteq> [] \<and> \<not> starts_with (c_pred c) SYSTEM_PREFIX"

lemma args_equal: "list_all2 claim_arg_eq rows rows \<longleftrightarrow> (\<forall>r \<in> set rows. py_eq (g_atom r) (g_atom r))"
  by (induction rows) (auto simp: claim_arg_eq_def)

lemma append_succeeds_lemma:
  assumes "plain_claim claim" "c_asrt claim \<noteq> []"
    "expected_claim_args (c_asrt claim) (c_terms claim) = Inr args"
    "c_asrt claim \<notin> cr_asrt ` set (d_claims (l_db L))"
    "int (next_direct_tx_seq (l_db L)) < SQL_INT_LIMIT" "\<not> l_closed L"
  shows "\<exists>L'. append_assertion fresh claim args [] [] None None L =
    (L', Inr \<lparr>ar_asrt = c_asrt claim, ar_written = True\<rparr>)"
proof -
  let ?a = "c_asrt claim" and ?tx = "next_direct_tx_seq (l_db L)"
  from assms(3) obtain rows where rows: "claim_args_from_rest_terms (c_terms claim) = Inr rows"
    and args: "args = map (\<lambda>(idx, value, tag). \<lparr>g_asrt = ?a, g_idx = idx, g_atom = value, g_tag = tag\<rparr>) rows"
    by (auto simp: expected_claim_args_def err_simps)
  have shape: "\<exists>it. claim_arg_item it = Inr (a, g)" if "(i, a, g) \<in> set rows" for i a g
  proof -
    from rows obtain ats where "mapE claim_arg_item (c_terms claim) = Inr ats" "rows = enumerate 0 ats"
      by (auto simp: claim_args_eq err_simps)
    with that have "(a, g) \<in> set ats" by (metis imageI list.set_map map_snd_enumerate snd_conv)
    with \<open>mapE _ _ = _\<close> show ?thesis
      by (force simp: mapE_Inr_iff list_all2_conv_all_nth in_set_conv_nth)
  qed
  have item: "py_eq a a \<and> g \<noteq> []" if "(i, a, g) \<in> set rows" for i a g
  proof -
    from shape [OF that] claim_arg_item_Ok obtain v where "val_atom_for_claim_arg g v = Inr a" by blast
    from atom_shape [OF this] show ?thesis by (auto intro: py_eq_refl)
  qed
  have tags: "validate_claim_args_rows args = Inr ()"
    using item by (force simp: validate_claim_args_rows_def args list_all_iff)
  have self: "arg_with_asrt ?a args = args"
    by (auto simp: arg_with_asrt_def args comp_def intro!: map_cong)
  have eq: "list_all2 claim_arg_eq args args"
    unfolding args_equal using item by (force simp: args)
  have n: "mapE normalize_term (c_terms claim) = Inr (c_terms claim)" by (rule claim_args_normalizes [OF rows])
  have p: "prepare_assertion L claim args [] [] None ?a = Inr (Inr (claim, [], []))"
    using n assms(3) eq
    by (simp add: prepare_assertion_def materialize_idempotency_meta_def with_asrt_def check_idempotency_def
        self initial_meta_annotation_rows_def merge_annotation_rows_def anno_with_asrt_def validate_annotation_rows_def
        List.map_filter_simps)
  have v: "validate_claim_input claim False = Inr ()"
    using assms(1) by (simp add: validate_claim_input_def validate_claim_identity_def plain_claim_def)
  obtain cols where cols: "claim_columns claim = Inr cols" using columns_exist [OF rows] by blast
  obtain db where db: "insert_claim claim ?a ?tx (l_db L) = Inr db"
    using cols assms by (cases cols) (auto simp: insert_claim_def validate_claim_identity_def plain_claim_def)
  have h: "snd (apply_assertion_indexes (l_lazy L) claim [] [] ?tx 0 (l_ix L)) = Inr ()"
    unfolding apply_assertion_indexes_def
    using assms(1) rows by (intro thenS_calm [OF calm_claim]) (auto simp: plain_claim_def idx_add_initial_def)
  have "insert_initial ?a [] [] ?tx 0 db = Inr db"
    by (simp add: insert_initial_def insert_meta_rows_def)
  with db h assms(6) have "\<exists>L'. write_assertion L claim [] [] = (L', Inr ())"
    by (auto simp: write_assertion_def Let_def write_session_def ensure_open_def split: prod.splits)
  then obtain L' where "write_assertion L claim [] [] = (L', Inr ())" ..
  moreover have "effective_id None ?a fresh = ?a" using assms(2) by (simp add: effective_id_def)
  ultimately show ?thesis
    using v tags p by (simp add: append_assertion_def validate_meta_rows_for_append_assertion_def
        reject_duplicate_meta_keys_def)
qed

end
