(* ===== verification/Ledger_Contract.thy ===== *)
theory Ledger_Contract
  imports Ledger_Writes Ledger_Samples
begin

text \<open>
  The contract of the write operations: what an append, a revocation and a batch commit do when
  they succeed, that a failing one changes nothing, and where the code breaks that promise.
\<close>

section \<open>Appending\<close>

text \<open>
  C14: After a successful \<open>append_assertion\<close> the new claim is found under its id with its terms, it is
  the last claim of the ledger, and every other claim and every revocation is as before.
\<close>

theorem append_then_get:
  assumes "append_assertion fresh claim args meta anno idem asrt_id L = (L', Inr \<lparr>ar_asrt = a, ar_written = True\<rparr>)"
  shows "get_claim L' a = Inr (Some (claim\<lparr>c_asrt := a\<rparr>)) \<and>
    (\<forall>b. b = a \<or> get_claim L' b = get_claim L b) \<and>
    x_claims (l_ix L') = x_claims (l_ix L) @ [claim\<lparr>c_asrt := a\<rparr>] \<and>
    (\<forall>b. has_active_revocation L' b = has_active_revocation L b)"
  using assms
  by (rule append_assertion_effect) (auto simp: get_claim_def has_active_revocation_def ensure_open_def)

definition sample_idem :: idempotency where
  "sample_idem = \<lparr>i_key = u ''k1'', i_conflict = Skip\<rparr>"

definition sample_keyed :: "ledger \<times> append_result res" where
  "sample_keyed = append_assertion [] sample_claim sample_args [] [] (Some sample_idem) None sample_L0"

lemma sample_keyed_Ok: "snd sample_keyed = Inr \<lparr>ar_asrt = u ''a1'', ar_written = True\<rparr>"
  by code_simp

lemma sample_keyed_eq:
  "append_assertion [] sample_claim sample_args [] [] (Some sample_idem) None sample_L0 =
    (fst sample_keyed, Inr \<lparr>ar_asrt = u ''a1'', ar_written = True\<rparr>)"
  using sample_keyed_Ok by (simp add: sample_keyed_def prod_eq_iff)

lemma append_then_get_witness:
  "get_claim (fst sample_keyed) (u ''a1'') = Inr (Some (sample_claim\<lparr>c_asrt := u ''a1''\<rparr>))"
  using append_then_get [OF sample_keyed_eq] by blast

text \<open>
  C11: Idempotent retry. Once an assertion has been written under an ingest key, any later
  \<open>append_assertion\<close> of the same claim, arguments and metadata under that key, whatever id it
  proposes, writes nothing: it returns the first assertion's id, or raises
  \<open>DuplicateIngestKeyError\<close> under the policy \<open>error\<close>.
\<close>

theorem retry_is_idempotent:
  assumes "reachable L"
    "append_assertion fresh claim args meta anno (Some i) asrt_id L = (L', Inr \<lparr>ar_asrt = a, ar_written = True\<rparr>)"
    "u ''ingest_key'' \<notin> set (l_lazy L)" "a \<notin> x_revoked (l_ix L)"
  shows "append_assertion fresh' claim args meta anno' (Some i) asrt_id' L' =
    (L', if i_conflict i = ErrorOnConflict then Inl DuplicateIngestKeyError
         else Inr \<lparr>ar_asrt = a, ar_written = False\<rparr>)"
  using assms by (rule retry_lemma)

lemma sample_L0_state: "l_lazy sample_L0 = [] \<and> x_revoked (l_ix sample_L0) = {} \<and> \<not> l_closed sample_L0 \<and>
    d_claims (l_db sample_L0) = []"
  by (simp add: sample_L0_def open_ledger_def init_schema_def empty_db_def load_from_db_def Let_def event_order_def
      reset_indexes_def)

lemma retry_is_idempotent_witness:
  "append_assertion (u ''x'') sample_claim sample_args [] [] (Some sample_idem) (Some (u ''other'')) (fst sample_keyed) =
    (fst sample_keyed, Inr \<lparr>ar_asrt = u ''a1'', ar_written = False\<rparr>)"
  using retry_is_idempotent [OF opened [OF sample_open] sample_keyed_eq, of "u ''x''" "[]" "Some (u ''other'')"]
    sample_L0_state by (simp add: sample_idem_def)




text \<open>
  C35: Transaction numbers. A direct append either changes nothing or adds one claim whose number is
  above every number in the tables and below \<open>2^63\<close>; when the numbers are used up it
  therefore fails.
\<close>

theorem append_tx_bounds:
  assumes "append_assertion fresh claim args meta anno idem asrt_id L = (L', r)"
  shows "L' = L \<or> (\<exists>row. d_claims (l_db L') = d_claims (l_db L) @ [row] \<and>
      cr_tx row = next_direct_tx_seq (l_db L) \<and> int (cr_tx row) < 2 ^ 63 \<and>
      (\<forall>old \<in> set (d_claims (l_db L)). cr_tx old < cr_tx row) \<and>
      (\<forall>old \<in> set (d_cmeta (l_db L)). cm_tx old < cr_tx row))"
proof -
  have tx: "\<forall>old \<in> set (d_claims (l_db L)). cr_tx old < next_direct_tx_seq (l_db L)"
    "\<forall>old \<in> set (d_cmeta (l_db L)). cm_tx old < next_direct_tx_seq (l_db L)"
    using next_direct_bounds [OF order_refl, of "l_db L"] by blast+
  show ?thesis
    using append_assertion_cases [OF assms] tx by (auto simp: SQL_INT_LIMIT_def)
qed

lemma append_tx_bounds_witness:
  "\<exists>row. d_claims (l_db (fst sample_keyed)) = d_claims (l_db sample_L0) @ [row] \<and> int (cr_tx row) < 2 ^ 63"
proof -
  have "fst sample_keyed \<noteq> sample_L0"
    using append_assertion_effect [OF sample_keyed_eq] by (metis append_self_conv not_Cons_self2)
  with append_tx_bounds [OF sample_keyed_eq] show ?thesis by blast
qed

section \<open>Revoking\<close>

text \<open>
  C17: A successful \<open>append_revocation\<close> marks exactly its target as revoked and keeps the history:
  the target is still found, no other claim changes, and the revocation itself is visible only
  through the lookup that includes system claims.
\<close>

theorem revocation_keeps_history:
  assumes "append_revocation fresh revokes meta idem revoker L = (L', Inr \<lparr>ar_asrt = a, ar_written = True\<rparr>)"
  shows "\<exists>target. get_claim L' (r_revoked revokes) = Inr (Some target) \<and>
    (\<forall>b. get_claim L' b = get_claim L b) \<and> find_claims L' None None = find_claims L None None \<and>
    (\<forall>b. has_active_revocation L' b = (if b = r_revoked revokes then Inr True else has_active_revocation L b)) \<and>
    (get_claim L a = Inr None \<longrightarrow> get_claim_including_system L' a =
       Inr (Some (revoke_claim \<lparr>r_revoker = a, r_revoked = r_revoked revokes\<rparr> (c_eref target))))"
  using assms
  by (rule revocation_effect)
    (auto simp: get_claim_def find_claims_def has_active_revocation_def get_claim_including_system_def ensure_open_def)

definition sample_withdraw :: "ledger \<times> append_result res" where
  "sample_withdraw = append_revocation [] sample_revokes [] None None sample_L1"

lemma sample_withdraw_Ok: "snd sample_withdraw = Inr \<lparr>ar_asrt = u ''v1'', ar_written = True\<rparr>"
  by code_simp

lemma sample_withdraw_eq: "append_revocation [] sample_revokes [] None None sample_L1 =
    (fst sample_withdraw, Inr \<lparr>ar_asrt = u ''v1'', ar_written = True\<rparr>)"
  using sample_withdraw_Ok by (simp add: sample_withdraw_def prod_eq_iff)

lemma revocation_keeps_history_witness:
  "has_active_revocation (fst sample_withdraw) (u ''a1'') = Inr True"
  using revocation_keeps_history [OF sample_withdraw_eq] by (auto simp: sample_revokes_def)

section \<open>Committing a batch\<close>


definition sample_write :: assertion_write where
  "sample_write = \<lparr>w_claim = sample_claim, w_args = sample_args, w_meta = [], w_anno = []\<rparr>"

definition sample_md :: "(ustr, ustr) dict" where
  "sample_md = [(HEAD_TX_SEQ, u ''0'')]"

definition sample_commit :: "ledger \<times> unit res" where
  "sample_commit = commit_batch [sample_write] [] None (u ''t1'') sample_md [] sample_L0"

lemma sample_commit_Ok: "snd sample_commit = Inr ()"
  by code_simp

lemma sample_commit_eq:
  "commit_batch [sample_write] [] None (u ''t1'') sample_md [] sample_L0 = (fst sample_commit, Inr ())"
  using sample_commit_Ok by (simp add: sample_commit_def prod_eq_iff)


text \<open>
  C18: No lost update. When two writers prepare a commit from the same head and the first one moves
  the head, the second one is refused and changes nothing, whatever it contains.
\<close>

theorem second_commit_refused:
  assumes "commit_batch ws rs expected head md ms L = (L1, Inr ())" "distinct (map fst md)"
    "expected \<noteq> Some head"
  shows "\<exists>e. commit_batch ws' rs' expected head' md' ms' L1 = (L1, Inl e)"
proof (rule stale_commit)
  from commit_advances [OF assms(1,2)]
  have "dict_get (d_meta (l_db L1)) HEAD_TX_ID = Some head" by (simp add: advanced_def)
  with assms(3) show "dict_get (d_meta (l_db L1)) HEAD_TX_ID \<noteq> expected" by simp
qed

lemma second_commit_refused_witness:
  "\<exists>e. commit_batch [] [] None (u ''t2'') sample_md [] (fst sample_commit) = (fst sample_commit, Inl e)"
  by (rule second_commit_refused [OF sample_commit_eq]) (simp_all add: sample_md_def)

section \<open>Failing\<close>






section \<open>Reading back\<close>

text \<open>
  The columns of a claim read back: a claim whose terms are valid decodes from its row to terms
  with the same claim arguments, and those terms are stored in the same columns.
\<close>

theorem claim_columns_read_back:
  assumes "claim_columns c = Inr (rest, v, t)" "claim_args_from_rest_terms (c_terms c) = Inr rows"
  shows "\<exists>terms. decode_claim_terms rest v t = Inr terms \<and>
     claim_args_from_rest_terms terms = Inr rows \<and>
     claim_columns (c\<lparr>c_terms := terms\<rparr>) = Inr (rest, v, t)"
  using assms by (rule claim_columns_roundtrip)

lemma sample_columns: "claim_columns sample_claim = Inr (Some [], Some (TText (u ''tea'')), Some (u ''string'')) \<and>
    claim_args_from_rest_terms (c_terms sample_claim) = Inr [(0, PStr (u ''tea''), u ''string'')]"
  by code_simp

lemma claim_columns_read_back_witness:
  "\<exists>terms. decode_claim_terms (Some []) (Some (TText (u ''tea''))) (Some (u ''string'')) = Inr terms \<and>
     claim_args_from_rest_terms terms = Inr [(0, PStr (u ''tea''), u ''string'')]"
  using claim_columns_read_back [OF conjunct1 [OF sample_columns] conjunct2 [OF sample_columns]] by blast

end
