(* ===== verification/Py_Dict.thy ===== *)
theory Py_Dict
  imports Py_Value "HOL-Library.Product_Lexorder"
begin

text \<open>
  Python values as dictionary keys, JSON-like objects, truthiness and \<open>str()\<close>.  A key is
  found by \<open>==\<close>: equal keys (\<open>1\<close> and \<open>True\<close>) share an entry, which keeps the key
  it was created with.
\<close>

section \<open>Objects\<close>

definition dict_field_or :: "(pyval \<times> pyval) list \<Rightarrow> string \<Rightarrow> pyval \<Rightarrow> pyval" where
  "dict_field_or d k v = (case map_of d (PStr (u k)) of None \<Rightarrow> v | Some w \<Rightarrow> w)"

definition dict_field :: "(pyval \<times> pyval) list \<Rightarrow> string \<Rightarrow> pyval" where
  "dict_field d k = dict_field_or d k PNone"

definition has_field :: "(pyval \<times> pyval) list \<Rightarrow> string \<Rightarrow> bool" where
  "has_field d k \<longleftrightarrow> map_of d (PStr (u k)) \<noteq> None"

definition as_dict :: "py_exc \<Rightarrow> pyval \<Rightarrow> (pyval \<times> pyval) list res" where
  "as_dict e v = (case v of PDict d \<Rightarrow> Ok d | _ \<Rightarrow> Err e)"

definition as_list :: "py_exc \<Rightarrow> pyval \<Rightarrow> pyval list res" where
  "as_list e v = (case v of PList vs \<Rightarrow> Ok vs | _ \<Rightarrow> Err e)"

definition as_str :: "py_exc \<Rightarrow> pyval \<Rightarrow> ustr res" where
  "as_str e v = (case v of PStr s \<Rightarrow> Ok s | _ \<Rightarrow> Err e)"

definition as_name :: "py_exc \<Rightarrow> pyval \<Rightarrow> ustr res" where
  "as_name e v = (case v of PStr s \<Rightarrow> if s = [] then Err e else Ok s | _ \<Rightarrow> Err e)"

definition py_truth :: "pyval \<Rightarrow> bool" where
  "py_truth v = (case v of
      PNone \<Rightarrow> False | PBool b \<Rightarrow> b | PInt i \<Rightarrow> i \<noteq> 0 | PFloat w \<Rightarrow> \<not> py_num_eq v (PInt 0)
    | PStr s \<Rightarrow> s \<noteq> [] | PBytes _ b \<Rightarrow> b \<noteq> [] | PList vs \<Rightarrow> vs \<noteq> [] | PTuple vs \<Rightarrow> vs \<noteq> [] | PDict d \<Rightarrow> d \<noteq> [])"

text \<open>\<open>str(v)\<close>, for the values facts are made of.\<close>

definition py_str :: "pyval \<Rightarrow> ustr res" where
  "py_str v = (case v of
      PStr s \<Rightarrow> Ok s
    | PInt i \<Rightarrow> Ok (dec_int i)
    | PBool b \<Rightarrow> Ok (if b then u ''True'' else u ''False'')
    | PNone \<Rightarrow> Ok (u ''None'')
    | _ \<Rightarrow> Err NotModelled)"

text \<open>Indexes that must be integers below a bound, strictly ascending.\<close>

fun ascending_from :: "py_exc \<Rightarrow> nat \<Rightarrow> int \<Rightarrow> pyval list \<Rightarrow> nat list res" where
  "ascending_from e n prev [] = Ok []"
| "ascending_from e n prev (PInt i # vs) =
     (if i < 0 \<or> int n \<le> i then Err e else if i \<le> prev then Err e
      else bindE (ascending_from e n i vs) (\<lambda>is. Ok (nat i # is)))"
| "ascending_from e n prev (_ # vs) = Err e"

lemma ascending_from_Ok:
  "ascending_from e n l vs = Inr is \<Longrightarrow> sorted_wrt (<) is \<and> (\<forall>i \<in> set is. i < n \<and> l < int i) \<and> map (\<lambda>i. PInt (int i)) is = vs"
proof (induction e n l vs arbitrary: "is" rule: ascending_from.induct)
  case (2 e n prev i vs)
  then show ?case by (fastforce simp: err_simps split: if_splits)
qed simp_all

section \<open>Keys\<close>

definition py_key :: "pyval \<Rightarrow> bool" where
  "py_key v \<longleftrightarrow> hashable v \<and> nan_free v"

lemma py_key_simps [simp]:
  "py_key (PStr s)" "py_key (PInt i)" "py_key (PBool b)" "py_key PNone"
  "py_key (PTuple vs) \<longleftrightarrow> (\<forall>v \<in> set vs. py_key v)"
  by (auto simp: py_key_def list_all_iff)

lemma py_num_eq_sym: "py_num_eq v w \<Longrightarrow> py_num_eq w v"
  by (auto simp: py_num_eq_def number_eq_sym split: option.splits)

lemma py_num_eq_trans: "py_num_eq v w \<Longrightarrow> py_num_eq w x \<Longrightarrow> py_num_eq v x"
  by (auto simp: py_num_eq_def intro: number_eq_trans split: option.splits)

lemma py_num_eq_number: "py_num_eq v w \<Longrightarrow> py_is_number v \<and> py_is_number w"
  by (cases v; cases w) (auto simp: py_num_eq_def py_number_def py_is_number_def split: if_split_asm)

lemma py_eq_numbers: "py_is_number v \<Longrightarrow> py_eq v w = py_num_eq v w"
  by (cases v) (auto simp: py_is_number_def)

lemma py_eq_num_other: "py_is_number w \<Longrightarrow> py_eq v w \<Longrightarrow> py_is_number v"
  by (cases v; cases w) (auto simp: py_is_number_def)

lemma py_key_refl [simp]: "py_key v \<Longrightarrow> py_eq v v"
  by (simp add: py_key_def py_eq_refl)

lemma py_key_sym: "py_key v \<Longrightarrow> py_eq v w \<Longrightarrow> py_eq w v"
proof (induction v arbitrary: w)
  case (PTuple vs)
  then obtain ws where w: "w = PTuple ws" "list_all2 py_eq vs ws" by (auto split: pyval.splits)
  have "list_all2 py_eq ws vs"
    using w(2) PTuple by (auto simp: list_all2_conv_all_nth)
  then show ?case by (simp add: w)
next
  case (PBool b)
  then have "py_num_eq w (PBool b)" by (auto intro: py_num_eq_sym)
  then show ?case using py_num_eq_number py_eq_numbers by blast
next
  case (PInt b)
  then have "py_num_eq w (PInt b)" by (auto intro: py_num_eq_sym)
  then show ?case using py_num_eq_number py_eq_numbers by blast
next
  case (PFloat b)
  then have "py_num_eq w (PFloat b)" by (auto intro: py_num_eq_sym)
  then show ?case using py_num_eq_number py_eq_numbers by blast
qed (auto simp: py_key_def split: pyval.splits)

lemma py_key_trans: "py_key v \<Longrightarrow> py_eq v w \<Longrightarrow> py_eq w x \<Longrightarrow> py_eq v x"
proof (induction v arbitrary: w x)
  case (PTuple vs)
  then obtain ws xs where e: "w = PTuple ws" "x = PTuple xs" "list_all2 py_eq vs ws" "list_all2 py_eq ws xs"
    by (auto split: pyval.splits)
  have "list_all2 py_eq vs xs"
    using e(3,4) PTuple by (auto simp: list_all2_conv_all_nth)
  then show ?case by (simp add: e)
next
  case (PBool b)
  then have "py_num_eq (PBool b) w" "py_num_eq w x" using py_num_eq_number py_eq_numbers by force+
  then show ?case by (auto intro: py_num_eq_trans)
next
  case (PInt b)
  then have "py_num_eq (PInt b) w" "py_num_eq w x" using py_num_eq_number py_eq_numbers by force+
  then show ?case by (auto intro: py_num_eq_trans)
next
  case (PFloat b)
  then have "py_num_eq (PFloat b) w" "py_num_eq w x" using py_num_eq_number py_eq_numbers by force+
  then show ?case by (auto intro: py_num_eq_trans)
qed (auto simp: py_key_def split: pyval.splits)

section \<open>Dictionaries keyed by values\<close>

type_synonym 'v vdict = "(pyval \<times> 'v) list"

fun vdict_get :: "'v vdict \<Rightarrow> pyval \<Rightarrow> 'v option" where
  "vdict_get [] k = None"
| "vdict_get ((k', v) # d) k = (if py_eq k' k then Some v else vdict_get d k)"

fun vdict_set :: "pyval \<Rightarrow> 'v \<Rightarrow> 'v vdict \<Rightarrow> 'v vdict" where
  "vdict_set k v [] = [(k, v)]"
| "vdict_set k v ((k', w) # d) = (if py_eq k' k then (k', v) # d else (k', w) # vdict_set k v d)"

definition vdict_append :: "pyval \<Rightarrow> 'v \<Rightarrow> 'v list vdict \<Rightarrow> 'v list vdict" where
  "vdict_append k x d = vdict_set k ((case vdict_get d k of None \<Rightarrow> [] | Some xs \<Rightarrow> xs) @ [x]) d"

text \<open>The distinct values of a list, as \<open>set(...)\<close> keeps them, in order of first occurrence.\<close>

fun py_distinct :: "pyval list \<Rightarrow> pyval list" where
  "py_distinct [] = []"
| "py_distinct (v # vs) = v # filter (\<lambda>w. \<not> py_eq v w) (py_distinct vs)"

lemma vdict_get_set:
  assumes "py_key k" "\<forall>x \<in> fst ` set d. py_key x"
  shows "vdict_get (vdict_set k v d) k' = (if py_eq k k' then Some v else vdict_get d k')"
  using assms(2)
proof (induction d)
  case (Cons p d)
  obtain x w where p: "p = (x, w)" by (cases p)
  have x: "py_key x" using Cons.prems by (simp add: p)
  show ?case
  proof (cases "py_eq x k")
    case True
    have "py_eq x k' \<longleftrightarrow> py_eq k k'"
      using True x assms(1) py_key_sym py_key_trans by blast
    then show ?thesis using True by (simp add: p)
  next
    case False
    then have "py_eq k k' \<Longrightarrow> \<not> py_eq x k'" using x assms(1) py_key_sym py_key_trans by blast
    with False Cons show ?thesis by (auto simp: p)
  qed
qed simp

lemma vdict_set_keys: "fst ` set (vdict_set k v d) \<subseteq> insert k (fst ` set d)"
  by (induction k v d rule: vdict_set.induct) auto

definition vgroup :: "(pyval \<times> 'v) list \<Rightarrow> 'v list vdict" where
  "vgroup xs = foldl (\<lambda>d (k, x). vdict_append k x d) [] xs"

lemma vgroup_Nil [simp]: "vgroup [] = []"
  by (simp add: vgroup_def)

lemma vgroup_snoc [simp]: "vgroup (xs @ [(k, x)]) = vdict_append k x (vgroup xs)"
  by (simp add: vgroup_def)

lemma vgroup_keys: "fst ` set (vgroup xs) \<subseteq> fst ` set xs"
proof (induction xs rule: rev_induct)
  case (snoc p xs)
  obtain k x where p: "p = (k, x)" by (cases p)
  have "fst ` set (vgroup (xs @ [p])) \<subseteq> insert k (fst ` set (vgroup xs))"
    by (simp only: p vgroup_snoc vdict_append_def vdict_set_keys)
  also have "\<dots> \<subseteq> insert k (fst ` set xs)" using snoc by blast
  finally show ?case by (simp add: p)
qed simp

lemma vgroup_get:
  assumes "\<forall>p \<in> set xs. py_key (fst p)"
  shows "vdict_get (vgroup xs) k =
    (let ys = map snd (filter (\<lambda>p. py_eq (fst p) k) xs) in if ys = [] then None else Some ys)"
  using assms
proof (induction xs arbitrary: k rule: rev_induct)
  case (snoc p xs)
  obtain k' x where p: "p = (k', x)" by (cases p)
  have "\<forall>x \<in> fst ` set xs. py_key x" using snoc.prems by auto
  then have "\<forall>x \<in> fst ` set (vgroup xs). py_key x" using vgroup_keys [of xs] by blast
  moreover have "py_key k'" using snoc.prems by (simp add: p)
  ultimately have keys: "py_key k'" "\<forall>x \<in> fst ` set (vgroup xs). py_key x" by simp_all
  have same: "filter (\<lambda>p. py_eq (fst p) k') xs = filter (\<lambda>p. py_eq (fst p) k) xs" if "py_eq k' k"
  proof (rule filter_cong [OF refl])
    fix q assume "q \<in> set xs"
    then have "py_key (fst q)" using snoc.prems by simp
    then show "py_eq (fst q) k' = py_eq (fst q) k"
      using that keys(1) py_key_sym py_key_trans by blast
  qed
  show ?case
    using snoc same by (auto simp: p vdict_append_def vdict_get_set [OF keys] Let_def)
qed simp

end
