(* ===== verification/Policy.thy ===== *)
theory Policy
  imports Py_Dict Ledger_Props Ledger_Writes
begin

text \<open>
  Which claims count, from \<^verbatim>\<open>core/policy/active.py\<close> and \<^verbatim>\<open>core/policy/chosen.py\<close>: a claim is
  active unless it is revoked, and of the active claims of a group the one with the highest
  durable sequence number is chosen.
\<close>

section \<open>The code\<close>

definition is_active :: "ledger \<Rightarrow> ustr \<Rightarrow> bool res" where
  "is_active L asrt_id =
     (if asrt_id = [] then Err ValueError
      else bindE (has_active_revocation L asrt_id) (\<lambda>revoked. Ok (\<not> revoked)))"

definition active_claims :: "ledger \<Rightarrow> ustr \<Rightarrow> claim list res" where
  "active_claims L pred_id =
     bindE (find_claims L (Some pred_id) None) (\<lambda>claims.
     bindE (mapE (\<lambda>c. bindE (is_active L (c_asrt c)) (\<lambda>a. Ok (c, a))) claims) (\<lambda>flags.
       Ok (map fst (filter snd flags))))"

text \<open>\<open>max(xs, key=f)\<close> returns the first of the greatest elements.\<close>

fun max_first :: "('a \<Rightarrow> 'k::linorder) \<Rightarrow> 'a \<Rightarrow> 'a list \<Rightarrow> 'a" where
  "max_first f x [] = x"
| "max_first f x (y # ys) = max_first f (if f x < f y then y else x) ys"

text \<open>\<open>sequence\<close> is \<open>ledger.claim_sequence\<close>.\<close>

definition choose_one :: "(ustr \<Rightarrow> nat option res) \<Rightarrow> ustr list \<Rightarrow> ustr res" where
  "choose_one sequence asrt_ids =
     (case asrt_ids of [] \<Rightarrow> Err PolicyNonDeterminismError | _ \<Rightarrow>
       bindE (mapE (\<lambda>a. bindE (sequence a) (\<lambda>s. case s of
                None \<Rightarrow> Err PolicyNonDeterminismError | Some n \<Rightarrow> Ok (a, n))) asrt_ids) (\<lambda>candidates.
         case candidates of [] \<Rightarrow> Err ValueError | c # cs \<Rightarrow> Ok (fst (max_first snd c cs))))"

definition val_atoms_for_claim :: "ledger option \<Rightarrow> claim \<Rightarrow> pyval list res" where
  "val_atoms_for_claim ledger claim =
     bindE (case ledger of None \<Rightarrow> Ok [] | Some L \<Rightarrow> find_claim_args L (Some (c_asrt claim)) None None) (\<lambda>rows.
       if rows \<noteq> [] then
         (let sorted_rows = sort_key g_idx rows
          in if length sorted_rows \<noteq> length (c_terms claim) then Err PolicyNonDeterminismError
             else if map g_idx sorted_rows \<noteq> [0..<length sorted_rows] then Err PolicyNonDeterminismError
             else Ok (map g_atom sorted_rows))
       else bindE (claim_args_from_rest_terms (c_terms claim)) (\<lambda>fallback_rows.
         Ok (map (\<lambda>(_, val_atom, _). val_atom) fallback_rows)))"

definition args_for_claim :: "claim \<Rightarrow> ledger option \<Rightarrow> pyval list res" where
  "args_for_claim claim ledger =
     bindE (val_atoms_for_claim ledger claim) (\<lambda>val_atoms. Ok (PStr (c_eref claim) # val_atoms))"

definition read_group_key_indexes :: "(pyval \<times> pyval) list \<Rightarrow> nat \<Rightarrow> nat list res" where
  "read_group_key_indexes schema_pred arg_count =
     bindE (as_list PolicyNonDeterminismError (dict_field schema_pred ''group_key_indexes'')) (\<lambda>indexes.
       ascending_from PolicyNonDeterminismError arg_count (- 1) indexes)"

definition group_key_for_claim :: "(pyval \<times> pyval) list \<Rightarrow> claim \<Rightarrow> ledger option \<Rightarrow> pyval list res" where
  "group_key_for_claim schema_pred claim ledger =
     bindE (args_for_claim claim ledger) (\<lambda>args.
     bindE (read_group_key_indexes schema_pred (length args)) (\<lambda>group_key_indexes.
       Ok (PStr (c_pred claim) # PStr (c_eref claim) #
             map (\<lambda>idx. args ! idx) (filter (\<lambda>idx. idx \<noteq> 0) group_key_indexes))))"

definition choose_groups :: "(ustr \<Rightarrow> nat option res) \<Rightarrow> ustr list vdict \<Rightarrow> ustr vdict res" where
  "choose_groups sequence groups =
     mapE (\<lambda>(group_key, asrt_ids). bindE (choose_one sequence asrt_ids) (\<lambda>a. Ok (group_key, a))) groups"

definition compute_chosen_for_predicate :: "ledger \<Rightarrow> (pyval \<times> pyval) list \<Rightarrow> ustr vdict res" where
  "compute_chosen_for_predicate L schema_pred =
     bindE (as_name PolicyNonDeterminismError (dict_field schema_pred ''pred_id'')) (\<lambda>pred_id.
     let cardinality = dict_field_or schema_pred ''cardinality'' (PStr (u ''single'')) in
     bindE (active_claims L pred_id) (\<lambda>claims.
       if cardinality = PStr (u ''multi'') then
         foldE (\<lambda>chosen claim.
           bindE (group_key_for_claim schema_pred claim (Some L)) (\<lambda>base_key.
             Ok (vdict_set (PTuple (base_key @ [PStr (c_asrt claim)])) (c_asrt claim) chosen))) [] claims
       else if cardinality \<noteq> PStr (u ''single'') then Err PolicyNonDeterminismError
       else
         bindE (foldE (\<lambda>groups claim.
           bindE (group_key_for_claim schema_pred claim (Some L)) (\<lambda>group_key.
             Ok (vdict_append (PTuple group_key) (c_asrt claim) groups))) [] claims) (\<lambda>groups.
         choose_groups (claim_sequence L) groups)))"

section \<open>The interface to the ledger\<close>

text \<open>
  What the policy needs of its store: the claims of a predicate come in the order of their
  durable sequence numbers, and each of them has one.
\<close>

lemma subseq_subset: "subseq ys xs \<Longrightarrow> set ys \<subseteq> set xs"
  by (metis set_nths_subset subseq_conv_nths)

lemma subseq_sorted_wrt: "subseq ys xs \<Longrightarrow> sorted_wrt P xs \<Longrightarrow> sorted_wrt P ys"
proof (induction rule: list_emb.induct)
  case (list_emb_Cons2 x y xs ys)
  then show ?case using subseq_subset by auto
qed simp_all

locale claim_log =
  fixes good :: "'l \<Rightarrow> bool"
    and claims_of :: "'l \<Rightarrow> ustr \<Rightarrow> claim list"
    and sequence :: "'l \<Rightarrow> ustr \<Rightarrow> nat option res"
  assumes ordered: "good L \<Longrightarrow> \<exists>f. (\<forall>c \<in> set (claims_of L p). sequence L (c_asrt c) = Inr (Some (f (c_asrt c)))) \<and>
      sorted_wrt (\<lambda>c d. f (c_asrt c) < f (c_asrt d)) (claims_of L p)"
begin

lemma max_first_last: "sorted_wrt (\<lambda>x y. f x < f y) (x # xs) \<Longrightarrow> max_first f x xs = last (x # xs)"
proof (induction xs arbitrary: x)
  case (Cons y ys)
  then have "max_first f y ys = last (y # ys)" by (intro Cons.IH) simp
  with Cons.prems show ?case by simp
qed simp

lemma choose_last:
  assumes "good L" "ids \<noteq> []" "subseq ids (map c_asrt (claims_of L p))"
  shows "choose_one (sequence L) ids = Inr (last ids)"
proof -
  from ordered [OF assms(1), of p] obtain f where
    f: "\<forall>c \<in> set (claims_of L p). sequence L (c_asrt c) = Inr (Some (f (c_asrt c)))"
    "sorted_wrt (\<lambda>a b. f a < f b) (map c_asrt (claims_of L p))"
    by (auto simp: sorted_wrt_map)
  have "set ids \<subseteq> c_asrt ` set (claims_of L p)"
    using subseq_subset [OF assms(3)] by simp
  then have seqs: "sequence L a = Inr (Some (f a))" if "a \<in> set ids" for a
    using that f(1) by auto
  have inc: "sorted_wrt (\<lambda>a b. f a < f b) ids"
    using assms(3) f(2) by (rule subseq_sorted_wrt)
  have m: "mapE (\<lambda>a. bindE (sequence L a) (\<lambda>s. case s of
      None \<Rightarrow> Inl PolicyNonDeterminismError | Some n \<Rightarrow> Inr (a, n))) ids = Inr (map (\<lambda>a. (a, f a)) ids)"
    using seqs by (induction ids) auto
  obtain i rest where ids: "ids = i # rest" using assms(2) by (cases ids) auto
  have "max_first snd (i, f i) (map (\<lambda>a. (a, f a)) rest) = last (map (\<lambda>a. (a, f a)) ids)"
    using inc max_first_last [of snd "(i, f i)" "map (\<lambda>a. (a, f a)) rest"] by (simp add: ids sorted_wrt_map)
  also have "\<dots> = (last ids, f (last ids))" using assms(2) by (simp add: last_map)
  finally show ?thesis using m by (simp add: choose_one_def ids)
qed

end


section \<open>The ledger provides it\<close>

definition history :: "ledger \<Rightarrow> bool" where
  "history L \<longleftrightarrow> (\<exists>db tables L0. db_ok db \<and> seq_ok db \<and> open_ledger tables db = Inr L0 \<and> clean_steps L0 L) \<and>
     \<not> l_closed L"

lemma open_seq_ok: "seq_ok db \<Longrightarrow> open_ledger tables db = Inr L \<Longrightarrow> seq_ok (l_db L)"
  by (auto simp: open_ledger_def init_schema_def bindE_Inr_iff split: if_splits prod.splits sum.splits)

lemma history_ok: "history L \<Longrightarrow> coherent (l_lazy L) (l_db L) (l_ix L) \<and> seq_ok (l_db L) \<and> \<not> l_closed L"
  unfolding history_def
  using clean_steps_coherent open_coherent open_seq_ok steps_claims [OF clean_steps_are_steps]
  by (fastforce simp: claims_grow_def)

lemma find_seq:
  assumes "distinct (map cr_asrt rows)" "i < length rows"
  shows "find (\<lambda>r. cr_asrt r = cr_asrt (rows ! i)) rows = Some (rows ! i)"
  using assms by (induction rows arbitrary: i) (auto simp: nth_Cons split: nat.splits)

lemma sequence_of_row:
  assumes "db_ok (l_db L)" "seq_ok (l_db L)" "\<not> l_closed L" "i < length (d_claims (l_db L))"
    "cr_asrt (d_claims (l_db L) ! i) \<noteq> []"
  shows "claim_sequence L (cr_asrt (d_claims (l_db L) ! i)) = Inr (Some (Suc i))"
proof -
  have "map cr_seq (d_claims (l_db L)) ! i = Suc i"
    using assms(2,4) unfolding seq_ok_def by simp
  then show ?thesis
    using assms find_seq [of "d_claims (l_db L)" i] by (simp add: claim_sequence_def ensure_open_def db_ok_def)
qed

definition claims_with :: "ledger \<Rightarrow> ustr \<Rightarrow> claim list" where
  "claims_with L p = filter (\<lambda>c. c_pred c = p) (x_claims (l_ix L))"

lemma history_sequence:
  assumes "history L"
  obtains f where "\<And>c. c \<in> set (x_claims (l_ix L)) \<Longrightarrow> claim_sequence L (c_asrt c) = Inr (Some (f (c_asrt c)))"
    "sorted_wrt (\<lambda>c d. f (c_asrt c) < f (c_asrt d)) (x_claims (l_ix L))"
proof -
  let ?db = "l_db L" and ?f = "\<lambda>a. case claim_sequence L a of Inr (Some n) \<Rightarrow> n | _ \<Rightarrow> 0"
  from history_ok [OF assms] have h: "db_ok ?db" "seq_ok ?db" "\<not> l_closed L"
    and c: "map claim_view (x_claims (l_ix L)) = map row_view (user_rows ?db)"
    by (auto simp: coherent_def coherent_claims_def)
  have at: "claim_sequence L (cr_asrt (d_claims ?db ! i)) = Inr (Some (Suc i))" if "i < length (d_claims ?db)" for i
  proof (rule sequence_of_row [OF h that])
    show "cr_asrt (d_claims ?db ! i) \<noteq> []" using h(2) nth_mem [OF that] unfolding seq_ok_def by blast
  qed
  have "map fst (map claim_view (x_claims (l_ix L))) = map fst (map row_view (user_rows ?db))" by (simp only: c)
  then have ids: "map c_asrt (x_claims (l_ix L)) = map cr_asrt (user_rows ?db)"
    by (simp add: claim_view_def row_view_def comp_def)
  have "sorted_wrt (\<lambda>r s. ?f (cr_asrt r) < ?f (cr_asrt s)) (d_claims ?db)"
    by (simp add: sorted_wrt_iff_nth_less at)
  then have "sorted_wrt (\<lambda>a b. ?f a < ?f b) (map cr_asrt (user_rows ?db))"
    by (simp add: sorted_wrt_map user_rows_def sorted_wrt_filter)
  then have "sorted_wrt (\<lambda>c d. ?f (c_asrt c) < ?f (c_asrt d)) (x_claims (l_ix L))"
    by (simp only: ids [symmetric] sorted_wrt_map)
  moreover have "claim_sequence L (c_asrt c) = Inr (Some (?f (c_asrt c)))" if "c \<in> set (x_claims (l_ix L))" for c
  proof -
    have "c_asrt c \<in> set (map cr_asrt (user_rows ?db))" using that by (simp flip: ids)
    then obtain i where "i < length (d_claims ?db)" "cr_asrt (d_claims ?db ! i) = c_asrt c"
      by (auto simp: user_rows_def in_set_conv_nth [of _ "d_claims ?db"])
    with at [of i] show ?thesis by simp
  qed
  ultimately show ?thesis by (rule that [rotated])
qed

interpretation log: claim_log history claims_with claim_sequence
proof
  fix L p assume "history L"
  then show "\<exists>f. (\<forall>c \<in> set (claims_with L p). claim_sequence L (c_asrt c) = Inr (Some (f (c_asrt c)))) \<and>
      sorted_wrt (\<lambda>c d. f (c_asrt c) < f (c_asrt d)) (claims_with L p)"
    by (rule history_sequence) (auto simp: claims_with_def sorted_wrt_filter)
qed

section \<open>What is chosen\<close>

definition active_of :: "ledger \<Rightarrow> ustr \<Rightarrow> claim list" where
  "active_of L p = filter (\<lambda>c. c_asrt c \<notin> x_revoked (l_ix L)) (claims_with L p)"

lemma mapE_total: "(\<And>x. x \<in> set xs \<Longrightarrow> f x = Inr (g x)) \<Longrightarrow> mapE f xs = Inr (map g xs)"
  by (induction xs) auto

lemma history_ids: "history L \<Longrightarrow> c \<in> set (x_claims (l_ix L)) \<Longrightarrow> c_asrt c \<noteq> []"
proof (rule history_sequence)
  fix f assume "history L" "c \<in> set (x_claims (l_ix L))"
    "\<And>c. c \<in> set (x_claims (l_ix L)) \<Longrightarrow> claim_sequence L (c_asrt c) = Inr (Some (f (c_asrt c)))"
  then show "c_asrt c \<noteq> []" by (auto simp: claim_sequence_def dest!: meta_spec [of _ c])
qed

lemma active_claims_eq:
  assumes "history L"
  shows "active_claims L p = Inr (active_of L p)"
proof -
  have o: "\<not> l_closed L" and ix: "ix_ok (l_ix L)" using history_ok [OF assms] by (auto simp: coherent_def)
  have f: "find_claims L (Some p) None = Inr (claims_with L p)"
    using o ix by (simp add: find_claims_def ensure_open_def ix_ok_def claims_ok_def grouped_lookup claims_with_def)
  have "mapE (\<lambda>c. bindE (is_active L (c_asrt c)) (\<lambda>a. Inr (c, a))) (claims_with L p) =
      Inr (map (\<lambda>c. (c, c_asrt c \<notin> x_revoked (l_ix L))) (claims_with L p))"
    using o history_ids [OF assms]
    by (intro mapE_total) (auto simp: is_active_def has_active_revocation_def ensure_open_def claims_with_def)
  then show ?thesis
    using f by (simp add: active_claims_def active_of_def filter_map comp_def)
qed

text \<open>The group of a claim, and the claims of a group in insertion order.\<close>

definition group_of :: "ledger \<Rightarrow> (pyval \<times> pyval) list \<Rightarrow> ustr \<Rightarrow> pyval \<Rightarrow> claim list" where
  "group_of L schema_pred p k = filter (\<lambda>c. case group_key_for_claim schema_pred c (Some L) of
      Inr key \<Rightarrow> py_eq (PTuple key) k | Inl _ \<Rightarrow> False) (active_of L p)"


lemma foldE_mapE:
  "foldE (\<lambda>s x. bindE (k x) (\<lambda>y. Inr (h s x y))) s xs =
    bindE (mapE k xs) (\<lambda>ys. Inr (foldl (\<lambda>s (x, y). h s x y) s (zip xs ys)))"
proof (induction xs arbitrary: s)
  case (Cons x xs)
  then show ?case by (cases "k x"; cases "mapE k xs") simp_all
qed simp

lemma claim_args_keys:
  assumes "claim_args_from_rest_terms ts = Inr args"
  shows "\<forall>(i, a, g) \<in> set args. py_key a"
proof (safe)
  fix i a g assume "(i, a, g) \<in> set args"
  from assms obtain ats where ats: "mapE claim_arg_item ts = Inr ats" "args = enumerate 0 ats"
    by (auto simp: claim_args_eq err_simps)
  with \<open>(i, a, g) \<in> set args\<close> have "(a, g) \<in> set ats" by (metis imageI list.set_map map_snd_enumerate snd_conv)
  with ats(1) obtain it where "claim_arg_item it = Inr (a, g)"
    by (force simp: mapE_Inr_iff list_all2_conv_all_nth in_set_conv_nth)
  with claim_arg_item_Ok obtain v where "val_atom_for_claim_arg g v = Inr a" by blast
  from atom_shape [OF this] show "py_key a" by auto
qed

lemma arg_rows_keys:
  assumes "history L" "find_claim_args L (Some a) None None = Inr rows"
  shows "\<forall>r \<in> set rows. py_key (g_atom r)"
proof
  fix r assume r: "r \<in> set rows"
  from history_ok [OF assms(1)] have o: "\<not> l_closed L" "args_ok (l_ix L)" by (auto simp: coherent_def ix_ok_def)
  with assms(2) r have "r \<in> set (concat (map claim_arg_list (x_claims (l_ix L))))"
    by (auto simp: find_claim_args_def ensure_open_def args_ok_def grouped_lookup opt_ok_def)
  then obtain c where c: "r \<in> set (claim_arg_list c)" by auto
  then obtain args where "claim_args_from_rest_terms (c_terms c) = Inr args"
    "r \<in> set (map (\<lambda>(idx, value, tag). \<lparr>g_asrt = c_asrt c, g_idx = idx, g_atom = value, g_tag = tag\<rparr>) args)"
    by (cases "claim_args_from_rest_terms (c_terms c)") (simp_all add: claim_arg_list_def claim_arg_rows_def)
  with claim_args_keys show "py_key (g_atom r)" by fastforce
qed

lemma group_key_keys:
  assumes "history L" "group_key_for_claim sp c (Some L) = Inr key"
  shows "py_key (PTuple key)"
proof -
  from assms(2) obtain atoms ixs where a: "val_atoms_for_claim (Some L) c = Inr atoms"
    "read_group_key_indexes sp (Suc (length atoms)) = Inr ixs"
    and key: "key = PStr (c_pred c) # PStr (c_eref c) #
      map (\<lambda>idx. (PStr (c_eref c) # atoms) ! idx) (filter (\<lambda>idx. idx \<noteq> 0) ixs)"
    by (auto simp: group_key_for_claim_def args_for_claim_def err_simps)
  have "\<forall>v \<in> set atoms. py_key v"
    using a(1) arg_rows_keys [OF assms(1)] claim_args_keys
    by (fastforce simp: val_atoms_for_claim_def err_simps Let_def split: if_splits)
  moreover have "\<forall>i \<in> set ixs. i < Suc (length atoms)"
    using a(2) ascending_from_Ok by (auto simp: read_group_key_indexes_def err_simps)
  ultimately show ?thesis by (auto simp: key nth_Cons less_Suc_eq_0_disj split: nat.splits)
qed

lemma vdict_get_map: "vdict_get (map (\<lambda>(k, v). (k, f v)) d) k = map_option f (vdict_get d k)"
  by (induction d) auto


lemma foldl_vgroup:
  "foldl (\<lambda>s (x, y). vdict_append (PTuple y) (g x) s) [] (zip xs ys) = vgroup (map (\<lambda>(x, y). (PTuple y, g x)) (zip xs ys))"
  unfolding vgroup_def foldl_map by (rule foldl_cong) auto

lemma group_ids:
  assumes "mapE (\<lambda>c. group_key_for_claim sp c (Some L)) cs = Inr ks"
  shows "map snd (filter (\<lambda>p. py_eq (fst p) k) (map (\<lambda>(c, y). (PTuple y, c_asrt c)) (zip cs ks))) =
    map c_asrt (filter (\<lambda>c. case group_key_for_claim sp c (Some L) of
      Inr key \<Rightarrow> py_eq (PTuple key) k | Inl _ \<Rightarrow> False) cs)"
  using assms by (induction cs arbitrary: ks) (auto simp: err_simps)

lemma vgroup_values:
  assumes "\<forall>p \<in> set xs. py_key (fst p)" "(k, ids) \<in> set (vgroup xs)"
  shows "subseq ids (map snd xs) \<and> ids \<noteq> []"
  using assms
proof (induction xs arbitrary: k ids rule: rev_induct)
  case (snoc p xs)
  obtain k' x where p: "p = (k', x)" by (cases p)
  have set: "(a, v) \<in> set (vdict_set k' w d) \<Longrightarrow> (a, v) \<in> set d \<or> v = w" for a v w and d :: "'a list vdict"
    by (induction k' w d rule: vdict_set.induct) (auto split: if_splits)
  have keys: "\<forall>p \<in> set xs. py_key (fst p)" using snoc.prems(1) by simp
  let ?old = "case vdict_get (vgroup xs) k' of None \<Rightarrow> [] | Some xs \<Rightarrow> xs"
  from snoc.prems(2) consider "(k, ids) \<in> set (vgroup xs)" | "ids = ?old @ [x]"
    by (auto simp: p vdict_append_def dest: set)
  then show ?case
  proof cases
    case 1
    with snoc.IH keys have "subseq ids (map snd xs)" "ids \<noteq> []" by blast+
    from this(1) have "subseq (ids @ []) (map snd xs @ [x])" by (rule list_emb_append_mono) simp
    with \<open>ids \<noteq> []\<close> show ?thesis by (simp add: p)
  next
    case 2
    have "subseq ?old (map snd xs)"
      by (auto simp: vgroup_get [OF keys] Let_def intro: subseq_map)
    then have "subseq (?old @ [x]) (map snd xs @ [x])" by (rule list_emb_append_mono) simp
    with 2 show ?thesis by (simp add: p)
  qed
qed simp

lemma map_snd_keyed:
  "length ks = length cs \<Longrightarrow> map snd (map (\<lambda>(c, y). (PTuple y, f c)) (zip cs ks)) = map f cs"
proof (induction cs arbitrary: ks)
  case (Cons c cs)
  then obtain k ks' where "ks = k # ks'" "length ks' = length cs" by (auto simp: length_Suc_conv)
  with Cons.IH [of ks'] show ?case by simp
qed simp

lemma chosen_lemma:
  assumes "history L" "dict_field sp ''pred_id'' = PStr p" "p \<noteq> []"
    "dict_field_or sp ''cardinality'' (PStr (u ''single'')) = PStr (u ''single'')"
    "compute_chosen_for_predicate L sp = Inr chosen"
  shows "\<forall>c \<in> set (active_of L p). \<exists>key. group_key_for_claim sp c (Some L) = Inr key \<and>
      c \<in> set (group_of L sp p (PTuple key))"
    "vdict_get chosen k = (if group_of L sp p k = [] then None else Some (c_asrt (last (group_of L sp p k))))"
proof -
  let ?cs = "active_of L p" and ?key = "\<lambda>c. group_key_for_claim sp c (Some L)"
  have card: "dict_field_or sp ''cardinality'' (PStr (u ''single'')) \<noteq> PStr (u ''multi'')" using assms(4) by simp
  from assms obtain groups where g: "foldE (\<lambda>groups claim. bindE (?key claim) (\<lambda>group_key.
      Inr (vdict_append (PTuple group_key) (c_asrt claim) groups))) [] ?cs = Inr groups"
    and chosen: "choose_groups (claim_sequence L) groups = Inr chosen"
    by (auto simp: compute_chosen_for_predicate_def as_name_def active_claims_eq err_simps Let_def split: if_splits)
  from g [unfolded foldE_mapE] obtain ks where ks: "mapE ?key ?cs = Inr ks"
    and groups: "groups = vgroup (map (\<lambda>(c, y). (PTuple y, c_asrt c)) (zip ?cs ks))"
    by (auto simp: err_simps foldl_vgroup)
  let ?ps = "map (\<lambda>(c, y). (PTuple y, c_asrt c)) (zip ?cs ks)"
  have len: "length ks = length ?cs" and each: "\<And>i. i < length ?cs \<Longrightarrow> ?key (?cs ! i) = Inr (ks ! i)"
    using ks by (auto simp: mapE_Inr_iff list_all2_conv_all_nth)
  have keys: "\<forall>q \<in> set ?ps. py_key (fst q)"
    using group_key_keys [OF assms(1)] each by (fastforce simp: set_zip)
  show "\<forall>c \<in> set ?cs. \<exists>key. ?key c = Inr key \<and> c \<in> set (group_of L sp p (PTuple key))"
  proof
    fix c assume c: "c \<in> set ?cs"
    then obtain key where k: "?key c = Inr key" using each by (auto simp: in_set_conv_nth)
    then show "\<exists>key. ?key c = Inr key \<and> c \<in> set (group_of L sp p (PTuple key))"
      using c py_key_refl [OF group_key_keys [OF assms(1) k]] by (auto simp: group_of_def)
  qed
  have ids: "subseq ids (map c_asrt (claims_with L p)) \<and> ids \<noteq> []" if "(k', ids) \<in> set groups" for k' ids
  proof -
    from vgroup_values [OF keys that [unfolded groups]] have "subseq ids (map snd ?ps)" "ids \<noteq> []" by blast+
    moreover have "map snd ?ps = map c_asrt ?cs" using len by (rule map_snd_keyed)
    moreover have "subseq (map c_asrt ?cs) (map c_asrt (claims_with L p))"
      by (simp add: active_of_def subseq_map)
    ultimately show ?thesis using subseq_order.trans by metis
  qed
  have "choose_groups (claim_sequence L) groups = Inr (map (\<lambda>(k, ids). (k, last ids)) groups)"
    unfolding choose_groups_def
  proof (rule mapE_total)
    fix q assume q: "q \<in> set groups"
    obtain k' ids' where p: "q = (k', ids')" by (cases q)
    with q ids have "subseq ids' (map c_asrt (claims_with L p))" "ids' \<noteq> []" by blast+
    then show "(case q of (k, ids) \<Rightarrow> bindE (choose_one (claim_sequence L) ids) (\<lambda>a. Inr (k, a))) =
        Inr (case q of (k, ids) \<Rightarrow> (k, last ids))"
      using log.choose_last [OF assms(1)] by (simp add: p)
  qed
  with chosen have "chosen = map (\<lambda>(k, ids). (k, last ids)) groups" by simp
  then have "vdict_get chosen k = map_option last (vdict_get groups k)" by (simp add: vdict_get_map)
  also have "\<dots> = (if group_of L sp p k = [] then None else Some (c_asrt (last (group_of L sp p k))))"
    using group_ids [OF ks, of k] by (simp add: groups vgroup_get [OF keys] group_of_def Let_def last_map)
  finally show "vdict_get chosen k = (if group_of L sp p k = [] then None else Some (c_asrt (last (group_of L sp p k))))" .
qed

end
