(* ===== verification/Projector.thy ===== *)
theory Projector
  imports Policy Id_Ref
begin

text \<open>
  The view of the ledger that rules see, from \<^verbatim>\<open>core/view/projector.py\<close>: for each predicate of the
  schema the sorted facts of its selected claims, and for each entity type the entities whose
  chosen identity values encode to their own reference.  \<open>sha\<close> is SHA-256.
\<close>

section \<open>Facts\<close>

definition build_args_for_claim :: "ledger \<Rightarrow> claim \<Rightarrow> pyval list res" where
  "build_args_for_claim L claim =
     bindE (find_claim_args L (Some (c_asrt claim)) None None) (\<lambda>rows.
       if rows = [] then
         (if c_terms claim \<noteq> [] then Err ViewProjectionError else Ok [PStr (c_eref claim)])
       else
         (let sorted_rows = sort_key g_idx rows
          in if length sorted_rows \<noteq> length (c_terms claim) then Err ViewProjectionError
             else if map g_idx sorted_rows \<noteq> [0..<length sorted_rows] then Err ViewProjectionError
             else Ok (PStr (c_eref claim) # map g_atom sorted_rows)))"

definition canonical_fact_sort_key :: "pyval list \<Rightarrow> ustr list res" where
  "canonical_fact_sort_key parts = mapE py_str parts"

text \<open>\<open>sorted(xs, key=f)\<close> computes every key, then sorts stably.\<close>

definition sorted_by :: "('a \<Rightarrow> 'k::linorder res) \<Rightarrow> 'a list \<Rightarrow> 'a list res" where
  "sorted_by f xs =
     bindE (mapE (\<lambda>x. bindE (f x) (\<lambda>k. Ok (k, x))) xs) (\<lambda>kxs. Ok (map snd (sort_key fst kxs)))"

definition utf8_key :: "ustr \<Rightarrow> nat list res" where
  "utf8_key s = bindE (utf8_encode s) (\<lambda>b. Ok (map unat b))"

section \<open>Selection\<close>

definition as_view_error :: "'a res \<Rightarrow> 'a res" where
  "as_view_error m = catchE m (\<lambda>e. e = PolicyNonDeterminismError) (\<lambda>_. Err ViewProjectionError)"

definition select_view_claims :: "ledger \<Rightarrow> (pyval \<times> pyval) list \<Rightarrow> claim list res" where
  "select_view_claims L schema_pred =
     bindE (as_name ViewProjectionError (dict_field schema_pred ''pred_id'')) (\<lambda>pred_id.
     let cardinality = dict_field_or schema_pred ''cardinality'' (PStr (u ''single'')) in
     bindE (active_claims L pred_id) (\<lambda>active.
       if cardinality = PStr (u ''single'') then
         bindE (as_view_error (compute_chosen_for_predicate L schema_pred)) (\<lambda>chosen_map.
           Ok (filter (\<lambda>c. c_asrt c \<in> snd ` set chosen_map) active))
       else if cardinality = PStr (u ''multi'') then Ok active
       else Err ViewProjectionError))"

section \<open>Entity domains\<close>

type_synonym exists_row = "pyval list \<times> ustr list"

definition identity_index_step ::
  "(ustr \<times> ustr, (pyval \<times> pyval) list) dict \<times> (ustr, ustr) dict \<Rightarrow> pyval \<Rightarrow>
   ((ustr \<times> ustr, (pyval \<times> pyval) list) dict \<times> (ustr, ustr) dict) res" where
  "identity_index_step st predicate = (case st of (by_field, exists_by_owner) \<Rightarrow>
     bindE (as_dict ViewProjectionError predicate) (\<lambda>p.
       (case (dict_field p ''owner_type'', dict_field p ''pred_id'') of
          (PStr owner, PStr pred_id) \<Rightarrow>
            (let exists_by_owner = (if py_truth (dict_field_or p ''is_entity_exists'' (PBool False))
                   then dict_set owner pred_id exists_by_owner else exists_by_owner);
                 by_field = (if py_truth (dict_field_or p ''is_identity_field'' (PBool False)) then
                   (case dict_field p ''py_field_name'' of
                      PStr field_name \<Rightarrow> if field_name \<noteq> [] then dict_set (owner, field_name) p by_field else by_field
                    | _ \<Rightarrow> by_field) else by_field)
             in Ok (by_field, exists_by_owner))
        | _ \<Rightarrow> Ok (by_field, exists_by_owner))))"

definition identity_value ::
  "ledger \<Rightarrow> (ustr, pyval \<times> ustr) dict \<Rightarrow> claim \<Rightarrow> (ustr, pyval \<times> ustr) dict res" where
  "identity_value L values claim =
     bindE (build_args_for_claim L claim) (\<lambda>fact.
       (case fact of [_, v] \<Rightarrow> Ok (dict_set (c_eref claim) (v, c_asrt claim) values)
        | _ \<Rightarrow> Err ViewProjectionError))"

type_synonym selected_field = "ustr \<times> ustr \<times> (ustr, pyval \<times> ustr) dict"

definition select_identity_field ::
  "ledger \<Rightarrow> (ustr \<times> ustr, (pyval \<times> pyval) list) dict \<Rightarrow> ustr \<Rightarrow> pyval \<Rightarrow> selected_field res" where
  "select_identity_field L by_field entity_type identity_field =
     bindE (as_dict ViewProjectionError identity_field) (\<lambda>f.
     bindE (as_str ViewProjectionError (dict_field f ''name'')) (\<lambda>field_name.
     bindE (as_str ViewProjectionError (dict_field f ''type_domain'')) (\<lambda>type_domain.
       (case dict_get by_field (entity_type, field_name) of
          None \<Rightarrow> Err ViewProjectionError
        | Some predicate \<Rightarrow>
            bindE (select_view_claims L predicate) (\<lambda>claims.
            bindE (foldE (identity_value L) [] claims) (\<lambda>values.
              Ok (field_name, type_domain, values)))))))"

definition candidate_refs :: "selected_field list \<Rightarrow> ustr list" where
  "candidate_refs selected_fields = (case selected_fields of [] \<Rightarrow> []
     | (_, _, values) # rest \<Rightarrow>
         filter (\<lambda>e. list_all (\<lambda>(_, _, vs). dict_get vs e \<noteq> None) rest) (remdups (map fst values)))"

definition the_value :: "(ustr, pyval \<times> ustr) dict \<Rightarrow> ustr \<Rightarrow> pyval \<times> ustr" where
  "the_value values e_ref = (case dict_get values e_ref of Some p \<Rightarrow> p | None \<Rightarrow> (PNone, []))"

definition exists_row_for :: "(bytes \<Rightarrow> bytes) \<Rightarrow> ustr \<Rightarrow> selected_field list \<Rightarrow> ustr \<Rightarrow> exists_row option res" where
  "exists_row_for sha entity_type selected_fields e_ref =
     (let identity = map (\<lambda>(name, domain, values). PTuple [PStr name, PStr domain, fst (the_value values e_ref)]) selected_fields
      in case encode_idref_v1 sha (PStr entity_type) identity of
           Inl e \<Rightarrow> if e \<in> {TypeError, ValueError} then Ok None else Err e
         | Inr expected_ref \<Rightarrow>
             if expected_ref \<noteq> e_ref then Ok None
             else bindE (sorted_by utf8_key (map (\<lambda>(_, _, values). snd (the_value values e_ref)) selected_fields))
                    (\<lambda>supports. Ok (Some ([PStr e_ref], supports))))"

definition entity_rows ::
  "(bytes \<Rightarrow> bytes) \<Rightarrow> ledger \<Rightarrow> (ustr \<times> ustr, (pyval \<times> pyval) list) dict \<Rightarrow> (ustr, ustr) dict \<Rightarrow>
   (ustr, exists_row list) dict \<Rightarrow> pyval \<Rightarrow> (ustr, exists_row list) dict res" where
  "entity_rows sha L by_field exists_by_owner output entity =
     bindE (as_dict ViewProjectionError entity) (\<lambda>e.
     bindE (as_str ViewProjectionError (dict_field e ''entity_type'')) (\<lambda>entity_type.
     bindE (as_list ViewProjectionError (dict_field e ''identity_fields'')) (\<lambda>identity_fields.
       (case dict_get exists_by_owner entity_type of
          None \<Rightarrow> Ok output
        | Some exists_pred_id \<Rightarrow>
            bindE (mapE (select_identity_field L by_field entity_type) identity_fields) (\<lambda>selected_fields.
            bindE (sorted_by utf8_key (candidate_refs selected_fields)) (\<lambda>refs.
            bindE (mapE (exists_row_for sha entity_type selected_fields) refs) (\<lambda>rows.
              Ok (dict_set exists_pred_id (List.map_filter id rows) output))))))))"

definition virtual_entity_exists_rows ::
  "(bytes \<Rightarrow> bytes) \<Rightarrow> ledger \<Rightarrow> (pyval \<times> pyval) list \<Rightarrow> (ustr, exists_row list) dict res" where
  "virtual_entity_exists_rows sha L schema_ir =
     bindE (as_list ViewProjectionError (dict_field schema_ir ''predicates'')) (\<lambda>predicates.
     bindE (as_list ViewProjectionError (dict_field_or schema_ir ''entities'' (PList []))) (\<lambda>entities.
     bindE (foldE identity_index_step ([], []) predicates) (\<lambda>(by_field, exists_by_owner).
       foldE (entity_rows sha L by_field exists_by_owner)
         (foldl (\<lambda>out (_, pred_id). dict_set pred_id [] out) [] exists_by_owner) entities)))"

definition virtual_exists_witness_id :: "(bytes \<Rightarrow> bytes) \<Rightarrow> ustr \<Rightarrow> ustr \<Rightarrow> ustr list \<Rightarrow> ustr res" where
  "virtual_exists_witness_id sha pred_id e_ref support_asrt_ids =
     bindE (utf8_encode (u ''factgraph.virtual-entity-exists.v1'' @
              concat (map (\<lambda>s. 0 # s) (pred_id # e_ref # support_asrt_ids)))) (\<lambda>payload.
       Ok (u ''virtual-entity-exists:v1:'' @ sha256_hex sha payload))"

section \<open>The projection\<close>

record projector_audit =
  pa_predicate_count :: nat
  pa_active_claim_count :: nat
  pa_selected_claim_count :: nat
  pa_selected_by_pred :: "(ustr, nat) dict"
  pa_dropped_by_policy_count :: nat

definition empty_audit :: projector_audit where
  "empty_audit = \<lparr>pa_predicate_count = 0, pa_active_claim_count = 0, pa_selected_claim_count = 0,
     pa_selected_by_pred = [], pa_dropped_by_policy_count = 0\<rparr>"

type_synonym view_state = "(ustr, pyval list list) dict \<times> projector_audit"

definition selected_count :: "projector_audit \<Rightarrow> ustr \<Rightarrow> nat" where
  "selected_count audit pred_id = (case dict_get (pa_selected_by_pred audit) pred_id of None \<Rightarrow> 0 | Some n \<Rightarrow> n)"

definition audit_selection :: "pyval \<Rightarrow> ustr \<Rightarrow> claim list \<Rightarrow> claim list \<Rightarrow> projector_audit \<Rightarrow> projector_audit" where
  "audit_selection cardinality pred_id active selected audit = audit
     \<lparr>pa_active_claim_count := pa_active_claim_count audit + length active,
      pa_dropped_by_policy_count := pa_dropped_by_policy_count audit +
        (if cardinality = PStr (u ''single'') then length active - length selected else 0),
      pa_selected_claim_count := pa_selected_claim_count audit + length selected,
      pa_selected_by_pred := (if selected = [] then pa_selected_by_pred audit
        else dict_set pred_id (selected_count audit pred_id + length selected) (pa_selected_by_pred audit))\<rparr>"

definition project_domain ::
  "(ustr, exists_row list) dict \<Rightarrow> view_state \<Rightarrow> ustr \<Rightarrow> view_state res" where
  "project_domain virtual_exists st pred_id = (case st of (output, audit) \<Rightarrow>
     (let facts = map fst (dict_list virtual_exists pred_id)
      in bindE (sorted_by canonical_fact_sort_key facts) (\<lambda>sorted_facts.
           Ok (dict_set pred_id sorted_facts output,
               if facts = [] then audit
               else audit\<lparr>pa_selected_claim_count := pa_selected_claim_count audit + length facts,
                          pa_selected_by_pred := dict_set pred_id (length facts) (pa_selected_by_pred audit)\<rparr>))))"

definition project_predicate ::
  "ledger \<Rightarrow> (ustr, exists_row list) dict \<Rightarrow> view_state \<Rightarrow> pyval \<Rightarrow> view_state res" where
  "project_predicate L virtual_exists st schema_pred =
     bindE (as_dict ViewProjectionError schema_pred) (\<lambda>p.
     bindE (as_name ViewProjectionError (dict_field p ''pred_id'')) (\<lambda>pred_id.
       if py_truth (dict_field_or p ''is_entity_exists'' (PBool False)) then
         project_domain virtual_exists st pred_id
       else
        (let cardinality = dict_field_or p ''cardinality'' (PStr (u ''single'')) in
         bindE (active_claims L pred_id) (\<lambda>active.
         bindE (if cardinality = PStr (u ''single'') then
                  bindE (as_view_error (compute_chosen_for_predicate L p)) (\<lambda>chosen_map.
                    Ok (filter (\<lambda>c. c_asrt c \<in> snd ` set chosen_map) active))
                else if cardinality = PStr (u ''multi'') then Ok active
                else Err ViewProjectionError) (\<lambda>selected.
         bindE (mapE (build_args_for_claim L) selected) (\<lambda>facts.
         bindE (sorted_by canonical_fact_sort_key facts) (\<lambda>sorted_facts.
           Ok (dict_set pred_id sorted_facts (fst st),
               audit_selection cardinality pred_id active selected (snd st)))))))))"

definition project_view_facts_impl ::
  "(bytes \<Rightarrow> bytes) \<Rightarrow> ledger \<Rightarrow> (pyval \<times> pyval) list \<Rightarrow> view_state res" where
  "project_view_facts_impl sha L schema_ir =
     bindE (as_list ViewProjectionError (dict_field schema_ir ''predicates'')) (\<lambda>predicates.
     bindE (virtual_entity_exists_rows sha L schema_ir) (\<lambda>virtual_exists.
       foldE (project_predicate L virtual_exists)
         ([], empty_audit\<lparr>pa_predicate_count :=
                length (filter (\<lambda>p. case p of PDict _ \<Rightarrow> True | _ \<Rightarrow> False) predicates)\<rparr>) predicates))"

definition project_view_facts ::
  "(bytes \<Rightarrow> bytes) \<Rightarrow> ledger \<Rightarrow> (pyval \<times> pyval) list \<Rightarrow> (ustr, pyval list list) dict res" where
  "project_view_facts sha L schema_ir = bindE (project_view_facts_impl sha L schema_ir) (\<lambda>(facts, _). Ok facts)"

definition project_view_facts_with_audit ::
  "(bytes \<Rightarrow> bytes) \<Rightarrow> ledger \<Rightarrow> (pyval \<times> pyval) list \<Rightarrow> view_state res" where
  "project_view_facts_with_audit sha L schema_ir = project_view_facts_impl sha L schema_ir"

section \<open>The projection with witnesses\<close>

datatype witness_kind = AssertionWitness | VirtualWitness | UnknownWitness

record projected_fact =
  pf_asrt :: ustr
  pf_fact :: "pyval list"
  pf_kind :: witness_kind

definition make_projected_fact :: "ustr \<Rightarrow> pyval list \<Rightarrow> witness_kind \<Rightarrow> projected_fact res" where
  "make_projected_fact asrt_id parts kind =
     (if asrt_id = [] then Err ValueError else Ok \<lparr>pf_asrt = asrt_id, pf_fact = parts, pf_kind = kind\<rparr>)"

definition project_entity_domains_with_witness ::
  "(bytes \<Rightarrow> bytes) \<Rightarrow> ledger \<Rightarrow> (pyval \<times> pyval) list \<Rightarrow> (ustr, projected_fact list) dict res" where
  "project_entity_domains_with_witness sha L schema_ir =
     bindE (virtual_entity_exists_rows sha L schema_ir) (\<lambda>table.
     mapE (\<lambda>(pred_id, rows).
       bindE (mapE (\<lambda>(fact, support).
           bindE (case fact of PStr e_ref # _ \<Rightarrow> Ok e_ref | _ \<Rightarrow> Err NotModelled) (\<lambda>e_ref.
           bindE (virtual_exists_witness_id sha pred_id e_ref support) (\<lambda>w.
             make_projected_fact w fact VirtualWitness))) rows) (\<lambda>projected.
       bindE (sorted_by (\<lambda>row. canonical_fact_sort_key (pf_fact row)) projected) (\<lambda>sorted_rows.
         Ok (pred_id, sorted_rows)))) table)"

definition project_predicate_with_witness ::
  "ledger \<Rightarrow> (ustr, projected_fact list) dict \<Rightarrow> (ustr, projected_fact list) dict \<Rightarrow> pyval \<Rightarrow>
   (ustr, projected_fact list) dict res" where
  "project_predicate_with_witness L virtual_exists output schema_pred =
     bindE (as_dict ViewProjectionError schema_pred) (\<lambda>p.
     bindE (as_name ViewProjectionError (dict_field p ''pred_id'')) (\<lambda>pred_id.
       if py_truth (dict_field_or p ''is_entity_exists'' (PBool False)) then
         Ok (dict_set pred_id (dict_list virtual_exists pred_id) output)
       else
         bindE (select_view_claims L p) (\<lambda>selected.
         bindE (mapE (\<lambda>c. bindE (build_args_for_claim L c) (\<lambda>fact.
             make_projected_fact (c_asrt c) fact AssertionWitness)) selected) (\<lambda>projected.
         bindE (sorted_by (\<lambda>row. canonical_fact_sort_key (pf_fact row)) projected) (\<lambda>sorted_rows.
           Ok (dict_set pred_id sorted_rows output))))))"

definition project_view_facts_with_witness ::
  "(bytes \<Rightarrow> bytes) \<Rightarrow> ledger \<Rightarrow> (pyval \<times> pyval) list \<Rightarrow> (ustr, projected_fact list) dict res" where
  "project_view_facts_with_witness sha L schema_ir =
     bindE (as_list ViewProjectionError (dict_field schema_ir ''predicates'')) (\<lambda>predicates.
     bindE (project_entity_domains_with_witness sha L schema_ir) (\<lambda>virtual_exists.
       foldE (project_predicate_with_witness L virtual_exists) [] predicates))"

end
