(* ===== verification/View_Contract.thy ===== *)
theory View_Contract
  imports Projector Ledger_Samples "HOL-Library.Multiset"
begin

text \<open>
  What the policy and the projector promise over the ledger: the last write of a group wins, the
  two projections agree, the audit balances, and an entity exists only by a complete identity.
\<close>

section \<open>The chosen claim\<close>

lemma appended_active:
  assumes "append_assertion fresh claim args meta anno idem asrt_id L = (L', Inr \<lparr>ar_asrt = a, ar_written = True\<rparr>)"
    "a \<notin> x_revoked (l_ix L)" "history L'" "\<not> l_closed L"
  shows "active_of L' (c_pred claim) \<noteq> [] \<and> last (active_of L' (c_pred claim)) = claim\<lparr>c_asrt := a\<rparr>"
proof -
  have x: "x_claims (l_ix L') = x_claims (l_ix L) @ [claim\<lparr>c_asrt := a\<rparr>]"
    and r: "x_revoked (l_ix L') = x_revoked (l_ix L)"
    using append_assertion_effect [OF assms(1)] by auto
  then show ?thesis using assms(2) by (simp add: active_of_def claims_with_def)
qed

lemma newest_lemma:
  assumes "append_assertion fresh claim args meta anno idem asrt_id L = (L', Inr \<lparr>ar_asrt = a, ar_written = True\<rparr>)"
    "a \<notin> x_revoked (l_ix L)" "history L'" "\<not> l_closed L"
    "dict_field sp ''pred_id'' = PStr (c_pred claim)" "c_pred claim \<noteq> []"
    "dict_field_or sp ''cardinality'' (PStr (u ''single'')) = PStr (u ''single'')"
    "compute_chosen_for_predicate L' sp = Inr chosen"
  shows "\<exists>key. group_key_for_claim sp (claim\<lparr>c_asrt := a\<rparr>) (Some L') = Inr key \<and> vdict_get chosen (PTuple key) = Some a"
proof -
  let ?c = "claim\<lparr>c_asrt := a\<rparr>" and ?cs = "active_of L' (c_pred claim)"
  note active = appended_active [OF assms(1-4)]
  note chosen = chosen_lemma [OF assms(3,5-8)]
  have "?c \<in> set ?cs" using active last_in_set by metis
  with chosen(1) obtain key where key: "group_key_for_claim sp ?c (Some L') = Inr key"
    "?c \<in> set (group_of L' sp (c_pred claim) (PTuple key))" by blast
  obtain cs where cs: "?cs = cs @ [?c]" using active by (metis append_butlast_last_id)
  let ?P = "\<lambda>c. case group_key_for_claim sp c (Some L') of Inr key' \<Rightarrow> py_eq (PTuple key') (PTuple key) | Inl _ \<Rightarrow> False"
  have "?P ?c" using key(2) by (simp add: group_of_def)
  then have "group_of L' sp (c_pred claim) (PTuple key) = filter ?P cs @ [?c]"
    by (simp add: group_of_def cs)
  with chosen(2) [of "PTuple key"] key(1) show ?thesis by simp
qed

section \<open>The two projections\<close>

lemma map_insort: "map f (insort_key (\<lambda>x. k (f x)) x xs) = insort_key k (f x) (map f xs)"
  by (induction xs) auto

lemma map_sort_key: "map f (sort_key (\<lambda>x. k (f x)) xs) = sort_key k (map f xs)"
  by (induction xs) (simp_all add: map_insort)

lemma sorted_by_map:
  assumes "sorted_by (\<lambda>x. g (f x)) xs = Inr ys"
  shows "sorted_by g (map f xs) = Inr (map f ys)"
proof -
  from assms obtain kxs where k: "mapE (\<lambda>x. bindE (g (f x)) (\<lambda>k. Inr (k, x))) xs = Inr kxs"
    and ys: "ys = map snd (sort_key fst kxs)"
    by (auto simp: sorted_by_def err_simps)
  have "mapE (\<lambda>x. bindE (g x) (\<lambda>k. Inr (k, x))) (map f xs) = Inr (map (\<lambda>(k, x). (k, f x)) kxs)"
    using k by (induction xs arbitrary: kxs) (auto simp: err_simps)
  moreover have "map snd (sort_key fst (map (\<lambda>(k, x). (k, f x)) kxs)) = map f (map snd (sort_key fst kxs))"
    by (subst map_sort_key [of "\<lambda>(k, x). (k, f x)" fst kxs, symmetric]) (simp add: split_beta comp_def)
  ultimately show ?thesis by (simp add: sorted_by_def ys)
qed

definition forget :: "(ustr, projected_fact list) dict \<Rightarrow> (ustr, pyval list list) dict" where
  "forget d = map (\<lambda>(p, rows). (p, map pf_fact rows)) d"

lemma forget_set: "forget (dict_set p rows d) = dict_set p (map pf_fact rows) (forget d)"
  by (induction d) (auto simp: forget_def)

text \<open>The witnessed domain rows, forgotten, are the sorted domain rows.\<close>

definition domain_agrees :: "(ustr, exists_row list) dict \<Rightarrow> (ustr, projected_fact list) dict \<Rightarrow> bool" where
  "domain_agrees table projected \<longleftrightarrow>
     (\<forall>p. sorted_by canonical_fact_sort_key (map fst (dict_list table p)) = Inr (map pf_fact (dict_list projected p)))"

lemma sorted_by_Nil [simp]: "sorted_by f [] = Inr []"
  by (simp add: sorted_by_def)

lemma make_Inr: "make_projected_fact a parts k = Inr r \<Longrightarrow> pf_fact r = parts \<and> pf_asrt r = a \<and> pf_kind r = k"
  by (auto simp: make_projected_fact_def split: if_splits)

lemma mapE_project: "mapE f xs = Inr ys \<Longrightarrow> (\<And>x y. x \<in> set xs \<Longrightarrow> f x = Inr y \<Longrightarrow> h y = g x) \<Longrightarrow> map h ys = map g xs"
  by (induction xs arbitrary: ys) (auto simp: err_simps)

lemma domains_agree:
  assumes "virtual_entity_exists_rows sha L schema = Inr table" "project_entity_domains_with_witness sha L schema = Inr projected"
  shows "domain_agrees table projected"
proof -
  define f where "f = (\<lambda>(pred_id :: ustr, rows :: exists_row list).
       bindE (mapE (\<lambda>(fact, support).
           bindE (case fact of PStr e_ref # _ \<Rightarrow> Ok e_ref | _ \<Rightarrow> Err NotModelled) (\<lambda>e_ref.
           bindE (virtual_exists_witness_id sha pred_id e_ref support) (\<lambda>w.
             make_projected_fact w fact VirtualWitness))) rows) (\<lambda>projected.
       bindE (sorted_by (\<lambda>row. canonical_fact_sort_key (pf_fact row)) projected) (\<lambda>sorted_rows.
         Ok (pred_id, sorted_rows))))"
  have step: "q = (p, rows') \<Longrightarrow> f (p, rows) = Inr q \<Longrightarrow>
      sorted_by canonical_fact_sort_key (map fst rows) = Inr (map pf_fact rows')" for p rows q rows'
  proof -
    assume q: "q = (p, rows')" and "f (p, rows) = Inr q"
    then obtain pr where pr: "mapE (\<lambda>(fact, support).
           bindE (case fact of PStr e_ref # _ \<Rightarrow> Ok e_ref | _ \<Rightarrow> Err NotModelled) (\<lambda>e_ref.
           bindE (virtual_exists_witness_id sha p e_ref support) (\<lambda>w.
             make_projected_fact w fact VirtualWitness))) rows = Inr pr"
      "sorted_by (\<lambda>row. canonical_fact_sort_key (pf_fact row)) pr = Inr rows'"
      by (auto simp: f_def bindE_Inr_iff)
    have "map pf_fact pr = map fst rows"
      by (rule mapE_project [OF pr(1)]) (auto simp: bindE_Inr_iff dest!: make_Inr)
    with sorted_by_map [of canonical_fact_sort_key pf_fact, OF pr(2)] show ?thesis by simp
  qed
  have fst_eq: "f (p, rows) = Inr q \<Longrightarrow> fst q = p" for p rows q
    by (auto simp: f_def bindE_Inr_iff)
  have "mapE f table = Inr projected"
    using assms by (auto simp: project_entity_domains_with_witness_def f_def)
  then have "sorted_by canonical_fact_sort_key (map fst (dict_list table p)) = Inr (map pf_fact (dict_list projected p))" for p
  proof (induction table arbitrary: projected)
    case (Cons e table)
    obtain k rows where e: "e = (k, rows)" by (cases e)
    with Cons.prems obtain q qs where q: "f (k, rows) = Inr q" "mapE f table = Inr qs" "projected = q # qs"
      by (auto simp: err_simps)
    obtain rows' where q': "q = (k, rows')" using fst_eq [OF q(1)] by (cases q) simp
    show ?case using step [OF q' q(1)] Cons.IH [OF q(2)] by (simp add: e q(3) q' dict_list_def)
  qed simp
  then show ?thesis by (simp add: domain_agrees_def)
qed

lemma predicate_agrees:
  assumes "domain_agrees table domains" "project_predicate_with_witness L domains out v = Inr out'"
  shows "\<exists>audit'. project_predicate L table (forget out, audit) v = Inr (forget out', audit')"
proof -
  from assms(2) obtain p pred_id where p: "v = PDict p" "as_name ViewProjectionError (dict_field p ''pred_id'') = Inr pred_id"
    by (auto simp: project_predicate_with_witness_def as_dict_def bindE_Inr_iff split: pyval.splits)
  show ?thesis
  proof (cases "py_truth (dict_field_or p ''is_entity_exists'' (PBool False))")
    case True
    then have "out' = dict_set pred_id (dict_list domains pred_id) out"
      using assms(2) p by (simp add: project_predicate_with_witness_def as_dict_def)
    moreover have "sorted_by canonical_fact_sort_key (map fst (dict_list table pred_id)) =
        Inr (map pf_fact (dict_list domains pred_id))"
      using assms(1) by (simp add: domain_agrees_def)
    ultimately show ?thesis
      using p True by (simp add: project_predicate_def as_dict_def project_domain_def forget_set Let_def)
  next
    case False
    with assms(2) p obtain selected projected rows where s: "select_view_claims L p = Inr selected"
      "mapE (\<lambda>c. bindE (build_args_for_claim L c) (\<lambda>fact. make_projected_fact (c_asrt c) fact AssertionWitness)) selected = Inr projected"
      "sorted_by (\<lambda>row. canonical_fact_sort_key (pf_fact row)) projected = Inr rows"
      and out: "out' = dict_set pred_id rows out"
      by (auto simp: project_predicate_with_witness_def as_dict_def bindE_Inr_iff)
    from s(2) have "mapE (build_args_for_claim L) selected = Inr (map pf_fact projected)"
      by (induction selected arbitrary: projected) (auto simp: bindE_Inr_iff dest!: make_Inr)
    moreover have "sorted_by canonical_fact_sort_key (map pf_fact projected) = Inr (map pf_fact rows)"
      using sorted_by_map [of canonical_fact_sort_key pf_fact, OF s(3)] .
    ultimately show ?thesis
      using s(1) p False
      by (auto simp: project_predicate_def select_view_claims_def as_dict_def out forget_set Let_def bindE_Inr_iff
          split: if_split_asm)
  qed
qed

lemma projections_lemma:
  assumes "project_view_facts_with_witness sha L schema = Inr out"
  shows "project_view_facts sha L schema = Inr (forget out)"
proof -
  from assms obtain ps domains where ps: "as_list ViewProjectionError (dict_field schema ''predicates'') = Inr ps"
    and domains: "project_entity_domains_with_witness sha L schema = Inr domains"
    and fold: "foldE (project_predicate_with_witness L domains) [] ps = Inr out"
    by (auto simp: project_view_facts_with_witness_def bindE_Inr_iff)
  from domains obtain table where table: "virtual_entity_exists_rows sha L schema = Inr table"
    by (auto simp: project_entity_domains_with_witness_def bindE_Inr_iff)
  have "\<exists>audit'. foldE (project_predicate L table) (forget out0, audit) qs = Inr (forget out, audit')"
    if "foldE (project_predicate_with_witness L domains) out0 qs = Inr out" for out0 audit qs
    using that
  proof (induction qs arbitrary: out0 audit)
    case (Cons q qs)
    then obtain out1 where o: "project_predicate_with_witness L domains out0 q = Inr out1"
      "foldE (project_predicate_with_witness L domains) out1 qs = Inr out" by (auto simp: err_simps)
    from predicate_agrees [OF domains_agree [OF table domains] o(1), of audit] Cons.IH [OF o(2)]
    show ?case by auto
  qed simp
  from this [OF fold] show ?thesis
    by (auto simp: project_view_facts_def project_view_facts_impl_def ps table forget_def bindE_Inr_iff)
qed

section \<open>The audit\<close>

definition balanced :: "projector_audit \<Rightarrow> bool" where
  "balanced audit \<longleftrightarrow>
     pa_active_claim_count audit = pa_selected_claim_count audit + pa_dropped_by_policy_count audit \<and>
     sum_list (map snd (pa_selected_by_pred audit)) = pa_selected_claim_count audit \<and>
     distinct (map fst (pa_selected_by_pred audit))"

lemma sum_update: "distinct (map fst d) \<Longrightarrow>
    sum_list (map snd (AList.update k ((case map_of d k of None \<Rightarrow> 0 | Some n \<Rightarrow> n) + m) d)) = sum_list (map snd d) + (m :: nat)"
  by (induction d) auto

lemma audit_selection_balanced:
  assumes "balanced audit" "length selected \<le> length active"
    "cardinality \<noteq> PStr (u ''single'') \<Longrightarrow> length selected = length active"
  shows "balanced (audit_selection cardinality pred_id active selected audit)"
  using assms sum_update [of "pa_selected_by_pred audit" pred_id "length selected"]
  by (auto simp: balanced_def audit_selection_def selected_count_def distinct_keys_dict_set)

lemma predicate_balanced:
  assumes "project_predicate L table (out, audit) v = Inr (out', audit')" "balanced audit"
    "\<And>p. v = PDict p \<Longrightarrow> \<not> py_truth (dict_field_or p ''is_entity_exists'' (PBool False))"
  shows "balanced audit' \<and> pa_predicate_count audit' = pa_predicate_count audit"
proof -
  from assms(1) obtain p where v: "v = PDict p" by (auto simp: project_predicate_def as_dict_def split: pyval.splits)
  define card where "card = dict_field_or p ''cardinality'' (PStr (u ''single''))"
  from assms(1,3) v obtain pred_id active selected where
    sel: "(if card = PStr (u ''single'') then
            bindE (as_view_error (compute_chosen_for_predicate L p)) (\<lambda>chosen_map.
              Ok (filter (\<lambda>c. c_asrt c \<in> snd ` set chosen_map) active))
          else if card = PStr (u ''multi'') then Ok active else Err ViewProjectionError) = Inr selected"
    and audit': "audit' = audit_selection card pred_id active selected audit"
    by (auto simp: project_predicate_def as_dict_def bindE_Inr_iff Let_def simp flip: card_def)
  have "length selected \<le> length active" using sel by (auto simp: bindE_Inr_iff split: if_split_asm)
  moreover have "card \<noteq> PStr (u ''single'') \<Longrightarrow> length selected = length active" using sel by (auto split: if_split_asm)
  ultimately show ?thesis
    using audit_selection_balanced [OF assms(2)] by (simp add: audit') (simp add: audit_selection_def)
qed

lemma fold_balanced:
  assumes "foldE (project_predicate L table) (out, audit) vs = Inr (out', audit')" "balanced audit"
    "\<And>p. PDict p \<in> set vs \<Longrightarrow> \<not> py_truth (dict_field_or p ''is_entity_exists'' (PBool False))"
  shows "balanced audit' \<and> pa_predicate_count audit' = pa_predicate_count audit"
  using assms
proof (induction vs arbitrary: out audit)
  case (Cons v vs)
  from Cons.prems(1) obtain out1 audit1 where s: "project_predicate L table (out, audit) v = Inr (out1, audit1)"
    "foldE (project_predicate L table) (out1, audit1) vs = Inr (out', audit')" by (auto simp: err_simps)
  have "balanced audit1 \<and> pa_predicate_count audit1 = pa_predicate_count audit"
    by (rule predicate_balanced [OF s(1) Cons.prems(2)]) (use Cons.prems(3) in simp)
  moreover from this have "balanced audit' \<and> pa_predicate_count audit' = pa_predicate_count audit1"
    by (intro Cons.IH [OF s(2)]) (use Cons.prems(3) in auto)
  ultimately show ?case by simp
qed simp

lemma fold_dicts:
  assumes "foldE (project_predicate L table) st vs = Inr st'"
  shows "filter (\<lambda>p. case p of PDict _ \<Rightarrow> True | _ \<Rightarrow> False) vs = vs"
  using assms
proof (induction vs arbitrary: st)
  case (Cons v vs)
  then have "\<exists>p. v = PDict p" by (auto simp: project_predicate_def as_dict_def bindE_Inr_iff split: pyval.splits)
  with Cons show ?case by (auto simp: bindE_Inr_iff)
qed simp

lemma audit_lemma:
  assumes "project_view_facts_with_audit sha L schema = Inr (facts, audit)" "dict_field schema ''predicates'' = PList ps"
    "\<And>p. PDict p \<in> set ps \<Longrightarrow> \<not> py_truth (dict_field_or p ''is_entity_exists'' (PBool False))"
  shows "balanced audit \<and> pa_predicate_count audit = length ps"
proof -
  let ?start = "empty_audit\<lparr>pa_predicate_count := length (filter (\<lambda>p. case p of PDict _ \<Rightarrow> True | _ \<Rightarrow> False) ps)\<rparr>"
  from assms(1,2) obtain table where f: "foldE (project_predicate L table) ([], ?start) ps = Inr (facts, audit)"
    by (auto simp: project_view_facts_with_audit_def project_view_facts_impl_def as_list_def bindE_Inr_iff)
  have "balanced audit \<and> pa_predicate_count audit = pa_predicate_count ?start"
    by (rule fold_balanced [OF f _ assms(3)]) (simp add: balanced_def empty_audit_def)
  then show ?thesis using fold_dicts [OF f] by simp
qed

section \<open>Entity domains\<close>

















section \<open>Properties\<close>

abbreviation str :: "string \<Rightarrow> pyval" where "str s \<equiv> PStr (u s)"

definition likes :: "(pyval \<times> pyval) list" where
  "likes = [(str ''pred_id'', str ''p:likes''), (str ''group_key_indexes'', PList [PInt 0])]"

lemma sample_history_L1: "history sample_L1"
proof -
  have "seq_ok empty_db" by (simp add: seq_ok_def empty_db_def)
  moreover have "clean_steps sample_L0 sample_L1" using sample_step1 by (rule r_into_rtranclp)
  moreover have "\<not> l_closed sample_L1" by code_simp
  ultimately show ?thesis unfolding history_def using sample_open empty_db_ok by blast
qed

lemma sample_chosen:
  "compute_chosen_for_predicate sample_L1 likes = Inr [(PTuple [str ''p:likes'', str ''e1''], u ''a1'')] \<and>
    map c_asrt (active_of sample_L1 (u ''p:likes'')) = [u ''a1'']"
  by code_simp

lemma likes_fields: "dict_field likes ''pred_id'' = PStr (u ''p:likes'') \<and>
    dict_field_or likes ''cardinality'' (PStr (u ''single'')) = PStr (u ''single'')"
  by code_simp

text \<open>
  C26: In a single-valued predicate the policy chooses, for every active claim, the latest claim of its
  group: the chosen map holds under the claim's group key the id of the last active claim of the
  ledger with that key, and it holds nothing for a key without active claims.
\<close>

theorem chosen_is_latest:
  assumes "history L" "dict_field sp ''pred_id'' = PStr p" "p \<noteq> []"
    "dict_field_or sp ''cardinality'' (PStr (u ''single'')) = PStr (u ''single'')"
    "compute_chosen_for_predicate L sp = Inr chosen"
  shows "(\<forall>c \<in> set (active_of L p). \<exists>key. group_key_for_claim sp c (Some L) = Inr key \<and>
      c \<in> set (group_of L sp p (PTuple key)) \<and>
      vdict_get chosen (PTuple key) = Some (c_asrt (last (group_of L sp p (PTuple key))))) \<and>
    (\<forall>k. group_of L sp p k = [] \<longrightarrow> vdict_get chosen k = None)"
proof (intro conjI ballI allI impI)
  fix c assume "c \<in> set (active_of L p)"
  with chosen_lemma(1) [OF assms] obtain key where k: "group_key_for_claim sp c (Some L) = Inr key"
    "c \<in> set (group_of L sp p (PTuple key))" by blast
  then have "group_of L sp p (PTuple key) \<noteq> []" by auto
  with k chosen_lemma(2) [OF assms, of "PTuple key"]
  show "\<exists>key. group_key_for_claim sp c (Some L) = Inr key \<and> c \<in> set (group_of L sp p (PTuple key)) \<and>
      vdict_get chosen (PTuple key) = Some (c_asrt (last (group_of L sp p (PTuple key))))" by auto
next
  fix k assume "group_of L sp p k = []"
  then show "vdict_get chosen k = None" using chosen_lemma(2) [OF assms, of k] by simp
qed

lemma chosen_is_latest_witness:
  "\<exists>c \<in> set (active_of sample_L1 (u ''p:likes'')). \<exists>key. group_key_for_claim likes c (Some sample_L1) = Inr key \<and>
    vdict_get [(PTuple [str ''p:likes'', str ''e1''], u ''a1'')] (PTuple key) =
      Some (c_asrt (last (group_of sample_L1 likes (u ''p:likes'') (PTuple key))))"
proof -
  have "compute_chosen_for_predicate sample_L1 likes = Inr [(PTuple [str ''p:likes'', str ''e1''], u ''a1'')]"
    using sample_chosen by (rule conjunct1)
  moreover have "u ''p:likes'' \<noteq> []" by simp
  ultimately have all: "\<forall>c \<in> set (active_of sample_L1 (u ''p:likes'')). \<exists>key. group_key_for_claim likes c (Some sample_L1) = Inr key \<and>
    vdict_get [(PTuple [str ''p:likes'', str ''e1''], u ''a1'')] (PTuple key) =
      Some (c_asrt (last (group_of sample_L1 likes (u ''p:likes'') (PTuple key))))"
    using chosen_is_latest [OF sample_history_L1 conjunct1 [OF likes_fields] _ conjunct2 [OF likes_fields]] by blast
  moreover have "active_of sample_L1 (u ''p:likes'') \<noteq> []" using sample_chosen by auto
  ultimately show ?thesis by (metis last_in_set)
qed

text \<open>
  C21: The last write wins: right after a successful \<open>append_assertion\<close> the new claim is the chosen
  one of its group, whatever the ledger held before.
\<close>

theorem newest_wins:
  assumes "append_assertion fresh claim args meta anno idem asrt_id L = (L', Inr \<lparr>ar_asrt = a, ar_written = True\<rparr>)"
    "a \<notin> x_revoked (l_ix L)" "history L'" "\<not> l_closed L"
    "dict_field sp ''pred_id'' = PStr (c_pred claim)" "c_pred claim \<noteq> []"
    "dict_field_or sp ''cardinality'' (PStr (u ''single'')) = PStr (u ''single'')"
    "compute_chosen_for_predicate L' sp = Inr chosen"
  shows "\<exists>key. group_key_for_claim sp (claim\<lparr>c_asrt := a\<rparr>) (Some L') = Inr key \<and> vdict_get chosen (PTuple key) = Some a"
  using assms by (rule newest_lemma)

lemma sample_append_result: "snd sample_append = Inr \<lparr>ar_asrt = u ''a1'', ar_written = True\<rparr> \<and>
    x_revoked (l_ix sample_L0) = {} \<and> \<not> l_closed sample_L0"
  by code_simp

lemma newest_wins_witness:
  "\<exists>key. group_key_for_claim likes sample_claim (Some sample_L1) = Inr key \<and>
    vdict_get [(PTuple [str ''p:likes'', str ''e1''], u ''a1'')] (PTuple key) = Some (u ''a1'')"
proof -
  have a: "append_assertion [] sample_claim sample_args [] [] None None sample_L0 =
      (sample_L1, Inr \<lparr>ar_asrt = u ''a1'', ar_written = True\<rparr>)"
    using sample_append_result by (simp add: sample_append_def sample_L1_def prod_eq_iff)
  have c: "sample_claim\<lparr>c_asrt := u ''a1''\<rparr> = sample_claim" "c_pred sample_claim = u ''p:likes''"
    by (simp_all add: sample_claim_def)
  from newest_wins [OF a _ sample_history_L1, of likes "[(PTuple [str ''p:likes'', str ''e1''], u ''a1'')]"]
    sample_append_result likes_fields sample_chosen c
  show ?thesis by simp
qed

text \<open>
  C25: The projection with witnesses is the plain projection: whenever
  \<open>project_view_facts_with_witness\<close> returns, \<open>project_view_facts\<close> returns the same predicates
  with the same facts in the same order.
\<close>

theorem projections_agree:
  assumes "project_view_facts_with_witness sha L schema = Inr out"
  shows "project_view_facts sha L schema = Inr (map (\<lambda>(p, rows). (p, map pf_fact rows)) out)"
  using projections_lemma [OF assms] by (simp add: forget_def)

definition view_sha :: "bytes \<Rightarrow> bytes" where "view_sha b = []"

definition drink_ref :: ustr where "drink_ref = u ''idref_v1:E:''"

definition drink_claim :: claim where
  "drink_claim = \<lparr>c_asrt = u ''i1'', c_pred = u ''E:x'', c_eref = drink_ref,
     c_terms = [PTuple [str ''string'', str ''tea'']]\<rparr>"

definition drink_append :: "ledger \<times> append_result res" where
  "drink_append = append_assertion [] drink_claim
     [\<lparr>g_asrt = u ''i1'', g_idx = 0, g_atom = str ''tea'', g_tag = u ''string''\<rparr>] [] [] None None sample_L0"

definition drink_L :: ledger where "drink_L = fst drink_append"

definition view_schema :: "(pyval \<times> pyval) list" where
  "view_schema =
     [(str ''predicates'', PList
        [PDict [(str ''pred_id'', str ''E:exists''), (str ''owner_type'', str ''E''), (str ''is_entity_exists'', PBool True)],
         PDict [(str ''pred_id'', str ''E:x''), (str ''owner_type'', str ''E''), (str ''is_identity_field'', PBool True),
                (str ''py_field_name'', str ''x''), (str ''group_key_indexes'', PList [PInt 0])]]),
      (str ''entities'', PList [PDict [(str ''entity_type'', str ''E''), (str ''identity_fields'',
         PList [PDict [(str ''name'', str ''x''), (str ''type_domain'', str ''string'')]])]])]"


lemma drink_projected:
  "project_view_facts_with_witness view_sha drink_L view_schema = Inr
     [(u ''E:exists'', [\<lparr>pf_asrt = u ''virtual-entity-exists:v1:'', pf_fact = [PStr drink_ref], pf_kind = VirtualWitness\<rparr>]),
      (u ''E:x'', [\<lparr>pf_asrt = u ''i1'', pf_fact = [PStr drink_ref, str ''tea''], pf_kind = AssertionWitness\<rparr>])]"
  by code_simp

lemma projections_agree_witness:
  "project_view_facts view_sha drink_L view_schema =
    Inr [(u ''E:exists'', [[PStr drink_ref]]), (u ''E:x'', [[PStr drink_ref, str ''tea'']])]"
  using projections_agree [OF drink_projected] by simp

text \<open>
  The audit of a projection balances: when no predicate is an entity domain, every active claim is
  either selected or dropped by the policy, the per-predicate counts add up to the selected
  claims, and every predicate of the schema is counted.
\<close>

lemma audit_balances:
  assumes "project_view_facts_with_audit sha L schema = Inr (facts, audit)" "dict_field schema ''predicates'' = PList ps"
    "\<And>p. PDict p \<in> set ps \<Longrightarrow> \<not> py_truth (dict_field_or p ''is_entity_exists'' (PBool False))"
  shows "pa_active_claim_count audit = pa_selected_claim_count audit + pa_dropped_by_policy_count audit \<and>
    sum_list (map snd (pa_selected_by_pred audit)) = pa_selected_claim_count audit \<and>
    pa_predicate_count audit = length ps"
  using audit_lemma [OF assms] by (simp add: balanced_def)

definition likes_schema :: "(pyval \<times> pyval) list" where
  "likes_schema = [(str ''predicates'', PList [PDict likes])]"

lemma likes_projected: "case project_view_facts_with_audit view_sha sample_L1 likes_schema of
    Inr (facts, audit) \<Rightarrow> pa_active_claim_count audit = 1 | Inl _ \<Rightarrow> False"
  by code_simp

lemma likes_schema_fields: "dict_field likes_schema ''predicates'' = PList [PDict likes] \<and>
    \<not> py_truth (dict_field_or likes ''is_entity_exists'' (PBool False))"
  by code_simp

lemma audit_balances_witness:
  "\<exists>facts audit. project_view_facts_with_audit view_sha sample_L1 likes_schema = Inr (facts, audit) \<and>
    pa_selected_claim_count audit + pa_dropped_by_policy_count audit = 1"
proof -
  from likes_projected obtain facts audit where
    a: "project_view_facts_with_audit view_sha sample_L1 likes_schema = Inr (facts, audit)" "pa_active_claim_count audit = 1"
    by (auto split: sum.split_asm prod.split_asm)
  from audit_balances [OF a(1) conjunct1 [OF likes_schema_fields]] likes_schema_fields a show ?thesis by auto
qed




end
