(* ===== verification/Mapping_Canon.thy ===== *)
theory Mapping_Canon
  imports Projector
begin

text \<open>
  Resolution of single-valued mapping predicates, from \<^verbatim>\<open>core/mapping/canon.py\<close>: the active claims
  are grouped by their key positions; a key with one distinct value maps to it, a key with
  several is a conflict or is decided by the declared tie break.
\<close>

section \<open>Records\<close>

record mapping_candidate =
  mc_asrt :: ustr
  mc_key :: "pyval list"
  mc_value :: "pyval list"
  mc_source :: "ustr option"
  mc_ingested_at :: int

record mapping_decision =
  md_key :: "pyval list"
  md_chosen_asrt :: ustr
  md_chosen_value :: "pyval list"
  md_reason :: ustr
  md_candidates :: "ustr list"

record mapping_resolution =
  mr_pred :: ustr
  mr_chosen :: "pyval list vdict"
  mr_candidates :: "mapping_candidate list"
  mr_decisions :: "mapping_decision list"

section \<open>Reading the schema\<close>

definition normalize_positions :: "pyval \<Rightarrow> nat \<Rightarrow> nat list res" where
  "normalize_positions raw arg_count =
     bindE (as_list MappingResolveError raw) (\<lambda>vs. ascending_from MappingResolveError arg_count (- 1) vs)"

definition MODE_ERROR :: ustr where "MODE_ERROR = u ''error''"
definition MODE_LATEST :: ustr where "MODE_LATEST = u ''latest_by_ingested_at_then_min_assertion_id''"
definition MODE_PREFER :: ustr where "MODE_PREFER = u ''prefer_source''"

definition normalize_tie_break :: "pyval \<Rightarrow> (ustr \<times> (pyval \<times> pyval) list) res" where
  "normalize_tie_break raw =
     (case raw of
        PNone \<Rightarrow> Ok (MODE_ERROR, [])
      | PStr mode \<Rightarrow> if mode \<in> {MODE_ERROR, MODE_LATEST, MODE_PREFER} then Ok (mode, []) else Err MappingResolveError
      | PDict conf \<Rightarrow>
          (case dict_field conf ''mode'' of
             PStr mode \<Rightarrow> if mode \<in> {MODE_ERROR, MODE_LATEST, MODE_PREFER} then Ok (mode, conf) else Err MappingResolveError
           | mode \<Rightarrow> if hashable mode then Err MappingResolveError else Err TypeError)
      | _ \<Rightarrow> Err MappingResolveError)"

section \<open>Candidates\<close>

definition required_meta_time :: "ledger \<Rightarrow> ustr \<Rightarrow> string \<Rightarrow> int res" where
  "required_meta_time L asrt_id key =
     bindE (find_meta L (Some asrt_id) (Some (MKey (u key))) None) (\<lambda>rows.
       (case rows of
          [row] \<Rightarrow> (case m_value row of
              PInt i \<Rightarrow> if m_kind row = u ''time'' then Ok i else Err MappingResolveError
            | _ \<Rightarrow> Err MappingResolveError)
        | _ \<Rightarrow> Err MappingResolveError))"

definition optional_meta_str :: "ledger \<Rightarrow> ustr \<Rightarrow> string \<Rightarrow> ustr option res" where
  "optional_meta_str L asrt_id key =
     bindE (effective_meta_rows L (Some asrt_id) (Some (MKey (u key))) (Some (u ''str'')) None) (\<lambda>rows.
       Ok (if rows = [] then None else (case m_value (last rows) of PStr s \<Rightarrow> Some s | _ \<Rightarrow> None)))"

definition at_positions :: "pyval list \<Rightarrow> nat list \<Rightarrow> pyval list res" where
  "at_positions args positions = mapE (\<lambda>i. if i < length args then Ok (args ! i) else Err IndexError) positions"

definition candidate_from_claim :: "ledger \<Rightarrow> nat list \<Rightarrow> nat list \<Rightarrow> claim \<Rightarrow> mapping_candidate res" where
  "candidate_from_claim L key_positions value_positions claim =
     bindE (build_args_for_claim L claim) (\<lambda>args.
     bindE (at_positions args key_positions) (\<lambda>key_tuple.
     bindE (at_positions args value_positions) (\<lambda>value_tuple.
     bindE (required_meta_time L (c_asrt claim) ''ingested_at'') (\<lambda>ingested_at.
     bindE (optional_meta_str L (c_asrt claim) ''source'') (\<lambda>source.
       Ok \<lparr>mc_asrt = c_asrt claim, mc_key = key_tuple, mc_value = value_tuple, mc_source = source,
           mc_ingested_at = ingested_at\<rparr>)))))"

section \<open>Tie breaks\<close>

definition invert_for_min_asrt :: "ustr \<Rightarrow> int list" where
  "invert_for_min_asrt asrt_id = map (\<lambda>c. - int c) asrt_id"

definition latest_key :: "mapping_candidate \<Rightarrow> int \<times> int list" where
  "latest_key c = (mc_ingested_at c, invert_for_min_asrt (mc_asrt c))"

definition source_order :: "ustr list \<Rightarrow> (ustr, nat) dict" where
  "source_order ranks = foldl (\<lambda>d (i, name). dict_set name i d) [] (enumerate 0 ranks)"

definition source_rank :: "(ustr, nat) dict \<Rightarrow> ustr option \<Rightarrow> nat" where
  "source_rank order source = (case source of None \<Rightarrow> length order
     | Some s \<Rightarrow> (case dict_get order s of None \<Rightarrow> length order | Some i \<Rightarrow> i))"

definition choose_with_tie_break ::
  "mapping_candidate list \<Rightarrow> ustr \<Rightarrow> (pyval \<times> pyval) list \<Rightarrow> mapping_candidate res" where
  "choose_with_tie_break candidates mode conf =
     (if mode = MODE_LATEST then
        (case candidates of [] \<Rightarrow> Err ValueError | c # cs \<Rightarrow> Ok (max_first latest_key c cs))
      else if mode = MODE_PREFER then
        bindE (as_list MappingResolveError (dict_field conf ''source_rank'')) (\<lambda>raw.
        bindE (mapE (as_str MappingResolveError) raw) (\<lambda>ranks.
          (case sort_key (\<lambda>c. (source_rank (source_order ranks) (mc_source c), - mc_ingested_at c, mc_asrt c)) candidates of
             [] \<Rightarrow> Err IndexError | c # _ \<Rightarrow> Ok c)))
      else Err MappingResolveError)"

section \<open>Resolution\<close>

definition tuple_text :: "pyval list \<Rightarrow> ustr list res" where
  "tuple_text vs = mapE py_str vs"

definition distinct_values :: "mapping_candidate list \<Rightarrow> pyval list" where
  "distinct_values cs = py_distinct (map (\<lambda>c. PTuple (mc_value c)) cs)"

text \<open>Values that print alike come out of the set in no fixed order, which is not modelled.\<close>

definition sorted_values :: "pyval list \<Rightarrow> pyval list list res" where
  "sorted_values vals =
     bindE (mapE (\<lambda>v. case v of PTuple vs \<Rightarrow> bindE (tuple_text vs) (\<lambda>k. Ok (k, vs)) | _ \<Rightarrow> Err NotModelled) vals) (\<lambda>kvs.
       if distinct (map fst kvs) then Ok (map snd (sort_key fst kvs)) else Err NotModelled)"

type_synonym conflict = "pyval list \<times> pyval list list \<times> ustr list"
type_synonym resolve_state = "pyval list vdict \<times> mapping_decision list \<times> conflict list"

definition decide :: "mapping_candidate list \<Rightarrow> pyval list \<Rightarrow> mapping_candidate \<Rightarrow> ustr \<Rightarrow> resolve_state \<Rightarrow> resolve_state" where
  "decide candidates key_tuple chosen reason st = (case st of (chosen_map, decisions, conflicts) \<Rightarrow>
     (vdict_set (PTuple key_tuple) (mc_value chosen) chosen_map,
      decisions @ [\<lparr>md_key = key_tuple, md_chosen_asrt = mc_asrt chosen, md_chosen_value = mc_value chosen,
                    md_reason = reason, md_candidates = sort (map mc_asrt candidates)\<rparr>],
      conflicts))"

definition resolve_key ::
  "ustr \<Rightarrow> (pyval \<times> pyval) list \<Rightarrow> resolve_state \<Rightarrow> pyval \<times> mapping_candidate list \<Rightarrow> resolve_state res" where
  "resolve_key mode conf st entry = (case entry of (key, candidates) \<Rightarrow>
     (let key_tuple = (case key of PTuple ks \<Rightarrow> ks | _ \<Rightarrow> []);
          vals = distinct_values candidates
      in if length vals \<le> 1 then
           (case candidates of [] \<Rightarrow> Err IndexError
            | chosen # _ \<Rightarrow> Ok (decide candidates key_tuple chosen (u ''single_value'') st))
         else if mode = MODE_ERROR then
           bindE (sorted_values vals) (\<lambda>candidate_values.
             (case st of (chosen_map, decisions, conflicts) \<Rightarrow>
               Ok (chosen_map, decisions,
                   conflicts @ [(key_tuple, candidate_values, sort (map mc_asrt candidates))])))
         else
           bindE (choose_with_tie_break candidates mode conf) (\<lambda>chosen.
             Ok (decide candidates key_tuple chosen mode st))))"

definition group_candidates :: "mapping_candidate list \<Rightarrow> mapping_candidate list vdict" where
  "group_candidates cands = foldl (\<lambda>g c. vdict_append (PTuple (mc_key c)) c g) [] cands"

definition resolve_mapping_predicate :: "ledger \<Rightarrow> (pyval \<times> pyval) list \<Rightarrow> mapping_resolution res" where
  "resolve_mapping_predicate L schema_pred =
     bindE (as_name MappingResolveError (dict_field schema_pred ''pred_id'')) (\<lambda>pred_id.
       if dict_field schema_pred ''is_mapping'' \<noteq> PBool True then Err MappingResolveError
       else if dict_field schema_pred ''mapping_kind'' \<noteq> PStr (u ''single_valued'') then Err MappingResolveError
       else
       bindE (as_list MappingResolveError (dict_field schema_pred ''arg_specs'')) (\<lambda>arg_specs.
       if arg_specs = [] then Err MappingResolveError else
       bindE (normalize_positions (dict_field schema_pred ''mapping_key_positions'') (length arg_specs)) (\<lambda>key_positions.
       bindE (normalize_positions (dict_field schema_pred ''mapping_value_positions'') (length arg_specs)) (\<lambda>value_positions.
       if key_positions = [] then Err MappingResolveError else
       if value_positions = [] then Err MappingResolveError else
       bindE (normalize_tie_break (dict_field schema_pred ''tie_break'')) (\<lambda>(mode, conf).
       bindE (active_claims L pred_id) (\<lambda>claims.
       bindE (mapE (candidate_from_claim L key_positions value_positions) claims) (\<lambda>all_candidates.
       bindE (foldE (resolve_key mode conf) ([], [], []) (group_candidates all_candidates)) (\<lambda>(chosen_map, decisions, conflicts).
       if conflicts \<noteq> [] then Err (MappingConflictError conflicts) else
       bindE (sorted_by (\<lambda>c. bindE (tuple_text (mc_key c)) (\<lambda>k. Ok (k, mc_asrt c))) all_candidates) (\<lambda>candidates.
       bindE (sorted_by (\<lambda>d. bindE (tuple_text (md_key d)) (\<lambda>k. Ok (k, md_chosen_asrt d))) decisions) (\<lambda>decisions.
         Ok \<lparr>mr_pred = pred_id, mr_chosen = chosen_map, mr_candidates = candidates,
             mr_decisions = decisions\<rparr>))))))))))"

end
