(* ===== verification/Mapping_Contract.thy ===== *)
theory Mapping_Contract
  imports Mapping_Canon View_Contract
begin

text \<open>
  What the mapping canonicaliser promises: without a tie break the result is a function that every
  active claim agrees with, and a tie break does not depend on the order of the candidates.
\<close>

section \<open>Tie breaks\<close>

lemma max_first_greatest: "max_first f x xs \<in> set (x # xs) \<and> (\<forall>y \<in> set (x # xs). f y \<le> f (max_first f x xs))"
proof (induction xs arbitrary: x)
  case (Cons y ys)
  show ?case
  proof (cases "f x < f y")
    case True
    then show ?thesis using Cons [of y] by (auto simp: less_le_trans dest: order.strict_trans2 less_imp_le)
  next
    case False
    then have "f y \<le> f x" by simp
    with False show ?thesis using Cons [of x] by (auto dest: order_trans)
  qed
qed simp

lemma invert_inj: "invert_for_min_asrt a = invert_for_min_asrt b \<Longrightarrow> a = b"
proof -
  have "inj (\<lambda>c :: nat. - int c)" by (auto simp: inj_def)
  then show "invert_for_min_asrt a = invert_for_min_asrt b \<Longrightarrow> a = b" by (simp add: invert_for_min_asrt_def inj_map_eq_map)
qed

lemma inj_on_ids: "distinct (map mc_asrt cs) \<Longrightarrow> c \<in> set cs \<Longrightarrow> d \<in> set cs \<Longrightarrow> mc_asrt c = mc_asrt d \<Longrightarrow> c = d"
  by (auto simp: distinct_map inj_on_def)

lemma latest_lemma:
  assumes "choose_with_tie_break cs MODE_LATEST conf = Inr c"
  shows "c \<in> set cs \<and> (\<forall>d \<in> set cs. latest_key d \<le> latest_key c)"
  using assms max_first_greatest [of latest_key "hd cs" "tl cs"]
  by (cases cs) (auto simp: choose_with_tie_break_def)

lemma prefer_not_latest: "MODE_PREFER \<noteq> MODE_LATEST"
  by (simp add: MODE_PREFER_def MODE_LATEST_def)

lemma order_lemma:
  assumes "choose_with_tie_break cs mode conf = Inr c" "mset cs' = mset cs" "distinct (map mc_asrt cs)"
  shows "choose_with_tie_break cs' mode conf = Inr c"
proof -
  have set: "set cs' = set cs" using assms(2) by (rule mset_eq_setD)
  consider "mode = MODE_LATEST" | "mode = MODE_PREFER"
    using assms(1) by (auto simp: choose_with_tie_break_def split: if_split_asm)
  then show ?thesis
  proof cases
    case 1
    have ne: "cs \<noteq> []" "cs' \<noteq> []" using assms(1,2) by (auto simp: choose_with_tie_break_def 1)
    then obtain c' where c': "choose_with_tie_break cs' mode conf = Inr c'"
      by (cases cs') (auto simp: choose_with_tie_break_def 1)
    from latest_lemma [of cs' conf c'] latest_lemma [of cs conf c] assms(1) c'
    have c: "c \<in> set cs" "c' \<in> set cs" "latest_key c \<le> latest_key c'" "latest_key c' \<le> latest_key c" by (auto simp: 1 set)
    then have "latest_key c = latest_key c'" by (intro antisym)
    with c(1,2) have "c = c'" using inj_on_ids [OF assms(3)] invert_inj by (auto simp: latest_key_def)
    then show ?thesis using c' by simp
  next
    case 2
    have inj: "inj_on (\<lambda>c. (source_rank r (mc_source c), - mc_ingested_at c, mc_asrt c)) (set cs)" for r
      using inj_on_ids [OF assms(3)] by (auto simp: inj_on_def)
    have "sort_key (\<lambda>c. (source_rank r (mc_source c), - mc_ingested_at c, mc_asrt c)) cs =
        sort_key (\<lambda>c. (source_rank r (mc_source c), - mc_ingested_at c, mc_asrt c)) cs'" for r
      using assms(2) inj by (intro sort_key_eq_sort_key) auto
    then show ?thesis using assms(1) by (simp add: choose_with_tie_break_def 2 prefer_not_latest)
  qed
qed

lemma invert_le: "length a = length b \<Longrightarrow> invert_for_min_asrt a \<le> invert_for_min_asrt b \<longleftrightarrow> b \<le> a"
  by (induction a b rule: list_induct2) (auto simp: invert_for_min_asrt_def)

lemma min_assertion_lemma:
  assumes "choose_with_tie_break cs MODE_LATEST conf = Inr c" "\<forall>d \<in> set cs. length (mc_asrt d) = n"
  shows "c \<in> set cs \<and> (\<forall>d \<in> set cs. mc_ingested_at d < mc_ingested_at c \<or>
    mc_ingested_at d = mc_ingested_at c \<and> mc_asrt c \<le> mc_asrt d)"
  using latest_lemma [OF assms(1)] assms(2) by (auto simp: latest_key_def less_eq_prod_def invert_le)

section \<open>Resolution\<close>






lemma py_distinct_hd: "py_distinct (v # vs) = v # filter (\<lambda>w. \<not> py_eq v w) (py_distinct vs)"
  by simp












section \<open>Properties\<close>












text \<open>
  A tie break does not depend on the order in which the candidates were found: candidates with
  distinct assertion ids give the same decision in any order.
\<close>

theorem tie_break_order_independent:
  assumes "choose_with_tie_break cs mode conf = Inr c" "mset cs' = mset cs" "distinct (map mc_asrt cs)"
  shows "choose_with_tie_break cs' mode conf = Inr c"
  using assms by (rule order_lemma)

definition tied :: "string \<Rightarrow> mapping_candidate" where
  "tied a = \<lparr>mc_asrt = u a, mc_key = [], mc_value = [], mc_source = None, mc_ingested_at = 3\<rparr>"

lemma tied_choice: "choose_with_tie_break [tied ''a'', tied ''b''] MODE_LATEST [] = Inr (tied ''a'')"
  by code_simp

lemma tie_break_order_independent_witness:
  "choose_with_tie_break [tied ''b'', tied ''a''] MODE_LATEST [] = Inr (tied ''a'')"
  by (rule tie_break_order_independent [OF tied_choice]) (simp_all add: tied_def)

text \<open>
  C24: The tie break \<open>latest_by_ingested_at_then_min_assertion_id\<close> does what its name says for ids
  of one length: the decision is the candidate ingested last, and of those the one with the least
  assertion id.
\<close>

theorem latest_is_min_assertion:
  assumes "choose_with_tie_break cs MODE_LATEST conf = Inr c" "\<forall>d \<in> set cs. length (mc_asrt d) = n"
  shows "c \<in> set cs \<and> (\<forall>d \<in> set cs. mc_ingested_at d < mc_ingested_at c \<or>
    mc_ingested_at d = mc_ingested_at c \<and> mc_asrt c \<le> mc_asrt d)"
  using assms by (rule min_assertion_lemma)

lemma latest_is_min_assertion_witness: "mc_asrt (tied ''a'') \<le> mc_asrt (tied ''b'')"
  using latest_is_min_assertion [OF tied_choice, of 1] by (simp add: tied_def)

text \<open>
  For ids of different lengths it does not: of two candidates ingested at the same time whose ids
  are \<open>ab\<close> and its prefix \<open>a\<close>, the code picks \<open>ab\<close>, because \<open>max\<close> over the
  negated code points prefers the longer of two tuples with a common prefix.
\<close>

lemma prefix_id_loses:
  "choose_with_tie_break [tied ''a'', tied ''ab''] MODE_LATEST [] = Inr (tied ''ab'') \<and>
    mc_asrt (tied ''a'') < mc_asrt (tied ''ab'') \<and> mc_ingested_at (tied ''a'') = mc_ingested_at (tied ''ab'')"
  by code_simp

end
