(* ===== verification/Py_Json.thy ===== *)
theory Py_Json
  imports Py_Dict "HOL-Library.Multiset"
begin

text \<open>
  \<open>json.dumps(v, sort_keys=True, separators=(",", ":"), ensure_ascii=False)\<close>.  The text of a
  float and the coercion of keys that are not strings are not modelled.
\<close>

definition json_point :: "nat \<Rightarrow> ustr" where
  "json_point c =
     (if c = 34 then [92, 34] else if c = 92 then [92, 92]
      else if c = 8 then [92, 98] else if c = 12 then [92, 102]
      else if c = 10 then [92, 110] else if c = 13 then [92, 114] else if c = 9 then [92, 116]
      else if c < 32 then [92, 117] @ hex_text 4 c else [c])"

definition json_string :: "ustr \<Rightarrow> ustr" where
  "json_string s = [34] @ concat (map json_point s) @ [34]"

fun joined :: "ustr list \<Rightarrow> ustr" where
  "joined [] = []"
| "joined [t] = t"
| "joined (t # ts) = t @ [44] @ joined ts"

definition json_entry :: "ustr \<times> ustr \<Rightarrow> ustr" where
  "json_entry e = json_string (fst e) @ [58] @ snd e"

fun json_dumps :: "pyval \<Rightarrow> ustr res" where
  "json_dumps PNone = Ok (u ''null'')"
| "json_dumps (PBool b) = Ok (if b then u ''true'' else u ''false'')"
| "json_dumps (PInt i) = Ok (dec_int i)"
| "json_dumps (PStr s) = Ok (json_string s)"
| "json_dumps (PList vs) = bindE (mapE json_dumps vs) (\<lambda>ts. Ok ([91] @ joined ts @ [93]))"
| "json_dumps (PTuple vs) = bindE (mapE json_dumps vs) (\<lambda>ts. Ok ([91] @ joined ts @ [93]))"
| "json_dumps (PDict d) =
     bindE (mapE (\<lambda>(k, v). case k of
              PStr s \<Rightarrow> bindE (json_dumps v) (\<lambda>t. Ok (s, t)) | _ \<Rightarrow> Err NotModelled) d)
       (\<lambda>es. Ok ([123] @ joined (map json_entry (sort_key fst es)) @ [125]))"
| "json_dumps (PBytes _ _) = Err TypeError"
| "json_dumps (PFloat _) = Err NotModelled"

text \<open>The text as UTF-8; every failure is reported as \<open>e\<close>.\<close>

definition json_bytes :: "py_exc \<Rightarrow> pyval \<Rightarrow> bytes res" where
  "json_bytes e v = catchE (bindE (json_dumps v) utf8_encode) (\<lambda>x. x \<in> {TypeError, ValueError}) (\<lambda>_. Err e)"

text \<open>No floats in lists and objects, and only string keys.\<close>

fun reject_floats :: "py_exc \<Rightarrow> pyval \<Rightarrow> unit res" where
  "reject_floats e (PFloat _) = Err e"
| "reject_floats e (PDict d) =
     bindE (mapE (\<lambda>(k, v). case k of PStr _ \<Rightarrow> reject_floats e v | _ \<Rightarrow> Err e) d) (\<lambda>_. Ok ())"
| "reject_floats e (PList vs) = bindE (mapE (reject_floats e) vs) (\<lambda>_. Ok ())"
| "reject_floats e v = Ok ()"

section \<open>Objects up to the order of their entries\<close>

inductive json_same :: "pyval \<Rightarrow> pyval \<Rightarrow> bool" where
  leaf: "json_same v v"
| seq: "list_all2 json_same vs ws \<Longrightarrow> json_same (PList vs) (PList ws)"
| obj: "mset d = mset d' \<Longrightarrow> list_all2 (\<lambda>p q. fst p = fst q \<and> json_same (snd p) (snd q)) d' e \<Longrightarrow>
    json_same (PDict d) (PDict e)"

fun keys_distinct :: "pyval \<Rightarrow> bool" where
  "keys_distinct (PDict d) \<longleftrightarrow> distinct (map fst d) \<and> (\<forall>p \<in> set d. keys_distinct (snd p))"
| "keys_distinct (PList vs) \<longleftrightarrow> (\<forall>v \<in> set vs. keys_distinct v)"
| "keys_distinct _ \<longleftrightarrow> True"

lemma mapE_Inr_map: "mapE f xs = Inr ys \<longleftrightarrow> (\<forall>x \<in> set xs. \<not> isl (f x)) \<and> ys = map (\<lambda>x. projr (f x)) xs"
proof (induction xs arbitrary: ys)
  case (Cons x xs)
  then show ?case by (cases "f x") (auto simp: err_simps)
qed auto

lemma mapE_permuted:
  assumes "mapE f xs = Inr ys" "mset xs = mset xs'"
  shows "\<exists>ys'. mapE f xs' = Inr ys' \<and> mset ys' = mset ys"
  using assms mset_eq_setD [OF assms(2)] by (simp add: mapE_Inr_map)

lemma mapE_related:
  assumes "list_all2 R xs ws" "\<And>x w y. x \<in> set xs \<Longrightarrow> R x w \<Longrightarrow> f x = Inr y \<Longrightarrow> f w = Inr y" "mapE f xs = Inr ys"
  shows "mapE f ws = Inr ys"
  using assms
proof (induction xs ws arbitrary: ys rule: list_all2_induct)
  case (Cons x xs w ws)
  from Cons.prems(2) obtain y zs where y: "f x = Inr y" "mapE f xs = Inr zs" "ys = y # zs" by (auto simp: err_simps)
  have "mapE f ws = Inr zs" using Cons.prems(1) y(2) by (intro Cons.IH) auto
  moreover have "f w = Inr y" using Cons.prems(1) [of x w y] Cons.hyps(1) y(1) by simp
  ultimately show ?case by (simp add: y(3))
qed simp

definition json_field :: "pyval \<times> pyval \<Rightarrow> (ustr \<times> ustr) res" where
  "json_field = (\<lambda>(k, v). case k of PStr s \<Rightarrow> bindE (json_dumps v) (\<lambda>t. Ok (s, t)) | _ \<Rightarrow> Err NotModelled)"

lemma json_field_key: "json_field p = Inr e \<Longrightarrow> fst p = PStr (fst e)"
  by (auto simp: json_field_def err_simps split: prod.splits pyval.splits)

lemma json_dumps_obj: "json_dumps (PDict d) =
    bindE (mapE json_field d) (\<lambda>es. Inr ([123] @ joined (map json_entry (sort_key fst es)) @ [125]))"
  by (simp add: json_field_def)

text \<open>The text does not depend on the order of the entries.\<close>

lemma json_dumps_same:
  "json_same v w \<Longrightarrow> keys_distinct v \<Longrightarrow> json_dumps v = Inr t \<Longrightarrow> json_dumps w = Inr t"
proof (induction v w arbitrary: t rule: json_same.induct)
  case (seq vs ws)
  from seq.prems obtain ts where ts: "mapE json_dumps vs = Inr ts" "t = [91] @ joined ts @ [93]"
    by (auto simp: err_simps)
  have "mapE json_dumps ws = Inr ts"
  proof (rule mapE_related [OF _ _ ts(1)])
    show "list_all2 (\<lambda>v w. json_same v w \<and> (\<forall>t. keys_distinct v \<longrightarrow> json_dumps v = Inr t \<longrightarrow> json_dumps w = Inr t)) vs ws"
      using seq.IH by (rule list_all2_mono) blast
  next
    fix v w y assume "v \<in> set vs" "json_same v w \<and> (\<forall>t. keys_distinct v \<longrightarrow> json_dumps v = Inr t \<longrightarrow> json_dumps w = Inr t)"
      "json_dumps v = Inr y"
    then show "json_dumps w = Inr y" using seq.prems(1) by auto
  qed
  then show ?case by (simp add: ts(2))
next
  case (obj d d' e)
  from obj.prems(2) obtain es where es: "mapE json_field d = Inr es"
    and t: "t = [123] @ joined (map json_entry (sort_key fst es)) @ [125]"
    by (auto simp: json_dumps_obj err_simps simp del: json_dumps.simps)
  from mapE_permuted [OF es obj.hyps] obtain es' where es': "mapE json_field d' = Inr es'" "mset es' = mset es" by blast
  have "mapE json_field e = Inr es'"
  proof (rule mapE_related [OF _ _ es'(1)])
    show "list_all2 (\<lambda>p q. fst p = fst q \<and> json_same (snd p) (snd q) \<and>
        (\<forall>t. keys_distinct (snd p) \<longrightarrow> json_dumps (snd p) = Inr t \<longrightarrow> json_dumps (snd q) = Inr t)) d' e"
      using obj.IH by (rule list_all2_mono) blast
  next
    fix p q y assume p: "p \<in> set d'" and r: "fst p = fst q \<and> json_same (snd p) (snd q) \<and>
        (\<forall>t. keys_distinct (snd p) \<longrightarrow> json_dumps (snd p) = Inr t \<longrightarrow> json_dumps (snd q) = Inr t)" and y: "json_field p = Inr y"
    have "keys_distinct (snd p)" using p obj.prems(1) mset_eq_setD [OF obj.hyps] by auto
    with r y show "json_field q = Inr y"
      by (cases p; cases q) (auto simp: json_field_def err_simps split: pyval.splits)
  qed
  moreover have "map (\<lambda>p. PStr (fst p)) es = map fst d"
  proof -
    have "map fst d = map (\<lambda>e. PStr (fst e)) es"
      using es by (auto simp: mapE_Inr_iff list_all2_conv_all_nth list_eq_iff_nth_eq json_field_key)
    then show ?thesis by simp
  qed
  then have "distinct (map (PStr \<circ> fst) es)" using obj.prems(1) by (simp add: comp_def)
  then have "inj_on fst (set es)" by (auto simp: distinct_map inj_on_def)
  then have "sort_key fst es = sort_key fst es'" using es'(2) by (intro sort_key_eq_sort_key) simp_all
  ultimately show ?case by (simp add: json_dumps_obj t del: json_dumps.simps)
qed

section \<open>Documents that can be written\<close>

definition scalar :: "nat \<Rightarrow> bool" where
  "scalar c \<longleftrightarrow> c < 0x110000 \<and> \<not> surrogate c"

fun json_ok :: "pyval \<Rightarrow> bool" where
  "json_ok (PStr s) \<longleftrightarrow> (\<forall>c \<in> set s. scalar c)"
| "json_ok (PList vs) \<longleftrightarrow> (\<forall>v \<in> set vs. json_ok v)"
| "json_ok (PDict d) \<longleftrightarrow> (\<forall>p \<in> set d. (case fst p of PStr s \<Rightarrow> \<forall>c \<in> set s. scalar c | _ \<Rightarrow> False) \<and> json_ok (snd p))"
| "json_ok (PTuple _) = False"
| "json_ok (PBytes _ _) = False"
| "json_ok (PFloat _) = False"
| "json_ok _ = True"

lemma scalar_ascii: "c < 128 \<Longrightarrow> scalar c"
  by (simp add: scalar_def surrogate_def)

lemma scalar_u: "list_all (\<lambda>c. c < 128) (u s) \<Longrightarrow> c \<in> set (u s) \<Longrightarrow> scalar c"
  by (auto simp: list_all_iff intro: scalar_ascii)

lemma utf8_total: "(\<forall>c \<in> set s. scalar c) \<Longrightarrow> \<exists>b. utf8_encode s = Inr b"
proof -
  assume s: "\<forall>c \<in> set s. scalar c"
  have "\<exists>ps. mapE utf8_point s = Inr ps"
    using s by (induction s) (auto simp: utf8_point_def scalar_def)
  then show ?thesis by (auto simp: utf8_encode_def)
qed

lemma dec_int_scalar: "c \<in> set (dec_int i) \<Longrightarrow> scalar c"
proof -
  have "\<forall>c \<in> set (dec_nat n). scalar c" for n
    using dec_nat_digits [of n] by (fastforce simp: list_all_iff is_digit_def scalar_def surrogate_def)
  then show "c \<in> set (dec_int i) \<Longrightarrow> scalar c"
    by (auto simp: dec_int_def intro: scalar_ascii split: if_splits)
qed

lemma json_string_scalar:
  assumes "\<forall>c \<in> set s. scalar c" shows "\<forall>c \<in> set (json_string s). scalar c"
proof -
  have "\<forall>c \<in> set (hex_text 4 n). scalar c" for n
    using hex_text_is_hex [of 4 n] by (fastforce simp: list_all_iff is_hex_def scalar_def surrogate_def)
  then have "scalar c \<Longrightarrow> \<forall>x \<in> set (json_point c). scalar x" for c
    by (auto simp: json_point_def intro: scalar_ascii split: if_splits)
  then show ?thesis using assms by (auto simp: json_string_def intro: scalar_ascii)
qed

lemma joined_chars: "set (joined ts) \<subseteq> insert 44 (\<Union>t \<in> set ts. set t)"
  by (induction ts rule: joined.induct) auto

lemma json_dumps_total: "json_ok v \<Longrightarrow> \<exists>t. json_dumps v = Inr t \<and> (\<forall>c \<in> set t. scalar c)"
proof (induction v)
  case (PList vs)
  have "\<exists>ts. mapE json_dumps vs = Inr ts \<and> (\<forall>t \<in> set ts. \<forall>c \<in> set t. scalar c)"
    using PList by (induction vs) fastforce+
  then obtain ts where ts: "mapE json_dumps vs = Inr ts" "\<forall>t \<in> set ts. \<forall>c \<in> set t. scalar c" by blast
  then have "\<forall>c \<in> set (joined ts). scalar c" using joined_chars [of ts] scalar_ascii [of 44] by auto
  with ts show ?case by (auto intro: scalar_ascii)
next
  case (PDict d)
  have "\<exists>es. mapE json_field d = Inr es \<and> (\<forall>e \<in> set es. \<forall>c \<in> set (json_entry e). scalar c)"
    using PDict.prems PDict.IH(2)
  proof (induction d)
    case (Cons p d)
    obtain k v where kv: "p = (k, v)" by (cases p)
    obtain s where k: "k = PStr s" "\<forall>c \<in> set s. scalar c" using Cons.prems(1) by (cases k) (auto simp: kv)
    have "json_ok v" using Cons.prems(1) by (simp add: kv)
    then obtain t where t: "json_dumps v = Inr t" "\<forall>c \<in> set t. scalar c"
      using Cons.prems(2) [of p v] by (auto simp: kv)
    note p = k t
    then have "json_field p = Inr (s, t)" by (simp add: json_field_def kv)
    moreover have "\<forall>c \<in> set (json_entry (s, t)). scalar c"
      using p json_string_scalar [of s] by (auto simp: json_entry_def intro: scalar_ascii)
    moreover have "\<exists>es. mapE json_field d = Inr es \<and> (\<forall>e \<in> set es. \<forall>c \<in> set (json_entry e). scalar c)"
    proof (rule Cons.IH)
      show "json_ok (PDict d)" using Cons.prems(1) by simp
    qed (use Cons.prems(2) in \<open>meson list.set_intros(2)\<close>)
    ultimately show ?case by auto
  qed simp
  then obtain es where es: "mapE json_field d = Inr es" "\<forall>e \<in> set es. \<forall>c \<in> set (json_entry e). scalar c" by blast
  then have "\<forall>c \<in> set (joined (map json_entry (sort_key fst es))). scalar c"
    using joined_chars [of "map json_entry (sort_key fst es)"] scalar_ascii [of 44] by auto
  with es(1) show ?case by (auto simp: json_dumps_obj simp del: json_dumps.simps intro: scalar_ascii)
next
  case (PInt i)
  show ?case by (auto intro: dec_int_scalar)
next
  case (PStr s)
  then show ?case using json_string_scalar [of s] by simp
qed (auto simp: u_def intro: scalar_ascii)

lemma json_ok_no_floats: "json_ok v \<Longrightarrow> reject_floats e v = Inr ()"
proof (induction v)
  case (PList vs)
  then have "\<exists>us. mapE (reject_floats e) vs = Inr us" by (induction vs) auto
  then show ?case by auto
next
  case (PDict d)
  have "\<forall>p \<in> set d. \<not> isl (case p of (k, v) \<Rightarrow> case k of PStr _ \<Rightarrow> reject_floats e v | _ \<Rightarrow> Inl e)"
  proof
    fix p assume p: "p \<in> set d"
    obtain k v where kv: "p = (k, v)" by (cases p)
    have kv': "(case k of PStr s \<Rightarrow> \<forall>c \<in> set s. scalar c | _ \<Rightarrow> False) \<and> json_ok v" using PDict.prems p kv by auto
    then have "json_ok v" "\<exists>s. k = PStr s" by (auto split: pyval.splits)
    moreover have "v \<in> Basic_BNFs.snds p" by (simp add: kv)
    ultimately have "reject_floats e v = Inr ()" using PDict.IH(2) [OF p] by blast
    with \<open>\<exists>s. k = PStr s\<close> show "\<not> isl (case p of (k, v) \<Rightarrow> case k of PStr _ \<Rightarrow> reject_floats e v | _ \<Rightarrow> Inl e)"
      by (auto simp: kv)
  qed
  then have "\<exists>us. mapE (\<lambda>(k, v). case k of PStr _ \<Rightarrow> reject_floats e v | _ \<Rightarrow> Inl e) d = Inr us"
    unfolding mapE_Inr_map by blast
  then show ?case by auto
qed auto

lemma json_bytes_total: "json_ok v \<Longrightarrow> \<exists>b. json_bytes e v = Inr b"
  using json_dumps_total [of v] utf8_total by (fastforce simp: json_bytes_def)

end
