(* ===== verification/Meta_Policy.thy ===== *)
theory Meta_Policy
  imports Py_Dict
begin

text \<open>
  The policies a schema declares for its metadata keys, from \<^verbatim>\<open>core/schema/meta_policy.py\<close>: a typed
  record of five attributes, its canonical form (only the attributes that differ from the
  defaults), and the checks of the authoring and the canonical declarations.
\<close>

section \<open>Policies\<close>

record meta_key_policy =
  mk_reader_class :: ustr
  mk_premise_eligible :: bool
  mk_load_policy :: ustr
  mk_storage_scope :: ustr
  mk_query_indexed :: bool

definition DEFAULT_POLICY :: meta_key_policy where
  "DEFAULT_POLICY = \<lparr>mk_reader_class = u ''runtime'', mk_premise_eligible = False, mk_load_policy = u ''eager'',
     mk_storage_scope = u ''claim'', mk_query_indexed = False\<rparr>"

definition SYSTEM_MANAGED_META_KEYS :: "ustr list" where
  "SYSTEM_MANAGED_META_KEYS = [u ''ingested_at'', u ''ingest_key'', u ''revoked_asrt_id'']"

definition BUILTIN_PREMISE_ELIGIBLE_META_KEYS :: "ustr list" where
  "BUILTIN_PREMISE_ELIGIBLE_META_KEYS = [u ''provenance_class'', u ''origin_binding'']"

definition POLICY_ATTRIBUTES :: "ustr list" where
  "POLICY_ATTRIBUTES = [u ''reader_class'', u ''premise_eligible'', u ''load_policy'', u ''storage_scope'', u ''query_indexed'']"

definition READER_CLASSES :: "ustr list" where "READER_CLASSES = [u ''ledger'', u ''runtime'', u ''audit'']"
definition LOAD_POLICIES :: "ustr list" where "LOAD_POLICIES = [u ''eager'', u ''lazy'']"
definition STORAGE_SCOPES :: "ustr list" where "STORAGE_SCOPES = [u ''claim'', u ''tx_liftable'']"

definition RESERVED_META_KEY_PREFIXES :: "ustr list" where
  "RESERVED_META_KEY_PREFIXES = [u ''__system__.'', u ''__factgraph_annotation_v1__:'']"

definition RESERVED_META_KEYS :: "ustr list" where
  "RESERVED_META_KEYS = SYSTEM_MANAGED_META_KEYS @ [u ''assertion_digest'', u ''schema_digest'', u ''tx_id'']"

definition validate_meta_key :: "pyval \<Rightarrow> ustr res" where
  "validate_meta_key v =
     bindE (as_name MetaKeyPolicyError v) (\<lambda>s.
       if s \<in> set RESERVED_META_KEYS \<or> list_ex (starts_with s) RESERVED_META_KEY_PREFIXES
       then Err MetaKeyPolicyError else Ok s)"

definition one_of :: "ustr list \<Rightarrow> pyval \<Rightarrow> ustr res" where
  "one_of names v = bindE (as_str MetaKeyPolicyError v) (\<lambda>s. if s \<in> set names then Ok s else Err MetaKeyPolicyError)"

definition as_bool :: "pyval \<Rightarrow> bool res" where
  "as_bool v = (case v of PBool b \<Rightarrow> Ok b | _ \<Rightarrow> Err MetaKeyPolicyError)"

text \<open>\<open>_validate_policy_values\<close>, returning the values it has read.\<close>

definition validate_policy_values :: "(pyval \<times> pyval) list \<Rightarrow> meta_key_policy res" where
  "validate_policy_values attrs =
     bindE (one_of READER_CLASSES (dict_field_or attrs ''reader_class'' (PStr (mk_reader_class DEFAULT_POLICY)))) (\<lambda>reader_class.
     bindE (as_bool (dict_field_or attrs ''premise_eligible'' (PBool (mk_premise_eligible DEFAULT_POLICY)))) (\<lambda>premise_eligible.
     bindE (one_of LOAD_POLICIES (dict_field_or attrs ''load_policy'' (PStr (mk_load_policy DEFAULT_POLICY)))) (\<lambda>load_policy.
     bindE (one_of STORAGE_SCOPES (dict_field_or attrs ''storage_scope'' (PStr (mk_storage_scope DEFAULT_POLICY)))) (\<lambda>storage_scope.
     bindE (as_bool (dict_field_or attrs ''query_indexed'' (PBool (mk_query_indexed DEFAULT_POLICY)))) (\<lambda>query_indexed.
       Ok \<lparr>mk_reader_class = reader_class, mk_premise_eligible = premise_eligible, mk_load_policy = load_policy,
           mk_storage_scope = storage_scope, mk_query_indexed = query_indexed\<rparr>)))))"

text \<open>What \<open>MetaKeyPolicy.__post_init__\<close> accepts.\<close>

definition policy_ok :: "meta_key_policy \<Rightarrow> bool" where
  "policy_ok p \<longleftrightarrow> mk_reader_class p \<in> set READER_CLASSES \<and> mk_load_policy p \<in> set LOAD_POLICIES \<and>
     mk_storage_scope p \<in> set STORAGE_SCOPES"

definition attr :: "string \<Rightarrow> pyval \<Rightarrow> pyval \<Rightarrow> (pyval \<times> pyval) list" where
  "attr name v default_value = (if v \<noteq> default_value then [(PStr (u name), v)] else [])"

definition canonical_attributes :: "meta_key_policy \<Rightarrow> (pyval \<times> pyval) list" where
  "canonical_attributes p =
     attr ''reader_class'' (PStr (mk_reader_class p)) (PStr (mk_reader_class DEFAULT_POLICY)) @
     attr ''premise_eligible'' (PBool (mk_premise_eligible p)) (PBool (mk_premise_eligible DEFAULT_POLICY)) @
     attr ''load_policy'' (PStr (mk_load_policy p)) (PStr (mk_load_policy DEFAULT_POLICY)) @
     attr ''storage_scope'' (PStr (mk_storage_scope p)) (PStr (mk_storage_scope DEFAULT_POLICY)) @
     attr ''query_indexed'' (PBool (mk_query_indexed p)) (PBool (mk_query_indexed DEFAULT_POLICY))"

text \<open>\<open>sorted(...)\<close> of the offending keys, for the message, itself raises on keys of several types.\<close>

definition unknown_keys_error :: "py_exc \<Rightarrow> pyval list \<Rightarrow> py_exc" where
  "unknown_keys_error e ks =
     (if length ks = 1 \<or> list_all (\<lambda>k. case k of PStr _ \<Rightarrow> True | _ \<Rightarrow> False) ks then e else NotModelled)"

definition policy_from_mapping :: "pyval \<Rightarrow> meta_key_policy res" where
  "policy_from_mapping v =
     bindE (as_dict MetaKeyPolicyError v) (\<lambda>attrs.
       let unknown = filter (\<lambda>k. k \<notin> PStr ` set POLICY_ATTRIBUTES) (map fst attrs)
       in if unknown \<noteq> [] then Err (unknown_keys_error MetaKeyPolicyError unknown)
          else validate_policy_values attrs)"

section \<open>Declarations\<close>

definition normalize_authoring_meta_keys :: "pyval \<Rightarrow> (pyval \<times> pyval) list option res" where
  "normalize_authoring_meta_keys v =
     bindE (as_dict MetaKeyPolicyError v) (\<lambda>d.
       if d = [] then Ok None
       else
         bindE (mapE (\<lambda>(key, w). bindE (validate_meta_key key) (\<lambda>s. Ok (s, w))) d) (\<lambda>named.
         bindE (mapE (\<lambda>(s, w). bindE (policy_from_mapping w) (\<lambda>policy.
                  Ok (PStr s, PDict (canonical_attributes policy)))) (sort_key fst named)) (\<lambda>out.
           Ok (Some out))))"

definition validate_canonical_meta_keys :: "pyval \<Rightarrow> unit res" where
  "validate_canonical_meta_keys v =
     bindE (as_dict MetaKeyPolicyError v) (\<lambda>d.
       if d = [] then Err MetaKeyPolicyError
       else
         bindE (normalize_authoring_meta_keys v) (\<lambda>normalized.
           foldE (\<lambda>_ (key, canonical).
             (case map_of d key of
                Some supplied \<Rightarrow> if py_eq supplied canonical then Ok () else Err MetaKeyPolicyError
              | None \<Rightarrow> Err KeyError)) () (case normalized of None \<Rightarrow> [] | Some out \<Rightarrow> out)))"

definition typed_meta_keys_to_authoring ::
  "(pyval \<times> meta_key_policy) list option \<Rightarrow> (pyval \<times> pyval) list option res" where
  "typed_meta_keys_to_authoring v = (case v of
      None \<Rightarrow> Ok None
    | Some policies \<Rightarrow>
        normalize_authoring_meta_keys (PDict (map (\<lambda>(key, p). (key, PDict (canonical_attributes p))) policies)))"

section \<open>Queries\<close>

definition declared_meta_key_policy :: "(pyval \<times> pyval) list \<Rightarrow> ustr \<Rightarrow> meta_key_policy option res" where
  "declared_meta_key_policy schema_ir key =
     (case (case dict_field_or schema_ir ''meta_keys'' (PDict []) of PDict d \<Rightarrow> map_of d (PStr key) | _ \<Rightarrow> None) of
        Some v \<Rightarrow> bindE (policy_from_mapping v) (\<lambda>p. Ok (Some p))
      | None \<Rightarrow> Ok (if key \<in> set BUILTIN_PREMISE_ELIGIBLE_META_KEYS
                    then Some (DEFAULT_POLICY\<lparr>mk_premise_eligible := True\<rparr>) else None))"

definition require_premise_eligible_meta_key :: "(pyval \<times> pyval) list \<Rightarrow> ustr \<Rightarrow> unit res" where
  "require_premise_eligible_meta_key schema_ir key =
     bindE (declared_meta_key_policy schema_ir key) (\<lambda>policy.
       (case policy of
          Some p \<Rightarrow> if mk_premise_eligible p then Ok () else Err MetaKeyPolicyError
        | None \<Rightarrow> Err MetaKeyPolicyError))"

definition require_tx_liftable_meta_key :: "(pyval \<times> pyval) list \<Rightarrow> ustr \<Rightarrow> unit res" where
  "require_tx_liftable_meta_key schema_ir key =
     bindE (declared_meta_key_policy schema_ir key) (\<lambda>policy.
       (case policy of
          Some p \<Rightarrow> if mk_storage_scope p = u ''tx_liftable'' then Ok () else Err MetaKeyPolicyError
        | None \<Rightarrow> Err MetaKeyPolicyError))"

definition lazy_meta_keys :: "(pyval \<times> pyval) list \<Rightarrow> pyval list res" where
  "lazy_meta_keys schema_ir =
     bindE (as_dict MetaKeyPolicyError (dict_field_or schema_ir ''meta_keys'' (PDict []))) (\<lambda>declarations.
     bindE (mapE (\<lambda>(key, v). bindE (policy_from_mapping v) (\<lambda>p. Ok (key, mk_load_policy p))) declarations) (\<lambda>loads.
       Ok (map fst (filter (\<lambda>(_, load). load = u ''lazy'') loads))))"

section \<open>The canonical form\<close>

lemma attr_field:
  "dict_field_or (attr n v w @ d) k x = (if k = n then if v \<noteq> w then v else dict_field_or d k x else dict_field_or d k x)"
  by (auto simp: attr_def dict_field_or_def)

lemma attr_field_last: "dict_field_or (attr n v w) k x = (if k = n \<and> v \<noteq> w then v else x)"
  by (auto simp: attr_def dict_field_or_def)

lemma attr_keys: "set (map fst (attr n v w)) \<subseteq> {PStr (u n)}"
  by (auto simp: attr_def)

lemma canonical_keys: "set (map fst (canonical_attributes p)) \<subseteq> PStr ` set POLICY_ATTRIBUTES"
  unfolding canonical_attributes_def POLICY_ATTRIBUTES_def
  using attr_keys by (auto simp: subset_iff image_iff)

lemma canonical_fields:
  "dict_field_or (canonical_attributes p) ''reader_class'' (PStr (mk_reader_class DEFAULT_POLICY)) = PStr (mk_reader_class p)"
  "dict_field_or (canonical_attributes p) ''premise_eligible'' (PBool (mk_premise_eligible DEFAULT_POLICY)) =
     PBool (mk_premise_eligible p)"
  "dict_field_or (canonical_attributes p) ''load_policy'' (PStr (mk_load_policy DEFAULT_POLICY)) = PStr (mk_load_policy p)"
  "dict_field_or (canonical_attributes p) ''storage_scope'' (PStr (mk_storage_scope DEFAULT_POLICY)) = PStr (mk_storage_scope p)"
  "dict_field_or (canonical_attributes p) ''query_indexed'' (PBool (mk_query_indexed DEFAULT_POLICY)) =
     PBool (mk_query_indexed p)"
  unfolding canonical_attributes_def by (simp_all add: attr_field attr_field_last)

lemma canonical_from_mapping:
  assumes "policy_ok p"
  shows "policy_from_mapping (PDict (canonical_attributes p)) = Inr p"
proof -
  have "filter (\<lambda>k. k \<notin> PStr ` set POLICY_ATTRIBUTES) (map fst (canonical_attributes p)) = []"
    using canonical_keys [of p] by (auto simp: filter_empty_conv)
  moreover have "validate_policy_values (canonical_attributes p) = Inr p"
    using assms
    by (simp add: validate_policy_values_def canonical_fields one_of_def as_bool_def as_str_def policy_ok_def)
  ultimately show ?thesis by (simp add: policy_from_mapping_def as_dict_def Let_def)
qed

lemma from_mapping_ok: "policy_from_mapping v = Inr p \<Longrightarrow> policy_ok p"
  by (auto simp: policy_from_mapping_def validate_policy_values_def one_of_def policy_ok_def err_simps Let_def
      split: if_splits)

end
