(* ===== verification/Schema_IR.thy ===== *)
theory Schema_IR
  imports Py_Json Meta_Policy Id_Ref Policy
begin

text \<open>
  The schema and policy documents, from \<^verbatim>\<open>core/schema/schema_ir.py\<close> and \<^verbatim>\<open>core/policy/policy_ir.py\<close>:
  validation, canonical JSON, and the digests.  \<open>sha\<close> is SHA-256; reading the document from
  a file is left out.
\<close>

abbreviation schema_error :: "'a res" where "schema_error \<equiv> Err SchemaIRValidationError"

section \<open>Validation\<close>

definition CANONICAL_TAGS :: "ustr list" where
  "CANONICAL_TAGS = [u ''entity_ref'', u ''string'', u ''int'', u ''float64'', u ''bool'', u ''bytes'', u ''time'', u ''uuid'']"

definition REQUIRED_TOP_LEVEL_KEYS :: "ustr list" where
  "REQUIRED_TOP_LEVEL_KEYS = [u ''schema_ir_version'', u ''entities'', u ''predicates'', u ''projection'',
     u ''protocol_version'', u ''generated_at'']"

definition OPTIONAL_TOP_LEVEL_KEYS :: "ustr list" where "OPTIONAL_TOP_LEVEL_KEYS = [u ''meta_keys'']"

definition REQUIRED_PROTOCOL_KEYS :: "string list" where
  "REQUIRED_PROTOCOL_KEYS = [''idref_v1'', ''tup_v1'', ''export_v1'']"

definition SCHEMA_IDENTITY_EXCLUDED_TOP_LEVEL_KEYS :: "pyval list" where
  "SCHEMA_IDENTITY_EXCLUDED_TOP_LEVEL_KEYS = [PStr (u ''generated_at'')]"

definition validate_top_level :: "(pyval \<times> pyval) list \<Rightarrow> unit res" where
  "validate_top_level schema_ir =
     (let keys = map fst schema_ir;
          extra = filter (\<lambda>k. k \<notin> PStr ` set (REQUIRED_TOP_LEVEL_KEYS @ OPTIONAL_TOP_LEVEL_KEYS)) keys
      in if \<not> list_all (\<lambda>k. PStr k \<in> set keys) REQUIRED_TOP_LEVEL_KEYS then schema_error
         else if extra \<noteq> [] then Err (unknown_keys_error SchemaIRValidationError extra)
         else bindE (as_name SchemaIRValidationError (dict_field schema_ir ''schema_ir_version'')) (\<lambda>_.
              bindE (as_name SchemaIRValidationError (dict_field schema_ir ''generated_at'')) (\<lambda>_. Ok ())))"

definition validate_protocol_version :: "pyval \<Rightarrow> unit res" where
  "validate_protocol_version protocol_version =
     bindE (as_dict SchemaIRValidationError protocol_version) (\<lambda>p.
       foldE (\<lambda>_ key.
         if \<not> has_field p key then schema_error
         else bindE (as_name SchemaIRValidationError (dict_field p key)) (\<lambda>_. Ok ())) () REQUIRED_PROTOCOL_KEYS)"

definition validate_optional_repr :: "(pyval \<times> pyval) list \<Rightarrow> unit res" where
  "validate_optional_repr row =
     (if \<not> has_field row ''repr'' then Ok ()
      else bindE (as_name SchemaIRValidationError (dict_field row ''repr'')) (\<lambda>_. Ok ()))"

text \<open>\<open>domain not in CANONICAL_TAGS\<close> hashes the domain.\<close>

definition validate_type_domain :: "pyval \<Rightarrow> unit res" where
  "validate_type_domain domain =
     (if \<not> hashable domain then Err TypeError
      else if domain \<in> PStr ` set CANONICAL_TAGS then Ok () else schema_error)"

definition validate_identity_field :: "pyval \<Rightarrow> unit res" where
  "validate_identity_field identity_field =
     bindE (as_dict SchemaIRValidationError identity_field) (\<lambda>f.
     bindE (as_name SchemaIRValidationError (dict_field f ''name'')) (\<lambda>_.
     bindE (validate_optional_repr f) (\<lambda>_.
       validate_type_domain (dict_field f ''type_domain''))))"

definition validate_entity :: "pyval \<Rightarrow> unit res" where
  "validate_entity entity =
     bindE (as_dict SchemaIRValidationError entity) (\<lambda>e.
     bindE (as_name SchemaIRValidationError (dict_field e ''entity_type'')) (\<lambda>_.
     bindE (validate_optional_repr e) (\<lambda>_.
     bindE (as_list SchemaIRValidationError (dict_field e ''identity_fields'')) (\<lambda>identity_fields.
       foldE (\<lambda>_. validate_identity_field) () identity_fields))))"

definition validate_entities :: "pyval \<Rightarrow> unit res" where
  "validate_entities entities =
     bindE (as_list SchemaIRValidationError entities) (\<lambda>es. foldE (\<lambda>_. validate_entity) () es)"

definition validate_arg_spec :: "pyval \<Rightarrow> unit res" where
  "validate_arg_spec arg_spec =
     bindE (as_dict SchemaIRValidationError arg_spec) (\<lambda>a.
     bindE (as_name SchemaIRValidationError (dict_field a ''name'')) (\<lambda>_.
       validate_type_domain (dict_field a ''type_domain'')))"

fun validate_group_key_indexes :: "pyval list \<Rightarrow> nat \<Rightarrow> int \<Rightarrow> unit res" where
  "validate_group_key_indexes [] arg_count prev = Ok ()"
| "validate_group_key_indexes (PInt raw_idx # rest) arg_count prev =
     (if raw_idx < 0 then schema_error
      else if int arg_count \<le> raw_idx then schema_error
      else if raw_idx \<le> prev then schema_error
      else validate_group_key_indexes rest arg_count raw_idx)"
| "validate_group_key_indexes (_ # rest) arg_count prev = schema_error"

definition validate_predicate :: "pyval \<Rightarrow> unit res" where
  "validate_predicate predicate =
     bindE (as_dict SchemaIRValidationError predicate) (\<lambda>p.
     bindE (as_name SchemaIRValidationError (dict_field p ''pred_id'')) (\<lambda>_.
     bindE (validate_optional_repr p) (\<lambda>_.
     bindE (as_list SchemaIRValidationError (dict_field p ''arg_specs'')) (\<lambda>arg_specs.
       if arg_specs = [] then schema_error else
     bindE (foldE (\<lambda>_. validate_arg_spec) () arg_specs) (\<lambda>_.
     bindE (as_list SchemaIRValidationError (dict_field p ''group_key_indexes'')) (\<lambda>group_key_indexes.
       validate_group_key_indexes group_key_indexes (length arg_specs) (- 1)))))))"

definition validate_predicates :: "pyval \<Rightarrow> unit res" where
  "validate_predicates predicates =
     bindE (as_list SchemaIRValidationError predicates) (\<lambda>ps. foldE (\<lambda>_. validate_predicate) () ps)"

definition validate_projection :: "pyval \<Rightarrow> unit res" where
  "validate_projection projection =
     bindE (as_dict SchemaIRValidationError projection) (\<lambda>p.
       foldE (\<lambda>_ key.
         if \<not> has_field p key then schema_error
         else bindE (as_list SchemaIRValidationError (dict_field p key)) (\<lambda>_. Ok ())) () [''entities'', ''predicates''])"

definition ensure_schema_ir :: "pyval \<Rightarrow> (pyval \<times> pyval) list res" where
  "ensure_schema_ir schema_ir =
     bindE (as_dict SchemaIRValidationError schema_ir) (\<lambda>s.
     bindE (validate_top_level s) (\<lambda>_.
     bindE (validate_protocol_version (dict_field s ''protocol_version'')) (\<lambda>_.
     bindE (validate_entities (dict_field s ''entities'')) (\<lambda>_.
     bindE (validate_predicates (dict_field s ''predicates'')) (\<lambda>_.
     bindE (validate_projection (dict_field s ''projection'')) (\<lambda>_.
     bindE (if has_field s ''meta_keys''
            then catchE (validate_canonical_meta_keys (dict_field s ''meta_keys''))
                   (\<lambda>e. e = MetaKeyPolicyError) (\<lambda>_. schema_error)
            else Ok ()) (\<lambda>_. Ok s)))))))"

section \<open>Canonical forms\<close>

definition canonicalize_schema_ir_jcs :: "pyval \<Rightarrow> bytes res" where
  "canonicalize_schema_ir_jcs schema_ir =
     bindE (ensure_schema_ir schema_ir) (\<lambda>validated.
     bindE (reject_floats SchemaIRValidationError (PDict validated)) (\<lambda>_.
       json_bytes SchemaIRValidationError (PDict validated)))"

fun schema_identity_view :: "bool \<Rightarrow> pyval \<Rightarrow> pyval" where
  "schema_identity_view strip (PDict d) =
     PDict (map (\<lambda>(key, child). (key, schema_identity_view (strip \<and> key \<noteq> PStr (u ''meta_keys'')) child))
       (filter (\<lambda>(key, _). \<not> strip \<or>
          key \<notin> set SCHEMA_IDENTITY_EXCLUDED_TOP_LEVEL_KEYS \<and> key \<noteq> PStr (u ''repr'')) d))"
| "schema_identity_view strip (PList vs) = PList (map (schema_identity_view strip) vs)"
| "schema_identity_view strip v = v"

definition canonicalize_schema_ir_identity_jcs :: "pyval \<Rightarrow> bytes res" where
  "canonicalize_schema_ir_identity_jcs schema_ir =
     bindE (ensure_schema_ir schema_ir) (\<lambda>validated.
     let identity = schema_identity_view True (PDict validated) in
     bindE (reject_floats SchemaIRValidationError identity) (\<lambda>_. json_bytes SchemaIRValidationError identity))"

definition schema_digest :: "(bytes \<Rightarrow> bytes) \<Rightarrow> pyval \<Rightarrow> ustr res" where
  "schema_digest sha schema_ir =
     bindE (canonicalize_schema_ir_identity_jcs schema_ir) (\<lambda>canonical. Ok (sha256_token sha canonical))"

section \<open>The policy document\<close>

text \<open>\<open>now\<close> is \<open>time.time_ns()\<close>.\<close>

definition policy_document :: "(pyval \<times> pyval) list \<Rightarrow> pyval \<Rightarrow> ustr \<Rightarrow> pyval" where
  "policy_document copied_protocol generated_at policy_mode = PDict
     [(PStr (u ''policy_ir_version''), PStr (u ''policy_ir_v1'')),
      (PStr (u ''protocol_version''), PDict ((PStr (u ''policy_v1''), PStr (u ''policy_v1'')) # copied_protocol)),
      (PStr (u ''generated_at''), generated_at),
      (PStr (u ''active''), PDict [(PStr (u ''model''), PStr (u ''revokes_only''))]),
      (PStr (u ''chosen''), PDict [(PStr (u ''strategy''), PStr (u ''latest_by_claim_seq'')),
                                  (PStr (u ''required_meta''), PList [])]),
      (PStr (u ''policy_mode''), PStr policy_mode)]"

definition is_int :: "pyval \<Rightarrow> bool" where
  "is_int v = (case v of PInt _ \<Rightarrow> True | PBool _ \<Rightarrow> True | _ \<Rightarrow> False)"

definition build_policy_ir_v1 :: "int \<Rightarrow> pyval \<Rightarrow> ustr \<Rightarrow> pyval \<Rightarrow> pyval res" where
  "build_policy_ir_v1 now schema_ir policy_mode generated_at =
     bindE (as_dict PolicyIRValidationError schema_ir) (\<lambda>s.
       if policy_mode \<noteq> u ''edb'' \<and> policy_mode \<noteq> u ''idb'' then Err PolicyIRValidationError else
     bindE (as_dict PolicyIRValidationError (dict_field s ''protocol_version'')) (\<lambda>schema_protocol.
     bindE (mapE (\<lambda>key. bindE (as_name PolicyIRValidationError (dict_field schema_protocol key)) (\<lambda>v.
              Ok (PStr (u key), PStr v))) REQUIRED_PROTOCOL_KEYS) (\<lambda>copied_protocol.
     let generated_at_value = (if generated_at = PNone then PInt now else generated_at) in
       if \<not> is_int generated_at_value then Err PolicyIRValidationError
       else Ok (policy_document copied_protocol generated_at_value policy_mode))))"

definition canonicalize_policy_ir_jcs :: "pyval \<Rightarrow> bytes res" where
  "canonicalize_policy_ir_jcs policy_ir =
     bindE (as_dict PolicyIRValidationError policy_ir) (\<lambda>_.
     bindE (reject_floats PolicyIRValidationError policy_ir) (\<lambda>_.
       json_bytes PolicyIRValidationError policy_ir))"

definition policy_digest :: "(bytes \<Rightarrow> bytes) \<Rightarrow> pyval \<Rightarrow> ustr res" where
  "policy_digest sha policy_ir =
     bindE (canonicalize_policy_ir_jcs policy_ir) (\<lambda>canonical. Ok (sha256_token sha canonical))"

end
