(* ===== verification/Schema_Contract.thy ===== *)
theory Schema_Contract
  imports Schema_IR
begin

text \<open>
  What validation and digests promise: a valid schema is readable by the policy that consumes it,
  the digest depends only on the schema's content, metadata policies have one canonical form.
\<close>

section \<open>Valid schemas\<close>

lemma group_key_indexes_agree:
  "validate_group_key_indexes vs n prev = Inr () \<Longrightarrow> \<exists>is. ascending_from e n prev vs = Inr is"
  by (induction vs n prev rule: validate_group_key_indexes.induct) (auto split: if_splits)

lemma validated_each: "foldE (\<lambda>_. f) () xs = Inr () \<Longrightarrow> x \<in> set xs \<Longrightarrow> f x = Inr ()"
  by (induction xs) (auto simp: err_simps)

lemma ensured_predicate:
  assumes "ensure_schema_ir (PDict s) = Inr d" "dict_field s ''predicates'' = PList ps" "v \<in> set ps"
  shows "validate_predicate v = Inr ()"
proof -
  have "foldE (\<lambda>_. validate_predicate) () ps = Inr ()"
    using assms(1,2) by (auto simp: ensure_schema_ir_def validate_predicates_def as_dict_def as_list_def err_simps)
  then show ?thesis using assms(3) by (rule validated_each)
qed

lemma schema_group_keys_lemma:
  assumes "ensure_schema_ir (PDict s) = Inr d" "dict_field s ''predicates'' = PList ps" "PDict p \<in> set ps"
    "dict_field p ''arg_specs'' = PList specs"
  shows "\<exists>is. read_group_key_indexes p (length specs) = Inr is \<and> sorted_wrt (<) is \<and> (\<forall>i \<in> set is. i < length specs)"
proof -
  from ensured_predicate [OF assms(1-3)] assms(4) obtain gs where
    gs: "dict_field p ''group_key_indexes'' = PList gs" "validate_group_key_indexes gs (length specs) (- 1) = Inr ()"
    by (auto simp: validate_predicate_def as_dict_def as_list_def err_simps split: if_splits pyval.splits)
  from group_key_indexes_agree [OF gs(2)] obtain "is" where
    "is": "ascending_from PolicyNonDeterminismError (length specs) (- 1) gs = Inr is" by blast
  from ascending_from_Ok [OF "is"] "is" gs(1) show ?thesis
    by (auto simp: read_group_key_indexes_def as_list_def)
qed

section \<open>Digests\<close>

lemma update_filter: "filter (\<lambda>(k, _). k \<noteq> x \<and> Q k) (AList.update x v d) = filter (\<lambda>(k, _). k \<noteq> x \<and> Q k) d"
  by (induction d) auto

lemma update_present: "k \<in> fst ` set d \<Longrightarrow> map fst (AList.update k v d) = map fst d"
  by (induction d) auto

lemma has_field_update: "has_field (AList.update (PStr (u k)) v d) k' = (k' = k \<or> has_field d k')"
  by (auto simp: has_field_def)

lemma dict_field_update: "dict_field (AList.update (PStr (u k)) v d) k' = (if k' = k then v else dict_field d k')"
  by (auto simp: dict_field_def dict_field_or_def)

lemma ensured_top: "ensure_schema_ir (PDict s) = Inr d \<Longrightarrow> d = s \<and> validate_top_level s = Inr ()"
  by (auto simp: ensure_schema_ir_def as_dict_def err_simps)

lemma ensure_generated_at:
  assumes "ensure_schema_ir (PDict s) = Inr d" "g \<noteq> []"
  shows "ensure_schema_ir (PDict (dict_set (PStr (u ''generated_at'')) (PStr g) s)) =
    Inr (dict_set (PStr (u ''generated_at'')) (PStr g) s)"
proof -
  from ensured_top [OF assms(1)] have d: "d = s" and v: "validate_top_level s = Inr ()" by blast+
  then have "PStr (u ''generated_at'') \<in> set (map fst s)"
    by (auto simp: validate_top_level_def REQUIRED_TOP_LEVEL_KEYS_def Let_def split: if_splits)
  then have keys: "map fst (AList.update (PStr (u ''generated_at'')) (PStr g) s) = map fst s"
    by (simp add: update_present)
  have "validate_top_level (AList.update (PStr (u ''generated_at'')) (PStr g) s) = Inr ()"
    using v assms(2) by (auto simp: validate_top_level_def keys dict_field_update as_name_def Let_def err_simps split: if_splits)
  then show ?thesis
    using assms(1) by (auto simp: ensure_schema_ir_def as_dict_def err_simps dict_field_update has_field_update d)
qed

lemma identity_view_generated_at:
  "schema_identity_view True (PDict (dict_set (PStr (u ''generated_at'')) w s)) = schema_identity_view True (PDict s)"
  using update_filter [of "PStr (u ''generated_at'')" "\<lambda>k. k \<noteq> PStr (u ''repr'')" w s]
  by (simp add: SCHEMA_IDENTITY_EXCLUDED_TOP_LEVEL_KEYS_def)

lemma digest_generated_at_lemma:
  assumes "schema_digest sha (PDict s) = Inr t" "g \<noteq> []"
  shows "schema_digest sha (PDict (dict_set (PStr (u ''generated_at'')) (PStr g) s)) = Inr t"
proof -
  from assms(1) obtain d where d: "ensure_schema_ir (PDict s) = Inr d"
    by (auto simp: schema_digest_def canonicalize_schema_ir_identity_jcs_def err_simps)
  moreover have "d = s" using ensured_top [OF d] by simp
  ultimately show ?thesis
    using assms ensure_generated_at [OF d assms(2)]
    by (simp add: schema_digest_def canonicalize_schema_ir_identity_jcs_def identity_view_generated_at
        del: schema_identity_view.simps)
qed

text \<open>Reordering entries carries over to the identity view and to the float check.\<close>

lemma list_all2_filter_fst:
  "list_all2 (\<lambda>p q. fst p = fst q \<and> R (snd p) (snd q)) xs ys \<Longrightarrow>
    list_all2 (\<lambda>p q. fst p = fst q \<and> R (snd p) (snd q)) (filter (\<lambda>(k, _). P k) xs) (filter (\<lambda>(k, _). P k) ys)"
  by (induction rule: list_all2_induct) auto

lemma view_same: "json_same v w \<Longrightarrow> json_same (schema_identity_view b v) (schema_identity_view b w)"
proof (induction v w arbitrary: b rule: json_same.induct)
  case (seq vs ws)
  then show ?case by (auto simp: list.rel_map intro!: json_same.seq elim!: list_all2_mono)
next
  case (obj d d' e)
  let ?P = "\<lambda>key. \<not> b \<or> key \<notin> set SCHEMA_IDENTITY_EXCLUDED_TOP_LEVEL_KEYS \<and> key \<noteq> PStr (u ''repr'')"
  let ?f = "\<lambda>(key, child). (key, schema_identity_view (b \<and> key \<noteq> PStr (u ''meta_keys'')) child)"
  have "list_all2 (\<lambda>p q. fst p = fst q \<and> (\<forall>b. json_same (schema_identity_view b (snd p)) (schema_identity_view b (snd q)))) d' e"
    using obj.IH by (rule list_all2_mono) blast
  from list_all2_filter_fst [OF this, of ?P]
  have "list_all2 (\<lambda>p q. fst p = fst q \<and> json_same (snd p) (snd q))
      (map ?f (filter (\<lambda>(k, _). ?P k) d')) (map ?f (filter (\<lambda>(k, _). ?P k) e))"
    by (auto simp: list.rel_map split_beta elim!: list_all2_mono)
  moreover have "mset (map ?f (filter (\<lambda>(k, _). ?P k) d)) = mset (map ?f (filter (\<lambda>(k, _). ?P k) d'))"
    using obj.hyps by simp
  ultimately show ?case
    unfolding schema_identity_view.simps by (rule json_same.obj [rotated])
qed (rule json_same.leaf)

lemma view_keys_distinct: "keys_distinct v \<Longrightarrow> keys_distinct (schema_identity_view b v)"
proof (induction b v rule: schema_identity_view.induct)
  case (1 strip d)
  let ?P = "\<lambda>(key, _ :: pyval). \<not> strip \<or> key \<notin> set SCHEMA_IDENTITY_EXCLUDED_TOP_LEVEL_KEYS \<and> key \<noteq> PStr (u ''repr'')"
  have "distinct (map fst (filter ?P d))" using "1.prems" by (simp add: distinct_map_filter)
  moreover have "keys_distinct (schema_identity_view (strip \<and> k \<noteq> PStr (u ''meta_keys'')) v)"
    if "(k, v) \<in> set (filter ?P d)" for k v
    using "1.IH" [OF that refl] "1.prems" that by force
  ultimately show ?case by (auto simp: comp_def split_beta)
qed auto

lemma floats_same: "json_same v w \<Longrightarrow> reject_floats e v = Inr () \<Longrightarrow> reject_floats e w = Inr ()"
proof (induction v w rule: json_same.induct)
  case (seq vs ws)
  from seq.prems obtain us where us: "mapE (reject_floats e) vs = Inr us" by (auto simp: err_simps)
  have "mapE (reject_floats e) ws = Inr us"
    by (rule mapE_related [OF seq.IH _ us]) auto
  then show ?case by simp
next
  case (obj d d' es)
  let ?f = "\<lambda>(k, v). case k of PStr _ \<Rightarrow> reject_floats e v | _ \<Rightarrow> Inl e"
  from obj.prems obtain us where us: "mapE ?f d = Inr us" by (auto simp: err_simps)
  from mapE_permuted [OF us obj.hyps] obtain us' where us': "mapE ?f d' = Inr us'" by blast
  have "mapE ?f es = Inr us'"
    by (rule mapE_related [OF obj.IH _ us']) (auto split: pyval.splits prod.splits)
  then show ?case by simp
qed

lemma bytes_same:
  assumes "json_same v w" "keys_distinct v" "json_bytes e v = Inr b"
  shows "json_bytes e w = Inr b"
proof -
  from assms(3) obtain t where t: "json_dumps v = Inr t" "utf8_encode t = Inr b"
    by (auto simp: json_bytes_def catchE_def bindE_def split: sum.splits if_splits)
  with json_dumps_same [OF assms(1,2) t(1)] show ?thesis by (simp add: json_bytes_def)
qed

lemma as_dict_Inr: "as_dict e v = Inr d \<longleftrightarrow> v = PDict d"
  by (cases v) (auto simp: as_dict_def)

lemma as_name_Inr: "as_name e v = Inr s \<longleftrightarrow> v = PStr s \<and> s \<noteq> []"
  by (cases v) (auto simp: as_name_def)

lemma digest_order_lemma:
  assumes "schema_digest sha s = Inr t" "json_same s s'" "keys_distinct s" "ensure_schema_ir s' = Inr d'"
  shows "schema_digest sha s' = Inr t"
proof -
  from assms(1,4) obtain d d'' where s: "s = PDict d" "s' = PDict d''" "ensure_schema_ir s = Inr d"
    by (auto simp: schema_digest_def canonicalize_schema_ir_identity_jcs_def ensure_schema_ir_def as_dict_Inr err_simps)
  have e: "d' = d''" using ensured_top assms(4) s(2) by blast
  let ?v = "schema_identity_view True (PDict d)" and ?w = "schema_identity_view True (PDict d'')"
  from assms(1) s obtain b where b: "reject_floats SchemaIRValidationError ?v = Inr ()"
    "json_bytes SchemaIRValidationError ?v = Inr b" "t = sha256_token sha b"
    by (auto simp: schema_digest_def canonicalize_schema_ir_identity_jcs_def err_simps Let_def
        simp del: schema_identity_view.simps)
  have same: "json_same ?v ?w" using view_same assms(2) s by blast
  have "json_bytes SchemaIRValidationError ?w = Inr b"
    using bytes_same [OF same view_keys_distinct b(2)] assms(3) s(1) by blast
  then show ?thesis
    using floats_same [OF same b(1)] assms(4) e
    by (simp add: schema_digest_def canonicalize_schema_ir_identity_jcs_def s(2) b(3) del: schema_identity_view.simps)
qed

lemma view_json_ok: "json_ok v \<Longrightarrow> json_ok (schema_identity_view b v)"
proof (induction b v rule: schema_identity_view.induct)
  case (1 strip d)
  let ?P = "\<lambda>(key, _ :: pyval). \<not> strip \<or> key \<notin> set SCHEMA_IDENTITY_EXCLUDED_TOP_LEVEL_KEYS \<and> key \<noteq> PStr (u ''repr'')"
  have "(case k of PStr s \<Rightarrow> \<forall>c \<in> set s. scalar c | _ \<Rightarrow> False) \<and>
      json_ok (schema_identity_view (strip \<and> k \<noteq> PStr (u ''meta_keys'')) v)"
    if kv: "(k, v) \<in> set (filter ?P d)" for k v
  proof -
    from kv "1.prems" have "(case k of PStr s \<Rightarrow> \<forall>c \<in> set s. scalar c | _ \<Rightarrow> False)" "json_ok v" by auto
    then show ?thesis using "1.IH" [OF kv refl] by blast
  qed
  then show ?case by auto
qed auto

lemma digest_total:
  assumes "ensure_schema_ir (PDict s) = Inr d" "json_ok (PDict s)"
  shows "\<exists>b. canonicalize_schema_ir_identity_jcs (PDict s) = Inr b \<and>
    json_bytes SchemaIRValidationError (schema_identity_view True (PDict s)) = Inr b"
proof -
  let ?v = "schema_identity_view True (PDict s)"
  have d: "d = s" using ensured_top [OF assms(1)] by blast
  have v: "json_ok ?v" using assms(2) by (rule view_json_ok)
  from json_bytes_total [OF v] obtain b where "json_bytes SchemaIRValidationError ?v = Inr b" by blast
  then show ?thesis
    using assms(1) json_ok_no_floats [OF v]
    by (simp add: canonicalize_schema_ir_identity_jcs_def d del: schema_identity_view.simps)
qed

section \<open>Metadata policies\<close>

definition checked_key :: "pyval \<times> pyval \<Rightarrow> (ustr \<times> pyval) res" where
  "checked_key = (\<lambda>(key, w). bindE (validate_meta_key key) (\<lambda>s. Ok (s, w)))"

definition canonical_entry :: "ustr \<times> pyval \<Rightarrow> (pyval \<times> pyval) res" where
  "canonical_entry = (\<lambda>(s, w). bindE (policy_from_mapping w) (\<lambda>policy. Ok (PStr s, PDict (canonical_attributes policy))))"

lemma normalize_eq: "normalize_authoring_meta_keys (PDict d) = (if d = [] then Inr None else
    bindE (mapE checked_key d) (\<lambda>named. bindE (mapE canonical_entry (sort_key fst named)) (\<lambda>out. Inr (Some out))))"
  by (simp add: normalize_authoring_meta_keys_def checked_key_def canonical_entry_def as_dict_def)

lemma validate_meta_key_Ok: "validate_meta_key k = Inr s \<Longrightarrow> k = PStr s"
  by (auto simp: validate_meta_key_def as_name_def err_simps split: pyval.splits if_splits)

lemma checked_key_Ok: "checked_key p = Inr q \<Longrightarrow> p = (PStr (fst q), snd q)"
  by (auto simp: checked_key_def err_simps dest!: validate_meta_key_Ok split: prod.splits)

lemma checked_key_value: "checked_key (k, v) = Inr (s, w) \<Longrightarrow> checked_key (k, v') = Inr (s, v')"
  by (auto simp: checked_key_def err_simps)

lemma attr_nan_free: "nan_free v \<Longrightarrow> list_all (\<lambda>(k, v). nan_free k \<and> nan_free v) (attr n v w)"
  by (simp add: attr_def)

lemma canonical_nan_free: "nan_free (PDict (canonical_attributes p))"
  by (simp add: canonical_attributes_def attr_nan_free)

lemma canonical_entry_Ok:
  assumes "canonical_entry p = Inr q"
  shows "fst q = PStr (fst p) \<and> canonical_entry (fst p, snd q) = Inr q \<and> nan_free (snd q)"
proof -
  obtain k w where p: "p = (k, w)" by (cases p)
  with assms obtain policy where "policy_from_mapping w = Inr policy" "q = (PStr k, PDict (canonical_attributes policy))"
    by (auto simp: canonical_entry_def err_simps)
  then show ?thesis
    using canonical_from_mapping [OF from_mapping_ok] by (simp add: p canonical_entry_def canonical_nan_free del: nan_free.simps)
qed

lemma sort_key_sorted: "sorted (map f xs) \<Longrightarrow> sort_key f xs = xs"
  by (rule properties_for_sort_key) simp_all

lemma mapE_nth: "mapE f xs = Inr ys \<longleftrightarrow> length xs = length ys \<and> (\<forall>i < length ys. f (xs ! i) = Inr (ys ! i))"
  by (simp add: mapE_Inr_iff list_all2_conv_all_nth) auto

lemma normalize_again:
  assumes "normalize_authoring_meta_keys (PDict d) = Inr (Some out)" "distinct (map fst d)"
  shows "normalize_authoring_meta_keys (PDict out) = Inr (Some out)"
    and "out \<noteq> []" and "distinct (map fst out)" and "\<And>k v. (k, v) \<in> set out \<Longrightarrow> nan_free v"
proof -
  from assms(1) obtain named where d: "d \<noteq> []" and named: "mapE checked_key d = Inr named"
    and out: "mapE canonical_entry (sort_key fst named) = Inr out"
    by (auto simp: normalize_eq err_simps split: if_splits)
  define S where "S = sort_key fst named"
  define T where "T = map (\<lambda>i. (fst (S ! i), snd (out ! i))) [0..<length out]"
  note out = out [folded S_def]
  have S: "sorted (map fst S)" "set S = set named" by (simp_all add: S_def)
  have "length d = length S" using named by (simp add: mapE_nth S_def)
  have "mset (map fst S) = mset (map fst named)" by (simp add: S_def)
  then have distinct_S: "distinct (map fst S) = distinct (map fst named)" by (rule mset_eq_imp_distinct_iff)
  have len: "length S = length out" and each: "\<And>i. i < length out \<Longrightarrow> canonical_entry (S ! i) = Inr (out ! i)"
    using out by (auto simp: mapE_nth)
  have keys: "map fst out = map (\<lambda>p. PStr (fst p)) S"
    using len each by (auto simp: list_eq_iff_nth_eq dest: canonical_entry_Ok)
  have dk: "map fst d = map (\<lambda>p. PStr (fst p)) named"
    using named by (auto simp: mapE_nth list_eq_iff_nth_eq dest!: checked_key_Ok)
  have dn: "distinct (map fst named)" using assms(2) by (simp add: dk distinct_map inj_on_def comp_def)
  then have "distinct (map fst S)" by (simp only: distinct_S)
  then show "distinct (map fst out)"
    unfolding keys by (auto simp: distinct_map inj_on_def)
  show ne: "out \<noteq> []" using d len \<open>length d = length S\<close> by auto
  show "nan_free v" if "(k, v) \<in> set out" for k v
  proof -
    from that obtain i where "i < length out" "out ! i = (k, v)" by (auto simp: in_set_conv_nth)
    then show ?thesis using each [of i] by (auto dest: canonical_entry_Ok)
  qed
  have checked: "checked_key (out ! i) = Inr (T ! i)" if i: "i < length out" for i
  proof -
    have "S ! i \<in> set named" using i len by (metis nth_mem S(2))
    then obtain j where j: "j < length named" "named ! j = S ! i" by (auto simp: in_set_conv_nth)
    then have "checked_key (d ! j) = Inr (S ! i)" using named by (auto simp: mapE_nth)
    from checked_key_value [of "fst (d ! j)" "snd (d ! j)" "fst (S ! i)" "snd (S ! i)"] this checked_key_Ok [OF this]
    have "checked_key (PStr (fst (S ! i)), snd (out ! i)) = Inr (fst (S ! i), snd (out ! i))" by simp
    moreover have "out ! i = (PStr (fst (S ! i)), snd (out ! i))"
      using each [OF i] canonical_entry_Ok by (metis prod.collapse)
    ultimately show ?thesis using i by (simp add: T_def)
  qed
  have "mapE checked_key out = Inr T" using checked by (simp add: mapE_nth T_def)
  moreover have "map fst T = map fst S" by (rule nth_equalityI) (simp_all add: T_def len)
  then have "sort_key fst T = T" using S(1) by (intro sort_key_sorted) simp
  moreover have "mapE canonical_entry T = Inr out"
    unfolding mapE_nth
  proof (intro conjI allI impI)
    fix i assume i: "i < length out"
    then have "T ! i = (fst (S ! i), snd (out ! i))" by (simp add: T_def)
    then show "canonical_entry (T ! i) = Inr (out ! i)"
      using canonical_entry_Ok [OF each [OF i]] by metis
  qed (simp add: T_def)
  ultimately have "bindE (mapE checked_key out) (\<lambda>named. mapE canonical_entry (sort_key fst named)) = Inr out"
    by (simp only: bindE_simps)
  then show "normalize_authoring_meta_keys (PDict out) = Inr (Some out)"
    using ne by (auto simp: normalize_eq err_simps)
qed

lemma canonical_lemma:
  assumes "normalize_authoring_meta_keys (PDict d) = Inr (Some out)" "distinct (map fst d)"
  shows "validate_canonical_meta_keys (PDict out) = Inr ()"
proof -
  note again = normalize_again [OF assms]
  have "foldE (\<lambda>_ (key, canonical). case map_of out key of
      Some supplied \<Rightarrow> if py_eq supplied canonical then Inr () else Inl MetaKeyPolicyError
    | None \<Rightarrow> Inl KeyError) () xs = Inr ()" if "set xs \<subseteq> set out" for xs
    using that
  proof (induction xs)
    case (Cons p xs)
    obtain k v where p: "p = (k, v)" by (cases p)
    then have "(k, v) \<in> set out" using Cons.prems by simp
    then have "map_of out k = Some v" "py_eq v v" using again(3,4) by (auto intro: py_eq_refl)
    then show ?case using Cons by (simp add: p)
  qed simp
  then show ?thesis using again(1,2) by (simp add: validate_canonical_meta_keys_def as_dict_def)
qed

section \<open>The policy document\<close>

lemma json_ok_field: "json_ok (PDict d) \<Longrightarrow> json_ok (dict_field d k)"
  by (force simp: dict_field_def dict_field_or_def split: option.splits dest: map_of_SomeD)

lemma policy_json_ok:
  assumes "build_policy_ir_v1 now s mode g = Inr p" "json_ok s"
  shows "json_ok p \<and> (\<exists>d. p = PDict d)"
proof -
  define gv where "gv = (if g = PNone then PInt now else g)"
  from assms(1) obtain d where s1: "s = PDict d" by (auto simp: build_policy_ir_v1_def as_dict_Inr bindE_Inr_iff)
  have mode: "mode = u ''edb'' \<or> mode = u ''idb''"
  proof (rule ccontr)
    assume "\<not> (mode = u ''edb'' \<or> mode = u ''idb'')"
    then have "build_policy_ir_v1 now s mode g = Inl PolicyIRValidationError"
      by (simp add: build_policy_ir_v1_def as_dict_def s1)
    with assms(1) show False by simp
  qed
  then have m: "(mode \<noteq> u ''edb'' \<and> mode \<noteq> u ''idb'') = False" by blast
  from assms(1) have b: "bindE (as_dict PolicyIRValidationError (dict_field d ''protocol_version'')) (\<lambda>schema_protocol.
      bindE (mapE (\<lambda>key. bindE (as_name PolicyIRValidationError (dict_field schema_protocol key)) (\<lambda>v.
              Ok (PStr (u key), PStr v))) REQUIRED_PROTOCOL_KEYS) (\<lambda>copied_protocol.
       if \<not> is_int gv then Err PolicyIRValidationError else Ok (policy_document copied_protocol gv mode))) = Inr p"
    by (simp only: build_policy_ir_v1_def s1 as_dict_def pyval.case bindE_simps Let_def gv_def [symmetric] m if_False)
  from b [THEN iffD1 [OF bindE_Inr_iff]] obtain pv where pv: "as_dict PolicyIRValidationError (dict_field d ''protocol_version'') = Inr pv"
    and b1: "bindE (mapE (\<lambda>key. bindE (as_name PolicyIRValidationError (dict_field pv key)) (\<lambda>v.
              Ok (PStr (u key), PStr v))) REQUIRED_PROTOCOL_KEYS) (\<lambda>copied_protocol.
       if \<not> is_int gv then Err PolicyIRValidationError else Ok (policy_document copied_protocol gv mode)) = Inr p"
    by (elim exE conjE)
  from b1 [THEN iffD1 [OF bindE_Inr_iff]] obtain cp where cp: "mapE (\<lambda>key. bindE (as_name PolicyIRValidationError (dict_field pv key)) (\<lambda>v.
              Ok (PStr (u key), PStr v))) REQUIRED_PROTOCOL_KEYS = Inr cp"
    and r: "(if \<not> is_int gv then Err PolicyIRValidationError else Ok (policy_document cp gv mode)) = Inr p"
    by (elim exE conjE)
  from r have gv: "is_int gv" and p: "p = policy_document cp gv mode" by (simp_all split: if_split_asm)
  have s: "s = PDict d" "dict_field d ''protocol_version'' = PDict pv" using pv by (simp_all add: as_dict_Inr s1)
  have "json_ok (PDict pv)" using json_ok_field [of d "''protocol_version''"] assms(2) by (simp only: s)
  then have fld: "as_name PolicyIRValidationError (dict_field pv k) = Inr v \<Longrightarrow> \<forall>c \<in> set v. scalar c" for k v
    using json_ok_field [of pv k] by (simp add: as_name_Inr del: json_ok.simps(3))
  have "(\<exists>k v. e = (PStr (u k), PStr v) \<and> k \<in> set REQUIRED_PROTOCOL_KEYS \<and> (\<forall>c \<in> set v. scalar c))" if "e \<in> set cp" for e
  proof -
    from cp that obtain k where "k \<in> set REQUIRED_PROTOCOL_KEYS" "bindE (as_name PolicyIRValidationError (dict_field pv k)) (\<lambda>v.
        Inr (PStr (u k), PStr v)) = Inr e"
      by (auto simp: mapE_nth in_set_conv_nth)
    with fld show ?thesis by (auto simp: err_simps)
  qed
  moreover have "\<forall>k \<in> set REQUIRED_PROTOCOL_KEYS. list_all (\<lambda>c. c < 128) (u k)"
    by (simp add: REQUIRED_PROTOCOL_KEYS_def u_def)
  ultimately have "\<forall>e \<in> set cp. (case fst e of PStr s \<Rightarrow> \<forall>c \<in> set s. scalar c | _ \<Rightarrow> False) \<and> json_ok (snd e)"
    by (fastforce dest: scalar_u)
  moreover have "list_all (\<lambda>c. c < 128) mode" using mode by (auto simp: u_def)
  then have "\<forall>c \<in> set mode. scalar c" by (auto simp: list_all_iff intro: scalar_ascii)
  moreover have "list_all (\<lambda>s. list_all (\<lambda>c. c < 128) (u s)) [''policy_ir_version'', ''policy_ir_v1'',
      ''protocol_version'', ''policy_v1'', ''generated_at'', ''active'', ''model'', ''revokes_only'', ''chosen'',
      ''strategy'', ''latest_by_claim_seq'', ''required_meta'', ''policy_mode'']"
    by code_simp
  ultimately show ?thesis using gv
    by (cases gv) (auto simp: p policy_document_def is_int_def dest: scalar_u)
qed

section \<open>Properties\<close>

abbreviation str :: "string \<Rightarrow> pyval" where "str s \<equiv> PStr (u s)"

definition sample_predicate :: "(pyval \<times> pyval) list" where
  "sample_predicate =
     [(str ''pred_id'', str ''p:x''),
      (str ''arg_specs'', PList [PDict [(str ''name'', str ''e''), (str ''type_domain'', str ''entity_ref'')],
                                 PDict [(str ''name'', str ''x''), (str ''type_domain'', str ''string'')]]),
      (str ''group_key_indexes'', PList [PInt 0]), (str ''repr'', str ''x of e'')]"

definition schema_with :: "pyval \<Rightarrow> pyval \<Rightarrow> (pyval \<times> pyval) list" where
  "schema_with entities projection =
     [(str ''schema_ir_version'', str ''1''), (str ''entities'', entities),
      (str ''predicates'', PList [PDict sample_predicate]), (str ''projection'', projection),
      (str ''protocol_version'', PDict [(str ''idref_v1'', str ''1''), (str ''tup_v1'', str ''1''), (str ''export_v1'', str ''1'')]),
      (str ''generated_at'', str ''monday'')]"

definition sample_entities :: pyval where
  "sample_entities = PList [PDict [(str ''entity_type'', str ''E''), (str ''identity_fields'',
     PList [PDict [(str ''name'', str ''x''), (str ''type_domain'', str ''string'')]])]]"

definition sample_projection :: pyval where
  "sample_projection = PDict [(str ''entities'', PList []), (str ''predicates'', PList [])]"

definition sample_schema :: "(pyval \<times> pyval) list" where
  "sample_schema = schema_with sample_entities sample_projection"

definition sample_sha :: "bytes \<Rightarrow> bytes" where "sample_sha b = take 4 (rev b)"

lemma sample_schema_Ok: "\<not> isl (ensure_schema_ir (PDict sample_schema)) \<and>
    dict_field sample_schema ''predicates'' = PList [PDict sample_predicate]"
  by code_simp

lemma sample_specs: "\<exists>a b. dict_field sample_predicate ''arg_specs'' = PList [a, b]"
  by (simp add: sample_predicate_def dict_field_def dict_field_or_def)

text \<open>
  C23: A schema that passes \<open>ensure_schema_ir\<close> never makes the policy fail on its group keys: for
  every predicate \<open>_read_group_key_indexes\<close> succeeds on facts of the declared arity, with
  strictly ascending indexes below that arity.
\<close>

theorem valid_schema_group_keys:
  assumes "ensure_schema_ir (PDict s) = Inr d" "dict_field s ''predicates'' = PList ps" "PDict p \<in> set ps"
    "dict_field p ''arg_specs'' = PList specs"
  shows "\<exists>is. read_group_key_indexes p (length specs) = Inr is \<and> sorted_wrt (<) is \<and> (\<forall>i \<in> set is. i < length specs)"
  using assms by (rule schema_group_keys_lemma)

lemma valid_schema_group_keys_witness:
  "\<exists>is. read_group_key_indexes sample_predicate 2 = Inr is \<and> (\<forall>i \<in> set is. i < 2)"
proof -
  obtain d where "ensure_schema_ir (PDict sample_schema) = Inr d"
    using sample_schema_Ok by (cases "ensure_schema_ir (PDict sample_schema)") auto
  moreover obtain a b where "dict_field sample_predicate ''arg_specs'' = PList [a, b]" using sample_specs by blast
  ultimately show ?thesis
    using valid_schema_group_keys [of sample_schema d "[PDict sample_predicate]" sample_predicate "[a, b]"] sample_schema_Ok
    by (auto simp: numeral_2_eq_2)
qed

text \<open>
  C22: The schema digest does not depend on the generation time: changing \<open>generated_at\<close> of a schema
  with a digest to any non-empty text keeps the digest.
\<close>

theorem digest_ignores_generated_at:
  assumes "schema_digest sha (PDict s) = Inr t" "g \<noteq> []"
  shows "schema_digest sha (PDict (dict_set (PStr (u ''generated_at'')) (PStr g) s)) = Inr t"
  using assms by (rule digest_generated_at_lemma)

lemma sample_json_ok: "json_ok (PDict sample_schema)"
  by code_simp

lemma sample_digest: "\<exists>t. schema_digest sample_sha (PDict sample_schema) = Inr t"
proof -
  obtain d where "ensure_schema_ir (PDict sample_schema) = Inr d"
    using sample_schema_Ok by (cases "ensure_schema_ir (PDict sample_schema)") auto
  from digest_total [OF this sample_json_ok] show ?thesis by (auto simp: schema_digest_def)
qed

lemma digest_ignores_generated_at_witness:
  "\<exists>t. schema_digest sample_sha (PDict sample_schema) = Inr t \<and>
    schema_digest sample_sha (PDict (dict_set (str ''generated_at'') (str ''friday'') sample_schema)) = Inr t"
proof -
  obtain t where t: "schema_digest sample_sha (PDict sample_schema) = Inr t"
    using sample_digest by blast
  with digest_ignores_generated_at [OF t, of "u ''friday''"] show ?thesis by simp
qed

text \<open>
  The schema digest does not depend on the order in which objects list their entries: two valid
  schemas that are equal up to that order, at any depth, have the same digest.
\<close>

theorem digest_order_independent:
  assumes "schema_digest sha s = Inr t" "json_same s s'" "keys_distinct s" "ensure_schema_ir s' = Inr d"
  shows "schema_digest sha s' = Inr t"
  using assms by (rule digest_order_lemma)

lemma sample_reordered: "\<not> isl (ensure_schema_ir (PDict (rev sample_schema))) \<and> keys_distinct (PDict sample_schema)"
  by code_simp

lemma digest_order_independent_witness:
  "schema_digest sample_sha (PDict (rev sample_schema)) = schema_digest sample_sha (PDict sample_schema)"
proof -
  obtain t where t: "schema_digest sample_sha (PDict sample_schema) = Inr t"
    using sample_digest by blast
  obtain d where "ensure_schema_ir (PDict (rev sample_schema)) = Inr d"
    using sample_reordered by (cases "ensure_schema_ir (PDict (rev sample_schema))") auto
  moreover have "json_same (PDict sample_schema) (PDict (rev sample_schema))"
    by (rule json_same.obj [of _ "rev sample_schema"]) (auto intro: list_all2_refl json_same.leaf)
  ultimately show ?thesis
    using digest_order_independent [OF t] sample_reordered t by metis
qed

definition nested_schema :: "string \<Rightarrow> pyval" where
  "nested_schema g = PDict (schema_with sample_entities
     (PDict [(str ''entities'', PList []), (str ''predicates'', PList []), (str ''generated_at'', str g)]))"

lemma nested_schema_view:
  "nested_schema ''a'' \<noteq> nested_schema ''b'' \<and> json_ok (nested_schema ''a'') \<and> json_ok (nested_schema ''b'') \<and>
    \<not> isl (ensure_schema_ir (nested_schema ''a'')) \<and> \<not> isl (ensure_schema_ir (nested_schema ''b'')) \<and>
    schema_identity_view True (nested_schema ''a'') = schema_identity_view True (nested_schema ''b'')"
  by code_simp

lemma nested_schema_bytes:
  "\<exists>b. canonicalize_schema_ir_identity_jcs (nested_schema ''a'') = Inr b \<and>
    canonicalize_schema_ir_identity_jcs (nested_schema ''b'') = Inr b"
proof -
  have *: "\<exists>b. canonicalize_schema_ir_identity_jcs (nested_schema g) = Inr b \<and>
      json_bytes SchemaIRValidationError (schema_identity_view True (nested_schema g)) = Inr b"
    if "\<not> isl (ensure_schema_ir (nested_schema g))" "json_ok (nested_schema g)" for g
    using that digest_total unfolding nested_schema_def
    by (cases "ensure_schema_ir (nested_schema g)") (auto simp: nested_schema_def simp del: schema_identity_view.simps)
  from * [of "''a''"] * [of "''b''"] nested_schema_view show ?thesis by auto
qed

text \<open>
  C39: \<open>generated_at\<close> is meant to be excluded from the identity as a top-level key only
  (\<open>SCHEMA_IDENTITY_EXCLUDED_TOP_LEVEL_KEYS\<close>), but the identity view drops it at every depth:
  two valid schemas whose projections differ have the same digest.
\<close>

theorem nested_generated_at_is_dropped:
  "nested_schema ''a'' \<noteq> nested_schema ''b'' \<and> \<not> isl (schema_digest sha (nested_schema ''a'')) \<and>
    schema_digest sha (nested_schema ''a'') = schema_digest sha (nested_schema ''b'')"
  using nested_schema_bytes nested_schema_view by (auto simp: schema_digest_def)

text \<open>
  C40: A type domain that cannot be hashed escapes the validator's own error class: a JSON list as
  \<open>type_domain\<close> raises \<open>TypeError\<close>, not \<open>SchemaIRValidationError\<close>.
\<close>

theorem unhashable_domain_escapes:
  "ensure_schema_ir (PDict (schema_with (PList [PDict [(str ''entity_type'', str ''E''), (str ''identity_fields'',
     PList [PDict [(str ''name'', str ''x''), (str ''type_domain'', PList [])]])]]) sample_projection)) = Inl TypeError"
  by code_simp

text \<open>
  C36: Metadata policies have one canonical form: what \<open>normalize_authoring_meta_keys\<close> returns is
  accepted by \<open>validate_canonical_meta_keys\<close>, and normalising it again changes nothing.
\<close>

theorem authoring_is_canonical:
  assumes "normalize_authoring_meta_keys (PDict d) = Inr (Some out)" "distinct (map fst d)"
  shows "validate_canonical_meta_keys (PDict out) = Inr () \<and> normalize_authoring_meta_keys (PDict out) = Inr (Some out)"
  using canonical_lemma [OF assms] normalize_again(1) [OF assms] by blast

definition sample_meta_keys :: "(pyval \<times> pyval) list" where
  "sample_meta_keys = [(str ''note'', PDict [(str ''load_policy'', str ''lazy''), (str ''query_indexed'', PBool False)]),
     (str ''kind'', PDict [])]"

definition sample_canonical_keys :: "(pyval \<times> pyval) list" where
  "sample_canonical_keys = [(str ''kind'', PDict []), (str ''note'', PDict [(str ''load_policy'', str ''lazy'')])]"

lemma sample_normalized: "normalize_authoring_meta_keys (PDict sample_meta_keys) = Inr (Some sample_canonical_keys) \<and>
    distinct (map fst sample_meta_keys)"
  by code_simp

lemma authoring_is_canonical_witness: "validate_canonical_meta_keys (PDict sample_canonical_keys) = Inr ()"
  using authoring_is_canonical [OF conjunct1 [OF sample_normalized] conjunct2 [OF sample_normalized]] by blast

text \<open>
  A metadata policy survives its canonical form: reading the non-default attributes of a policy
  back gives the policy.
\<close>

theorem policy_reads_back:
  assumes "policy_ok p"
  shows "policy_from_mapping (PDict (canonical_attributes p)) = Inr p"
  using assms by (rule canonical_from_mapping)

lemma policy_reads_back_witness:
  "policy_from_mapping (PDict (canonical_attributes (DEFAULT_POLICY\<lparr>mk_load_policy := u ''lazy''\<rparr>))) =
    Inr (DEFAULT_POLICY\<lparr>mk_load_policy := u ''lazy''\<rparr>)"
  by (rule policy_reads_back) (simp add: policy_ok_def DEFAULT_POLICY_def READER_CLASSES_def LOAD_POLICIES_def STORAGE_SCOPES_def)

text \<open>
  A policy document built from a schema of valid text always has a digest.
\<close>

theorem built_policy_has_digest:
  assumes "build_policy_ir_v1 now s mode g = Inr p" "json_ok s"
  shows "\<exists>t. policy_digest sha p = Inr t"
proof -
  from policy_json_ok [OF assms] obtain d where p: "json_ok p" "p = PDict d" by blast
  then obtain b where "json_bytes PolicyIRValidationError p = Inr b" using json_bytes_total by blast
  then show ?thesis
    using json_ok_no_floats [OF p(1)] p(2) by (simp add: policy_digest_def canonicalize_policy_ir_jcs_def as_dict_def)
qed

lemma sample_policy: "\<not> isl (build_policy_ir_v1 7 (PDict sample_schema) (u ''edb'') PNone) \<and> json_ok (PDict sample_schema)"
  by code_simp

lemma built_policy_has_digest_witness:
  "\<exists>p t. build_policy_ir_v1 7 (PDict sample_schema) (u ''edb'') PNone = Inr p \<and> policy_digest sample_sha p = Inr t"
proof -
  obtain p where p: "build_policy_ir_v1 7 (PDict sample_schema) (u ''edb'') PNone = Inr p"
    using sample_policy by (cases "build_policy_ir_v1 7 (PDict sample_schema) (u ''edb'') PNone") auto
  with built_policy_has_digest [OF p] sample_policy show ?thesis by blast
qed

end
