(* ===== verification/Write_Protocol.thy ===== *)
theory Write_Protocol
  imports Ledger_Writes Meta_Policy Py_Json Id_Ref
begin

text \<open>
  The write protocol for fields, from \<^verbatim>\<open>core/evidence/write_protocol.py\<close>: validation and
  normalisation of caller metadata, the ingest key, and the three writes set, retract and replace.
  \<open>sha\<close> is SHA-256; new assertion ids and the clock are arguments.
\<close>

section \<open>Numbers\<close>

text \<open>\<open>float(int)\<close>: rounding to 53 bits, ties to even; too large an integer overflows.\<close>

fun bit_count :: "nat \<Rightarrow> nat" where
  "bit_count n = (if n = 0 then 0 else Suc (bit_count (n div 2)))"

declare bit_count.simps [simp del]

definition rounded_bits :: "nat \<Rightarrow> nat" where
  "rounded_bits n =
     (let k = bit_count n in
      if n = 0 then 0
      else if k \<le> 53 then (1022 + k) * 2 ^ 52 + (n * 2 ^ (53 - k) - 2 ^ 52)
      else (let q = n div 2 ^ (k - 53); r = n mod 2 ^ (k - 53);
                up = (2 ^ (k - 53) < 2 * r \<or> 2 ^ (k - 53) = 2 * r \<and> odd q)
            in (1022 + k) * 2 ^ 52 + ((if up then q + 1 else q) - 2 ^ 52)))"

definition float_of_int :: "int \<Rightarrow> 64 word res" where
  "float_of_int i =
     (let b = rounded_bits (nat \<bar>i\<bar>)
      in if 2047 * 2 ^ 52 \<le> b then Err OverflowError
         else Ok (of_nat (if i < 0 then 2 ^ 63 + b else b)))"

definition float_less :: "64 word \<Rightarrow> 64 word \<Rightarrow> bool" where
  "float_less a b \<longleftrightarrow> \<not> is_nan a \<and> \<not> is_nan b \<and> \<not> number_le (float_number b) (float_number a)"

definition FLOAT_ONE :: "64 word" where "FLOAT_ONE = 0x3FF0000000000000"

text \<open>A number that is not a bool, as a float.\<close>

definition as_number :: "pyval \<Rightarrow> 64 word res" where
  "as_number v = (case v of PInt i \<Rightarrow> float_of_int i | PFloat w \<Rightarrow> Ok w | _ \<Rightarrow> Err WriteProtocolError)"

section \<open>Metadata\<close>

definition REMOVED_UNCERTAINTY_META_KEYS :: "ustr list" where
  "REMOVED_UNCERTAINTY_META_KEYS = [u ''probability'', u ''bound_lower'', u ''bound_upper'', u ''confidence'', u ''confidence_source'']"

definition RAW_UNCERTAINTY_KINDS :: "ustr list" where
  "RAW_UNCERTAINTY_KINDS = [u ''probabilistic'', u ''possibilistic'']"

definition EVENT_TIME_META_KEY :: ustr where "EVENT_TIME_META_KEY = u ''event_time''"

definition KEY_KIND_MAP :: "(ustr \<times> ustr) list" where
  "KEY_KIND_MAP =
     [(u ''ingested_at'', u ''time''), (u ''ingest_key'', u ''str''), (u ''revoked_asrt_id'', u ''str''),
      (u ''accepted_at'', u ''time''), (EVENT_TIME_META_KEY, u ''time''), (u ''source'', u ''str''),
      (u ''source_loc'', u ''str''), (u ''trace_id'', u ''str''), (u ''raw_kind'', u ''str''),
      (u ''bound'', u ''json''), (u ''approved_by'', u ''str''), (u ''accepted_by'', u ''str''),
      (u ''note'', u ''str''), (u ''derived_rule_id'', u ''str''), (u ''derived_rule_version'', u ''str''),
      (u ''derivation_id'', u ''str''), (u ''derivation_version'', u ''str''), (u ''run_id'', u ''str''),
      (u ''support_digest'', u ''str''), (u ''support_kind'', u ''str''), (u ''confidence_kind'', u ''str''),
      (u ''candidate_id'', u ''str''), (u ''candidate_key'', u ''str''), (u ''candidate_kind'', u ''str''),
      (u ''key_tuple_digest'', u ''str''), (u ''cand_key_digest'', u ''str''), (u ''schema_digest'', u ''str''),
      (u ''policy_digest'', u ''str''), (u ''meta_origin'', u ''str''), (u ''entity_type'', u ''str''),
      (u ''entity_ref'', u ''str''), (u ''identity_override_digest'', u ''str''), (u ''subject_e_ref'', u ''str''),
      (u ''materialize_id'', u ''str'')]"

definition validate_meta_name :: "pyval \<times> pyval \<Rightarrow> (ustr \<times> pyval) res" where
  "validate_meta_name entry = (case entry of (key, v) \<Rightarrow>
     bindE (as_name WriteProtocolError key) (\<lambda>s.
       if is_reserved_annotation_meta_key (MKey s) then Err WriteProtocolError
       else if s \<in> set SYSTEM_MANAGED_META_KEYS then Err WriteProtocolError
       else Ok (s, v)))"

definition validate_no_removed_uncertainty_keys :: "(ustr, pyval) dict \<Rightarrow> unit res" where
  "validate_no_removed_uncertainty_keys meta =
     (if list_ex (\<lambda>k. dict_get meta k \<noteq> None) REMOVED_UNCERTAINTY_META_KEYS then Err WriteProtocolError else Ok ())"

definition normalize_uncertainty_bound :: "pyval \<Rightarrow> pyval res" where
  "normalize_uncertainty_bound v =
     bindE (as_list WriteProtocolError v) (\<lambda>vs. case vs of
       [lower_raw, upper_raw] \<Rightarrow>
         if \<not> (case (lower_raw, upper_raw) of (PBool _, _) \<Rightarrow> False | (_, PBool _) \<Rightarrow> False | _ \<Rightarrow> True)
         then Err WriteProtocolError
         else if \<not> (py_is_number lower_raw \<and> py_is_number upper_raw) then Err WriteProtocolError
         else
           bindE (as_number lower_raw) (\<lambda>lower.
           bindE (as_number upper_raw) (\<lambda>upper.
             if float_less lower 0 \<or> float_less FLOAT_ONE upper then Err WriteProtocolError
             else if float_less upper lower then Err WriteProtocolError
             else Ok (PList [PFloat lower, PFloat upper])))
     | _ \<Rightarrow> Err WriteProtocolError)"

definition normalize_raw_uncertainty_meta :: "(ustr, pyval) dict \<Rightarrow> (ustr, pyval) dict res" where
  "normalize_raw_uncertainty_meta meta =
     (case (dict_get meta (u ''raw_kind''), dict_get meta (u ''bound'')) of
        (None, None) \<Rightarrow> Ok meta
      | (Some raw_kind, Some bound) \<Rightarrow>
          bindE (as_str WriteProtocolError raw_kind) (\<lambda>kind.
            if kind \<notin> set RAW_UNCERTAINTY_KINDS then Err WriteProtocolError
            else bindE (normalize_uncertainty_bound bound) (\<lambda>b. Ok (dict_set (u ''bound'') b meta)))
      | _ \<Rightarrow> Err WriteProtocolError)"

definition normalize_meta :: "pyval \<Rightarrow> (ustr, pyval) dict res" where
  "normalize_meta meta = (case meta of
      PNone \<Rightarrow> Ok []
    | PDict d \<Rightarrow>
        bindE (mapE validate_meta_name d) (\<lambda>result.
        bindE (validate_no_removed_uncertainty_keys result) (\<lambda>_.
          normalize_raw_uncertainty_meta result))
    | _ \<Rightarrow> Err WriteProtocolError)"

section \<open>The ingest key\<close>

definition meta_get :: "(ustr, pyval) dict \<Rightarrow> string \<Rightarrow> pyval" where
  "meta_get meta k = (case dict_get meta (u k) of None \<Rightarrow> PNone | Some v \<Rightarrow> v)"

definition optional_text :: "pyval \<Rightarrow> unit res" where
  "optional_text v = (case v of PNone \<Rightarrow> Ok () | PStr _ \<Rightarrow> Ok () | _ \<Rightarrow> Err WriteProtocolError)"

definition material :: "(ustr, pyval) dict \<Rightarrow> string list \<Rightarrow> pyval" where
  "material meta ks = PDict (map (\<lambda>k. (PStr (u k), meta_get meta k)) ks)"

definition compute_ingest_key ::
  "(bytes \<Rightarrow> bytes) \<Rightarrow> ustr \<Rightarrow> ustr \<Rightarrow> pyval list \<Rightarrow> (ustr, pyval) dict \<Rightarrow> ustr res" where
  "compute_ingest_key sha pred_id e_ref rest_terms meta =
     bindE (foldE (\<lambda>_ k. optional_text (meta_get meta k)) () [''source'', ''source_loc'', ''trace_id'']) (\<lambda>_.
     bindE (foldE (\<lambda>_ k. optional_text (meta_get meta k)) () [''valid_from'', ''valid_to'']) (\<lambda>_.
     bindE (case meta_get meta ''version'' of
              PNone \<Rightarrow> Ok () | PStr _ \<Rightarrow> Ok () | PInt _ \<Rightarrow> Ok () | _ \<Rightarrow> Err WriteProtocolError) (\<lambda>_.
     bindE (bindE (json_dumps (material meta [''source'', ''source_loc'', ''trace_id''])) utf8_encode) (\<lambda>source_bytes.
     bindE (bindE (json_dumps (material meta [''valid_from'', ''valid_to'', ''version''])) utf8_encode) (\<lambda>temporal_bytes.
     bindE (canonical_bytes_tup_v1
       ([PTuple [PStr (u ''string''), PStr (u ''ingest_key_v2'')], PTuple [PStr (u ''string''), PStr pred_id],
         PTuple [PStr (u ''entity_ref''), PStr e_ref]] @ rest_terms @
        [PTuple [PStr (u ''bytes''), PBytes BBytes source_bytes],
         PTuple [PStr (u ''bytes''), PBytes BBytes temporal_bytes]])) (\<lambda>ingest_bytes.
       Ok (sha256_token sha ingest_bytes)))))))"

fun first_unrevoked :: "ledger \<Rightarrow> ustr \<Rightarrow> meta_row list \<Rightarrow> ustr option res" where
  "first_unrevoked L key [] = Ok None"
| "first_unrevoked L key (r # rs) =
     (if m_value r \<noteq> PStr key then first_unrevoked L key rs
      else bindE (has_active_revocation L (m_asrt r)) (\<lambda>revoked.
        if revoked then first_unrevoked L key rs
        else bindE (get_claim L (m_asrt r)) (\<lambda>c.
          if c = None then first_unrevoked L key rs else Ok (Some (m_asrt r)))))"

definition find_active_claim_by_ingest_key :: "ledger \<Rightarrow> ustr \<Rightarrow> ustr option res" where
  "find_active_claim_by_ingest_key L key =
     bindE (effective_meta_rows L None (Some (MKey (u ''ingest_key''))) (Some (u ''str'')) None) (first_unrevoked L key)"

section \<open>Rows\<close>

fun json_writable :: "pyval \<Rightarrow> bool" where
  "json_writable (PList vs) = list_all json_writable vs"
| "json_writable (PTuple vs) = list_all json_writable vs"
| "json_writable (PDict d) =
     list_all (\<lambda>(k, v). (case k of PStr _ \<Rightarrow> True | PInt _ \<Rightarrow> True | PFloat _ \<Rightarrow> True | PBool _ \<Rightarrow> True
                          | PNone \<Rightarrow> True | _ \<Rightarrow> False) \<and> json_writable v) d"
| "json_writable (PBytes _ _) = False"
| "json_writable _ = True"

definition validate_meta_value_for_kind :: "ustr \<Rightarrow> pyval \<Rightarrow> unit res" where
  "validate_meta_value_for_kind kind v =
     (if (kind = u ''str'' \<and> (case v of PStr _ \<Rightarrow> True | _ \<Rightarrow> False)) \<or>
         (kind = u ''int'' \<and> (case v of PInt _ \<Rightarrow> True | _ \<Rightarrow> False)) \<or>
         (kind = u ''float'' \<and> (case v of PFloat _ \<Rightarrow> True | _ \<Rightarrow> False)) \<or>
         (kind = u ''bool'' \<and> (case v of PBool _ \<Rightarrow> True | _ \<Rightarrow> False)) \<or>
         (kind = u ''time'' \<and> (case v of PInt _ \<Rightarrow> True | _ \<Rightarrow> False)) \<or>
         (kind = u ''json'' \<and> json_writable v)
      then Ok () else Err WriteProtocolError)"

definition infer_meta_kind_by_value :: "ustr \<Rightarrow> pyval \<Rightarrow> ustr res" where
  "infer_meta_kind_by_value key v =
     (if key \<in> {u ''ingested_at'', EVENT_TIME_META_KEY} then
        (case v of PInt _ \<Rightarrow> Ok (u ''time'') | _ \<Rightarrow> Err WriteProtocolError)
      else (case v of
          PBool _ \<Rightarrow> Ok (u ''bool'') | PStr _ \<Rightarrow> Ok (u ''str'') | PFloat _ \<Rightarrow> Ok (u ''float'')
        | PInt _ \<Rightarrow> Ok (u ''int'') | _ \<Rightarrow> Err WriteProtocolError))"

definition infer_meta_kind :: "ustr \<Rightarrow> pyval \<Rightarrow> ustr res" where
  "infer_meta_kind key v = (case dict_get KEY_KIND_MAP key of
      Some mapped_kind \<Rightarrow> bindE (validate_meta_value_for_kind mapped_kind v) (\<lambda>_. Ok mapped_kind)
    | None \<Rightarrow> infer_meta_kind_by_value key v)"

definition user_meta_rows :: "ustr \<Rightarrow> (ustr, pyval) dict \<Rightarrow> meta_row list res" where
  "user_meta_rows asrt_id meta =
     mapE (\<lambda>(key, v). bindE (infer_meta_kind key v) (\<lambda>kind.
         Ok \<lparr>m_asrt = asrt_id, m_key = MKey key, m_kind = kind, m_value = v\<rparr>))
       (filter (\<lambda>(key, _). key \<notin> set SYSTEM_MANAGED_META_KEYS) (sort_key fst meta))"

definition meta_rows_for_claim :: "ustr \<Rightarrow> (ustr, pyval) dict \<Rightarrow> ustr \<Rightarrow> int \<Rightarrow> meta_row list res" where
  "meta_rows_for_claim asrt_id meta ingest_key ingested_at =
     bindE (user_meta_rows asrt_id meta) (\<lambda>rows.
       Ok (\<lparr>m_asrt = asrt_id, m_key = MKey (u ''ingested_at''), m_kind = u ''time'', m_value = PInt ingested_at\<rparr> #
           \<lparr>m_asrt = asrt_id, m_key = MKey (u ''ingest_key''), m_kind = u ''str'', m_value = PStr ingest_key\<rparr> # rows))"

definition annotation_rows_for_claim :: "ustr \<Rightarrow> (ustr, pyval) dict \<Rightarrow> annotation_row list res" where
  "annotation_rows_for_claim asrt_id meta =
     bindE (mapE (\<lambda>(key, v). case initial_meta_annotation_v1 (MKey key) of
         None \<Rightarrow> Ok None
       | Some (ns, cat, origin, deriv) \<Rightarrow>
           bindE (case dict_get KEY_KIND_MAP key of Some kind \<Rightarrow> Ok kind | None \<Rightarrow> infer_meta_kind_by_value key v) (\<lambda>kind.
             Ok (Some \<lparr>a_asrt = asrt_id, a_ns = ns, a_cat = cat, a_key = key, a_kind = kind, a_value = v,
                   a_origin = origin, a_deriv = deriv\<rparr>))) (sort_key fst meta)) (\<lambda>rows.
       Ok (List.map_filter id rows))"

section \<open>The writes\<close>

definition validate_write_inputs :: "ustr \<Rightarrow> ustr \<Rightarrow> pyval list \<Rightarrow> unit res" where
  "validate_write_inputs pred_id e_ref rest_terms =
     (if pred_id = [] then Err WriteProtocolError
      else if starts_with pred_id SYSTEM_PREFIX then Err WriteProtocolError
      else if e_ref = [] then Err WriteProtocolError
      else catchE (bindE (canonical_bytes_tup_v1 rest_terms) (\<lambda>_. Ok ())) (\<lambda>e. e = ValueError) (\<lambda>_. Err WriteProtocolError))"

definition prepare_field ::
  "(bytes \<Rightarrow> bytes) \<Rightarrow> ustr \<Rightarrow> int \<Rightarrow> ustr \<Rightarrow> ustr \<Rightarrow> pyval list \<Rightarrow> pyval \<Rightarrow>
   (claim_arg list \<times> meta_row list \<times> annotation_row list \<times> ustr) res" where
  "prepare_field sha asrt_id ingested_at pred_id e_ref rest_terms meta =
     bindE (validate_write_inputs pred_id e_ref rest_terms) (\<lambda>_.
     bindE (normalize_meta meta) (\<lambda>normalized_meta.
     bindE (compute_ingest_key sha pred_id e_ref rest_terms normalized_meta) (\<lambda>ingest_key.
     bindE (claim_args_from_rest_terms rest_terms) (\<lambda>claim_arg_rows.
     bindE (meta_rows_for_claim asrt_id normalized_meta ingest_key ingested_at) (\<lambda>meta_rows.
     bindE (annotation_rows_for_claim asrt_id normalized_meta) (\<lambda>annotation_rows.
       Ok (map (\<lambda>(idx, val_atom, tag). \<lparr>g_asrt = asrt_id, g_idx = idx, g_atom = val_atom, g_tag = tag\<rparr>) claim_arg_rows,
           meta_rows, annotation_rows, ingest_key)))))))"

definition set_field ::
  "(bytes \<Rightarrow> bytes) \<Rightarrow> ustr \<Rightarrow> int \<Rightarrow> ustr \<Rightarrow> ustr \<Rightarrow> pyval list \<Rightarrow> pyval \<Rightarrow> ledger \<Rightarrow> ledger \<times> ustr res" where
  "set_field sha asrt_id now pred_id e_ref rest_terms meta L =
     (case prepare_field sha asrt_id now pred_id e_ref rest_terms meta of
        Inl e \<Rightarrow> (L, Err e)
      | Inr (args, meta_rows, annotation_rows, ingest_key) \<Rightarrow>
          thenS (append_assertion asrt_id
                   \<lparr>c_asrt = asrt_id, c_pred = pred_id, c_eref = e_ref, c_terms = rest_terms\<rparr>
                   args meta_rows annotation_rows (Some \<lparr>i_key = ingest_key, i_conflict = Skip\<rparr>) (Some asrt_id) L)
            (\<lambda>L result. (L, Ok (ar_asrt result))))"

definition add_field ::
  "(bytes \<Rightarrow> bytes) \<Rightarrow> ustr \<Rightarrow> int \<Rightarrow> ustr \<Rightarrow> ustr \<Rightarrow> pyval list \<Rightarrow> pyval \<Rightarrow> ledger \<Rightarrow> ledger \<times> ustr res" where
  "add_field sha asrt_id now pred_id e_ref rest_terms meta L = set_field sha asrt_id now pred_id e_ref rest_terms meta L"

definition revocation_rows :: "ustr \<Rightarrow> int \<Rightarrow> ustr \<Rightarrow> pyval \<Rightarrow> meta_row list res" where
  "revocation_rows revoker ingested_at revoked meta =
     bindE (normalize_meta meta) (\<lambda>normalized_meta.
     bindE (user_meta_rows revoker normalized_meta) (\<lambda>rows.
       Ok (\<lparr>m_asrt = revoker, m_key = MKey (u ''ingested_at''), m_kind = u ''time'', m_value = PInt ingested_at\<rparr> #
           \<lparr>m_asrt = revoker, m_key = MKey (u ''revoked_asrt_id''), m_kind = u ''str'', m_value = PStr revoked\<rparr> # rows)))"

text \<open>The existing revoker of a revocable target, if it has one.\<close>

definition retraction_target :: "ledger \<Rightarrow> ustr \<Rightarrow> ustr option res" where
  "retraction_target L revoked_asrt_id =
     (if revoked_asrt_id = [] then Err WriteProtocolError
      else bindE (get_claim_including_system L revoked_asrt_id) (\<lambda>target.
        (case target of
           None \<Rightarrow> Err WriteProtocolError
         | Some c \<Rightarrow> if starts_with (c_pred c) SYSTEM_PREFIX then Err WriteProtocolError
                     else find_revoker L revoked_asrt_id)))"

definition retract_by_asrt :: "ustr \<Rightarrow> int \<Rightarrow> ustr \<Rightarrow> pyval \<Rightarrow> ledger \<Rightarrow> ledger \<times> ustr res" where
  "retract_by_asrt revoker now revoked_asrt_id meta L =
     (case retraction_target L revoked_asrt_id of
        Inl e \<Rightarrow> (L, Err e)
      | Inr (Some existing_revoker) \<Rightarrow> (L, Ok existing_revoker)
      | Inr None \<Rightarrow>
          (case revocation_rows revoker now revoked_asrt_id meta of
             Inl e \<Rightarrow> (L, Err e)
           | Inr meta_rows \<Rightarrow>
               thenS (append_revocation revoker \<lparr>r_revoker = revoker, r_revoked = revoked_asrt_id\<rparr> meta_rows None
                        (Some revoker) L)
                 (\<lambda>L _. (L, Ok revoker))))"

definition preflight_new_assertion ::
  "(bytes \<Rightarrow> bytes) \<Rightarrow> ustr \<Rightarrow> ustr \<Rightarrow> pyval list \<Rightarrow> pyval \<Rightarrow> unit res" where
  "preflight_new_assertion sha pred_id e_ref rest_terms meta =
     bindE (validate_write_inputs pred_id e_ref rest_terms) (\<lambda>_.
     bindE (normalize_meta meta) (\<lambda>meta_dict.
     bindE (compute_ingest_key sha pred_id e_ref rest_terms meta_dict) (\<lambda>ingest_key.
     bindE (meta_rows_for_claim (u ''_preflight_'') meta_dict ingest_key 0) (\<lambda>_.
     bindE (annotation_rows_for_claim (u ''_preflight_'') meta_dict) (\<lambda>_. Ok ())))))"

fun first_active :: "ledger \<Rightarrow> pyval list \<Rightarrow> claim list \<Rightarrow> ustr option res" where
  "first_active L rest_terms [] = Ok None"
| "first_active L rest_terms (c # cs) =
     (if \<not> list_all2 py_eq (c_terms c) rest_terms then first_active L rest_terms cs
      else bindE (has_active_revocation L (c_asrt c)) (\<lambda>revoked.
        if revoked then first_active L rest_terms cs else Ok (Some (c_asrt c))))"

definition find_active_matching_claim :: "ledger \<Rightarrow> ustr \<Rightarrow> ustr \<Rightarrow> pyval list \<Rightarrow> ustr option res" where
  "find_active_matching_claim L pred_id e_ref rest_terms =
     bindE (find_claims L (Some pred_id) (Some e_ref)) (first_active L rest_terms)"

definition replaced_claim ::
  "(bytes \<Rightarrow> bytes) \<Rightarrow> ustr \<Rightarrow> ustr \<Rightarrow> pyval list \<Rightarrow> pyval list \<Rightarrow> pyval \<Rightarrow> ledger \<Rightarrow> ustr res" where
  "replaced_claim sha pred_id e_ref old_rest_terms new_rest_terms meta L =
     bindE (validate_write_inputs pred_id e_ref old_rest_terms) (\<lambda>_.
     bindE (preflight_new_assertion sha pred_id e_ref new_rest_terms meta) (\<lambda>_.
     bindE (find_active_matching_claim L pred_id e_ref old_rest_terms) (\<lambda>old.
       (case old of None \<Rightarrow> Err WriteProtocolError | Some a \<Rightarrow> Ok a))))"

text \<open>\<open>revoker, now\<close> and \<open>asrt_id, now'\<close> are the ids and times of the two writes.\<close>

definition replace_field ::
  "(bytes \<Rightarrow> bytes) \<Rightarrow> ustr \<Rightarrow> int \<Rightarrow> ustr \<Rightarrow> int \<Rightarrow> ustr \<Rightarrow> ustr \<Rightarrow> pyval list \<Rightarrow> pyval list \<Rightarrow> pyval \<Rightarrow> ledger \<Rightarrow>
   ledger \<times> (ustr \<times> ustr) res" where
  "replace_field sha revoker now asrt_id now' pred_id e_ref old_rest_terms new_rest_terms meta L =
     (case replaced_claim sha pred_id e_ref old_rest_terms new_rest_terms meta L of
        Inl e \<Rightarrow> (L, Err e)
      | Inr old_asrt_id \<Rightarrow>
          thenS (retract_by_asrt revoker now old_asrt_id meta L) (\<lambda>L revoker_asrt_id.
          thenS (set_field sha asrt_id now' pred_id e_ref new_rest_terms meta L) (\<lambda>L new_asrt_id.
            (L, Ok (revoker_asrt_id, new_asrt_id)))))"

end
