(* ===== verification/Where_AST.thy ===== *)
theory Where_AST
  imports Py_Dict
begin

text \<open>
  The syntax tree of a where clause, from \<^verbatim>\<open>core/rules/where_ast.py\<close>: the node classes, the parser
  from the raw tuple form and the lowering back to it.  The origin paths of the nodes, which only
  error messages use, are left out; a branch of \<open>OrExpr\<close> is the list of its atoms.
\<close>

section \<open>Nodes\<close>

datatype where_term = Var ustr | Const pyval | AggregateAtom ustr "where_term option" "where_atom list"
  and where_atom =
    PredAtom pyval "where_term list"
  | RuleRefAtom pyval "ustr option" "where_term list"
  | CmpAtom ustr where_term where_term
  | InAtom ustr "pyval list"
  | BuiltinAtom ustr "where_term list"
  | NotAtom where_expr
  and where_expr = AndExpr "where_atom list" | OrExpr "where_atom list list"

definition CMP_OPS :: "ustr list" where
  "CMP_OPS = [u ''eq'', u ''ne'', u ''gt'', u ''ge'', u ''lt'', u ''le'']"

definition BUILTIN_TAGS :: "ustr list" where
  "BUILTIN_TAGS = [u ''add'', u ''sub'', u ''neg'', u ''addc'', u ''mulc'']"

definition AGGREGATE_KINDS :: "ustr list" where
  "AGGREGATE_KINDS = [u ''count'', u ''sum'', u ''min'', u ''max'', u ''mean'']"

definition is_var_name :: "ustr \<Rightarrow> bool" where
  "is_var_name s \<longleftrightarrow> starts_with s (u ''$'') \<and> 1 < length s"

section \<open>Parsing\<close>

text \<open>\<open>raw and raw[0] in _AGGREGATE_KINDS\<close> for a tuple: looking a value up in a set hashes it.\<close>

definition aggregate_tuple :: "pyval list \<Rightarrow> bool res" where
  "aggregate_tuple vs = (case vs of
      [] \<Rightarrow> Ok False
    | PStr k # _ \<Rightarrow> Ok (k \<in> set AGGREGATE_KINDS)
    | v # _ \<Rightarrow> if hashable v then Ok False else Err TypeError)"

definition is_PList :: "pyval \<Rightarrow> bool" where
  "is_PList v \<longleftrightarrow> (case v of PList _ \<Rightarrow> True | _ \<Rightarrow> False)"

definition as_var :: "where_term \<Rightarrow> ustr res" where
  "as_var t = (case t of Var x \<Rightarrow> Ok x | _ \<Rightarrow> Err WhereASTError)"

definition as_const :: "where_term \<Rightarrow> pyval res" where
  "as_const t = (case t of Const c \<Rightarrow> Ok c | _ \<Rightarrow> Err WhereASTError)"

definition opt_version :: "pyval \<Rightarrow> ustr option res" where
  "opt_version v = (case v of PNone \<Rightarrow> Ok None | PStr s \<Rightarrow> Ok (Some s) | _ \<Rightarrow> Err WhereASTError)"

fun parse_expr :: "pyval \<Rightarrow> where_expr res"
and parse_atom :: "pyval \<Rightarrow> where_atom res"
and parse_term :: "pyval \<Rightarrow> where_term res" where
  "parse_expr raw = (case raw of
      PList items \<Rightarrow>
        if items = [] then Err WhereASTError
        else if list_all is_PList items then
          bindE (mapE (\<lambda>branch. case branch of
              PList atoms \<Rightarrow> if atoms = [] then Err WhereASTError else mapE parse_atom atoms
            | _ \<Rightarrow> Err WhereASTError) items) (\<lambda>branches. Ok (OrExpr branches))
        else bindE (mapE parse_atom items) (\<lambda>atoms. Ok (AndExpr atoms))
    | _ \<Rightarrow> Err WhereASTError)"
| "parse_atom raw = (case raw of
      PTuple (PStr tag # args) \<Rightarrow>
        if tag = u ''pred'' then
          (case args of
             [pred_id, PList terms] \<Rightarrow> bindE (mapE parse_term terms) (\<lambda>ts. Ok (PredAtom pred_id ts))
           | _ \<Rightarrow> Err WhereASTError)
        else if tag = u ''ruleref'' then
          (case args of
             [rule_id, version, terms] \<Rightarrow>
               bindE (opt_version version) (\<lambda>ver.
                 (case terms of
                    PList ts \<Rightarrow> bindE (mapE parse_term ts) (\<lambda>ts. Ok (RuleRefAtom rule_id ver ts))
                  | _ \<Rightarrow> Err WhereASTError))
           | _ \<Rightarrow> Err WhereASTError)
        else if tag \<in> set CMP_OPS then
          (case args of
             [lhs, rhs] \<Rightarrow> bindE (parse_term lhs) (\<lambda>l. bindE (parse_term rhs) (\<lambda>r. Ok (CmpAtom tag l r)))
           | _ \<Rightarrow> Err WhereASTError)
        else if tag = u ''in'' then
          (case args of
             [var, vals] \<Rightarrow>
               bindE (bindE (parse_term var) as_var) (\<lambda>x.
                 (case vals of
                    PList vs \<Rightarrow> bindE (mapE (\<lambda>v. bindE (parse_term v) as_const) vs) (\<lambda>cs. Ok (InAtom x cs))
                  | _ \<Rightarrow> Err WhereASTError))
           | _ \<Rightarrow> Err WhereASTError)
        else if tag \<in> set BUILTIN_TAGS then bindE (mapE parse_term args) (\<lambda>ts. Ok (BuiltinAtom tag ts))
        else if tag = u ''not'' then
          (case args of [body] \<Rightarrow> bindE (parse_expr body) (\<lambda>e. Ok (NotAtom e)) | _ \<Rightarrow> Err WhereASTError)
        else Err WhereASTError
    | _ \<Rightarrow> Err WhereASTError)"
| "parse_term raw = (case raw of
      PStr s \<Rightarrow> Ok (if is_var_name s then Var s else Const raw)
    | PTuple vs \<Rightarrow>
        bindE (aggregate_tuple vs) (\<lambda>is_agg.
          if \<not> is_agg then Ok (Const raw)
          else (case vs of
             [PStr kind, target, PList filter_raw] \<Rightarrow>
               bindE (if target = PNone then Ok None else bindE (parse_term target) (\<lambda>t. Ok (Some t))) (\<lambda>t.
               bindE (mapE parse_atom filter_raw) (\<lambda>atoms. Ok (AggregateAtom kind t atoms)))
           | _ \<Rightarrow> Err WhereASTError))
    | _ \<Rightarrow> Ok (Const raw))"

declare parse_expr.simps [simp del] parse_atom.simps [simp del] parse_term.simps [simp del]

definition parse_where_ir_to_ast :: "pyval \<Rightarrow> where_expr res" where
  "parse_where_ir_to_ast where_ir = parse_expr where_ir"

section \<open>Lowering\<close>

fun lower_expr :: "where_expr \<Rightarrow> pyval list"
and lower_atom :: "where_atom \<Rightarrow> pyval"
and lower_term :: "where_term \<Rightarrow> pyval" where
  "lower_expr (AndExpr atoms) = map lower_atom atoms"
| "lower_expr (OrExpr branches) = map (\<lambda>atoms. PList (map lower_atom atoms)) branches"
| "lower_atom (PredAtom p ts) = PTuple [PStr (u ''pred''), p, PList (map lower_term ts)]"
| "lower_atom (RuleRefAtom r v ts) =
     PTuple [PStr (u ''ruleref''), r, (case v of None \<Rightarrow> PNone | Some s \<Rightarrow> PStr s), PList (map lower_term ts)]"
| "lower_atom (CmpAtom op l r) = PTuple [PStr op, lower_term l, lower_term r]"
| "lower_atom (InAtom x cs) = PTuple [PStr (u ''in''), PStr x, PList cs]"
| "lower_atom (BuiltinAtom op ts) = PTuple (PStr op # map lower_term ts)"
| "lower_atom (NotAtom e) = PTuple [PStr (u ''not''), PList (lower_expr e)]"
| "lower_term (Var x) = PStr x"
| "lower_term (Const c) = c"
| "lower_term (AggregateAtom k t atoms) =
     PTuple [PStr k, (case t of None \<Rightarrow> PNone | Some t \<Rightarrow> lower_term t), PList (map lower_atom atoms)]"

definition lower_ast_to_where_ir :: "where_expr \<Rightarrow> pyval" where
  "lower_ast_to_where_ir e = PList (lower_expr e)"

section \<open>Lowering inverts parsing\<close>

lemma mapE_lower:
  "mapE f xs = Inr ys \<Longrightarrow> (\<And>x y. x \<in> set xs \<Longrightarrow> y \<in> set ys \<Longrightarrow> f x = Inr y \<Longrightarrow> g y = x) \<Longrightarrow>
    map g ys = xs"
  by (induction xs arbitrary: ys) (fastforce simp: err_simps)+

lemma as_var_Inr: "as_var t = Inr x \<longleftrightarrow> t = Var x"
  by (cases t) (auto simp: as_var_def)

lemma as_const_Inr: "as_const t = Inr c \<longleftrightarrow> t = Const c"
  by (cases t) (auto simp: as_const_def)

lemma opt_version_Inr: "opt_version v = Inr w \<Longrightarrow> v = (case w of None \<Rightarrow> PNone | Some s \<Rightarrow> PStr s)"
  by (cases v) (auto simp: opt_version_def)

lemma aggregate_tuple_True:
  "aggregate_tuple vs = Inr True \<Longrightarrow> \<exists>k ws. vs = PStr k # ws \<and> k \<in> set AGGREGATE_KINDS"
  by (auto simp: aggregate_tuple_def split: list.splits pyval.splits if_splits)

lemma parse_expr_cases:
  assumes "parse_expr raw = Inr e"
  obtains (And) items atoms where "raw = PList items" "items \<noteq> []" "mapE parse_atom items = Inr atoms" "e = AndExpr atoms"
  | (Or) items branches where "raw = PList items" "items \<noteq> []" "e = OrExpr branches"
      "list_all2 (\<lambda>v atoms. \<exists>vs. v = PList vs \<and> vs \<noteq> [] \<and> mapE parse_atom vs = Inr atoms) items branches"
proof (cases raw)
  case (PList items)
  note p = assms [unfolded PList parse_expr.simps [of "PList items"], simplified]
  show ?thesis
  proof (cases "list_all is_PList items")
    case True
    with p obtain branches where b: "items \<noteq> []" "e = OrExpr branches" "mapE (\<lambda>branch. case branch of
        PList atoms \<Rightarrow> if atoms = [] then Err WhereASTError else mapE parse_atom atoms
      | _ \<Rightarrow> Err WhereASTError) items = Inr branches"
      by (auto simp: err_simps split: if_splits)
    from b(3) have "list_all2 (\<lambda>v atoms. \<exists>vs. v = PList vs \<and> vs \<noteq> [] \<and> mapE parse_atom vs = Inr atoms) items branches"
      unfolding mapE_Inr_iff [of _ items branches] by (elim list_all2_mono) (auto split: pyval.splits if_splits)
    with b PList show ?thesis by (intro Or)
  next
    case False
    with p PList show ?thesis by (auto simp: err_simps split: if_splits intro: And)
  qed
qed (use assms in \<open>simp_all add: parse_expr.simps\<close>)

lemma as_args1: "(case args of [x] \<Rightarrow> f x | _ \<Rightarrow> Inl e) = Inr r \<longleftrightarrow> (\<exists>x. args = [x] \<and> f x = Inr r)"
  by (auto split: list.splits)

lemma as_args2: "(case args of [x, y] \<Rightarrow> f x y | _ \<Rightarrow> Inl e) = Inr r \<longleftrightarrow> (\<exists>x y. args = [x, y] \<and> f x y = Inr r)"
  by (auto split: list.splits)

lemma as_args3: "(case args of [x, y, z] \<Rightarrow> f x y z | _ \<Rightarrow> Inl e) = Inr r \<longleftrightarrow> (\<exists>x y z. args = [x, y, z] \<and> f x y z = Inr r)"
  by (auto split: list.splits)

lemma as_PList: "(case v of PList vs \<Rightarrow> f vs | _ \<Rightarrow> Inl e) = Inr r \<longleftrightarrow> (\<exists>vs. v = PList vs \<and> f vs = Inr r)"
  by (auto split: pyval.splits)

lemma as_pred_args: "(case args of [x, PList ys] \<Rightarrow> f x ys | _ \<Rightarrow> Inl e) = Inr r \<longleftrightarrow> (\<exists>x ys. args = [x, PList ys] \<and> f x ys = Inr r)"
  by (auto split: list.splits pyval.splits)

lemma as_agg_args: "(case vs of [PStr k, t, PList fs] \<Rightarrow> f k t fs | _ \<Rightarrow> Inl e) = Inr r \<longleftrightarrow>
    (\<exists>k t fs. vs = [PStr k, t, PList fs] \<and> f k t fs = Inr r)"
  by (auto split: list.splits pyval.splits)

lemma as_tagged: "(case raw of PTuple (PStr tag # args) \<Rightarrow> f tag args | _ \<Rightarrow> Inl e) = Inr r \<longleftrightarrow>
    (\<exists>tag args. raw = PTuple (PStr tag # args) \<and> f tag args = Inr r)"
  by (auto split: list.splits pyval.splits)

lemmas shape_simps = as_args1 as_args2 as_args3 as_PList as_pred_args as_tagged

lemma parse_atom_cases:
  assumes "parse_atom raw = Inr a"
  obtains (Pred) p terms ts where "raw = PTuple [PStr (u ''pred''), p, PList terms]" "mapE parse_term terms = Inr ts" "a = PredAtom p ts"
  | (RuleRef) r v ver terms ts where "raw = PTuple [PStr (u ''ruleref''), r, v, PList terms]" "opt_version v = Inr ver"
      "mapE parse_term terms = Inr ts" "a = RuleRefAtom r ver ts"
  | (Cmp) op lhs rhs l r where "raw = PTuple [PStr op, lhs, rhs]" "op \<in> set CMP_OPS"
      "parse_term lhs = Inr l" "parse_term rhs = Inr r" "a = CmpAtom op l r"
  | (In) var vals x cs where "raw = PTuple [PStr (u ''in''), var, PList vals]" "parse_term var = Inr (Var x)"
      "mapE (\<lambda>v. bindE (parse_term v) as_const) vals = Inr cs" "a = InAtom x cs"
  | (Builtin) op args ts where "raw = PTuple (PStr op # args)" "op \<in> set BUILTIN_TAGS"
      "mapE parse_term args = Inr ts" "a = BuiltinAtom op ts"
  | (Not) body e where "raw = PTuple [PStr (u ''not''), body]" "parse_expr body = Inr e" "a = NotAtom e"
proof -
  from assms [unfolded parse_atom.simps [of raw] as_tagged] obtain tag args where raw: "raw = PTuple (PStr tag # args)"
    and p: "(if tag = u ''pred'' then
          (case args of
             [pred_id, PList terms] \<Rightarrow> bindE (mapE parse_term terms) (\<lambda>ts. Ok (PredAtom pred_id ts))
           | _ \<Rightarrow> Err WhereASTError)
        else if tag = u ''ruleref'' then
          (case args of
             [rule_id, version, terms] \<Rightarrow>
               bindE (opt_version version) (\<lambda>ver.
                 (case terms of
                    PList ts \<Rightarrow> bindE (mapE parse_term ts) (\<lambda>ts. Ok (RuleRefAtom rule_id ver ts))
                  | _ \<Rightarrow> Err WhereASTError))
           | _ \<Rightarrow> Err WhereASTError)
        else if tag \<in> set CMP_OPS then
          (case args of
             [lhs, rhs] \<Rightarrow> bindE (parse_term lhs) (\<lambda>l. bindE (parse_term rhs) (\<lambda>r. Ok (CmpAtom tag l r)))
           | _ \<Rightarrow> Err WhereASTError)
        else if tag = u ''in'' then
          (case args of
             [var, vals] \<Rightarrow>
               bindE (bindE (parse_term var) as_var) (\<lambda>x.
                 (case vals of
                    PList vs \<Rightarrow> bindE (mapE (\<lambda>v. bindE (parse_term v) as_const) vs) (\<lambda>cs. Ok (InAtom x cs))
                  | _ \<Rightarrow> Err WhereASTError))
           | _ \<Rightarrow> Err WhereASTError)
        else if tag \<in> set BUILTIN_TAGS then bindE (mapE parse_term args) (\<lambda>ts. Ok (BuiltinAtom tag ts))
        else if tag = u ''not'' then
          (case args of [body] \<Rightarrow> bindE (parse_expr body) (\<lambda>e. Ok (NotAtom e)) | _ \<Rightarrow> Err WhereASTError)
        else Err WhereASTError) = Inr a" by blast
  show ?thesis
  proof (cases "tag = u ''pred''")
    case True
    with p raw show ?thesis by (auto simp: shape_simps err_simps intro: Pred)
  next
    case no_pred: False
    show ?thesis
    proof (cases "tag = u ''ruleref''")
      case True
      with p no_pred raw show ?thesis by (auto simp: shape_simps err_simps intro: RuleRef)
    next
      case no_ref: False
      show ?thesis
        using p raw no_pred no_ref
        by (auto simp: shape_simps err_simps as_var_Inr split: if_split_asm intro: Cmp In Builtin Not)
    qed
  qed
qed

lemma parse_term_cases:
  assumes "parse_term raw = Inr t"
  obtains (Var) x where "raw = PStr x" "is_var_name x" "t = Var x"
  | (Const) "t = Const raw" "\<And>s. raw = PStr s \<Longrightarrow> \<not> is_var_name s"
      "\<And>k vs. raw = PTuple (PStr k # vs) \<Longrightarrow> k \<notin> set AGGREGATE_KINDS"
  | (Aggregate) kind target filter_raw opt atoms where "raw = PTuple [PStr kind, target, PList filter_raw]"
      "kind \<in> set AGGREGATE_KINDS" "mapE parse_atom filter_raw = Inr atoms" "t = AggregateAtom kind opt atoms"
      "if target = PNone then opt = None else (\<exists>t'. parse_term target = Inr t' \<and> opt = Some t')"
proof (cases raw)
  case (PStr s)
  with assms show ?thesis by (auto simp: parse_term.simps split: if_splits intro: Var Const)
next
  case (PTuple vs)
  with assms obtain b where b: "aggregate_tuple vs = Inr b" by (auto simp: parse_term.simps err_simps)
  show ?thesis
  proof (cases b)
    case False
    with assms b PTuple have "t = Const raw" by (simp add: parse_term.simps)
    moreover have "k \<notin> set AGGREGATE_KINDS" if "raw = PTuple (PStr k # ws)" for k ws
      using that PTuple b False by (simp add: aggregate_tuple_def)
    ultimately show ?thesis using PTuple by (intro Const) auto
  next
    case True
    then obtain k ws where k: "vs = PStr k # ws" "k \<in> set AGGREGATE_KINDS" using b aggregate_tuple_True [of vs] by auto
    from assms b True obtain kind target fs where vs: "vs = [PStr kind, target, PList fs]"
      and r: "bindE (if target = PNone then Ok None else bindE (parse_term target) (\<lambda>t. Ok (Some t))) (\<lambda>t.
               bindE (mapE parse_atom fs) (\<lambda>atoms. Ok (AggregateAtom kind t atoms))) = Inr t"
      by (auto simp: PTuple parse_term.simps as_agg_args)
    from r obtain opt atoms where a: "mapE parse_atom fs = Inr atoms" "t = AggregateAtom kind opt atoms"
      and o: "(if target = PNone then Ok None else bindE (parse_term target) (\<lambda>t. Ok (Some t))) = Inr opt"
      by (auto simp: err_simps)
    from o have c: "if target = PNone then opt = None else (\<exists>t'. parse_term target = Inr t' \<and> opt = Some t')"
      by (auto simp: err_simps split: if_split_asm)
    have "kind \<in> set AGGREGATE_KINDS" using k vs by simp
    then show ?thesis using Aggregate [OF _ _ a c] vs PTuple by simp
  qed
qed (use assms in \<open>auto simp: parse_term.simps intro: Const\<close>)

lemma lower_parse:
  "parse_term raw'' = Inr t \<Longrightarrow> lower_term t = raw''"
  "parse_atom raw' = Inr a \<Longrightarrow> lower_atom a = raw'"
  "parse_expr raw = Inr e \<Longrightarrow> PList (lower_expr e) = raw"
proof (induction t and a and e arbitrary: raw'' and raw' and raw)
  case (Var x)
  then show ?case by (auto elim: parse_term_cases)
next
  case (Const c)
  then show ?case by (auto elim: parse_term_cases)
next
  case (AggregateAtom k opt atoms)
  from AggregateAtom.prems show ?case
  proof (cases rule: parse_term_cases)
    case (Aggregate kind target filter_raw opt' atoms')
    have "map lower_atom atoms = filter_raw"
      using Aggregate AggregateAtom.IH(2) by (auto intro!: mapE_lower [of parse_atom])
    then show ?thesis using Aggregate AggregateAtom.IH(1) by (auto split: if_splits)
  qed simp_all
next
  case (PredAtom p ts)
  from PredAtom.prems show ?case
    by (cases rule: parse_atom_cases) (auto intro!: mapE_lower [of parse_term] PredAtom.IH)
next
  case (RuleRefAtom r v ts)
  from RuleRefAtom.prems show ?case
    by (cases rule: parse_atom_cases) (auto intro!: mapE_lower [of parse_term] RuleRefAtom.IH dest: opt_version_Inr)
next
  case (CmpAtom op l r)
  from CmpAtom.prems show ?case by (cases rule: parse_atom_cases) (auto simp: CmpAtom.IH)
next
  case (InAtom x cs)
  have const: "lower_term (Const c) = v" if "parse_term v = Inr (Const c)" for c v
    using that by (auto elim: parse_term_cases)
  from InAtom.prems show ?case
  proof (cases rule: parse_atom_cases)
    case (In var vals x' cs')
    have "map (\<lambda>c. c) cs = vals"
      using In const by (intro mapE_lower [of "\<lambda>v. bindE (parse_term v) as_const"]) (auto simp: err_simps as_const_Inr)
    with In show ?thesis by (auto elim: parse_term_cases)
  qed simp_all
next
  case (BuiltinAtom op ts)
  from BuiltinAtom.prems show ?case
    by (cases rule: parse_atom_cases) (auto intro!: mapE_lower [of parse_term] BuiltinAtom.IH)
next
  case (NotAtom e)
  from NotAtom.prems show ?case by (cases rule: parse_atom_cases) (auto simp: NotAtom.IH)
next
  case (AndExpr atoms)
  from AndExpr.prems show ?case
    by (cases rule: parse_expr_cases) (auto intro!: mapE_lower [of parse_atom] AndExpr.IH)
next
  case (OrExpr branches)
  from OrExpr.prems show ?case
  proof (cases rule: parse_expr_cases)
    case (Or items branches')
    have "map (\<lambda>atoms. PList (map lower_atom atoms)) branches = items"
    proof (rule nth_equalityI)
      fix i assume i: "i < length (map (\<lambda>atoms. PList (map lower_atom atoms)) branches)"
      then obtain vs where vs: "items ! i = PList vs" "mapE parse_atom vs = Inr (branches ! i)"
        using Or list_all2_nthD2 [OF Or(4), of i] by auto
      have "map lower_atom (branches ! i) = vs"
        using i by (intro mapE_lower [OF vs(2)] OrExpr.IH) auto
      then show "map (\<lambda>atoms. PList (map lower_atom atoms)) branches ! i = items ! i" using i vs by simp
    qed (use Or list_all2_lengthD [OF Or(4)] in simp)
    with Or show ?thesis by simp
  qed simp
qed

end
