(* ===== verification/Py_Order.thy ===== *)
theory Py_Order
  imports Py_Dict
begin

text \<open>
  Python's \<open><\<close>, \<open>sorted\<close>, \<open>min\<close>, \<open>max\<close>, iteration and \<open>repr\<close> on the modelled values.  Values of
  different kinds are not ordered: comparing them raises \<open>TypeError\<close>.
\<close>

section \<open>Comparison\<close>

fun number_less :: "number option \<Rightarrow> number option \<Rightarrow> bool" where
  "number_less (Some x) (Some y) = (\<not> number_le y x)"
| "number_less _ _ = False"

fun py_less :: "pyval \<Rightarrow> pyval \<Rightarrow> bool res"
and py_less_list :: "pyval list \<Rightarrow> pyval list \<Rightarrow> bool res" where
  "py_less (PStr s) w = (case w of PStr t \<Rightarrow> Ok (s < t) | _ \<Rightarrow> Err TypeError)"
| "py_less (PBytes j b) w = (case w of
      PBytes k c \<Rightarrow> if j = BMemoryView \<or> k = BMemoryView then Err TypeError else Ok (b < c)
    | _ \<Rightarrow> Err TypeError)"
| "py_less (PList vs) w = (case w of PList ws \<Rightarrow> py_less_list vs ws | _ \<Rightarrow> Err TypeError)"
| "py_less (PTuple vs) w = (case w of PTuple ws \<Rightarrow> py_less_list vs ws | _ \<Rightarrow> Err TypeError)"
| "py_less PNone w = Err TypeError"
| "py_less (PDict d) w = Err TypeError"
| "py_less v w = (if py_is_number w then Ok (number_less (py_number v) (py_number w)) else Err TypeError)"
| "py_less_list vs [] = Ok False"
| "py_less_list [] (w # ws) = Ok True"
| "py_less_list (v # vs) (w # ws) = (if py_eq v w then py_less_list vs ws else py_less v w)"

section \<open>Sorting\<close>

text \<open>
  A stable sort by insertion.  Which pairs Python's sort compares is its own affair: it raises
  exactly when some pair is not ordered, since otherwise two different orders of the incomparable
  values would both be consistent with the answers it got.
\<close>

fun insertE :: "pyval \<times> 'a \<Rightarrow> (pyval \<times> 'a) list \<Rightarrow> (pyval \<times> 'a) list res" where
  "insertE x [] = Ok [x]"
| "insertE x (y # ys) =
     bindE (py_less (fst x) (fst y)) (\<lambda>less.
       if less then Ok (x # y # ys) else bindE (insertE x ys) (\<lambda>zs. Ok (y # zs)))"

definition sortE :: "(pyval \<times> 'a) list \<Rightarrow> 'a list res" where
  "sortE xs = bindE (foldE (\<lambda>ys x. insertE x ys) [] xs) (\<lambda>ys. Ok (map snd ys))"

definition py_min :: "pyval \<Rightarrow> pyval list \<Rightarrow> pyval res" where
  "py_min v vs = foldE (\<lambda>best w. bindE (py_less w best) (\<lambda>less. Ok (if less then w else best))) v vs"

definition py_max :: "pyval \<Rightarrow> pyval list \<Rightarrow> pyval res" where
  "py_max v vs = foldE (\<lambda>best w. bindE (py_less best w) (\<lambda>less. Ok (if less then w else best))) v vs"

section \<open>Iteration\<close>

definition py_iter :: "pyval \<Rightarrow> pyval list res" where
  "py_iter v = (case v of
      PList vs \<Rightarrow> Ok vs | PTuple vs \<Rightarrow> Ok vs | PDict d \<Rightarrow> Ok (map fst d)
    | PStr s \<Rightarrow> Ok (map (\<lambda>c. PStr [c]) s) | PBytes _ b \<Rightarrow> Ok (map (\<lambda>x. PInt (uint x)) b)
    | _ \<Rightarrow> Err TypeError)"

text \<open>\<open>any(f(x) for x in xs)\<close>.\<close>

primrec anyE :: "('a \<Rightarrow> bool res) \<Rightarrow> 'a list \<Rightarrow> bool res" where
  "anyE f [] = Ok False"
| "anyE f (x # xs) = bindE (f x) (\<lambda>b. if b then Ok True else anyE f xs)"

lemma anyE_cong [fundef_cong]:
  "xs = ys \<Longrightarrow> (\<And>x. x \<in> set ys \<Longrightarrow> f x = g x) \<Longrightarrow> anyE f xs = anyE g ys"
  by (induction ys arbitrary: xs) (auto cong: if_cong)

lemma anyE_True: "anyE f xs = Inr True \<Longrightarrow> \<exists>x \<in> set xs. f x = Inr True"
  by (induction xs) (auto simp: err_simps split: if_split_asm)

lemma anyE_False_iff: "anyE f xs = Inr False \<longleftrightarrow> (\<forall>x \<in> set xs. f x = Inr False)"
  by (induction xs) (auto simp: err_simps split: if_split_asm)

section \<open>\<open>repr\<close>\<close>

text \<open>Text outside printable ASCII, floats and bytes are left out.\<close>

definition repr_char :: "nat \<Rightarrow> nat \<Rightarrow> ustr res" where
  "repr_char quote c =
     (if c = quote \<or> c = 92 then Ok [92, c]
      else if c = 10 then Ok (u [CHR 92, CHR 110]) else if c = 13 then Ok (u [CHR 92, CHR 114])
      else if c = 9 then Ok (u [CHR 92, CHR 116])
      else if 32 \<le> c \<and> c < 127 then Ok [c] else Err NotModelled)"

definition repr_str :: "ustr \<Rightarrow> ustr res" where
  "repr_str s =
     (let quote = (if 39 \<in> set s \<and> 34 \<notin> set s then 34 else 39)
      in bindE (mapE (repr_char quote) s) (\<lambda>cs. Ok ([quote] @ concat cs @ [quote])))"

fun commas :: "ustr list \<Rightarrow> ustr" where
  "commas [] = []"
| "commas [x] = x"
| "commas (x # xs) = x @ u '', '' @ commas xs"

fun py_repr :: "pyval \<Rightarrow> ustr res" where
  "py_repr PNone = Ok (u ''None'')"
| "py_repr (PBool b) = Ok (if b then u ''True'' else u ''False'')"
| "py_repr (PInt i) = Ok (dec_int i)"
| "py_repr (PStr s) = repr_str s"
| "py_repr (PList vs) = bindE (mapE py_repr vs) (\<lambda>rs. Ok (u ''['' @ commas rs @ u '']''))"
| "py_repr (PTuple vs) = bindE (mapE py_repr vs) (\<lambda>rs.
     Ok (u ''('' @ commas rs @ (if length rs = 1 then u '','' else []) @ u '')''))"
| "py_repr _ = Err NotModelled"

end
