(* ===== verification/Where_Atoms.thy ===== *)
theory Where_Atoms
  imports Where_AST Py_Order "HOL-Library.Multiset"
begin

text \<open>
  The raw atoms of a where clause, from \<^verbatim>\<open>core/rules/where_eval.py\<close>: their validation, the variables
  they mention, the normal form of bodies, and the order in which a body is evaluated.  An atom is
  a tuple whose first item is its kind.
\<close>

section \<open>Terms\<close>

definition is_var :: "pyval \<Rightarrow> bool" where
  "is_var v = (case v of PStr s \<Rightarrow> is_var_name s | _ \<Rightarrow> False)"

definition var_of :: "pyval \<Rightarrow> ustr" where
  "var_of v = (case v of PStr s \<Rightarrow> s | _ \<Rightarrow> [])"

definition is_literal :: "pyval \<Rightarrow> bool" where
  "is_literal v = (case v of PBool b \<Rightarrow> True | PInt i \<Rightarrow> True | PStr s \<Rightarrow> \<not> starts_with s (u ''$'') | _ \<Rightarrow> False)"

definition is_aggregate_term :: "pyval \<Rightarrow> bool" where
  "is_aggregate_term v = (case v of PTuple [PStr k, _, _] \<Rightarrow> k \<in> set AGGREGATE_KINDS | _ \<Rightarrow> False)"

definition is_atom :: "pyval \<Rightarrow> bool" where
  "is_atom v = (case v of PTuple (PStr k # _) \<Rightarrow> True | _ \<Rightarrow> False)"

definition ARITH_KINDS :: "ustr list" where
  "ARITH_KINDS = [u ''add'', u ''sub'', u ''neg'', u ''addc'', u ''mulc'']"

definition ORDER_KINDS :: "ustr list" where
  "ORDER_KINDS = [u ''gt'', u ''ge'', u ''lt'', u ''le'']"

definition FILTER_KINDS :: "ustr list" where
  "FILTER_KINDS = [u ''pred'', u ''eq'', u ''ne'', u ''gt'', u ''ge'', u ''lt'', u ''le'', u ''in'', u ''not'']"

definition NOT_KINDS :: "ustr list" where
  "NOT_KINDS = [u ''pred'', u ''eq'', u ''in'', u ''gt'', u ''ge'', u ''lt'', u ''le'', u ''ne''] @ ARITH_KINDS"

text \<open>
  An integer operand: an \<open>int\<close> that is not a \<open>bool\<close>, or its decimal text.  \<open>int()\<close> refuses more than
  4300 digits; digits of other scripts, which the code's pattern admits, are not modelled.
\<close>

definition coerce_cmp_int :: "pyval \<Rightarrow> int res" where
  "coerce_cmp_int v = (case v of
      PInt i \<Rightarrow> Ok i
    | PStr s \<Rightarrow>
        if is_dec_int s then
          (if 4300 < length (filter is_digit s) then Err ValueError else Ok (dec_int_val s))
        else if list_ex (\<lambda>c. 128 \<le> c) s then Err NotModelled
        else Err WhereValidationError
    | _ \<Rightarrow> Err WhereValidationError)"

definition coerce_arith_int :: "pyval \<Rightarrow> int res" where
  "coerce_arith_int v = (case v of
      PInt i \<Rightarrow> Ok i
    | PStr s \<Rightarrow>
        if is_dec_int s then
          (if 4300 < length (filter is_digit s) then Err ValueError else Ok (dec_int_val s))
        else if list_ex (\<lambda>c. 128 \<le> c) s then Err NotModelled
        else Err WhereValidationError
    | _ \<Rightarrow> Err WhereValidationError)"

definition cmp_holds :: "ustr \<Rightarrow> int \<Rightarrow> int \<Rightarrow> bool res" where
  "cmp_holds kind a b =
     (if kind = u ''gt'' then Ok (a > b) else if kind = u ''ge'' then Ok (a \<ge> b)
      else if kind = u ''lt'' then Ok (a < b) else if kind = u ''le'' then Ok (a \<le> b)
      else Err WhereValidationError)"

section \<open>Validation\<close>

definition aggregate_target_ok :: "ustr \<Rightarrow> pyval \<Rightarrow> bool" where
  "aggregate_target_ok kind target \<longleftrightarrow>
     (if kind = u ''count'' then target = PNone
      else target \<noteq> PNone \<and>
        \<not> (kind \<in> {u ''sum'', u ''mean''} \<and> (case target of PBool _ \<Rightarrow> True | _ \<Rightarrow> False)) \<and>
        \<not> (kind \<in> {u ''sum'', u ''mean''} \<and> is_literal target \<and> (case target of PStr _ \<Rightarrow> True | _ \<Rightarrow> False)))"

definition atom_kind_of :: "pyval \<Rightarrow> ustr" where
  "atom_kind_of a = (case a of PTuple (PStr k # _) \<Rightarrow> k | _ \<Rightarrow> [])"

fun validate_atom :: "pyval \<Rightarrow> unit res"
and validate_eval_term :: "pyval \<Rightarrow> unit res"
and raw_atom_contains_aggregate :: "pyval \<Rightarrow> bool res"
and normalize_not_body :: "pyval \<Rightarrow> pyval list list res" where
  "validate_atom atom = (case atom of
      PTuple (PStr kind # args) \<Rightarrow>
        if kind = u ''pred'' then
          (case args of
             [pred_id, PList terms] \<Rightarrow> if list_ex is_aggregate_term terms then Err WhereValidationError else Ok ()
           | _ \<Rightarrow> Err WhereValidationError)
        else if kind = u ''eq'' \<or> kind = u ''ne'' then
          (case args of
             [lhs, rhs] \<Rightarrow> bindE (validate_eval_term lhs) (\<lambda>_. validate_eval_term rhs)
           | _ \<Rightarrow> Err WhereValidationError)
        else if kind = u ''in'' then
          (case args of
             [var, PList vs] \<Rightarrow> if is_var var then Ok () else Err WhereValidationError
           | _ \<Rightarrow> Err WhereValidationError)
        else if kind \<in> set ORDER_KINDS then
          (case args of
             [lhs, rhs] \<Rightarrow>
               bindE (validate_eval_term lhs) (\<lambda>_. bindE (validate_eval_term rhs) (\<lambda>_.
                 if \<not> is_var lhs \<and> \<not> is_var rhs \<and> \<not> is_aggregate_term lhs \<and> \<not> is_aggregate_term rhs
                 then Err WhereValidationError else Ok ()))
           | _ \<Rightarrow> Err WhereValidationError)
        else if kind = u ''add'' \<or> kind = u ''sub'' then
          (case args of
             [z, x, y] \<Rightarrow>
               if \<not> is_var z then Err WhereValidationError
               else bindE (validate_eval_term x) (\<lambda>_. validate_eval_term y)
           | _ \<Rightarrow> Err WhereValidationError)
        else if kind = u ''neg'' then
          (case args of
             [z, x] \<Rightarrow> if \<not> is_var z then Err WhereValidationError else validate_eval_term x
           | _ \<Rightarrow> Err WhereValidationError)
        else if kind = u ''addc'' \<or> kind = u ''mulc'' then
          (case args of
             [z, x, c] \<Rightarrow>
               if \<not> is_var z then Err WhereValidationError
               else bindE (validate_eval_term x) (\<lambda>_.
                 if is_var c \<or> \<not> is_literal c then Err WhereValidationError
                 else bindE (coerce_arith_int c) (\<lambda>_. Ok ()))
           | _ \<Rightarrow> Err WhereValidationError)
        else if kind = u ''not'' then
          (case args of [PList body] \<Rightarrow> Ok () | _ \<Rightarrow> Err WhereValidationError)
        else Err WhereValidationError
    | _ \<Rightarrow> Err WhereValidationError)"
| "validate_eval_term t =
     (if is_var t \<or> is_literal t then Ok ()
      else if is_aggregate_term t then
        (case t of
           PTuple [PStr kind, target, PList filter_atoms] \<Rightarrow>
             if \<not> aggregate_target_ok kind target then Err WhereValidationError
             else if filter_atoms = [] then Err WhereValidationError
             else forE (\<lambda>a. bindE (raw_atom_contains_aggregate a) (\<lambda>b.
               if b then Err WhereValidationError
               else bindE (validate_atom a) (\<lambda>_.
                 if atom_kind_of a \<notin> set FILTER_KINDS then Err WhereValidationError else Ok ()))) filter_atoms
         | _ \<Rightarrow> Err WhereValidationError)
      else Err WhereValidationError)"
| "raw_atom_contains_aggregate atom = (case atom of
      PTuple (PStr kind # args) \<Rightarrow>
        if kind \<in> set ARITH_KINDS then Ok True
        else if kind = u ''pred'' then
          (case args of
             [pred_id, terms] \<Rightarrow> bindE (py_iter terms) (\<lambda>ts. Ok (list_ex is_aggregate_term ts))
           | _ \<Rightarrow> Ok False)
        else if kind \<in> set (u ''eq'' # u ''ne'' # ORDER_KINDS) then
          (case args of [lhs, rhs] \<Rightarrow> Ok (is_aggregate_term lhs \<or> is_aggregate_term rhs) | _ \<Rightarrow> Ok False)
        else if kind = u ''in'' then
          (case args of
             [var, vs] \<Rightarrow>
               if is_aggregate_term var then Ok True
               else bindE (py_iter vs) (\<lambda>vs. Ok (list_ex is_aggregate_term vs))
           | _ \<Rightarrow> Ok False)
        else if kind = u ''not'' then
          (case args of
             [body] \<Rightarrow>
               bindE (normalize_not_body body) (\<lambda>_. case body of
                 PList items \<Rightarrow> anyE (\<lambda>item. case item of
                     PList branch \<Rightarrow> anyE raw_atom_contains_aggregate branch
                   | _ \<Rightarrow> raw_atom_contains_aggregate item) items
               | _ \<Rightarrow> Ok False)
           | _ \<Rightarrow> Ok False)
        else Ok False
    | _ \<Rightarrow> Ok False)"
| "normalize_not_body not_body = (case not_body of
      PList items \<Rightarrow>
        if items = [] then Err WhereValidationError
        else if list_all is_atom items then
          bindE (forE (\<lambda>a. if atom_kind_of a \<notin> set NOT_KINDS then Err WhereValidationError else validate_atom a) items)
            (\<lambda>_. Ok [items])
        else if list_all is_PList items then
          mapE (\<lambda>item. case item of
              PList branch \<Rightarrow>
                if branch = [] then Err WhereValidationError
                else if \<not> list_all is_atom branch then Err WhereValidationError
                else bindE (forE (\<lambda>a. if atom_kind_of a \<notin> set NOT_KINDS then Err WhereValidationError
                                       else validate_atom a) branch) (\<lambda>_. Ok branch)
            | _ \<Rightarrow> Err WhereValidationError) items
        else Err WhereValidationError
    | _ \<Rightarrow> Err WhereValidationError)"

declare validate_atom.simps [simp del] validate_eval_term.simps [simp del]
  raw_atom_contains_aggregate.simps [simp del] normalize_not_body.simps [simp del]

definition normalize_where :: "pyval \<Rightarrow> pyval list list res" where
  "normalize_where w = (case w of
      PList items \<Rightarrow>
        if items = [] then Err WhereValidationError
        else if list_all is_atom items then bindE (forE validate_atom items) (\<lambda>_. Ok [items])
        else if list_all is_PList items then
          mapE (\<lambda>item. case item of
              PList branch \<Rightarrow>
                if branch = [] then Err WhereValidationError
                else if \<not> list_all is_atom branch then Err WhereValidationError
                else bindE (forE validate_atom branch) (\<lambda>_. Ok branch)
            | _ \<Rightarrow> Err WhereValidationError) items
        else Err WhereValidationError
    | _ \<Rightarrow> Err WhereValidationError)"

section \<open>Variables\<close>

definition var_terms :: "pyval list \<Rightarrow> ustr list" where
  "var_terms ts = map var_of (filter is_var ts)"

definition term_known_for_plan :: "ustr set \<Rightarrow> pyval \<Rightarrow> bool" where
  "term_known_for_plan bound t \<longleftrightarrow> is_aggregate_term t \<or> (is_var t \<longrightarrow> var_of t \<in> bound)"

definition eq_binds :: "ustr set \<Rightarrow> pyval \<Rightarrow> pyval \<Rightarrow> ustr set" where
  "eq_binds bound l r =
     (if is_var l \<and> term_known_for_plan bound r then {var_of l} else {}) \<union>
     (if is_var r \<and> term_known_for_plan bound l then {var_of r} else {})"

fun scan_vars :: "ustr set \<Rightarrow> ustr set \<Rightarrow> pyval list \<Rightarrow> ustr set res"
and visible_vars_in_term :: "ustr set \<Rightarrow> pyval \<Rightarrow> ustr set res" where
  "scan_vars found bound [] = Ok found"
| "scan_vars found bound (atom # atoms) = (case atom of
      PTuple (PStr kind # args) \<Rightarrow>
        if kind = u ''pred'' then
          (case args of
             [_, terms] \<Rightarrow> bindE (py_iter terms) (\<lambda>ts.
               scan_vars (found \<union> set (var_terms ts)) (bound \<union> set (var_terms ts)) atoms)
           | _ \<Rightarrow> Err ValueError)
        else if kind = u ''eq'' then
          (case args of
             [l, r] \<Rightarrow>
               bindE (visible_vars_in_term bound l) (\<lambda>vl.
               bindE (visible_vars_in_term bound r) (\<lambda>vr.
                 scan_vars (found \<union> vl \<union> vr) (bound \<union> eq_binds bound l r) atoms))
           | _ \<Rightarrow> Err ValueError)
        else if kind = u ''in'' then
          (case args of
             [var, _] \<Rightarrow> scan_vars (if is_var var then insert (var_of var) found else found) bound atoms
           | _ \<Rightarrow> Err ValueError)
        else if kind \<in> set (u ''ne'' # ORDER_KINDS) then
          (case args of
             [l, r] \<Rightarrow>
               bindE (visible_vars_in_term bound l) (\<lambda>vl.
               bindE (visible_vars_in_term bound r) (\<lambda>vr.
                 scan_vars (found \<union> vl \<union> vr) bound atoms))
           | _ \<Rightarrow> Err ValueError)
        else if kind \<in> set ARITH_KINDS then
          bindE (mapE (visible_vars_in_term bound) args) (\<lambda>vs.
            scan_vars (found \<union> \<Union> (set vs))
              (case args of z # _ \<Rightarrow> if is_var z then insert (var_of z) bound else bound | [] \<Rightarrow> bound) atoms)
        else scan_vars found bound atoms
    | _ \<Rightarrow> Err NotModelled)"
| "visible_vars_in_term bound t =
     (if is_var t then Ok {var_of t}
      else (case t of
         PTuple [PStr kind, target, flt] \<Rightarrow>
           if kind \<notin> set AGGREGATE_KINDS then Ok {}
           else bindE (if target = PNone then Ok {} else visible_vars_in_term bound target) (\<lambda>tv.
             (case flt of
                PList fs \<Rightarrow> bindE (scan_vars {} {} fs) (\<lambda>fv. Ok (tv \<union> (fv \<inter> bound)))
              | _ \<Rightarrow> Err NotModelled))
       | _ \<Rightarrow> Ok {}))"

declare visible_vars_in_term.simps [simp del] scan_vars.simps(2) [simp del]

definition vars_in_atoms :: "pyval list \<Rightarrow> ustr set res" where
  "vars_in_atoms body = scan_vars {} {} body"

definition vars_in_not_bodies :: "pyval list list \<Rightarrow> ustr set res" where
  "vars_in_not_bodies bodies = bindE (mapE vars_in_atoms bodies) (\<lambda>vs. Ok (\<Union> (set vs)))"

section \<open>The evaluation order of a body\<close>

definition is_system_identity_var :: "pyval \<Rightarrow> bool" where
  "is_system_identity_var t = (case t of PStr s \<Rightarrow> starts_with s (u ''$__identity_'') | _ \<Rightarrow> False)"

definition body_has_system_identity_signal :: "pyval list \<Rightarrow> bool" where
  "body_has_system_identity_signal body \<longleftrightarrow>
     list_ex (\<lambda>a. case a of
       PTuple [PStr k, _, PList terms] \<Rightarrow> k = u ''pred'' \<and> list_ex is_system_identity_var terms | _ \<Rightarrow> False) body"

definition not_vars :: "pyval \<Rightarrow> ustr set res" where
  "not_vars body = bindE (normalize_not_body body) vars_in_not_bodies"

definition atom_ready_for_eval :: "bool \<Rightarrow> ustr set \<Rightarrow> pyval \<Rightarrow> bool res" where
  "atom_ready_for_eval gate bound atom = (case atom of
      PTuple (PStr kind # args) \<Rightarrow>
        if kind = u ''pred'' then Ok True
        else if kind = u ''eq'' then
          (case args of
             [l, r] \<Rightarrow> Ok (\<not> gate \<or> term_known_for_plan bound l \<or> term_known_for_plan bound r)
           | _ \<Rightarrow> Err ValueError)
        else if kind = u ''in'' then
          (case args of
             [var, _] \<Rightarrow> Ok (\<not> gate \<or> (is_var var \<and> var_of var \<in> bound))
           | _ \<Rightarrow> Err ValueError)
        else if kind \<in> set (u ''ne'' # ORDER_KINDS) then
          (case args of
             [l, r] \<Rightarrow> Ok (\<not> gate \<or> (term_known_for_plan bound l \<and> term_known_for_plan bound r))
           | _ \<Rightarrow> Err ValueError)
        else if kind = u ''add'' \<or> kind = u ''sub'' then
          (case args of
             [_, x, y] \<Rightarrow> Ok (\<not> gate \<or> (term_known_for_plan bound x \<and> term_known_for_plan bound y))
           | _ \<Rightarrow> Err ValueError)
        else if kind = u ''neg'' then
          (case args of [_, x] \<Rightarrow> Ok (\<not> gate \<or> term_known_for_plan bound x) | _ \<Rightarrow> Err ValueError)
        else if kind = u ''addc'' \<or> kind = u ''mulc'' then
          (case args of [_, x, _] \<Rightarrow> Ok (\<not> gate \<or> term_known_for_plan bound x) | _ \<Rightarrow> Err ValueError)
        else if kind = u ''not'' then
          (case args of
             [body] \<Rightarrow> bindE (not_vars body) (\<lambda>vs. Ok (\<not> gate \<or> vs \<inter> bound \<noteq> {}))
           | _ \<Rightarrow> Err ValueError)
        else Ok True
    | _ \<Rightarrow> Err NotModelled)"

type_synonym score = "int \<times> int \<times> int \<times> int \<times> int"

definition known_count :: "ustr set \<Rightarrow> pyval list \<Rightarrow> int" where
  "known_count bound ts = int (length (filter (term_known_for_plan bound) ts))"

definition atom_eval_score :: "ustr set \<Rightarrow> pyval \<Rightarrow> score res" where
  "atom_eval_score bound atom = (case atom of
      PTuple (PStr kind # args) \<Rightarrow>
        if kind = u ''pred'' then
          (case args of
             [pred_id, terms] \<Rightarrow> bindE (py_iter terms) (\<lambda>ts.
               Ok (50, known_count bound ts,
                   int (length (filter (\<lambda>t. is_var t \<and> var_of t \<in> bound) ts)),
                   - int (length (filter (\<lambda>t. is_var t \<and> var_of t \<notin> bound) ts)),
                   if (case pred_id of PStr p \<Rightarrow> ends_with p (u '':exists'') | _ \<Rightarrow> False) then - 1 else 0))
           | _ \<Rightarrow> Err ValueError)
        else if kind = u ''eq'' then
          (case args of
             [l, r] \<Rightarrow>
               Ok (40, of_bool (is_var l \<and> var_of l \<notin> bound \<and> term_known_for_plan bound r) +
                       of_bool (is_var r \<and> var_of r \<notin> bound \<and> term_known_for_plan bound l),
                   known_count bound [l, r], 0, 0)
           | _ \<Rightarrow> Err ValueError)
        else if kind \<in> set ARITH_KINDS then
          (case args of
             z # inputs \<Rightarrow> Ok (30, of_bool (is_var z \<and> var_of z \<notin> bound), known_count bound inputs, 0, 0)
           | [] \<Rightarrow> Ok (30, 0, 0, 0, 0))
        else if kind \<in> set (u ''in'' # u ''ne'' # ORDER_KINDS) then
          (let l = (case args of x # _ \<Rightarrow> x | [] \<Rightarrow> PNone); r = (case args of _ # y # _ \<Rightarrow> y | _ \<Rightarrow> PNone)
           in Ok (20, known_count bound [l, r], 0, 0, 0))
        else if kind = u ''not'' then
          (case args of
             body # _ \<Rightarrow> bindE (not_vars body) (\<lambda>vs. Ok (10, int (card (vs \<inter> bound)), 0, 0, 0))
           | [] \<Rightarrow> Err IndexError)
        else Ok (0, 0, 0, 0, 0)
    | _ \<Rightarrow> Err NotModelled)"

definition update_bound_vars_for_plan :: "ustr set \<Rightarrow> pyval \<Rightarrow> ustr set res" where
  "update_bound_vars_for_plan bound atom = (case atom of
      PTuple (PStr kind # args) \<Rightarrow>
        if kind = u ''pred'' then
          (case args of
             [_, terms] \<Rightarrow> bindE (py_iter terms) (\<lambda>ts. Ok (bound \<union> set (var_terms ts)))
           | _ \<Rightarrow> Err ValueError)
        else if kind = u ''eq'' then
          (case args of [l, r] \<Rightarrow> Ok (bound \<union> eq_binds bound l r) | _ \<Rightarrow> Err ValueError)
        else if kind \<in> set ARITH_KINDS then
          (case args of z # _ \<Rightarrow> Ok (if is_var z then insert (var_of z) bound else bound) | [] \<Rightarrow> Err IndexError)
        else Ok bound
    | _ \<Rightarrow> Err NotModelled)"

text \<open>The first of the ready atoms with the greatest score.\<close>

fun select_atom :: "bool \<Rightarrow> ustr set \<Rightarrow> nat \<Rightarrow> pyval list \<Rightarrow> (nat \<times> score) option \<Rightarrow> (nat \<times> score) option res" where
  "select_atom gate bound idx [] best = Ok best"
| "select_atom gate bound idx (atom # atoms) best =
     bindE (atom_ready_for_eval gate bound atom) (\<lambda>ready.
       if \<not> ready then select_atom gate bound (Suc idx) atoms best
       else bindE (atom_eval_score bound atom) (\<lambda>score.
         select_atom gate bound (Suc idx) atoms
           (case best of
              None \<Rightarrow> Some (idx, score)
            | Some (_, leader) \<Rightarrow> if leader < score then Some (idx, score) else best)))"

lemma select_atom_bound:
  "select_atom gate bound idx atoms best = Inr (Some (i, s)) \<Longrightarrow> (\<And>j t. best = Some (j, t) \<Longrightarrow> j < n) \<Longrightarrow>
    idx + length atoms \<le> n \<Longrightarrow> i < n"
proof (induction atoms arbitrary: idx best)
  case (Cons atom atoms)
  from Cons.prems(1) obtain ready where ready: "atom_ready_for_eval gate bound atom = Inr ready"
    by (auto simp: err_simps)
  show ?case
  proof (cases ready)
    case False
    with ready Cons.prems show ?thesis by (intro Cons.IH [of "Suc idx" best]) auto
  next
    case True
    with Cons.prems(1) ready obtain score where score: "atom_eval_score bound atom = Inr score"
      by (simp add: bindE_Inr_iff del: split_paired_Ex) blast
    define top2 where "top2 = (case best of
        None \<Rightarrow> Some (idx, score) | Some (_, leader) \<Rightarrow> if leader < score then Some (idx, score) else best)"
    have "j < n" if "top2 = Some (j, t)" for j t
      using that Cons.prems(2,3) by (auto simp: top2_def split: option.splits if_split_asm)
    moreover have "select_atom gate bound (Suc idx) atoms top2 = Inr (Some (i, s))"
      using Cons.prems(1) True ready score by (simp add: top2_def)
    ultimately show ?thesis using Cons.prems(3) by (intro Cons.IH) auto
  qed
qed simp

definition chosen_index :: "(nat \<times> score) option \<Rightarrow> nat" where
  "chosen_index best = (case best of None \<Rightarrow> 0 | Some (i, _) \<Rightarrow> i)"

function plan_loop :: "bool \<Rightarrow> ustr set \<Rightarrow> pyval list \<Rightarrow> pyval list res" where
  "plan_loop gate bound remaining =
     (if remaining = [] then Ok []
      else bindE (select_atom gate bound 0 remaining None) (\<lambda>best.
        let i = chosen_index best; atom = remaining ! i in
        bindE (update_bound_vars_for_plan bound atom) (\<lambda>bound'.
        bindE (plan_loop gate bound' (take i remaining @ drop (Suc i) remaining)) (\<lambda>rest.
          Ok (atom # rest)))))"
  by pat_completeness auto

lemma chosen_index_bound:
  "select_atom gate bound 0 remaining None = Inr best \<Longrightarrow> remaining \<noteq> [] \<Longrightarrow> chosen_index best < length remaining"
  by (cases best) (auto simp: chosen_index_def dest: select_atom_bound [where n = "length remaining"])

termination plan_loop
  by (relation "measure (\<lambda>(_, _, remaining). length remaining)") (auto dest: chosen_index_bound)

declare plan_loop.simps [simp del]

definition plan_body_atoms :: "bool \<Rightarrow> ustr set \<Rightarrow> pyval list \<Rightarrow> pyval list res" where
  "plan_body_atoms gate bound body =
     (if length body \<le> 1 then Ok body
      else if \<not> body_has_system_identity_signal body then Ok body
      else plan_loop gate bound body)"

text \<open>A plan is a permutation of the body.\<close>

lemma mset_plan_loop: "plan_loop gate bound remaining = Inr p \<Longrightarrow> mset p = mset remaining"
proof (induction gate bound remaining arbitrary: p rule: plan_loop.induct)
  case (1 gate bound remaining)
  show ?case
  proof (cases "remaining = []")
    case True
    with 1 show ?thesis by (simp add: plan_loop.simps)
  next
    case False
    with 1(2) obtain best b rest where b: "select_atom gate bound 0 remaining None = Inr best"
      and p: "update_bound_vars_for_plan bound (remaining ! chosen_index best) = Inr b"
        "plan_loop gate b (take (chosen_index best) remaining @ drop (Suc (chosen_index best)) remaining) = Inr rest"
        "p = remaining ! chosen_index best # rest"
      by (subst (asm) plan_loop.simps) (auto simp: err_simps Let_def)
    define i where "i = chosen_index best"
    have i: "i < length remaining" using chosen_index_bound [OF b False] by (simp add: i_def)
    have "mset rest = mset (take i remaining @ drop (Suc i) remaining)"
      using 1(1) [OF False b refl refl p(1)] p(2) by (simp add: i_def)
    then have "mset p = mset (take i remaining @ remaining ! i # drop (Suc i) remaining)"
      by (simp add: p(3) i_def)
    also have "\<dots> = mset remaining" using id_take_nth_drop [OF i] by simp
    finally show ?thesis .
  qed
qed

lemma mset_plan: "plan_body_atoms gate bound body = Inr p \<Longrightarrow> mset p = mset body"
  by (simp add: plan_body_atoms_def mset_plan_loop split: if_split_asm)

end
