(* ===== verification/Where_Validate.thy ===== *)
theory Where_Validate
  imports Where_AST
begin

text \<open>
  Validation of where clauses, from \<^verbatim>\<open>core/rules/where_ast_validate.py\<close> and
  \<^verbatim>\<open>core/rules/backend_profile.py\<close>: the shape of the nodes under a backend's capabilities, and the
  data flow: which variables an atom needs bound, which it binds, and which of its variables
  are visible outside an aggregate.
\<close>

section \<open>Capabilities\<close>

text \<open>An entry of a capability dictionary; every other key is ignored by the validator.\<close>

datatype capability =
    CapMode ustr | CapBuiltinAllow "ustr list" | CapCmpAllow "ustr list" | CapAllowRuleref bool
  | CapAllowNotBodyRuleref bool | CapRulerefPolicy ustr | CapNotBodyPolicy ustr

record where_caps =
  mode :: ustr
  builtin_allow :: "ustr list"
  cmp_allow :: "ustr list"
  allow_ruleref :: bool
  allow_not_body_ruleref :: bool
  ruleref_policy :: ustr
  not_body_policy :: ustr

record backend_profile =
  profile_name :: ustr
  profile_capabilities :: "capability list"

definition PROFILE_DEFAULT :: backend_profile where
  "PROFILE_DEFAULT = \<lparr>profile_name = u ''default'', profile_capabilities = []\<rparr>"

definition PROFILE_SOUFFLE_STRICT :: backend_profile where
  "PROFILE_SOUFFLE_STRICT = \<lparr>profile_name = u ''souffle_strict'',
     profile_capabilities = [CapRulerefPolicy (u ''require_resolved''), CapNotBodyPolicy (u ''forbid_or'')]\<rparr>"

definition DEFAULT_BUILTINS :: "ustr list" where
  "DEFAULT_BUILTINS = [u ''add'', u ''sub'', u ''neg'', u ''addc'', u ''mulc'']"

definition CMP_FILTER_OPS :: "ustr list" where
  "CMP_FILTER_OPS = [u ''gt'', u ''ge'', u ''lt'', u ''le'']"

definition DEFAULT_MODES :: "ustr list" where "DEFAULT_MODES = [u ''python'', u ''souffle'']"

definition RULEREF_POLICIES :: "ustr list" where
  "RULEREF_POLICIES = [u ''allow'', u ''require_resolved'', u ''forbid'']"

definition NOT_BODY_POLICIES :: "ustr list" where
  "NOT_BODY_POLICIES = [u ''allow'', u ''require_correlated'', u ''forbid_or'', u ''forbid'']"

definition AGGREGATE_FILTER_TOP_LEVEL_ALLOWED :: "ustr list" where
  "AGGREGATE_FILTER_TOP_LEVEL_ALLOWED =
     [u ''pred'', u ''eq'', u ''ne'', u ''gt'', u ''ge'', u ''lt'', u ''le'', u ''in'', u ''not'']"

definition AGGREGATE_FILTER_NOT_BODY_ALLOWED :: "ustr list" where
  "AGGREGATE_FILTER_NOT_BODY_ALLOWED = filter (\<lambda>k. k \<noteq> u ''not'') AGGREGATE_FILTER_TOP_LEVEL_ALLOWED"

fun apply_capability :: "where_caps \<Rightarrow> capability \<Rightarrow> where_caps" where
  "apply_capability c (CapMode m) = c\<lparr>mode := m\<rparr>"
| "apply_capability c (CapBuiltinAllow bs) = c\<lparr>builtin_allow := bs\<rparr>"
| "apply_capability c (CapCmpAllow ops) = c\<lparr>cmp_allow := ops\<rparr>"
| "apply_capability c (CapAllowRuleref b) = c\<lparr>allow_ruleref := b\<rparr>"
| "apply_capability c (CapAllowNotBodyRuleref b) = c\<lparr>allow_not_body_ruleref := b\<rparr>"
| "apply_capability c (CapRulerefPolicy p) = c\<lparr>ruleref_policy := p\<rparr>"
| "apply_capability c (CapNotBodyPolicy p) = c\<lparr>not_body_policy := p\<rparr>"

definition capabilities_for_mode :: "ustr \<Rightarrow> capability list \<Rightarrow> where_caps res" where
  "capabilities_for_mode m overrides =
     (let caps = foldl apply_capability
        \<lparr>mode = m, builtin_allow = DEFAULT_BUILTINS, cmp_allow = CMP_OPS, allow_ruleref = True,
         allow_not_body_ruleref = False, ruleref_policy = u ''allow'', not_body_policy = u ''allow''\<rparr> overrides
      in if ruleref_policy caps \<notin> set RULEREF_POLICIES then Err WhereASTValidationError
         else if not_body_policy caps \<notin> set NOT_BODY_POLICIES then Err WhereASTValidationError
         else Ok caps)"

definition normalize_initial_bound_vars :: "ustr list option \<Rightarrow> ustr set res" where
  "normalize_initial_bound_vars initial = (case initial of
      None \<Rightarrow> Ok {}
    | Some xs \<Rightarrow> bindE (forE (\<lambda>x. if starts_with x (u ''$'') \<and> 2 \<le> length x then Ok () else Err WhereASTValidationError) xs)
        (\<lambda>_. Ok (set xs)))"

section \<open>Variables\<close>

fun vars_in_term :: "where_term \<Rightarrow> ustr set"
and vars_in_atom :: "where_atom \<Rightarrow> ustr set"
and vars_in_body :: "where_expr \<Rightarrow> ustr set" where
  "vars_in_term (Var x) = {x}"
| "vars_in_term (Const c) = {}"
| "vars_in_term (AggregateAtom k t atoms) =
     (case t of None \<Rightarrow> {} | Some t \<Rightarrow> vars_in_term t) \<union> (\<Union>a \<in> set atoms. vars_in_atom a)"
| "vars_in_atom (PredAtom p ts) = (\<Union>t \<in> set ts. vars_in_term t)"
| "vars_in_atom (RuleRefAtom r v ts) = (\<Union>t \<in> set ts. vars_in_term t)"
| "vars_in_atom (CmpAtom op l r) = vars_in_term l \<union> vars_in_term r"
| "vars_in_atom (InAtom x cs) = {x}"
| "vars_in_atom (BuiltinAtom op ts) = (\<Union>t \<in> set ts. vars_in_term t)"
| "vars_in_atom (NotAtom e) = vars_in_body e"
| "vars_in_body (AndExpr atoms) = (\<Union>a \<in> set atoms. vars_in_atom a)"
| "vars_in_body (OrExpr branches) = (\<Union>b \<in> set branches. \<Union>a \<in> set b. vars_in_atom a)"

definition vars_in_terms :: "where_term list \<Rightarrow> ustr set" where
  "vars_in_terms ts = (\<Union>t \<in> set ts. vars_in_term t)"

definition target_vars :: "where_term option \<Rightarrow> ustr set" where
  "target_vars t = (case t of None \<Rightarrow> {} | Some t \<Rightarrow> vars_in_term t)"

definition filter_vars :: "where_atom list \<Rightarrow> ustr set" where
  "filter_vars atoms = (\<Union>a \<in> set atoms. vars_in_atom a)"

text \<open>An aggregate as its target and filter.\<close>

fun aggregates_in_term :: "where_term \<Rightarrow> (where_term option \<times> where_atom list) list" where
  "aggregates_in_term (AggregateAtom k t atoms) =
     (t, atoms) # (case t of None \<Rightarrow> [] | Some t \<Rightarrow> aggregates_in_term t)"
| "aggregates_in_term _ = []"

definition aggregates_in_atom :: "where_atom \<Rightarrow> (where_term option \<times> where_atom list) list" where
  "aggregates_in_atom a = (case a of
      CmpAtom op l r \<Rightarrow> aggregates_in_term l @ aggregates_in_term r
    | BuiltinAtom op ts \<Rightarrow> concat (map aggregates_in_term ts)
    | _ \<Rightarrow> [])"

definition outer_visible_vars_in_term :: "ustr set \<Rightarrow> where_term \<Rightarrow> ustr set" where
  "outer_visible_vars_in_term outer t = (case t of
      Var x \<Rightarrow> {x}
    | Const c \<Rightarrow> {}
    | AggregateAtom k t atoms \<Rightarrow> target_vars t \<union> (filter_vars atoms \<inter> outer))"

fun outer_visible_vars_in_atom :: "ustr set \<Rightarrow> where_atom \<Rightarrow> ustr set" where
  "outer_visible_vars_in_atom outer (PredAtom p ts) = vars_in_terms ts"
| "outer_visible_vars_in_atom outer (RuleRefAtom r v ts) = vars_in_terms ts"
| "outer_visible_vars_in_atom outer (CmpAtom op l r) =
     outer_visible_vars_in_term outer l \<union> outer_visible_vars_in_term outer r"
| "outer_visible_vars_in_atom outer (InAtom x cs) = {x}"
| "outer_visible_vars_in_atom outer (BuiltinAtom op ts) = (\<Union>t \<in> set ts. outer_visible_vars_in_term outer t)"
| "outer_visible_vars_in_atom outer (NotAtom (AndExpr atoms)) = (\<Union>a \<in> set atoms. outer_visible_vars_in_atom outer a)"
| "outer_visible_vars_in_atom outer (NotAtom (OrExpr branches)) =
     (\<Union>b \<in> set branches. \<Union>a \<in> set b. outer_visible_vars_in_atom outer a)"

section \<open>Shape\<close>

definition atom_kind :: "where_atom \<Rightarrow> ustr" where
  "atom_kind a = (case a of
      PredAtom p ts \<Rightarrow> u ''pred'' | CmpAtom op l r \<Rightarrow> op | InAtom x cs \<Rightarrow> u ''in''
    | BuiltinAtom op ts \<Rightarrow> op | NotAtom e \<Rightarrow> u ''not'' | RuleRefAtom r v ts \<Rightarrow> u ''ruleref'')"

definition branches_of :: "where_expr \<Rightarrow> where_atom list list" where
  "branches_of e = (case e of AndExpr atoms \<Rightarrow> [atoms] | OrExpr branches \<Rightarrow> branches)"

definition validate_aggregate_head :: "ustr \<Rightarrow> where_term option \<Rightarrow> where_atom list \<Rightarrow> unit res" where
  "validate_aggregate_head kind t atoms =
     (if kind \<notin> set AGGREGATE_KINDS then Err AggregateValidationError
      else if kind = u ''count'' \<and> t \<noteq> None then Err AggregateValidationError
      else if kind \<noteq> u ''count'' \<and> t = None then Err AggregateValidationError
      else if kind \<in> {u ''sum'', u ''mean''} \<and>
        (case t of Some (Const c) \<Rightarrow> (case c of PInt _ \<Rightarrow> False | PFloat _ \<Rightarrow> False | _ \<Rightarrow> True) | _ \<Rightarrow> False)
      then Err AggregateValidationError
      else if atoms = [] then Err AggregateValidationError
      else Ok ())"

fun validate_term_shape :: "bool \<Rightarrow> where_term \<Rightarrow> unit res"
and validate_aggregate_filter_atom_shape :: "where_atom \<Rightarrow> unit res" where
  "validate_term_shape allow_aggregate (Var x) =
     (if starts_with x (u ''$'') \<and> 2 \<le> length x then Ok () else Err WhereASTValidationError)"
| "validate_term_shape allow_aggregate (Const c) = Ok ()"
| "validate_term_shape allow_aggregate (AggregateAtom kind t atoms) =
     (if \<not> allow_aggregate then Err AggregateValidationError
      else bindE (validate_aggregate_head kind t atoms) (\<lambda>_.
        forE (\<lambda>a. if atom_kind a \<notin> set AGGREGATE_FILTER_TOP_LEVEL_ALLOWED then Err AggregateValidationError
                  else validate_aggregate_filter_atom_shape a) atoms))"
| "validate_aggregate_filter_atom_shape (PredAtom p ts) = forE (validate_term_shape False) ts"
| "validate_aggregate_filter_atom_shape (CmpAtom op l r) =
     bindE (validate_term_shape False l) (\<lambda>_. validate_term_shape False r)"
| "validate_aggregate_filter_atom_shape (InAtom x cs) =
     (if starts_with x (u ''$'') \<and> 2 \<le> length x then Ok () else Err WhereASTValidationError)"
| "validate_aggregate_filter_atom_shape (NotAtom (AndExpr atoms)) =
     forE (\<lambda>a. if atom_kind a \<notin> set AGGREGATE_FILTER_NOT_BODY_ALLOWED then Err AggregateValidationError
               else validate_aggregate_filter_atom_shape a) atoms"
| "validate_aggregate_filter_atom_shape (NotAtom (OrExpr branches)) =
     forE (\<lambda>b. forE (\<lambda>a. if atom_kind a \<notin> set AGGREGATE_FILTER_NOT_BODY_ALLOWED then Err AggregateValidationError
                         else validate_aggregate_filter_atom_shape a) b) branches"
| "validate_aggregate_filter_atom_shape _ = Err AggregateValidationError"

definition validate_builtin_shape :: "ustr \<Rightarrow> where_term list \<Rightarrow> unit res" where
  "validate_builtin_shape op args =
     (if op \<in> {u ''add'', u ''sub''} then
        (case args of [Var z, x, y] \<Rightarrow> Ok () | _ \<Rightarrow> Err WhereASTValidationError)
      else if op = u ''neg'' then (case args of [Var z, x] \<Rightarrow> Ok () | _ \<Rightarrow> Err WhereASTValidationError)
      else if op \<in> {u ''addc'', u ''mulc''} then
        (case args of [Var z, x, Const c] \<Rightarrow> Ok () | _ \<Rightarrow> Err WhereASTValidationError)
      else Err WhereASTValidationError)"

definition validate_not_body_subset :: "where_expr \<Rightarrow> unit res" where
  "validate_not_body_subset e =
     forE (forE (\<lambda>a. case a of
         PredAtom p ts \<Rightarrow> Ok () | CmpAtom op l r \<Rightarrow> Ok () | InAtom x cs \<Rightarrow> Ok () | BuiltinAtom op ts \<Rightarrow> Ok ()
       | _ \<Rightarrow> Err WhereASTValidationError)) (branches_of e)"

definition non_empty_name :: "pyval \<Rightarrow> unit res" where
  "non_empty_name v = (case v of PStr s \<Rightarrow> if s = [] then Err WhereASTValidationError else Ok () | _ \<Rightarrow> Err WhereASTValidationError)"

fun validate_expr_shape :: "where_caps \<Rightarrow> bool \<Rightarrow> where_expr \<Rightarrow> unit res"
and validate_atom_shape :: "where_caps \<Rightarrow> bool \<Rightarrow> where_atom \<Rightarrow> unit res" where
  "validate_expr_shape caps in_not_body (AndExpr atoms) =
     (if atoms = [] then Err WhereASTValidationError else forE (validate_atom_shape caps in_not_body) atoms)"
| "validate_expr_shape caps in_not_body (OrExpr branches) =
     (if branches = [] then Err WhereASTValidationError
      else forE (\<lambda>b. if b = [] then Err WhereASTValidationError
                     else forE (validate_atom_shape caps in_not_body) b) branches)"
| "validate_atom_shape caps in_not_body (PredAtom p ts) =
     bindE (non_empty_name p) (\<lambda>_. if ts = [] then Err WhereASTValidationError else forE (validate_term_shape False) ts)"
| "validate_atom_shape caps in_not_body (RuleRefAtom r v ts) =
     (if mode caps = u ''souffle'' \<and> ruleref_policy caps \<in> {u ''require_resolved'', u ''forbid''} then Err WhereASTValidationError
      else if in_not_body \<and> \<not> allow_not_body_ruleref caps then Err WhereASTValidationError
      else if \<not> allow_ruleref caps then Err WhereASTValidationError
      else bindE (non_empty_name r) (\<lambda>_.
        if v = Some [] then Err WhereASTValidationError
        else if ts = [] then Err WhereASTValidationError else forE (validate_term_shape False) ts))"
| "validate_atom_shape caps in_not_body (CmpAtom op l r) =
     (if op \<notin> set (cmp_allow caps) then Err WhereASTValidationError
      else bindE (validate_term_shape True l) (\<lambda>_. validate_term_shape True r))"
| "validate_atom_shape caps in_not_body (InAtom x cs) =
     bindE (validate_term_shape False (Var x)) (\<lambda>_. if cs = [] then Err WhereASTValidationError else Ok ())"
| "validate_atom_shape caps in_not_body (BuiltinAtom op args) =
     (if op = [] then Err WhereASTValidationError
      else if op \<notin> set (builtin_allow caps) then Err WhereASTValidationError
      else bindE (forE (validate_term_shape True) args) (\<lambda>_. validate_builtin_shape op args))"
| "validate_atom_shape caps in_not_body (NotAtom body) =
     (if mode caps = u ''souffle'' \<and> not_body_policy caps = u ''forbid'' then Err WhereASTValidationError
      else if mode caps = u ''souffle'' \<and> not_body_policy caps = u ''forbid_or'' \<and>
        (case body of OrExpr _ \<Rightarrow> True | AndExpr _ \<Rightarrow> False) then Err WhereASTValidationError
      else bindE (validate_expr_shape caps True body) (\<lambda>_. validate_not_body_subset body))"

section \<open>Data flow\<close>

text \<open>
  A term is resolved when the variables it requires are bound, so \<open>step_effect\<close> of an equation
  asks for the requirements of both sides once.
\<close>

record flow_state =
  flow_bound :: "ustr set"
  local_bound :: "ustr set"
  free_used :: "ustr set"
  bound_outside :: "ustr set"

record atom_effect =
  requires :: "ustr set"
  binds :: "ustr set"
  references :: "ustr set"

definition entry_state :: "ustr set \<Rightarrow> flow_state" where
  "entry_state outside = \<lparr>flow_bound = outside, local_bound = {}, free_used = {}, bound_outside = outside\<rparr>"

definition no_effect :: atom_effect where
  "no_effect = \<lparr>requires = {}, binds = {}, references = {}\<rparr>"

definition filter_effect :: "ustr set \<Rightarrow> ustr set \<Rightarrow> atom_effect" where
  "filter_effect req bs = \<lparr>requires = req, binds = bs, references = req\<rparr>"

definition aggregate_local_only_vars :: "ustr set \<Rightarrow> where_term option \<times> where_atom list \<Rightarrow> ustr set" where
  "aggregate_local_only_vars outer agg = filter_vars (snd agg) - outer - target_vars (fst agg)"

definition validate_aggregate_leaks :: "where_atom \<Rightarrow> ustr set \<Rightarrow> where_atom list \<Rightarrow> unit res" where
  "validate_aggregate_leaks atom bound subsequent =
     (let local_only = (\<Union>agg \<in> set (aggregates_in_atom atom). aggregate_local_only_vars bound agg);
          later = (\<Union>a \<in> set subsequent. outer_visible_vars_in_atom bound a)
      in if local_only \<inter> later \<noteq> {} then Err AggregateVariableScopeError else Ok ())"

definition unbound_var :: "ustr set \<Rightarrow> where_term \<Rightarrow> ustr option" where
  "unbound_var bound t = (case t of Var x \<Rightarrow> if x \<in> bound then None else Some x | _ \<Rightarrow> None)"

definition record_step :: "flow_state \<Rightarrow> atom_effect \<Rightarrow> flow_state" where
  "record_step st eff =
     st\<lparr>free_used := free_used st \<union> {x \<in> references eff. x \<in> bound_outside st \<and> x \<notin> local_bound st},
        flow_bound := flow_bound st \<union> binds eff,
        local_bound := local_bound st \<union> {x \<in> binds eff - flow_bound st. x \<notin> bound_outside st}\<rparr>"

fun validate_expr_dataflow :: "ustr set \<Rightarrow> where_expr \<Rightarrow> flow_state res"
and validate_and_dataflow :: "flow_state \<Rightarrow> where_atom list \<Rightarrow> flow_state res"
and step_effect :: "ustr set \<Rightarrow> where_atom \<Rightarrow> atom_effect res"
and term_requires :: "ustr set \<Rightarrow> where_term \<Rightarrow> ustr set res" where
  "validate_expr_dataflow outside (AndExpr atoms) = validate_and_dataflow (entry_state outside) atoms"
| "validate_expr_dataflow outside (OrExpr branches) =
     (if branches = [] then Err WhereASTValidationError
      else bindE (mapE (validate_and_dataflow (entry_state outside)) branches) (\<lambda>states.
        Ok ((entry_state outside)\<lparr>free_used := (\<Union>s \<in> set states. free_used s)\<rparr>)))"
| "validate_and_dataflow st [] = Ok st"
| "validate_and_dataflow st (a # atoms) = (case a of
      NotAtom body \<Rightarrow>
        bindE (validate_expr_dataflow (flow_bound st) body) (\<lambda>summary.
          if free_used summary = {} then Err WhereASTValidationError
          else if \<not> free_used summary \<subseteq> flow_bound st then Err WhereASTValidationError
          else validate_and_dataflow st atoms)
    | _ \<Rightarrow>
        bindE (validate_aggregate_leaks a (flow_bound st) atoms) (\<lambda>_.
        bindE (step_effect (flow_bound st) a) (\<lambda>eff.
          if \<not> requires eff \<subseteq> flow_bound st then Err WhereASTValidationError
          else validate_and_dataflow (record_step st eff) atoms)))"
| "step_effect bound (PredAtom p ts) =
     Ok \<lparr>requires = {}, binds = vars_in_terms ts, references = vars_in_terms ts \<inter> bound\<rparr>"
| "step_effect bound (RuleRefAtom r v ts) = Ok no_effect"
| "step_effect bound (InAtom x cs) = Ok (filter_effect {x} {})"
| "step_effect bound (BuiltinAtom op args) =
     (if op \<in> {u ''add'', u ''sub''} then
        (case args of
           [z, x, y] \<Rightarrow>
             bindE (term_requires bound x) (\<lambda>rx. bindE (term_requires bound y) (\<lambda>ry.
               (case z of Var z \<Rightarrow> Ok (filter_effect (rx \<union> ry) {z}) | _ \<Rightarrow> Err WhereASTValidationError)))
         | _ \<Rightarrow> Err ValueError)
      else if op = u ''neg'' then
        (case args of
           [z, x] \<Rightarrow>
             bindE (term_requires bound x) (\<lambda>rx.
               (case z of Var z \<Rightarrow> Ok (filter_effect rx {z}) | _ \<Rightarrow> Err WhereASTValidationError))
         | _ \<Rightarrow> Err ValueError)
      else if op \<in> {u ''addc'', u ''mulc''} then
        (case args of
           [z, x, c] \<Rightarrow>
             bindE (term_requires bound x) (\<lambda>rx.
               (case z of Var z \<Rightarrow> Ok (filter_effect rx {z}) | _ \<Rightarrow> Err WhereASTValidationError))
         | _ \<Rightarrow> Err ValueError)
      else Ok no_effect)"
| "step_effect bound (CmpAtom op l r) =
     (if op \<in> set CMP_FILTER_OPS \<or> op = u ''ne'' then
        bindE (term_requires bound l) (\<lambda>rl. bindE (term_requires bound r) (\<lambda>rr. Ok (filter_effect (rl \<union> rr) {})))
      else if op \<noteq> u ''eq'' then Ok no_effect
      else
        bindE (term_requires bound l) (\<lambda>rl.
        bindE (term_requires bound r) (\<lambda>rr.
          let l_ready = rl \<subseteq> bound; r_ready = rr \<subseteq> bound in
          if l_ready \<and> r_ready then Ok (filter_effect (rl \<union> rr) {})
          else (case (if l_ready then unbound_var bound r else None) of
             Some y \<Rightarrow> Ok (filter_effect rl {y})
           | None \<Rightarrow> (case (if r_ready then unbound_var bound l else None) of
               Some x \<Rightarrow> Ok (filter_effect rr {x})
             | None \<Rightarrow> Err WhereASTValidationError)))))"
| "step_effect bound (NotAtom e) = Ok no_effect"
| "term_requires bound (Var x) = Ok {x}"
| "term_requires bound (Const c) = Ok {}"
| "term_requires bound (AggregateAtom k t atoms) =
     bindE (if target_vars t = {} then Ok ()
            else bindE (validate_and_dataflow (entry_state bound) atoms) (\<lambda>st.
              if target_vars t - (bound \<union> flow_bound st) \<noteq> {} then Err AggregateVariableScopeError else Ok ())) (\<lambda>_.
       Ok ((target_vars t \<union> filter_vars atoms) \<inter> bound))"

definition validate_where_ast ::
  "where_expr \<Rightarrow> ustr \<Rightarrow> capability list option \<Rightarrow> backend_profile option \<Rightarrow> ustr list option \<Rightarrow> unit res" where
  "validate_where_ast e m capabilities profile initial_bound_vars =
     (if m \<notin> set DEFAULT_MODES then Err WhereASTValidationError
      else bindE (normalize_initial_bound_vars initial_bound_vars) (\<lambda>bound.
        bindE (capabilities_for_mode m (case capabilities of
            Some cs \<Rightarrow> cs
          | None \<Rightarrow> (case profile of Some p \<Rightarrow> profile_capabilities p | None \<Rightarrow> []))) (\<lambda>caps.
        bindE (validate_expr_shape caps False e) (\<lambda>_.
        bindE (validate_expr_dataflow bound e) (\<lambda>_. Ok ())))))"

definition atom_binds_new_variables :: "pyval \<Rightarrow> ustr list \<Rightarrow> bool res" where
  "atom_binds_new_variables atom_ir bound_vars =
     bindE (normalize_initial_bound_vars (Some bound_vars)) (\<lambda>bound.
     bindE (catchE (parse_where_ir_to_ast (PList [atom_ir])) (\<lambda>e. e = WhereASTError) (\<lambda>_. Err WhereASTValidationError)) (\<lambda>e.
     bindE (capabilities_for_mode (u ''python'') [CapAllowRuleref False]) (\<lambda>caps.
     bindE (validate_expr_shape caps False e) (\<lambda>_.
     bindE (validate_expr_dataflow bound e) (\<lambda>st. Ok (local_bound st - bound \<noteq> {}))))))"

end
