(* ===== verification/Where_Eval.thy ===== *)
theory Where_Eval
  imports Where_Atoms Where_Validate
begin

text \<open>
  The evaluator of where clauses, from \<^verbatim>\<open>core/rules/where_eval.py\<close>.  A binding is a dictionary from
  variable names to values; every atom maps a list of bindings to a list of bindings.  \<open>gate\<close> is
  \<open>ast_gate_on\<close>: with the gate on, an atom whose variables are not bound drops the binding, with
  the gate off it raises.  The cache of fact indexes is left out: an index is a function of the
  facts and the positions.  The average of numbers and sums of floats are not modelled.
\<close>

section \<open>Bindings\<close>

type_synonym env = "(ustr, pyval) dict"
type_synonym view = "(ustr, pyval list list) dict"

text \<open>\<open>AggregateNoValue\<close> is \<open>NoValue\<close>.\<close>

datatype resolved = Unbound | NoValue | Known pyval

definition resolve :: "env \<Rightarrow> pyval \<Rightarrow> resolved" where
  "resolve env t =
     (if is_var t then (case dict_get env (var_of t) of Some v \<Rightarrow> Known v | None \<Rightarrow> Unbound) else Known t)"

section \<open>Predicates\<close>

text \<open>The positions a binding fixes, with their values.\<close>

definition fixed_positions :: "pyval list \<Rightarrow> env \<Rightarrow> (nat \<times> pyval) list" where
  "fixed_positions terms env =
     List.map_filter (\<lambda>(i, t). case resolve env t of Known v \<Rightarrow> Some (i, v) | _ \<Rightarrow> None) (enumerate 0 terms)"

definition fact_index :: "pyval list list \<Rightarrow> nat list \<Rightarrow> pyval list list vdict" where
  "fact_index facts positions = vgroup (map (\<lambda>f. (PTuple (map ((!) f) positions), f)) facts)"

definition pred_candidates_for_env :: "pyval list list \<Rightarrow> pyval list \<Rightarrow> env \<Rightarrow> pyval list list res" where
  "pred_candidates_for_env facts terms env =
     (let fixed = fixed_positions terms env; positions = map fst fixed; key = PTuple (map snd fixed) in
      if fixed = [] then Ok facts
      else if \<not> list_all (\<lambda>f. hashable (PTuple (map ((!) f) positions))) facts then Err TypeError
      else if \<not> hashable key then Err TypeError
      else Ok (case vdict_get (fact_index facts positions) key of None \<Rightarrow> [] | Some fs \<Rightarrow> fs))"

fun match_fact :: "env \<Rightarrow> pyval list \<Rightarrow> pyval list \<Rightarrow> env option" where
  "match_fact env (t # ts) (v # vs) =
     (if is_var t then
        (case dict_get env (var_of t) of
           None \<Rightarrow> match_fact (dict_set (var_of t) v env) ts vs
         | Some bound \<Rightarrow>
             if bound = PNone then match_fact (dict_set (var_of t) v env) ts vs
             else if py_eq bound v then match_fact env ts vs else None)
      else if py_eq t v then match_fact env ts vs else None)"
| "match_fact env _ _ = Some env"

definition eval_pred_atom :: "view \<Rightarrow> env list \<Rightarrow> pyval \<Rightarrow> pyval list \<Rightarrow> env list res" where
  "eval_pred_atom view envs pred_id terms =
     (if \<not> hashable pred_id then Err TypeError
      else (case (case pred_id of PStr p \<Rightarrow> dict_get view p | _ \<Rightarrow> None) of
          None \<Rightarrow> Err WhereValidationError
        | Some facts \<Rightarrow>
            if \<not> list_all (\<lambda>f. length f = length terms) facts then Err WhereValidationError
            else concatE (\<lambda>env. bindE (pred_candidates_for_env facts terms env) (\<lambda>candidates.
              Ok (List.map_filter (\<lambda>f. match_fact env terms f) candidates))) envs))"

section \<open>Filters and arithmetic\<close>

definition unbound_variable :: "bool \<Rightarrow> env list res" where
  "unbound_variable gate = (if gate then Ok [] else Err WhereValidationError)"

definition eval_in_atom :: "bool \<Rightarrow> env list \<Rightarrow> pyval \<Rightarrow> pyval list \<Rightarrow> env list res" where
  "eval_in_atom gate envs var vs =
     (if \<not> list_all hashable vs then Err TypeError
      else concatE (\<lambda>env. case resolve env var of
          Known v \<Rightarrow>
            if \<not> hashable v then Err TypeError else Ok (if list_ex (\<lambda>w. py_eq w v) vs then [env] else [])
        | _ \<Rightarrow> unbound_variable gate) envs)"

definition join_eq :: "bool \<Rightarrow> env \<Rightarrow> pyval \<Rightarrow> pyval \<Rightarrow> resolved \<Rightarrow> resolved \<Rightarrow> env list res" where
  "join_eq gate env lhs rhs l r = (case (l, r) of
      (Known x, Known y) \<Rightarrow> Ok (if py_eq x y then [env] else [])
    | (Known x, Unbound) \<Rightarrow> Ok [dict_set (var_of rhs) x env]
    | (Unbound, Known y) \<Rightarrow> Ok [dict_set (var_of lhs) y env]
    | (Unbound, Unbound) \<Rightarrow> unbound_variable gate
    | _ \<Rightarrow> Ok [])"

definition filter_ne :: "bool \<Rightarrow> env \<Rightarrow> resolved \<Rightarrow> resolved \<Rightarrow> env list res" where
  "filter_ne gate env l r = (case (l, r) of
      (Known x, Known y) \<Rightarrow> Ok (if py_eq x y then [] else [env])
    | (NoValue, _) \<Rightarrow> Ok [] | (_, NoValue) \<Rightarrow> Ok []
    | _ \<Rightarrow> unbound_variable gate)"

definition filter_cmp :: "bool \<Rightarrow> ustr \<Rightarrow> env \<Rightarrow> resolved \<Rightarrow> resolved \<Rightarrow> env list res" where
  "filter_cmp gate kind env l r = (case (l, r) of
      (Known x, Known y) \<Rightarrow>
        bindE (coerce_cmp_int x) (\<lambda>a. bindE (coerce_cmp_int y) (\<lambda>b.
        bindE (cmp_holds kind a b) (\<lambda>holds. Ok (if holds then [env] else []))))
    | (NoValue, _) \<Rightarrow> Ok [] | (_, NoValue) \<Rightarrow> Ok []
    | _ \<Rightarrow> unbound_variable gate)"

text \<open>The operand as an integer; None when the binding is to be dropped.\<close>

definition arith_operand :: "bool \<Rightarrow> resolved \<Rightarrow> int option res" where
  "arith_operand gate r = (case r of
      NoValue \<Rightarrow> Ok None
    | Unbound \<Rightarrow> if gate then Ok None else Err WhereValidationError
    | Known v \<Rightarrow> bindE (coerce_arith_int v) (\<lambda>i. Ok (Some i)))"

definition bind_or_check_result :: "env \<Rightarrow> pyval \<Rightarrow> int \<Rightarrow> env list res" where
  "bind_or_check_result env z i = (case dict_get env (var_of z) of
      Some v \<Rightarrow> bindE (coerce_arith_int v) (\<lambda>existing. Ok (if existing \<noteq> i then [] else [env]))
    | None \<Rightarrow> Ok [dict_set (var_of z) (PInt i) env])"

definition arith_result :: "ustr \<Rightarrow> int \<Rightarrow> int \<Rightarrow> int" where
  "arith_result kind a b =
     (if kind \<in> {u ''add'', u ''addc''} then a + b else if kind = u ''sub'' then a - b else a * b)"

section \<open>Aggregates\<close>

fun collectE :: "(env \<Rightarrow> resolved res) \<Rightarrow> env list \<Rightarrow> pyval list option res" where
  "collectE f [] = Ok (Some [])"
| "collectE f (env # envs) =
     bindE (f env) (\<lambda>r. case r of
       Known v \<Rightarrow> bindE (collectE f envs) (\<lambda>vs. Ok (map_option (Cons v) vs))
     | _ \<Rightarrow> Ok None)"

lemma collectE_cong [fundef_cong]:
  "xs = ys \<Longrightarrow> (\<And>x. x \<in> set ys \<Longrightarrow> f x = g x) \<Longrightarrow> collectE f xs = collectE g ys"
  by (induction ys arbitrary: xs) (auto intro!: bindE_cong split: resolved.splits)

definition is_numeric :: "pyval \<Rightarrow> bool" where
  "is_numeric v = (case v of PInt _ \<Rightarrow> True | PFloat _ \<Rightarrow> True | _ \<Rightarrow> False)"

definition int_values :: "pyval list \<Rightarrow> int list res" where
  "int_values vs = mapE (\<lambda>v. case v of PInt i \<Rightarrow> Ok i | _ \<Rightarrow> Err NotModelled) vs"

definition aggregate_value :: "ustr \<Rightarrow> pyval list \<Rightarrow> resolved res" where
  "aggregate_value kind vs =
     (if kind \<in> {u ''sum'', u ''mean''} \<and> \<not> list_all is_numeric vs then Ok NoValue
      else if kind = u ''sum'' then bindE (int_values vs) (\<lambda>is. Ok (Known (PInt (sum_list is))))
      else if kind = u ''mean'' then Err NotModelled
      else if kind = u ''min'' then
        catchE (bindE (py_min (hd vs) (tl vs)) (\<lambda>v. Ok (Known v))) (\<lambda>e. e = TypeError) (\<lambda>_. Ok NoValue)
      else if kind = u ''max'' then
        catchE (bindE (py_max (hd vs) (tl vs)) (\<lambda>v. Ok (Known v))) (\<lambda>e. e = TypeError) (\<lambda>_. Ok NoValue)
      else Err WhereValidationError)"

section \<open>The evaluator\<close>

definition bound_in :: "env list \<Rightarrow> ustr set" where
  "bound_in envs = (\<Union>env \<in> set envs. fst ` set env)"

definition or_branches_correlated :: "pyval list list \<Rightarrow> ustr set \<Rightarrow> unit res" where
  "or_branches_correlated branches correlated =
     (if length branches > 1 \<and> correlated \<noteq> {} then
        forE (\<lambda>branch. bindE (vars_in_atoms branch) (\<lambda>vs.
          if correlated - vs \<noteq> {} then Err WhereValidationError else Ok ())) branches
      else Ok ())"

lemma size_normalize_not_body:
  assumes "normalize_not_body b = Inr branches" "branch \<in> set branches"
  shows "size_list size branch < size b"
proof -
  from assms(1) obtain items where b: "b = PList items" by (cases b) (auto simp: normalize_not_body.simps)
  have item: "size_list size vs < size_list size items" if "PList vs \<in> set items" for vs
    using size_list_estimation' [OF that, of "size (PList vs)" size] by simp
  note n = assms(1) [unfolded b normalize_not_body.simps [of "PList items"] pyval.case]
  show ?thesis
  proof (cases "list_all is_atom items")
    case True
    with n have "branches = [items]" by (auto simp: bindE_Inr_iff split: if_split_asm)
    with assms(2) show ?thesis by (simp add: b)
  next
    case False
    define f where "f = (\<lambda>item. case item of
              PList branch \<Rightarrow>
                if branch = [] then Err WhereValidationError
                else if \<not> list_all is_atom branch then Err WhereValidationError
                else bindE (forE (\<lambda>a. if atom_kind_of a \<notin> set NOT_KINDS then Err WhereValidationError
                                       else validate_atom a) branch) (\<lambda>_. Ok branch)
            | _ \<Rightarrow> Err WhereValidationError)"
    have f: "f item = Inr vs \<Longrightarrow> item = PList vs" for item vs
      by (auto simp: f_def bindE_Inr_iff split: pyval.splits if_split_asm)
    from n False have "mapE f items = Inr branches" unfolding f_def by (auto split: if_split_asm)
    then have "list_all2 (\<lambda>item vs. item = PList vs) items branches"
      unfolding mapE_Inr_iff by (elim list_all2_mono) (rule f)
    then have "PList branch \<in> set items"
      using assms(2) by (auto simp: list_all2_conv_all_nth in_set_conv_nth)
    with item show ?thesis by (simp add: b less_SucI)
  qed
qed

lemma size_plan: "plan_body_atoms gate bound body = Inr p \<Longrightarrow> size_list size p = size_list size body"
  by (drule mset_plan) (simp add: size_list_conv_sum_list, metis mset_map sum_mset_sum_list size_mset)

function eval_body :: "bool \<Rightarrow> view \<Rightarrow> env list \<Rightarrow> pyval list \<Rightarrow> env list res"
and eval_atoms :: "bool \<Rightarrow> view \<Rightarrow> env list \<Rightarrow> pyval list \<Rightarrow> env list res"
and eval_atom :: "bool \<Rightarrow> view \<Rightarrow> env list \<Rightarrow> pyval \<Rightarrow> env list res"
and resolve_eval_term :: "bool \<Rightarrow> view \<Rightarrow> env \<Rightarrow> pyval \<Rightarrow> resolved res" where
  "eval_body gate view envs body =
     bindE (plan_body_atoms gate (bound_in envs) body) (\<lambda>planned. eval_atoms gate view envs planned)"
| "eval_atoms gate view envs [] = Ok envs"
| "eval_atoms gate view envs (atom # atoms) =
     bindE (eval_atom gate view envs atom) (\<lambda>envs'.
       if envs' = [] then Ok [] else eval_atoms gate view envs' atoms)"
| "eval_atom gate view envs atom = (case atom of
      PTuple (PStr kind # args) \<Rightarrow>
        if kind = u ''pred'' then
          (case args of
             [pred_id, PList terms] \<Rightarrow> eval_pred_atom view envs pred_id terms
           | [_, _] \<Rightarrow> Err NotModelled | _ \<Rightarrow> Err ValueError)
        else if kind = u ''eq'' then
          (case args of
             [lhs, rhs] \<Rightarrow> concatE (\<lambda>env.
               bindE (resolve_eval_term gate view env lhs) (\<lambda>l.
               bindE (resolve_eval_term gate view env rhs) (\<lambda>r. join_eq gate env lhs rhs l r))) envs
           | _ \<Rightarrow> Err ValueError)
        else if kind = u ''in'' then
          (case args of
             [var, vs] \<Rightarrow>
               if is_var var then bindE (py_iter vs) (\<lambda>vs. eval_in_atom gate envs var vs) else Err NotModelled
           | _ \<Rightarrow> Err ValueError)
        else if kind = u ''ne'' then
          (case args of
             [lhs, rhs] \<Rightarrow> concatE (\<lambda>env.
               bindE (resolve_eval_term gate view env lhs) (\<lambda>l.
               bindE (resolve_eval_term gate view env rhs) (\<lambda>r. filter_ne gate env l r))) envs
           | _ \<Rightarrow> Err ValueError)
        else if kind \<in> set ORDER_KINDS then
          (case args of
             [lhs, rhs] \<Rightarrow> concatE (\<lambda>env.
               bindE (resolve_eval_term gate view env lhs) (\<lambda>l.
               bindE (resolve_eval_term gate view env rhs) (\<lambda>r. filter_cmp gate kind env l r))) envs
           | _ \<Rightarrow> Err ValueError)
        else if kind = u ''add'' \<or> kind = u ''sub'' then
          (case args of
             [z, x, y] \<Rightarrow> concatE (\<lambda>env.
               bindE (bindE (resolve_eval_term gate view env x) (arith_operand gate)) (\<lambda>a. case a of
                 None \<Rightarrow> Ok []
               | Some a \<Rightarrow>
                   bindE (bindE (resolve_eval_term gate view env y) (arith_operand gate)) (\<lambda>b. case b of
                     None \<Rightarrow> Ok []
                   | Some b \<Rightarrow> bind_or_check_result env z (arith_result kind a b)))) envs
           | _ \<Rightarrow> Err ValueError)
        else if kind = u ''neg'' then
          (case args of
             [z, x] \<Rightarrow> concatE (\<lambda>env.
               bindE (bindE (resolve_eval_term gate view env x) (arith_operand gate)) (\<lambda>a. case a of
                 None \<Rightarrow> Ok [] | Some a \<Rightarrow> bind_or_check_result env z (- a))) envs
           | _ \<Rightarrow> Err ValueError)
        else if kind = u ''addc'' \<or> kind = u ''mulc'' then
          (case args of
             [z, x, c] \<Rightarrow> concatE (\<lambda>env.
               bindE (bindE (resolve_eval_term gate view env x) (arith_operand gate)) (\<lambda>a. case a of
                 None \<Rightarrow> Ok []
               | Some a \<Rightarrow> bindE (coerce_arith_int c) (\<lambda>c. bind_or_check_result env z (arith_result kind a c)))) envs
           | _ \<Rightarrow> Err ValueError)
        else if kind = u ''not'' then
          (case args of
             [body] \<Rightarrow>
               bindE (normalize_not_body body) (\<lambda>branches.
               bindE (vars_in_not_bodies branches) (\<lambda>vs.
                 concatE (\<lambda>env.
                   let correlated = vs \<inter> fst ` set env in
                   if correlated = {} \<and> \<not> gate then Err WhereValidationError
                   else bindE (or_branches_correlated branches correlated) (\<lambda>_.
                     bindE (anyE (\<lambda>branch. bindE (eval_body gate view [env] branch) (\<lambda>es. Ok (es \<noteq> []))) branches)
                       (\<lambda>found. Ok (if found then [] else [env])))) envs))
           | _ \<Rightarrow> Err ValueError)
        else Err WhereValidationError
    | _ \<Rightarrow> Err NotModelled)"
| "resolve_eval_term gate view env t =
     (if \<not> is_aggregate_term t then Ok (resolve env t)
      else (case t of
         PTuple [PStr kind, target, PList filter_atoms] \<Rightarrow>
           bindE (eval_body gate view [env] filter_atoms) (\<lambda>matched.
             if kind = u ''count'' then Ok (Known (PInt (int (length matched))))
             else if matched = [] then Ok (if kind = u ''sum'' then Known (PInt 0) else NoValue)
             else bindE (collectE (\<lambda>env. resolve_eval_term gate view env target) matched) (\<lambda>vs. case vs of
               None \<Rightarrow> Ok NoValue | Some vs \<Rightarrow> aggregate_value kind vs))
       | _ \<Rightarrow> Err NotModelled))"
  by pat_completeness auto

termination
  by (relation "measure (\<lambda>x. case x of
       Inl (Inl (_, _, _, body)) \<Rightarrow> 2 * size_list size body + 2
     | Inl (Inr (_, _, _, atoms)) \<Rightarrow> 2 * size_list size atoms + 1
     | Inr (Inl (_, _, _, atom)) \<Rightarrow> 2 * size atom
     | Inr (Inr (_, _, _, t)) \<Rightarrow> 2 * size t)")
    (auto simp: size_plan dest!: size_normalize_not_body)

declare eval_body.simps [simp del] eval_atoms.simps(2) [simp del] eval_atom.simps [simp del]
  resolve_eval_term.simps [simp del]

section \<open>Edits of a body\<close>

text \<open>The sets of edits are given as lists, in the order the code iterates over them.\<close>

record literal_replacement =
  lr_case :: int
  lr_condition :: int
  lr_path :: "ustr \<times> int option"
  lr_old :: pyval
  lr_new :: pyval

record added_condition =
  ac_case :: int
  ac_atom :: pyval

definition is_literal_path :: "ustr \<times> int option \<Rightarrow> bool" where
  "is_literal_path path = (case path of (kind, index) \<Rightarrow>
     if kind \<in> {u ''lhs'', u ''rhs'', u ''const_operand''} then index = None
     else kind \<in> {u ''pred_term'', u ''in_value''} \<and> (case index of Some i \<Rightarrow> 0 \<le> i | None \<Rightarrow> False))"

definition validate_disabled_locators :: "(int \<times> int) list \<Rightarrow> unit res" where
  "validate_disabled_locators locators =
     forE (\<lambda>(c, i). if c < 0 \<or> i < 0 then Err WhereValidationError else Ok ()) locators"

definition locator_in_range :: "pyval list list \<Rightarrow> int \<Rightarrow> int \<Rightarrow> unit res" where
  "locator_in_range bodies c i =
     (if int (length bodies) \<le> c then Err WhereValidationError
      else if int (length (bodies ! nat c)) \<le> i then Err WhereValidationError
      else Ok ())"

definition apply_disabled_locators :: "(int \<times> int) list \<Rightarrow> pyval list list \<Rightarrow> pyval list list res" where
  "apply_disabled_locators locators bodies =
     bindE (validate_disabled_locators locators) (\<lambda>_.
     bindE (forE (\<lambda>(c, i). locator_in_range bodies c i) locators) (\<lambda>_.
       Ok (map (\<lambda>(c, body). map snd (filter (\<lambda>(i, atom). (int c, int i) \<notin> set locators) (enumerate 0 body)))
            (enumerate 0 bodies))))"

definition validate_literal_replacements :: "literal_replacement list \<Rightarrow> unit res" where
  "validate_literal_replacements rs =
     forE (\<lambda>r. if lr_case r < 0 \<or> lr_condition r < 0 then Err WhereValidationError
               else if \<not> is_literal_path (lr_path r) then Err WhereValidationError
               else if \<not> is_literal (lr_old r) then Err WhereValidationError
               else if \<not> is_literal (lr_new r) then Err WhereValidationError
               else Ok ()) rs"

definition replace_literal_leaf :: "literal_replacement \<Rightarrow> pyval \<Rightarrow> pyval res" where
  "replace_literal_leaf r v =
     (if \<not> is_literal v then Err WhereValidationError
      else if \<not> py_eq v (lr_old r) then Err WhereValidationError
      else if \<not> is_literal (lr_new r) then Err WhereValidationError
      else Ok (lr_new r))"

definition replace_at :: "literal_replacement \<Rightarrow> nat \<Rightarrow> pyval list \<Rightarrow> pyval list res" where
  "replace_at r i vs =
     (if length vs \<le> i then Err WhereValidationError
      else bindE (replace_literal_leaf r (vs ! i)) (\<lambda>v. Ok (vs[i := v])))"

definition apply_literal_replacement_to_atom :: "pyval \<Rightarrow> literal_replacement \<Rightarrow> pyval res" where
  "apply_literal_replacement_to_atom atom r = (case lr_path r of (kind, index) \<Rightarrow>
     let indexed = (\<lambda>f. case index of None \<Rightarrow> Err WhereValidationError | Some i \<Rightarrow> f (nat i)) in
     (case atom of
        PTuple (PStr tag # args) \<Rightarrow>
          if kind = u ''pred_term'' then
            (if tag \<noteq> u ''pred'' then Err WhereValidationError
             else indexed (\<lambda>i. case args of
                 [pred_id, PList terms] \<Rightarrow>
                   bindE (replace_at r i terms) (\<lambda>ts. Ok (PTuple [PStr (u ''pred''), pred_id, PList ts]))
               | _ \<Rightarrow> Err ValueError))
          else if kind = u ''lhs'' \<or> kind = u ''rhs'' then
            (if tag \<notin> set CMP_OPS then Err WhereValidationError
             else bindE (replace_at r (if kind = u ''lhs'' then 0 else 1) args) (\<lambda>args. Ok (PTuple (PStr tag # args))))
          else if kind = u ''in_value'' then
            (if tag \<noteq> u ''in'' then Err WhereValidationError
             else indexed (\<lambda>i. case args of
                 [var, PList vs] \<Rightarrow> bindE (replace_at r i vs) (\<lambda>vs. Ok (PTuple [PStr (u ''in''), var, PList vs]))
               | _ \<Rightarrow> Err ValueError))
          else if kind = u ''const_operand'' then
            (if tag \<notin> {u ''addc'', u ''mulc''} then Err WhereValidationError
             else bindE (replace_at r 2 args) (\<lambda>args. Ok (PTuple (PStr tag # args))))
          else Err WhereValidationError
      | _ \<Rightarrow> Err NotModelled))"

definition target_of :: "literal_replacement \<Rightarrow> int \<times> int \<times> ustr \<times> int option" where
  "target_of r = (lr_case r, lr_condition r, lr_path r)"

definition replacement_targets :: "pyval list list \<Rightarrow> literal_replacement list \<Rightarrow> literal_replacement list res" where
  "replacement_targets bodies rs =
     foldE (\<lambda>known r.
       bindE (locator_in_range bodies (lr_case r) (lr_condition r)) (\<lambda>_.
         if target_of r \<in> target_of ` set known then Err WhereValidationError else Ok (known @ [r]))) [] rs"

definition apply_literal_replacements :: "literal_replacement list \<Rightarrow> pyval list list \<Rightarrow> pyval list list res" where
  "apply_literal_replacements rs bodies =
     bindE (validate_literal_replacements rs) (\<lambda>_.
     bindE (replacement_targets bodies rs) (\<lambda>targets.
       mapE (\<lambda>(c, body). mapE (\<lambda>(i, atom).
           foldE apply_literal_replacement_to_atom atom
             (filter (\<lambda>r. lr_case r = int c \<and> lr_condition r = int i) targets)) (enumerate 0 body))
         (enumerate 0 bodies)))"

definition validate_added_conditions :: "added_condition list \<Rightarrow> unit res" where
  "validate_added_conditions cs =
     forE (\<lambda>c. if ac_case c < 0 then Err WhereValidationError
               else if \<not> is_atom (ac_atom c) then Err WhereValidationError else Ok ()) cs"

definition apply_added_conditions :: "added_condition list \<Rightarrow> pyval list list \<Rightarrow> pyval list list res" where
  "apply_added_conditions cs bodies =
     bindE (validate_added_conditions cs) (\<lambda>_.
     bindE (forE (\<lambda>c. if int (length bodies) \<le> ac_case c then Err WhereValidationError
                       else validate_atom (ac_atom c)) cs) (\<lambda>_.
       mapE (\<lambda>(i, body).
           bindE (mapE (\<lambda>c. bindE (py_repr (ac_atom c)) (\<lambda>r. Ok (PStr r, ac_atom c)))
             (filter (\<lambda>c. ac_case c = int i) cs)) (\<lambda>keyed.
           bindE (sortE keyed) (\<lambda>added. Ok (body @ added)))) (enumerate 0 bodies)))"

section \<open>Evaluation of a clause\<close>

definition validation_errors :: "py_exc set" where
  "validation_errors =
     {WhereASTError, WhereASTValidationError, AggregateValidationError, AggregateVariableScopeError}"

text \<open>The gate that the environment variable switches; its errors are adapted to one class.\<close>

definition where_gate :: "capability list \<Rightarrow> pyval \<Rightarrow> unit res" where
  "where_gate caps w =
     catchE (bindE (parse_where_ir_to_ast w) (\<lambda>ast. validate_where_ast ast (u ''python'') (Some caps) None None))
       (\<lambda>e. e \<in> validation_errors) (\<lambda>_. Err WhereValidationError)"

definition binding_key :: "env \<Rightarrow> pyval" where
  "binding_key env = PTuple (map (\<lambda>(k, v). PTuple [PStr k, v]) (sort_key fst env))"

definition add_binding :: "(pyval \<times> env) list \<Rightarrow> env \<Rightarrow> (pyval \<times> env) list res" where
  "add_binding seen binding =
     (let key = binding_key binding in
      if \<not> hashable key then Err TypeError
      else Ok (if list_ex (\<lambda>(k, _). py_eq k key) seen then seen else seen @ [(key, binding)]))"

definition edited_bodies ::
  "(int \<times> int) list \<Rightarrow> literal_replacement list \<Rightarrow> added_condition list \<Rightarrow> pyval list list \<Rightarrow> pyval list list res" where
  "edited_bodies disabled replacements added bodies =
     bindE (if replacements = [] then Ok bodies else apply_literal_replacements replacements bodies) (\<lambda>bodies.
     bindE (if added = [] then Ok bodies else apply_added_conditions added bodies) (\<lambda>bodies.
       if disabled = [] then Ok bodies else apply_disabled_locators disabled bodies))"

definition all_bindings :: "bool \<Rightarrow> view \<Rightarrow> pyval list list \<Rightarrow> env list res" where
  "all_bindings gate view bodies =
     bindE (foldE (\<lambda>seen body. bindE (eval_body gate view [[]] body) (foldE add_binding seen)) [] bodies) sortE"

definition evaluate_where ::
  "bool \<Rightarrow> view \<Rightarrow> pyval \<Rightarrow> (int \<times> int) list \<Rightarrow> literal_replacement list \<Rightarrow> added_condition list \<Rightarrow> env list res" where
  "evaluate_where gate view w disabled replacements added =
     bindE (if gate then where_gate [CapAllowRuleref False] w else Ok ()) (\<lambda>_.
     bindE (normalize_where w) (\<lambda>bodies.
     bindE (edited_bodies disabled replacements added bodies) (\<lambda>bodies.
       all_bindings gate view bodies)))"

end
