(* ===== verification/Rule_IR.thy ===== *)
theory Rule_IR
  imports Where_Eval Projector
begin

text \<open>
  Query rules and their evaluation, from \<^verbatim>\<open>core/rules/rule_ir.py\<close> and \<^verbatim>\<open>core/rules/ruleref_common.py\<close>:
  a rule projects the bindings of its clause to rows, and its clause may refer to the rows of other
  rules.  The capture of traces is left out (\<open>trace_ctx\<close> is None).
\<close>

section \<open>Recursion with a bounded depth\<close>

text \<open>
  Rules call each other through the registry, so the recursion takes its depth as an argument;
  None is a recursion cut off, Some the value or the exception the code ends with.
\<close>

type_synonym 'a run = "'a res option"

definition bindR :: "'a run \<Rightarrow> ('a \<Rightarrow> 'b run) \<Rightarrow> 'b run" where
  "bindR m f = (case m of None \<Rightarrow> None | Some (Inl e) \<Rightarrow> Some (Inl e) | Some (Inr a) \<Rightarrow> f a)"

primrec foldR :: "('s \<Rightarrow> 'a \<Rightarrow> 's run) \<Rightarrow> 's \<Rightarrow> 'a list \<Rightarrow> 's run" where
  "foldR f s [] = Some (Ok s)"
| "foldR f s (x # xs) = bindR (f s x) (\<lambda>s'. foldR f s' xs)"

lemma bindR_simps [simp]:
  "bindR None f = None" "bindR (Some (Inl e)) f = Some (Inl e)" "bindR (Some (Inr a)) f = f a"
  by (simp_all add: bindR_def)

lemma bindR_None: "bindR m f = None \<longleftrightarrow> m = None \<or> (\<exists>a. m = Some (Inr a) \<and> f a = None)"
  by (auto simp: bindR_def split: option.splits sum.splits)

lemma bindR_Ok: "bindR m f = Some (Inr b) \<longleftrightarrow> (\<exists>a. m = Some (Inr a) \<and> f a = Some (Inr b))"
  by (auto simp: bindR_def split: option.splits sum.splits)

lemma bindR_cong:
  "m = m' \<Longrightarrow> (\<And>a. m' = Some (Inr a) \<Longrightarrow> f a = g a) \<Longrightarrow> bindR m f = bindR m' g"
  by (auto simp: bindR_def split: option.splits sum.splits)

lemma foldR_cong: "(\<And>s x. x \<in> set xs \<Longrightarrow> f s x = g s x) \<Longrightarrow> foldR f s xs = foldR g s xs"
  by (induction xs arbitrary: s) (auto intro!: bindR_cong)

section \<open>Rules\<close>

record rule_spec =
  rs_rule_id :: ustr
  rs_version :: ustr
  rs_select_vars :: "ustr list"
  rs_where :: "pyval list"
  rs_expose :: bool

text \<open>The constructor with its \<open>__post_init__\<close>.\<close>

definition RuleSpec :: "pyval \<Rightarrow> pyval \<Rightarrow> pyval \<Rightarrow> pyval \<Rightarrow> bool \<Rightarrow> rule_spec res" where
  "RuleSpec rule_id version select_vars w expose =
     bindE (as_name RuleCompileError rule_id) (\<lambda>rule_id.
     bindE (as_name RuleCompileError version) (\<lambda>version.
     bindE (as_list RuleCompileError select_vars) (\<lambda>select_vars.
       if select_vars = [] then Err RuleCompileError
       else bindE (mapE (\<lambda>v. case v of
           PStr s \<Rightarrow> if starts_with s (u ''$'') then Ok s else Err RuleCompileError
         | _ \<Rightarrow> Err RuleCompileError) select_vars) (\<lambda>select_vars.
       bindE (as_list RuleCompileError w) (\<lambda>w.
         if w = [] then Err RuleCompileError
         else Ok \<lparr>rs_rule_id = rule_id, rs_version = version, rs_select_vars = select_vars,
                  rs_where = w, rs_expose = expose\<rparr>)))))"

type_synonym registry_key = "ustr \<times> ustr"
type_synonym rule_registry = "(registry_key, rule_spec) dict"
type_synonym rows = "pyval list list"
type_synonym memo = "(registry_key, rows) dict"

definition rule_key :: "rule_spec \<Rightarrow> registry_key" where
  "rule_key spec = (rs_rule_id spec, rs_version spec)"

definition register :: "rule_spec \<Rightarrow> rule_registry \<Rightarrow> rule_registry res" where
  "register spec reg =
     (if dict_get reg (rule_key spec) \<noteq> None then Err RuleCompileError
      else Ok (dict_set (rule_key spec) spec reg))"

definition resolve_rule :: "rule_registry \<Rightarrow> ustr \<Rightarrow> ustr \<Rightarrow> rule_spec res" where
  "resolve_rule reg rule_id version =
     (case dict_get reg (rule_id, version) of None \<Rightarrow> Err RuleCompileError | Some spec \<Rightarrow> Ok spec)"

section \<open>References\<close>

text \<open>\<open>ch.lower()\<close> if \<open>ch.isalnum()\<close>, else an underscore; letters outside ASCII are left out.\<close>

definition sanitize_char :: "nat \<Rightarrow> nat res" where
  "sanitize_char c =
     (if 128 \<le> c then Err NotModelled
      else if 65 \<le> c \<and> c \<le> 90 then Ok (c + 32)
      else if (97 \<le> c \<and> c \<le> 122) \<or> (48 \<le> c \<and> c \<le> 57) then Ok c
      else Ok 95)"

definition sanitize :: "ustr \<Rightarrow> ustr res" where
  "sanitize s = mapE sanitize_char s"

definition internal_rule_pred_id :: "ustr \<Rightarrow> ustr \<Rightarrow> ustr res" where
  "internal_rule_pred_id rule_id version =
     bindE (sanitize rule_id) (\<lambda>r. bindE (sanitize version) (\<lambda>v.
       Ok (u ''__rule_ref__'' @ r @ u ''__'' @ v)))"

text \<open>\<open>e\<close> is the caller's error class.\<close>

definition resolve_exposed_rule_ref :: "py_exc \<Rightarrow> rule_registry \<Rightarrow> pyval \<Rightarrow> pyval \<Rightarrow> nat \<Rightarrow> rule_spec res" where
  "resolve_exposed_rule_ref e reg rule_id version terms_len =
     bindE (as_name e rule_id) (\<lambda>r. bindE (as_name e version) (\<lambda>v.
       if terms_len = 0 then Err e
       else (case resolve_rule reg r v of
           Inl _ \<Rightarrow> Err e
         | Inr spec \<Rightarrow>
             if \<not> rs_expose spec then Err e
             else if terms_len \<noteq> length (rs_select_vars spec) then Err e
             else Ok spec)))"

section \<open>Rows\<close>

definition row_of_binding :: "ustr list \<Rightarrow> env \<Rightarrow> pyval list res" where
  "row_of_binding select_vars binding =
     mapE (\<lambda>x. case dict_get binding x of Some v \<Rightarrow> Ok v | None \<Rightarrow> Err RuleCompileError) select_vars"

definition distinct_rows :: "rows \<Rightarrow> rows" where
  "distinct_rows rows = map (\<lambda>v. case v of PTuple vs \<Rightarrow> vs | _ \<Rightarrow> []) (py_distinct (map PTuple rows))"

text \<open>
  The rows are sorted by the texts of their cells.  The order of rows with equal texts is the order
  of a Python set and is left out.
\<close>

definition rows_from_bindings :: "env list \<Rightarrow> ustr list \<Rightarrow> rows res" where
  "rows_from_bindings bindings select_vars =
     bindE (mapE (row_of_binding select_vars) bindings) (\<lambda>rows.
       if \<not> list_all (\<lambda>row. hashable (PTuple row)) rows then Err TypeError
       else bindE (mapE (\<lambda>row. bindE (mapE py_str row) (\<lambda>texts. Ok (texts, row))) (distinct_rows rows)) (\<lambda>keyed.
         if \<not> distinct (map fst keyed) then Err NotModelled
         else Ok (map snd (sort_key fst keyed))))"

section \<open>Evaluation\<close>

definition is_rule_ref :: "pyval \<Rightarrow> bool" where
  "is_rule_ref atom \<longleftrightarrow> (case atom of PTuple (PStr tag # _) \<Rightarrow> tag = u ''ruleref'' | _ \<Rightarrow> False)"

text \<open>The memo, the overlay and the atoms rewritten so far.\<close>

type_synonym rewrite_state = "memo \<times> (ustr, rows) dict \<times> pyval list"

definition follow_rule_ref ::
  "(memo \<Rightarrow> rule_spec \<Rightarrow> (memo \<times> rows) run) \<Rightarrow> rule_registry \<Rightarrow> rewrite_state \<Rightarrow> pyval \<Rightarrow> pyval \<Rightarrow> pyval list \<Rightarrow>
    rewrite_state run" where
  "follow_rule_ref ev reg st rule_id version terms = (case st of (memo, overlay, atoms) \<Rightarrow>
     if terms = [] then Some (Err RuleCompileError)
     else bindR (Some (resolve_exposed_rule_ref RuleCompileError reg rule_id version (length terms))) (\<lambda>spec.
       bindR (ev memo spec) (\<lambda>(memo, rows).
       bindR (Some (internal_rule_pred_id (rs_rule_id spec) (rs_version spec))) (\<lambda>pred_id.
         Some (Ok (memo, dict_set pred_id rows overlay,
           atoms @ [PTuple [PStr (u ''pred''), PStr pred_id, PList terms]]))))))"

definition rewrite_atom ::
  "(memo \<Rightarrow> rule_spec \<Rightarrow> (memo \<times> rows) run) \<Rightarrow> rule_registry \<Rightarrow> rewrite_state \<Rightarrow> pyval \<Rightarrow> rewrite_state run" where
  "rewrite_atom ev reg st atom = (case st of (memo, overlay, atoms) \<Rightarrow>
     (case atom of
        PTuple (PStr tag # args) \<Rightarrow>
          if tag \<noteq> u ''ruleref'' then Some (Ok (memo, overlay, atoms @ [atom]))
          else (case args of
             [rule_id, version, PList terms] \<Rightarrow> follow_rule_ref ev reg st rule_id version terms
           | _ \<Rightarrow> Some (Err RuleCompileError))
      | _ \<Rightarrow> Some (Ok (memo, overlay, atoms @ [atom]))))"

definition rewrite_branch ::
  "(memo \<Rightarrow> rule_spec \<Rightarrow> (memo \<times> rows) run) \<Rightarrow> rule_registry \<Rightarrow> rewrite_state \<Rightarrow> pyval \<Rightarrow> rewrite_state run" where
  "rewrite_branch ev reg st branch = (case st of (memo, overlay, branches) \<Rightarrow>
     (case branch of
        PList atoms \<Rightarrow>
          bindR (foldR (rewrite_atom ev reg) (memo, overlay, []) atoms) (\<lambda>(memo, overlay, atoms).
            Some (Ok (memo, overlay, branches @ [PList atoms])))
      | _ \<Rightarrow> Some (Err RuleCompileError)))"

definition is_PTuple :: "pyval \<Rightarrow> bool" where
  "is_PTuple v = (case v of PTuple _ \<Rightarrow> True | _ \<Rightarrow> False)"

definition rewrite_where_rule_refs ::
  "(memo \<Rightarrow> rule_spec \<Rightarrow> (memo \<times> rows) run) \<Rightarrow> rule_registry \<Rightarrow> memo \<Rightarrow> pyval list \<Rightarrow> rewrite_state run" where
  "rewrite_where_rule_refs ev reg memo w =
     (if list_all is_PTuple w then foldR (rewrite_atom ev reg) (memo, [], []) w
      else if list_all is_PList w then foldR (rewrite_branch ev reg) (memo, [], []) w
      else Some (Ok (memo, [], w)))"

definition add_memo_rows :: "rule_registry \<Rightarrow> memo \<Rightarrow> view \<Rightarrow> view res" where
  "add_memo_rows reg memo base = foldE (\<lambda>view ((rule_id, version), rows).
     bindE (resolve_rule reg rule_id version) (\<lambda>spec.
       if rs_expose spec then bindE (internal_rule_pred_id rule_id version) (\<lambda>p. Ok (dict_set p rows view))
       else Ok view)) base memo"

definition add_overlay :: "(ustr, rows) dict \<Rightarrow> view \<Rightarrow> view" where
  "add_overlay overlay view = foldl (\<lambda>view (p, rows). dict_set p rows view) view overlay"

definition rule_rows :: "bool \<Rightarrow> view \<Rightarrow> pyval list \<Rightarrow> ustr list \<Rightarrow> rows res" where
  "rule_rows gate view w select_vars =
     bindE (catchE (evaluate_where gate view (PList w) [] [] []) (\<lambda>e. e = WhereValidationError) (\<lambda>_. Err RuleCompileError))
       (\<lambda>bindings. rows_from_bindings bindings select_vars)"

fun evaluate_rule ::
  "nat \<Rightarrow> bool \<Rightarrow> rule_registry \<Rightarrow> view \<Rightarrow> registry_key set \<Rightarrow> memo \<Rightarrow> rule_spec \<Rightarrow> (memo \<times> rows) run" where
  "evaluate_rule 0 gate reg base stack memo spec = None"
| "evaluate_rule (Suc depth) gate reg base stack memo spec = (case dict_get memo (rule_key spec) of
      Some rows \<Rightarrow> Some (Ok (memo, rows))
    | None \<Rightarrow>
        if rule_key spec \<in> stack then Some (Err RuleCompileError)
        else bindR (rewrite_where_rule_refs (evaluate_rule depth gate reg base (insert (rule_key spec) stack)) reg memo (rs_where spec))
          (\<lambda>(memo, overlay, w). Some (
            bindE (add_memo_rows reg memo base) (\<lambda>view.
            bindE (rule_rows gate (add_overlay overlay view) w (rs_select_vars spec)) (\<lambda>rows.
              Ok (if rs_expose spec then dict_set (rule_key spec) rows memo else memo, rows))))))"

definition run_rule ::
  "nat \<Rightarrow> bool \<Rightarrow> (bytes \<Rightarrow> bytes) \<Rightarrow> ledger \<Rightarrow> (pyval \<times> pyval) list \<Rightarrow> rule_spec \<Rightarrow> rule_registry \<Rightarrow> rows run" where
  "run_rule depth gate sha L schema_ir spec reg =
     bindR (Some (project_view_facts sha L schema_ir)) (\<lambda>base.
     bindR (evaluate_rule depth gate reg base {} [] spec) (\<lambda>(_, rows). Some (Ok rows)))"

section \<open>The recursion ends\<close>

definition registered :: "rule_registry \<Rightarrow> bool" where
  "registered reg \<longleftrightarrow> (\<forall>k spec. dict_get reg k = Some spec \<longrightarrow> rule_key spec = k)"

definition registry_keys :: "rule_registry \<Rightarrow> registry_key set" where
  "registry_keys reg = fst ` set reg"

lemma registered_empty [simp]: "registered []"
  by (simp add: registered_def)

lemma registered_register: "register spec reg = Inr reg' \<Longrightarrow> registered reg \<Longrightarrow> registered reg'"
  by (auto simp: register_def registered_def split: if_split_asm)

lemma resolve_rule_key:
  "resolve_rule reg r v = Inr spec \<Longrightarrow> registered reg \<Longrightarrow> rule_key spec = (r, v) \<and> (r, v) \<in> registry_keys reg"
  by (auto simp: resolve_rule_def registered_def registry_keys_def simp flip: dom_map_of_conv_image_fst split: option.splits)

lemma exposed_rule:
  assumes "resolve_exposed_rule_ref e reg rule_id version n = Inr spec"
  obtains r v where "rule_id = PStr r" "version = PStr v" "resolve_rule reg r v = Inr spec"
    "rs_expose spec" "length (rs_select_vars spec) = n"
  using assms
  by (auto simp: resolve_exposed_rule_ref_def as_name_def err_simps split: if_split_asm sum.split_asm pyval.split_asm)

lemma exposed_rule_key:
  assumes "resolve_exposed_rule_ref e reg rule_id version n = Inr spec" "registered reg"
  shows "rule_key spec \<in> registry_keys reg"
  using assms(1)
proof (rule exposed_rule)
  fix r v assume "resolve_rule reg r v = Inr spec"
  from resolve_rule_key [OF this assms(2)] show ?thesis by simp
qed

text \<open>The rewriting only evaluates rules of the registry.\<close>

lemma rewrite_cong:
  assumes "registered reg" "\<And>memo spec. rule_key spec \<in> registry_keys reg \<Longrightarrow> ev memo spec = ev' memo spec"
  shows "rewrite_where_rule_refs ev reg = rewrite_where_rule_refs ev' reg"
proof -
  have "follow_rule_ref ev reg = follow_rule_ref ev' reg"
    unfolding follow_rule_ref_def
    using assms by (intro ext prod.case_cong refl if_cong bindR_cong) (auto dest: exposed_rule_key)
  then have atom: "rewrite_atom ev reg = rewrite_atom ev' reg"
    unfolding rewrite_atom_def [abs_def] by (simp cong: pyval.case_cong list.case_cong if_cong)
  then have "rewrite_branch ev reg = rewrite_branch ev' reg"
    unfolding rewrite_branch_def [abs_def] by (simp cong: pyval.case_cong)
  with atom show ?thesis by (intro ext) (simp add: rewrite_where_rule_refs_def)
qed

lemma foldR_returns: "(\<And>s x. f s x \<noteq> None) \<Longrightarrow> foldR f s xs \<noteq> None"
  by (induction xs arbitrary: s) (auto simp: bindR_None)

lemma rewrite_returns:
  assumes "registered reg" "\<And>memo spec. rule_key spec \<in> registry_keys reg \<Longrightarrow> ev memo spec \<noteq> None"
  shows "rewrite_where_rule_refs ev reg memo w \<noteq> None"
proof -
  have follow: "follow_rule_ref ev reg st r v ts \<noteq> None" for st r v ts
    using assms by (auto simp: follow_rule_ref_def bindR_None simp del: not_None_eq dest: exposed_rule_key split: prod.splits)
  have atom: "rewrite_atom ev reg st a \<noteq> None" for st a
    using follow [of st] by (cases st) (auto simp: rewrite_atom_def split: pyval.split list.split)
  have branch: "rewrite_branch ev reg st b \<noteq> None" for st b
    using foldR_returns [of "rewrite_atom ev reg", OF atom]
    by (cases st; cases b) (auto simp: rewrite_branch_def bindR_None simp del: not_None_eq)
  show ?thesis using foldR_returns [OF atom] foldR_returns [OF branch] by (auto simp: rewrite_where_rule_refs_def)
qed

lemma finite_registry_keys [simp]: "finite (registry_keys reg)"
  by (simp add: registry_keys_def)

text \<open>Below a rule, every call either stops at once or has one rule more on its stack.\<close>

lemma stack_measure:
  assumes "k \<in> R" "k \<notin> stack" "finite R"
  shows "Suc (card (R - insert k stack)) = card (R - stack)"
  using assms by (metis DiffI Diff_insert card_Suc_Diff1 finite_Diff)

lemma evaluate_rule_depth:
  assumes "registered reg" "rule_key spec \<in> registry_keys reg"
    and "card (registry_keys reg - stack) < depth" "depth \<le> depth'"
  shows "evaluate_rule depth gate reg base stack memo spec \<noteq> None \<and>
    evaluate_rule depth' gate reg base stack memo spec = evaluate_rule depth gate reg base stack memo spec"
  using assms(2-4)
proof (induction depth arbitrary: depth' stack memo spec)
  case (Suc depth)
  from Suc.prems(3) obtain d where d: "depth' = Suc d" "depth \<le> d" by (cases depth') auto
  show ?case
  proof (cases "dict_get memo (rule_key spec) = None \<and> rule_key spec \<notin> stack")
    case True
    let ?stack = "insert (rule_key spec) stack"
    have "card (registry_keys reg - ?stack) < depth"
      using stack_measure [of "rule_key spec" "registry_keys reg" stack] True Suc.prems(1,2) by simp
    then have ih: "evaluate_rule depth gate reg base ?stack m s \<noteq> None \<and>
        evaluate_rule d gate reg base ?stack m s = evaluate_rule depth gate reg base ?stack m s"
      if "rule_key s \<in> registry_keys reg" for m s
      using Suc.IH [OF that _ d(2)] by blast
    have "rewrite_where_rule_refs (evaluate_rule d gate reg base ?stack) reg =
        rewrite_where_rule_refs (evaluate_rule depth gate reg base ?stack) reg"
      using ih by (intro rewrite_cong [OF assms(1)]) blast
    moreover have "rewrite_where_rule_refs (evaluate_rule depth gate reg base ?stack) reg memo (rs_where spec) \<noteq> None"
      using ih by (intro rewrite_returns [OF assms(1)]) blast
    ultimately show ?thesis using True d(1) by (auto simp: bindR_None)
  qed (auto simp: d(1) split: option.split)
qed simp

lemma evaluate_rule_root:
  assumes "registered reg" "card (registry_keys reg) + 2 \<le> depth" "depth \<le> depth'"
  shows "evaluate_rule depth gate reg base {} [] spec \<noteq> None \<and>
    evaluate_rule depth' gate reg base {} [] spec = evaluate_rule depth gate reg base {} [] spec"
proof -
  from assms(2,3) obtain d d' where d: "depth = Suc d" "depth' = Suc d'" "d \<le> d'" by (cases depth; cases depth') auto
  have "card (registry_keys reg - {rule_key spec}) \<le> card (registry_keys reg)" by (simp add: card_mono)
  then have "card (registry_keys reg - {rule_key spec}) < d" using assms(2) d(1) by simp
  note ih = evaluate_rule_depth [OF assms(1) _ this d(3)]
  have "rewrite_where_rule_refs (evaluate_rule d' gate reg base {rule_key spec}) reg =
      rewrite_where_rule_refs (evaluate_rule d gate reg base {rule_key spec}) reg"
    using ih by (intro rewrite_cong [OF assms(1)]) blast
  moreover have "rewrite_where_rule_refs (evaluate_rule d gate reg base {rule_key spec}) reg [] (rs_where spec) \<noteq> None"
    using ih by (intro rewrite_returns [OF assms(1)]) blast
  ultimately show ?thesis using d by (auto simp: bindR_None)
qed

lemma run_rule_depth:
  assumes "registered reg" "card (registry_keys reg) + 2 \<le> depth" "depth \<le> depth'"
  shows "run_rule depth gate sha L schema_ir spec reg \<noteq> None \<and>
    run_rule depth' gate sha L schema_ir spec reg = run_rule depth gate sha L schema_ir spec reg"
proof -
  note e = evaluate_rule_root [OF assms]
  then show ?thesis by (auto simp: run_rule_def bindR_None)
qed

end
