(* ===== verification/Rule_Native.thy ===== *)
theory Rule_Native
  imports Rule_IR
begin

text \<open>
  The evaluation of clauses with rule references for derivations, from
  \<^verbatim>\<open>core/rules/ruleref_substrate.py\<close>, and the evaluation that reports where a body fails, from
  \<^verbatim>\<open>core/rules/frontier.py\<close>.  Both are modelled without witnesses (\<open>witness_facts\<close> and
  \<open>remember_support_artifact\<close> are None), so every row is supported by the reason
  \<open>child_support_unavailable\<close>.
\<close>

section \<open>Results\<close>

record row_support =
  su_row_terms :: "pyval list"
  su_child_digest :: "ustr option"
  su_unresolved_reason :: "ustr option"

record rule_ref_resolution =
  rr_condition_key :: ustr
  rr_rule_id :: ustr
  rr_version :: ustr
  rr_row_supports :: "row_support list"

record native_evaluation =
  ne_bindings :: "env list"
  ne_rule_refs :: "ustr list"
  ne_resolutions :: "rule_ref_resolution list"

record registered_evaluation =
  ro_rows :: rows
  ro_row_supports :: "row_support list"

type_synonym native_memo = "(registry_key, registered_evaluation) dict"

section \<open>References in a clause\<close>

fun contains_ruleref_atom :: "pyval \<Rightarrow> bool" where
  "contains_ruleref_atom (PTuple (v # vs)) = (v = PStr (u ''ruleref'') \<or> list_ex contains_ruleref_atom vs)"
| "contains_ruleref_atom (PList vs) = list_ex contains_ruleref_atom vs"
| "contains_ruleref_atom _ = False"

definition validate_where_for_ruleref :: "pyval \<Rightarrow> unit res" where
  "validate_where_for_ruleref w = where_gate [CapAllowRuleref True] w"

section \<open>Rows of a registered rule\<close>

definition row_support_sort_key :: "row_support \<Rightarrow> pyval" where
  "row_support_sort_key s = PTuple [PTuple (su_row_terms s),
     PStr (case su_child_digest s of Some d \<Rightarrow> d | None \<Rightarrow> []),
     PStr (case su_unresolved_reason s of Some r \<Rightarrow> r | None \<Rightarrow> [])]"

definition native_row_support :: "pyval list \<Rightarrow> row_support" where
  "native_row_support row = \<lparr>su_row_terms = row, su_child_digest = None,
     su_unresolved_reason = Some (u ''child_support_unavailable'')\<rparr>"

definition native_row :: "ustr list \<Rightarrow> env \<Rightarrow> pyval list res" where
  "native_row select_vars binding =
     mapE (\<lambda>x. case dict_get binding x of Some v \<Rightarrow> Ok v | None \<Rightarrow> Err KeyError) select_vars"

text \<open>The dictionary from row terms to their least support.\<close>

definition add_row_support :: "ustr list \<Rightarrow> row_support vdict \<Rightarrow> env \<Rightarrow> row_support vdict res" where
  "add_row_support select_vars supports binding =
     bindE (native_row select_vars binding) (\<lambda>row.
       let support = native_row_support row in
       if \<not> hashable (PTuple row) then Err TypeError
       else (case vdict_get supports (PTuple row) of
           None \<Rightarrow> Ok (vdict_set (PTuple row) support supports)
         | Some existing \<Rightarrow>
             bindE (py_less (row_support_sort_key support) (row_support_sort_key existing)) (\<lambda>less.
               Ok (if less then vdict_set (PTuple row) support supports else supports))))"

definition row_terms_of :: "pyval \<Rightarrow> pyval list" where
  "row_terms_of key = (case key of PTuple vs \<Rightarrow> vs | _ \<Rightarrow> [])"

definition registered_rows :: "ustr list \<Rightarrow> env list \<Rightarrow> registered_evaluation res" where
  "registered_rows select_vars bindings =
     bindE (foldE (add_row_support select_vars) [] bindings) (\<lambda>supports.
     bindE (mapE (\<lambda>row. bindE (mapE py_str row) (\<lambda>texts. Ok (texts, row))) (map (row_terms_of \<circ> fst) supports)) (\<lambda>keyed.
     bindE (sortE (map (\<lambda>(_, s). (row_support_sort_key s, s)) supports)) (\<lambda>row_supports.
       Ok \<lparr>ro_rows = map snd (sort_key fst keyed), ro_row_supports = row_supports\<rparr>)))"

section \<open>Rewriting\<close>

record native_state =
  ns_memo :: native_memo
  ns_overlay :: "(ustr, rows) dict"
  ns_resolutions :: "rule_ref_resolution list"

definition condition_key :: "nat \<Rightarrow> nat \<Rightarrow> ustr" where
  "condition_key case_index condition_index =
     u ''c'' @ dec_int (int case_index) @ u ''.c'' @ dec_int (int condition_index) @ u '':ruleref''"

definition native_rewrite_atom ::
  "(native_memo \<Rightarrow> rule_spec \<Rightarrow> (native_memo \<times> registered_evaluation) run) \<Rightarrow> rule_registry \<Rightarrow> nat \<Rightarrow>
    native_state \<times> pyval list \<Rightarrow> nat \<times> pyval \<Rightarrow> (native_state \<times> pyval list) run" where
  "native_rewrite_atom ev reg case_index st item = (case (st, item) of ((s, atoms), (condition_index, atom)) \<Rightarrow>
     if \<not> is_rule_ref atom then Some (Ok (s, atoms @ [atom]))
     else (case atom of
         PTuple [_, rule_id, version, PList terms] \<Rightarrow>
           bindR (Some (resolve_exposed_rule_ref WhereValidationError reg rule_id version (length terms))) (\<lambda>spec.
           bindR (ev (ns_memo s) spec) (\<lambda>(memo, out).
           bindR (Some (internal_rule_pred_id (rs_rule_id spec) (rs_version spec))) (\<lambda>pred_id.
             Some (Ok (s\<lparr>ns_memo := memo, ns_overlay := dict_set pred_id (ro_rows out) (ns_overlay s),
                 ns_resolutions := ns_resolutions s @
                   [\<lparr>rr_condition_key = condition_key case_index condition_index, rr_rule_id = rs_rule_id spec,
                     rr_version = rs_version spec, rr_row_supports = ro_row_supports out\<rparr>]\<rparr>,
               atoms @ [PTuple [PStr (u ''pred''), PStr pred_id, PList terms]])))))
       | _ \<Rightarrow> Some (Err WhereValidationError)))"

definition native_rewrite_branch ::
  "(native_memo \<Rightarrow> rule_spec \<Rightarrow> (native_memo \<times> registered_evaluation) run) \<Rightarrow> rule_registry \<Rightarrow>
    native_state \<times> pyval list \<Rightarrow> nat \<times> pyval \<Rightarrow> (native_state \<times> pyval list) run" where
  "native_rewrite_branch ev reg st item = (case (st, item) of ((s, branches), (case_index, branch)) \<Rightarrow>
     (case branch of
        PList atoms \<Rightarrow>
          bindR (foldR (native_rewrite_atom ev reg case_index) (s, []) (enumerate 0 atoms)) (\<lambda>(s, atoms).
            Some (Ok (s, branches @ [PList atoms])))
      | _ \<Rightarrow> Some (Err WhereValidationError)))"

definition native_rewrite ::
  "(native_memo \<Rightarrow> rule_spec \<Rightarrow> (native_memo \<times> registered_evaluation) run) \<Rightarrow> rule_registry \<Rightarrow> native_memo \<Rightarrow>
    pyval list \<Rightarrow> (native_state \<times> pyval list) run" where
  "native_rewrite ev reg memo w =
     (let start = (\<lparr>ns_memo = memo, ns_overlay = [], ns_resolutions = []\<rparr>, []) in
      if list_all is_PTuple w then foldR (native_rewrite_atom ev reg 0) start (enumerate 0 w)
      else if list_all is_PList w then foldR (native_rewrite_branch ev reg) start (enumerate 0 w)
      else Some (Ok (fst start, w)))"

section \<open>Evaluation\<close>

definition registered_output ::
  "(registry_key set \<Rightarrow> native_memo \<Rightarrow> pyval list \<Rightarrow> (native_memo \<times> native_evaluation) run) \<Rightarrow>
    registry_key set \<Rightarrow> native_memo \<Rightarrow> rule_spec \<Rightarrow> (native_memo \<times> registered_evaluation) run" where
  "registered_output ev stack memo spec = (case dict_get memo (rule_key spec) of
      Some out \<Rightarrow> Some (Ok (memo, out))
    | None \<Rightarrow>
        if rule_key spec \<in> stack then Some (Err WhereValidationError)
        else bindR (ev (insert (rule_key spec) stack) memo (rs_where spec)) (\<lambda>(memo, evaluation). Some (
          bindE (registered_rows (rs_select_vars spec) (ne_bindings evaluation)) (\<lambda>out.
            Ok (dict_set (rule_key spec) out memo, out)))))"

definition sorted_resolutions :: "rule_ref_resolution list \<Rightarrow> rule_ref_resolution list" where
  "sorted_resolutions rs = sort_key rr_condition_key rs"

definition plain_evaluation :: "env list \<Rightarrow> native_evaluation" where
  "plain_evaluation bindings = \<lparr>ne_bindings = bindings, ne_rule_refs = [], ne_resolutions = []\<rparr>"

text \<open>\<open>registry\<close> is None when the caller gives none.\<close>

fun evaluate_native ::
  "nat \<Rightarrow> bool \<Rightarrow> rule_registry option \<Rightarrow> view \<Rightarrow> registry_key set \<Rightarrow> native_memo \<Rightarrow> pyval list \<Rightarrow>
    (native_memo \<times> native_evaluation) run" where
  "evaluate_native 0 gate registry view stack memo w = None"
| "evaluate_native (Suc depth) gate registry view stack memo w = (case registry of
      None \<Rightarrow>
        if contains_ruleref_atom (PList w) then Some (Err WhereValidationError)
        else Some (bindE (evaluate_where gate view (PList w) [] [] []) (\<lambda>bindings. Ok (memo, plain_evaluation bindings)))
    | Some reg \<Rightarrow>
        if contains_ruleref_atom (PList w) then
          bindR (Some (validate_where_for_ruleref (PList w))) (\<lambda>_.
          bindR (native_rewrite (registered_output (evaluate_native depth gate registry view) stack) reg memo w) (\<lambda>(s, w).
            Some (bindE (evaluate_where gate (add_overlay (ns_overlay s) view) (PList w) [] [] []) (\<lambda>bindings.
              Ok (ns_memo s, \<lparr>ne_bindings = bindings,
                ne_rule_refs = sort (remdups (map rr_rule_id (sorted_resolutions (ns_resolutions s)))),
                ne_resolutions = sorted_resolutions (sorted_resolutions (ns_resolutions s))\<rparr>)))))
        else Some (bindE (evaluate_where gate view (PList w) [] [] []) (\<lambda>bindings. Ok (memo, plain_evaluation bindings))))"

definition evaluate_native_where ::
  "nat \<Rightarrow> bool \<Rightarrow> rule_registry option \<Rightarrow> view \<Rightarrow> pyval list \<Rightarrow> native_evaluation run" where
  "evaluate_native_where depth gate registry view w =
     bindR (evaluate_native depth gate registry view {} [] w) (\<lambda>(_, evaluation). Some (Ok evaluation))"

section \<open>Where a body fails\<close>

datatype failure_kind = EmptyInput | AtomFilterEmpty

record frontier_row =
  fr_case_index :: nat
  fr_failed_atom_index :: nat
  fr_atoms_satisfied :: nat
  fr_frontier_count :: nat
  fr_failure_kind :: failure_kind

text \<open>The constructor with its \<open>__post_init__\<close>; the fields are counts already.\<close>

definition frontier_row_checked :: "frontier_row \<Rightarrow> frontier_row res" where
  "frontier_row_checked r =
     (if fr_atoms_satisfied r \<noteq> fr_failed_atom_index r then Err ValueError
      else if fr_failure_kind r = EmptyInput \<and> fr_frontier_count r \<noteq> 0 then Err ValueError
      else if fr_failure_kind r = AtomFilterEmpty \<and> fr_frontier_count r = 0 then Err ValueError
      else Ok r)"

text \<open>
  The frontier calls the evaluators of \<open>ne\<close> and of the order comparisons without the facts, their
  first argument.
\<close>

definition frontier_atom :: "bool \<Rightarrow> view \<Rightarrow> env list \<Rightarrow> pyval \<Rightarrow> env list res" where
  "frontier_atom gate view envs atom = (case atom of
      PTuple (PStr kind # _) \<Rightarrow>
        if kind = u ''ne'' \<or> kind \<in> set ORDER_KINDS then Err TypeError else eval_atom gate view envs atom
    | _ \<Rightarrow> Err NotModelled)"

fun frontier_atoms ::
  "bool \<Rightarrow> view \<Rightarrow> nat \<Rightarrow> nat \<Rightarrow> env list \<Rightarrow> pyval list \<Rightarrow> (env list \<times> frontier_row option) res" where
  "frontier_atoms gate view case_index i envs [] = Ok (envs, None)"
| "frontier_atoms gate view case_index i envs (atom # atoms) =
     bindE (frontier_atom gate view envs atom) (\<lambda>envs'.
       if envs' = [] then
         bindE (frontier_row_checked \<lparr>fr_case_index = case_index, fr_failed_atom_index = i, fr_atoms_satisfied = i,
             fr_frontier_count = length envs,
             fr_failure_kind = (if length envs = 0 then EmptyInput else AtomFilterEmpty)\<rparr>) (\<lambda>row. Ok ([], Some row))
       else frontier_atoms gate view case_index (Suc i) envs' atoms)"

definition eval_body_frontier :: "bool \<Rightarrow> view \<Rightarrow> nat \<Rightarrow> pyval list \<Rightarrow> (env list \<times> frontier_row option) res" where
  "eval_body_frontier gate view case_index body =
     bindE (plan_body_atoms gate {} body) (\<lambda>planned. frontier_atoms gate view case_index 0 [[]] planned)"

definition add_frontier_body ::
  "bool \<Rightarrow> view \<Rightarrow> (pyval \<times> env) list \<times> frontier_row list \<Rightarrow> nat \<times> pyval list \<Rightarrow>
    ((pyval \<times> env) list \<times> frontier_row list) res" where
  "add_frontier_body gate view st item = (case (st, item) of ((seen, frontier), (case_index, body)) \<Rightarrow>
     bindE (eval_body_frontier gate view case_index body) (\<lambda>(envs, row).
     bindE (foldE add_binding seen envs) (\<lambda>seen.
       Ok (seen, frontier @ (case row of None \<Rightarrow> [] | Some r \<Rightarrow> [r])))))"

definition evaluate_where_frontier :: "bool \<Rightarrow> view \<Rightarrow> pyval \<Rightarrow> (env list \<times> frontier_row list) res" where
  "evaluate_where_frontier gate view w =
     bindE (if gate then where_gate [CapAllowRuleref False] w else Ok ()) (\<lambda>_.
     bindE (normalize_where w) (\<lambda>bodies.
     bindE (foldE (add_frontier_body gate view) ([], []) (enumerate 0 bodies)) (\<lambda>(seen, frontier).
     bindE (sortE seen) (\<lambda>bindings. Ok (bindings, frontier)))))"

definition evaluate_native_where_frontier ::
  "nat \<Rightarrow> bool \<Rightarrow> rule_registry option \<Rightarrow> view \<Rightarrow> pyval list \<Rightarrow> (native_evaluation \<times> frontier_row list) run" where
  "evaluate_native_where_frontier depth gate registry view w =
     (let plain = Some (bindE (evaluate_where_frontier gate view (PList w)) (\<lambda>(bindings, frontier).
        Ok (plain_evaluation bindings, frontier))) in
      case registry of
        None \<Rightarrow> if contains_ruleref_atom (PList w) then Some (Err WhereValidationError) else plain
      | Some reg \<Rightarrow>
          if contains_ruleref_atom (PList w) then
            bindR (Some (validate_where_for_ruleref (PList w))) (\<lambda>_.
            bindR (native_rewrite (registered_output (evaluate_native depth gate registry view) {}) reg [] w) (\<lambda>(s, w).
              Some (bindE (evaluate_where_frontier gate (add_overlay (ns_overlay s) view) (PList w)) (\<lambda>(bindings, frontier).
                Ok (\<lparr>ne_bindings = bindings,
                  ne_rule_refs = sort (remdups (map rr_rule_id (sorted_resolutions (ns_resolutions s)))),
                  ne_resolutions = sorted_resolutions (sorted_resolutions (ns_resolutions s))\<rparr>, frontier)))))
          else plain)"

end
