(* ===== verification/Rule_AST.thy ===== *)
theory Rule_AST
  imports Where_Validate Py_Dict
begin

text \<open>
  Rules, query rules and programs as syntax trees, from \<^verbatim>\<open>core/rules/rule_ast.py\<close>, and their validation,
  from \<^verbatim>\<open>core/rules/rule_ast_validate.py\<close>.  Origins and the paths in error messages are left out.
\<close>

section \<open>Trees\<close>

text \<open>Fields the parser does not check keep their raw value.\<close>

record head_atom =
  ha_pred_id :: pyval
  ha_terms :: "where_term list"

record rule_ast =
  ra_rule_id :: pyval
  ra_version :: pyval
  ra_head :: head_atom
  ra_where :: where_expr
  ra_meta :: "(pyval \<times> pyval) list option"

record program_ast =
  pr_rules :: "rule_ast list"
  pr_meta :: "(pyval \<times> pyval) list option"

record query_rule_ast =
  qr_rule_id :: pyval
  qr_version :: pyval
  qr_select_vars :: "ustr list"
  qr_where :: where_expr
  qr_expose :: "bool option"
  qr_meta :: "(pyval \<times> pyval) list option"

section \<open>Parsing\<close>

text \<open>
  Fields outside \<open>allowed\<close> are an error of the rule, and a \<open>TypeError\<close> of the message when one of
  them is not a text.
\<close>

definition only_fields :: "ustr list \<Rightarrow> (pyval \<times> pyval) list \<Rightarrow> unit res" where
  "only_fields allowed d =
     (let extra = filter (\<lambda>k. k \<notin> PStr ` set allowed) (map fst d) in
      if extra = [] then Ok ()
      else if list_all (\<lambda>k. case k of PStr _ \<Rightarrow> True | _ \<Rightarrow> False) extra then Err RuleASTError
      else Err TypeError)"

definition required_field :: "(pyval \<times> pyval) list \<Rightarrow> string \<Rightarrow> pyval res" where
  "required_field d k = (case map_of d (PStr (u k)) of None \<Rightarrow> Err RuleASTError | Some v \<Rightarrow> Ok v)"

definition optional_meta :: "(pyval \<times> pyval) list \<Rightarrow> (pyval \<times> pyval) list option res" where
  "optional_meta d = (case dict_field d ''meta'' of
      PNone \<Rightarrow> Ok None | PDict m \<Rightarrow> Ok (Some m) | _ \<Rightarrow> Err RuleASTError)"

definition parse_head_term :: "pyval \<Rightarrow> where_term" where
  "parse_head_term raw = (case raw of PStr s \<Rightarrow> if is_var_name s then Var s else Const raw | _ \<Rightarrow> Const raw)"

definition parse_head_atom :: "pyval \<Rightarrow> head_atom res" where
  "parse_head_atom raw = (case raw of
      PTuple (PStr tag # args) \<Rightarrow>
        if tag \<noteq> u ''pred'' then Err RuleASTError
        else (case args of
            [pred_id, PList terms] \<Rightarrow> Ok \<lparr>ha_pred_id = pred_id, ha_terms = map parse_head_term terms\<rparr>
          | _ \<Rightarrow> Err RuleASTError)
    | _ \<Rightarrow> Err RuleASTError)"

definition parse_rule_where :: "pyval \<Rightarrow> where_expr res" where
  "parse_rule_where w = catchE (parse_where_ir_to_ast w) (\<lambda>e. e = WhereASTError) (\<lambda>_. Err RuleASTError)"

definition parse_rule_ir_to_ast :: "pyval \<Rightarrow> rule_ast res" where
  "parse_rule_ir_to_ast rule_ir =
     bindE (as_dict RuleASTError rule_ir) (\<lambda>d.
     bindE (only_fields [u ''rule_id'', u ''version'', u ''head'', u ''where'', u ''meta''] d) (\<lambda>_.
     bindE (required_field d ''rule_id'') (\<lambda>rule_id.
     bindE (required_field d ''version'') (\<lambda>version.
     bindE (required_field d ''head'') (\<lambda>head.
     bindE (required_field d ''where'') (\<lambda>w.
     bindE (parse_head_atom head) (\<lambda>head.
     bindE (parse_rule_where w) (\<lambda>w.
     bindE (optional_meta d) (\<lambda>meta.
       Ok \<lparr>ra_rule_id = rule_id, ra_version = version, ra_head = head, ra_where = w, ra_meta = meta\<rparr>)))))))))"

definition as_text_list :: "pyval \<Rightarrow> ustr list res" where
  "as_text_list v = bindE (as_list RuleASTError v) (mapE (as_str RuleASTError))"

definition optional_expose :: "(pyval \<times> pyval) list \<Rightarrow> bool option res" where
  "optional_expose d = (case dict_field d ''expose'' of
      PNone \<Rightarrow> Ok None | PBool b \<Rightarrow> Ok (Some b) | _ \<Rightarrow> Err RuleASTError)"

definition parse_query_rule_ir_to_ast :: "pyval \<Rightarrow> query_rule_ast res" where
  "parse_query_rule_ir_to_ast rule_ir =
     bindE (as_dict RuleASTError rule_ir) (\<lambda>d.
     bindE (only_fields [u ''rule_id'', u ''version'', u ''select_vars'', u ''where'', u ''expose'', u ''meta''] d) (\<lambda>_.
     bindE (required_field d ''rule_id'') (\<lambda>rule_id.
     bindE (required_field d ''version'') (\<lambda>version.
     bindE (required_field d ''select_vars'') (\<lambda>select_vars.
     bindE (required_field d ''where'') (\<lambda>w.
     bindE (as_text_list select_vars) (\<lambda>select_vars.
     bindE (optional_expose d) (\<lambda>expose.
     bindE (parse_rule_where w) (\<lambda>w.
     bindE (optional_meta d) (\<lambda>meta.
       Ok \<lparr>qr_rule_id = rule_id, qr_version = version, qr_select_vars = select_vars, qr_where = w,
          qr_expose = expose, qr_meta = meta\<rparr>))))))))))"

definition parse_program_ir_to_ast :: "pyval \<Rightarrow> program_ast res" where
  "parse_program_ir_to_ast program_ir =
     bindE (as_dict RuleASTError program_ir) (\<lambda>d.
     bindE (only_fields [u ''rules'', u ''meta''] d) (\<lambda>_.
     bindE (required_field d ''rules'') (\<lambda>rules.
     bindE (as_list RuleASTError rules) (\<lambda>rules.
     bindE (mapE parse_rule_ir_to_ast rules) (\<lambda>rules.
     bindE (optional_meta d) (\<lambda>meta. Ok \<lparr>pr_rules = rules, pr_meta = meta\<rparr>))))))"

section \<open>Lowering\<close>

definition lower_head_term :: "where_term \<Rightarrow> pyval res" where
  "lower_head_term t = (case t of Var x \<Rightarrow> Ok (PStr x) | Const c \<Rightarrow> Ok c | _ \<Rightarrow> Err RuleASTError)"

definition lower_head_atom :: "head_atom \<Rightarrow> pyval res" where
  "lower_head_atom head =
     bindE (mapE lower_head_term (ha_terms head)) (\<lambda>ts. Ok (PTuple [PStr (u ''pred''), ha_pred_id head, PList ts]))"

definition meta_member :: "(pyval \<times> pyval) list option \<Rightarrow> (pyval \<times> pyval) list" where
  "meta_member meta = (case meta of None \<Rightarrow> [] | Some m \<Rightarrow> [(PStr (u ''meta''), PDict m)])"

definition lower_rule_ast_to_ir :: "rule_ast \<Rightarrow> pyval res" where
  "lower_rule_ast_to_ir r =
     bindE (lower_head_atom (ra_head r)) (\<lambda>head.
       Ok (PDict ([(PStr (u ''rule_id''), ra_rule_id r), (PStr (u ''version''), ra_version r),
         (PStr (u ''head''), head), (PStr (u ''where''), lower_ast_to_where_ir (ra_where r))] @ meta_member (ra_meta r))))"

definition lower_query_rule_ast_to_ir :: "query_rule_ast \<Rightarrow> pyval" where
  "lower_query_rule_ast_to_ir r =
     PDict ([(PStr (u ''rule_id''), qr_rule_id r), (PStr (u ''version''), qr_version r),
       (PStr (u ''select_vars''), PList (map PStr (qr_select_vars r))),
       (PStr (u ''where''), lower_ast_to_where_ir (qr_where r))] @
       (case qr_expose r of None \<Rightarrow> [] | Some b \<Rightarrow> [(PStr (u ''expose''), PBool b)]) @ meta_member (qr_meta r))"

definition lower_program_ast_to_ir :: "program_ast \<Rightarrow> pyval res" where
  "lower_program_ast_to_ir p =
     bindE (mapE lower_rule_ast_to_ir (pr_rules p)) (\<lambda>rules.
       Ok (PDict ([(PStr (u ''rules''), PList rules)] @ meta_member (pr_meta p))))"

section \<open>Validation\<close>

definition where_validation_errors :: "py_exc set" where
  "where_validation_errors = {WhereASTValidationError, AggregateValidationError, AggregateVariableScopeError}"

definition validate_rule_where ::
  "where_expr \<Rightarrow> ustr \<Rightarrow> capability list option \<Rightarrow> backend_profile option \<Rightarrow> unit res" where
  "validate_rule_where e m caps profile =
     catchE (validate_where_ast e m caps profile None) (\<lambda>e. e \<in> where_validation_errors) (\<lambda>_. Err RuleASTValidationError)"

definition validate_name :: "pyval \<Rightarrow> unit res" where
  "validate_name v = bindE (as_name RuleASTValidationError v) (\<lambda>_. Ok ())"

definition validate_head_term :: "where_term \<Rightarrow> unit res" where
  "validate_head_term t = (case t of
      Var x \<Rightarrow> if starts_with x (u ''$'') \<and> 2 \<le> length x then Ok () else Err RuleASTValidationError
    | Const c \<Rightarrow> Ok ()
    | _ \<Rightarrow> Err RuleASTValidationError)"

definition validate_head_shape :: "head_atom \<Rightarrow> unit res" where
  "validate_head_shape head =
     bindE (validate_name (ha_pred_id head)) (\<lambda>_. forE validate_head_term (ha_terms head))"

definition validate_rule_shape :: "rule_ast \<Rightarrow> unit res" where
  "validate_rule_shape r = bindE (validate_name (ra_rule_id r)) (\<lambda>_. validate_name (ra_version r))"

definition validate_rule_ast ::
  "rule_ast \<Rightarrow> ustr \<Rightarrow> capability list option \<Rightarrow> backend_profile option \<Rightarrow> unit res" where
  "validate_rule_ast r m caps profile =
     bindE (validate_rule_shape r) (\<lambda>_.
     bindE (validate_head_shape (ra_head r)) (\<lambda>_. validate_rule_where (ra_where r) m caps profile))"

definition validate_program_ast ::
  "program_ast \<Rightarrow> ustr \<Rightarrow> capability list option \<Rightarrow> backend_profile option \<Rightarrow> unit res" where
  "validate_program_ast p m caps profile = forE (\<lambda>r. validate_rule_ast r m caps profile) (pr_rules p)"

definition validate_query_rule_shape :: "query_rule_ast \<Rightarrow> unit res" where
  "validate_query_rule_shape r =
     bindE (validate_name (qr_rule_id r)) (\<lambda>_.
     bindE (validate_name (qr_version r)) (\<lambda>_.
       if qr_select_vars r = [] then Err RuleASTValidationError
       else if [] \<in> set (qr_select_vars r) then Err RuleASTValidationError
       else Ok ()))"

text \<open>The variables every result of a clause binds.\<close>

definition direct_vars :: "where_term list \<Rightarrow> ustr set" where
  "direct_vars ts = (\<Union>t \<in> set ts. case t of Var x \<Rightarrow> {x} | _ \<Rightarrow> {})"

definition term_is_resolved :: "ustr set \<Rightarrow> where_term \<Rightarrow> bool" where
  "term_is_resolved bound t = (case t of Const c \<Rightarrow> True | Var x \<Rightarrow> x \<in> bound | _ \<Rightarrow> False)"

definition apply_cmp_eq_binder :: "ustr \<Rightarrow> where_term \<Rightarrow> where_term \<Rightarrow> ustr set \<Rightarrow> ustr set" where
  "apply_cmp_eq_binder op l r bound =
     (if op \<noteq> u ''eq'' then bound
      else (case (if term_is_resolved bound l then unbound_var bound r else None) of
          Some y \<Rightarrow> insert y bound
        | None \<Rightarrow> (case (if term_is_resolved bound r then unbound_var bound l else None) of
            Some x \<Rightarrow> insert x bound
          | None \<Rightarrow> bound)))"

definition builtin_output_var :: "where_term list \<Rightarrow> ustr option" where
  "builtin_output_var args = (case args of Var z # _ \<Rightarrow> Some z | _ \<Rightarrow> None)"

definition query_guaranteed_bound_and :: "ustr set \<Rightarrow> where_atom list \<Rightarrow> ustr set" where
  "query_guaranteed_bound_and bound atoms = foldl (\<lambda>bound a. case a of
      PredAtom p ts \<Rightarrow> bound \<union> direct_vars ts
    | RuleRefAtom r v ts \<Rightarrow> bound \<union> direct_vars ts
    | InAtom x cs \<Rightarrow> bound
    | NotAtom e \<Rightarrow> bound
    | BuiltinAtom op args \<Rightarrow> (case builtin_output_var args of None \<Rightarrow> bound | Some z \<Rightarrow> insert z bound)
    | CmpAtom op l r \<Rightarrow> apply_cmp_eq_binder op l r bound) bound atoms"

definition query_guaranteed_bound :: "ustr set \<Rightarrow> where_expr \<Rightarrow> ustr set" where
  "query_guaranteed_bound bound e = (case e of
      AndExpr atoms \<Rightarrow> query_guaranteed_bound_and bound atoms
    | OrExpr branches \<Rightarrow> (case map (query_guaranteed_bound_and bound) branches of
          [] \<Rightarrow> bound | b # bs \<Rightarrow> foldl (\<inter>) b bs))"

definition validate_query_select_vars_available :: "query_rule_ast \<Rightarrow> unit res" where
  "validate_query_select_vars_available r =
     (if \<not> set (qr_select_vars r) \<subseteq> query_guaranteed_bound {} (qr_where r) then Err RuleASTValidationError else Ok ())"

definition validate_query_rule_ast ::
  "query_rule_ast \<Rightarrow> ustr \<Rightarrow> capability list option \<Rightarrow> backend_profile option \<Rightarrow> unit res" where
  "validate_query_rule_ast r m caps profile =
     bindE (validate_query_rule_shape r) (\<lambda>_.
     bindE (validate_rule_where (qr_where r) m caps profile) (\<lambda>_.
       validate_query_select_vars_available r))"

section \<open>Parsing inverts lowering\<close>

lemma parse_lower_head_term: "lower_head_term (parse_head_term t) = Inr t"
  by (auto simp: parse_head_term_def lower_head_term_def split: pyval.split)

lemma lower_parse_head: "parse_head_atom raw = Inr head \<Longrightarrow> lower_head_atom head = Inr raw"
proof -
  have map: "mapE lower_head_term (map parse_head_term ts) = Inr ts" for ts
    by (induction ts) (simp_all add: parse_lower_head_term)
  show "parse_head_atom raw = Inr head \<Longrightarrow> lower_head_atom head = Inr raw"
    unfolding parse_head_atom_def as_tagged
    by (auto simp: lower_head_atom_def map as_pred_args split: if_split_asm list.split_asm pyval.split_asm)
qed

lemma parse_rule_where_Inr: "parse_rule_where w = Inr e \<Longrightarrow> lower_ast_to_where_ir e = w"
  using lower_parse(3)
  by (auto simp: parse_rule_where_def catchE_def parse_where_ir_to_ast_def lower_ast_to_where_ir_def split: sum.splits if_split_asm)

lemma meta_member_get: "map_of (meta_member m) k = (if k = PStr (u ''meta'') then map_option PDict m else None)"
  by (simp add: meta_member_def split: option.split)

lemma optional_meta_Inr: "optional_meta d = Inr m \<Longrightarrow> dict_field d ''meta'' = (case m of None \<Rightarrow> PNone | Some m \<Rightarrow> PDict m)"
  by (auto simp: optional_meta_def split: pyval.splits)

end
