(* ===== verification/Where_Join.thy ===== *)
theory Where_Join
  imports Where_Eval
begin

text \<open>
  Predicate atoms.  Looking facts up through an index keeps the result of the nested loop over all
  facts, and matching a fact is unification with the binding: it succeeds exactly for the facts
  that some extension of the binding makes equal to the terms.
\<close>

section \<open>Values\<close>

text \<open>
  Texts and integers: on them Python's \<open>==\<close> is equality, while \<open>True == 1\<close>, and a variable bound to
  None counts as unbound when a fact is matched.
\<close>

definition plain_value :: "pyval \<Rightarrow> bool" where
  "plain_value v \<longleftrightarrow> (case v of PStr _ \<Rightarrow> True | PInt _ \<Rightarrow> True | _ \<Rightarrow> False)"

lemma plain_value_simps [simp]: "plain_value (PStr s)" "plain_value (PInt i)" "\<not> plain_value PNone"
  by (simp_all add: plain_value_def)

lemma plain_value_cases: "plain_value v \<Longrightarrow> (\<And>s. v = PStr s \<Longrightarrow> P) \<Longrightarrow> (\<And>i. v = PInt i \<Longrightarrow> P) \<Longrightarrow> P"
  by (auto simp: plain_value_def split: pyval.splits)

lemma py_eq_plain [simp]: "plain_value v \<Longrightarrow> plain_value w \<Longrightarrow> py_eq v w \<longleftrightarrow> v = w"
  by (auto elim!: plain_value_cases simp: py_num_eq_def py_number_def number_eq_def)

lemma py_key_plain [simp]: "plain_value v \<Longrightarrow> py_key v"
  by (auto elim!: plain_value_cases)

definition keyed :: "env \<Rightarrow> bool" where
  "keyed env \<longleftrightarrow> (\<forall>x v. dict_get env x = Some v \<longrightarrow> py_key v \<and> v \<noteq> PNone)"

definition keyed_facts :: "pyval list list \<Rightarrow> bool" where
  "keyed_facts facts \<longleftrightarrow> (\<forall>f \<in> set facts. \<forall>v \<in> set f. py_key v)"

definition plain_env :: "env \<Rightarrow> bool" where
  "plain_env env \<longleftrightarrow> (\<forall>x v. dict_get env x = Some v \<longrightarrow> plain_value v)"

definition plain_facts :: "view \<Rightarrow> bool" where
  "plain_facts view \<longleftrightarrow> (\<forall>p facts. dict_get view p = Some facts \<longrightarrow> (\<forall>f \<in> set facts. \<forall>v \<in> set f. plain_value v))"

section \<open>The index\<close>

lemma match_fact_None:
  assumes "length vs = length ts" "i < length ts" "resolve env (ts ! i) = Known k"
    and "is_var (ts ! i) \<Longrightarrow> k \<noteq> PNone" "\<not> py_eq k (vs ! i)"
  shows "match_fact env ts vs = None"
  using assms
proof (induction env ts vs arbitrary: i rule: match_fact.induct)
  case (1 env t ts v vs)
  show ?case
  proof (cases i)
    case 0
    with 1 show ?thesis by (auto simp: resolve_def split: if_split_asm option.splits)
  next
    case (Suc j)
    have upd: "resolve (dict_set (var_of t) v env) (ts ! j) = Known k"
      if "is_var t" "dict_get env (var_of t) = None \<or> dict_get env (var_of t) = Some PNone"
      using that 1(6,7,8) Suc by (auto simp: resolve_def split: if_split_asm option.splits)
    show ?thesis using 1 Suc upd by (auto split: option.splits)
  qed
qed auto

lemma fixed_positions_iff:
  "(i, k) \<in> set (fixed_positions terms env) \<longleftrightarrow> i < length terms \<and> resolve env (terms ! i) = Known k"
proof -
  have en: "(i, t) \<in> set (enumerate 0 terms) \<longleftrightarrow> i < length terms \<and> t = terms ! i" for t
    by (auto simp: in_set_enumerate_eq)
  have "(i, k) \<in> set (fixed_positions terms env) \<longleftrightarrow>
      (\<exists>t. (i, t) \<in> set (enumerate 0 terms) \<and> resolve env t = Known k)"
    by (auto simp: fixed_positions_def List.map_filter_def split: resolved.splits) (force split: resolved.splits)+
  then show ?thesis by (simp add: en)
qed

lemma resolve_key: "keyed env \<Longrightarrow> resolve env t = Known k \<Longrightarrow> is_var t \<Longrightarrow> py_key k \<and> k \<noteq> PNone"
  by (auto simp: resolve_def keyed_def split: option.splits if_split_asm)

text \<open>The nested loop that the index replaces.\<close>

definition scan_facts :: "pyval list list \<Rightarrow> pyval list \<Rightarrow> env \<Rightarrow> env list" where
  "scan_facts facts terms env = List.map_filter (match_fact env terms) facts"

lemma map_filter_filter:
  "(\<And>x. x \<in> set xs \<Longrightarrow> \<not> P x \<Longrightarrow> f x = None) \<Longrightarrow> List.map_filter f (filter P xs) = List.map_filter f xs"
  by (induction xs) (auto simp: List.map_filter_simps split: option.splits)

lemma candidates_suffice:
  assumes facts: "keyed_facts facts" "\<forall>f \<in> set facts. length f = length terms"
    and env: "keyed env" and terms: "\<forall>t \<in> set terms. is_var t \<or> py_key t"
  shows "bindE (pred_candidates_for_env facts terms env) (\<lambda>cs. Ok (List.map_filter (\<lambda>f. match_fact env terms f) cs)) =
    Ok (scan_facts facts terms env)"
proof (cases "fixed_positions terms env = []")
  case True
  then show ?thesis by (simp add: pred_candidates_for_env_def scan_facts_def)
next
  case False
  define pos where "pos = map fst (fixed_positions terms env)"
  define key where "key = PTuple (map snd (fixed_positions terms env))"
  have k: "i < length terms \<and> resolve env (terms ! i) = Known v \<and> py_key v \<and> (is_var (terms ! i) \<longrightarrow> v \<noteq> PNone)"
    if "(i, v) \<in> set (fixed_positions terms env)" for i v
    using that terms resolve_key [OF env, of "terms ! i" v]
    by (cases "is_var (terms ! i)") (auto simp: fixed_positions_iff resolve_def all_set_conv_all_nth)
  have pos: "i < length terms" if "i \<in> set pos" for i using that k by (auto simp: pos_def)
  have fkey: "py_key (PTuple (map ((!) f) pos))" if "f \<in> set facts" for f
    using that facts pos by (fastforce simp: keyed_facts_def)
  then have hash: "list_all (\<lambda>f. hashable (PTuple (map ((!) f) pos))) facts"
    by (auto simp: list_all_iff py_key_def)
  have key: "py_key key" using k by (auto simp: key_def)
  have miss: "match_fact env terms f = None" if f: "f \<in> set facts" and ne: "\<not> py_eq (PTuple (map ((!) f) pos)) key" for f
  proof -
    from ne obtain j where j: "j < length (fixed_positions terms env)"
      "\<not> py_eq (f ! fst (fixed_positions terms env ! j)) (snd (fixed_positions terms env ! j))"
      by (auto simp: pos_def key_def list_all2_conv_all_nth)
    obtain i v where iv: "fixed_positions terms env ! j = (i, v)" by fastforce
    then have "(i, v) \<in> set (fixed_positions terms env)" using j(1) by (metis nth_mem)
    then have i: "i < length terms" "resolve env (terms ! i) = Known v" "py_key v" "is_var (terms ! i) \<longrightarrow> v \<noteq> PNone"
      using k by auto
    have "\<not> py_eq v (f ! i)"
      using j(2) iv py_key_sym [OF i(3)] by auto
    then show ?thesis using i facts(2) f by (intro match_fact_None [where i = i and k = v]) auto
  qed
  have "vdict_get (fact_index facts pos) key =
      (let fs = filter (\<lambda>f. py_eq (PTuple (map ((!) f) pos)) key) facts in if fs = [] then None else Some fs)"
    unfolding fact_index_def using fkey by (subst vgroup_get) (auto simp: comp_def filter_map)
  then have "(case vdict_get (fact_index facts pos) key of None \<Rightarrow> [] | Some fs \<Rightarrow> fs) =
      filter (\<lambda>f. py_eq (PTuple (map ((!) f) pos)) key) facts"
    by (simp add: Let_def)
  moreover have "hashable key" using key by (simp add: py_key_def)
  ultimately show ?thesis
    using False hash miss
    by (simp add: pred_candidates_for_env_def pos_def key_def Let_def scan_facts_def map_filter_filter)
qed

section \<open>Matching is unification\<close>

lemma match_fact_sound:
  assumes "match_fact env ts vs = Some env'" "length vs = length ts" "plain_env env"
    and "\<forall>v \<in> set vs. plain_value v" "\<forall>t \<in> set ts. is_var t \<or> plain_value t"
  shows "plain_env env' \<and> map_of env \<subseteq>\<^sub>m map_of env' \<and>
    dom (map_of env') = dom (map_of env) \<union> set (var_terms ts) \<and> map (resolve env') ts = map Known vs"
  using assms
proof (induction env ts vs arbitrary: env' rule: match_fact.induct)
  case (1 env t ts v vs)
  show ?case
  proof (cases "is_var t")
    case False
    with 1 show ?thesis by (auto simp: var_terms_def resolve_def split: if_split_asm)
  next
    case True
    show ?thesis
    proof (cases "dict_get env (var_of t)")
      case None
      define env1 where "env1 = dict_set (var_of t) v env"
      have p: "plain_env env1" using "1.prems"(3,4) by (auto simp: plain_env_def env1_def)
      have m: "match_fact env1 ts vs = Some env'" using "1.prems"(1) True None by (simp add: env1_def)
      have "plain_env env' \<and> map_of env1 \<subseteq>\<^sub>m map_of env' \<and>
          dom (map_of env') = dom (map_of env1) \<union> set (var_terms ts) \<and> map (resolve env') ts = map Known vs"
        using m p "1.prems"(2,4,5) unfolding env1_def by (intro "1.IH"(1) [OF True None]) auto
      note ih = this [THEN conjunct1] this [THEN conjunct2, THEN conjunct1]
        this [THEN conjunct2, THEN conjunct2, THEN conjunct1] this [THEN conjunct2, THEN conjunct2, THEN conjunct2]
      have "dict_get env' (var_of t) = Some v"
        using ih(2) by (auto simp: map_le_def env1_def)
      then have "resolve env' t = Known v" using True by (simp add: resolve_def)
      moreover have "map_of env \<subseteq>\<^sub>m map_of env'"
        using ih(2) None by (auto simp: map_le_def env1_def dom_def split: if_split_asm)
      ultimately show ?thesis using ih True by (auto simp: env1_def var_terms_def)
    next
      case (Some b)
      then have b: "plain_value b" using "1.prems"(3) by (auto simp: plain_env_def)
      then have "b \<noteq> PNone" by auto
      note b = b this
      have bv: "b = v" "match_fact env ts vs = Some env'"
        using "1.prems"(1,4) True Some b by (auto split: if_split_asm)
      have "plain_env env' \<and> map_of env \<subseteq>\<^sub>m map_of env' \<and>
          dom (map_of env') = dom (map_of env) \<union> set (var_terms ts) \<and> map (resolve env') ts = map Known vs"
        using bv "1.prems" b by (intro "1.IH"(3) [OF True Some]) auto
      moreover from this have "dict_get env' (var_of t) = Some v"
        using Some bv(1) by (force simp: map_le_def)
      ultimately show ?thesis using Some True by (auto simp: var_terms_def resolve_def [of _ t])
    qed
  qed
qed (auto simp: var_terms_def)

lemma match_fact_complete:
  assumes "map_of env \<subseteq>\<^sub>m map_of \<sigma>" "map (resolve \<sigma>) ts = map Known vs" "plain_env \<sigma>"
    and "\<forall>t \<in> set ts. is_var t \<or> plain_value t"
  shows "\<exists>env'. match_fact env ts vs = Some env' \<and> map_of env' \<subseteq>\<^sub>m map_of \<sigma>"
  using assms
proof (induction env ts vs rule: match_fact.induct)
  case (1 env t ts v vs)
  show ?case
  proof (cases "is_var t")
    case False
    with 1 show ?thesis by (auto simp: resolve_def)
  next
    case True
    with "1.prems"(2) have v: "dict_get \<sigma> (var_of t) = Some v" by (auto simp: resolve_def split: option.splits)
    show ?thesis
    proof (cases "dict_get env (var_of t)")
      case None
      have "map_of (dict_set (var_of t) v env) \<subseteq>\<^sub>m map_of \<sigma>"
        using "1.prems"(1) v by (auto simp: map_le_def)
      then have "\<exists>env'. match_fact (dict_set (var_of t) v env) ts vs = Some env' \<and> map_of env' \<subseteq>\<^sub>m map_of \<sigma>"
        using "1.prems"(2-4) by (intro "1.IH"(1) [OF True None]) (auto simp: fun_upd_def)
      with True None show ?thesis by simp
    next
      case (Some b)
      then have "b = v" using "1.prems"(1) v by (force simp: map_le_def dom_def)
      moreover have "plain_value v" using "1.prems"(3) v by (auto simp: plain_env_def)
      ultimately show ?thesis using 1 True Some by auto
    qed
  qed
qed auto

end
