(* ===== verification/Where_Semantics.thy ===== *)
theory Where_Semantics
  imports Where_Join
begin

text \<open>
  The evaluator on parsed clauses without aggregates: how each kind of atom acts on a binding,
  the data flow that validation establishes and evaluation keeps, and what a binding has to
  satisfy.
\<close>

section \<open>Clauses without aggregates\<close>

fun aggregate_free_term :: "where_term \<Rightarrow> bool" where
  "aggregate_free_term (AggregateAtom k t atoms) = False"
| "aggregate_free_term _ = True"

fun aggregate_free_atom :: "where_atom \<Rightarrow> bool"
and aggregate_free :: "where_expr \<Rightarrow> bool" where
  "aggregate_free_atom (PredAtom p ts) = list_all aggregate_free_term ts"
| "aggregate_free_atom (RuleRefAtom r v ts) = list_all aggregate_free_term ts"
| "aggregate_free_atom (CmpAtom op l r) = (aggregate_free_term l \<and> aggregate_free_term r)"
| "aggregate_free_atom (InAtom x cs) = True"
| "aggregate_free_atom (BuiltinAtom op ts) = list_all aggregate_free_term ts"
| "aggregate_free_atom (NotAtom e) = aggregate_free e"
| "aggregate_free (AndExpr atoms) = list_all aggregate_free_atom atoms"
| "aggregate_free (OrExpr branches) = list_all (list_all aggregate_free_atom) branches"

text \<open>What the parser guarantees of the leaves.\<close>

fun simple_term :: "where_term \<Rightarrow> bool" where
  "simple_term (Var x) = is_var_name x"
| "simple_term (Const c) = (\<not> is_var c \<and> \<not> is_aggregate_term c)"
| "simple_term (AggregateAtom k t atoms) = False"

fun simple_atom :: "where_atom \<Rightarrow> bool" where
  "simple_atom (PredAtom p ts) = list_all simple_term ts"
| "simple_atom (RuleRefAtom r v ts) = False"
| "simple_atom (CmpAtom op l r) = (op \<in> set CMP_OPS \<and> simple_term l \<and> simple_term r)"
| "simple_atom (InAtom x cs) = is_var_name x"
| "simple_atom (BuiltinAtom op ts) = (op \<in> set BUILTIN_TAGS \<and> list_all simple_term ts)"
| "simple_atom (NotAtom e) = False"

lemma is_aggregate_term_iff:
  "is_aggregate_term v \<longleftrightarrow> (\<exists>k a b. v = PTuple [PStr k, a, b] \<and> k \<in> set AGGREGATE_KINDS)"
proof (cases v)
  case (PTuple vs)
  show ?thesis
  proof (cases vs)
    case (Cons h t)
    show ?thesis
      by (cases h; cases t; cases "tl t"; cases "tl (tl t)") (simp_all add: PTuple Cons is_aggregate_term_def)
  qed (simp add: PTuple is_aggregate_term_def)
qed (simp_all add: is_aggregate_term_def)

lemma is_var_iff: "is_var v \<longleftrightarrow> (\<exists>s. v = PStr s \<and> is_var_name s)"
  by (simp add: is_var_def split: pyval.splits)

lemma parse_simple_term: "parse_term raw = Inr t \<Longrightarrow> aggregate_free_term t \<Longrightarrow> simple_term t"
  by (elim parse_term_cases) (auto simp: is_var_iff is_aggregate_term_iff)

lemma mapE_list_all: "mapE f xs = Inr ys \<Longrightarrow> (\<And>x y. f x = Inr y \<Longrightarrow> Q y \<Longrightarrow> P y) \<Longrightarrow> list_all Q ys \<Longrightarrow> list_all P ys"
  by (induction xs arbitrary: ys) (auto simp: err_simps)

lemma parse_simple_atom:
  assumes "parse_atom raw = Inr a" "aggregate_free_atom a" "\<And>e. a \<noteq> NotAtom e" "\<And>r v ts. a \<noteq> RuleRefAtom r v ts"
  shows "simple_atom a"
  using assms
proof (cases rule: parse_atom_cases)
  case (In var vals x cs)
  then show ?thesis by (auto elim: parse_term_cases)
qed (auto intro: parse_simple_term mapE_list_all [OF _ parse_simple_term])

lemma is_var_lower [simp]: "simple_term t \<Longrightarrow> is_var (lower_term t) \<longleftrightarrow> (\<exists>x. t = Var x)"
  by (cases t) (auto simp: is_var_def)

lemma simple_not_aggregate [simp]: "simple_term t \<Longrightarrow> \<not> is_aggregate_term (lower_term t)"
  by (cases t) (auto simp: is_aggregate_term_def)

definition term_value :: "env \<Rightarrow> where_term \<Rightarrow> resolved" where
  "term_value env t = resolve env (lower_term t)"

lemma term_value_Var [simp]:
  "is_var_name x \<Longrightarrow> term_value env (Var x) = (case dict_get env x of Some v \<Rightarrow> Known v | None \<Rightarrow> Unbound)"
  by (simp add: term_value_def resolve_def is_var_def var_of_def)

lemma term_value_Const [simp]: "\<not> is_var c \<Longrightarrow> term_value env (Const c) = Known c"
  by (simp add: term_value_def resolve_def)

lemma term_value_not_NoValue [simp]: "term_value env t \<noteq> NoValue"
  by (auto simp: term_value_def resolve_def split: option.splits)

lemma resolve_simple [simp]:
  "simple_term t \<Longrightarrow> resolve_eval_term gate view env (lower_term t) = Inr (term_value env t)"
  by (simp add: resolve_eval_term.simps term_value_def)

section \<open>How atoms act\<close>

definition cmp_step :: "bool \<Rightarrow> ustr \<Rightarrow> env \<Rightarrow> where_term \<Rightarrow> where_term \<Rightarrow> env list res" where
  "cmp_step gate op env l r =
     (if op = u ''eq'' then join_eq gate env (lower_term l) (lower_term r) (term_value env l) (term_value env r)
      else if op = u ''ne'' then filter_ne gate env (term_value env l) (term_value env r)
      else filter_cmp gate op env (term_value env l) (term_value env r))"

definition arith_step :: "bool \<Rightarrow> ustr \<Rightarrow> env \<Rightarrow> where_term list \<Rightarrow> env list res" where
  "arith_step gate op env ts = (case ts of
      [z, x] \<Rightarrow>
        if op = u ''neg'' then
          bindE (arith_operand gate (term_value env x)) (\<lambda>a. case a of
            None \<Rightarrow> Ok [] | Some a \<Rightarrow> bind_or_check_result env (lower_term z) (- a))
        else Err ValueError
    | [z, x, y] \<Rightarrow>
        if op = u ''add'' \<or> op = u ''sub'' then
          bindE (arith_operand gate (term_value env x)) (\<lambda>a. case a of
            None \<Rightarrow> Ok []
          | Some a \<Rightarrow> bindE (arith_operand gate (term_value env y)) (\<lambda>b. case b of
              None \<Rightarrow> Ok [] | Some b \<Rightarrow> bind_or_check_result env (lower_term z) (arith_result op a b)))
        else if op = u ''neg'' then Err ValueError
        else bindE (arith_operand gate (term_value env x)) (\<lambda>a. case a of
            None \<Rightarrow> Ok []
          | Some a \<Rightarrow> bindE (coerce_arith_int (lower_term y)) (\<lambda>c.
              bind_or_check_result env (lower_term z) (arith_result op a c)))
    | _ \<Rightarrow> Err ValueError)"

lemma eval_pred: "eval_atom gate view envs (lower_atom (PredAtom p ts)) = eval_pred_atom view envs p (map lower_term ts)"
  by (simp add: eval_atom.simps)

lemma eval_cmp:
  "simple_atom (CmpAtom op l r) \<Longrightarrow>
    eval_atom gate view envs (lower_atom (CmpAtom op l r)) = concatE (\<lambda>env. cmp_step gate op env l r) envs"
  by (auto simp: eval_atom.simps cmp_step_def CMP_OPS_def ORDER_KINDS_def)

lemma eval_in:
  "is_var_name x \<Longrightarrow> eval_atom gate view envs (lower_atom (InAtom x cs)) = eval_in_atom gate envs (PStr x) cs"
  by (simp add: eval_atom.simps is_var_def py_iter_def)

lemma builtin_cases:
  assumes "validate_builtin_shape op ts = Inr ()"
  obtains (Two) z x y where "op = u ''add'' \<or> op = u ''sub''" "ts = [Var z, x, y]"
  | (One) z x where "op = u ''neg''" "ts = [Var z, x]"
  | (Scale) z x c where "op = u ''addc'' \<or> op = u ''mulc''" "ts = [Var z, x, Const c]"
proof -
  have three: "(\<exists>z x y. ts = [Var z, x, y])" if "(case ts of [Var z, x, y] \<Rightarrow> Ok () | _ \<Rightarrow> Err WhereASTValidationError) = Inr ()"
    using that by (simp split: list.split_asm where_term.split_asm)
  have two: "(\<exists>z x. ts = [Var z, x])" if "(case ts of [Var z, x] \<Rightarrow> Ok () | _ \<Rightarrow> Err WhereASTValidationError) = Inr ()"
    using that by (simp split: list.split_asm where_term.split_asm)
  have const: "(\<exists>z x c. ts = [Var z, x, Const c])"
    if "(case ts of [Var z, x, Const c] \<Rightarrow> Ok () | _ \<Rightarrow> Err WhereASTValidationError) = Inr ()"
    using that by (simp split: list.split_asm where_term.split_asm)
  show ?thesis
    using assms that three two const unfolding validate_builtin_shape_def by (auto split: if_split_asm)
qed

lemma eval_arith:
  assumes "simple_atom (BuiltinAtom op ts)" "validate_builtin_shape op ts = Inr ()"
  shows "eval_atom gate view envs (lower_atom (BuiltinAtom op ts)) = concatE (\<lambda>env. arith_step gate op env ts) envs"
  using assms(2)
proof (cases rule: builtin_cases)
  case (Two z x y)
  then show ?thesis using assms(1) by (auto simp: eval_atom.simps arith_step_def ORDER_KINDS_def)
next
  case (One z x)
  then show ?thesis using assms(1) by (simp add: eval_atom.simps arith_step_def ORDER_KINDS_def)
next
  case (Scale z x c)
  then show ?thesis using assms(1) by (auto simp: eval_atom.simps arith_step_def ORDER_KINDS_def)
qed

lemmas eval_simple = eval_pred eval_cmp eval_in eval_arith

section \<open>Domains\<close>

definition bound_vars :: "env \<Rightarrow> ustr set" where
  "bound_vars env = dom (map_of env)"

lemma bound_vars_set [simp]: "bound_vars (dict_set x v env) = insert x (bound_vars env)"
  by (simp add: bound_vars_def)

lemma bound_vars_keys: "bound_vars env = fst ` set env"
  by (simp add: bound_vars_def dom_map_of_conv_image_fst)

lemma bound_in_single: "bound_in [env] = bound_vars env"
  by (simp add: bound_in_def bound_vars_keys)

lemma match_fact_bound:
  "match_fact env ts vs = Some env' \<Longrightarrow> length vs = length ts \<Longrightarrow> bound_vars env' = bound_vars env \<union> set (var_terms ts)"
proof (induction env ts vs arbitrary: env' rule: match_fact.induct)
  case (1 env t ts v vs)
  have old: "var_of t \<in> bound_vars env" if "dict_get env (var_of t) = Some b" for b
    using that by (auto simp: bound_vars_def)
  show ?case
    using 1 old by (auto simp: var_terms_def split: if_split_asm option.splits)
qed (auto simp: var_terms_def)

lemma vgroup_values_subset: "(k, ys) \<in> set (vgroup xs) \<Longrightarrow> set ys \<subseteq> snd ` set xs"
proof (induction xs arbitrary: k ys rule: rev_induct)
  case (snoc p xs)
  obtain k' x where p: "p = (k', x)" by (cases p)
  have get: "vdict_get d l = Some zs \<Longrightarrow> \<exists>j. (j, zs) \<in> set d" for d l and zs :: "'b list"
    by (induction d l rule: vdict_get.induct) (auto split: if_split_asm)
  have upd: "(k, ys) \<in> set (vdict_set l zs d) \<Longrightarrow> ys = zs \<or> (k, ys) \<in> set d" for l zs d
    by (induction l zs d rule: vdict_set.induct) (auto split: if_split_asm)
  from snoc.prems have "ys = (case vdict_get (vgroup xs) k' of None \<Rightarrow> [] | Some xs \<Rightarrow> xs) @ [x] \<or> (k, ys) \<in> set (vgroup xs)"
    by (auto simp: p vdict_append_def dest: upd)
  then show ?case using snoc.IH get [of "vgroup xs" k'] by (fastforce simp: p split: option.splits)
qed simp

lemma candidates_are_facts:
  "pred_candidates_for_env facts terms env = Inr cs \<Longrightarrow> set cs \<subseteq> set facts"
proof -
  assume a: "pred_candidates_for_env facts terms env = Inr cs"
  have get: "vdict_get d l = Some zs \<Longrightarrow> \<exists>j. (j, zs) \<in> set d" for d l and zs :: "pyval list list"
    by (induction d l rule: vdict_get.induct) (auto split: if_split_asm)
  from a show ?thesis
    by (auto simp: pred_candidates_for_env_def Let_def fact_index_def split: if_split_asm option.splits
        dest!: get vgroup_values_subset)
qed

lemma eval_pred_member:
  assumes "eval_pred_atom view envs p terms = Inr envs'" "env' \<in> set envs'"
  obtains q facts env f where "p = PStr q" "dict_get view q = Some facts" "env \<in> set envs" "f \<in> set facts"
    "length f = length terms" "match_fact env terms f = Some env'"
proof -
  from assms(1) obtain q facts where q: "p = PStr q" "dict_get view q = Some facts"
    and len: "\<forall>f \<in> set facts. length f = length terms"
    and c: "concatE (\<lambda>env. bindE (pred_candidates_for_env facts terms env) (\<lambda>candidates.
        Ok (List.map_filter (match_fact env terms) candidates))) envs = Inr envs'"
    by (auto simp: eval_pred_atom_def list_all_iff split: if_split_asm option.splits pyval.splits)
  from c assms(2) obtain env cs where "env \<in> set envs" "pred_candidates_for_env facts terms env = Inr cs"
    "env' \<in> set (List.map_filter (match_fact env terms) cs)"
    by (auto simp: concatE_member [OF c] err_simps)
  moreover from this(3) obtain f where "f \<in> set cs" "match_fact env terms f = Some env'"
    by (auto simp: List.map_filter_def)
  ultimately show ?thesis using q len candidates_are_facts [of facts terms env cs] by (intro that [of q facts env f]) auto
qed

section \<open>Readiness\<close>

definition known :: "env \<Rightarrow> where_term \<Rightarrow> bool" where
  "known env t \<longleftrightarrow> term_value env t \<noteq> Unbound"

fun ready :: "env \<Rightarrow> where_atom \<Rightarrow> bool" where
  "ready env (PredAtom p ts) = True"
| "ready env (CmpAtom op l r) = (if op = u ''eq'' then known env l \<or> known env r else known env l \<and> known env r)"
| "ready env (InAtom x cs) = (x \<in> bound_vars env)"
| "ready env (BuiltinAtom op ts) = (\<forall>t \<in> set (tl ts). known env t)"
| "ready env _ = False"

text \<open>The atoms a positive body is made of.\<close>

definition positive :: "where_atom \<Rightarrow> bool" where
  "positive a \<longleftrightarrow> simple_atom a \<and> (\<forall>op ts. a = BuiltinAtom op ts \<longrightarrow> validate_builtin_shape op ts = Inr ())"

lemma known_iff: "simple_term t \<Longrightarrow> known env t \<longleftrightarrow> vars_in_term t \<subseteq> bound_vars env"
  by (cases t) (auto simp: known_def bound_vars_def split: option.splits)

lemma known_value: "known env t \<Longrightarrow> \<exists>v. term_value env t = Known v"
  unfolding known_def by (cases "term_value env t") auto

lemma positive_cases:
  assumes "positive a"
  obtains (Pred) p ts where "a = PredAtom p ts" "list_all simple_term ts"
  | (Cmp) op l r where "a = CmpAtom op l r" "op \<in> set CMP_OPS" "simple_term l" "simple_term r"
  | (In) x cs where "a = InAtom x cs" "is_var_name x"
  | (Builtin) op ts where "a = BuiltinAtom op ts" "op \<in> set BUILTIN_TAGS" "list_all simple_term ts"
      "validate_builtin_shape op ts = Inr ()"
  using assms unfolding positive_def by (cases a) auto

lemma term_requires_simple [simp]: "simple_term t \<Longrightarrow> term_requires B t = Inr (vars_in_term t)"
  by (cases t) auto

lemma step_effect_ready:
  assumes "positive a" "step_effect B a = Inr eff" "requires eff \<subseteq> B" "B \<subseteq> bound_vars env"
  shows "ready env a"
  using assms(1)
proof (cases rule: positive_cases)
  case (Cmp op l r)
  with assms(2-4) show ?thesis
    by (auto simp: known_iff filter_effect_def no_effect_def CMP_FILTER_OPS_def CMP_OPS_def Let_def
        split: if_split_asm option.splits)
next
  case (Builtin op ts)
  have sub: "vars_in_term t \<subseteq> B \<Longrightarrow> simple_term t \<Longrightarrow> known env t" for t
    using assms(4) by (auto simp: known_iff)
  from Builtin(4) show ?thesis
    by (cases rule: builtin_cases) (use Builtin assms(2,3) sub in \<open>auto simp: filter_effect_def\<close>)
qed (use assms(2-4) in \<open>auto simp: filter_effect_def\<close>)

lemma arith_operand_known: "known env t \<Longrightarrow> arith_operand True (term_value env t) = arith_operand False (term_value env t)"
  by (auto simp: arith_operand_def dest!: known_value)

lemma gate_irrelevant:
  assumes "positive a" "\<forall>env \<in> set envs. ready env a"
  shows "eval_atom True view envs (lower_atom a) = eval_atom False view envs (lower_atom a)"
  using assms(1)
proof (cases rule: positive_cases)
  case (Pred p ts)
  then show ?thesis by (simp only: eval_pred)
next
  case (Cmp op l r)
  have "cmp_step True op env l r = cmp_step False op env l r" if "env \<in> set envs" for env
    using assms(2) that Cmp(1)
    by (auto simp: cmp_step_def join_eq_def filter_ne_def filter_cmp_def split: resolved.splits if_split_asm dest!: known_value bspec)
  then show ?thesis unfolding Cmp(1) using Cmp(2-4) by (subst (1 2) eval_cmp) (auto intro: concatE_cong)
next
  case (In x cs)
  have "\<exists>v. resolve env (PStr x) = Known v" if "env \<in> set envs" for env
    using assms(2) that In by (auto simp: bound_vars_def resolve_def is_var_def var_of_def)
  then show ?thesis
    unfolding In(1) eval_in [OF In(2)] eval_in_atom_def
    by (fastforce split: resolved.splits intro!: concatE_cong)
next
  case (Builtin op ts)
  have "arith_step True op env ts = arith_step False op env ts" if "env \<in> set envs" for env
    using Builtin(4)
    by (cases rule: builtin_cases)
      (use assms(2) that Builtin(1) in \<open>auto simp: arith_step_def arith_operand_known cong: option.case_cong\<close>)
  then show ?thesis
    unfolding Builtin(1) using Builtin(2-4) by (subst (1 2) eval_arith) (auto intro: concatE_cong)
qed

section \<open>Validated variables are bound\<close>

lemma var_terms_lower: "list_all simple_term ts \<Longrightarrow> set (var_terms (map lower_term ts)) = vars_in_terms ts"
proof (induction ts)
  case (Cons t ts)
  then show ?case by (cases t) (auto simp: var_terms_def vars_in_terms_def var_of_def is_var_def)
qed (simp add: var_terms_def vars_in_terms_def)

lemma filter_member:
  "unbound_variable gate = Inr es \<Longrightarrow> env' \<in> set es \<Longrightarrow> False"
  by (auto simp: unbound_variable_def split: if_split_asm)

lemma join_eq_member:
  assumes "join_eq gate env l r lv rv = Inr es" "env' \<in> set es"
  shows "(\<exists>x y. lv = Known x \<and> rv = Known y \<and> py_eq x y \<and> env' = env) \<or>
    (\<exists>x. lv = Known x \<and> rv = Unbound \<and> env' = dict_set (var_of r) x env) \<or>
    (\<exists>y. lv = Unbound \<and> rv = Known y \<and> env' = dict_set (var_of l) y env)"
  using assms by (cases lv; cases rv) (auto simp: join_eq_def dest: filter_member split: if_split_asm)

lemma filter_ne_member:
  assumes "filter_ne gate env lv rv = Inr es" "env' \<in> set es"
  shows "env' = env \<and> (\<exists>x y. lv = Known x \<and> rv = Known y \<and> \<not> py_eq x y)"
  using assms by (cases lv; cases rv) (auto simp: filter_ne_def dest: filter_member split: if_split_asm)

lemma filter_cmp_member:
  assumes "filter_cmp gate op env lv rv = Inr es" "env' \<in> set es"
  shows "env' = env \<and> (\<exists>x y a b. lv = Known x \<and> rv = Known y \<and> coerce_cmp_int x = Inr a \<and>
    coerce_cmp_int y = Inr b \<and> cmp_holds op a b = Inr True)"
  using assms by (cases lv; cases rv) (auto simp: filter_cmp_def err_simps dest: filter_member split: if_split_asm)

lemma eval_in_member:
  assumes "eval_in_atom gate envs var cs = Inr es" "env' \<in> set es"
  shows "env' \<in> set envs \<and> (\<exists>v. resolve env' var = Known v \<and> list_ex (\<lambda>w. py_eq w v) cs)"
proof -
  from assms obtain env zs where e: "env \<in> set envs" "env' \<in> set zs" and z: "(case resolve env var of
      Known v \<Rightarrow> if \<not> hashable v then Err TypeError else Ok (if list_ex (\<lambda>w. py_eq w v) cs then [env] else [])
    | _ \<Rightarrow> unbound_variable gate) = Inr zs"
    by (auto simp: eval_in_atom_def concatE_member split: if_split_asm)
  then show ?thesis
    by (cases "resolve env var") (auto dest: filter_member split: if_split_asm)
qed

lemma bind_or_check_member:
  assumes "bind_or_check_result env z i = Inr es" "env' \<in> set es"
  shows "(env' = env \<and> (\<exists>v. dict_get env (var_of z) = Some v \<and> coerce_arith_int v = Inr i)) \<or>
    (dict_get env (var_of z) = None \<and> env' = dict_set (var_of z) (PInt i) env)"
  using assms by (auto simp: bind_or_check_result_def err_simps split: option.splits if_split_asm)

text \<open>The integer an arithmetic atom computes.\<close>

definition operand_value :: "env \<Rightarrow> where_term \<Rightarrow> int res" where
  "operand_value env t = (case term_value env t of Known v \<Rightarrow> coerce_arith_int v | _ \<Rightarrow> Err WhereValidationError)"

definition builtin_value :: "env \<Rightarrow> ustr \<Rightarrow> where_term list \<Rightarrow> int res" where
  "builtin_value env op ts = (case ts of
      [z, x] \<Rightarrow> bindE (operand_value env x) (\<lambda>a. Ok (- a))
    | [z, x, y] \<Rightarrow> bindE (operand_value env x) (\<lambda>a. bindE (operand_value env y) (\<lambda>b. Ok (arith_result op a b)))
    | _ \<Rightarrow> Err ValueError)"

lemma arith_operand_Some:
  "arith_operand gate (term_value env t) = Inr (Some i) \<longleftrightarrow> operand_value env t = Inr i"
  by (cases "term_value env t") (auto simp: arith_operand_def operand_value_def err_simps)

lemma arith_step_member:
  assumes "arith_step gate op env ts = Inr es" "env' \<in> set es" "validate_builtin_shape op ts = Inr ()" "list_all simple_term ts"
  shows "\<exists>z i. hd ts = Var z \<and> builtin_value env op ts = Inr i \<and> bind_or_check_result env (PStr z) i = Inr es"
  using assms(3)
proof (cases rule: builtin_cases)
  case (Two z x y)
  with assms(1,2) show ?thesis
    by (auto simp: arith_step_def builtin_value_def err_simps arith_operand_Some split: option.splits)
next
  case (One z x)
  with assms(1,2) show ?thesis
    by (auto simp: arith_step_def builtin_value_def err_simps arith_operand_Some split: option.splits)
next
  case (Scale z x c)
  have "operand_value env (Const c) = coerce_arith_int c"
    using Scale assms(4) by (simp add: operand_value_def)
  with Scale assms(1,2) show ?thesis
    by (auto simp: arith_step_def builtin_value_def err_simps arith_operand_Some split: option.splits)
qed

lemma eval_binds:
  assumes "positive a" "eval_atom gate view envs (lower_atom a) = Inr envs'" "env' \<in> set envs'"
    and "step_effect B a = Inr eff" "requires eff \<subseteq> B" "\<forall>env \<in> set envs. B \<subseteq> bound_vars env"
  shows "B \<union> binds eff \<subseteq> bound_vars env'"
  using assms(1)
proof (cases rule: positive_cases)
  case (Pred p ts)
  from assms(2) have "eval_pred_atom view envs p (map lower_term ts) = Inr envs'" by (simp only: Pred(1) eval_pred)
  then obtain env f where "env \<in> set envs" "match_fact env (map lower_term ts) f = Some env'" "length f = length ts"
    using assms(3) by (rule eval_pred_member) simp
  then have "bound_vars env' = bound_vars env \<union> vars_in_terms ts" "env \<in> set envs"
    using match_fact_bound [of env "map lower_term ts" f env'] Pred(2) by (simp_all add: var_terms_lower)
  then show ?thesis using assms(4,6) Pred(1) by auto
next
  case (Cmp op l r)
  from assms(2) have "concatE (\<lambda>env. cmp_step gate op env l r) envs = Inr envs'"
    unfolding Cmp(1) using Cmp(2-4) by (subst (asm) eval_cmp) auto
  with assms(3) obtain env es where e: "env \<in> set envs" "cmp_step gate op env l r = Inr es" "env' \<in> set es"
    by (auto simp: concatE_member)
  have B: "B \<subseteq> bound_vars env" using e(1) assms(6) by blast
  show ?thesis
  proof (cases "op = u ''eq''")
    case True
    have u: "term_value env t = Unbound \<Longrightarrow> simple_term t \<Longrightarrow> \<exists>x. t = Var x" for t
      by (cases t) auto
    have k: "term_value env (Var x) = Known v \<Longrightarrow> is_var_name x \<Longrightarrow> x \<in> bound_vars env" for x v
      by (auto simp: bound_vars_def split: option.splits)
    from e(2,3) True have j: "join_eq gate env (lower_term l) (lower_term r) (term_value env l) (term_value env r) = Inr es"
      by (simp add: cmp_step_def)
    have "binds eff \<subseteq> bound_vars env'" "bound_vars env \<subseteq> bound_vars env'"
      using join_eq_member [OF j e(3)] assms(4) Cmp(1,3,4) True B u [of l] u [of r] k
      by (auto simp: CMP_FILTER_OPS_def Let_def filter_effect_def unbound_var_def var_of_def
          split: if_split_asm option.splits where_term.splits)
    with B show ?thesis by blast
  next
    case False
    with e(2,3) have "env' = env"
      by (auto simp: cmp_step_def split: if_split_asm dest: filter_ne_member filter_cmp_member)
    with B False assms(4) Cmp show ?thesis
      by (auto simp: CMP_OPS_def CMP_FILTER_OPS_def filter_effect_def)
  qed
next
  case (In x cs)
  from assms(2,3) have "env' \<in> set envs"
    unfolding In(1) eval_in [OF In(2)] by (auto dest: eval_in_member)
  with assms(4,6) In(1) show ?thesis by (auto simp: filter_effect_def)
next
  case (Builtin op ts)
  from assms(2) have "concatE (\<lambda>env. arith_step gate op env ts) envs = Inr envs'"
    unfolding Builtin(1) using Builtin(2-4) by (subst (asm) eval_arith) auto
  with assms(3) obtain env es where e: "env \<in> set envs" "arith_step gate op env ts = Inr es" "env' \<in> set es"
    by (auto simp: concatE_member)
  from arith_step_member [OF e(2,3) Builtin(4,3)] obtain z i where z: "hd ts = Var z"
    "bind_or_check_result env (PStr z) i = Inr es" by blast
  have "bound_vars env \<subseteq> bound_vars env'" "z \<in> bound_vars env'"
    using bind_or_check_member [OF z(2) e(3)] by (auto simp: var_of_def) (auto simp: bound_vars_def)
  moreover have "binds eff \<subseteq> {z}"
    using Builtin(4)
    by (cases rule: builtin_cases) (use assms(4) Builtin(1,3) z(1) in \<open>auto simp: filter_effect_def\<close>)
  ultimately show ?thesis using e(1) assms(6) by blast
qed

end
