(* ===== verification/Where_Flow.thy ===== *)
theory Where_Flow
  imports Where_Semantics
begin

text \<open>
  Validation makes evaluation safe: along a validated clause every atom finds the variables it
  needs, so the silent dropping of bindings that the gate switches on never happens.
\<close>

section \<open>Lowered bodies\<close>

lemma is_atom_lower [simp]: "is_atom (lower_atom a)"
  by (cases a) (auto simp: is_atom_def)

lemma not_PList_lower [simp]: "\<not> is_PList (lower_atom a)"
  by (cases a) (auto simp: is_PList_def)

lemma mapE_PList:
  assumes "mapE (\<lambda>item. case item of PList b \<Rightarrow> f b | _ \<Rightarrow> Inl e) (map PList bs) = Inr rs"
    and "\<And>b r. f b = Inr r \<Longrightarrow> r = b"
  shows "rs = bs"
  using assms(1) by (induction bs arbitrary: rs) (auto simp: err_simps dest: assms(2))

lemma lower_expr_branches:
  "lower_expr e = (case e of AndExpr atoms \<Rightarrow> map lower_atom atoms
     | OrExpr bs \<Rightarrow> map PList (map (map lower_atom) bs))"
  by (cases e) auto

lemma normalize_not_lower:
  assumes "normalize_not_body (PList (lower_expr e)) = Inr branches"
  shows "branches = map (map lower_atom) (branches_of e)"
proof (cases e)
  case (AndExpr atoms)
  with assms show ?thesis
    by (simp add: normalize_not_body.simps [of "PList (map lower_atom atoms)"] branches_of_def bindE_Inr_iff list_all_iff
        split: if_split_asm)
next
  case (OrExpr bs)
  have "\<not> list_all is_atom (map PList (map (map lower_atom) bs))" if "bs \<noteq> []"
    using that by (cases bs) (auto simp: is_atom_def)
  with assms OrExpr have "mapE (\<lambda>item. case item of
      PList branch \<Rightarrow>
        if branch = [] then Err WhereValidationError
        else if \<not> list_all is_atom branch then Err WhereValidationError
        else bindE (forE (\<lambda>a. if atom_kind_of a \<notin> set NOT_KINDS then Err WhereValidationError
                               else validate_atom a) branch) (\<lambda>_. Ok branch)
    | _ \<Rightarrow> Err WhereValidationError) (map PList (map (map lower_atom) bs)) = Inr branches"
    by (simp add: normalize_not_body.simps [of "PList (map (\<lambda>atoms. PList (map lower_atom atoms)) bs)"] comp_def
        split: if_split_asm)
  then have "branches = map (map lower_atom) bs"
    by (rule mapE_PList) (auto simp: err_simps split: if_split_asm)
  with OrExpr show ?thesis by (simp add: branches_of_def)
qed

lemma normalize_where_lower:
  assumes "normalize_where (PList (lower_expr e)) = Inr bodies"
  shows "bodies = map (map lower_atom) (branches_of e)"
proof (cases e)
  case (AndExpr atoms)
  with assms show ?thesis
    by (simp add: normalize_where_def branches_of_def bindE_Inr_iff list_all_iff split: if_split_asm)
next
  case (OrExpr bs)
  have "\<not> list_all is_atom (map PList (map (map lower_atom) bs))" if "bs \<noteq> []"
    using that by (cases bs) (auto simp: is_atom_def)
  with assms OrExpr have "mapE (\<lambda>item. case item of
      PList branch \<Rightarrow>
        if branch = [] then Err WhereValidationError
        else if \<not> list_all is_atom branch then Err WhereValidationError
        else bindE (forE validate_atom branch) (\<lambda>_. Ok branch)
    | _ \<Rightarrow> Err WhereValidationError) (map PList (map (map lower_atom) bs)) = Inr bodies"
    by (simp add: normalize_where_def comp_def split: if_split_asm)
  then have "bodies = map (map lower_atom) bs"
    by (rule mapE_PList) (auto simp: err_simps split: if_split_asm)
  with OrExpr show ?thesis by (simp add: branches_of_def)
qed

section \<open>Variables of lowered bodies\<close>

lemma visible_constant:
  assumes "\<not> is_var v" "\<not> is_aggregate_term v"
  shows "visible_vars_in_term B v = Inr {}"
proof (cases v)
  case (PTuple vs)
  show ?thesis
  proof (cases vs)
    case (Cons h t)
    show ?thesis
      using assms
      by (cases h; cases t; cases "tl t"; cases "tl (tl t)")
        (simp_all add: PTuple Cons is_aggregate_term_def visible_vars_in_term.simps)
  qed (use assms in \<open>simp add: PTuple visible_vars_in_term.simps\<close>)
qed (use assms in \<open>simp_all add: visible_vars_in_term.simps\<close>)

lemma visible_lower: "simple_term t \<Longrightarrow> visible_vars_in_term B (lower_term t) = Inr (vars_in_term t)"
  by (cases t) (auto simp: visible_constant, simp add: visible_vars_in_term.simps is_var_def var_of_def)

lemma mapE_visible: "list_all simple_term ts \<Longrightarrow> mapE (visible_vars_in_term B) (map lower_term ts) = Inr (map vars_in_term ts)"
  by (induction ts) (simp_all add: visible_lower)

lemma scan_lower:
  "\<forall>a \<in> set atoms. positive a \<Longrightarrow>
    scan_vars found B (map lower_atom atoms) = Inr (found \<union> (\<Union>a \<in> set atoms. vars_in_atom a))"
proof (induction atoms arbitrary: found B)
  case (Cons a atoms)
  then have IH: "scan_vars f b (map lower_atom atoms) = Inr (f \<union> (\<Union>a \<in> set atoms. vars_in_atom a))" for f b by simp
  from Cons.prems have "positive a" by simp
  then show ?case
  proof (cases rule: positive_cases)
    case (Pred p ts)
    then show ?thesis
      by (simp add: scan_vars.simps IH py_iter_def var_terms_lower vars_in_terms_def Un_assoc)
  next
    case (Cmp op l r)
    then show ?thesis
      by (auto simp: scan_vars.simps IH visible_lower CMP_OPS_def ORDER_KINDS_def)
  next
    case (In x cs)
    then show ?thesis by (simp add: scan_vars.simps IH is_var_def var_of_def)
  next
    case (Builtin op ts)
    then show ?thesis
      by (auto simp: scan_vars.simps IH mapE_visible BUILTIN_TAGS_def ORDER_KINDS_def ARITH_KINDS_def)
  qed
qed simp

lemma vars_in_not_bodies_lower:
  "\<forall>b \<in> set bs. \<forall>a \<in> set b. positive a \<Longrightarrow>
    vars_in_not_bodies (map (map lower_atom) bs) = Inr (\<Union>b \<in> set bs. \<Union>a \<in> set b. vars_in_atom a)"
proof -
  assume "\<forall>b \<in> set bs. \<forall>a \<in> set b. positive a"
  then have "mapE vars_in_atoms (map (map lower_atom) bs) = Inr (map (\<lambda>b. \<Union>a \<in> set b. vars_in_atom a) bs)"
    by (induction bs) (simp_all add: vars_in_atoms_def scan_lower)
  then show ?thesis by (simp add: vars_in_not_bodies_def)
qed

section \<open>Bodies without identity variables\<close>

definition identity_free_atom :: "where_atom \<Rightarrow> bool" where
  "identity_free_atom a \<longleftrightarrow> (\<forall>x \<in> vars_in_atom a. \<not> starts_with x (u ''$__identity_''))"

definition clause_atom :: "where_atom \<Rightarrow> bool" where
  "clause_atom a \<longleftrightarrow> positive a \<or> (\<exists>e. a = NotAtom e \<and> (\<forall>b \<in> set (branches_of e). \<forall>x \<in> set b. positive x))"

lemma identity_name: "starts_with s (u ''$__identity_'') \<Longrightarrow> is_var_name s"
proof -
  assume "starts_with s (u ''$__identity_'')"
  then obtain r where "s = u ''$__identity_'' @ r" by (auto simp: starts_with_iff)
  then show ?thesis by (simp add: is_var_name_def starts_with_def u_def)
qed

lemma signal_kind:
  "(case PTuple (PStr op # args) of
      PTuple [PStr k, _, PList terms] \<Rightarrow> k = u ''pred'' \<and> P terms | _ \<Rightarrow> False) \<Longrightarrow> op = u ''pred''"
  by (cases args; cases "tl args"; cases "tl (tl args)") (auto split: pyval.split_asm)

lemma no_signal:
  assumes "\<forall>a \<in> set atoms. clause_atom a \<and> identity_free_atom a"
  shows "\<not> body_has_system_identity_signal (map lower_atom atoms)"
proof -
  have t: "\<not> is_system_identity_var (lower_term t)"
    if "simple_term t" "\<forall>x \<in> vars_in_term t. \<not> starts_with x (u ''$__identity_'')" for t
    using that by (cases t) (auto simp: is_system_identity_var_def is_var_def identity_name split: pyval.splits)
  have "\<not> (case lower_atom a of
      PTuple [PStr k, _, PList terms] \<Rightarrow> k = u ''pred'' \<and> list_ex is_system_identity_var terms | _ \<Rightarrow> False)"
    if "a \<in> set atoms" for a
  proof -
    have c: "clause_atom a" "identity_free_atom a" using assms that by auto
    show ?thesis
    proof (cases "positive a")
      case True
      then show ?thesis
      proof (cases rule: positive_cases)
        case (Pred p ts)
        then show ?thesis using c(2) t by (fastforce simp: identity_free_atom_def list_ex_iff list_all_iff)
      next
        case (Cmp op l r)
        then show ?thesis by (auto simp: CMP_OPS_def split: pyval.split)
      next
        case (Builtin op ts)
        then have "op \<noteq> u ''pred''" by (auto simp: BUILTIN_TAGS_def)
        then show ?thesis using signal_kind [where op = op and args = "map lower_term ts"] unfolding Builtin(1) lower_atom.simps by blast
      qed simp
    next
      case False
      with c(1) obtain e where "a = NotAtom e" by (auto simp: clause_atom_def)
      then show ?thesis by simp
    qed
  qed
  then show ?thesis by (auto simp: body_has_system_identity_signal_def list_ex_iff)
qed

lemma plan_lower:
  "\<forall>a \<in> set atoms. clause_atom a \<and> identity_free_atom a \<Longrightarrow>
    plan_body_atoms gate B (map lower_atom atoms) = Inr (map lower_atom atoms)"
  by (simp add: plan_body_atoms_def no_signal)

section \<open>The gate\<close>

lemma flow_atom:
  assumes "validate_and_dataflow st (a # atoms) = Inr st'" "\<And>e. a \<noteq> NotAtom e"
  obtains eff where "step_effect (flow_bound st) a = Inr eff" "requires eff \<subseteq> flow_bound st"
    "validate_and_dataflow (record_step st eff) atoms = Inr st'"
  using assms by (cases a) (auto simp: err_simps split: if_split_asm)

lemma record_step_bound [simp]: "flow_bound (record_step st eff) = flow_bound st \<union> binds eff"
  by (simp add: record_step_def)

lemma positive_not_Not: "positive a \<Longrightarrow> a \<noteq> NotAtom e"
  by (auto simp: positive_def)

text \<open>One step along a validated body.\<close>

lemma positive_step:
  assumes "positive a" "validate_and_dataflow st (a # atoms) = Inr st'" "\<forall>env \<in> set envs. flow_bound st \<subseteq> bound_vars env"
  shows "\<exists>st1. validate_and_dataflow st1 atoms = Inr st' \<and> (\<forall>env \<in> set envs. ready env a) \<and>
    eval_atom True view envs (lower_atom a) = eval_atom False view envs (lower_atom a) \<and>
    (\<forall>gate envs' env. eval_atom gate view envs (lower_atom a) = Inr envs' \<longrightarrow> env \<in> set envs' \<longrightarrow>
      flow_bound st1 \<subseteq> bound_vars env)"
proof -
  from assms(2) obtain eff where eff: "step_effect (flow_bound st) a = Inr eff" "requires eff \<subseteq> flow_bound st"
    "validate_and_dataflow (record_step st eff) atoms = Inr st'"
    by (rule flow_atom) (use assms(1) positive_not_Not in auto)
  have r: "\<forall>env \<in> set envs. ready env a"
    using step_effect_ready [OF assms(1) eff(1,2)] assms(3) by blast
  have "flow_bound (record_step st eff) \<subseteq> bound_vars env"
    if "eval_atom gate view envs (lower_atom a) = Inr envs'" "env \<in> set envs'" for gate envs' env
    using eval_binds [OF assms(1) that eff(1,2) assms(3)] by simp
  then show ?thesis using eff(3) r gate_irrelevant [OF assms(1) r] by blast
qed

lemma positive_flow:
  assumes "\<forall>a \<in> set atoms. positive a" "validate_and_dataflow st atoms = Inr st'"
    and "\<forall>env \<in> set envs. flow_bound st \<subseteq> bound_vars env"
  shows "eval_atoms True view envs (map lower_atom atoms) = eval_atoms False view envs (map lower_atom atoms)"
  using assms
proof (induction atoms arbitrary: st envs)
  case (Cons a atoms)
  from Cons.prems(1) have a: "positive a" by simp
  from positive_step [OF a Cons.prems(2,3), of view] obtain st1 where st1: "validate_and_dataflow st1 atoms = Inr st'"
    "eval_atom True view envs (lower_atom a) = eval_atom False view envs (lower_atom a)"
    "\<forall>gate envs' env. eval_atom gate view envs (lower_atom a) = Inr envs' \<longrightarrow> env \<in> set envs' \<longrightarrow> flow_bound st1 \<subseteq> bound_vars env"
    by auto
  have "eval_atoms True view envs' (map lower_atom atoms) = eval_atoms False view envs' (map lower_atom atoms)"
    if "eval_atom False view envs (lower_atom a) = Inr envs'" for envs'
    using Cons.prems(1) st1(3) that by (intro Cons.IH [OF _ st1(1)]) auto
  then show ?case
    unfolding list.map eval_atoms.simps(2) st1(2) by (intro bindE_cong) simp_all
qed simp

text \<open>The variables of a body that validation counts as free occur in it and were bound outside.\<close>

lemma references_vars:
  "positive a \<Longrightarrow> step_effect B a = Inr eff \<Longrightarrow> references eff \<subseteq> vars_in_atom a"
proof (elim positive_cases)
  fix op ts assume "a = BuiltinAtom op ts" "validate_builtin_shape op ts = Inr ()" "list_all simple_term ts"
    "step_effect B a = Inr eff"
  then show "references eff \<subseteq> vars_in_atom a" by (elim builtin_cases) (auto simp: filter_effect_def)
qed (auto simp: filter_effect_def no_effect_def vars_in_terms_def Let_def split: if_split_asm option.splits)

lemma free_used_vars:
  assumes "\<forall>a \<in> set atoms. positive a" "validate_and_dataflow st atoms = Inr st'"
  shows "free_used st' \<subseteq> free_used st \<union> (\<Union>a \<in> set atoms. vars_in_atom a) \<inter> bound_outside st \<and>
    bound_outside st' = bound_outside st"
  using assms
proof (induction atoms arbitrary: st)
  case (Cons a atoms)
  from Cons.prems(1) have a: "positive a" by simp
  from Cons.prems(2) obtain eff where eff: "step_effect (flow_bound st) a = Inr eff"
    "validate_and_dataflow (record_step st eff) atoms = Inr st'"
    by (rule flow_atom) (use a positive_not_Not in auto)
  show ?case
    using Cons.IH [OF _ eff(2)] Cons.prems(1) references_vars [OF a eff(1)] by (auto simp: record_step_def)
qed simp

lemma branches_flow:
  assumes "validate_expr_dataflow B e = Inr summary" "\<forall>b \<in> set (branches_of e). \<forall>a \<in> set b. positive a"
  shows "(\<forall>b \<in> set (branches_of e). \<exists>s. validate_and_dataflow (entry_state B) b = Inr s) \<and>
    free_used summary \<subseteq> (\<Union>b \<in> set (branches_of e). \<Union>a \<in> set b. vars_in_atom a) \<inter> B"
proof (cases e)
  case (AndExpr atoms)
  with assms free_used_vars [of atoms "entry_state B"] show ?thesis
    by (auto simp: branches_of_def entry_state_def)
next
  case (OrExpr bs)
  with assms(1) obtain states where st: "mapE (validate_and_dataflow (entry_state B)) bs = Inr states"
    "free_used summary = (\<Union>s \<in> set states. free_used s)"
    by (auto simp: err_simps split: if_split_asm)
  from st(1) have l: "list_all2 (\<lambda>b s. validate_and_dataflow (entry_state B) b = Inr s) bs states"
    by (simp add: mapE_Inr_iff)
  have s: "free_used s \<subseteq> (\<Union>b \<in> set bs. \<Union>a \<in> set b. vars_in_atom a) \<inter> B" if "s \<in> set states" for s
  proof -
    from that l obtain i where "i < length bs" "validate_and_dataflow (entry_state B) (bs ! i) = Inr s"
      by (auto simp: list_all2_conv_all_nth in_set_conv_nth)
    then obtain b where "b \<in> set bs" "validate_and_dataflow (entry_state B) b = Inr s" using nth_mem by blast
    then show ?thesis
      using free_used_vars [of b "entry_state B" s] assms(2) OrExpr by (auto simp: branches_of_def entry_state_def)
  qed
  have "\<exists>s. validate_and_dataflow (entry_state B) b = Inr s" if "b \<in> set bs" for b
    using that l by (auto simp: list_all2_conv_all_nth in_set_conv_nth)
  with s st(2) OrExpr show ?thesis by (auto simp: branches_of_def)
qed

lemma eval_not:
  "eval_atom gate view envs (lower_atom (NotAtom e)) =
     bindE (normalize_not_body (PList (lower_expr e))) (\<lambda>branches.
     bindE (vars_in_not_bodies branches) (\<lambda>vs.
       concatE (\<lambda>env.
         let correlated = vs \<inter> fst ` set env in
         if correlated = {} \<and> \<not> gate then Err WhereValidationError
         else bindE (or_branches_correlated branches correlated) (\<lambda>_.
           bindE (anyE (\<lambda>branch. bindE (eval_body gate view [env] branch) (\<lambda>es. Ok (es \<noteq> []))) branches)
             (\<lambda>found. Ok (if found then [] else [env])))) envs))"
  by (simp add: eval_atom.simps ORDER_KINDS_def)

lemma not_member:
  assumes "eval_atom gate view envs (lower_atom (NotAtom e)) = Inr envs'" "env' \<in> set envs'"
  shows "env' \<in> set envs"
  using assms unfolding eval_not
  by (auto simp: bindE_Inr_iff concatE_member Let_def split: if_split_asm)

lemma not_gate:
  assumes "\<forall>b \<in> set (branches_of e). \<forall>a \<in> set b. positive a \<and> identity_free_atom a"
    and "validate_expr_dataflow B e = Inr summary" "free_used summary \<noteq> {}"
    and "\<forall>env \<in> set envs. B \<subseteq> bound_vars env"
  shows "eval_atom True view envs (lower_atom (NotAtom e)) = eval_atom False view envs (lower_atom (NotAtom e))"
proof -
  have pos: "\<forall>b \<in> set (branches_of e). \<forall>a \<in> set b. positive a" using assms(1) by blast
  note flow = branches_flow [OF assms(2) pos]
  let ?vs = "\<Union>b \<in> set (branches_of e). \<Union>a \<in> set b. vars_in_atom a"
  have corr: "?vs \<inter> fst ` set env \<noteq> {}" if "env \<in> set envs" for env
    using flow assms(3,4) that unfolding bound_vars_keys [symmetric] by blast
  have body: "eval_body True view [env] (map lower_atom b) = eval_body False view [env] (map lower_atom b)"
    if env: "env \<in> set envs" and b: "b \<in> set (branches_of e)" for env b
  proof -
    have "\<forall>a \<in> set b. clause_atom a \<and> identity_free_atom a"
      using assms(1) b by (auto simp: clause_atom_def)
    moreover obtain s where "validate_and_dataflow (entry_state B) b = Inr s" using flow b by blast
    then have "eval_atoms True view [env] (map lower_atom b) = eval_atoms False view [env] (map lower_atom b)"
      using env b assms(1,4) by (intro positive_flow [where st = "entry_state B" and st' = s]) (auto simp: entry_state_def)
    ultimately show ?thesis by (simp add: eval_body.simps plan_lower)
  qed
  have any: "anyE (\<lambda>branch. bindE (eval_body True view [env] branch) (\<lambda>es. Ok (es \<noteq> []))) (map (map lower_atom) (branches_of e)) =
      anyE (\<lambda>branch. bindE (eval_body False view [env] branch) (\<lambda>es. Ok (es \<noteq> []))) (map (map lower_atom) (branches_of e))"
    if "env \<in> set envs" for env
    using body [OF that] by (intro anyE_cong) auto
  show ?thesis
    unfolding eval_not
  proof (intro bindE_cong refl)
    fix branches vs
    assume "normalize_not_body (PList (lower_expr e)) = Inr branches" "vars_in_not_bodies branches = Inr vs"
    then have b: "branches = map (map lower_atom) (branches_of e)" and vs: "vs = ?vs"
      using normalize_not_lower vars_in_not_bodies_lower [OF pos] by auto
    show "concatE (\<lambda>env.
         let correlated = vs \<inter> fst ` set env in
         if correlated = {} \<and> \<not> True then Err WhereValidationError
         else bindE (or_branches_correlated branches correlated) (\<lambda>_.
           bindE (anyE (\<lambda>branch. bindE (eval_body True view [env] branch) (\<lambda>es. Ok (es \<noteq> []))) branches)
             (\<lambda>found. Ok (if found then [] else [env])))) envs =
      concatE (\<lambda>env.
         let correlated = vs \<inter> fst ` set env in
         if correlated = {} \<and> \<not> False then Err WhereValidationError
         else bindE (or_branches_correlated branches correlated) (\<lambda>_.
           bindE (anyE (\<lambda>branch. bindE (eval_body False view [env] branch) (\<lambda>es. Ok (es \<noteq> []))) branches)
             (\<lambda>found. Ok (if found then [] else [env])))) envs"
      using corr any by (intro concatE_cong refl) (simp add: Let_def b vs)
  qed
qed

lemma clause_flow:
  assumes "\<forall>a \<in> set atoms. clause_atom a \<and> identity_free_atom a" "validate_and_dataflow st atoms = Inr st'"
    and "\<forall>env \<in> set envs. flow_bound st \<subseteq> bound_vars env"
  shows "eval_atoms True view envs (map lower_atom atoms) = eval_atoms False view envs (map lower_atom atoms)"
  using assms
proof (induction atoms arbitrary: st envs)
  case (Cons a atoms)
  show ?case
  proof (cases "positive a")
    case a: True
    from positive_step [OF a Cons.prems(2,3), of view] obtain st1 where st1: "validate_and_dataflow st1 atoms = Inr st'"
      "eval_atom True view envs (lower_atom a) = eval_atom False view envs (lower_atom a)"
      "\<forall>gate envs' env. eval_atom gate view envs (lower_atom a) = Inr envs' \<longrightarrow> env \<in> set envs' \<longrightarrow> flow_bound st1 \<subseteq> bound_vars env"
      by auto
    have "eval_atoms True view envs' (map lower_atom atoms) = eval_atoms False view envs' (map lower_atom atoms)"
      if "eval_atom False view envs (lower_atom a) = Inr envs'" for envs'
      using Cons.prems(1) st1(3) that by (intro Cons.IH [OF _ st1(1)]) auto
    then show ?thesis
      unfolding list.map eval_atoms.simps(2) st1(2) by (intro bindE_cong) simp_all
  next
    case False
    with Cons.prems(1) obtain e where e: "a = NotAtom e" "\<forall>b \<in> set (branches_of e). \<forall>x \<in> set b. positive x"
      by (auto simp: clause_atom_def)
    from Cons.prems(2) obtain summary where s: "validate_expr_dataflow (flow_bound st) e = Inr summary"
      "free_used summary \<noteq> {}" "validate_and_dataflow st atoms = Inr st'"
      by (auto simp: e err_simps split: if_split_asm)
    have "vars_in_body e = (\<Union>b \<in> set (branches_of e). \<Union>a \<in> set b. vars_in_atom a)"
      by (cases e) (auto simp: branches_of_def)
    then have "\<forall>b \<in> set (branches_of e). \<forall>x \<in> set b. positive x \<and> identity_free_atom x"
      using Cons.prems(1) e by (auto simp: identity_free_atom_def)
    then have same: "eval_atom True view envs (lower_atom a) = eval_atom False view envs (lower_atom a)"
      unfolding e(1) by (rule not_gate [OF _ s(1,2) Cons.prems(3)])
    have "eval_atoms True view envs' (map lower_atom atoms) = eval_atoms False view envs' (map lower_atom atoms)"
      if "eval_atom False view envs (lower_atom a) = Inr envs'" for envs'
      using Cons.prems(1,3) not_member [OF that [unfolded e(1)]] by (intro Cons.IH [OF _ s(3)]) auto
    then show ?thesis
      unfolding list.map eval_atoms.simps(2) same by (intro bindE_cong) simp_all
  qed
qed simp

end
