(* ===== verification/Where_Sat.thy ===== *)
theory Where_Sat
  imports Where_Flow
begin

text \<open>
  What the bindings of a positive clause mean: a binding satisfies an atom when the atom is true of
  the values it gives; evaluation returns only satisfying bindings and misses none.
\<close>

section \<open>Satisfaction\<close>

definition cmp_sat :: "ustr \<Rightarrow> pyval \<Rightarrow> pyval \<Rightarrow> bool" where
  "cmp_sat op x y \<longleftrightarrow>
     (if op = u ''eq'' then py_eq x y else if op = u ''ne'' then \<not> py_eq x y
      else (\<exists>a b. coerce_cmp_int x = Inr a \<and> coerce_cmp_int y = Inr b \<and> cmp_holds op a b = Inr True))"

fun satisfies :: "view \<Rightarrow> env \<Rightarrow> where_atom \<Rightarrow> bool" where
  "satisfies view env (PredAtom p ts) = (\<exists>q facts f. p = PStr q \<and> dict_get view q = Some facts \<and> f \<in> set facts \<and>
     map (term_value env) ts = map Known f)"
| "satisfies view env (CmpAtom op l r) = (\<exists>x y. term_value env l = Known x \<and> term_value env r = Known y \<and> cmp_sat op x y)"
| "satisfies view env (InAtom x cs) = (\<exists>v. term_value env (Var x) = Known v \<and> list_ex (\<lambda>w. py_eq w v) cs)"
| "satisfies view env (BuiltinAtom op ts) = (\<exists>i v. builtin_value env op ts = Inr i \<and>
     term_value env (hd ts) = Known v \<and> coerce_arith_int v = Inr i)"
| "satisfies view env _ = False"

definition plain_constants :: "where_atom \<Rightarrow> bool" where
  "plain_constants a \<longleftrightarrow> (case a of
      PredAtom p ts \<Rightarrow> \<forall>c. Const c \<in> set ts \<longrightarrow> plain_value c
    | CmpAtom op l r \<Rightarrow> \<forall>c. Const c \<in> {l, r} \<longrightarrow> plain_value c
    | _ \<Rightarrow> True)"

text \<open>An arithmetic atom binds its output to an integer, not to an integer's text.\<close>

definition integer_output :: "env \<Rightarrow> where_atom \<Rightarrow> bool" where
  "integer_output env a \<longleftrightarrow>
     (\<forall>op ts. a = BuiltinAtom op ts \<longrightarrow> (\<exists>i. term_value env (hd ts) = Known (PInt i)))"

lemma term_value_mono:
  "term_value env t = Known v \<Longrightarrow> map_of env \<subseteq>\<^sub>m map_of env' \<Longrightarrow> term_value env' t = Known v"
  by (force simp: term_value_def resolve_def map_le_def split: if_split_asm option.splits)

lemma term_values_mono:
  "map (term_value env) ts = map Known f \<Longrightarrow> map_of env \<subseteq>\<^sub>m map_of env' \<Longrightarrow> map (term_value env') ts = map Known f"
  by (induction ts arbitrary: f) (auto intro: term_value_mono)

lemma operand_mono: "operand_value env t = Inr i \<Longrightarrow> map_of env \<subseteq>\<^sub>m map_of env' \<Longrightarrow> operand_value env' t = Inr i"
  by (auto simp: operand_value_def dest: term_value_mono split: resolved.splits)

lemma builtin_mono: "builtin_value env op ts = Inr i \<Longrightarrow> map_of env \<subseteq>\<^sub>m map_of env' \<Longrightarrow> builtin_value env' op ts = Inr i"
  by (auto simp: builtin_value_def err_simps dest: operand_mono split: list.splits)

lemma satisfies_mono:
  assumes "satisfies view env a" "map_of env \<subseteq>\<^sub>m map_of env'"
  shows "satisfies view env' a"
proof (cases a)
  case (PredAtom p ts)
  with assms(1) obtain q facts f where "p = PStr q" "dict_get view q = Some facts" "f \<in> set facts"
    "map (term_value env) ts = map Known f" by auto
  with term_values_mono [OF this(4) assms(2)] PredAtom show ?thesis by auto
next
  case (CmpAtom op l r)
  with assms(1) obtain x y where "term_value env l = Known x" "term_value env r = Known y" "cmp_sat op x y" by auto
  with term_value_mono [OF this(1) assms(2)] term_value_mono [OF this(2) assms(2)] CmpAtom show ?thesis by auto
next
  case (InAtom x cs)
  with assms(1) obtain v where "term_value env (Var x) = Known v" "list_ex (\<lambda>w. py_eq w v) cs" by auto
  with term_value_mono [OF this(1) assms(2)] InAtom show ?thesis by auto
next
  case (BuiltinAtom op ts)
  with assms(1) obtain i v where "builtin_value env op ts = Inr i" "term_value env (hd ts) = Known v" "coerce_arith_int v = Inr i"
    by auto
  with term_value_mono [OF this(2) assms(2)] builtin_mono [OF this(1) assms(2)] BuiltinAtom show ?thesis by auto
qed (use assms in auto)

section \<open>Soundness of a step\<close>

definition grows :: "env list \<Rightarrow> env \<Rightarrow> bool" where
  "grows envs env' \<longleftrightarrow> (\<exists>env \<in> set envs. map_of env \<subseteq>\<^sub>m map_of env') \<and> plain_env env'"

lemma growsI: "env \<in> set envs \<Longrightarrow> map_of env \<subseteq>\<^sub>m map_of env' \<Longrightarrow> plain_env env' \<Longrightarrow> grows envs env'"
  by (auto simp: grows_def)

lemma plain_env_set: "plain_env env \<Longrightarrow> plain_value v \<Longrightarrow> plain_env (dict_set x v env)"
  by (auto simp: plain_env_def)

lemma map_le_set: "dict_get env x = None \<Longrightarrow> map_of env \<subseteq>\<^sub>m map_of (dict_set x v env)"
  by (auto simp: map_le_def)

lemma plain_term_value:
  "term_value env t = Known v \<Longrightarrow> plain_env env \<Longrightarrow> simple_term t \<Longrightarrow> (\<And>c. t = Const c \<Longrightarrow> plain_value c) \<Longrightarrow> plain_value v"
  by (cases t) (auto simp: plain_env_def split: option.splits)

lemma unbound_term: "term_value env t = Unbound \<Longrightarrow> simple_term t \<Longrightarrow> \<exists>x. t = Var x \<and> is_var_name x \<and> dict_get env x = None"
  by (cases t) (auto split: option.splits)

lemma pred_terms:
  assumes "list_all simple_term ts" "\<forall>c. Const c \<in> set ts \<longrightarrow> plain_value c"
  shows "\<forall>t \<in> set (map lower_term ts). is_var t \<or> plain_value t"
proof
  fix t assume "t \<in> set (map lower_term ts)"
  then obtain s where s: "s \<in> set ts" "t = lower_term s" by auto
  then have "simple_term s" "\<And>c. s = Const c \<Longrightarrow> plain_value c" using assms by (auto simp: list_all_iff)
  then show "is_var t \<or> plain_value t" using s(2) by (cases s) (auto simp: is_var_iff)
qed

lemma eval_sound:
  assumes "positive a" "plain_constants a" "plain_facts view" "\<forall>env \<in> set envs. plain_env env"
    and "eval_atom gate view envs (lower_atom a) = Inr envs'" "env' \<in> set envs'"
  shows "grows envs env' \<and> satisfies view env' a"
  using assms(1)
proof (cases rule: positive_cases)
  case (Pred p ts)
  from assms(5) have "eval_pred_atom view envs p (map lower_term ts) = Inr envs'" by (simp only: Pred(1) eval_pred)
  then obtain q facts env f where f: "p = PStr q" "dict_get view q = Some facts" "env \<in> set envs" "f \<in> set facts"
    "length f = length (map lower_term ts)" "match_fact env (map lower_term ts) f = Some env'"
    using assms(6) by (rule eval_pred_member)
  have "plain_env env' \<and> map_of env \<subseteq>\<^sub>m map_of env' \<and>
      dom (map_of env') = dom (map_of env) \<union> set (var_terms (map lower_term ts)) \<and> map (resolve env') (map lower_term ts) = map Known f"
    using f assms(2-4) Pred pred_terms [OF Pred(2)]
    by (intro match_fact_sound [OF f(6)]) (auto simp: plain_facts_def plain_constants_def)
  then show ?thesis using f Pred(1) by (auto simp: grows_def term_value_def [abs_def] comp_def)
next
  case (Cmp op l r)
  from assms(5) have "concatE (\<lambda>env. cmp_step gate op env l r) envs = Inr envs'"
    unfolding Cmp(1) using Cmp(2-4) by (subst (asm) eval_cmp) auto
  with assms(6) obtain env es where e: "env \<in> set envs" "cmp_step gate op env l r = Inr es" "env' \<in> set es"
    by (auto simp: concatE_member)
  have pe: "plain_env env" using e(1) assms(4) by blast
  have pv: "term_value env t = Known v \<Longrightarrow> t = l \<or> t = r \<Longrightarrow> plain_value v" for t v
    using plain_term_value [OF _ pe] Cmp assms(2) by (auto simp: plain_constants_def)
  show ?thesis
  proof (cases "op = u ''eq''")
    case True
    with e(2) have j: "join_eq gate env (lower_term l) (lower_term r) (term_value env l) (term_value env r) = Inr es"
      by (simp add: cmp_step_def)
    from join_eq_member [OF j e(3)] consider (both) x y where "term_value env l = Known x" "term_value env r = Known y" "py_eq x y" "env' = env"
      | (left) x where "term_value env l = Known x" "term_value env r = Unbound" "env' = dict_set (var_of (lower_term r)) x env"
      | (right) y where "term_value env l = Unbound" "term_value env r = Known y" "env' = dict_set (var_of (lower_term l)) y env"
      by blast
    then show ?thesis
    proof cases
      case both
      with e(1) pe True Cmp(1) show ?thesis by (auto simp: cmp_sat_def intro: growsI)
    next
      case left
      from unbound_term [OF left(2) Cmp(4)] obtain y where y: "r = Var y" "is_var_name y" "dict_get env y = None" by blast
      with left have env': "env' = dict_set y x env" by (simp add: var_of_def)
      then have le: "map_of env \<subseteq>\<^sub>m map_of env'" using y(3) by (simp only: map_le_set)
      have "plain_value x" using pv left(1) by blast
      then have "grows envs env'" "py_eq x x" using e(1) le pe env' by (auto intro!: growsI plain_env_set)
      moreover have "term_value env' l = Known x" by (rule term_value_mono [OF left(1) le])
      ultimately show ?thesis using y True Cmp(1) env' by (auto simp: cmp_sat_def)
    next
      case right
      from unbound_term [OF right(1) Cmp(3)] obtain x where x: "l = Var x" "is_var_name x" "dict_get env x = None" by blast
      with right have env': "env' = dict_set x y env" by (simp add: var_of_def)
      then have le: "map_of env \<subseteq>\<^sub>m map_of env'" using x(3) by (simp only: map_le_set)
      have "plain_value y" using pv right(2) by blast
      then have "grows envs env'" "py_eq y y" using e(1) le pe env' by (auto intro!: growsI plain_env_set)
      moreover have "term_value env' r = Known y" by (rule term_value_mono [OF right(2) le])
      ultimately show ?thesis using x True Cmp(1) env' by (auto simp: cmp_sat_def)
    qed
  next
    case False
    with e(2,3) have "env' = env \<and> (\<exists>x y. term_value env l = Known x \<and> term_value env r = Known y \<and> cmp_sat op x y)"
      by (auto simp: cmp_step_def cmp_sat_def split: if_split_asm dest: filter_ne_member filter_cmp_member)
    with e(1) pe Cmp(1) show ?thesis by (auto intro: growsI)
  qed
next
  case (In x cs)
  from assms(5,6) have "env' \<in> set envs \<and> (\<exists>v. resolve env' (PStr x) = Known v \<and> list_ex (\<lambda>w. py_eq w v) cs)"
    unfolding In(1) eval_in [OF In(2)] by (rule eval_in_member)
  with assms(4) In(1) show ?thesis by (auto simp: term_value_def intro: growsI [of env'])
next
  case (Builtin op ts)
  from assms(5) have "concatE (\<lambda>env. arith_step gate op env ts) envs = Inr envs'"
    unfolding Builtin(1) using Builtin(2-4) by (subst (asm) eval_arith) auto
  with assms(6) obtain env es where e: "env \<in> set envs" "arith_step gate op env ts = Inr es" "env' \<in> set es"
    by (auto simp: concatE_member)
  have pe: "plain_env env" using e(1) assms(4) by blast
  from arith_step_member [OF e(2,3) Builtin(4,3)] obtain z i where z: "hd ts = Var z"
    "builtin_value env op ts = Inr i" "bind_or_check_result env (PStr z) i = Inr es" by blast
  have v: "is_var_name z" using Builtin(3,4) z(1) by (cases ts) (auto simp: validate_builtin_shape_def split: if_split_asm)
  from bind_or_check_member [OF z(3) e(3)] show ?thesis
  proof
    assume "env' = env \<and> (\<exists>v. dict_get env (var_of (PStr z)) = Some v \<and> coerce_arith_int v = Inr i)"
    with e(1) pe z v Builtin(1) show ?thesis by (auto simp: var_of_def intro: growsI)
  next
    assume "dict_get env (var_of (PStr z)) = None \<and> env' = dict_set (var_of (PStr z)) (PInt i) env"
    then have n: "dict_get env z = None" "env' = dict_set z (PInt i) env" by (simp_all add: var_of_def)
    then have le: "map_of env \<subseteq>\<^sub>m map_of env'" by (simp only: map_le_set)
    with n e(1) pe have "grows envs env'" by (auto intro!: growsI plain_env_set)
    moreover have "builtin_value env' op ts = Inr i" by (rule builtin_mono [OF z(2) le])
    ultimately show ?thesis using z(1) v n Builtin(1) by (auto simp: coerce_arith_int_def)
  qed
qed

section \<open>Completeness of a step\<close>

lemma concatE_subset: "concatE f xs = Inr ys \<Longrightarrow> x \<in> set xs \<Longrightarrow> \<exists>zs. f x = Inr zs \<and> set zs \<subseteq> set ys"
  by (induction xs arbitrary: ys) (auto simp: err_simps, blast)

lemma plain_keyed: "plain_env env \<Longrightarrow> keyed env"
  unfolding plain_env_def keyed_def by (metis plain_value_simps(3) py_key_plain)

lemma known_mono:
  assumes "known env t" "term_value \<sigma> t = Known v" "map_of env \<subseteq>\<^sub>m map_of \<sigma>"
  shows "term_value env t = Known v"
proof -
  from assms(1) obtain w where "term_value env t = Known w" by (auto dest: known_value)
  with term_value_mono [OF this assms(3)] assms(2) show ?thesis by simp
qed

lemma operand_known: "known env t \<Longrightarrow> map_of env \<subseteq>\<^sub>m map_of \<sigma> \<Longrightarrow> operand_value env t = operand_value \<sigma> t"
proof -
  assume "known env t" "map_of env \<subseteq>\<^sub>m map_of \<sigma>"
  then obtain v where "term_value env t = Known v" by (auto dest: known_value)
  moreover from this \<open>map_of env \<subseteq>\<^sub>m map_of \<sigma>\<close> have "term_value \<sigma> t = Known v" by (rule term_value_mono)
  ultimately show ?thesis by (simp add: operand_value_def)
qed

lemma arith_step_complete:
  assumes "validate_builtin_shape op ts = Inr ()" "list_all simple_term ts" "\<forall>t \<in> set (tl ts). known env t"
    and "map_of env \<subseteq>\<^sub>m map_of \<sigma>" "builtin_value \<sigma> op ts = Inr i"
  obtains z where "hd ts = Var z" "is_var_name z" "arith_step gate op env ts = bind_or_check_result env (PStr z) i"
  using assms(1)
proof (cases rule: builtin_cases)
  case (Two z x y)
  then have "operand_value env x = operand_value \<sigma> x" "operand_value env y = operand_value \<sigma> y"
    using assms(3,4) by (auto intro: operand_known)
  with Two assms(2,5) show ?thesis
    by (intro that [of z]) (auto simp: arith_step_def builtin_value_def err_simps arith_operand_Some [THEN iffD2])
next
  case (One z x)
  then have "operand_value env x = operand_value \<sigma> x" using assms(3,4) by (auto intro: operand_known)
  with One assms(2,5) show ?thesis
    by (intro that [of z]) (auto simp: arith_step_def builtin_value_def err_simps arith_operand_Some [THEN iffD2])
next
  case (Scale z x c)
  then have "operand_value env x = operand_value \<sigma> x"
    using assms(3,4) by (auto intro: operand_known)
  moreover have "operand_value \<sigma> (Const c) = coerce_arith_int c"
    using Scale assms(2) by (simp add: operand_value_def)
  ultimately have "operand_value env x = operand_value \<sigma> x" "operand_value \<sigma> (Const c) = coerce_arith_int c" by auto
  with Scale assms(2,5) show ?thesis
    by (intro that [of z]) (auto simp: arith_step_def builtin_value_def err_simps arith_operand_Some [THEN iffD2])
qed

lemma eval_complete:
  assumes "positive a" "plain_constants a" "plain_facts view" "plain_env env" "env \<in> set envs" "\<forall>env \<in> set envs. plain_env env"
    and "eval_atom gate view envs (lower_atom a) = Inr envs'"
    and sigma: "plain_env \<sigma>" "map_of env \<subseteq>\<^sub>m map_of \<sigma>" "satisfies view \<sigma> a" "integer_output \<sigma> a" "ready env a"
  shows "\<exists>env' \<in> set envs'. map_of env' \<subseteq>\<^sub>m map_of \<sigma>"
  using assms(1)
proof (cases rule: positive_cases)
  case (Pred p ts)
  from sigma(3) Pred(1) obtain q facts f where f: "p = PStr q" "dict_get view q = Some facts" "f \<in> set facts"
    "map (term_value \<sigma>) ts = map Known f" by auto
  from assms(7) have e: "eval_pred_atom view envs p (map lower_term ts) = Inr envs'" by (simp only: Pred(1) eval_pred)
  then have len: "\<forall>f \<in> set facts. length f = length (map lower_term ts)"
    and c: "concatE (\<lambda>env. bindE (pred_candidates_for_env facts (map lower_term ts) env) (\<lambda>candidates.
        Ok (List.map_filter (match_fact env (map lower_term ts)) candidates))) envs = Inr envs'"
    using f(1,2) by (auto simp: eval_pred_atom_def list_all_iff split: if_split_asm)
  have pt: "\<forall>t \<in> set (map lower_term ts). is_var t \<or> plain_value t"
    using pred_terms [OF Pred(2)] assms(2) Pred(1) by (auto simp: plain_constants_def)
  have kf: "keyed_facts facts" using assms(3) f(2) by (auto simp: plain_facts_def keyed_facts_def)
  have "bindE (pred_candidates_for_env facts (map lower_term ts) env) (\<lambda>candidates.
        Ok (List.map_filter (match_fact env (map lower_term ts)) candidates)) = Inr (scan_facts facts (map lower_term ts) env)"
    using pt by (intro candidates_suffice [OF kf len plain_keyed [OF assms(4)]]) auto
  with concatE_subset [OF c assms(5)]
  have sub: "set (scan_facts facts (map lower_term ts) env) \<subseteq> set envs'" by auto
  have "map (resolve \<sigma>) (map lower_term ts) = map Known f" using f(4) by (simp add: term_value_def [abs_def] comp_def)
  then obtain env' where "match_fact env (map lower_term ts) f = Some env'" "map_of env' \<subseteq>\<^sub>m map_of \<sigma>"
    using match_fact_complete [OF sigma(2) _ sigma(1) pt] by blast
  moreover from this(1) f(3) have "env' \<in> set (scan_facts facts (map lower_term ts) env)"
    by (force simp: scan_facts_def List.map_filter_def)
  ultimately show ?thesis using sub by blast
next
  case (Cmp op l r)
  from assms(7) have c: "concatE (\<lambda>env. cmp_step gate op env l r) envs = Inr envs'"
    unfolding Cmp(1) using Cmp(2-4) by (subst (asm) eval_cmp) auto
  from concatE_subset [OF this assms(5)] obtain zs where zs: "cmp_step gate op env l r = Inr zs" "set zs \<subseteq> set envs'" by blast
  from sigma(3) Cmp(1) obtain x y where xy: "term_value \<sigma> l = Known x" "term_value \<sigma> r = Known y" "cmp_sat op x y" by auto
  have pl: "plain_value x" "plain_value y"
    using plain_term_value [OF xy(1) sigma(1) Cmp(3)] plain_term_value [OF xy(2) sigma(1) Cmp(4)] assms(2) Cmp(1)
    by (auto simp: plain_constants_def)
  have k: "known env l \<Longrightarrow> term_value env l = Known x" "known env r \<Longrightarrow> term_value env r = Known y"
    using known_mono [OF _ xy(1) sigma(2)] known_mono [OF _ xy(2) sigma(2)] by auto
  have "\<exists>env' \<in> set zs. map_of env' \<subseteq>\<^sub>m map_of \<sigma>"
  proof (cases "known env l \<and> known env r")
    case True
    then have "zs = [env]"
      using zs(1) k xy(3) by (auto simp: cmp_step_def cmp_sat_def join_eq_def filter_ne_def filter_cmp_def split: if_split_asm)
    with sigma(2) show ?thesis by simp
  next
    case False
    then have eq: "op = u ''eq''" "known env l \<noteq> known env r" using sigma(5) Cmp(1) by (auto split: if_split_asm)
    with xy(3) pl have same: "x = y" by (simp add: cmp_sat_def)
    have bind: "map_of (dict_set v x env) \<subseteq>\<^sub>m map_of \<sigma>" if "t = Var v" "term_value \<sigma> t = Known x" "is_var_name v" for t v
      using that sigma(2) by (auto simp: map_le_def split: option.splits)
    show ?thesis
    proof (cases "known env l")
      case True
      with eq have r: "term_value env r = Unbound" by (simp add: known_def)
      from unbound_term [OF this Cmp(4)] obtain v where v: "r = Var v" "is_var_name v" by blast
      have "zs = [dict_set v x env]" using zs(1) k(1) True r v eq by (simp add: cmp_step_def join_eq_def var_of_def)
      with bind [OF v(1) _ v(2)] xy(2) same show ?thesis by simp
    next
      case False
      with eq have "known env r" "term_value env l = Unbound" by (auto simp: known_def)
      moreover from unbound_term [OF this(2) Cmp(3)] obtain v where v: "l = Var v" "is_var_name v" by blast
      ultimately have "zs = [dict_set v x env]"
        using zs(1) k(2) eq same by (simp add: cmp_step_def join_eq_def var_of_def)
      with bind [OF v(1) _ v(2)] xy(1) show ?thesis by simp
    qed
  qed
  with zs(2) show ?thesis by blast
next
  case (In x cs)
  from sigma(3) In obtain v where v: "dict_get \<sigma> x = Some v" "list_ex (\<lambda>w. py_eq w v) cs"
    by (auto split: option.splits)
  have "dict_get env x = Some v"
    using sigma(2,5) In v(1) by (force simp: bound_vars_def map_le_def)
  then have r: "resolve env (PStr x) = Known v" using In(2) by (simp add: resolve_def is_var_def var_of_def)
  from assms(7) have e: "eval_in_atom gate envs (PStr x) cs = Inr envs'" by (simp only: In(1) eval_in [OF In(2)])
  then have "concatE (\<lambda>env. case resolve env (PStr x) of
          Known v \<Rightarrow> if \<not> hashable v then Err TypeError else Ok (if list_ex (\<lambda>w. py_eq w v) cs then [env] else [])
        | _ \<Rightarrow> unbound_variable gate) envs = Inr envs'" by (auto simp: eval_in_atom_def split: if_split_asm)
  from concatE_subset [OF this assms(5)] r v(2) have "env \<in> set envs'" by (auto split: if_split_asm)
  with sigma(2) show ?thesis by blast
next
  case (Builtin op ts)
  from assms(7) have "concatE (\<lambda>env. arith_step gate op env ts) envs = Inr envs'"
    unfolding Builtin(1) using Builtin(2-4) by (subst (asm) eval_arith) auto
  from concatE_subset [OF this assms(5)] obtain zs where zs: "arith_step gate op env ts = Inr zs" "set zs \<subseteq> set envs'" by blast
  from sigma(3) Builtin(1) obtain i v where i: "builtin_value \<sigma> op ts = Inr i" "term_value \<sigma> (hd ts) = Known v"
    "coerce_arith_int v = Inr i" by auto
  obtain z where z: "hd ts = Var z" "is_var_name z" "arith_step gate op env ts = bind_or_check_result env (PStr z) i"
    using sigma(5) Builtin(1) by (elim arith_step_complete [OF Builtin(4,3) _ sigma(2) i(1), where gate = gate, rotated]) auto
  have vi: "v = PInt i"
    using sigma(4) i(2,3) Builtin(1) by (auto simp: integer_output_def coerce_arith_int_def)
  have sz: "dict_get \<sigma> z = Some v" using i(2) z(1,2) by (auto split: option.splits)
  have "\<exists>env' \<in> set zs. map_of env' \<subseteq>\<^sub>m map_of \<sigma>"
  proof (cases "dict_get env z")
    case None
    then have "zs = [dict_set z (PInt i) env]" using zs(1) z(3) by (simp add: bind_or_check_result_def var_of_def)
    moreover have "map_of (dict_set z (PInt i) env) \<subseteq>\<^sub>m map_of \<sigma>" using sigma(2) sz vi by (auto simp: map_le_def)
    ultimately show ?thesis by simp
  next
    case (Some w)
    then have "w = PInt i" using sigma(2) sz vi by (force simp: map_le_def)
    then have "zs = [env]" using zs(1) z(3) Some by (simp add: bind_or_check_result_def var_of_def coerce_arith_int_def)
    with sigma(2) show ?thesis by simp
  qed
  with zs(2) show ?thesis by blast
qed

end
