(* ===== verification/Where_Clauses.thy ===== *)
theory Where_Clauses
  imports Where_Sat
begin

text \<open>
  Whole clauses: what parsing and validation give for every branch, the bindings of a branch, and
  how the bindings of all branches are collected without duplicates and sorted.
\<close>

section \<open>Parsed and validated clauses\<close>

definition identity_free :: "where_expr \<Rightarrow> bool" where
  "identity_free e \<longleftrightarrow> (\<forall>b \<in> set (branches_of e). \<forall>a \<in> set b. identity_free_atom a)"

definition positive_clause :: "where_expr \<Rightarrow> bool" where
  "positive_clause e \<longleftrightarrow> aggregate_free e \<and> identity_free e \<and>
     (\<forall>b \<in> set (branches_of e). \<forall>a \<in> set b. (\<forall>e'. a \<noteq> NotAtom e') \<and> plain_constants a)"

lemma mapE_member: "mapE f xs = Inr ys \<Longrightarrow> y \<in> set ys \<Longrightarrow> \<exists>x \<in> set xs. f x = Inr y"
  by (induction xs arbitrary: ys) (auto simp: err_simps)

lemma mapE_ex: "mapE f xs = Inr ys \<Longrightarrow> x \<in> set xs \<Longrightarrow> \<exists>y. f x = Inr y"
  by (induction xs arbitrary: ys) (auto simp: err_simps)

lemma parse_expr_atom:
  assumes "parse_expr raw = Inr e" "b \<in> set (branches_of e)" "a \<in> set b"
  shows "\<exists>r. parse_atom r = Inr a"
  using assms(1)
proof (cases rule: parse_expr_cases)
  case (And items atoms)
  with assms show ?thesis by (auto simp: branches_of_def dest: mapE_member)
next
  case (Or items branches)
  with assms(2) have "b \<in> set branches" by (simp add: branches_of_def)
  with Or(4) obtain vs where "mapE parse_atom vs = Inr b"
    by (auto simp: list_all2_conv_all_nth in_set_conv_nth)
  with assms(3) show ?thesis by (auto dest: mapE_member)
qed

lemma aggregate_free_branches:
  "aggregate_free e \<longleftrightarrow> (\<forall>b \<in> set (branches_of e). \<forall>a \<in> set b. aggregate_free_atom a)"
  by (cases e) (auto simp: branches_of_def list_all_iff)

lemma shape_branches:
  "validate_expr_shape caps n e = Inr () \<Longrightarrow> b \<in> set (branches_of e) \<Longrightarrow> a \<in> set b \<Longrightarrow> validate_atom_shape caps n a = Inr ()"
  by (cases e) (auto simp: branches_of_def forE_Inr_iff split: if_split_asm)

lemma positive_atom:
  assumes "parse_atom raw = Inr a" "aggregate_free_atom a" "validate_atom_shape caps n a = Inr ()"
    and "\<And>e. a \<noteq> NotAtom e" "\<And>r v ts. a \<noteq> RuleRefAtom r v ts"
  shows "positive a"
  using parse_simple_atom [OF assms(1,2,4,5)] assms(3) by (auto simp: positive_def err_simps split: if_split_asm)

lemma clause_atom_valid:
  assumes "parse_atom raw = Inr a" "aggregate_free_atom a" "validate_atom_shape caps n a = Inr ()" "\<not> allow_ruleref caps"
  shows "clause_atom a"
proof (cases a)
  case (NotAtom e)
  from assms(1) NotAtom obtain body where "parse_expr body = Inr e" by (auto elim: parse_atom_cases)
  note parsed = parse_expr_atom [OF this]
  from assms(3) NotAtom have shape: "validate_expr_shape caps True e = Inr ()" "validate_not_body_subset e = Inr ()"
    by (auto simp: err_simps split: if_split_asm)
  have "positive x" if "b \<in> set (branches_of e)" "x \<in> set b" for b x
  proof -
    from parsed [OF that] obtain r where r: "parse_atom r = Inr x" by blast
    have "aggregate_free_atom x" using assms(2) NotAtom that by (auto simp: aggregate_free_branches)
    moreover have "validate_atom_shape caps True x = Inr ()" using shape_branches [OF shape(1) that] .
    moreover have "x \<noteq> NotAtom e'" "x \<noteq> RuleRefAtom i v ts" for e' i v ts
      using shape(2) that by (force simp: validate_not_body_subset_def forE_Inr_iff)+
    ultimately show ?thesis by (intro positive_atom [OF r])
  qed
  with NotAtom show ?thesis by (auto simp: clause_atom_def)
next
  case (RuleRefAtom r v ts)
  with assms(3,4) show ?thesis by (auto split: if_split_asm)
qed (use positive_atom [OF assms(1-3)] in \<open>auto simp: clause_atom_def\<close>)

lemma gate_valid:
  assumes "where_gate [CapAllowRuleref False] w = Inr ()" "parse_where_ir_to_ast w = Inr e"
  obtains caps st where "\<not> allow_ruleref caps" "validate_expr_shape caps False e = Inr ()" "validate_expr_dataflow {} e = Inr st"
proof -
  have "validate_where_ast e (u ''python'') (Some [CapAllowRuleref False]) None None = Inr ()"
    using assms by (cases "validate_where_ast e (u ''python'') (Some [CapAllowRuleref False]) None None")
      (auto simp: where_gate_def split: if_split_asm)
  then obtain caps st where "capabilities_for_mode (u ''python'') [CapAllowRuleref False] = Inr caps"
    "validate_expr_shape caps False e = Inr ()" "validate_expr_dataflow {} e = Inr st"
    by (auto simp: validate_where_ast_def err_simps normalize_initial_bound_vars_def split: if_split_asm)
  moreover from this(1) have "\<not> allow_ruleref caps"
    by (auto simp: capabilities_for_mode_def Let_def split: if_split_asm)
  ultimately show ?thesis by (intro that)
qed

lemma valid_branches:
  assumes "where_gate [CapAllowRuleref False] w = Inr ()" "parse_where_ir_to_ast w = Inr e" "aggregate_free e"
  shows "\<forall>b \<in> set (branches_of e). (\<forall>a \<in> set b. clause_atom a) \<and> (\<exists>st. validate_and_dataflow (entry_state {}) b = Inr st)"
proof
  fix b assume b: "b \<in> set (branches_of e)"
  from gate_valid [OF assms(1,2)] obtain caps st where v: "\<not> allow_ruleref caps"
    "validate_expr_shape caps False e = Inr ()" "validate_expr_dataflow {} e = Inr st" by blast
  have "clause_atom a" if "a \<in> set b" for a
  proof -
    from assms(2) have "parse_expr w = Inr e" by (simp add: parse_where_ir_to_ast_def)
    from parse_expr_atom [OF this b that] obtain r where "parse_atom r = Inr a" by blast
    moreover have "aggregate_free_atom a" using assms(3) b that by (auto simp: aggregate_free_branches)
    ultimately show ?thesis using shape_branches [OF v(2) b that] v(1) by (rule clause_atom_valid)
  qed
  moreover have "\<exists>st. validate_and_dataflow (entry_state {}) b = Inr st"
    using v(3) b by (cases e) (auto simp: branches_of_def err_simps split: if_split_asm dest: mapE_ex)
  ultimately show "(\<forall>a \<in> set b. clause_atom a) \<and> (\<exists>st. validate_and_dataflow (entry_state {}) b = Inr st)" by blast
qed

lemma normalized_branches:
  assumes "parse_where_ir_to_ast w = Inr e" "normalize_where w = Inr bodies"
  shows "bodies = map (map lower_atom) (branches_of e)"
  using assms normalize_where_lower lower_parse(3) [of w e] by (auto simp: parse_where_ir_to_ast_def)

lemma eval_body_branch:
  assumes "\<forall>a \<in> set b. clause_atom a \<and> identity_free_atom a"
  shows "eval_body gate view envs (map lower_atom b) = eval_atoms gate view envs (map lower_atom b)"
  by (simp add: eval_body.simps plan_lower [OF assms])

lemma branch_gate:
  assumes "\<forall>a \<in> set b. clause_atom a \<and> identity_free_atom a" "validate_and_dataflow (entry_state {}) b = Inr st"
  shows "eval_body True view [[]] (map lower_atom b) = eval_body False view [[]] (map lower_atom b)"
  using clause_flow [OF assms, of "[[]]" view] by (simp add: eval_body_branch [OF assms(1)] entry_state_def)

section \<open>Bindings of a branch\<close>

lemma atoms_sound:
  assumes "\<forall>a \<in> set atoms. positive a \<and> plain_constants a" "plain_facts view" "\<forall>env \<in> set envs. plain_env env"
    and "eval_atoms gate view envs (map lower_atom atoms) = Inr envs'" "env' \<in> set envs'"
  shows "grows envs env' \<and> (\<forall>a \<in> set atoms. satisfies view env' a)"
  using assms
proof (induction atoms arbitrary: envs)
  case (Cons a atoms)
  from Cons.prems(4,5) obtain envs1 where s: "eval_atom gate view envs (lower_atom a) = Inr envs1"
    "eval_atoms gate view envs1 (map lower_atom atoms) = Inr envs'"
    by (auto simp: eval_atoms.simps err_simps split: if_split_asm)
  have step: "grows envs env1 \<and> satisfies view env1 a" if "env1 \<in> set envs1" for env1
    using Cons.prems(1-3) by (intro eval_sound [OF _ _ _ _ s(1) that]) auto
  then have "grows envs1 env' \<and> (\<forall>x \<in> set atoms. satisfies view env' x)"
    using Cons.prems(1,2,5) by (intro Cons.IH [OF _ _ _ s(2)]) (auto simp: grows_def)
  moreover from this obtain env1 where e: "env1 \<in> set envs1" "map_of env1 \<subseteq>\<^sub>m map_of env'" by (auto simp: grows_def)
  moreover from step [OF e(1)] obtain env where "env \<in> set envs" "map_of env \<subseteq>\<^sub>m map_of env1" by (auto simp: grows_def)
  ultimately show ?case
    using step [OF e(1)] satisfies_mono [OF _ e(2)] map_le_trans [of "map_of env" "map_of env1" "map_of env'"]
    by (auto simp: grows_def)
qed (auto intro: growsI)

lemma atoms_complete:
  assumes "\<forall>a \<in> set atoms. positive a \<and> plain_constants a" "plain_facts view"
    and "\<forall>env \<in> set envs. plain_env env \<and> flow_bound st \<subseteq> bound_vars env"
    and "validate_and_dataflow st atoms = Inr st'" "eval_atoms gate view envs (map lower_atom atoms) = Inr envs'"
    and "plain_env \<sigma>" "\<forall>a \<in> set atoms. satisfies view \<sigma> a \<and> integer_output \<sigma> a"
    and "env \<in> set envs" "map_of env \<subseteq>\<^sub>m map_of \<sigma>"
  shows "\<exists>env' \<in> set envs'. map_of env' \<subseteq>\<^sub>m map_of \<sigma>"
  using assms
proof (induction atoms arbitrary: envs st env)
  case (Cons a atoms)
  have a: "positive a" "plain_constants a" using Cons.prems(1) by auto
  have bound: "\<forall>env \<in> set envs. flow_bound st \<subseteq> bound_vars env" using Cons.prems(3) by blast
  from positive_step [OF a(1) Cons.prems(4) bound, of view] obtain st1 where
    st1: "validate_and_dataflow st1 atoms = Inr st'" "\<forall>env \<in> set envs. ready env a"
    "\<forall>gate envs' env. eval_atom gate view envs (lower_atom a) = Inr envs' \<longrightarrow> env \<in> set envs' \<longrightarrow> flow_bound st1 \<subseteq> bound_vars env"
    by auto
  from Cons.prems(5) obtain envs1 where s: "eval_atom gate view envs (lower_atom a) = Inr envs1"
    "envs1 = [] \<Longrightarrow> envs' = []" "envs1 \<noteq> [] \<Longrightarrow> eval_atoms gate view envs1 (map lower_atom atoms) = Inr envs'"
    by (auto simp: eval_atoms.simps err_simps split: if_split_asm)
  have "\<exists>env' \<in> set envs1. map_of env' \<subseteq>\<^sub>m map_of \<sigma>"
    using Cons.prems st1(2) by (intro eval_complete [OF a Cons.prems(2) _ _ _ s(1)]) auto
  then obtain env1 where e: "env1 \<in> set envs1" "map_of env1 \<subseteq>\<^sub>m map_of \<sigma>" by blast
  have "plain_env x" if "x \<in> set envs1" for x
    using eval_sound [OF a Cons.prems(2) _ s(1) that] Cons.prems(3) by (auto simp: grows_def)
  moreover have ne: "envs1 \<noteq> []" using e(1) by auto
  moreover have "flow_bound st1 \<subseteq> bound_vars x" if "x \<in> set envs1" for x using st1(3) s(1) that by blast
  ultimately show ?case
    using Cons.prems(1,2,6,7) e s(3) [OF ne] st1(1) by (intro Cons.IH [of envs1 st1 env1]) auto
qed auto

section \<open>Collecting the bindings\<close>

lemma map_of_filter: "map_of (filter (\<lambda>p. fst p = k) xs) k = map_of xs k"
  by (induction xs) auto

lemma map_of_sort_key: "map_of (sort_key fst xs) = map_of xs"
  by (metis (no_types, lifting) ext map_of_filter sort_key_stable)

lemma list_all2_plain_items:
  assumes "list_all2 (\<lambda>p q. fst p = fst q \<and> py_eq (snd p) (snd q)) xs ys"
    and "\<forall>v \<in> snd ` set xs. plain_value v" "\<forall>v \<in> snd ` set ys. plain_value v"
  shows "xs = ys"
  using assms by (induction rule: list_all2_induct) auto

text \<open>Every entry of a binding, also one a later entry hides.\<close>

definition plain_items :: "env \<Rightarrow> bool" where
  "plain_items env \<longleftrightarrow> (\<forall>p \<in> set env. plain_value (snd p))"

lemma binding_key_eq:
  assumes "py_eq (binding_key env) (binding_key env')" "plain_items env" "plain_items env'"
  shows "map_of env = map_of env'"
proof -
  from assms(1) have "list_all2 (\<lambda>p q. fst p = fst q \<and> py_eq (snd p) (snd q)) (sort_key fst env) (sort_key fst env')"
    by (simp add: binding_key_def list_all2_map1 list_all2_map2 case_prod_beta eq_commute)
  then have "sort_key fst env = sort_key fst env'"
    using assms(2,3) by (intro list_all2_plain_items) (auto simp: plain_items_def)
  then show ?thesis by (metis map_of_sort_key)
qed

lemma insertE_set: "insertE x ys = Inr zs \<Longrightarrow> set zs = insert x (set ys)"
  by (induction ys arbitrary: zs) (auto simp: err_simps split: if_split_asm)

lemma foldE_insertE_set: "foldE (\<lambda>ys x. insertE x ys) zs xs = Inr ys \<Longrightarrow> set ys = set zs \<union> set xs"
  by (induction xs arbitrary: zs) (auto simp: err_simps dest: insertE_set)

lemma sortE_set:
  assumes "sortE xs = Inr ys"
  shows "set ys = snd ` set xs"
proof -
  from assms obtain zs where "foldE (\<lambda>ys x. insertE x ys) [] xs = Inr zs" "ys = map snd zs"
    by (auto simp: sortE_def err_simps)
  with foldE_insertE_set [OF this(1)] show ?thesis by simp
qed

definition keyed_seen :: "(pyval \<times> env) list \<Rightarrow> bool" where
  "keyed_seen seen \<longleftrightarrow> (\<forall>(k, env) \<in> set seen. k = binding_key env)"

lemma add_binding_keyed: "add_binding seen env = Inr seen' \<Longrightarrow> keyed_seen seen \<Longrightarrow> keyed_seen seen'"
  by (auto simp: add_binding_def keyed_seen_def Let_def split: if_split_asm)

lemma add_bindings:
  assumes "foldE add_binding seen envs = Inr seen'" "keyed_seen seen"
  shows "keyed_seen seen' \<and> set seen \<subseteq> set seen' \<and> snd ` set seen' \<subseteq> snd ` set seen \<union> set envs \<and>
    (\<forall>env \<in> set envs. py_eq (binding_key env) (binding_key env) \<longrightarrow> (\<exists>x \<in> snd ` set seen'. py_eq (binding_key x) (binding_key env)))"
  using assms
proof (induction envs arbitrary: seen)
  case (Cons env envs)
  from Cons.prems(1) obtain s where s: "add_binding seen env = Inr s" "foldE add_binding s envs = Inr seen'"
    unfolding foldE.simps bindE_Inr_iff by blast
  have k: "keyed_seen s" using add_binding_keyed [OF s(1) Cons.prems(2)] .
  have one: "set seen \<subseteq> set s \<and> snd ` set s \<subseteq> insert env (snd ` set seen) \<and>
      (py_eq (binding_key env) (binding_key env) \<longrightarrow> (\<exists>x \<in> snd ` set s. py_eq (binding_key x) (binding_key env)))"
  proof (cases "list_ex (\<lambda>(k, _). py_eq k (binding_key env)) seen")
    case True
    then have "s = seen" using s(1) by (simp add: add_binding_def Let_def split: if_split_asm)
    moreover from True obtain k x where "(k, x) \<in> set seen" "py_eq k (binding_key env)" by (auto simp: list_ex_iff)
    moreover from this(1) Cons.prems(2) have "k = binding_key x" by (auto simp: keyed_seen_def)
    ultimately show ?thesis by force
  next
    case False
    then have "s = seen @ [(binding_key env, env)]" using s(1) by (simp add: add_binding_def Let_def split: if_split_asm)
    then show ?thesis by auto
  qed
  from Cons.IH [OF s(2) k] have k': "keyed_seen seen'" and sup: "set s \<subseteq> set seen'"
    and sub': "snd ` set seen' \<subseteq> snd ` set s \<union> set envs"
    and ih: "\<forall>env \<in> set envs. py_eq (binding_key env) (binding_key env) \<longrightarrow> (\<exists>x \<in> snd ` set seen'. py_eq (binding_key x) (binding_key env))"
    by simp_all
  have sub: "snd ` set s \<subseteq> snd ` set seen'" using sup by (rule image_mono)
  have "snd ` set seen' \<subseteq> snd ` set seen \<union> set (env # envs)"
  proof
    fix x assume "x \<in> snd ` set seen'"
    with sub' have "x \<in> snd ` set s \<or> x \<in> set envs" by blast
    then show "x \<in> snd ` set seen \<union> set (env # envs)" using one by auto
  qed
  moreover have "\<exists>x \<in> snd ` set seen'. py_eq (binding_key x) (binding_key e)"
    if "e \<in> set (env # envs)" "py_eq (binding_key e) (binding_key e)" for e
  proof (cases "e = env")
    case True
    with one that obtain x where "x \<in> snd ` set s" "py_eq (binding_key x) (binding_key e)" by blast
    with sub show ?thesis by blast
  next
    case False
    then have "e \<in> set envs" using that by simp
    with ih that show ?thesis by blast
  qed
  moreover have "set seen \<subseteq> set seen'" using one sup by blast
  ultimately show ?case using k' by blast
qed simp

end
