(* ===== verification/Where_Bindings.thy ===== *)
theory Where_Bindings
  imports Where_Clauses
begin

text \<open>
  The result of a clause as a set of bindings: every binding is one of a branch, none of a branch is
  missing, and no two are equal.
\<close>

section \<open>Values in a binding\<close>

definition items_all :: "(pyval \<Rightarrow> bool) \<Rightarrow> env \<Rightarrow> bool" where
  "items_all P env \<longleftrightarrow> (\<forall>p \<in> set env. P (snd p))"

definition facts_all :: "(pyval \<Rightarrow> bool) \<Rightarrow> view \<Rightarrow> bool" where
  "facts_all P view \<longleftrightarrow> (\<forall>p facts. dict_get view p = Some facts \<longrightarrow> (\<forall>f \<in> set facts. \<forall>v \<in> set f. P v))"

definition constants_all :: "(pyval \<Rightarrow> bool) \<Rightarrow> where_atom \<Rightarrow> bool" where
  "constants_all P a \<longleftrightarrow> (\<forall>op l r c. a = CmpAtom op l r \<and> Const c \<in> {l, r} \<longrightarrow> P c)"

lemma items_all_Nil [simp]: "items_all P []"
  by (simp add: items_all_def)

lemma set_dict_set: "set (dict_set k v d) \<subseteq> insert (k, v) (set d)"
  by (induction d) auto

lemma items_all_set [intro]: "items_all P env \<Longrightarrow> P v \<Longrightarrow> items_all P (dict_set k v env)"
  using set_dict_set [of k v env] by (auto simp: items_all_def)

lemma items_all_get: "items_all P env \<Longrightarrow> dict_get env x = Some v \<Longrightarrow> P v"
  by (auto simp: items_all_def dest!: map_of_SomeD)

lemma plain_items_iff: "plain_items env \<longleftrightarrow> items_all plain_value env"
  by (simp add: plain_items_def items_all_def)

lemma items_all_plain: "items_all plain_value env \<Longrightarrow> plain_env env"
  by (auto simp: plain_env_def dest: items_all_get)

lemma facts_all_plain: "plain_facts view \<longleftrightarrow> facts_all plain_value view"
  by (simp add: plain_facts_def facts_all_def)

lemma match_fact_items:
  "match_fact env ts vs = Some env' \<Longrightarrow> items_all P env \<Longrightarrow> \<forall>v \<in> set vs. P v \<Longrightarrow> items_all P env'"
  by (induction env ts vs rule: match_fact.induct) (auto split: if_split_asm option.splits)

lemma term_value_items:
  "term_value env t = Known v \<Longrightarrow> items_all P env \<Longrightarrow> simple_term t \<Longrightarrow> (\<And>c. t = Const c \<Longrightarrow> P c) \<Longrightarrow> P v"
  by (cases t) (auto split: option.splits dest: items_all_get)

lemma eval_items:
  assumes "positive a" "constants_all P a" "facts_all P view" "\<forall>env \<in> set envs. items_all P env" "\<And>i. P (PInt i) \<or> (\<forall>op ts. a \<noteq> BuiltinAtom op ts)"
    and "eval_atom gate view envs (lower_atom a) = Inr envs'" "env' \<in> set envs'"
  shows "items_all P env'"
  using assms(1)
proof (cases rule: positive_cases)
  case (Pred p ts)
  from assms(6) have "eval_pred_atom view envs p (map lower_term ts) = Inr envs'" by (simp only: Pred(1) eval_pred)
  then obtain q facts env f where f: "dict_get view q = Some facts" "env \<in> set envs" "f \<in> set facts"
    "match_fact env (map lower_term ts) f = Some env'"
    using assms(7) by (auto elim: eval_pred_member)
  then show ?thesis using assms(3,4) by (intro match_fact_items [OF f(4)]) (auto simp: facts_all_def)
next
  case (Cmp op l r)
  from assms(6) have "concatE (\<lambda>env. cmp_step gate op env l r) envs = Inr envs'"
    unfolding Cmp(1) using Cmp(2-4) by (subst (asm) eval_cmp) auto
  with assms(7) obtain env es where e: "env \<in> set envs" "cmp_step gate op env l r = Inr es" "env' \<in> set es"
    by (auto simp: concatE_member)
  have i: "items_all P env" using e(1) assms(4) by blast
  have P: "term_value env t = Known v \<Longrightarrow> t = l \<or> t = r \<Longrightarrow> P v" for t v
    using term_value_items [OF _ i] Cmp assms(2) by (auto simp: constants_all_def)
  show ?thesis
  proof (cases "op = u ''eq''")
    case True
    with e(2) have "join_eq gate env (lower_term l) (lower_term r) (term_value env l) (term_value env r) = Inr es"
      by (simp add: cmp_step_def)
    from join_eq_member [OF this e(3)] show ?thesis using i P by auto
  next
    case False
    with e(2,3) i show ?thesis
      by (auto simp: cmp_step_def split: if_split_asm dest: filter_ne_member filter_cmp_member)
  qed
next
  case (In x cs)
  from assms(6,7) have "env' \<in> set envs" unfolding In(1) eval_in [OF In(2)] by (auto dest: eval_in_member)
  with assms(4) show ?thesis by blast
next
  case (Builtin op ts)
  from assms(6) have "concatE (\<lambda>env. arith_step gate op env ts) envs = Inr envs'"
    unfolding Builtin(1) using Builtin(2-4) by (subst (asm) eval_arith) auto
  with assms(7) obtain env es where e: "env \<in> set envs" "arith_step gate op env ts = Inr es" "env' \<in> set es"
    by (auto simp: concatE_member)
  from arith_step_member [OF e(2,3) Builtin(4,3)] obtain z i where "bind_or_check_result env (PStr z) i = Inr es" by blast
  from bind_or_check_member [OF this e(3)] show ?thesis using assms(4,5) e(1) Builtin(1) by auto
qed

lemma atoms_items:
  assumes "\<forall>a \<in> set atoms. positive a \<and> constants_all P a \<and> (\<forall>i. P (PInt i) \<or> (\<forall>op ts. a \<noteq> BuiltinAtom op ts))"
    and "facts_all P view" "\<forall>env \<in> set envs. items_all P env"
    and "eval_atoms gate view envs (map lower_atom atoms) = Inr envs'" "env' \<in> set envs'"
  shows "items_all P env'"
  using assms
proof (induction atoms arbitrary: envs)
  case (Cons a atoms)
  from Cons.prems(4,5) obtain envs1 where s: "eval_atom gate view envs (lower_atom a) = Inr envs1"
    "eval_atoms gate view envs1 (map lower_atom atoms) = Inr envs'"
    by (auto simp: eval_atoms.simps err_simps split: if_split_asm)
  have "items_all P env1" if "env1 \<in> set envs1" for env1
    using Cons.prems(1-3) by (intro eval_items [OF _ _ _ _ _ s(1) that]) auto
  with Cons.prems(1,2,5) show ?case by (intro Cons.IH [OF _ _ _ s(2)]) auto
qed auto

section \<open>The set of results\<close>

lemma plain_key [simp]: "plain_items env \<Longrightarrow> py_key (binding_key env)"
  by (auto simp: plain_items_def binding_key_def)

lemma collect_bodies:
  assumes "foldE (\<lambda>seen body. bindE (eval_body gate view [[]] body) (foldE add_binding seen)) seen bodies = Inr seen'" "keyed_seen seen"
  shows "keyed_seen seen' \<and> set seen \<subseteq> set seen' \<and>
    (\<forall>env \<in> snd ` set seen'. env \<in> snd ` set seen \<or> (\<exists>body \<in> set bodies. \<exists>envs. eval_body gate view [[]] body = Inr envs \<and> env \<in> set envs)) \<and>
    (\<forall>body \<in> set bodies. \<exists>envs. eval_body gate view [[]] body = Inr envs \<and>
      (\<forall>env \<in> set envs. plain_items env \<longrightarrow> (\<exists>x \<in> snd ` set seen'. py_eq (binding_key x) (binding_key env))))"
  using assms
proof (induction bodies arbitrary: seen)
  case (Cons body bodies)
  from Cons.prems(1) obtain envs s where s: "eval_body gate view [[]] body = Inr envs" "foldE add_binding seen envs = Inr s"
    "foldE (\<lambda>seen body. bindE (eval_body gate view [[]] body) (foldE add_binding seen)) s bodies = Inr seen'"
    by (auto simp: bindE_Inr_iff)
  note add = add_bindings [OF s(2) Cons.prems(2)]
  then have k: "keyed_seen s" by blast
  note ih = Cons.IH [OF s(3) k]
  have mono: "snd ` set s \<subseteq> snd ` set seen'" using ih by (intro image_mono) blast
  have found: "\<forall>env \<in> set envs. plain_items env \<longrightarrow> (\<exists>x \<in> snd ` set seen'. py_eq (binding_key x) (binding_key env))"
  proof (intro ballI impI)
    fix env assume "env \<in> set envs" "plain_items env"
    moreover from this(2) have "py_eq (binding_key env) (binding_key env)" by simp
    ultimately obtain x where "x \<in> snd ` set s" "py_eq (binding_key x) (binding_key env)" using add by blast
    with mono show "\<exists>x \<in> snd ` set seen'. py_eq (binding_key x) (binding_key env)" by blast
  qed
  have sub: "snd ` set s \<subseteq> snd ` set seen \<union> set envs" using add by (elim conjE)
  have from_body: "\<forall>env \<in> snd ` set seen'. env \<in> snd ` set seen \<or>
      (\<exists>b \<in> set (body # bodies). \<exists>envs. eval_body gate view [[]] b = Inr envs \<and> env \<in> set envs)"
  proof
    fix env assume "env \<in> snd ` set seen'"
    with ih have "env \<in> snd ` set s \<or> (\<exists>b \<in> set bodies. \<exists>envs. eval_body gate view [[]] b = Inr envs \<and> env \<in> set envs)"
      by (elim conjE) (drule (1) bspec)
    then show "env \<in> snd ` set seen \<or> (\<exists>b \<in> set (body # bodies). \<exists>envs. eval_body gate view [[]] b = Inr envs \<and> env \<in> set envs)"
    proof
      assume "env \<in> snd ` set s"
      with sub have "env \<in> snd ` set seen \<or> env \<in> set envs" by (rule subsetD [THEN UnE]) simp_all
      then show ?thesis by (elim disjE) (simp_all add: s(1))
    qed simp
  qed
  have "set seen \<subseteq> set s" using add by (elim conjE)
  moreover have "keyed_seen seen'" "set s \<subseteq> set seen'" using ih by simp_all
  moreover have "\<forall>b \<in> set (body # bodies). \<exists>envs. eval_body gate view [[]] b = Inr envs \<and>
      (\<forall>env \<in> set envs. plain_items env \<longrightarrow> (\<exists>x \<in> snd ` set seen'. py_eq (binding_key x) (binding_key env)))"
    using found ih s(1) by simp
  ultimately show ?case using from_body by (intro conjI) (auto simp del: ball_simps bex_simps)
qed simp

lemma all_bindings_set:
  assumes "all_bindings gate view bodies = Inr rs"
  shows "\<forall>env \<in> set rs. \<exists>body \<in> set bodies. \<exists>envs. eval_body gate view [[]] body = Inr envs \<and> env \<in> set envs"
    and "\<forall>body \<in> set bodies. \<exists>envs. eval_body gate view [[]] body = Inr envs \<and>
      (\<forall>env \<in> set envs. plain_items env \<longrightarrow> (\<exists>x \<in> set rs. py_eq (binding_key x) (binding_key env)))"
proof -
  from assms obtain seen where s:
    "foldE (\<lambda>seen body. bindE (eval_body gate view [[]] body) (foldE add_binding seen)) [] bodies = Inr seen" "sortE seen = Inr rs"
    by (auto simp: all_bindings_def bindE_Inr_iff)
  note collect_bodies [OF s(1), simplified keyed_seen_def, simplified]
  then show "\<forall>env \<in> set rs. \<exists>body \<in> set bodies. \<exists>envs. eval_body gate view [[]] body = Inr envs \<and> env \<in> set envs"
    and "\<forall>body \<in> set bodies. \<exists>envs. eval_body gate view [[]] body = Inr envs \<and>
      (\<forall>env \<in> set envs. plain_items env \<longrightarrow> (\<exists>x \<in> set rs. py_eq (binding_key x) (binding_key env)))"
    using sortE_set [OF s(2)] by simp_all
qed

text \<open>No two results have equal keys.\<close>

lemma add_bindings_distinct:
  assumes "foldE add_binding seen envs = Inr seen'" "distinct (map fst seen)" "\<forall>env \<in> set envs. plain_items env"
  shows "distinct (map fst seen')"
  using assms
proof (induction envs arbitrary: seen)
  case (Cons env envs)
  from Cons.prems(1) obtain s where s: "add_binding seen env = Inr s" "foldE add_binding s envs = Inr seen'"
    unfolding foldE.simps bindE_Inr_iff by blast
  have "py_eq (binding_key env) (binding_key env)" using Cons.prems(3) by simp
  then have "distinct (map fst s)"
    using s(1) Cons.prems(2) by (fastforce simp: add_binding_def Let_def list_ex_iff split: if_split_asm)
  with Cons.prems(3) show ?case by (intro Cons.IH [OF s(2)]) auto
qed simp

lemma insertE_mset: "insertE x ys = Inr zs \<Longrightarrow> mset zs = add_mset x (mset ys)"
  by (induction ys arbitrary: zs) (auto simp: err_simps split: if_split_asm)

lemma foldE_insertE_mset: "foldE (\<lambda>ys x. insertE x ys) zs xs = Inr ys \<Longrightarrow> mset ys = mset zs + mset xs"
  by (induction xs arbitrary: zs) (auto simp: err_simps dest: insertE_mset)

lemma sortE_mset: "sortE xs = Inr ys \<Longrightarrow> mset ys = mset (map snd xs)"
  by (auto simp: sortE_def err_simps dest!: foldE_insertE_mset)

lemma all_bindings_distinct:
  assumes "all_bindings gate view bodies = Inr rs"
    and "\<forall>body \<in> set bodies. \<forall>envs. eval_body gate view [[]] body = Inr envs \<longrightarrow> (\<forall>env \<in> set envs. plain_items env)"
  shows "distinct (map binding_key rs)"
proof -
  from assms(1) obtain seen where s:
    "foldE (\<lambda>seen body. bindE (eval_body gate view [[]] body) (foldE add_binding seen)) [] bodies = Inr seen" "sortE seen = Inr rs"
    by (auto simp: all_bindings_def bindE_Inr_iff)
  have "distinct (map fst seen')"
    if "foldE (\<lambda>seen body. bindE (eval_body gate view [[]] body) (foldE add_binding seen)) seen bodies = Inr seen'"
      "distinct (map fst seen)" for seen seen'
    using that assms(2)
  proof (induction bodies arbitrary: seen)
    case (Cons body bodies)
    from Cons.prems(1) obtain envs s where s: "eval_body gate view [[]] body = Inr envs" "foldE add_binding seen envs = Inr s"
      "foldE (\<lambda>seen body. bindE (eval_body gate view [[]] body) (foldE add_binding seen)) s bodies = Inr seen'"
      by (auto simp: bindE_Inr_iff)
    have "distinct (map fst s)" using Cons.prems(2,3) s(1) by (intro add_bindings_distinct [OF s(2)]) auto
    with Cons.prems(3) show ?case by (intro Cons.IH [OF s(3)]) auto
  qed simp
  from this [OF s(1)] have "distinct (map fst seen)" by simp
  moreover have "keyed_seen seen" using collect_bodies [OF s(1)] by (simp add: keyed_seen_def)
  then have "map fst seen = map binding_key (map snd seen)" by (auto simp: keyed_seen_def)
  moreover have "mset (map binding_key rs) = mset (map binding_key (map snd seen))"
    using sortE_mset [OF s(2)] by (metis mset_map)
  ultimately show ?thesis by (metis mset_eq_imp_distinct_iff)
qed

section \<open>Clauses that return\<close>

text \<open>
  Clauses that join and compare texts always have a result: no atom raises along a validated
  branch, and texts can be sorted.
\<close>

section \<open>Joins on texts\<close>

definition text_value :: "pyval \<Rightarrow> bool" where
  "text_value v \<longleftrightarrow> (\<exists>s. v = PStr s)"

definition joins :: "view \<Rightarrow> where_atom \<Rightarrow> bool" where
  "joins view a \<longleftrightarrow> (case a of
      PredAtom p ts \<Rightarrow> (\<exists>q facts. p = PStr q \<and> dict_get view q = Some facts \<and> (\<forall>f \<in> set facts. length f = length ts)) \<and>
        (\<forall>c. Const c \<in> set ts \<longrightarrow> text_value c)
    | CmpAtom op l r \<Rightarrow> op \<in> {u ''eq'', u ''ne''} \<and> (\<forall>c. Const c \<in> {l, r} \<longrightarrow> text_value c \<and> is_literal c)
    | InAtom x cs \<Rightarrow> \<forall>c \<in> set cs. text_value c
    | _ \<Rightarrow> False)"

lemma text_plain: "text_value v \<Longrightarrow> plain_value v"
  by (auto simp: text_value_def)

lemma text_hashable: "text_value v \<Longrightarrow> hashable v"
  by (auto simp: text_value_def)

lemma items_all_mono: "items_all P env \<Longrightarrow> (\<And>v. P v \<Longrightarrow> Q v) \<Longrightarrow> items_all Q env"
  by (auto simp: items_all_def)

lemma concatE_returns: "(\<And>x. x \<in> set xs \<Longrightarrow> \<exists>ys. f x = Inr ys) \<Longrightarrow> \<exists>zs. concatE f xs = Inr zs"
proof (induction xs)
  case (Cons x xs)
  then obtain ys zs where "f x = Inr ys" "concatE f xs = Inr zs" by (metis list.set_intros)
  then show ?case by simp
qed simp

lemma join_returns:
  assumes "positive a" "joins view a" "facts_all text_value view" "\<forall>env \<in> set envs. items_all text_value env \<and> ready env a"
  shows "\<exists>envs'. eval_atom gate view envs (lower_atom a) = Inr envs'"
  using assms(1)
proof (cases rule: positive_cases)
  case (Pred p ts)
  with assms(2) obtain q facts where q: "p = PStr q" "dict_get view q = Some facts" "\<forall>f \<in> set facts. length f = length (map lower_term ts)"
    by (auto simp: joins_def)
  have pt: "\<forall>t \<in> set (map lower_term ts). is_var t \<or> py_key t"
    using pred_terms [OF Pred(2)] assms(2) Pred(1) text_plain by (force simp: joins_def)
  have kf: "keyed_facts facts"
    using assms(3) q(2) text_plain by (auto simp: facts_all_def keyed_facts_def)
  have "\<exists>ys. bindE (pred_candidates_for_env facts (map lower_term ts) env) (\<lambda>cs.
      Ok (List.map_filter (match_fact env (map lower_term ts)) cs)) = Inr ys" if "env \<in> set envs" for env
  proof -
    have "keyed env"
      using assms(4) that by (intro plain_keyed items_all_plain) (auto intro: items_all_mono text_plain)
    then show ?thesis using candidates_suffice [OF kf q(3) _ pt, of env] by auto
  qed
  then have "\<exists>zs. concatE (\<lambda>env. bindE (pred_candidates_for_env facts (map lower_term ts) env) (\<lambda>cs.
      Ok (List.map_filter (match_fact env (map lower_term ts)) cs))) envs = Inr zs"
    by (intro concatE_returns)
  with q show ?thesis
    unfolding Pred(1) eval_pred by (simp add: eval_pred_atom_def list_all_iff)
next
  case (Cmp op l r)
  have "\<exists>ys. cmp_step gate op env l r = Inr ys" if "env \<in> set envs" for env
  proof -
    from Cmp(1) assms(2) have "op = u ''eq'' \<or> op = u ''ne''" by (simp add: joins_def)
    moreover have "ready env (CmpAtom op l r)" using assms(4) that Cmp(1) by blast
    ultimately show ?thesis
      by (cases "term_value env l"; cases "term_value env r")
        (auto simp: cmp_step_def join_eq_def filter_ne_def known_def)
  qed
  then show ?thesis
    unfolding Cmp(1) using Cmp(2-4) by (subst eval_cmp) (auto intro: concatE_returns)
next
  case (In x cs)
  have "\<exists>ys. (case resolve env (PStr x) of
          Known v \<Rightarrow> if \<not> hashable v then Err TypeError else Ok (if list_ex (\<lambda>w. py_eq w v) cs then [env] else [])
        | _ \<Rightarrow> unbound_variable gate) = Inr ys" if "env \<in> set envs" for env
  proof -
    have "items_all text_value env" "x \<in> bound_vars env" using assms(4) that In(1) by auto
    then obtain v where "dict_get env x = Some v" "hashable v"
      by (auto simp: bound_vars_def dest: items_all_get intro: text_hashable)
    with In(2) show ?thesis by (simp add: resolve_def is_var_def var_of_def)
  qed
  moreover have "list_all hashable cs" using assms(2) In(1) by (auto simp: joins_def list_all_iff intro: text_hashable)
  ultimately show ?thesis
    unfolding In(1) eval_in [OF In(2)] eval_in_atom_def by (auto intro: concatE_returns)
next
  case (Builtin op ts)
  with assms(2) show ?thesis by (simp add: joins_def)
qed

lemma joins_constants: "joins view a \<Longrightarrow> constants_all text_value a"
  by (auto simp: joins_def constants_all_def)

lemma joins_no_builtin: "joins view a \<Longrightarrow> a \<noteq> BuiltinAtom op ts"
  by (auto simp: joins_def)

lemma branch_returns:
  assumes "\<forall>a \<in> set atoms. positive a \<and> joins view a" "facts_all text_value view"
    and "\<forall>env \<in> set envs. items_all text_value env \<and> flow_bound st \<subseteq> bound_vars env"
    and "validate_and_dataflow st atoms = Inr st'"
  shows "\<exists>envs'. eval_atoms gate view envs (map lower_atom atoms) = Inr envs'"
  using assms
proof (induction atoms arbitrary: envs st)
  case (Cons a atoms)
  have a: "positive a" "joins view a" using Cons.prems(1) by auto
  have bound: "\<forall>env \<in> set envs. flow_bound st \<subseteq> bound_vars env" using Cons.prems(3) by blast
  from positive_step [OF a(1) Cons.prems(4) bound, of view] obtain st1 where
    st1: "validate_and_dataflow st1 atoms = Inr st'" "\<forall>env \<in> set envs. ready env a"
    "\<forall>gate envs' env. eval_atom gate view envs (lower_atom a) = Inr envs' \<longrightarrow> env \<in> set envs' \<longrightarrow> flow_bound st1 \<subseteq> bound_vars env"
    by auto
  obtain envs1 where e: "eval_atom gate view envs (lower_atom a) = Inr envs1"
    using join_returns [OF a Cons.prems(2)] Cons.prems(3) st1(2) by blast
  have "items_all text_value env1" if "env1 \<in> set envs1" for env1
    using a joins_constants joins_no_builtin Cons.prems(2,3)
    by (intro eval_items [OF a(1) _ _ _ _ e that]) auto
  moreover have "flow_bound st1 \<subseteq> bound_vars env1" if "env1 \<in> set envs1" for env1 using st1(3) e that by blast
  ultimately have "\<exists>envs'. eval_atoms gate view envs1 (map lower_atom atoms) = Inr envs'"
    using Cons.prems(1,2) st1(1) by (intro Cons.IH [of envs1 st1]) auto
  with e show ?case by (auto simp: eval_atoms.simps)
qed simp

section \<open>Sorting texts\<close>

definition text_key :: "pyval \<Rightarrow> bool" where
  "text_key k \<longleftrightarrow> (\<exists>items. k = PTuple (map (\<lambda>(x, v). PTuple [PStr x, PStr v]) items))"

lemma text_less: "\<exists>b. py_less_list (map (\<lambda>(x, v). PTuple [PStr x, PStr v]) xs) (map (\<lambda>(x, v). PTuple [PStr x, PStr v]) ys) = Inr b"
proof (induction xs arbitrary: ys)
  case Nil
  then show ?case by (cases ys) auto
next
  case (Cons x xs)
  then show ?case by (cases ys) (auto simp: case_prod_beta)
qed

lemma text_key_less: "text_key k \<Longrightarrow> text_key l \<Longrightarrow> \<exists>b. py_less k l = Inr b"
  using text_less by (auto simp: text_key_def)

lemma insertE_returns: "text_key (fst x) \<Longrightarrow> \<forall>y \<in> set ys. text_key (fst y) \<Longrightarrow> \<exists>zs. insertE x ys = Inr zs"
proof (induction ys)
  case (Cons y ys)
  then obtain b zs where "py_less (fst x) (fst y) = Inr b" "insertE x ys = Inr zs" using text_key_less by force
  then show ?case by simp
qed simp

lemma foldE_insertE_returns:
  "\<forall>x \<in> set xs \<union> set ys. text_key (fst x) \<Longrightarrow> \<exists>zs. foldE (\<lambda>ys x. insertE x ys) ys xs = Inr zs"
proof (induction xs arbitrary: ys)
  case (Cons x xs)
  then obtain ys' where y: "insertE x ys = Inr ys'" using insertE_returns [of x ys] by auto
  then have "\<forall>x \<in> set xs \<union> set ys'. text_key (fst x)" using Cons.prems by (auto dest!: insertE_set)
  from Cons.IH [OF this] y show ?case by simp
qed simp

lemma sortE_returns: "\<forall>x \<in> set xs. text_key (fst x) \<Longrightarrow> \<exists>ys. sortE xs = Inr ys"
  using foldE_insertE_returns [of xs "[]"] by (auto simp: sortE_def)

lemma text_binding_key: "items_all text_value env \<Longrightarrow> text_key (binding_key env)"
proof -
  assume "items_all text_value env"
  then have "\<forall>p \<in> set (sort_key fst env). snd p = PStr (the (case snd p of PStr s \<Rightarrow> Some s | _ \<Rightarrow> None))"
    by (auto simp: items_all_def text_value_def)
  then have "map (\<lambda>(k, v). PTuple [PStr k, v]) (sort_key fst env) =
      map (\<lambda>(x, v). PTuple [PStr x, PStr v]) (map (\<lambda>p. (fst p, the (case snd p of PStr s \<Rightarrow> Some s | _ \<Rightarrow> None))) (sort_key fst env))"
    by (auto simp: case_prod_beta)
  then show ?thesis unfolding text_key_def binding_key_def by blast
qed

lemma text_key_hashable: "text_key k \<Longrightarrow> hashable k"
  by (auto simp: text_key_def list_all_iff)

lemma add_bindings_return:
  assumes "\<forall>env \<in> set envs. items_all text_value env" "keyed_seen seen" "\<forall>x \<in> set seen. items_all text_value (snd x)"
  shows "\<exists>seen'. foldE add_binding seen envs = Inr seen' \<and> keyed_seen seen' \<and> (\<forall>x \<in> set seen'. items_all text_value (snd x))"
  using assms
proof (induction envs arbitrary: seen)
  case (Cons env envs)
  then have "hashable (binding_key env)" by (auto intro: text_key_hashable text_binding_key)
  then obtain s where s: "add_binding seen env = Inr s" "s = seen \<or> s = seen @ [(binding_key env, env)]"
    by (auto simp: add_binding_def Let_def)
  have "keyed_seen s" "\<forall>x \<in> set s. items_all text_value (snd x)"
    using s(2) Cons.prems by (auto simp: keyed_seen_def)
  with Cons.IH [OF _ this] Cons.prems(1) s(1) show ?case by simp
qed simp

lemma bodies_return:
  assumes "\<forall>body \<in> set bodies. \<exists>envs. eval_body gate view [[]] body = Inr envs \<and> (\<forall>env \<in> set envs. items_all text_value env)"
  shows "\<exists>rs. all_bindings gate view bodies = Inr rs"
proof -
  have "\<exists>seen'. foldE (\<lambda>seen body. bindE (eval_body gate view [[]] body) (foldE add_binding seen)) seen bodies = Inr seen' \<and>
      keyed_seen seen' \<and> (\<forall>x \<in> set seen'. items_all text_value (snd x))"
    if "keyed_seen seen" "\<forall>x \<in> set seen. items_all text_value (snd x)" for seen
    using that assms
  proof (induction bodies arbitrary: seen)
    case (Cons body bodies)
    then obtain envs where e: "eval_body gate view [[]] body = Inr envs" "\<forall>env \<in> set envs. items_all text_value env" by auto
    from add_bindings_return [OF e(2) Cons.prems(1,2)] obtain s where s: "foldE add_binding seen envs = Inr s"
      "keyed_seen s" "\<forall>x \<in> set s. items_all text_value (snd x)" by blast
    with Cons.IH [OF s(2,3)] Cons.prems(3) e(1) show ?case by simp
  qed simp
  from this [of "[]"] obtain seen where s:
    "foldE (\<lambda>seen body. bindE (eval_body gate view [[]] body) (foldE add_binding seen)) [] bodies = Inr seen"
    "keyed_seen seen" "\<forall>x \<in> set seen. items_all text_value (snd x)" by (auto simp: keyed_seen_def)
  have "\<forall>x \<in> set seen. text_key (fst x)"
  proof
    fix x assume "x \<in> set seen"
    with s(2,3) have "fst x = binding_key (snd x)" "items_all text_value (snd x)" by (auto simp: keyed_seen_def)
    then show "text_key (fst x)" by (simp add: text_binding_key)
  qed
  from sortE_returns [OF this] s(1) show ?thesis by (auto simp: all_bindings_def)
qed

end
