(* ===== verification/Where_Contract.thy ===== *)
theory Where_Contract
  imports Where_Bindings
begin

text \<open>
  What the evaluator of where clauses promises: the syntax tree keeps the clause, validation makes
  the evaluator's silent mode unobservable, the results are the satisfying bindings, each once, and
  clauses that join texts have a result; with the two situations in which it fails.
\<close>

section \<open>Whole clauses\<close>

lemma clause_conditions:
  assumes "where_gate [CapAllowRuleref False] w = Inr ()" "parse_where_ir_to_ast w = Inr e" "aggregate_free e" "identity_free e"
    and "b \<in> set (branches_of e)"
  shows "(\<forall>a \<in> set b. clause_atom a \<and> identity_free_atom a) \<and> (\<exists>st. validate_and_dataflow (entry_state {}) b = Inr st)"
  using valid_branches [OF assms(1-3)] assms(4,5) by (auto simp: identity_free_def)

lemma evaluate_plain:
  "evaluate_where gate view w [] [] [] =
     bindE (if gate then where_gate [CapAllowRuleref False] w else Ok ()) (\<lambda>_.
     bindE (normalize_where w) (all_bindings gate view))"
  by (simp add: evaluate_where_def edited_bodies_def)



lemma plain_constants_all: "plain_constants a \<Longrightarrow> constants_all plain_value a"
  by (auto simp: plain_constants_def constants_all_def)

lemma joins_positive: "clause_atom a \<Longrightarrow> joins view a \<Longrightarrow> positive a"
  by (cases a) (auto simp: clause_atom_def joins_def)

lemma positive_branches:
  assumes "where_gate [CapAllowRuleref False] w = Inr ()" "parse_where_ir_to_ast w = Inr e" "positive_clause e" "b \<in> set (branches_of e)"
  shows "\<forall>a \<in> set b. positive a \<and> plain_constants a \<and> constants_all plain_value a"
    and "eval_body gate view envs (map lower_atom b) = eval_atoms gate view envs (map lower_atom b)"
    and "\<exists>st. validate_and_dataflow (entry_state {}) b = Inr st"
proof -
  have p: "aggregate_free e" "identity_free e" using assms(3) by (auto simp: positive_clause_def)
  note c = clause_conditions [OF assms(1,2) p assms(4)]
  then show "\<forall>a \<in> set b. positive a \<and> plain_constants a \<and> constants_all plain_value a"
    using assms(3,4) by (auto simp: positive_clause_def clause_atom_def intro: plain_constants_all)
  show "eval_body gate view envs (map lower_atom b) = eval_atoms gate view envs (map lower_atom b)"
    using c by (intro eval_body_branch) blast
  show "\<exists>st. validate_and_dataflow (entry_state {}) b = Inr st" using c by blast
qed

lemma branch_plain_items:
  assumes "where_gate [CapAllowRuleref False] w = Inr ()" "parse_where_ir_to_ast w = Inr e" "positive_clause e" "b \<in> set (branches_of e)"
    and "plain_facts view" "eval_body gate view [[]] (map lower_atom b) = Inr envs" "env \<in> set envs"
  shows "plain_items env"
proof -
  note pb = positive_branches [OF assms(1-4)]
  have "eval_atoms gate view [[]] (map lower_atom b) = Inr envs" using assms(6) by (simp only: pb(2))
  then show ?thesis
    unfolding plain_items_iff using pb(1) assms(5,7)
    by (intro atoms_items [of b plain_value view "[[]]"]) (auto simp: facts_all_plain)
qed

lemma clause_results:
  assumes "evaluate_where True view w [] [] [] = Inr rs" "parse_where_ir_to_ast w = Inr e" "positive_clause e" "plain_facts view"
  shows "\<forall>env \<in> set rs. \<exists>b \<in> set (branches_of e). \<forall>a \<in> set b. satisfies view env a"
    and "\<forall>b \<in> set (branches_of e). \<forall>\<sigma>. plain_env \<sigma> \<and> (\<forall>a \<in> set b. satisfies view \<sigma> a \<and> integer_output \<sigma> a) \<longrightarrow>
      (\<exists>env \<in> set rs. map_of env \<subseteq>\<^sub>m map_of \<sigma> \<and> (\<forall>a \<in> set b. satisfies view env a))"
    and "distinct (map binding_key rs)"
proof -
  from assms(1) obtain bodies where r: "where_gate [CapAllowRuleref False] w = Inr ()" "normalize_where w = Inr bodies"
    "all_bindings True view bodies = Inr rs"
    by (auto simp: evaluate_plain err_simps)
  have b: "bodies = map (map lower_atom) (branches_of e)" by (rule normalized_branches [OF assms(2) r(2)])
  note pb = positive_branches [OF r(1) assms(2,3)]
  note items = branch_plain_items [OF r(1) assms(2,3) _ assms(4)]
  have sound: "grows [[]] env \<and> (\<forall>a \<in> set b. satisfies view env a)"
    if "b \<in> set (branches_of e)" "eval_body True view [[]] (map lower_atom b) = Inr envs" "env \<in> set envs" for b envs env
    using pb(1) [OF that(1)] assms(4) that(2,3) pb(2) [OF that(1)]
    by (intro atoms_sound [of b view "[[]]" True envs]) (auto simp: plain_env_def)
  show "\<forall>env \<in> set rs. \<exists>b \<in> set (branches_of e). \<forall>a \<in> set b. satisfies view env a"
    using all_bindings_set(1) [OF r(3)] sound unfolding b by fastforce
  show "\<forall>b \<in> set (branches_of e). \<forall>\<sigma>. plain_env \<sigma> \<and> (\<forall>a \<in> set b. satisfies view \<sigma> a \<and> integer_output \<sigma> a) \<longrightarrow>
      (\<exists>env \<in> set rs. map_of env \<subseteq>\<^sub>m map_of \<sigma> \<and> (\<forall>a \<in> set b. satisfies view env a))"
  proof (intro ballI allI impI, elim conjE)
    fix b \<sigma> assume s: "b \<in> set (branches_of e)" "plain_env \<sigma>" "\<forall>a \<in> set b. satisfies view \<sigma> a \<and> integer_output \<sigma> a"
    from all_bindings_set(2) [OF r(3)] s(1) obtain envs where e: "eval_body True view [[]] (map lower_atom b) = Inr envs"
      "\<forall>env \<in> set envs. plain_items env \<longrightarrow> (\<exists>x \<in> set rs. py_eq (binding_key x) (binding_key env))"
      unfolding b by auto
    obtain st where "validate_and_dataflow (entry_state {}) b = Inr st" using pb(3) [OF s(1)] by blast
    then have "\<exists>env \<in> set envs. map_of env \<subseteq>\<^sub>m map_of \<sigma>"
      using pb(1) [OF s(1)] pb(2) [OF s(1)] e(1) s(2,3) assms(4)
      by (intro atoms_complete [of b view "[[]]" "entry_state {}" st True envs \<sigma> "[]"])
        (auto simp: plain_env_def entry_state_def map_le_def)
    then obtain env where env: "env \<in> set envs" "map_of env \<subseteq>\<^sub>m map_of \<sigma>" by blast
    have pi: "plain_items env" by (rule items [OF s(1) e(1) env(1)])
    with e(2) env(1) obtain x where x: "x \<in> set rs" "py_eq (binding_key x) (binding_key env)" by blast
    have "plain_items x"
      using all_bindings_set(1) [OF r(3)] x(1) items unfolding b by fastforce
    with x(2) pi have "map_of x = map_of env" by (intro binding_key_eq)
    moreover have "\<forall>a \<in> set b. satisfies view env a" using sound [OF s(1) e(1) env(1)] by blast
    ultimately show "\<exists>env \<in> set rs. map_of env \<subseteq>\<^sub>m map_of \<sigma> \<and> (\<forall>a \<in> set b. satisfies view env a)"
      using x(1) env(2) satisfies_mono [of view env _ x] by (intro bexI [of _ x]) auto
  qed
  show "distinct (map binding_key rs)"
    using items unfolding b by (intro all_bindings_distinct [OF r(3)]) (auto simp: b)
qed

lemma text_branch:
  assumes "where_gate [CapAllowRuleref False] w = Inr ()" "parse_where_ir_to_ast w = Inr e" "aggregate_free e" "identity_free e"
    and "b \<in> set (branches_of e)" "\<forall>a \<in> set b. joins view a" "facts_all text_value view"
  shows "\<exists>envs. eval_body gate view [[]] (map lower_atom b) = Inr envs \<and> (\<forall>env \<in> set envs. items_all text_value env)"
proof -
  note c = clause_conditions [OF assms(1-5)]
  then have p: "\<forall>a \<in> set b. positive a \<and> joins view a" using assms(6) by (auto intro: joins_positive)
  from c obtain st where "validate_and_dataflow (entry_state {}) b = Inr st" by blast
  then obtain envs where envs: "eval_atoms gate view [[]] (map lower_atom b) = Inr envs"
    using branch_returns [OF p assms(7), of "[[]]" "entry_state {}"] by (auto simp: entry_state_def)
  have q: "\<forall>a \<in> set b. positive a \<and> constants_all text_value a \<and> (\<forall>i. text_value (PInt i) \<or> (\<forall>op ts. a \<noteq> BuiltinAtom op ts))"
    using p joins_constants joins_no_builtin by blast
  have "items_all text_value env" if "env \<in> set envs" for env
    by (rule atoms_items [OF q assms(7) _ envs that]) simp
  moreover note envs
  ultimately show ?thesis using c by (subst eval_body_branch) auto
qed

lemma joins_valid: "positive a \<Longrightarrow> joins view a \<Longrightarrow> validate_atom (lower_atom a) = Inr ()"
proof (elim positive_cases)
  have t: "validate_eval_term (lower_term t) = Inr ()" if "simple_term t" "\<And>c. t = Const c \<Longrightarrow> text_value c \<and> is_literal c" for t
    using that by (cases t) (auto simp: validate_eval_term.simps is_var_def is_literal_def text_value_def)
  show "a = CmpAtom op l r \<Longrightarrow> simple_term l \<Longrightarrow> simple_term r \<Longrightarrow> joins view a \<Longrightarrow> validate_atom (lower_atom a) = Inr ()" for op l r
    by (auto simp: joins_def validate_atom.simps t)
qed (auto simp: joins_def validate_atom.simps list_ex_iff list_all_iff is_var_def)

lemma joins_normalize:
  assumes "validate_expr_shape caps n e = Inr ()" "\<forall>b \<in> set (branches_of e). \<forall>a \<in> set b. positive a \<and> joins view a"
  shows "\<exists>bodies. normalize_where (PList (lower_expr e)) = Inr bodies"
proof (cases e)
  case (AndExpr atoms)
  have "forE validate_atom (map lower_atom atoms) = Inr ()"
    using assms(2) AndExpr by (auto simp: forE_Inr_iff branches_of_def intro: joins_valid)
  with AndExpr assms(1) show ?thesis by (simp add: normalize_where_def list_all_iff split: if_split_asm)
next
  case (OrExpr bs)
  have ne: "bs \<noteq> []" "[] \<notin> set bs" using assms(1) OrExpr by (auto simp: forE_Inr_iff split: if_split_asm)
  have v: "forE validate_atom (map lower_atom b) = Inr ()" if "b \<in> set bs" for b
    using assms(2) OrExpr that by (auto simp: forE_Inr_iff branches_of_def intro: joins_valid)
  have "mapE (\<lambda>item. case item of
              PList branch \<Rightarrow>
                if branch = [] then Err WhereValidationError
                else if \<not> list_all is_atom branch then Err WhereValidationError
                else bindE (forE validate_atom branch) (\<lambda>_. Ok branch)
            | _ \<Rightarrow> Err WhereValidationError) (map (\<lambda>b. PList (map lower_atom b)) bs) = Inr (map (map lower_atom) bs)"
    using ne(2) v by (induction bs) (auto simp: list_all_iff)
  moreover have "\<not> list_all is_atom (map (\<lambda>b. PList (map lower_atom b)) bs)"
    using ne(1) by (cases bs) (auto simp: is_atom_def)
  moreover have "list_all is_PList (map (\<lambda>b. PList (map lower_atom b)) bs)" by (simp add: list_all_iff is_PList_def)
  ultimately show ?thesis using OrExpr ne(1) by (simp only: normalize_where_def lower_expr.simps pyval.case) simp
qed

lemma text_clause:
  assumes "where_gate [CapAllowRuleref False] w = Inr ()" "parse_where_ir_to_ast w = Inr e" "aggregate_free e" "identity_free e"
    and "\<forall>b \<in> set (branches_of e). \<forall>a \<in> set b. joins view a" "facts_all text_value view"
  shows "\<exists>rs. evaluate_where gate view w [] [] [] = Inr rs"
proof -
  obtain caps st where "validate_expr_shape caps False e = Inr ()" using gate_valid [OF assms(1,2)] by blast
  moreover have "PList (lower_expr e) = w" using assms(2) lower_parse(3) by (simp add: parse_where_ir_to_ast_def)
  moreover have "\<forall>b \<in> set (branches_of e). \<forall>a \<in> set b. positive a \<and> joins view a"
    using clause_conditions [OF assms(1-4)] assms(5) joins_positive by blast
  ultimately obtain bodies where n: "normalize_where w = Inr bodies" using joins_normalize by blast
  have b: "bodies = map (map lower_atom) (branches_of e)" by (rule normalized_branches [OF assms(2) n])
  have "\<exists>rs. all_bindings gate view bodies = Inr rs"
    using text_branch [OF assms(1-4) _ _ assms(6)] assms(5) unfolding b by (intro bodies_return) auto
  then show ?thesis by (auto simp: evaluate_plain assms(1) n)
qed

section \<open>Properties\<close>

text \<open>
  lowering a parsed clause gives back the clause: the syntax tree loses nothing of it.
\<close>

lemma where_tree_roundtrip:
  "parse_where_ir_to_ast w = Inr e \<Longrightarrow> lower_ast_to_where_ir e = w"
  by (simp add: parse_where_ir_to_ast_def lower_ast_to_where_ir_def lower_parse(3))


text \<open>
  C3: every result of a positive clause makes all atoms of one of its branches true, and every
  assignment of texts and integers that makes all atoms of a branch true extends one of the results,
  and no two results are the same binding.
\<close>

theorem results_are_the_solutions:
  assumes "evaluate_where True view w [] [] [] = Inr rs" "parse_where_ir_to_ast w = Inr e"
    and "positive_clause e" "plain_facts view"
  shows "(\<forall>env \<in> set rs. \<exists>b \<in> set (branches_of e). \<forall>a \<in> set b. satisfies view env a) \<and>
    (\<forall>b \<in> set (branches_of e). \<forall>\<sigma>. plain_env \<sigma> \<and> (\<forall>a \<in> set b. satisfies view \<sigma> a \<and> integer_output \<sigma> a) \<longrightarrow>
      (\<exists>env \<in> set rs. map_of env \<subseteq>\<^sub>m map_of \<sigma> \<and> (\<forall>a \<in> set b. satisfies view env a))) \<and>
    distinct (map binding_key rs)"
  using clause_results [OF assms] by (intro conjI)

text \<open>
  C27: a validated clause of predicates, equations, inequations and memberships over texts always has
  a result, when the view has the predicates with their arities.
\<close>

theorem text_joins_return:
  assumes "where_gate [CapAllowRuleref False] w = Inr ()" "parse_where_ir_to_ast w = Inr e"
    and "aggregate_free e" "identity_free e"
    and "\<forall>b \<in> set (branches_of e). \<forall>a \<in> set b. joins view a" "facts_all text_value view"
  shows "\<exists>rs. evaluate_where gate view w [] [] [] = Inr rs"
  by (rule text_clause [OF assms])

text \<open>
  C30: a predicate atom evaluated through the hash index over the fixed positions gives the bindings
  of the nested loop over all facts, in the same order.
\<close>

theorem index_is_a_scan:
  assumes "keyed_facts facts" "dict_get view p = Some facts" "\<forall>f \<in> set facts. length f = length terms"
    and "\<forall>t \<in> set terms. is_var t \<or> py_key t" "\<forall>env \<in> set envs. keyed env"
  shows "eval_pred_atom view envs (PStr p) terms = Ok (concat (map (scan_facts facts terms) envs))"
proof -
  have "mapE (\<lambda>env. bindE (pred_candidates_for_env facts terms env) (\<lambda>candidates.
      Ok (List.map_filter (match_fact env terms) candidates))) envs = Inr (map (scan_facts facts terms) envs)"
    using assms(5) by (induction envs) (simp_all add: candidates_suffice [OF assms(1,3) _ assms(4)])
  then show ?thesis using assms(2,3) by (simp add: eval_pred_atom_def concatE_def list_all_iff)
qed

text \<open>
  C31: \<open>not\<close> keeps exactly the bindings under which no branch of its body has a result, in their
  order.
\<close>

theorem not_keeps_the_unmatched:
  "eval_atom gate view envs (lower_atom (NotAtom e)) = Inr envs' \<Longrightarrow>
    envs' = filter (\<lambda>env. \<forall>b \<in> set (branches_of e). eval_body gate view [env] (map lower_atom b) = Inr []) envs"
proof -
  assume "eval_atom gate view envs (lower_atom (NotAtom e)) = Inr envs'"
  then obtain branches vs where b: "normalize_not_body (PList (lower_expr e)) = Inr branches"
    and c: "concatE (\<lambda>env.
         let correlated = vs \<inter> fst ` set env in
         if correlated = {} \<and> \<not> gate then Err WhereValidationError
         else bindE (or_branches_correlated branches correlated) (\<lambda>_.
           bindE (anyE (\<lambda>branch. bindE (eval_body gate view [env] branch) (\<lambda>es. Ok (es \<noteq> []))) branches)
             (\<lambda>found. Ok (if found then [] else [env])))) envs = Inr envs'"
    unfolding eval_not by (auto simp: bindE_Inr_iff)
  have any: "anyE (\<lambda>branch. bindE (eval_body gate view [env] branch) (\<lambda>es. Ok (es \<noteq> []))) branches = Inr found \<Longrightarrow>
      found = (\<not> (\<forall>branch \<in> set branches. eval_body gate view [env] branch = Inr []))" for env found
    by (cases found) (fastforce simp: anyE_False_iff bindE_Inr_iff dest!: anyE_True)+
  from c have "envs' = filter (\<lambda>env. \<forall>branch \<in> set branches. eval_body gate view [env] branch = Inr []) envs"
    by (induction envs arbitrary: envs') (auto simp: bindE_Inr_iff Let_def dest!: any split: if_split_asm)
  then show ?thesis by (simp add: normalize_not_lower [OF b])
qed

section \<open>Examples\<close>

text \<open>Two steps along a relation, with a constant excluded.\<close>

definition sample_view :: view where
  "sample_view = [(u ''p'', [[PStr (u ''a''), PStr (u ''b'')], [PStr (u ''b''), PStr (u ''c'')]])]"

definition sample_clause :: pyval where
  "sample_clause = PList [
     PTuple [PStr (u ''pred''), PStr (u ''p''), PList [PStr (u ''$x''), PStr (u ''$y'')]],
     PTuple [PStr (u ''pred''), PStr (u ''p''), PList [PStr (u ''$y''), PStr (u ''$z'')]],
     PTuple [PStr (u ''ne''), PStr (u ''$x''), PStr (u ''c'')]]"

definition sample_tree :: where_expr where
  "sample_tree = AndExpr [
     PredAtom (PStr (u ''p'')) [Var (u ''$x''), Var (u ''$y'')],
     PredAtom (PStr (u ''p'')) [Var (u ''$y''), Var (u ''$z'')],
     CmpAtom (u ''ne'') (Var (u ''$x'')) (Const (PStr (u ''c'')))]"

lemma sample_parses: "parse_where_ir_to_ast sample_clause = Inr sample_tree"
  by code_simp

lemma sample_valid: "where_gate [CapAllowRuleref False] sample_clause = Inr ()"
  by code_simp

lemma sample_free: "aggregate_free sample_tree" "identity_free sample_tree"
  by code_simp+

lemma sample_result:
  "evaluate_where True sample_view sample_clause [] [] [] =
    Inr [[(u ''$x'', PStr (u ''a'')), (u ''$y'', PStr (u ''b'')), (u ''$z'', PStr (u ''c''))]]"
  by code_simp

lemma sample_branches:
  "branches_of sample_tree = [[PredAtom (PStr (u ''p'')) [Var (u ''$x''), Var (u ''$y'')],
     PredAtom (PStr (u ''p'')) [Var (u ''$y''), Var (u ''$z'')],
     CmpAtom (u ''ne'') (Var (u ''$x'')) (Const (PStr (u ''c'')))]]"
  by (simp add: sample_tree_def branches_of_def)

lemma sample_positive: "positive_clause sample_tree"
  by (auto simp: positive_clause_def sample_free sample_branches plain_constants_def)

lemma sample_texts: "facts_all text_value sample_view"
  by (auto simp: facts_all_def sample_view_def text_value_def)

lemma sample_plain: "plain_facts sample_view"
  using sample_texts by (auto simp: facts_all_plain facts_all_def intro: text_plain)

lemma sample_joins: "\<forall>b \<in> set (branches_of sample_tree). \<forall>a \<in> set b. joins sample_view a"
proof -
  have "is_literal (PStr (u ''c''))" by code_simp
  then show ?thesis by (auto simp: sample_branches joins_def sample_view_def text_value_def)
qed

theorem where_tree_roundtrip_witness: "lower_ast_to_where_ir sample_tree = sample_clause"
  by (rule where_tree_roundtrip [OF sample_parses])


theorem results_are_the_solutions_witness:
  "\<exists>b \<in> set (branches_of sample_tree). \<forall>a \<in> set b. satisfies sample_view
    [(u ''$x'', PStr (u ''a'')), (u ''$y'', PStr (u ''b'')), (u ''$z'', PStr (u ''c''))] a"
  by (rule results_are_the_solutions [OF sample_result sample_parses sample_positive sample_plain, THEN conjunct1, THEN bspec])
    simp

theorem text_joins_return_witness: "\<exists>rs. evaluate_where False sample_view sample_clause [] [] [] = Inr rs"
  by (rule text_joins_return [OF sample_valid sample_parses sample_free sample_joins sample_texts])

theorem index_is_a_scan_witness:
  "eval_pred_atom sample_view [[(u ''$x'', PStr (u ''a''))]] (PStr (u ''p'')) [PStr (u ''$x''), PStr (u ''$y'')] =
    Ok [[(u ''$x'', PStr (u ''a'')), (u ''$y'', PStr (u ''b''))]]"
proof -
  have "concat (map (scan_facts [[PStr (u ''a''), PStr (u ''b'')], [PStr (u ''b''), PStr (u ''c'')]] [PStr (u ''$x''), PStr (u ''$y'')])
      [[(u ''$x'', PStr (u ''a''))]]) = [[(u ''$x'', PStr (u ''a'')), (u ''$y'', PStr (u ''b''))]]" by code_simp
  with index_is_a_scan [of "[[PStr (u ''a''), PStr (u ''b'')], [PStr (u ''b''), PStr (u ''c'')]]" sample_view "u ''p''"
      "[PStr (u ''$x''), PStr (u ''$y'')]" "[[(u ''$x'', PStr (u ''a''))]]"]
  show ?thesis by (simp add: keyed_facts_def sample_view_def keyed_def)
qed

theorem not_keeps_the_unmatched_witness:
  "filter (\<lambda>env. \<forall>b \<in> set (branches_of (AndExpr [PredAtom (PStr (u ''p'')) [Var (u ''$x''), Var (u ''$x'')]])).
      eval_body True sample_view [env] (map lower_atom b) = Inr []) [[(u ''$x'', PStr (u ''a''))]] = [[(u ''$x'', PStr (u ''a''))]]"
proof -
  have "eval_atom True sample_view [[(u ''$x'', PStr (u ''a''))]]
      (lower_atom (NotAtom (AndExpr [PredAtom (PStr (u ''p'')) [Var (u ''$x''), Var (u ''$x'')]]))) = Inr [[(u ''$x'', PStr (u ''a''))]]"
    by code_simp
  from not_keeps_the_unmatched [OF this] show ?thesis by (rule sym)
qed

section \<open>Failures\<close>

definition mixed_view :: view where
  "mixed_view = [(u ''p'', [[PStr (u ''a'')]]), (u ''q'', [[PInt 1]])]"

definition mixed_clause :: pyval where
  "mixed_clause = PList [
     PList [PTuple [PStr (u ''pred''), PStr (u ''p''), PList [PStr (u ''$x'')]]],
     PList [PTuple [PStr (u ''pred''), PStr (u ''q''), PList [PStr (u ''$x'')]]]]"

text \<open>
  a valid clause whose branches bind a variable to a text and to an integer has no result: the
  sort of the bindings compares the two and raises \<open>TypeError\<close>.
\<close>

lemma mixed_values_raise:
  "where_gate [CapAllowRuleref False] mixed_clause = Ok () \<and>
    evaluate_where True mixed_view mixed_clause [] [] [] = Err TypeError"
  by code_simp

definition count_clause :: pyval where
  "count_clause = PList [PTuple [PStr (u ''eq''), PStr (u ''$n''),
     PTuple [PStr (u ''count''), PNone, PList [PTuple [PStr (u ''gt''), PStr (u ''$b''), PInt 3]]]]]"

text \<open>
  the data flow of a \<open>count\<close> filter is not validated: a filter on a variable nobody binds
  passes validation and counts 0, while the evaluator without the gate raises.
\<close>

lemma count_filter_is_not_validated:
  "where_gate [CapAllowRuleref False] count_clause = Ok () \<and>
    evaluate_where True [] count_clause [] [] [] = Ok [[(u ''$n'', PInt 0)]] \<and>
    evaluate_where False [] count_clause [] [] [] = Err WhereValidationError"
  by (intro conjI) code_simp+

end
