(* ===== verification/Query_Rules.thy ===== *)
theory Query_Rules
  imports Rule_IR Rule_AST Where_Contract
begin

text \<open>
  Query rules over a view: validation guarantees the selected variables, the rows are the
  projections of the results, and a rule without references is the relation its clause defines.
\<close>

section \<open>Bound variables of the results\<close>

lemma clause_binds:
  assumes "\<forall>a \<in> set atoms. clause_atom a" "validate_and_dataflow st atoms = Inr st'"
    and "\<forall>env \<in> set envs. flow_bound st \<subseteq> bound_vars env"
    and "eval_atoms gate view envs (map lower_atom atoms) = Inr envs'" "env' \<in> set envs'"
  shows "flow_bound st' \<subseteq> bound_vars env'"
  using assms
proof (induction atoms arbitrary: st envs)
  case (Cons a atoms)
  from Cons.prems(4,5) obtain envs1 where s: "eval_atom gate view envs (lower_atom a) = Inr envs1"
    "eval_atoms gate view envs1 (map lower_atom atoms) = Inr envs'"
    by (auto simp: eval_atoms.simps err_simps split: if_split_asm)
  show ?case
  proof (cases "positive a")
    case True
    from positive_step [OF True Cons.prems(2,3), of view] obtain st1 where st1: "validate_and_dataflow st1 atoms = Inr st'"
      "\<forall>gate envs' env. eval_atom gate view envs (lower_atom a) = Inr envs' \<longrightarrow> env \<in> set envs' \<longrightarrow> flow_bound st1 \<subseteq> bound_vars env"
      by auto
    with s Cons.prems(1,5) show ?thesis by (intro Cons.IH [OF _ st1(1) _ s(2)]) auto
  next
    case False
    with Cons.prems(1) obtain e where e: "a = NotAtom e" by (auto simp: clause_atom_def)
    from Cons.prems(2) have "validate_and_dataflow st atoms = Inr st'" by (auto simp: e err_simps split: if_split_asm)
    from Cons.IH [OF _ this _ s(2)] show ?thesis
      using Cons.prems(1,3,5) not_member [OF s(1) [unfolded e]] by auto
  qed
qed auto

lemma term_is_resolved_iff: "simple_term t \<Longrightarrow> term_is_resolved B t \<longleftrightarrow> vars_in_term t \<subseteq> B"
  by (cases t) (auto simp: term_is_resolved_def)

lemma guaranteed_step:
  assumes "positive a" "step_effect B a = Inr eff" "bound \<subseteq> B"
  shows "query_guaranteed_bound_and bound [a] \<subseteq> B \<union> binds eff"
  using assms(1)
proof (cases rule: positive_cases)
  case (Pred p ts)
  have "direct_vars ts \<subseteq> vars_in_terms ts"
    by (auto simp: direct_vars_def vars_in_terms_def split: where_term.split_asm)
  then show ?thesis using Pred assms(2,3) by (auto simp: query_guaranteed_bound_and_def)
next
  case (Cmp op l r)
  have var: "unbound_var C t = Some x \<longleftrightarrow> t = Var x \<and> x \<notin> C" for C t x
    by (cases t) (auto simp: unbound_var_def)
  show ?thesis
  proof (cases "op = u ''eq''")
    case True
    have sub: "vars_in_term t \<subseteq> bound \<Longrightarrow> vars_in_term t \<subseteq> B" for t using assms(3) by blast
    have eff: "(if vars_in_term l \<subseteq> B \<and> vars_in_term r \<subseteq> B then Ok (filter_effect (vars_in_term l \<union> vars_in_term r) {})
          else (case (if vars_in_term l \<subseteq> B then unbound_var B r else None) of
             Some y \<Rightarrow> Ok (filter_effect (vars_in_term l) {y})
           | None \<Rightarrow> (case (if vars_in_term r \<subseteq> B then unbound_var B l else None) of
               Some x \<Rightarrow> Ok (filter_effect (vars_in_term r) {x})
             | None \<Rightarrow> Err WhereASTValidationError))) = Inr eff"
      using assms(2) Cmp True by (simp add: CMP_FILTER_OPS_def Let_def)
    have "apply_cmp_eq_binder op l r bound \<subseteq> B \<union> binds eff"
      using eff assms(3) sub True Cmp(3,4)
      by (auto simp: apply_cmp_eq_binder_def term_is_resolved_iff var filter_effect_def split: if_split_asm option.split_asm)
    then show ?thesis using Cmp(1) by (simp add: query_guaranteed_bound_and_def)
  next
    case False
    then show ?thesis using Cmp assms(3) by (auto simp: query_guaranteed_bound_and_def apply_cmp_eq_binder_def)
  qed
next
  case (In x cs)
  then show ?thesis using assms(3) by (auto simp: query_guaranteed_bound_and_def)
next
  case (Builtin op ts)
  from Builtin(4) show ?thesis
    by (cases rule: builtin_cases)
      (use Builtin(1,3) assms(2,3) in \<open>auto simp: query_guaranteed_bound_and_def builtin_output_var_def filter_effect_def\<close>)
qed

lemma guaranteed_Cons:
  "query_guaranteed_bound_and bound (a # atoms) = query_guaranteed_bound_and (query_guaranteed_bound_and bound [a]) atoms"
  by (simp add: query_guaranteed_bound_and_def)

lemma guaranteed_flow:
  assumes "\<forall>a \<in> set atoms. clause_atom a" "validate_and_dataflow st atoms = Inr st'" "bound \<subseteq> flow_bound st"
  shows "query_guaranteed_bound_and bound atoms \<subseteq> flow_bound st'"
  using assms
proof (induction atoms arbitrary: st bound)
  case Nil
  then show ?case by (simp add: query_guaranteed_bound_and_def)
next
  case (Cons a atoms)
  show ?case
  proof (cases "positive a")
    case True
    from Cons.prems(2) obtain eff where eff: "step_effect (flow_bound st) a = Inr eff"
      "validate_and_dataflow (record_step st eff) atoms = Inr st'"
      by (rule flow_atom) (use True positive_not_Not in auto)
    from guaranteed_step [OF True eff(1) Cons.prems(3)] show ?thesis
      using Cons.prems(1) by (subst guaranteed_Cons, intro Cons.IH [OF _ eff(2)]) auto
  next
    case False
    with Cons.prems(1) obtain e where e: "a = NotAtom e" by (auto simp: clause_atom_def)
    from Cons.prems(2) have "validate_and_dataflow st atoms = Inr st'" by (auto simp: e err_simps split: if_split_asm)
    from Cons.IH [OF _ this Cons.prems(3)] Cons.prems(1) show ?thesis
      by (simp add: e query_guaranteed_bound_and_def)
  qed
qed

lemma foldl_Int: "foldl (\<inter>) b bs = b \<inter> \<Inter> (set bs)"
  by (induction bs arbitrary: b) auto

lemma guaranteed_branch:
  "b \<in> set (branches_of e) \<Longrightarrow> query_guaranteed_bound B e \<subseteq> query_guaranteed_bound_and B b"
  by (cases e) (auto simp: query_guaranteed_bound_def branches_of_def foldl_Int split: list.splits)

lemma validated_rule_where:
  "validate_rule_where e m caps profile = Inr () \<Longrightarrow> validate_where_ast e m caps profile None = Inr ()"
  by (auto simp: validate_rule_where_def catchE_def split: sum.splits if_split_asm)

lemma query_rule_binds:
  assumes "validate_query_rule_ast r (u ''python'') (Some [CapAllowRuleref False]) None = Inr ()"
    and "parse_where_ir_to_ast w = Inr (qr_where r)" "aggregate_free (qr_where r)" "identity_free (qr_where r)"
    and "evaluate_where gate view w [] [] [] = Inr bindings" "env \<in> set bindings"
  shows "set (qr_select_vars r) \<subseteq> bound_vars env"
proof -
  from assms(1) have v: "validate_where_ast (qr_where r) (u ''python'') (Some [CapAllowRuleref False]) None None = Inr ()"
    and g: "set (qr_select_vars r) \<subseteq> query_guaranteed_bound {} (qr_where r)"
    by (auto simp: validate_query_rule_ast_def err_simps validate_query_select_vars_available_def
        dest: validated_rule_where split: if_split_asm)
  from v assms(2) have gate: "where_gate [CapAllowRuleref False] w = Inr ()" by (simp add: where_gate_def)
  from assms(5) obtain bodies where n: "normalize_where w = Inr bodies" "all_bindings gate view bodies = Inr bindings"
    by (auto simp: evaluate_plain err_simps split: if_split_asm)
  have bodies: "bodies = map (map lower_atom) (branches_of (qr_where r))" by (rule normalized_branches [OF assms(2) n(1)])
  from all_bindings_set(1) [OF n(2)] assms(6) obtain b envs where b: "b \<in> set (branches_of (qr_where r))"
    "eval_body gate view [[]] (map lower_atom b) = Inr envs" "env \<in> set envs" unfolding bodies by auto
  note c = clause_conditions [OF gate assms(2-4) b(1)]
  then obtain st where st: "validate_and_dataflow (entry_state {}) b = Inr st" by blast
  have "flow_bound st \<subseteq> bound_vars env"
    using c b by (intro clause_binds [of b, OF _ st, where envs = "[[]]"]) (auto simp: eval_body_branch entry_state_def)
  moreover have "query_guaranteed_bound_and {} b \<subseteq> flow_bound st"
    using c by (intro guaranteed_flow [OF _ st]) (auto simp: entry_state_def)
  ultimately show ?thesis using g guaranteed_branch [OF b(1), of "{}"] by blast
qed

section \<open>Rows\<close>

lemma row_of_binding_returns: "set xs \<subseteq> bound_vars env \<Longrightarrow> \<exists>row. row_of_binding xs env = Inr row"
  by (induction xs) (auto simp: row_of_binding_def bound_vars_def)

lemma row_of_binding_mono:
  "row_of_binding xs env = Inr row \<Longrightarrow> map_of env \<subseteq>\<^sub>m map_of env' \<Longrightarrow> row_of_binding xs env' = Inr row"
proof (induction xs arbitrary: row)
  case (Cons x xs)
  from Cons.prems(1) obtain v vs where v: "dict_get env x = Some v" "row_of_binding xs env = Inr vs" "row = v # vs"
    by (auto simp: row_of_binding_def err_simps split: option.split_asm)
  have "dict_get env' x = Some v" using Cons.prems(2) v(1) by (force simp: map_le_def)
  with Cons.IH [OF v(2) Cons.prems(2)] v(3) show ?case by (simp add: row_of_binding_def)
qed (simp add: row_of_binding_def)

lemma row_of_binding_plain: "row_of_binding xs env = Inr row \<Longrightarrow> plain_env env \<Longrightarrow> v \<in> set row \<Longrightarrow> plain_value v"
  by (induction xs arbitrary: row) (auto simp: row_of_binding_def plain_env_def err_simps split: option.split_asm)

lemma py_distinct_plain:
  assumes "\<forall>v \<in> set vs. \<forall>w \<in> set vs. py_eq v w \<longleftrightarrow> v = w"
  shows "set (py_distinct vs) = set vs \<and> distinct (py_distinct vs)"
  using assms
proof (induction vs)
  case (Cons v vs)
  then have ih: "set (py_distinct vs) = set vs" "distinct (py_distinct vs)" by auto
  then have "filter (\<lambda>w. \<not> py_eq v w) (py_distinct vs) = filter (\<lambda>w. w \<noteq> v) (py_distinct vs)"
    using Cons.prems by (intro filter_cong) auto
  with ih show ?case by auto
qed simp

lemma plain_rows_eq:
  "\<forall>v \<in> set r. plain_value v \<Longrightarrow> \<forall>v \<in> set s. plain_value v \<Longrightarrow> py_eq (PTuple r) (PTuple s) \<longleftrightarrow> r = s"
proof -
  assume "\<forall>v \<in> set r. plain_value v" "\<forall>v \<in> set s. plain_value v"
  then have "list_all2 py_eq r s \<longleftrightarrow> list_all2 (=) r s" by (intro list.rel_cong) auto
  then show ?thesis by (simp add: list.rel_eq)
qed

lemma distinct_rows_plain:
  assumes "\<forall>r \<in> set rows. \<forall>v \<in> set r. plain_value v"
  shows "set (distinct_rows rows) = set rows \<and> distinct (distinct_rows rows)"
proof -
  have "\<forall>v \<in> set (map PTuple rows). \<forall>w \<in> set (map PTuple rows). py_eq v w \<longleftrightarrow> v = w"
    using assms plain_rows_eq by auto
  note d = py_distinct_plain [OF this]
  let ?f = "\<lambda>v. case v of PTuple vs \<Rightarrow> vs | _ \<Rightarrow> []"
  have "inj_on ?f (set (map PTuple rows))" by (auto simp: inj_on_def)
  with d show ?thesis by (auto simp: distinct_rows_def distinct_map image_image)
qed

lemma mapE_keyed: "mapE (\<lambda>x. bindE (f x) (\<lambda>k. Ok (k, x))) xs = Inr ys \<Longrightarrow> map snd ys = xs"
  by (induction xs arbitrary: ys) (auto simp: err_simps)

lemma mapE_set: "mapE f xs = Inr ys \<Longrightarrow> set ys = {y. \<exists>x \<in> set xs. f x = Inr y}"
proof (induction xs arbitrary: ys)
  case (Cons x xs)
  from Cons.prems obtain z zs where z: "f x = Inr z" "mapE f xs = Inr zs" "ys = z # zs" by (auto simp: err_simps)
  from Cons.IH [OF z(2)] z(1,3) show ?case by auto
qed simp

lemma rows_of_bindings:
  assumes "rows_from_bindings bindings select_vars = Inr rows" "\<forall>env \<in> set bindings. plain_env env"
  shows "set rows = {row. \<exists>env \<in> set bindings. row_of_binding select_vars env = Inr row} \<and> distinct rows \<and>
    (\<forall>env \<in> set bindings. \<exists>row. row_of_binding select_vars env = Inr row)"
proof -
  from assms(1) obtain rs keyed where rs: "mapE (row_of_binding select_vars) bindings = Inr rs"
    "mapE (\<lambda>row. bindE (mapE py_str row) (\<lambda>texts. Ok (texts, row))) (distinct_rows rs) = Inr keyed"
    "rows = map snd (sort_key fst keyed)" "distinct (map fst keyed)"
    by (auto simp: rows_from_bindings_def err_simps split: if_split_asm)
  have set_rs: "set rs = {row. \<exists>env \<in> set bindings. row_of_binding select_vars env = Inr row}"
    using mapE_set [OF rs(1)] by blast
  have "\<forall>r \<in> set rs. \<forall>v \<in> set r. plain_value v"
    using assms(2) by (auto simp: set_rs dest: row_of_binding_plain)
  note d = distinct_rows_plain [OF this]
  note k = mapE_keyed [OF rs(2)]
  have "mset rows = mset (distinct_rows rs)"
    unfolding rs(3) k [symmetric] by (metis mset_map mset_sort)
  then have "set rows = set (distinct_rows rs)" "distinct rows = distinct (distinct_rows rs)"
    by (auto dest: mset_eq_setD mset_eq_imp_distinct_iff)
  moreover have "\<forall>env \<in> set bindings. \<exists>row. row_of_binding select_vars env = Inr row"
    using mapE_ex [OF rs(1)] by blast
  ultimately show ?thesis using d set_rs by simp
qed

section \<open>Rules without references\<close>

definition no_rule_refs :: "pyval list \<Rightarrow> bool" where
  "no_rule_refs w \<longleftrightarrow> (\<forall>v \<in> set w. \<not> is_rule_ref v \<and> (case v of PList atoms \<Rightarrow> \<forall>a \<in> set atoms. \<not> is_rule_ref a | _ \<Rightarrow> True))"

lemma rewrite_atom_id: "\<not> is_rule_ref a \<Longrightarrow> rewrite_atom ev reg (m, ov, out) a = Some (Ok (m, ov, out @ [a]))"
  by (auto simp: rewrite_atom_def is_rule_ref_def split: pyval.split list.split)

lemma rewrite_atoms_id:
  "\<forall>a \<in> set atoms. \<not> is_rule_ref a \<Longrightarrow> foldR (rewrite_atom ev reg) (m, ov, out) atoms = Some (Ok (m, ov, out @ atoms))"
  by (induction atoms arbitrary: out) (simp_all add: rewrite_atom_id)

lemma rewrite_branches_id:
  "no_rule_refs w \<Longrightarrow> list_all is_PList w \<Longrightarrow> foldR (rewrite_branch ev reg) (m, ov, out) w = Some (Ok (m, ov, out @ w))"
proof (induction w arbitrary: out)
  case (Cons v w)
  then obtain atoms where v: "v = PList atoms" by (cases v) (auto simp: is_PList_def)
  with Cons show ?case by (simp add: rewrite_branch_def rewrite_atoms_id no_rule_refs_def)
qed simp

lemma rewrite_where_id: "no_rule_refs w \<Longrightarrow> rewrite_where_rule_refs ev reg m w = Some (Ok (m, [], w))"
  by (auto simp: rewrite_where_rule_refs_def rewrite_branches_id rewrite_atoms_id no_rule_refs_def)

lemma evaluate_plain_rule:
  assumes "no_rule_refs (rs_where spec)" "0 < depth"
  shows "evaluate_rule depth gate reg base {} [] spec =
    Some (bindE (rule_rows gate base (rs_where spec) (rs_select_vars spec)) (\<lambda>rows.
      Ok (if rs_expose spec then [(rule_key spec, rows)] else [], rows)))"
  using assms by (cases depth) (simp_all add: rewrite_where_id add_memo_rows_def add_overlay_def cong: if_cong)

lemma run_plain_rule:
  assumes "run_rule depth gate sha L schema_ir spec reg = Some (Ok rows)" "no_rule_refs (rs_where spec)"
  obtains base where "project_view_facts sha L schema_ir = Inr base"
    "rule_rows gate base (rs_where spec) (rs_select_vars spec) = Inr rows"
proof -
  from assms(1) have "0 < depth" by (cases depth) (auto simp: run_rule_def bindR_Ok)
  note e = evaluate_plain_rule [OF assms(2) this]
  from assms(1) obtain base where b: "project_view_facts sha L schema_ir = Inr base"
    "bindR (evaluate_rule depth gate reg base {} [] spec) (\<lambda>(_, rows). Some (Ok rows)) = Some (Ok rows)"
    by (auto simp: run_rule_def bindR_Ok)
  moreover from b(2) have "rule_rows gate base (rs_where spec) (rs_select_vars spec) = Inr rows"
    by (auto simp: e bindR_Ok err_simps)
  ultimately show ?thesis by (intro that)
qed

end
