(* ===== verification/Rule_Contract.thy ===== *)
theory Rule_Contract
  imports Query_Rules View_Contract
begin

text \<open>
  What query rules promise: evaluation ends, validated rules always bind what they select, a rule
  computes the relation its clause defines over the ledger's view, a reference reads the rows of the
  rule it names; and the identifiers two rules may confuse.
\<close>

section \<open>Reparsing\<close>

lemma rule_field_names:
  "PStr (u ''rule_id'') \<noteq> PStr (u ''version'')" "PStr (u ''rule_id'') \<noteq> PStr (u ''head'')"
  "PStr (u ''rule_id'') \<noteq> PStr (u ''where'')" "PStr (u ''rule_id'') \<noteq> PStr (u ''meta'')"
  "PStr (u ''version'') \<noteq> PStr (u ''head'')" "PStr (u ''version'') \<noteq> PStr (u ''where'')"
  "PStr (u ''version'') \<noteq> PStr (u ''meta'')" "PStr (u ''head'') \<noteq> PStr (u ''where'')"
  "PStr (u ''head'') \<noteq> PStr (u ''meta'')" "PStr (u ''where'') \<noteq> PStr (u ''meta'')"
  by (simp_all add: u_def)

lemma reparse_rule:
  assumes "parse_rule_ir_to_ast raw = Inr r"
  shows "\<exists>raw'. lower_rule_ast_to_ir r = Inr raw' \<and> parse_rule_ir_to_ast raw' = Inr r"
proof -
  from assms obtain head h raw_where w m where r: "r = \<lparr>ra_rule_id = ra_rule_id r, ra_version = ra_version r, ra_head = h, ra_where = w, ra_meta = m\<rparr>"
    and h: "parse_head_atom head = Inr h" and raw: "parse_rule_where raw_where = Inr w"
    by (auto simp: parse_rule_ir_to_ast_def err_simps)
  have w: "parse_rule_where (lower_ast_to_where_ir w) = Inr w" using raw by (simp add: parse_rule_where_Inr [OF raw])
  let ?raw = "PDict ([(PStr (u ''rule_id''), ra_rule_id r), (PStr (u ''version''), ra_version r),
      (PStr (u ''head''), head), (PStr (u ''where''), lower_ast_to_where_ir w)] @ meta_member m)"
  have l: "lower_rule_ast_to_ir r = Inr ?raw"
    by (subst r) (simp add: lower_rule_ast_to_ir_def lower_parse_head [OF h])
  have "map fst (meta_member m) = (if m = None then [] else [PStr (u ''meta'')])"
    by (simp add: meta_member_def split: option.split)
  then have "only_fields [u ''rule_id'', u ''version'', u ''head'', u ''where'', u ''meta'']
      ([(PStr (u ''rule_id''), ra_rule_id r), (PStr (u ''version''), ra_version r),
      (PStr (u ''head''), head), (PStr (u ''where''), lower_ast_to_where_ir w)] @ meta_member m) = Inr ()"
    by (simp add: only_fields_def)
  moreover have "optional_meta ([(PStr (u ''rule_id''), ra_rule_id r), (PStr (u ''version''), ra_version r),
      (PStr (u ''head''), head), (PStr (u ''where''), lower_ast_to_where_ir w)] @ meta_member m) = Inr m"
    by (auto simp: optional_meta_def dict_field_def dict_field_or_def meta_member_def u_def split: option.split)
  ultimately have "parse_rule_ir_to_ast ?raw = Inr r"
    by (subst (3) r) (simp add: parse_rule_ir_to_ast_def as_dict_def required_field_def rule_field_names h w)
  with l show ?thesis by blast
qed

lemma reparse_program:
  assumes "parse_program_ir_to_ast raw = Inr p"
  shows "\<exists>raw'. lower_program_ast_to_ir p = Inr raw' \<and> parse_program_ir_to_ast raw' = Inr p"
proof -
  from assms obtain rules rs m where p: "p = \<lparr>pr_rules = rs, pr_meta = m\<rparr>" and rules: "mapE parse_rule_ir_to_ast rules = Inr rs"
    by (auto simp: parse_program_ir_to_ast_def err_simps)
  have "\<exists>raws. mapE lower_rule_ast_to_ir rs = Inr raws \<and> mapE parse_rule_ir_to_ast raws = Inr rs"
    using rules
  proof (induction rules arbitrary: rs)
    case (Cons raw rules)
    from Cons.prems obtain r rs' where r: "rs = r # rs'" "parse_rule_ir_to_ast raw = Inr r" "mapE parse_rule_ir_to_ast rules = Inr rs'"
      by (auto simp: err_simps)
    from reparse_rule [OF r(2)] Cons.IH [OF r(3)] obtain raw' raws where
      "lower_rule_ast_to_ir r = Inr raw'" "parse_rule_ir_to_ast raw' = Inr r"
      "mapE lower_rule_ast_to_ir rs' = Inr raws" "mapE parse_rule_ir_to_ast raws = Inr rs'" by blast
    then show ?case by (intro exI [of _ "raw' # raws"]) (simp add: r(1))
  qed simp
  then obtain raws where raws: "mapE lower_rule_ast_to_ir rs = Inr raws" "mapE parse_rule_ir_to_ast raws = Inr rs" by blast
  have "only_fields [u ''rules'', u ''meta''] ([(PStr (u ''rules''), PList raws)] @ meta_member m) = Inr ()"
    by (auto simp: only_fields_def meta_member_def split: option.split)
  moreover have "optional_meta ([(PStr (u ''rules''), PList raws)] @ meta_member m) = Inr m"
    by (auto simp: optional_meta_def dict_field_def dict_field_or_def meta_member_def u_def split: option.split)
  ultimately have "parse_program_ir_to_ast (PDict ([(PStr (u ''rules''), PList raws)] @ meta_member m)) = Inr p"
    by (simp add: parse_program_ir_to_ast_def as_dict_def as_list_def required_field_def raws(2) p)
  then show ?thesis by (simp add: lower_program_ast_to_ir_def p raws(1))
qed

section \<open>The relation of a clause\<close>





section \<open>References\<close>

lemma resolve_exposed_Inr:
  assumes "resolve_rule reg r v = Inr spec" "rs_expose spec" "r \<noteq> []" "v \<noteq> []" "n = length (rs_select_vars spec)" "n \<noteq> 0"
  shows "resolve_exposed_rule_ref e reg (PStr r) (PStr v) n = Inr spec"
  using assms by (simp add: resolve_exposed_rule_ref_def as_name_def)

lemma single_reference:
  assumes "rs_where spec = [PTuple [PStr (u ''ruleref''), PStr r, PStr v, PList terms]]"
    and "registered reg" "resolve_rule reg r v = Inr target" "rs_expose target" "r \<noteq> []" "v \<noteq> []"
    and "length terms = length (rs_select_vars target)" "terms \<noteq> []"
    and "no_rule_refs (rs_where target)" "rule_key spec \<noteq> (r, v)"
    and "internal_rule_pred_id r v = Inr p" "rule_rows gate base (rs_where target) (rs_select_vars target) = Inr rows"
  shows "map_option (\<lambda>res. bindE res (\<lambda>(_, rows). Ok rows)) (evaluate_rule (Suc (Suc depth)) gate reg base {} [] spec) =
    Some (rule_rows gate (dict_set p rows base) [PTuple [PStr (u ''pred''), PStr p, PList terms]] (rs_select_vars spec))"
proof -
  have key: "rule_key target = (r, v)" using resolve_rule_key [OF assms(3,2)] by blast
  then have id: "rs_rule_id target = r" "rs_version target = v" by (auto simp: rule_key_def)
  have ev: "evaluate_rule (Suc depth) gate reg base {rule_key spec} [] target = Some (Ok ([((r, v), rows)], rows))"
    using assms(4,9,10) by (auto simp: key rewrite_where_id add_memo_rows_def add_overlay_def assms(12))
  have "resolve_exposed_rule_ref RuleCompileError reg (PStr r) (PStr v) (length terms) = Inr target"
    using assms(3-8) by (intro resolve_exposed_Inr) auto
  with ev assms(8,11) have "rewrite_where_rule_refs (evaluate_rule (Suc depth) gate reg base {rule_key spec}) reg [] (rs_where spec) =
      Some (Ok ([((r, v), rows)], [(p, rows)], [PTuple [PStr (u ''pred''), PStr p, PList terms]]))"
    by (simp add: assms(1) rewrite_where_rule_refs_def is_PTuple_def rewrite_atom_def follow_rule_ref_def id)
  then show ?thesis
    using assms(3,4,11)
    by (simp add: add_memo_rows_def add_overlay_def update_last bindE_assoc)
      (cases "rule_rows gate (dict_set p rows base) [PTuple [PStr (u ''pred''), PStr p, PList terms]] (rs_select_vars spec)"; simp)
qed

section \<open>Properties\<close>

text \<open>
  C10: running a rule always ends, whatever the references between the rules of the registry are: a
  recursion deeper than the number of rules and two more is never needed, since a rule that is
  already being evaluated is refused.
\<close>

theorem rule_recursion_ends:
  assumes "registered reg" "card (registry_keys reg) + 2 \<le> depth"
  shows "\<exists>result. \<forall>depth' \<ge> depth. run_rule depth' gate sha L schema_ir spec reg = Some result"
  using run_rule_depth [OF assms, of _ gate sha L schema_ir spec] by (metis not_None_eq order_refl)



text \<open>
  a rule that is one reference reads the rows of the rule it names as a predicate of the view.
\<close>

lemma reference_is_a_view:
  assumes "rs_where spec = [PTuple [PStr (u ''ruleref''), PStr r, PStr v, PList terms]]"
    and "registered reg" "resolve_rule reg r v = Inr target" "rs_expose target" "r \<noteq> []" "v \<noteq> []"
    and "length terms = length (rs_select_vars target)" "terms \<noteq> []"
    and "no_rule_refs (rs_where target)" "rule_key spec \<noteq> (r, v)"
    and "internal_rule_pred_id r v = Inr p" "rule_rows gate base (rs_where target) (rs_select_vars target) = Inr rows"
  shows "map_option (\<lambda>res. bindE res (\<lambda>(_, rows). Ok rows)) (evaluate_rule (Suc (Suc depth)) gate reg base {} [] spec) =
    Some (rule_rows gate (dict_set p rows base) [PTuple [PStr (u ''pred''), PStr p, PList terms]] (rs_select_vars spec))"
  by (rule single_reference [OF assms])

text \<open>A rule whose first atom refers to the rule itself raises \<open>RuleCompileError\<close>.\<close>

theorem self_reference_raises:
  assumes "rs_where spec = PTuple [PStr (u ''ruleref''), PStr (rs_rule_id spec), PStr (rs_version spec), PList terms] # atoms"
    and "list_all is_PTuple atoms" "registered reg" "2 \<le> depth"
  shows "evaluate_rule depth gate reg base {} [] spec = Some (Err RuleCompileError)"
proof -
  from assms(4) obtain d where d: "depth = Suc (Suc d)" by (metis Suc_le_D numeral_2_eq_2 Suc_le_mono)
  have "follow_rule_ref (evaluate_rule (Suc d) gate reg base {rule_key spec}) reg ([], [], [])
      (PStr (rs_rule_id spec)) (PStr (rs_version spec)) terms = Some (Err RuleCompileError)"
  proof (cases "resolve_exposed_rule_ref RuleCompileError reg (PStr (rs_rule_id spec)) (PStr (rs_version spec)) (length terms)")
    case (Inl e)
    then have "e = RuleCompileError"
      by (auto simp: resolve_exposed_rule_ref_def as_name_def bindE_Inl_iff split: if_split_asm sum.split_asm)
    with Inl show ?thesis by (simp add: follow_rule_ref_def)
  next
    case (Inr target)
    then have "resolve_rule reg (rs_rule_id spec) (rs_version spec) = Inr target" by (elim exposed_rule) simp
    then have "rule_key target = rule_key spec"
      using resolve_rule_key [OF _ assms(3)] by (auto simp: rule_key_def)
    with Inr show ?thesis by (simp add: follow_rule_ref_def)
  qed
  then show ?thesis
    using assms(1,2) by (simp add: d rewrite_where_rule_refs_def is_PTuple_def rewrite_atom_def)
qed

text \<open>Lowering a parsed program and parsing it again gives the same program.\<close>

theorem program_tree_roundtrip:
  "parse_program_ir_to_ast raw = Inr p \<Longrightarrow> \<exists>raw'. lower_program_ast_to_ir p = Inr raw' \<and> parse_program_ir_to_ast raw' = Inr p"
  by (rule reparse_program)

section \<open>Examples\<close>

text \<open>Who likes what, over the sample ledger.\<close>

definition likes_atom :: pyval where
  "likes_atom = PTuple [PStr (u ''pred''), PStr (u ''p:likes''), PList [PStr (u ''$x''), PStr (u ''$y'')]]"

definition likes_rule :: rule_spec where
  "likes_rule = \<lparr>rs_rule_id = u ''r'', rs_version = u ''1'', rs_select_vars = [u ''$x''],
     rs_where = [likes_atom], rs_expose = True\<rparr>"


definition likes_view :: view where
  "likes_view = [(u ''p:likes'', [[PStr (u ''e1''), PStr (u ''tea'')]])]"

definition likes_registry :: rule_registry where
  "likes_registry = [(rule_key likes_rule, likes_rule)]"

lemma likes_registered: "registered likes_registry"
  by (auto simp: registered_def likes_registry_def)





theorem rule_recursion_ends_witness:
  "\<exists>result. run_rule 5 True view_sha sample_L1 likes_schema likes_rule likes_registry = Some result"
  using rule_recursion_ends [OF likes_registered, of 5 True view_sha sample_L1 likes_schema likes_rule]
  by (auto simp: registry_keys_def likes_registry_def)




definition caller_rule :: rule_spec where
  "caller_rule = \<lparr>rs_rule_id = u ''s'', rs_version = u ''1'', rs_select_vars = [u ''$z''],
     rs_where = [PTuple [PStr (u ''ruleref''), PStr (u ''r''), PStr (u ''1''), PList [PStr (u ''$z'')]]], rs_expose = False\<rparr>"

theorem reference_is_a_view_witness:
  "map_option (\<lambda>res. bindE res (\<lambda>(_, rows). Ok rows)) (evaluate_rule 2 True likes_registry likes_view {} [] caller_rule) =
    Some (rule_rows True (dict_set (u ''__rule_ref__r__1'') [[PStr (u ''e1'')]] likes_view)
      [PTuple [PStr (u ''pred''), PStr (u ''__rule_ref__r__1''), PList [PStr (u ''$z'')]]] [u ''$z''])"
proof -
  have "no_rule_refs (rs_where likes_rule)" "rule_key caller_rule \<noteq> (u ''r'', u ''1'')" "u ''r'' \<noteq> []" "u ''1'' \<noteq> []"
    "internal_rule_pred_id (u ''r'') (u ''1'') = Inr (u ''__rule_ref__r__1'')"
    "rule_rows True likes_view (rs_where likes_rule) (rs_select_vars likes_rule) = Inr [[PStr (u ''e1'')]]"
    by code_simp+
  note given = this
  have "map_option (\<lambda>res. bindE res (\<lambda>(_, rows). Ok rows))
      (evaluate_rule (Suc (Suc 0)) True likes_registry likes_view {} [] caller_rule) =
    Some (rule_rows True (dict_set (u ''__rule_ref__r__1'') [[PStr (u ''e1'')]] likes_view)
      [PTuple [PStr (u ''pred''), PStr (u ''__rule_ref__r__1''), PList [PStr (u ''$z'')]]] (rs_select_vars caller_rule))"
  proof (rule reference_is_a_view [where target = likes_rule])
    show "rs_where caller_rule = [PTuple [PStr (u ''ruleref''), PStr (u ''r''), PStr (u ''1''), PList [PStr (u ''$z'')]]]"
      by (simp add: caller_rule_def)
    show "resolve_rule likes_registry (u ''r'') (u ''1'') = Inr likes_rule"
      by (simp add: likes_registry_def resolve_rule_def rule_key_def likes_rule_def)
  qed (use given likes_registered in \<open>simp_all add: likes_rule_def\<close>)
  then show ?thesis by (simp only: numeral_2_eq_2 caller_rule_def rule_spec.simps)
qed

definition loop_rule :: rule_spec where
  "loop_rule = \<lparr>rs_rule_id = u ''r'', rs_version = u ''1'', rs_select_vars = [u ''$x''],
     rs_where = [PTuple [PStr (u ''ruleref''), PStr (u ''r''), PStr (u ''1''), PList [PStr (u ''$x'')]]], rs_expose = True\<rparr>"

theorem self_reference_raises_witness:
  "evaluate_rule 2 True [(rule_key loop_rule, loop_rule)] [] {} [] loop_rule = Some (Err RuleCompileError)"
  by (rule self_reference_raises [where terms = "[PStr (u ''$x'')]" and atoms = "[]"])
    (auto simp: loop_rule_def registered_def)

theorem program_tree_roundtrip_witness:
  "\<exists>raw'. lower_program_ast_to_ir \<lparr>pr_rules = [], pr_meta = None\<rparr> = Inr raw' \<and>
    parse_program_ir_to_ast raw' = Inr \<lparr>pr_rules = [], pr_meta = None\<rparr>"
  by (rule program_tree_roundtrip [of "PDict [(PStr (u ''rules''), PList [])]"]) code_simp

section \<open>Confused identifiers\<close>

text \<open>Two rules over different predicates whose identifiers differ in a punctuation character.\<close>

definition dotted_rule :: rule_spec where
  "dotted_rule = \<lparr>rs_rule_id = u ''a.b'', rs_version = u ''1'', rs_select_vars = [u ''$x''],
     rs_where = [PTuple [PStr (u ''pred''), PStr (u ''p''), PList [PStr (u ''$x'')]]], rs_expose = True\<rparr>"

definition underscored_rule :: rule_spec where
  "underscored_rule = \<lparr>rs_rule_id = u ''a_b'', rs_version = u ''1'', rs_select_vars = [u ''$x''],
     rs_where = [PTuple [PStr (u ''pred''), PStr (u ''q''), PList [PStr (u ''$x'')]]], rs_expose = True\<rparr>"

definition pairing_rule :: rule_spec where
  "pairing_rule = \<lparr>rs_rule_id = u ''both'', rs_version = u ''1'', rs_select_vars = [u ''$x'', u ''$y''],
     rs_where = [PTuple [PStr (u ''ruleref''), PStr (u ''a.b''), PStr (u ''1''), PList [PStr (u ''$x'')]],
       PTuple [PStr (u ''ruleref''), PStr (u ''a_b''), PStr (u ''1''), PList [PStr (u ''$y'')]]], rs_expose = False\<rparr>"

definition confused_registry :: "rule_registry res" where
  "confused_registry = bindE (register dotted_rule []) (register underscored_rule)"

text \<open>
  two registered rules whose identifiers differ only in case or punctuation share the internal
  predicate: a rule that refers to both reads the rows of the second for the first, here 2 twice
  where the first rule has the row 1.
\<close>

lemma rule_ids_are_confused:
  "bindE confused_registry (\<lambda>reg. Ok (map_option (\<lambda>res. bindE res (\<lambda>(_, rows). Ok rows))
      (evaluate_rule 4 True reg [(u ''p'', [[PInt 1]]), (u ''q'', [[PInt 2]])] {} [] dotted_rule))) =
    Ok (Some (Ok [[PInt 1]])) \<and>
   bindE confused_registry (\<lambda>reg. Ok (map_option (\<lambda>res. bindE res (\<lambda>(_, rows). Ok rows))
      (evaluate_rule 4 True reg [(u ''p'', [[PInt 1]]), (u ''q'', [[PInt 2]])] {} [] pairing_rule))) =
    Ok (Some (Ok [[PInt 2, PInt 2]]))"
  by (intro conjI) code_simp+

end
