(* ===== verification/Database_Bytes.thy ===== *)
theory Database_Bytes
  imports Ledger_Codec Lt_Hash Id_Ref Meta_Policy Py_Json
begin

text \<open>
  The canonical bytes of \<^verbatim>\<open>core/store/database.py\<close>: tokens, metadata entries, transaction
  operations, and the byte strings whose SHA-256 is the id of a transaction, the digest of an
  assertion or of a view.  The second half shows what the bytes determine.
\<close>

section \<open>Fields and tokens\<close>

definition DBTX_V1_PREFIX :: bytes where
  "DBTX_V1_PREFIX = map of_nat (u ''factpy'' @ [0] @ u ''dbtx_v1'' @ [0])"
definition DBTX_V2_PREFIX :: bytes where
  "DBTX_V2_PREFIX = map of_nat (u ''factgraph'' @ [0] @ u ''dbtx_v2'' @ [0])"
definition DBTX_V2_META_DEFAULTS_SUFFIX :: bytes where
  "DBTX_V2_META_DEFAULTS_SUFFIX = map of_nat ([0] @ u ''factgraph'' @ [0] @ u ''tx_meta_defaults_v1'' @ [0])"
definition DBSTATE_ELEMENT_V2_PREFIX :: bytes where
  "DBSTATE_ELEMENT_V2_PREFIX = map of_nat (u ''factgraph'' @ [0] @ u ''dbstate_element_v2'' @ [0])"
definition DBDATA_V1_PREFIX :: bytes where
  "DBDATA_V1_PREFIX = map of_nat (u ''factpy'' @ [0] @ u ''dbdata_v1'' @ [0])"
definition ASSERTION_V1_PREFIX :: bytes where
  "ASSERTION_V1_PREFIX = map of_nat (u ''factpy'' @ [0] @ u ''assertion_v1'' @ [0])"
definition VIEW_V1_PREFIX :: bytes where
  "VIEW_V1_PREFIX = map of_nat (u ''factpy'' @ [0] @ u ''subset_view_v1'' @ [0])"

definition LTHASH_SCHEME :: ustr where "LTHASH_SCHEME = u ''lthash16-v2''"

definition u64be :: "nat \<Rightarrow> bytes res" where
  "u64be n = (if n < 2 ^ 64 then Ok (be_bytes 8 n) else Err DatabaseError)"

definition bytes_field :: "bytes \<Rightarrow> bytes res" where
  "bytes_field b = bindE (u32be (length b)) (\<lambda>n. Ok (n @ b))"

definition str_field :: "ustr \<Rightarrow> bytes res" where
  "str_field s = bindE (utf8_encode s) bytes_field"

definition require_token :: "ustr \<Rightarrow> pyval \<Rightarrow> ustr res" where
  "require_token prefix value = (case value of
      PStr s \<Rightarrow>
        if \<not> starts_with s prefix then Err DatabaseError
        else if length (drop (length prefix) s) \<noteq> 64 \<or> \<not> list_all is_hex (drop (length prefix) s) then Err DatabaseError
        else Ok s
    | _ \<Rightarrow> Err DatabaseError)"

definition require_db_id :: "pyval \<Rightarrow> ustr res" where
  "require_db_id value = (case value of
      PStr s \<Rightarrow> if starts_with s (u ''db:'') \<or> starts_with s (u ''mem:'') then Ok s else Err DatabaseError
    | _ \<Rightarrow> Err DatabaseError)"

definition require_asrt_id :: "pyval \<Rightarrow> ustr res" where
  "require_asrt_id value = (case value of
      PStr s \<Rightarrow>
        (let suffix = (if starts_with s (u ''asrt:'') then drop 5 s else s)
         in if length suffix \<notin> {32, 64} \<or> \<not> list_all is_hex suffix then Err DatabaseError else Ok s)
    | _ \<Rightarrow> Err DatabaseError)"

section \<open>Metadata entries\<close>

record meta_entry =
  me_key :: ustr
  me_kind :: ustr
  me_value :: pyval

text \<open>A metadata event of a transaction: an entry, or an explicit UNSET of a key.\<close>

datatype meta_change = SetMeta meta_entry | UnsetMeta ustr

definition normalize_meta_entry :: "meta_entry \<Rightarrow> meta_entry res" where
  "normalize_meta_entry e =
     (if me_key e = [] then Err DatabaseError
      else if me_kind e \<notin> set META_KINDS then Err DatabaseError
      else Ok e)"

definition normalize_meta_entries :: "meta_entry list \<Rightarrow> meta_entry list res" where
  "normalize_meta_entries rows = mapE normalize_meta_entry rows"

definition db_require_int64 :: "int \<Rightarrow> unit res" where
  "db_require_int64 i = (if i < INT64_MIN \<or> INT64_MAX < i then Err DatabaseError else Ok ())"

definition meta_value_bytes :: "ustr \<Rightarrow> pyval \<Rightarrow> bytes res" where
  "meta_value_bytes kind v =
     (if kind = u ''str'' then (case v of PStr s \<Rightarrow> utf8_encode s | _ \<Rightarrow> Err DatabaseError)
      else if kind = u ''int'' then
        (case v of PInt i \<Rightarrow> bindE (db_require_int64 i) (\<lambda>_. Ok (map of_nat (dec_int i))) | _ \<Rightarrow> Err DatabaseError)
      else if kind = u ''float'' then
        (case v of
          PInt i \<Rightarrow> bindE (float_of_int i) (\<lambda>n. Ok (be_bytes 8 (zero_float n)))
        | PFloat w \<Rightarrow>
            if \<not> float64_finite (unat w) then Err DatabaseError else Ok (be_bytes 8 (zero_float (unat w)))
        | _ \<Rightarrow> Err DatabaseError)
      else if kind = u ''bool'' then (case v of PBool b \<Rightarrow> Ok (if b then [1] else [0]) | _ \<Rightarrow> Err DatabaseError)
      else if kind = u ''time'' then
        (case v of PInt i \<Rightarrow> bindE (db_require_int64 i) (\<lambda>_. Ok (pack_q i)) | _ \<Rightarrow> Err DatabaseError)
      else if kind = u ''json'' then bindE (to_jsonable v) (\<lambda>j. bindE (json_dumps j) utf8_encode)
      else Err DatabaseError)"

definition encode_meta_change :: "meta_change \<Rightarrow> (ustr \<times> ustr \<times> bytes) res" where
  "encode_meta_change c = (case c of
      SetMeta e \<Rightarrow> bindE (meta_value_bytes (me_kind e) (me_value e)) (\<lambda>b. Ok (me_key e, me_kind e, b))
    | UnsetMeta k \<Rightarrow> Ok (k, [], []))"

definition encoded_entry_bytes :: "ustr \<times> ustr \<times> bytes \<Rightarrow> bytes res" where
  "encoded_entry_bytes x = (case x of (key, kind, b) \<Rightarrow>
     bindE (str_field key) (\<lambda>k. bindE (str_field kind) (\<lambda>d. bindE (bytes_field b) (\<lambda>v. Ok (k @ d @ v)))))"

definition canonical_meta_entries_bytes :: "meta_change list \<Rightarrow> bytes res" where
  "canonical_meta_entries_bytes rows =
     bindE (mapE encode_meta_change rows) (\<lambda>encoded.
     bindE (u32be (length encoded)) (\<lambda>n.
     bindE (concatE encoded_entry_bytes (sort_key id encoded)) (\<lambda>out. Ok (n @ out))))"

text \<open>The keys the Database and the write protocol keep for themselves.\<close>

definition RESERVED_ASSERTION_META_KEYS :: "ustr list" where
  "RESERVED_ASSERTION_META_KEYS = [u ''assertion_digest'', u ''schema_digest'', u ''tx_id'']"

definition reject_reserved_meta_keys :: "ustr list \<Rightarrow> unit res" where
  "reject_reserved_meta_keys ks =
     (if list_ex (\<lambda>k. is_reserved_annotation_meta_key (MKey k)) ks then Err DatabaseError
      else if set ks \<inter> set RESERVED_ASSERTION_META_KEYS \<noteq> {} then Err DatabaseError
      else Ok ())"

definition reject_system_managed_meta_keys :: "ustr list \<Rightarrow> unit res" where
  "reject_system_managed_meta_keys ks =
     (if set ks \<inter> set SYSTEM_MANAGED_META_KEYS \<noteq> {} then Err DatabaseError else Ok ())"

definition reject_duplicate_initial_meta_keys :: "meta_entry list \<Rightarrow> unit res" where
  "reject_duplicate_initial_meta_keys rows =
     (if distinct (map me_key rows) then Ok () else Err DatabaseError)"

definition normalize_tx_meta_defaults :: "meta_entry list \<Rightarrow> meta_entry list res" where
  "normalize_tx_meta_defaults rows =
     bindE (normalize_meta_entries rows) (\<lambda>entries.
       let ks = map me_key entries in
       if \<not> distinct ks then Err DatabaseError
       else bindE (reject_reserved_meta_keys ks) (\<lambda>_.
            bindE (reject_system_managed_meta_keys ks) (\<lambda>_.
            if list_ex (\<lambda>k. starts_with k SYSTEM_PREFIX) ks then Err DatabaseError
            else Ok (sort_key me_key entries))))"

section \<open>Transaction operations\<close>

datatype tx_op =
    OpAssertion (op_asrt: ustr) (op_digest: ustr)
  | OpRevocation (op_revoker: ustr) (op_revoked: ustr) (op_meta: "meta_entry list")
  | OpAppendMeta (op_target: ustr) (op_change: meta_change)
  | OpSchemaChange (op_old: ustr) (op_new: ustr)
  | OpRepairAdd (op_added: ustr)
  | OpRepairRemove (op_removed: ustr)
  | OpRepair (op_previous: ustr) (op_rebuilt: ustr) (op_reason: ustr)

definition normalize_tx_operation :: "tx_op \<Rightarrow> tx_op res" where
  "normalize_tx_operation op = (case op of
      OpAssertion a d \<Rightarrow>
        bindE (require_asrt_id (PStr a)) (\<lambda>_. bindE (require_token (u ''sha256:'') (PStr d)) (\<lambda>_. Ok op))
    | OpRevocation r t meta \<Rightarrow>
        bindE (require_asrt_id (PStr r)) (\<lambda>_. bindE (require_asrt_id (PStr t)) (\<lambda>_.
        bindE (normalize_meta_entries meta) (\<lambda>_. Ok op)))
    | OpAppendMeta a c \<Rightarrow>
        bindE (case c of
            UnsetMeta _ \<Rightarrow> Ok ()
          | SetMeta e \<Rightarrow> bindE (normalize_meta_entry e) (\<lambda>_. bindE (meta_value_bytes (me_kind e) (me_value e)) (\<lambda>_. Ok ())))
          (\<lambda>_. bindE (require_asrt_id (PStr a)) (\<lambda>_. Ok op))
    | OpSchemaChange old new \<Rightarrow>
        bindE (require_token (u ''sha256:'') (PStr old)) (\<lambda>_. bindE (require_token (u ''sha256:'') (PStr new)) (\<lambda>_.
        if old = new then Err DatabaseError else Ok op))
    | OpRepairAdd a \<Rightarrow> bindE (require_asrt_id (PStr a)) (\<lambda>_. Ok op)
    | OpRepairRemove a \<Rightarrow> bindE (require_asrt_id (PStr a)) (\<lambda>_. Ok op)
    | OpRepair previous rebuilt reason \<Rightarrow>
        if previous = [] then Err DatabaseError
        else bindE (decode_state (PStr rebuilt)) (\<lambda>_. if reason = [] then Err DatabaseError else Ok op))"

definition normalize_tx_operations :: "tx_op list \<Rightarrow> tx_op list res" where
  "normalize_tx_operations ops = mapE normalize_tx_operation ops"

definition op_bytes :: "tx_op \<Rightarrow> bytes res" where
  "op_bytes op = (case op of
      OpAssertion a d \<Rightarrow> bindE (str_field a) (\<lambda>x. bindE (str_field d) (\<lambda>y. Ok ([65] @ x @ y)))
    | OpRevocation r t meta \<Rightarrow>
        bindE (str_field r) (\<lambda>x. bindE (str_field t) (\<lambda>y.
        bindE (canonical_meta_entries_bytes (map SetMeta meta)) (\<lambda>m. bindE (bytes_field m) (\<lambda>z. Ok ([82] @ x @ y @ z)))))
    | OpAppendMeta a c \<Rightarrow>
        bindE (str_field a) (\<lambda>x.
        bindE (canonical_meta_entries_bytes [c]) (\<lambda>m. bindE (bytes_field m) (\<lambda>y. Ok ([77] @ x @ y))))
    | OpSchemaChange old new \<Rightarrow> bindE (str_field old) (\<lambda>x. bindE (str_field new) (\<lambda>y. Ok ([83] @ x @ y)))
    | OpRepairAdd a \<Rightarrow> bindE (str_field a) (\<lambda>x. Ok ([43] @ x))
    | OpRepairRemove a \<Rightarrow> bindE (str_field a) (\<lambda>x. Ok ([45] @ x))
    | OpRepair previous rebuilt reason \<Rightarrow>
        bindE (str_field previous) (\<lambda>x. bindE (str_field rebuilt) (\<lambda>y. bindE (str_field reason) (\<lambda>z. Ok ([80] @ x @ y @ z)))))"

section \<open>Canonical bytes and ids\<close>

definition parent_bytes :: "ustr option \<Rightarrow> bytes res" where
  "parent_bytes parent = (case parent of None \<Rightarrow> Ok [0] | Some p \<Rightarrow> bindE (str_field p) (\<lambda>x. Ok ([1] @ x)))"

definition require_parent :: "ustr option \<Rightarrow> unit res" where
  "require_parent parent =
     (case parent of None \<Rightarrow> Ok () | Some p \<Rightarrow> bindE (require_token (u ''tx:'') (PStr p)) (\<lambda>_. Ok ()))"

definition defaults_bytes :: "meta_entry list \<Rightarrow> bytes res" where
  "defaults_bytes defaults =
     (if defaults = [] then Ok []
      else bindE (canonical_meta_entries_bytes (map SetMeta defaults)) (\<lambda>m. Ok (DBTX_V2_META_DEFAULTS_SUFFIX @ m)))"

definition canonical_bytes_dbtx_v2 ::
  "ustr option \<Rightarrow> ustr \<Rightarrow> ustr \<Rightarrow> nat \<Rightarrow> tx_op list \<Rightarrow> meta_entry list \<Rightarrow> bytes res" where
  "canonical_bytes_dbtx_v2 parent schema_digest scheme tx_seq ops defaults =
     bindE (require_parent parent) (\<lambda>_.
     bindE (require_token (u ''sha256:'') (PStr schema_digest)) (\<lambda>_.
     if scheme \<noteq> LTHASH_SCHEME then Err DatabaseError
     else
       bindE (normalize_tx_operations ops) (\<lambda>normalized.
       bindE (normalize_tx_meta_defaults defaults) (\<lambda>normalized_defaults.
       bindE (parent_bytes parent) (\<lambda>p.
       bindE (str_field schema_digest) (\<lambda>s.
       bindE (str_field scheme) (\<lambda>d.
       bindE (u64be tx_seq) (\<lambda>q.
       bindE (u32be (length normalized)) (\<lambda>n.
       bindE (concatE op_bytes normalized) (\<lambda>body.
       bindE (defaults_bytes normalized_defaults) (\<lambda>tail.
         Ok (DBTX_V2_PREFIX @ p @ s @ d @ q @ n @ body @ tail))))))))))))"

definition tx_id_for_v2 ::
  "(bytes \<Rightarrow> bytes) \<Rightarrow> ustr option \<Rightarrow> ustr \<Rightarrow> ustr \<Rightarrow> nat \<Rightarrow> tx_op list \<Rightarrow> meta_entry list \<Rightarrow> ustr res" where
  "tx_id_for_v2 sha parent schema_digest scheme tx_seq ops defaults =
     bindE (canonical_bytes_dbtx_v2 parent schema_digest scheme tx_seq ops defaults) (\<lambda>b.
       Ok (u ''tx:'' @ sha256_hex sha b))"

definition canonical_bytes_dbtx_v1 :: "ustr option \<Rightarrow> ustr \<Rightarrow> ustr list \<Rightarrow> ustr \<Rightarrow> bytes res" where
  "canonical_bytes_dbtx_v1 parent schema_digest added data_digest =
     bindE (require_parent parent) (\<lambda>_.
     bindE (require_token (u ''sha256:'') (PStr schema_digest)) (\<lambda>_.
     bindE (require_token (u ''sha256:'') (PStr data_digest)) (\<lambda>_.
     bindE (mapE (\<lambda>d. require_token (u ''sha256:'') (PStr d)) added) (\<lambda>digests.
     bindE (parent_bytes parent) (\<lambda>p.
     bindE (str_field schema_digest) (\<lambda>s.
     bindE (u32be (length digests)) (\<lambda>n.
     bindE (concatE str_field (sort_key id digests)) (\<lambda>body.
     bindE (str_field data_digest) (\<lambda>d.
       Ok (DBTX_V1_PREFIX @ p @ s @ n @ body @ d))))))))))"

definition tx_id_for :: "(bytes \<Rightarrow> bytes) \<Rightarrow> ustr option \<Rightarrow> ustr \<Rightarrow> ustr list \<Rightarrow> ustr \<Rightarrow> ustr res" where
  "tx_id_for sha parent schema_digest added data_digest =
     bindE (canonical_bytes_dbtx_v1 parent schema_digest added data_digest) (\<lambda>b. Ok (u ''tx:'' @ sha256_hex sha b))"

definition canonical_bytes_dbdata_v1 :: "ustr list \<Rightarrow> bytes res" where
  "canonical_bytes_dbdata_v1 ids =
     bindE (mapE (\<lambda>a. require_token (u ''asrt:'') (PStr a)) ids) (\<lambda>checked.
     bindE (u32be (length checked)) (\<lambda>n.
     bindE (concatE str_field (sort_key id checked)) (\<lambda>body. Ok (DBDATA_V1_PREFIX @ n @ body))))"

definition normalize_view_asrt_ids :: "ustr list \<Rightarrow> ustr list res" where
  "normalize_view_asrt_ids ids =
     bindE (mapE (\<lambda>a. require_asrt_id (PStr a)) ids) (\<lambda>checked. Ok (sorted_list_of_set (set checked)))"

definition canonical_bytes_view_v1 :: "ustr \<Rightarrow> ustr \<Rightarrow> ustr \<Rightarrow> ustr list \<Rightarrow> bytes res" where
  "canonical_bytes_view_v1 db_id base_tx_id schema_digest ids =
     bindE (require_db_id (PStr db_id)) (\<lambda>_.
     bindE (require_token (u ''tx:'') (PStr base_tx_id)) (\<lambda>_.
     bindE (require_token (u ''sha256:'') (PStr schema_digest)) (\<lambda>_.
     bindE (normalize_view_asrt_ids ids) (\<lambda>sorted_ids.
     bindE (str_field db_id) (\<lambda>x.
     bindE (str_field base_tx_id) (\<lambda>y.
     bindE (str_field schema_digest) (\<lambda>z.
     bindE (u32be (length sorted_ids)) (\<lambda>n.
     bindE (concatE str_field sorted_ids) (\<lambda>body.
       Ok (VIEW_V1_PREFIX @ x @ y @ z @ n @ body))))))))))"

definition view_digest_for :: "(bytes \<Rightarrow> bytes) \<Rightarrow> ustr \<Rightarrow> ustr \<Rightarrow> ustr \<Rightarrow> ustr list \<Rightarrow> ustr res" where
  "view_digest_for sha db_id base_tx_id schema_digest ids =
     bindE (canonical_bytes_view_v1 db_id base_tx_id schema_digest ids) (\<lambda>b. Ok (sha256_token sha b))"

text \<open>The tuple is a Python tuple of pairs whose first one is the entity reference.\<close>

definition normalize_fact_tuple :: "pyval \<Rightarrow> pyval list res" where
  "normalize_fact_tuple fact_tuple = (case fact_tuple of
      PTuple (PTuple [tag, e_ref] # rest) \<Rightarrow>
        if tag \<noteq> PStr (u ''entity_ref'') then Err DatabaseError
        else bindE (canonical_bytes_tup_v1 (PTuple [tag, e_ref] # rest)) (\<lambda>_. Ok (PTuple [tag, e_ref] # rest))
    | _ \<Rightarrow> Err DatabaseError)"

definition canonical_bytes_assertion_v1 :: "ustr \<Rightarrow> pyval \<Rightarrow> ustr \<Rightarrow> meta_entry list \<Rightarrow> bytes res" where
  "canonical_bytes_assertion_v1 pred_id fact_tuple schema_digest meta =
     (if pred_id = [] then Err DatabaseError
      else
        bindE (require_token (u ''sha256:'') (PStr schema_digest)) (\<lambda>_.
        bindE (normalize_fact_tuple fact_tuple) (\<lambda>facts.
        bindE (normalize_meta_entries meta) (\<lambda>entries.
        bindE (canonical_bytes_tup_v1 facts) (\<lambda>fact_bytes.
        bindE (canonical_meta_entries_bytes (map SetMeta entries)) (\<lambda>meta_bytes.
        bindE (str_field pred_id) (\<lambda>p.
        bindE (bytes_field fact_bytes) (\<lambda>f.
        bindE (str_field schema_digest) (\<lambda>s.
        bindE (bytes_field meta_bytes) (\<lambda>m.
          Ok (ASSERTION_V1_PREFIX @ p @ f @ s @ m)))))))))))"

definition assertion_digest_for :: "(bytes \<Rightarrow> bytes) \<Rightarrow> ustr \<Rightarrow> pyval \<Rightarrow> ustr \<Rightarrow> meta_entry list \<Rightarrow> ustr res" where
  "assertion_digest_for sha pred_id fact_tuple schema_digest meta =
     bindE (canonical_bytes_assertion_v1 pred_id fact_tuple schema_digest meta) (\<lambda>b. Ok (sha256_token sha b))"

definition asrt_id_for :: "(bytes \<Rightarrow> bytes) \<Rightarrow> ustr \<Rightarrow> pyval \<Rightarrow> ustr \<Rightarrow> meta_entry list \<Rightarrow> ustr res" where
  "asrt_id_for sha pred_id fact_tuple schema_digest meta =
     bindE (canonical_bytes_assertion_v1 pred_id fact_tuple schema_digest meta) (\<lambda>b.
       Ok (u ''asrt:'' @ sha256_hex sha b))"

definition db_state_element :: "ustr \<Rightarrow> ustr \<Rightarrow> bytes res" where
  "db_state_element a d =
     bindE (require_asrt_id (PStr a)) (\<lambda>_. bindE (require_token (u ''sha256:'') (PStr d)) (\<lambda>_.
     bindE (str_field a) (\<lambda>x. bindE (str_field d) (\<lambda>y. Ok (DBSTATE_ELEMENT_V2_PREFIX @ x @ y)))))"

end
