(* ===== verification/Database_Digests.thy ===== *)
theory Database_Digests
  imports Database_Bytes
begin

text \<open>
  What the canonical bytes of \<open>Database_Bytes\<close> determine.  Every field is length-framed, so a
  byte string can be cut into its fields in one way only; metadata is committed as a multiset of
  encoded entries, everything else exactly.
\<close>

section \<open>Self-delimiting encodings\<close>

text \<open>Two encodings that start a common byte string are encodings of related things and end together.\<close>

definition self_delimiting :: "('a \<Rightarrow> 'a \<Rightarrow> bool) \<Rightarrow> ('a \<Rightarrow> bytes res) \<Rightarrow> bool" where
  "self_delimiting R f \<longleftrightarrow>
     (\<forall>x y a b r s. f x = Inr a \<longrightarrow> f y = Inr b \<longrightarrow> a @ r = b @ s \<longrightarrow> R x y \<and> r = s)"

lemma self_delimitingI:
  "(\<And>x y a b r s. f x = Inr a \<Longrightarrow> f y = Inr b \<Longrightarrow> a @ r = b @ s \<Longrightarrow> R x y \<and> r = s) \<Longrightarrow> self_delimiting R f"
  unfolding self_delimiting_def by blast

lemma self_delimitingD:
  assumes "self_delimiting R f" "f x = Inr a" "f y = Inr b" "a @ r = b @ s"
  shows "R x y" "r = s"
  using assms unfolding self_delimiting_def by blast+

lemma self_delimiting_concat:
  assumes "self_delimiting R f" "concatE f xs = Inr a" "concatE f ys = Inr b" "length xs = length ys" "a @ r = b @ s"
  shows "list_all2 R xs ys \<and> r = s"
  using assms(2-)
proof (induction xs arbitrary: ys a b)
  case (Cons x xs)
  then obtain y ys' where ys: "ys = y # ys'" "length xs = length ys'" by (cases ys) auto
  from Cons.prems(1,2) obtain ax axs bx bxs where
    a: "f x = Inr ax" "concatE f xs = Inr axs" "a = ax @ axs" and
    b: "f y = Inr bx" "concatE f ys' = Inr bxs" "b = bx @ bxs"
    by (auto simp: ys(1) err_simps)
  have eq: "ax @ axs @ r = bx @ bxs @ s" using Cons.prems(4) by (simp add: a(3) b(3))
  from self_delimitingD [OF assms(1) a(1) b(1) eq] Cons.IH [OF a(2) b(2) ys(2)]
  show ?case by (simp add: ys(1))
qed simp

lemma bytes_field_Ok: "bytes_field x = Inr a \<longleftrightarrow> length x < 2 ^ 32 \<and> a = be_bytes 4 (length x) @ x"
  by (auto simp: bytes_field_def u32be_def)

lemma bytes_field_delimits: "self_delimiting (=) bytes_field"
proof (rule self_delimitingI)
  fix x y a b r s assume "bytes_field x = Inr a" "bytes_field y = Inr b" "a @ r = b @ s"
  then show "x = y \<and> r = s" using frame_inj [of x r y s] by (simp add: bytes_field_Ok)
qed

lemma str_field_delimits: "self_delimiting (=) str_field"
proof (rule self_delimitingI)
  fix x y a b r s assume "str_field x = Inr a" "str_field y = Inr b" and eq: "a @ r = b @ s"
  then obtain x' y' where x: "utf8_encode x = Inr x'" "bytes_field x' = Inr a"
    and y: "utf8_encode y = Inr y'" "bytes_field y' = Inr b" by (auto simp: str_field_def err_simps)
  from self_delimitingD [OF bytes_field_delimits x(2) y(2) eq] utf8_encode_inj x(1) y(1)
  show "x = y \<and> r = s" by blast
qed

lemma u32be_delimits: "self_delimiting (=) u32be"
proof (rule self_delimitingI)
  fix m n a b r s assume m: "u32be m = Inr a" "u32be n = Inr b" and eq: "a @ r = b @ s"
  from u32be_Ok [OF m(1)] u32be_Ok [OF m(2)] eq show "m = n \<and> r = s" by (metis append_eq_append_conv)
qed

lemma u64be_delimits: "self_delimiting (=) u64be"
proof (rule self_delimitingI)
  fix m n a b r s assume "u64be m = Inr a" "u64be n = Inr b" and eq: "a @ r = b @ s"
  then have m: "m < 2 ^ 64" "a = be_bytes 8 m" and n: "n < 2 ^ 64" "b = be_bytes 8 n"
    by (auto simp: u64be_def split: if_splits)
  have "be_bytes 8 m = be_bytes 8 n" "r = s" using eq by (auto simp: m n)
  moreover have "be_val (be_bytes 8 m) = m" "be_val (be_bytes 8 n) = n"
    using m(1) n(1) by (auto intro: be_val_be_bytes)
  ultimately show "m = n \<and> r = s" by metis
qed

lemmas field_splits =
  self_delimitingD [OF bytes_field_delimits] self_delimitingD [OF str_field_delimits]
  self_delimitingD [OF u32be_delimits] self_delimitingD [OF u64be_delimits]

section \<open>Metadata\<close>

definition same_meta :: "meta_change list \<Rightarrow> meta_change list \<Rightarrow> bool" where
  "same_meta rows rows' \<longleftrightarrow> (\<exists>e e'. mapE encode_meta_change rows = Inr e \<and>
     mapE encode_meta_change rows' = Inr e' \<and> mset e = mset e')"

lemma encoded_entry_delimits: "self_delimiting (=) encoded_entry_bytes"
proof (rule self_delimitingI)
  fix x y :: "ustr \<times> ustr \<times> bytes" and a b r s
  assume xy: "encoded_entry_bytes x = Inr a" "encoded_entry_bytes y = Inr b" and eq: "a @ r = b @ s"
  obtain k d v k' d' v' where x: "x = (k, d, v)" and y: "y = (k', d', v')" by (metis prod_cases3)
  from xy obtain bk bd bv bk' bd' bv' where
    a: "str_field k = Inr bk" "str_field d = Inr bd" "bytes_field v = Inr bv" "a = bk @ bd @ bv" and
    b: "str_field k' = Inr bk'" "str_field d' = Inr bd'" "bytes_field v' = Inr bv'" "b = bk' @ bd' @ bv'"
    by (auto simp: x y encoded_entry_bytes_def err_simps)
  have eq: "bk @ bd @ bv @ r = bk' @ bd' @ bv' @ s" using eq a(4) b(4) by simp
  from field_splits(3,4) [OF a(1) b(1) eq] have k: "k = k'" and eq: "bd @ bv @ r = bd' @ bv' @ s" by blast+
  from field_splits(3,4) [OF a(2) b(2) eq] have d: "d = d'" and eq: "bv @ r = bv' @ s" by blast+
  from field_splits(1,2) [OF a(3) b(3) eq] show "x = y \<and> r = s" by (simp add: x y k d)
qed

lemma meta_entries_delimit: "self_delimiting same_meta canonical_meta_entries_bytes"
proof (rule self_delimitingI)
  fix x y a b r s
  assume "canonical_meta_entries_bytes x = Inr a" "canonical_meta_entries_bytes y = Inr b" and eq: "a @ r = b @ s"
  then obtain ex n ox ey m oy where
    x: "mapE encode_meta_change x = Inr ex" "u32be (length ex) = Inr n"
      "concatE encoded_entry_bytes (sort_key id ex) = Inr ox" "a = n @ ox" and
    y: "mapE encode_meta_change y = Inr ey" "u32be (length ey) = Inr m"
      "concatE encoded_entry_bytes (sort_key id ey) = Inr oy" "b = m @ oy"
    by (auto simp: canonical_meta_entries_bytes_def bindE_Inr_iff)
  have eq: "n @ ox @ r = m @ oy @ s" using eq x(4) y(4) by simp
  from field_splits(5,6) [OF x(2) y(2) eq] have l: "length ex = length ey" and eq: "ox @ r = oy @ s" by blast+
  have "list_all2 (=) (sort_key id ex) (sort_key id ey) \<and> r = s"
    by (rule self_delimiting_concat [OF encoded_entry_delimits x(3) y(3) _ eq]) (simp add: l)
  then have "sort_key id ex = sort_key id ey" and r: "r = s" by (simp_all add: list.rel_eq)
  then have "mset ex = mset ey" by (metis mset_sort)
  with r show "same_meta x y \<and> r = s" using x(1) y(1) by (auto simp: same_meta_def)
qed

lemma encode_meta_change_kind:
  "encode_meta_change (SetMeta e) = Inr x \<Longrightarrow> fst x = me_key e \<and> fst (snd x) = me_kind e \<and> me_kind e \<noteq> []"
  by (auto simp: encode_meta_change_def meta_value_bytes_def err_simps split: if_splits)

text \<open>A single event is fixed up to the bytes of its value; a value and an UNSET are told apart.\<close>

lemma same_meta_one:
  "same_meta [c] [c'] \<longleftrightarrow> (\<exists>x. encode_meta_change c = Inr x \<and> encode_meta_change c' = Inr x)"
  by (auto simp: same_meta_def err_simps)

lemma same_meta_unset: "same_meta [c] [UnsetMeta k] \<Longrightarrow> c = UnsetMeta k"
  by (cases c) (auto simp: same_meta_one encode_meta_change_def [of "UnsetMeta _"] dest!: encode_meta_change_kind)

lemma same_meta_refl: "mapE encode_meta_change rows = Inr e \<Longrightarrow> same_meta rows rows"
  by (simp add: same_meta_def)

lemma same_meta_permuted:
  assumes "same_meta xs ys" "mset xs = mset xs'" "mset ys = mset ys'"
  shows "same_meta xs' ys'"
proof -
  from assms(1) obtain e e' where e: "mapE encode_meta_change xs = Inr e" "mapE encode_meta_change ys = Inr e'"
    "mset e = mset e'" by (auto simp: same_meta_def)
  from mapE_permuted [OF e(1) assms(2)] mapE_permuted [OF e(2) assms(3)] e(3)
  show ?thesis by (auto simp: same_meta_def)
qed

section \<open>Operations\<close>

fun same_op :: "tx_op \<Rightarrow> tx_op \<Rightarrow> bool" where
  "same_op (OpRevocation r t m) (OpRevocation r' t' m') \<longleftrightarrow>
     r = r' \<and> t = t' \<and> same_meta (map SetMeta m) (map SetMeta m')"
| "same_op (OpAppendMeta a c) (OpAppendMeta a' c') \<longleftrightarrow> a = a' \<and> same_meta [c] [c']"
| "same_op op op' \<longleftrightarrow> op = op'"

definition op_code :: "tx_op \<Rightarrow> byte" where
  "op_code op = (case op of OpAssertion _ _ \<Rightarrow> 65 | OpRevocation _ _ _ \<Rightarrow> 82 | OpAppendMeta _ _ \<Rightarrow> 77
     | OpSchemaChange _ _ \<Rightarrow> 83 | OpRepairAdd _ \<Rightarrow> 43 | OpRepairRemove _ \<Rightarrow> 45 | OpRepair _ _ _ \<Rightarrow> 80)"

lemma op_bytes_code: "op_bytes op = Inr a \<Longrightarrow> \<exists>r. a = op_code op # r"
  by (cases op) (auto simp: op_bytes_def op_code_def err_simps)

lemma same_field:
  assumes "str_field x = Inr a" "str_field y = Inr b"
  shows "a @ r = b @ s \<longleftrightarrow> x = y \<and> r = s"
proof
  show "x = y \<and> r = s" if "a @ r = b @ s" using field_splits(3,4) [OF assms that] by blast
  show "a @ r = b @ s" if "x = y \<and> r = s" using assms that by simp
qed

lemma op_bytes_delimits: "self_delimiting same_op op_bytes"
proof (rule self_delimitingI)
  fix x y a b r s
  assume x: "op_bytes x = Inr a" and y: "op_bytes y = Inr b" and eq: "a @ r = b @ s"
  from op_bytes_code [OF x] op_bytes_code [OF y] eq have code: "op_code x = op_code y" by auto
  show "same_op x y \<and> r = s"
  proof (cases x)
    case (OpRevocation q t m)
    then obtain q' t' m' where y': "y = OpRevocation q' t' m'" using code by (cases y) (auto simp: op_code_def)
    from x y obtain bq bt mb bm bq' bt' mb' bm' where
      a: "str_field q = Inr bq" "str_field t = Inr bt" "canonical_meta_entries_bytes (map SetMeta m) = Inr mb"
        "bytes_field mb = Inr bm" "a = [82] @ bq @ bt @ bm" and
      b: "str_field q' = Inr bq'" "str_field t' = Inr bt'" "canonical_meta_entries_bytes (map SetMeta m') = Inr mb'"
        "bytes_field mb' = Inr bm'" "b = [82] @ bq' @ bt' @ bm'"
      by (auto simp: OpRevocation y' op_bytes_def err_simps)
    have eq': "bq @ bt @ bm @ r = bq' @ bt' @ bm' @ s" using eq a(5) b(5) by simp
    then have qt: "q = q'" "t = t'" and eq': "bm @ r = bm' @ s"
      by (simp_all add: same_field [OF a(1) b(1)] same_field [OF a(2) b(2)])
    from field_splits(1,2) [OF a(4) b(4) eq'] have m: "mb = mb'" "r = s" by blast+
    have "same_meta (map SetMeta m) (map SetMeta m')"
      by (rule self_delimitingD(1) [OF meta_entries_delimit a(3) b(3), of "[]" "[]"]) (simp add: m(1))
    with qt m(2) show ?thesis by (simp add: OpRevocation y')
  next
    case (OpAppendMeta q c)
    then obtain q' c' where y': "y = OpAppendMeta q' c'" using code by (cases y) (auto simp: op_code_def)
    from x y obtain bq mb bm bq' mb' bm' where
      a: "str_field q = Inr bq" "canonical_meta_entries_bytes [c] = Inr mb" "bytes_field mb = Inr bm" "a = [77] @ bq @ bm" and
      b: "str_field q' = Inr bq'" "canonical_meta_entries_bytes [c'] = Inr mb'" "bytes_field mb' = Inr bm'" "b = [77] @ bq' @ bm'"
      by (auto simp: OpAppendMeta y' op_bytes_def err_simps)
    have eq': "bq @ bm @ r = bq' @ bm' @ s" using eq a(4) b(4) by simp
    then have q: "q = q'" and eq': "bm @ r = bm' @ s" by (simp_all add: same_field [OF a(1) b(1)])
    from field_splits(1,2) [OF a(3) b(3) eq'] have m: "mb = mb'" "r = s" by blast+
    have "same_meta [c] [c']"
      by (rule self_delimitingD(1) [OF meta_entries_delimit a(2) b(2), of "[]" "[]"]) (simp add: m(1))
    with q m(2) show ?thesis by (simp add: OpAppendMeta y')
  qed (use x y eq code in \<open>cases y; auto simp: op_bytes_def op_code_def err_simps same_field\<close>)+
qed

section \<open>SHA-256 as text\<close>

lemma concat_blocks_inj:
  assumes "\<And>x. length (f x) = k" "inj f" "0 < k"
  shows "concat (map f xs) = concat (map f ys) \<Longrightarrow> xs = ys"
proof (induction xs arbitrary: ys)
  case Nil
  then show ?case using assms(1,3) by (cases ys) (auto dest: arg_cong [where f = length])
next
  case (Cons x xs)
  then obtain y ys' where ys: "ys = y # ys'" using assms(1,3) by (cases ys) (auto dest: arg_cong [where f = length])
  with Cons.prems assms(1) have "f x = f y" "concat (map f xs) = concat (map f ys')" by simp_all
  with Cons.IH assms(2) ys show ?case by (auto dest: injD)
qed

lemma sha256_hex_inj: "sha256_hex sha x = sha256_hex sha y \<Longrightarrow> sha x = sha y"
proof -
  have "inj (\<lambda>b :: byte. hex_text 2 (unat b))"
  proof (rule injI)
    fix a b :: byte assume "hex_text 2 (unat a) = hex_text 2 (unat b)"
    then have "hex_val (hex_text 2 (unat a)) = hex_val (hex_text 2 (unat b))" by simp
    then show "a = b" by (simp add: word_unat_eq_iff)
  qed
  then show "sha256_hex sha x = sha256_hex sha y \<Longrightarrow> sha x = sha y"
    unfolding sha256_hex_def by (rule concat_blocks_inj [rotated]) simp_all
qed

lemma sha256_token_inj: "sha256_token sha x = sha256_token sha y \<Longrightarrow> sha x = sha y"
  unfolding sha256_token_def by (rule sha256_hex_inj) simp

end
