(* ===== verification/Database_History.thy ===== *)
theory Database_History
  imports Database_Digests Schema_IR
begin

text \<open>
  The object files of a workspace (\<^verbatim>\<open>core/store/database.py\<close>): transaction objects and schema
  objects, the chain of transactions behind a head, and its replay.  A JSON file is kept as the
  document it holds (\<open>json.dumps\<close> with sorted keys and \<open>json.loads\<close> are inverse); a schema file,
  whose bytes are compared, as its bytes and the document \<open>json.loads\<close> finds in them, if any.
\<close>

section \<open>Transaction objects\<close>

record tx_object =
  to_id :: ustr
  to_parent :: "ustr option"
  to_schema :: ustr
  to_scheme :: ustr
  to_seq :: nat
  to_ops :: "tx_op list"
  to_defaults :: "meta_entry list"

definition key_of :: "string \<Rightarrow> pyval" where "key_of k = PStr (u k)"

definition meta_entry_payload :: "meta_entry \<Rightarrow> pyval res" where
  "meta_entry_payload e =
     bindE (to_jsonable (me_value e)) (\<lambda>v.
       Ok (PDict [(key_of ''key'', PStr (me_key e)), (key_of ''kind'', PStr (me_kind e)), (key_of ''value'', v)]))"

definition meta_change_payload :: "meta_change \<Rightarrow> pyval res" where
  "meta_change_payload c = (case c of
      SetMeta e \<Rightarrow> meta_entry_payload e
    | UnsetMeta k \<Rightarrow> Ok (PDict [(key_of ''key'', PStr k), (key_of ''kind'', PNone), (key_of ''value'', PNone)]))"

definition op_fields :: "string \<Rightarrow> (string \<times> ustr) list \<Rightarrow> (pyval \<times> pyval) list" where
  "op_fields kind entries = (key_of ''kind'', key_of kind) # map (\<lambda>(k, s). (key_of k, PStr s)) entries"

definition tx_operation_payload :: "tx_op \<Rightarrow> pyval res" where
  "tx_operation_payload op = bindE (normalize_tx_operation op) (\<lambda>_. case op of
      OpAssertion a d \<Rightarrow> Ok (PDict (op_fields ''assertion'' [(''asrt_id'', a), (''assertion_digest'', d)]))
    | OpRevocation r t meta \<Rightarrow>
        bindE (mapE meta_entry_payload meta) (\<lambda>ms. Ok (PDict
          (op_fields ''revocation'' [(''revoker_asrt_id'', r), (''revoked_asrt_id'', t)] @ [(key_of ''meta'', PList ms)])))
    | OpAppendMeta a c \<Rightarrow>
        bindE (meta_change_payload c) (\<lambda>m. Ok (PDict
          (op_fields ''append_meta'' [(''asrt_id'', a)] @ [(key_of ''meta'', m)])))
    | OpSchemaChange old new \<Rightarrow>
        Ok (PDict (op_fields ''schema_change'' [(''old_schema_digest'', old), (''new_schema_digest'', new)]))
    | OpRepairAdd a \<Rightarrow> Ok (PDict (op_fields ''repair_add'' [(''asrt_id'', a)]))
    | OpRepairRemove a \<Rightarrow> Ok (PDict (op_fields ''repair_remove'' [(''asrt_id'', a)]))
    | OpRepair previous rebuilt reason \<Rightarrow>
        Ok (PDict (op_fields ''repair'' [(''previous_state_digest'', previous),
          (''rebuilt_state_digest'', rebuilt), (''reason'', reason)])))"

subsection \<open>Reading operations back\<close>

definition require_exact_keys :: "(pyval \<times> pyval) list \<Rightarrow> string list \<Rightarrow> unit res" where
  "require_exact_keys d ks = (if set (map fst d) = set (map key_of ks) then Ok () else Err DatabaseError)"

text \<open>A metadata entry as the document has it: key, kind and decoded value, unchecked.\<close>

definition raw_meta_entry :: "pyval \<Rightarrow> (pyval \<times> pyval \<times> pyval) res" where
  "raw_meta_entry v =
     bindE (as_dict DatabaseError v) (\<lambda>d.
     bindE (require_exact_keys d [''key'', ''kind'', ''value'']) (\<lambda>_.
     bindE (from_jsonable (dict_field d ''value'')) (\<lambda>w.
       Ok (dict_field d ''key'', dict_field d ''kind'', w))))"

definition checked_meta_entry :: "pyval \<times> pyval \<times> pyval \<Rightarrow> meta_entry res" where
  "checked_meta_entry raw = (case raw of (k, kind, v) \<Rightarrow>
     bindE (as_name DatabaseError k) (\<lambda>key.
       case kind of
         PStr s \<Rightarrow> if s \<in> set META_KINDS then Ok \<lparr>me_key = key, me_kind = s, me_value = v\<rparr> else Err DatabaseError
       | _ \<Rightarrow> if hashable kind then Err DatabaseError else Err TypeError))"

definition read_meta_change :: "pyval \<Rightarrow> meta_change res" where
  "read_meta_change v =
     bindE (raw_meta_entry v) (\<lambda>(k, kind, w).
       if kind = PNone then
         if w \<noteq> PNone then Err DatabaseError
         else bindE (as_name DatabaseError k) (\<lambda>key. Ok (UnsetMeta key))
       else
         bindE (checked_meta_entry (k, kind, w)) (\<lambda>e.
         bindE (meta_value_bytes (me_kind e) (me_value e)) (\<lambda>_. Ok (SetMeta e))))"

definition as_sequence :: "pyval \<Rightarrow> pyval list res" where
  "as_sequence v = (case v of PList vs \<Rightarrow> Ok vs | PTuple vs \<Rightarrow> Ok vs | _ \<Rightarrow> Err DatabaseError)"

definition read_repair :: "(pyval \<times> pyval) list \<Rightarrow> tx_op res" where
  "read_repair d =
     bindE (require_exact_keys d [''kind'', ''previous_state_digest'', ''rebuilt_state_digest'', ''reason'']) (\<lambda>_.
     bindE (as_name DatabaseError (dict_field d ''previous_state_digest'')) (\<lambda>previous.
     bindE (as_str DatabaseError (dict_field d ''rebuilt_state_digest'')) (\<lambda>rebuilt.
     bindE (decode_state (PStr rebuilt)) (\<lambda>_.
     bindE (as_name DatabaseError (dict_field d ''reason'')) (\<lambda>reason.
       Ok (OpRepair previous rebuilt reason))))))"

definition read_tx_operation :: "pyval \<Rightarrow> tx_op res" where
  "read_tx_operation raw = bindE (as_dict DatabaseError raw) (\<lambda>d.
     let kind = dict_field d ''kind'' in
     if kind = key_of ''assertion'' then
       bindE (require_exact_keys d [''kind'', ''asrt_id'', ''assertion_digest'']) (\<lambda>_.
       bindE (require_asrt_id (dict_field d ''asrt_id'')) (\<lambda>a.
       bindE (require_token (u ''sha256:'') (dict_field d ''assertion_digest'')) (\<lambda>g. Ok (OpAssertion a g))))
     else if kind = key_of ''revocation'' then
       bindE (require_exact_keys d [''kind'', ''revoker_asrt_id'', ''revoked_asrt_id'', ''meta'']) (\<lambda>_.
       bindE (as_sequence (dict_field d ''meta'')) (\<lambda>ms.
       bindE (mapE raw_meta_entry ms) (\<lambda>raws.
       bindE (require_asrt_id (dict_field d ''revoker_asrt_id'')) (\<lambda>r.
       bindE (require_asrt_id (dict_field d ''revoked_asrt_id'')) (\<lambda>t.
       bindE (mapE checked_meta_entry raws) (\<lambda>meta. Ok (OpRevocation r t meta)))))))
     else if kind = key_of ''append_meta'' then
       bindE (require_exact_keys d [''kind'', ''asrt_id'', ''meta'']) (\<lambda>_.
       bindE (read_meta_change (dict_field d ''meta'')) (\<lambda>c.
       bindE (require_asrt_id (dict_field d ''asrt_id'')) (\<lambda>a. Ok (OpAppendMeta a c))))
     else if kind = key_of ''schema_change'' then
       bindE (require_exact_keys d [''kind'', ''old_schema_digest'', ''new_schema_digest'']) (\<lambda>_.
       bindE (require_token (u ''sha256:'') (dict_field d ''old_schema_digest'')) (\<lambda>old.
       bindE (require_token (u ''sha256:'') (dict_field d ''new_schema_digest'')) (\<lambda>new.
         if old = new then Err DatabaseError else Ok (OpSchemaChange old new))))
     else if \<not> hashable kind then Err TypeError
     else if kind \<in> {key_of ''repair_add'', key_of ''repair_remove''} then
       bindE (require_exact_keys d [''kind'', ''asrt_id'']) (\<lambda>_.
       bindE (require_asrt_id (dict_field d ''asrt_id'')) (\<lambda>a.
         Ok (if kind = key_of ''repair_add'' then OpRepairAdd a else OpRepairRemove a)))
     else if kind = key_of ''repair'' then read_repair d
     else Err DatabaseError)"

definition tx_meta_defaults_payload :: "meta_entry list \<Rightarrow> pyval res" where
  "tx_meta_defaults_payload rows =
     bindE (normalize_tx_meta_defaults rows) (\<lambda>normalized.
     bindE (mapE meta_entry_payload normalized) (\<lambda>ms. Ok (PList ms)))"

definition read_meta_default_key :: "pyval \<Rightarrow> ustr res" where
  "read_meta_default_key v =
     bindE (as_dict DatabaseError v) (\<lambda>d.
     bindE (require_exact_keys d [''key'', ''kind'', ''value'']) (\<lambda>_. as_name DatabaseError (dict_field d ''key'')))"

definition read_tx_meta_defaults :: "pyval \<Rightarrow> meta_entry list res" where
  "read_tx_meta_defaults v =
     bindE (as_list DatabaseError v) (\<lambda>rows.
     bindE (mapE read_meta_default_key rows) (\<lambda>raw_keys.
       if \<not> sorted raw_keys then Err DatabaseError
       else if \<not> distinct raw_keys then Err DatabaseError
       else
         bindE (mapE (\<lambda>row. bindE (raw_meta_entry row) checked_meta_entry) rows) (\<lambda>entries.
         bindE (normalize_tx_meta_defaults entries) (\<lambda>normalized.
           if map me_key normalized \<noteq> raw_keys then Err DatabaseError else Ok normalized))))"

section \<open>Object files\<close>

type_synonym tx_files = "(ustr, pyval) dict"
type_synonym schema_files = "(ustr, bytes \<times> pyval option) dict"

text \<open>\<open>_write_once_bytes\<close>: an object that exists must have the same bytes.\<close>

definition write_once :: "ustr \<Rightarrow> pyval \<Rightarrow> tx_files \<Rightarrow> tx_files res" where
  "write_once name doc files = (case dict_get files name of
      Some stored \<Rightarrow>
        bindE (json_dumps stored) (\<lambda>a. bindE (json_dumps doc) (\<lambda>b.
          if a \<noteq> b then Err DatabaseError else Ok files))
    | None \<Rightarrow> bindE (json_canon doc) (\<lambda>c. Ok (dict_set name c files)))"

definition parent_value :: "ustr option \<Rightarrow> pyval" where
  "parent_value parent = (case parent of None \<Rightarrow> PNone | Some p \<Rightarrow> PStr p)"

definition defaults_field :: "meta_entry list \<Rightarrow> (pyval \<times> pyval) list res" where
  "defaults_field defaults =
     (if defaults = [] then Ok []
      else bindE (tx_meta_defaults_payload defaults) (\<lambda>p. Ok [(key_of ''meta_defaults'', p)]))"

definition tx_document :: "tx_object \<Rightarrow> pyval list \<Rightarrow> (pyval \<times> pyval) list \<Rightarrow> (pyval \<times> pyval) list" where
  "tx_document t payloads extra =
     [(key_of ''digest_scheme'', PStr (to_scheme t)), (key_of ''operations'', PList payloads),
      (key_of ''parent_tx_id'', parent_value (to_parent t)), (key_of ''schema_digest'', PStr (to_schema t)),
      (key_of ''tx_seq'', PInt (int (to_seq t))), (key_of ''tx_id'', PStr (to_id t))] @ extra"

definition write_tx_object :: "(bytes \<Rightarrow> bytes) \<Rightarrow> tx_object \<Rightarrow> tx_files \<Rightarrow> tx_files res" where
  "write_tx_object sha t files =
     bindE (require_token (u ''tx:'') (PStr (to_id t))) (\<lambda>_.
     bindE (normalize_tx_operations (to_ops t)) (\<lambda>ops.
     bindE (normalize_tx_meta_defaults (to_defaults t)) (\<lambda>defaults.
     bindE (tx_id_for_v2 sha (to_parent t) (to_schema t) (to_scheme t) (to_seq t) ops defaults) (\<lambda>expected.
       if expected \<noteq> to_id t then Err DatabaseError
       else
         bindE (mapE tx_operation_payload ops) (\<lambda>payloads.
         bindE (defaults_field defaults) (\<lambda>extra.
           write_once (to_id t) (PDict (tx_document t payloads extra)) files))))))"

definition TX_OBJECT_KEYS :: "string list" where
  "TX_OBJECT_KEYS = [''digest_scheme'', ''operations'', ''parent_tx_id'', ''schema_digest'', ''tx_id'', ''tx_seq'']"

definition read_tx_seq :: "pyval \<Rightarrow> nat res" where
  "read_tx_seq v = (case v of PInt i \<Rightarrow> if i < 0 then Err DatabaseError else Ok (nat i) | _ \<Rightarrow> Err DatabaseError)"

definition read_parent :: "pyval \<Rightarrow> ustr option res" where
  "read_parent v = (if v = PNone then Ok None else bindE (require_token (u ''tx:'') v) (\<lambda>p. Ok (Some p)))"

definition read_scheme :: "pyval \<Rightarrow> ustr res" where
  "read_scheme v = (if v = PStr LTHASH_SCHEME then Ok LTHASH_SCHEME else Err DatabaseError)"

definition read_tx_object :: "(bytes \<Rightarrow> bytes) \<Rightarrow> tx_files \<Rightarrow> ustr \<Rightarrow> tx_object res" where
  "read_tx_object sha files tx_id =
     bindE (require_token (u ''tx:'') (PStr tx_id)) (\<lambda>_.
     case dict_get files tx_id of
       None \<Rightarrow> Err DatabaseError
     | Some doc \<Rightarrow>
         bindE (as_dict DatabaseError doc) (\<lambda>d.
         let keys = set (map fst d); has_defaults = has_field d ''meta_defaults'' in
         if keys \<noteq> set (map key_of TX_OBJECT_KEYS) \<and> keys \<noteq> set (map key_of (''meta_defaults'' # TX_OBJECT_KEYS))
         then Err DatabaseError
         else if dict_field d ''tx_id'' \<noteq> PStr tx_id then Err DatabaseError
         else
           bindE (read_parent (dict_field d ''parent_tx_id'')) (\<lambda>parent.
           bindE (require_token (u ''sha256:'') (dict_field d ''schema_digest'')) (\<lambda>schema_token.
           bindE (read_scheme (dict_field d ''digest_scheme'')) (\<lambda>scheme.
           bindE (read_tx_seq (dict_field d ''tx_seq'')) (\<lambda>tx_seq.
           bindE (as_list DatabaseError (dict_field d ''operations'')) (\<lambda>raw_operations.
           bindE (mapE read_tx_operation raw_operations) (\<lambda>ops.
           bindE (if has_defaults then read_tx_meta_defaults (dict_field d ''meta_defaults'') else Ok []) (\<lambda>defaults.
             if has_defaults \<and> defaults = [] then Err DatabaseError
             else
               bindE (tx_id_for_v2 sha parent schema_token scheme tx_seq ops defaults) (\<lambda>expected.
                 if expected \<noteq> tx_id then Err DatabaseError
                 else Ok \<lparr>to_id = tx_id, to_parent = parent, to_schema = schema_token, to_scheme = scheme,
                           to_seq = tx_seq, to_ops = ops, to_defaults = defaults\<rparr>)))))))))) "

section \<open>Schema objects\<close>

definition schema_ir_from_canonical_bytes :: "pyval option \<Rightarrow> (pyval \<times> pyval) list res" where
  "schema_ir_from_canonical_bytes doc = (case doc of
      None \<Rightarrow> Err DatabaseError
    | Some v \<Rightarrow>
        bindE (as_dict DatabaseError v) (\<lambda>_.
          catchE (ensure_schema_ir v) (\<lambda>e. e = SchemaIRValidationError) (\<lambda>_. Err DatabaseError)))"

definition validate_schema_object_digest :: "(bytes \<Rightarrow> bytes) \<Rightarrow> schema_files \<Rightarrow> ustr \<Rightarrow> unit res" where
  "validate_schema_object_digest sha schemas d =
     bindE (require_token (u ''sha256:'') (PStr d)) (\<lambda>token.
     case dict_get schemas token of
       None \<Rightarrow> Err DatabaseIntegrityError
     | Some (actual, doc) \<Rightarrow>
         bindE (schema_ir_from_canonical_bytes doc) (\<lambda>stored.
         bindE (canonicalize_schema_ir_jcs (PDict stored)) (\<lambda>canonical.
           if canonical \<noteq> actual then Err DatabaseIntegrityError
           else
             bindE (schema_digest sha (PDict stored)) (\<lambda>g.
               if g \<noteq> token then Err DatabaseIntegrityError else Ok ()))))"

definition validate_schema_object :: "(bytes \<Rightarrow> bytes) \<Rightarrow> schema_files \<Rightarrow> ustr \<Rightarrow> pyval \<Rightarrow> unit res" where
  "validate_schema_object sha schemas d expected_schema_ir =
     bindE (require_token (u ''sha256:'') (PStr d)) (\<lambda>token.
     case dict_get schemas token of
       None \<Rightarrow> Err DatabaseError
     | Some (actual, doc) \<Rightarrow>
         bindE (schema_ir_from_canonical_bytes doc) (\<lambda>stored.
         bindE (canonicalize_schema_ir_jcs (PDict stored)) (\<lambda>canonical.
           if canonical \<noteq> actual then Err DatabaseError
           else
             bindE (schema_digest sha (PDict stored)) (\<lambda>g.
             if g \<noteq> token then Err DatabaseError
             else
               bindE (ensure_schema_ir expected_schema_ir) (\<lambda>expected.
               bindE (schema_digest sha (PDict expected)) (\<lambda>g.
               if g \<noteq> token then Err DatabaseError
               else
                 bindE (canonicalize_schema_ir_identity_jcs (PDict stored)) (\<lambda>a.
                 bindE (canonicalize_schema_ir_identity_jcs (PDict expected)) (\<lambda>b.
                   if a \<noteq> b then Err DatabaseError else Ok ()))))))))"

text \<open>The bytes given are those of \<open>canonicalize_schema_ir_jcs\<close>; \<open>doc\<close> is what they read as.\<close>

definition write_schema_object ::
  "(bytes \<Rightarrow> bytes) \<Rightarrow> ustr \<Rightarrow> bytes \<Rightarrow> pyval option \<Rightarrow> schema_files \<Rightarrow> schema_files res" where
  "write_schema_object sha d schema_bytes doc schemas =
     bindE (require_token (u ''sha256:'') (PStr d)) (\<lambda>token.
     bindE (schema_ir_from_canonical_bytes doc) (\<lambda>schema_ir.
     bindE (canonicalize_schema_ir_jcs (PDict schema_ir)) (\<lambda>canonical.
     if canonical \<noteq> schema_bytes then Err DatabaseError
     else
       bindE (schema_digest sha (PDict schema_ir)) (\<lambda>g.
       if g \<noteq> token then Err DatabaseError
       else (case dict_get schemas token of
           None \<Rightarrow> Ok (dict_set token (schema_bytes, doc) schemas)
         | Some (_, stored_doc) \<Rightarrow>
             bindE (schema_ir_from_canonical_bytes stored_doc) (\<lambda>stored.
             bindE (schema_digest sha (PDict stored)) (\<lambda>g.
               if g \<noteq> token then Err DatabaseError else Ok schemas)))))))"

section \<open>The chain behind a head\<close>

lemma read_tx_object_stored: "read_tx_object sha files c = Inr t \<Longrightarrow> c \<in> fst ` set files"
  by (auto simp: read_tx_object_def bindE_Inr_iff split: option.splits dest!: map_of_SomeD intro!: image_eqI [of c])

text \<open>Head first.  The files are finitely many and none is read twice.\<close>

function tx_chain :: "(bytes \<Rightarrow> bytes) \<Rightarrow> tx_files \<Rightarrow> ustr set \<Rightarrow> ustr option \<Rightarrow> tx_object list res" where
  "tx_chain sha files seen None = Ok []"
| "tx_chain sha files seen (Some c) =
     (if c \<in> seen then Err DatabaseIntegrityError
      else bindE (read_tx_object sha files c) (\<lambda>t.
           bindE (tx_chain sha files (insert c seen) (to_parent t)) (\<lambda>ts. Ok (t # ts))))"
  by pat_completeness auto

termination tx_chain
proof (relation "measure (\<lambda>(_, files, seen, _). card (fst ` set files - seen))")
  fix sha files seen c t assume c: "c \<notin> seen" "read_tx_object sha files c = Inr t"
  have "c \<in> fst ` set files" using c(2) by (rule read_tx_object_stored)
  then have "fst ` set files - insert c seen \<subset> fst ` set files - seen" using c(1) by auto
  then have "card (fst ` set files - insert c seen) < card (fst ` set files - seen)" by (intro psubset_card_mono) simp_all
  then show "((sha, files, insert c seen, to_parent t), sha, files, seen, Some c)
      \<in> measure (\<lambda>(_, files, seen, _). card (fst ` set files - seen))"
    by simp
qed simp

declare tx_chain.simps [simp del]

definition history_chain :: "(bytes \<Rightarrow> bytes) \<Rightarrow> tx_files \<Rightarrow> ustr \<Rightarrow> tx_object list res" where
  "history_chain sha files head =
     bindE (require_token (u ''tx:'') (PStr head)) (\<lambda>h.
     bindE (tx_chain sha files {} (Some h)) (\<lambda>ts. Ok (rev ts)))"

section \<open>Replay\<close>

record replay =
  rp_active :: "ustr set"
  rp_known :: "ustr set"

definition replay_op :: "replay \<Rightarrow> tx_op \<Rightarrow> replay res" where
  "replay_op st op = (case op of
      OpAssertion a _ \<Rightarrow>
        if a \<in> rp_known st then Err DatabaseIntegrityError
        else Ok (st\<lparr>rp_known := insert a (rp_known st), rp_active := insert a (rp_active st)\<rparr>)
    | OpRevocation r t _ \<Rightarrow>
        if t \<notin> rp_active st then Err DatabaseIntegrityError
        else if r \<in> rp_known st then Err DatabaseIntegrityError
        else Ok (st\<lparr>rp_active := rp_active st - {t}, rp_known := insert r (rp_known st)\<rparr>)
    | OpAppendMeta a _ \<Rightarrow> if a \<notin> rp_known st then Err DatabaseIntegrityError else Ok st
    | OpSchemaChange _ _ \<Rightarrow> Ok st
    | OpRepairAdd a \<Rightarrow> Ok (st\<lparr>rp_active := insert a (rp_active st), rp_known := insert a (rp_known st)\<rparr>)
    | OpRepairRemove a \<Rightarrow> Ok (st\<lparr>rp_active := rp_active st - {a}\<rparr>)
    | OpRepair _ _ _ \<Rightarrow> Ok st)"

definition is_schema_change :: "tx_op \<Rightarrow> bool" where
  "is_schema_change op \<longleftrightarrow> (case op of OpSchemaChange _ _ \<Rightarrow> True | _ \<Rightarrow> False)"

text \<open>The schema digest in force after a transaction.\<close>

definition replay_schema ::
  "(ustr \<Rightarrow> unit res) \<Rightarrow> nat \<Rightarrow> ustr option \<Rightarrow> tx_object \<Rightarrow> ustr option res" where
  "replay_schema check expected_seq effective t =
     (let changes = filter is_schema_change (to_ops t) in
      if expected_seq = 0 then
        if changes \<noteq> [] then Err DatabaseIntegrityError
        else bindE (check (to_schema t)) (\<lambda>_. Ok (Some (to_schema t)))
      else (case changes of
          [] \<Rightarrow> if Some (to_schema t) \<noteq> effective then Err DatabaseIntegrityError else Ok effective
        | OpSchemaChange old new # rest \<Rightarrow>
            if rest \<noteq> [] \<or> length (to_ops t) \<noteq> 1 then Err DatabaseIntegrityError
            else if Some old \<noteq> effective then Err DatabaseIntegrityError
            else if new \<noteq> to_schema t then Err DatabaseIntegrityError
            else bindE (check new) (\<lambda>_. Ok (Some new))
        | _ # _ \<Rightarrow> Ok effective))"

definition replay_tx ::
  "(ustr \<Rightarrow> unit res) \<Rightarrow> replay \<times> ustr option \<Rightarrow> nat \<times> tx_object \<Rightarrow> (replay \<times> ustr option) res" where
  "replay_tx check acc item = (case (acc, item) of ((st, effective), (expected_seq, t)) \<Rightarrow>
     if to_seq t \<noteq> expected_seq then Err DatabaseIntegrityError
     else if expected_seq = 0 \<and> to_parent t \<noteq> None then Err DatabaseIntegrityError
     else
       bindE (replay_schema check expected_seq effective t) (\<lambda>effective.
       bindE (foldE replay_op st (to_ops t)) (\<lambda>st. Ok (st, effective))))"

definition replay_chain ::
  "(ustr \<Rightarrow> unit res) \<Rightarrow> tx_object list \<Rightarrow> (replay \<times> ustr option) res" where
  "replay_chain check ts = foldE (replay_tx check) (\<lparr>rp_active = {}, rp_known = {}\<rparr>, None) (enumerate 0 ts)"

definition replay_history ::
  "(bytes \<Rightarrow> bytes) \<Rightarrow> tx_files \<Rightarrow> schema_files \<Rightarrow> ustr \<Rightarrow> ustr \<Rightarrow> ustr set res" where
  "replay_history sha files schemas head expected_schema_digest =
     bindE (history_chain sha files head) (\<lambda>ts.
     bindE (replay_chain (validate_schema_object_digest sha schemas) ts) (\<lambda>(st, effective).
     bindE (require_token (u ''sha256:'') (PStr expected_schema_digest)) (\<lambda>expected.
       if effective \<noteq> Some expected then Err DatabaseIntegrityError else Ok (rp_active st))))"

definition tx_meta_defaults_from_history ::
  "(bytes \<Rightarrow> bytes) \<Rightarrow> tx_files \<Rightarrow> ustr \<Rightarrow> tx_meta_default list res" where
  "tx_meta_defaults_from_history sha files head =
     bindE (history_chain sha files head) (\<lambda>ts. Ok (concat (map (\<lambda>t.
       map (\<lambda>row. \<lparr>t_tx = to_seq t, t_key = MKey (me_key row), t_kind = me_kind row, t_value = me_value row\<rparr>)
         (to_defaults t)) ts)))"

end
