(* ===== verification/Database_Laws.thy ===== *)
theory Database_Laws
  imports Database_History
begin

text \<open>
  What transaction ids and assertion digests determine, and what follows for the history behind a
  head: an object that can be read is the one its id was computed from.
\<close>

section \<open>Normalisation changes nothing\<close>

lemma normalize_tx_operation_same: "normalize_tx_operation op = Inr op' \<Longrightarrow> op' = op"
  by (cases op) (auto simp: normalize_tx_operation_def err_simps split: if_splits)

lemma mapE_identity: "(\<And>x y. f x = Inr y \<Longrightarrow> y = x) \<Longrightarrow> mapE f xs = Inr ys \<Longrightarrow> ys = xs"
  by (induction xs arbitrary: ys) (auto simp: err_simps)

lemma normalize_tx_operations_same: "normalize_tx_operations ops = Inr ops' \<Longrightarrow> ops' = ops"
  unfolding normalize_tx_operations_def by (rule mapE_identity [of normalize_tx_operation]) (rule normalize_tx_operation_same)

lemma normalize_meta_entries_same: "normalize_meta_entries es = Inr es' \<Longrightarrow> es' = es"
  unfolding normalize_meta_entries_def
  by (rule mapE_identity [of normalize_meta_entry]) (auto simp: normalize_meta_entry_def split: if_splits)

lemma normalize_defaults_sorted:
  "normalize_tx_meta_defaults rows = Inr ds \<Longrightarrow> ds = sort_key me_key rows \<and> distinct (map me_key rows)"
  by (auto simp: normalize_tx_meta_defaults_def bindE_Inr_iff Let_def split: if_splits dest!: normalize_meta_entries_same)

section \<open>Transactions\<close>

lemma dbtx_v2_Ok:
  assumes "canonical_bytes_dbtx_v2 parent schema scheme q ops defaults = Inr b"
  shows "\<exists>p s d n8 n body tail ds. parent_bytes parent = Inr p \<and> str_field schema = Inr s \<and>
     scheme = LTHASH_SCHEME \<and> str_field LTHASH_SCHEME = Inr d \<and> u64be q = Inr n8 \<and> u32be (length ops) = Inr n \<and>
     concatE op_bytes ops = Inr body \<and> mset ds = mset defaults \<and> defaults_bytes ds = Inr tail \<and>
     b = DBTX_V2_PREFIX @ p @ s @ d @ n8 @ n @ body @ tail"
proof -
  from assms obtain nops ds p s d n8 n body tail where
    x: "scheme = LTHASH_SCHEME" "normalize_tx_operations ops = Inr nops" "normalize_tx_meta_defaults defaults = Inr ds"
    "parent_bytes parent = Inr p" "str_field schema = Inr s" "str_field scheme = Inr d" "u64be q = Inr n8"
    "u32be (length nops) = Inr n" "concatE op_bytes nops = Inr body" "defaults_bytes ds = Inr tail"
    "b = DBTX_V2_PREFIX @ p @ s @ d @ n8 @ n @ body @ tail"
    by (auto simp only: canonical_bytes_dbtx_v2_def bindE_Inr_iff sum.inject sum.distinct split: if_split_asm)
  moreover have "mset ds = mset defaults" "nops = ops"
    using normalize_defaults_sorted [OF x(3)] normalize_tx_operations_same [OF x(2)] by simp_all
  ultimately show ?thesis by blast
qed

lemma parent_delimits: "self_delimiting (=) parent_bytes"
proof (rule self_delimitingI)
  fix x y a b r s assume "parent_bytes x = Inr a" "parent_bytes y = Inr b" "a @ r = b @ s"
  then show "x = y \<and> r = s"
    by (cases x; cases y) (auto simp: parent_bytes_def err_simps same_field)
qed

lemma defaults_suffix_nonempty: "DBTX_V2_META_DEFAULTS_SUFFIX \<noteq> []"
  by (simp add: DBTX_V2_META_DEFAULTS_SUFFIX_def)

lemma defaults_bytes_determine:
  assumes "defaults_bytes ds = Inr t" "defaults_bytes ds' = Inr t'" "t = t'"
  shows "same_meta (map SetMeta ds) (map SetMeta ds')"
proof -
  have empty: "es = []" if "defaults_bytes es = Inr []" for es
    using that by (auto simp: defaults_bytes_def bindE_Inr_iff defaults_suffix_nonempty split: if_splits)
  show ?thesis
  proof (cases "ds = [] \<or> ds' = []")
    case True
    then have "ds = [] \<and> ds' = []" using assms empty by (auto simp: defaults_bytes_def [of "[]"])
    then show ?thesis by (simp add: same_meta_def)
  next
    case False
    with assms obtain m where
      "canonical_meta_entries_bytes (map SetMeta ds) = Inr m" "canonical_meta_entries_bytes (map SetMeta ds') = Inr m"
      by (auto simp: defaults_bytes_def bindE_Inr_iff split: if_splits)
    then show ?thesis using self_delimitingD(1) [OF meta_entries_delimit] by blast
  qed
qed

definition same_tx ::
  "ustr option \<Rightarrow> ustr \<Rightarrow> nat \<Rightarrow> tx_op list \<Rightarrow> meta_entry list \<Rightarrow>
   ustr option \<Rightarrow> ustr \<Rightarrow> nat \<Rightarrow> tx_op list \<Rightarrow> meta_entry list \<Rightarrow> bool" where
  "same_tx parent schema q ops defaults parent' schema' q' ops' defaults' \<longleftrightarrow>
     parent = parent' \<and> schema = schema' \<and> q = q' \<and> list_all2 same_op ops ops' \<and>
     same_meta (map SetMeta defaults) (map SetMeta defaults')"

lemma dbtx_v2_determines:
  assumes "canonical_bytes_dbtx_v2 parent schema scheme q ops defaults = Inr b"
    "canonical_bytes_dbtx_v2 parent' schema' scheme' q' ops' defaults' = Inr b"
  shows "same_tx parent schema q ops defaults parent' schema' q' ops' defaults'"
proof -
  from dbtx_v2_Ok [OF assms(1)] obtain p s d n8 n body tail ds where
    1: "parent_bytes parent = Inr p" "str_field schema = Inr s" "str_field LTHASH_SCHEME = Inr d"
      "u64be q = Inr n8" "u32be (length ops) = Inr n" "concatE op_bytes ops = Inr body" "mset ds = mset defaults" and
    t1: "defaults_bytes ds = Inr tail" and
    b1: "b = DBTX_V2_PREFIX @ p @ s @ d @ n8 @ n @ body @ tail"
    by blast
  from dbtx_v2_Ok [OF assms(2)] obtain p' s' d' n8' n' body' tail' ds' where
    2: "parent_bytes parent' = Inr p'" "str_field schema' = Inr s'" "str_field LTHASH_SCHEME = Inr d'"
      "u64be q' = Inr n8'" "u32be (length ops') = Inr n'" "concatE op_bytes ops' = Inr body'" "mset ds' = mset defaults'" and
    t2: "defaults_bytes ds' = Inr tail'" and
    b2: "b = DBTX_V2_PREFIX @ p' @ s' @ d' @ n8' @ n' @ body' @ tail'"
    by blast
  have eq: "p @ s @ d @ n8 @ n @ body @ tail = p' @ s' @ d' @ n8' @ n' @ body' @ tail'" using b1 b2 by simp
  note p = self_delimitingD [OF parent_delimits 1(1) 2(1) eq]
  note s = field_splits(3,4) [OF 1(2) 2(2) p(2)]
  note d = field_splits(3,4) [OF 1(3) 2(3) s(2)]
  note q = field_splits(7,8) [OF 1(4) 2(4) d(2)]
  note n = field_splits(5,6) [OF 1(5) 2(5) q(2)]
  from self_delimiting_concat [OF op_bytes_delimits 1(6) 2(6) n]
  have ops: "list_all2 same_op ops ops'" and tail: "tail = tail'" by blast+
  have "same_meta (map SetMeta ds) (map SetMeta ds')" by (rule defaults_bytes_determine [OF t1 t2 tail])
  then have "same_meta (map SetMeta defaults) (map SetMeta defaults')"
    by (rule same_meta_permuted) (simp_all add: 1(7) 2(7))
  with p(1) s(1) q(1) ops show ?thesis by (simp add: same_tx_def)
qed

section \<open>Assertions\<close>

lemma assertion_v1_Ok:
  assumes "canonical_bytes_assertion_v1 pred tup schema meta = Inr b"
  shows "\<exists>ts f m p bf s bm. tup = PTuple ts \<and> canonical_bytes_tup_v1 ts = Inr f \<and>
     canonical_meta_entries_bytes (map SetMeta meta) = Inr m \<and> str_field pred = Inr p \<and> bytes_field f = Inr bf \<and>
     str_field schema = Inr s \<and> bytes_field m = Inr bm \<and> b = ASSERTION_V1_PREFIX @ p @ bf @ s @ bm"
proof -
  from assms obtain facts entries f m p bf s bm where
    facts: "normalize_fact_tuple tup = Inr facts" and entries: "normalize_meta_entries meta = Inr entries" and
    rest: "canonical_bytes_tup_v1 facts = Inr f" "canonical_meta_entries_bytes (map SetMeta entries) = Inr m"
    "str_field pred = Inr p" "bytes_field f = Inr bf" "str_field schema = Inr s" "bytes_field m = Inr bm"
    "b = ASSERTION_V1_PREFIX @ p @ bf @ s @ bm"
    by (auto simp only: canonical_bytes_assertion_v1_def bindE_Inr_iff sum.inject sum.distinct split: if_split_asm)
  have "tup = PTuple facts"
    using facts by (auto simp: normalize_fact_tuple_def bindE_Inr_iff split: pyval.splits list.splits if_splits)
  with rest normalize_meta_entries_same [OF entries] show ?thesis by blast
qed

lemma assertion_v1_determines:
  assumes "canonical_bytes_assertion_v1 pred tup schema meta = Inr b"
    "canonical_bytes_assertion_v1 pred' tup' schema' meta' = Inr b"
  shows "\<exists>ts ts' f. tup = PTuple ts \<and> tup' = PTuple ts' \<and> canonical_bytes_tup_v1 ts = Inr f \<and>
     canonical_bytes_tup_v1 ts' = Inr f \<and> pred = pred' \<and> schema = schema' \<and>
     same_meta (map SetMeta meta) (map SetMeta meta')"
proof -
  from assertion_v1_Ok [OF assms(1)] obtain ts f m p bf s bm where
    1: "tup = PTuple ts" "canonical_bytes_tup_v1 ts = Inr f" "canonical_meta_entries_bytes (map SetMeta meta) = Inr m"
      "str_field pred = Inr p" "bytes_field f = Inr bf" "str_field schema = Inr s" "bytes_field m = Inr bm" and
    b1: "b = ASSERTION_V1_PREFIX @ p @ bf @ s @ bm" by blast
  from assertion_v1_Ok [OF assms(2)] obtain ts' f' m' p' bf' s' bm' where
    2: "tup' = PTuple ts'" "canonical_bytes_tup_v1 ts' = Inr f'" "canonical_meta_entries_bytes (map SetMeta meta') = Inr m'"
      "str_field pred' = Inr p'" "bytes_field f' = Inr bf'" "str_field schema' = Inr s'" "bytes_field m' = Inr bm'" and
    b2: "b = ASSERTION_V1_PREFIX @ p' @ bf' @ s' @ bm'" by blast
  have eq: "p @ bf @ s @ bm @ [] = p' @ bf' @ s' @ bm' @ []" using b1 b2 by simp
  note p = field_splits(3,4) [OF 1(4) 2(4) eq]
  note f = field_splits(1,2) [OF 1(5) 2(5) p(2)]
  note s = field_splits(3,4) [OF 1(6) 2(6) f(2)]
  note m = field_splits(1,2) [OF 1(7) 2(7) s(2)]
  have "same_meta (map SetMeta meta) (map SetMeta meta')"
    by (rule self_delimitingD(1) [OF meta_entries_delimit 1(3) 2(3), of "[]" "[]"]) (simp add: m(1))
  with 1(1,2) 2(1,2) p(1) f(1) s(1) show ?thesis by auto
qed

section \<open>The chain behind a head\<close>

definition tx_object_bytes :: "tx_object \<Rightarrow> bytes res" where
  "tx_object_bytes t =
     canonical_bytes_dbtx_v2 (to_parent t) (to_schema t) (to_scheme t) (to_seq t) (to_ops t) (to_defaults t)"

text \<open>What is read under an id hashes to it.\<close>

lemma read_tx_object_id:
  assumes "read_tx_object sha files c = Inr t"
  shows "to_id t = c \<and> to_scheme t = LTHASH_SCHEME \<and>
     (\<exists>b. tx_object_bytes t = Inr b \<and> c = u ''tx:'' @ sha256_hex sha b)"
proof -
  from assms obtain parent schema scheme q ops defaults where
    t: "tx_id_for_v2 sha parent schema scheme q ops defaults = Inr c"
      "t = \<lparr>to_id = c, to_parent = parent, to_schema = schema, to_scheme = scheme, to_seq = q, to_ops = ops, to_defaults = defaults\<rparr>"
    by (auto simp only: read_tx_object_def bindE_Inr_iff Let_def sum.inject sum.distinct split: option.splits if_split_asm) blast+
  then obtain b where b: "canonical_bytes_dbtx_v2 parent schema scheme q ops defaults = Inr b" "c = u ''tx:'' @ sha256_hex sha b"
    by (auto simp: tx_id_for_v2_def bindE_Inr_iff)
  with dbtx_v2_Ok [OF b(1)] t(2) show ?thesis by (auto simp: tx_object_bytes_def)
qed

definition same_object :: "tx_object \<Rightarrow> tx_object \<Rightarrow> bool" where
  "same_object t t' \<longleftrightarrow> to_id t = to_id t' \<and> to_scheme t = to_scheme t' \<and>
     same_tx (to_parent t) (to_schema t) (to_seq t) (to_ops t) (to_defaults t)
       (to_parent t') (to_schema t') (to_seq t') (to_ops t') (to_defaults t')"

text \<open>Two objects of one id that SHA-256 fails to tell apart.\<close>

definition colliding :: "(bytes \<Rightarrow> bytes) \<Rightarrow> tx_object \<Rightarrow> tx_object \<Rightarrow> bool" where
  "colliding sha t t' \<longleftrightarrow> (\<exists>b b'. tx_object_bytes t = Inr b \<and> tx_object_bytes t' = Inr b' \<and> b \<noteq> b' \<and> sha b = sha b')"

lemma same_id_same_object:
  assumes "read_tx_object sha files c = Inr t" "read_tx_object sha files' c = Inr t'"
  shows "same_object t t' \<or> colliding sha t t'"
proof -
  from read_tx_object_id [OF assms(1)] read_tx_object_id [OF assms(2)] obtain b b' where
    ids: "to_id t = c" "to_id t' = c" "to_scheme t = to_scheme t'" and
    b: "tx_object_bytes t = Inr b" "tx_object_bytes t' = Inr b'" and "sha256_hex sha b = sha256_hex sha b'" by auto
  then have sha: "sha b = sha b'" by (intro sha256_hex_inj)
  show ?thesis
  proof (cases "b = b'")
    case True
    with b have "same_tx (to_parent t) (to_schema t) (to_seq t) (to_ops t) (to_defaults t)
       (to_parent t') (to_schema t') (to_seq t') (to_ops t') (to_defaults t')"
      unfolding tx_object_bytes_def by (intro dbtx_v2_determines) simp_all
    with ids show ?thesis by (simp add: same_object_def)
  next
    case False
    with b sha show ?thesis by (auto simp: colliding_def)
  qed
qed

lemma same_head_same_chain:
  "tx_chain sha files seen c = Inr ts \<Longrightarrow> tx_chain sha files' seen' c = Inr ts' \<Longrightarrow>
   list_all2 same_object ts ts' \<or> (\<exists>t \<in> set ts. \<exists>t' \<in> set ts'. to_id t = to_id t' \<and> colliding sha t t')"
proof (induction sha files seen c arbitrary: seen' ts ts' rule: tx_chain.induct)
  case (1 sha files seen)
  then show ?case by (simp add: tx_chain.simps)
next
  case (2 sha files seen c)
  from 2(2) obtain t tl where t: "c \<notin> seen" "read_tx_object sha files c = Inr t"
      "tx_chain sha files (insert c seen) (to_parent t) = Inr tl" "ts = t # tl"
    by (auto simp: tx_chain.simps bindE_Inr_iff split: if_splits)
  from 2(3) obtain t' tl' where t': "read_tx_object sha files' c = Inr t'"
      "tx_chain sha files' (insert c seen') (to_parent t') = Inr tl'" "ts' = t' # tl'"
    by (auto simp: tx_chain.simps bindE_Inr_iff split: if_splits)
  from same_id_same_object [OF t(2) t'(1)] show ?case
  proof
    assume "colliding sha t t'"
    then show ?thesis using read_tx_object_id [OF t(2)] read_tx_object_id [OF t'(1)] by (auto simp: t(4) t'(3))
  next
    assume same: "same_object t t'"
    then have "to_parent t' = to_parent t" by (simp add: same_object_def same_tx_def)
    with t'(2) have "tx_chain sha files' (insert c seen') (to_parent t) = Inr tl'" by simp
    from 2(1) [OF t(1,2,3) this] same show ?thesis by (auto simp: t(4) t'(3))
  qed
qed

end
