(* ===== verification/Database_Roundtrip.thy ===== *)
theory Database_Roundtrip
  imports Database_Laws
begin

text \<open>
  A transaction object that was written reads back as it was.  The metadata values must survive
  \<open>_to_jsonable\<close> and \<open>_from_jsonable\<close>, as texts, integers, booleans, times and byte strings do;
  a tuple comes back as a list.
\<close>

lemma key_of_eq [simp]: "key_of k = key_of k' \<longleftrightarrow> k = k'"
  by (simp add: key_of_def)

lemma canon_dict:
  assumes "json_canon (PDict d) = Inr c" "distinct (map fst d)"
  shows "\<exists>d'. c = PDict d' \<and> set (map fst d') = set (map fst d) \<and>
    (\<forall>(k, v) \<in> set d. \<exists>w. json_canon v = Inr w \<and> map_of d' k = Some w)"
proof -
  let ?f = "\<lambda>(k, v). bindE (json_canon v) (\<lambda>w. Inr (k, w))"
  from assms(1) obtain es where es: "mapE ?f d = Inr es" and c: "c = PDict (sort_key (\<lambda>(k, v). json_key k) es)"
    by (auto simp: bindE_Inr_iff)
  have rel: "list_all2 (\<lambda>p q. fst q = fst p \<and> json_canon (snd p) = Inr (snd q)) d es"
    using es by (auto simp: mapE_Inr_iff bindE_Inr_iff split_beta elim!: list_all2_mono)
  then have keys: "map fst es = map fst d"
    by (auto simp: list_all2_conv_all_nth list_eq_iff_nth_eq)
  let ?d' = "sort_key (\<lambda>(k, v). json_key k) es"
  have perm: "set ?d' = set es" by simp
  have "distinct (map fst ?d')"
  proof -
    have "mset (map fst ?d') = mset (map fst es)" by simp
    then show ?thesis using assms(2) keys by (metis mset_eq_imp_distinct_iff)
  qed
  then have of: "map_of ?d' = map_of es"
    using assms(2) by (subst map_of_inject_set) (simp_all add: keys)
  have "\<exists>w. json_canon v = Inr w \<and> map_of ?d' k = Some w" if kv: "(k, v) \<in> set d" for k v
  proof -
    from kv obtain i where i: "i < length d" "d ! i = (k, v)" by (auto simp: in_set_conv_nth)
    with rel have e: "i < length es" "fst (es ! i) = k" "json_canon v = Inr (snd (es ! i))"
      by (auto simp: list_all2_conv_all_nth)
    then have "(k, snd (es ! i)) \<in> set es" by (metis nth_mem prod.collapse)
    then have "map_of es k = Some (snd (es ! i))" using assms(2) keys by (simp add: map_of_is_SomeI)
    then show ?thesis using e(3) of by simp
  qed
  moreover have "set (map fst ?d') = set (map fst d)"
    using perm keys by (metis image_set)
  ultimately show ?thesis by (auto simp: c)
qed

lemma canon_fields:
  assumes "json_canon (PDict d) = Inr c" "distinct (map fst d)"
  shows "\<exists>d'. c = PDict d' \<and> set (map fst d') = set (map fst d) \<and>
    (\<forall>(x, v) \<in> set d. \<forall>k. x = key_of k \<longrightarrow> json_canon v = Inr (dict_field d' k))"
proof -
  from canon_dict [OF assms] obtain d' where d': "c = PDict d'" "set (map fst d') = set (map fst d)"
    "\<forall>(k, v) \<in> set d. \<exists>w. json_canon v = Inr w \<and> map_of d' k = Some w" by blast
  have "json_canon v = Inr (dict_field d' k)" if "(key_of k, v) \<in> set d" for k v
    using d'(3) that by (fastforce simp: dict_field_def dict_field_or_def key_of_def)
  with d'(1,2) show ?thesis by (intro exI [of _ d']) auto
qed

section \<open>Values that survive\<close>

definition survives :: "pyval \<Rightarrow> bool" where
  "survives v \<longleftrightarrow> (\<forall>j c. to_jsonable v = Inr j \<longrightarrow> json_canon j = Inr c \<longrightarrow> from_jsonable c = Inr v)"

lemma survives_atoms [simp]:
  "survives PNone" "survives (PBool b)" "survives (PInt i)" "survives (PFloat w)" "survives (PStr s)"
  by (auto simp: survives_def split: if_splits)

lemma survives_bytes: "survives (PBytes BBytes b)"
  by (auto simp: survives_def bindE_Inr_iff py_b64decode_def)

definition op_survives :: "tx_op \<Rightarrow> bool" where
  "op_survives op \<longleftrightarrow> (case op of
      OpRevocation _ _ meta \<Rightarrow> \<forall>e \<in> set meta. survives (me_value e)
    | OpAppendMeta _ (SetMeta e) \<Rightarrow> survives (me_value e)
    | _ \<Rightarrow> True)"

section \<open>Metadata entries\<close>

lemma require_asrt_id_same: "require_asrt_id (PStr a) = Inr a' \<Longrightarrow> require_asrt_id (PStr a) = Inr a"
  by (auto simp: require_asrt_id_def Let_def split: if_splits)

lemma require_token_same: "require_token p (PStr a) = Inr a' \<Longrightarrow> require_token p (PStr a) = Inr a"
  by (auto simp: require_token_def split: if_splits)

lemma raw_entry_back:
  assumes "meta_entry_payload e = Inr p" "json_canon p = Inr c" "survives (me_value e)"
  shows "raw_meta_entry c = Inr (PStr (me_key e), PStr (me_kind e), me_value e)"
proof -
  from assms(1) obtain j where j: "to_jsonable (me_value e) = Inr j" and
    p: "p = PDict [(key_of ''key'', PStr (me_key e)), (key_of ''kind'', PStr (me_kind e)), (key_of ''value'', j)]"
    by (auto simp: meta_entry_payload_def bindE_Inr_iff)
  obtain d where d: "c = PDict d" "set (map fst d) = set (map key_of [''key'', ''kind'', ''value''])"
    "json_canon (PStr (me_key e)) = Inr (dict_field d ''key'')" "json_canon (PStr (me_kind e)) = Inr (dict_field d ''kind'')"
    "json_canon j = Inr (dict_field d ''value'')"
    using canon_fields [OF assms(2) [unfolded p]] by auto
  have "from_jsonable (dict_field d ''value'') = Inr (me_value e)" using assms(3) j d(5) by (auto simp: survives_def)
  with d show ?thesis by (simp add: raw_meta_entry_def as_dict_def require_exact_keys_def)
qed

lemma checked_entry_back:
  "normalize_meta_entry e = Inr e' \<Longrightarrow> checked_meta_entry (PStr (me_key e), PStr (me_kind e), me_value e) = Inr e"
  by (auto simp: normalize_meta_entry_def checked_meta_entry_def as_name_def split: if_splits)

lemma meta_change_back:
  assumes "meta_change_payload c = Inr p" "json_canon p = Inr doc"
    "(case c of SetMeta e \<Rightarrow> normalize_meta_entry e = Inr e \<and> (\<exists>b. meta_value_bytes (me_kind e) (me_value e) = Inr b) \<and> survives (me_value e)
       | UnsetMeta k \<Rightarrow> k \<noteq> [])"
  shows "read_meta_change doc = Inr c"
proof (cases c)
  case (SetMeta e)
  with assms have e: "meta_entry_payload e = Inr p" "normalize_meta_entry e = Inr e" "survives (me_value e)"
    "\<exists>b. meta_value_bytes (me_kind e) (me_value e) = Inr b" by (auto simp: meta_change_payload_def)
  show ?thesis
    using raw_entry_back [OF e(1) assms(2) e(3)] checked_entry_back [OF e(2)] e(4)
    by (auto simp: read_meta_change_def SetMeta)
next
  case (UnsetMeta k)
  with assms(1) have p: "p = PDict [(key_of ''key'', PStr k), (key_of ''kind'', PNone), (key_of ''value'', PNone)]"
    by (simp add: meta_change_payload_def)
  obtain d where d: "doc = PDict d" "set (map fst d) = set (map key_of [''key'', ''kind'', ''value''])"
    "json_canon (PStr k) = Inr (dict_field d ''key'')" "json_canon PNone = Inr (dict_field d ''kind'')"
    "json_canon PNone = Inr (dict_field d ''value'')"
    using canon_fields [OF assms(2) [unfolded p]] by auto
  from d(3-5) have "dict_field d ''key'' = PStr k" "dict_field d ''kind'' = PNone" "dict_field d ''value'' = PNone" by simp_all
  with d(1,2) assms(3) show ?thesis
    by (simp add: read_meta_change_def raw_meta_entry_def as_dict_def require_exact_keys_def as_name_def UnsetMeta)
qed

lemma entries_back:
  assumes "mapE meta_entry_payload es = Inr ps" "mapE json_canon ps = Inr cs" "\<forall>e \<in> set es. survives (me_value e)"
  shows "mapE raw_meta_entry cs = Inr (map (\<lambda>e. (PStr (me_key e), PStr (me_kind e), me_value e)) es)"
  using assms
proof (induction es arbitrary: ps cs)
  case (Cons e es)
  from Cons.prems(1) obtain p ps' where p: "meta_entry_payload e = Inr p" "mapE meta_entry_payload es = Inr ps'" "ps = p # ps'"
    by (auto simp: bindE_Inr_iff)
  from Cons.prems(2) obtain c cs' where c: "json_canon p = Inr c" "mapE json_canon ps' = Inr cs'" "cs = c # cs'"
    by (auto simp: bindE_Inr_iff p(3))
  from raw_entry_back [OF p(1) c(1)] Cons.IH [OF p(2) c(2)] Cons.prems(3) show ?case by (simp add: c(3))
qed (auto)

lemma checked_entries_back:
  "mapE normalize_meta_entry es = Inr es' \<Longrightarrow>
   mapE checked_meta_entry (map (\<lambda>e. (PStr (me_key e), PStr (me_kind e), me_value e)) es) = Inr es"
  by (induction es arbitrary: es') (auto simp: bindE_Inr_iff checked_entry_back)

section \<open>Operations\<close>

lemma op_back:
  assumes "tx_operation_payload op = Inr p" "json_canon p = Inr c" "op_survives op"
    "\<And>a k. op = OpAppendMeta a (UnsetMeta k) \<Longrightarrow> k \<noteq> []"
  shows "read_tx_operation c = Inr op"
proof -
  from assms(1) obtain op' where norm: "normalize_tx_operation op = Inr op'"
    by (auto simp: tx_operation_payload_def bindE_Inr_iff)
  show ?thesis
  proof (cases op)
    case (OpAssertion a g)
    with assms(1) have p: "p = PDict (op_fields ''assertion'' [(''asrt_id'', a), (''assertion_digest'', g)])"
      by (auto simp: tx_operation_payload_def bindE_Inr_iff)
    obtain d where d: "c = PDict d" "set (map fst d) = set (map key_of [''kind'', ''asrt_id'', ''assertion_digest''])"
      "json_canon (key_of ''assertion'') = Inr (dict_field d ''kind'')"
      "json_canon (PStr a) = Inr (dict_field d ''asrt_id'')" "json_canon (PStr g) = Inr (dict_field d ''assertion_digest'')"
      using canon_fields [OF assms(2) [unfolded p op_fields_def]] by auto
    from norm have "require_asrt_id (PStr a) = Inr a" "require_token (u ''sha256:'') (PStr g) = Inr g"
      by (auto simp: OpAssertion normalize_tx_operation_def bindE_Inr_iff intro: require_asrt_id_same require_token_same)
    moreover from d(3-5) have "dict_field d ''kind'' = key_of ''assertion''" "dict_field d ''asrt_id'' = PStr a"
      "dict_field d ''assertion_digest'' = PStr g" by (simp_all add: key_of_def)
    ultimately show ?thesis using d(1,2)
      by (simp add: read_tx_operation_def as_dict_def require_exact_keys_def OpAssertion)
  next
    case (OpRevocation r t meta)
    with assms(1) obtain ms where ms: "mapE meta_entry_payload meta = Inr ms" and
      p: "p = PDict (op_fields ''revocation'' [(''revoker_asrt_id'', r), (''revoked_asrt_id'', t)] @ [(key_of ''meta'', PList ms)])"
      by (auto simp: tx_operation_payload_def bindE_Inr_iff)
    obtain d where d: "c = PDict d" "set (map fst d) = set (map key_of [''kind'', ''revoker_asrt_id'', ''revoked_asrt_id'', ''meta''])"
      "json_canon (key_of ''revocation'') = Inr (dict_field d ''kind'')"
      "json_canon (PStr r) = Inr (dict_field d ''revoker_asrt_id'')" "json_canon (PStr t) = Inr (dict_field d ''revoked_asrt_id'')"
      "json_canon (PList ms) = Inr (dict_field d ''meta'')"
      using canon_fields [OF assms(2) [unfolded p op_fields_def]] by auto
    from d(6) obtain cs where cs: "mapE json_canon ms = Inr cs" "dict_field d ''meta'' = PList cs" by (auto simp: bindE_Inr_iff)
    from norm obtain meta' where meta': "mapE normalize_meta_entry meta = Inr meta'"
      and ids: "require_asrt_id (PStr r) = Inr r" "require_asrt_id (PStr t) = Inr t"
      by (auto simp: OpRevocation normalize_tx_operation_def normalize_meta_entries_def bindE_Inr_iff intro: require_asrt_id_same)
    note readback = entries_back [OF ms cs(1)] checked_entries_back [OF meta']
    from d(3-5) have f: "dict_field d ''kind'' = key_of ''revocation''" "dict_field d ''revoker_asrt_id'' = PStr r"
      "dict_field d ''revoked_asrt_id'' = PStr t" by (simp_all add: key_of_def)
    have "mapE raw_meta_entry cs = Inr (map (\<lambda>e. (PStr (me_key e), PStr (me_kind e), me_value e)) meta)"
      using assms(3) by (intro readback(1)) (simp add: OpRevocation op_survives_def)
    then show ?thesis using d(1,2) f ids cs(2) readback(2)
      by (simp add: read_tx_operation_def as_dict_def as_sequence_def require_exact_keys_def OpRevocation)
  next
    case (OpAppendMeta a ch)
    with assms(1) obtain m where m: "meta_change_payload ch = Inr m" and
      p: "p = PDict (op_fields ''append_meta'' [(''asrt_id'', a)] @ [(key_of ''meta'', m)])"
      by (auto simp: tx_operation_payload_def bindE_Inr_iff)
    obtain d where d: "c = PDict d" "set (map fst d) = set (map key_of [''kind'', ''asrt_id'', ''meta''])"
      "json_canon (key_of ''append_meta'') = Inr (dict_field d ''kind'')"
      "json_canon (PStr a) = Inr (dict_field d ''asrt_id'')" "json_canon m = Inr (dict_field d ''meta'')"
      using canon_fields [OF assms(2) [unfolded p op_fields_def]] by auto
    from norm have id: "require_asrt_id (PStr a) = Inr a"
      by (auto simp: OpAppendMeta normalize_tx_operation_def bindE_Inr_iff intro: require_asrt_id_same)
    from d(3,4) have f: "dict_field d ''kind'' = key_of ''append_meta''" "dict_field d ''asrt_id'' = PStr a"
      by (simp_all add: key_of_def)
    have "read_meta_change (dict_field d ''meta'') = Inr ch"
    proof (rule meta_change_back [OF m d(5)])
      show "case ch of SetMeta e \<Rightarrow> normalize_meta_entry e = Inr e \<and> (\<exists>b. meta_value_bytes (me_kind e) (me_value e) = Inr b) \<and>
          survives (me_value e) | UnsetMeta k \<Rightarrow> k \<noteq> []"
        using norm assms(3,4)
        by (auto simp: OpAppendMeta normalize_tx_operation_def normalize_meta_entry_def op_survives_def bindE_Inr_iff
            split: meta_change.splits if_splits)
    qed
    then show ?thesis using d(1,2) f id
      by (simp add: read_tx_operation_def as_dict_def require_exact_keys_def OpAppendMeta)
  next
    case (OpSchemaChange old new)
    with assms(1) have p: "p = PDict (op_fields ''schema_change'' [(''old_schema_digest'', old), (''new_schema_digest'', new)])"
      by (auto simp: tx_operation_payload_def bindE_Inr_iff)
    obtain d where d: "c = PDict d" "set (map fst d) = set (map key_of [''kind'', ''old_schema_digest'', ''new_schema_digest''])"
      "json_canon (key_of ''schema_change'') = Inr (dict_field d ''kind'')"
      "json_canon (PStr old) = Inr (dict_field d ''old_schema_digest'')" "json_canon (PStr new) = Inr (dict_field d ''new_schema_digest'')"
      using canon_fields [OF assms(2) [unfolded p op_fields_def]] by auto
    from norm have "require_token (u ''sha256:'') (PStr old) = Inr old" "require_token (u ''sha256:'') (PStr new) = Inr new" "old \<noteq> new"
      by (auto simp: OpSchemaChange normalize_tx_operation_def bindE_Inr_iff intro: require_token_same split: if_splits)
    moreover from d(3-5) have "dict_field d ''kind'' = key_of ''schema_change''" "dict_field d ''old_schema_digest'' = PStr old"
      "dict_field d ''new_schema_digest'' = PStr new" by (simp_all add: key_of_def)
    ultimately show ?thesis using d(1,2)
      by (simp add: read_tx_operation_def as_dict_def require_exact_keys_def OpSchemaChange)
  next
    case (OpRepairAdd a)
    with assms(1) have p: "p = PDict (op_fields ''repair_add'' [(''asrt_id'', a)])"
      by (auto simp: tx_operation_payload_def bindE_Inr_iff)
    obtain d where d: "c = PDict d" "set (map fst d) = set (map key_of [''kind'', ''asrt_id''])"
      "json_canon (key_of ''repair_add'') = Inr (dict_field d ''kind'')" "json_canon (PStr a) = Inr (dict_field d ''asrt_id'')"
      using canon_fields [OF assms(2) [unfolded p op_fields_def]] by auto
    from norm have "require_asrt_id (PStr a) = Inr a"
      by (auto simp: OpRepairAdd normalize_tx_operation_def bindE_Inr_iff intro: require_asrt_id_same)
    moreover from d(3,4) have "dict_field d ''kind'' = key_of ''repair_add''" "dict_field d ''asrt_id'' = PStr a"
      by (simp_all add: key_of_def)
    ultimately show ?thesis using d(1,2)
      by (simp add: read_tx_operation_def as_dict_def require_exact_keys_def OpRepairAdd key_of_def)
  next
    case (OpRepairRemove a)
    with assms(1) have p: "p = PDict (op_fields ''repair_remove'' [(''asrt_id'', a)])"
      by (auto simp: tx_operation_payload_def bindE_Inr_iff)
    obtain d where d: "c = PDict d" "set (map fst d) = set (map key_of [''kind'', ''asrt_id''])"
      "json_canon (key_of ''repair_remove'') = Inr (dict_field d ''kind'')" "json_canon (PStr a) = Inr (dict_field d ''asrt_id'')"
      using canon_fields [OF assms(2) [unfolded p op_fields_def]] by auto
    from norm have "require_asrt_id (PStr a) = Inr a"
      by (auto simp: OpRepairRemove normalize_tx_operation_def bindE_Inr_iff intro: require_asrt_id_same)
    moreover from d(3,4) have "dict_field d ''kind'' = key_of ''repair_remove''" "dict_field d ''asrt_id'' = PStr a"
      by (simp_all add: key_of_def)
    ultimately show ?thesis using d(1,2)
      by (simp add: read_tx_operation_def as_dict_def require_exact_keys_def OpRepairRemove key_of_def)
  next
    case (OpRepair previous rebuilt reason)
    with assms(1) have p: "p = PDict (op_fields ''repair'' [(''previous_state_digest'', previous),
        (''rebuilt_state_digest'', rebuilt), (''reason'', reason)])"
      by (auto simp: tx_operation_payload_def bindE_Inr_iff)
    obtain d where d: "c = PDict d"
      "set (map fst d) = set (map key_of [''kind'', ''previous_state_digest'', ''rebuilt_state_digest'', ''reason''])"
      "json_canon (key_of ''repair'') = Inr (dict_field d ''kind'')"
      "json_canon (PStr previous) = Inr (dict_field d ''previous_state_digest'')"
      "json_canon (PStr rebuilt) = Inr (dict_field d ''rebuilt_state_digest'')" "json_canon (PStr reason) = Inr (dict_field d ''reason'')"
      using canon_fields [OF assms(2) [unfolded p op_fields_def]] by auto
    from norm obtain st where n: "previous \<noteq> []" "reason \<noteq> []" "decode_state (PStr rebuilt) = Inr st"
      by (auto simp: OpRepair normalize_tx_operation_def bindE_Inr_iff split: if_splits)
    from d(3-6) have f: "dict_field d ''kind'' = key_of ''repair''" "dict_field d ''previous_state_digest'' = PStr previous"
      "dict_field d ''rebuilt_state_digest'' = PStr rebuilt" "dict_field d ''reason'' = PStr reason"
      by (simp_all add: key_of_def)
    have keys: "require_exact_keys d [''kind'', ''previous_state_digest'', ''rebuilt_state_digest'', ''reason''] = Inr ()"
      using d(2) by (simp add: require_exact_keys_def)
    have "read_repair d = Inr (OpRepair previous rebuilt reason)"
      unfolding read_repair_def keys f using n by (simp add: as_name_def as_str_def)
    then show ?thesis using d(1) f(1)
      by (simp add: read_tx_operation_def as_dict_def OpRepair key_of_def)
  qed
qed

section \<open>Whole objects\<close>

definition tx_survives :: "tx_object \<Rightarrow> bool" where
  "tx_survives t \<longleftrightarrow> (\<forall>op \<in> set (to_ops t). op_survives op \<and> (\<forall>a. op \<noteq> OpAppendMeta a (UnsetMeta []))) \<and>
     (\<forall>e \<in> set (to_defaults t). survives (me_value e))"

lemma ops_back:
  "mapE tx_operation_payload ops = Inr ps \<Longrightarrow> mapE json_canon ps = Inr cs \<Longrightarrow>
   \<forall>op \<in> set ops. op_survives op \<and> (\<forall>a. op \<noteq> OpAppendMeta a (UnsetMeta [])) \<Longrightarrow>
   mapE read_tx_operation cs = Inr ops"
proof (induction ops arbitrary: ps cs)
  case (Cons op ops)
  from Cons.prems(1) obtain p ps' where p: "tx_operation_payload op = Inr p" "mapE tx_operation_payload ops = Inr ps'" "ps = p # ps'"
    by (auto simp: bindE_Inr_iff)
  from Cons.prems(2) obtain c cs' where c: "json_canon p = Inr c" "mapE json_canon ps' = Inr cs'" "cs = c # cs'"
    by (auto simp: bindE_Inr_iff p(3))
  have "read_tx_operation c = Inr op" using Cons.prems(3) by (intro op_back [OF p(1) c(1)]) auto
  moreover have "mapE read_tx_operation cs' = Inr ops" using Cons.prems(3) by (intro Cons.IH [OF p(2) c(2)]) simp
  ultimately show ?case by (simp add: c(3))
qed simp

lemma default_keys_back:
  "mapE meta_entry_payload es = Inr ps \<Longrightarrow> mapE json_canon ps = Inr cs \<Longrightarrow> \<forall>e \<in> set es. me_key e \<noteq> [] \<Longrightarrow>
   mapE read_meta_default_key cs = Inr (map me_key es)"
proof (induction es arbitrary: ps cs)
  case (Cons e es)
  from Cons.prems(1) obtain q ps' where q: "meta_entry_payload e = Inr q" "mapE meta_entry_payload es = Inr ps'" "ps = q # ps'"
    by (auto simp: bindE_Inr_iff)
  from q obtain j where p: "mapE meta_entry_payload es = Inr ps'"
      "ps = PDict [(key_of ''key'', PStr (me_key e)), (key_of ''kind'', PStr (me_kind e)), (key_of ''value'', j)] # ps'"
    by (auto simp: bindE_Inr_iff meta_entry_payload_def)
  from Cons.prems(2) obtain c cs' where
    c: "json_canon (PDict [(key_of ''key'', PStr (me_key e)), (key_of ''kind'', PStr (me_kind e)), (key_of ''value'', j)]) = Inr c"
      "mapE json_canon ps' = Inr cs'" "cs = c # cs'"
    unfolding p(2) mapE.simps(2) bindE_Inr_iff by blast
  obtain d where d: "c = PDict d" "set (map fst d) = set (map key_of [''key'', ''kind'', ''value''])"
    "json_canon (PStr (me_key e)) = Inr (dict_field d ''key'')"
    using canon_fields [OF c(1)] by auto
  from d(3) have k: "dict_field d ''key'' = PStr (me_key e)" by simp
  have "mapE read_meta_default_key cs' = Inr (map me_key es)" using Cons.prems(3) by (intro Cons.IH [OF p(1) c(2)]) simp
  moreover have "read_meta_default_key c = Inr (me_key e)"
    using d(1,2) k Cons.prems(3) by (simp add: read_meta_default_key_def as_dict_def require_exact_keys_def as_name_def)
  ultimately show ?case by (simp add: c(3))
qed simp

lemma mapE_compose:
  "mapE f xs = Inr ys \<Longrightarrow> mapE g ys = Inr zs \<Longrightarrow> mapE (\<lambda>x. bindE (f x) g) xs = Inr zs"
  by (induction xs arbitrary: ys zs) (auto simp: bindE_Inr_iff)

lemma normalize_defaults_again:
  assumes "normalize_tx_meta_defaults rows = Inr ds"
  shows "normalize_tx_meta_defaults ds = Inr ds" "sorted (map me_key ds)" "distinct (map me_key ds)"
    "\<forall>e \<in> set ds. me_key e \<noteq> []" "mapE normalize_meta_entry ds = Inr ds"
proof -
  from assms obtain es where es: "normalize_meta_entries rows = Inr es" and
    rej: "reject_reserved_meta_keys (map me_key es) = Inr ()" "reject_system_managed_meta_keys (map me_key es) = Inr ()"
      "\<not> list_ex (\<lambda>k. starts_with k SYSTEM_PREFIX) (map me_key es)" and
    d: "distinct (map me_key es)" "ds = sort_key me_key es"
    by (auto simp: normalize_tx_meta_defaults_def bindE_Inr_iff Let_def split: if_split_asm)
  have rows: "rows = es" by (rule normalize_meta_entries_same [OF es, symmetric])
  show sorted: "sorted (map me_key ds)" by (simp add: d(2))
  have keys: "set (map me_key ds) = set (map me_key es)" by (simp add: d(2))
  have m: "mset (map me_key ds) = mset (map me_key es)" by (simp add: d(2))
  then show dist: "distinct (map me_key ds)" using d(1) mset_eq_imp_distinct_iff by blast
  have all: "\<forall>e \<in> set es. normalize_meta_entry e = Inr e"
    using es rows by (auto simp: normalize_meta_entries_def mapE_Inr_iff list_all2_same)
  then have all: "\<forall>e \<in> set ds. normalize_meta_entry e = Inr e" by (simp add: d(2))
  then show "\<forall>e \<in> set ds. me_key e \<noteq> []" by (auto simp: normalize_meta_entry_def split: if_splits)
  show norm: "mapE normalize_meta_entry ds = Inr ds" using all by (simp add: mapE_Inr_iff list_all2_same)
  have "reject_reserved_meta_keys (map me_key ds) = Inr ()" "reject_system_managed_meta_keys (map me_key ds) = Inr ()"
    "\<not> list_ex (\<lambda>k. starts_with k SYSTEM_PREFIX) (map me_key ds)"
    using rej keys by (simp_all add: reject_reserved_meta_keys_def reject_system_managed_meta_keys_def list_ex_iff split: if_splits)
  moreover have "sort_key me_key ds = ds" using sorted by (rule sort_key_id_if_sorted)
  ultimately show "normalize_tx_meta_defaults ds = Inr ds"
    using norm dist by (simp add: normalize_tx_meta_defaults_def normalize_meta_entries_def)
qed

lemma defaults_back:
  assumes "normalize_tx_meta_defaults rows = Inr ds" "tx_meta_defaults_payload ds = Inr p" "json_canon p = Inr c"
    "\<forall>e \<in> set ds. survives (me_value e)"
  shows "read_tx_meta_defaults c = Inr ds"
proof -
  note n = normalize_defaults_again [OF assms(1)]
  from assms(2) n(1) obtain ms where ms: "mapE meta_entry_payload ds = Inr ms" "p = PList ms"
    by (auto simp: tx_meta_defaults_payload_def bindE_Inr_iff)
  from assms(3) obtain cs where cs: "mapE json_canon ms = Inr cs" "c = PList cs" by (auto simp: ms(2) bindE_Inr_iff)
  have "mapE (\<lambda>row. bindE (raw_meta_entry row) checked_meta_entry) cs = Inr ds"
    by (rule mapE_compose [OF entries_back [OF ms(1) cs(1) assms(4)] checked_entries_back [OF n(5)]])
  then show ?thesis using default_keys_back [OF ms(1) cs(1) n(4)] n(1-3)
    by (simp add: read_tx_meta_defaults_def as_list_def cs(2))
qed

lemma parent_back: "require_parent parent = Inr x \<Longrightarrow> json_canon (parent_value parent) = Inr w \<Longrightarrow> read_parent w = Inr parent"
  by (auto simp: require_parent_def parent_value_def read_parent_def bindE_Inr_iff split: option.splits dest: require_token_same)

lemma dict_get_other: "write_tx_object sha t files = Inr files' \<Longrightarrow> c \<noteq> to_id t \<Longrightarrow> dict_get files' c = dict_get files c"
  by (auto simp: write_tx_object_def write_once_def bindE_Inr_iff require_token_def split: option.splits if_splits pyval.splits)

lemma tx_object_back:
  assumes "write_tx_object sha t files = Inr files'" "dict_get files (to_id t) = None" "tx_survives t"
  shows "read_tx_object sha files' (to_id t) = Inr (t\<lparr>to_defaults := sort_key me_key (to_defaults t)\<rparr>)"
proof -
  let ?ds = "sort_key me_key (to_defaults t)"
  from assms(1) obtain ops ds ps extra x where
    id: "require_token (u ''tx:'') (PStr (to_id t)) = Inr x" and ops: "normalize_tx_operations (to_ops t) = Inr ops"
    and ds: "normalize_tx_meta_defaults (to_defaults t) = Inr ds"
    and txid: "tx_id_for_v2 sha (to_parent t) (to_schema t) (to_scheme t) (to_seq t) ops ds = Inr (to_id t)"
    and ps: "mapE tx_operation_payload ops = Inr ps" and extra: "defaults_field ds = Inr extra"
    and wr: "write_once (to_id t) (PDict (tx_document t ps extra)) files = Inr files'"
    unfolding write_tx_object_def bindE_Inr_iff by (auto simp: bindE_Inr_iff split: if_split_asm)
  have ops': "ops = to_ops t" by (rule normalize_tx_operations_same [OF ops])
  have ds': "ds = ?ds" using normalize_defaults_sorted [OF ds] by simp
  from wr assms(2) obtain c where c: "json_canon (PDict (tx_document t ps extra)) = Inr c" "files' = dict_set (to_id t) c files"
    unfolding write_once_def by (auto simp: bindE_Inr_iff simp del: json_canon.simps)
  have ex: "(ds = [] \<and> extra = []) \<or> (ds \<noteq> [] \<and> (\<exists>p. tx_meta_defaults_payload ds = Inr p \<and> extra = [(key_of ''meta_defaults'', p)]))"
    using extra by (auto simp: defaults_field_def bindE_Inr_iff split: if_split_asm)
  have "distinct (map fst (tx_document t ps extra))" using ex by (auto simp: tx_document_def)
  from canon_fields [OF c(1) this] obtain d where d: "c = PDict d" "set (map fst d) = set (map fst (tx_document t ps extra))"
    and all: "\<forall>(y, v) \<in> set (tx_document t ps extra). \<forall>k. y = key_of k \<longrightarrow> json_canon v = Inr (dict_field d k)" by blast
  from all have f: "json_canon (PStr (to_scheme t)) = Inr (dict_field d ''digest_scheme'')"
    "json_canon (PList ps) = Inr (dict_field d ''operations'')"
    "json_canon (parent_value (to_parent t)) = Inr (dict_field d ''parent_tx_id'')"
    "json_canon (PStr (to_schema t)) = Inr (dict_field d ''schema_digest'')"
    "json_canon (PInt (int (to_seq t))) = Inr (dict_field d ''tx_seq'')" "json_canon (PStr (to_id t)) = Inr (dict_field d ''tx_id'')"
    and de: "\<forall>(y, v) \<in> set extra. \<forall>k. y = key_of k \<longrightarrow> json_canon v = Inr (dict_field d k)"
    unfolding tx_document_def by (simp_all del: json_canon.simps)
  from txid obtain b where can: "canonical_bytes_dbtx_v2 (to_parent t) (to_schema t) (to_scheme t) (to_seq t) ops ds = Inr b"
    by (auto simp: tx_id_for_v2_def bindE_Inr_iff)
  then have pre: "\<exists>z. require_parent (to_parent t) = Inr z" "\<exists>z. require_token (u ''sha256:'') (PStr (to_schema t)) = Inr z"
    "to_scheme t = LTHASH_SCHEME"
    by (auto simp only: canonical_bytes_dbtx_v2_def bindE_Inr_iff sum.distinct split: if_split_asm)
  from f(2) obtain cs where cs: "mapE json_canon ps = Inr cs" "dict_field d ''operations'' = PList cs" by (auto simp: bindE_Inr_iff)
  have rops: "mapE read_tx_operation cs = Inr ops"
    using assms(3) by (intro ops_back [OF ps cs(1)]) (simp add: ops' tx_survives_def)
  have keys: "set (map fst d) = set (map key_of (if ds = [] then TX_OBJECT_KEYS else ''meta_defaults'' # TX_OBJECT_KEYS))"
    using d(2) ex by (auto simp: TX_OBJECT_KEYS_def tx_document_def)
  have has: "has_field d ''meta_defaults'' \<longleftrightarrow> ds \<noteq> []"
  proof -
    have "has_field d ''meta_defaults'' \<longleftrightarrow> key_of ''meta_defaults'' \<in> set (map fst d)"
      by (simp add: has_field_def key_of_def map_of_eq_None_iff del: not_None_eq)
    also have "\<dots> \<longleftrightarrow> ds \<noteq> []" unfolding keys by (auto simp: TX_OBJECT_KEYS_def)
    finally show ?thesis .
  qed
  have rds: "(if has_field d ''meta_defaults'' then read_tx_meta_defaults (dict_field d ''meta_defaults'') else Inr []) = Inr ds"
  proof (cases "ds = []")
    case False
    with ex obtain p where p: "tx_meta_defaults_payload ds = Inr p" "extra = [(key_of ''meta_defaults'', p)]" by blast
    then have "json_canon p = Inr (dict_field d ''meta_defaults'')" using de by simp
    from defaults_back [OF ds p(1) this] assms(3) show ?thesis by (simp add: has False ds' tx_survives_def)
  qed (simp add: has)
  have "read_parent (dict_field d ''parent_tx_id'') = Inr (to_parent t)" using pre(1) f(3) parent_back by blast
  moreover have "require_token (u ''sha256:'') (dict_field d ''schema_digest'') = Inr (to_schema t)"
    
  proof -
    have "dict_field d ''schema_digest'' = PStr (to_schema t)" using f(4) by simp
    then show ?thesis using pre(2) require_token_same by fastforce
  qed
  moreover have "read_scheme (dict_field d ''digest_scheme'') = Inr (to_scheme t)" using f(1) pre(3) by (simp add: read_scheme_def)
  moreover have "read_tx_seq (dict_field d ''tx_seq'') = Inr (to_seq t)"
  proof -
    have "dict_field d ''tx_seq'' = PInt (int (to_seq t))" using f(5) by simp
    then show ?thesis by (simp add: read_tx_seq_def)
  qed
  moreover have "dict_field d ''tx_id'' = PStr (to_id t)" using f(6) by simp
  moreover have "set (map fst d) = set (map key_of TX_OBJECT_KEYS) \<or>
      set (map fst d) = set (map key_of (''meta_defaults'' # TX_OBJECT_KEYS))" unfolding keys by simp
  ultimately show ?thesis
    using id txid rops rds has
    unfolding read_tx_object_def c(2) d(1) ops'
    by (simp add: as_dict_def as_list_def Let_def cs(2) ds' del: set_map list.map)
qed

end
