(* ===== verification/Database.thy ===== *)
theory Database
  imports Database_Roundtrip Ledger_Commit Ledger_Load Ledger_Query
begin

text \<open>
  \<open>Database\<close> of \<^verbatim>\<open>core/store/database.py\<close>: the head, the checks a change set passes, the transaction
  it becomes, the commit through \<open>Ledger.commit_batch\<close>, frozen views, and the creation of a
  database.  The ids \<open>uuid4\<close> makes are the values of a function \<open>fresh\<close>, one per call; SHA-256
  and SHAKE-256 are \<open>sha\<close> and \<open>xof\<close>.
\<close>

section \<open>State\<close>

text \<open>The files of a workspace; a database in memory has none.\<close>

record workspace =
  f_tx :: tx_files
  f_schemas :: schema_files
  f_views :: tx_files
  f_meta :: pyval

record database =
  b_ledger :: ledger
  b_id :: ustr
  b_schema_digest :: ustr
  b_schema_ir :: "pyval option"
  b_files :: "workspace option"
  b_closed :: bool

record database_value =
  hv_db :: ustr
  hv_tx :: ustr
  hv_schema :: ustr
  hv_state :: ustr
  hv_scheme :: ustr
  hv_seq :: nat

record assertion_record =
  ra_asrt :: ustr
  ra_pred :: ustr
  ra_facts :: "pyval list"
  ra_schema :: ustr
  ra_digest :: ustr
  ra_tx :: ustr
  ra_meta :: "meta_entry list"

record revocation_record =
  rr_revoker :: ustr
  rr_revoked :: ustr
  rr_tx :: ustr
  rr_meta :: "meta_entry list"

record commit_result =
  res_parent :: ustr
  res_value :: database_value
  res_assertions :: "assertion_record list"
  res_revocations :: "revocation_record list"

section \<open>The head\<close>

definition head_metadata :: "ustr \<Rightarrow> ustr \<Rightarrow> ustr \<Rightarrow> nat \<Rightarrow> (ustr, ustr) dict res" where
  "head_metadata db_id schema state_digest tx_seq =
     bindE (decode_state (PStr state_digest)) (\<lambda>_.
     bindE (require_db_id (PStr db_id)) (\<lambda>_.
     bindE (require_token (u ''sha256:'') (PStr schema)) (\<lambda>_.
       Ok [(u ''db_id'', db_id), (u ''schema_digest'', schema), (u ''head_state_digest'', state_digest),
           (u ''digest_scheme'', LTHASH_SCHEME), (u ''head_tx_seq'', dec_nat tx_seq)])))"

definition HEAD_KEYS :: "ustr list" where
  "HEAD_KEYS = [u ''db_id'', u ''schema_digest'', u ''head_tx_id'', u ''head_state_digest'', u ''digest_scheme'', u ''head_tx_seq'']"

definition snapshot_value :: "(ustr, ustr option) dict \<Rightarrow> string \<Rightarrow> ustr option" where
  "snapshot_value meta k = (case dict_get meta (u k) of Some v \<Rightarrow> v | None \<Rightarrow> None)"

definition read_ledger_head :: "ledger \<Rightarrow> ustr \<Rightarrow> ustr \<Rightarrow> database_value res" where
  "read_ledger_head L expected_schema_digest db_id =
     bindE (get_ledger_meta_snapshot L HEAD_KEYS) (\<lambda>meta.
     case (snapshot_value meta ''db_id'', snapshot_value meta ''schema_digest'', snapshot_value meta ''head_tx_id'',
           snapshot_value meta ''head_state_digest'', snapshot_value meta ''digest_scheme'', snapshot_value meta ''head_tx_seq'') of
       (Some stored_id, Some schema, Some tx, Some state, Some scheme, Some raw_seq) \<Rightarrow>
         bindE (require_db_id (PStr db_id)) (\<lambda>_.
         if stored_id \<noteq> db_id then Err DatabaseIntegrityError
         else
           bindE (require_token (u ''sha256:'') (PStr schema)) (\<lambda>_.
           bindE (require_token (u ''sha256:'') (PStr expected_schema_digest)) (\<lambda>_.
           if schema \<noteq> expected_schema_digest then Err DatabaseIntegrityError
           else if scheme \<noteq> LTHASH_SCHEME then Err DatabaseIntegrityError
           else
             bindE (catchE (decode_state (PStr state)) (\<lambda>e. e = LtHashError) (\<lambda>_. Err DatabaseIntegrityError)) (\<lambda>_.
             if raw_seq = [] \<or> \<not> list_all is_digit raw_seq \<or> dec_nat (dec_val raw_seq) \<noteq> raw_seq
             then Err DatabaseIntegrityError
             else
               bindE (require_token (u ''tx:'') (PStr tx)) (\<lambda>_.
                 Ok \<lparr>hv_db = db_id, hv_tx = tx, hv_schema = schema, hv_state = state, hv_scheme = LTHASH_SCHEME,
                     hv_seq = dec_val raw_seq\<rparr>)))))
     | _ \<Rightarrow> Err DatabaseIntegrityError)"

definition db_ensure_open :: "database \<Rightarrow> unit res" where
  "db_ensure_open D = (if b_closed D then Err DatabaseError else Ok ())"

definition db_head :: "(bytes \<Rightarrow> bytes) \<Rightarrow> database \<Rightarrow> database_value res" where
  "db_head sha D =
     bindE (db_ensure_open D) (\<lambda>_.
     bindE (read_ledger_head (b_ledger D) (b_schema_digest D) (b_id D)) (\<lambda>value.
       case b_files D of
         None \<Rightarrow> Ok value
       | Some files \<Rightarrow>
           bindE (read_tx_object sha (f_tx files) (hv_tx value)) (\<lambda>t.
             if to_seq t \<noteq> hv_seq value \<or> to_scheme t \<noteq> hv_scheme value then Err DatabaseIntegrityError
             else Ok value)))"

section \<open>Active assertions\<close>

definition is_system_predicate :: "ustr \<Rightarrow> bool" where
  "is_system_predicate pred_id \<longleftrightarrow> starts_with pred_id SYSTEM_PREFIX"

definition entry_of_row :: "meta_row \<Rightarrow> meta_entry" where
  "entry_of_row r = \<lparr>me_key = meta_key_text (m_key r), me_kind = m_kind r, me_value = m_value r\<rparr>"

definition str_rows :: "string \<Rightarrow> meta_row list \<Rightarrow> meta_row list" where
  "str_rows k rows = filter (\<lambda>r. m_key r = MKey (u k) \<and> m_kind r = u ''str'') rows"

text \<open>\<open>rows.index(row)\<close> for the one row of that key.\<close>

definition row_index :: "string \<Rightarrow> meta_row list \<Rightarrow> nat" where
  "row_index k rows = length (takeWhile (\<lambda>r. \<not> (m_key r = MKey (u k) \<and> m_kind r = u ''str'')) rows)"

definition identity_digest ::
  "(bytes \<Rightarrow> bytes) \<Rightarrow> claim \<Rightarrow> meta_row list \<Rightarrow> pyval \<Rightarrow> pyval \<Rightarrow> pyval \<Rightarrow> (ustr \<times> ustr) res" where
  "identity_digest sha claim rows stored schema tx =
     bindE (require_token (u ''sha256:'') stored) (\<lambda>stored_digest.
     bindE (require_token (u ''sha256:'') schema) (\<lambda>schema_digest.
     bindE (require_token (u ''tx:'') tx) (\<lambda>_.
     let i = row_index ''tx_id'' rows in
     if i \<le> row_index ''assertion_digest'' rows \<or> i \<le> row_index ''schema_digest'' rows then Err DatabaseError
     else
       bindE (normalize_meta_entries (map entry_of_row
         (filter (\<lambda>r. meta_key_text (m_key r) \<notin> set RESERVED_ASSERTION_META_KEYS) (take i rows)))) (\<lambda>user_meta.
       bindE (assertion_digest_for sha (c_pred claim)
         (PTuple (PTuple [PStr (u ''entity_ref''), PStr (c_eref claim)] # c_terms claim)) schema_digest user_meta) (\<lambda>recomputed.
         Ok (stored_digest, recomputed))))))"

definition verified_assertion_digest :: "(bytes \<Rightarrow> bytes) \<Rightarrow> ledger \<Rightarrow> claim \<Rightarrow> ustr res" where
  "verified_assertion_digest sha L claim =
     bindE (find_meta L (Some (c_asrt claim)) None None) (\<lambda>rows.
     case (str_rows ''assertion_digest'' rows, str_rows ''schema_digest'' rows, str_rows ''tx_id'' rows) of
       ([d], [s], [t]) \<Rightarrow>
         bindE (catchE (identity_digest sha claim rows (m_value d) (m_value s) (m_value t))
                  (\<lambda>e. e = DatabaseError) (\<lambda>_. Err DatabaseIntegrityError)) (\<lambda>(stored, recomputed).
           if recomputed \<noteq> stored then Err DatabaseIntegrityError else Ok stored)
     | _ \<Rightarrow> Err DatabaseIntegrityError)"

definition add_active :: "(bytes \<Rightarrow> bytes) \<Rightarrow> ledger \<Rightarrow> (ustr, ustr) dict \<Rightarrow> claim \<Rightarrow> (ustr, ustr) dict res" where
  "add_active sha L active claim =
     (if is_system_predicate (c_pred claim) then Ok active
      else
        bindE (has_active_revocation L (c_asrt claim)) (\<lambda>revoked.
        if revoked then Ok active
        else
          bindE (require_asrt_id (PStr (c_asrt claim))) (\<lambda>a.
          bindE (verified_assertion_digest sha L claim) (\<lambda>d. Ok (dict_set a d active)))))"

definition active_factual_assertions :: "(bytes \<Rightarrow> bytes) \<Rightarrow> ledger \<Rightarrow> (ustr, ustr) dict res" where
  "active_factual_assertions sha L =
     bindE (find_claims L None None) (\<lambda>claims. foldE (add_active sha L) [] claims)"

definition active_factual_assertion_ids :: "(bytes \<Rightarrow> bytes) \<Rightarrow> ledger \<Rightarrow> ustr set res" where
  "active_factual_assertion_ids sha L =
     bindE (active_factual_assertions sha L) (\<lambda>active. Ok (fst ` set active))"

definition state_element :: "ustr \<times> ustr \<Rightarrow> pyval res" where
  "state_element item = bindE (db_state_element (fst item) (snd item)) (\<lambda>b. Ok (PBytes BBytes b))"

definition checked_item :: "ustr \<times> ustr \<Rightarrow> (ustr \<times> ustr) res" where
  "checked_item item =
     bindE (require_asrt_id (PStr (fst item))) (\<lambda>a.
     bindE (require_token (u ''sha256:'') (PStr (snd item))) (\<lambda>d. Ok (a, d)))"

definition state_digest_for_assertions ::
  "(bytes \<Rightarrow> nat \<Rightarrow> bytes) \<Rightarrow> (ustr, ustr) dict \<Rightarrow> ustr res" where
  "state_digest_for_assertions xof assertions =
     bindE (mapE checked_item assertions) (\<lambda>items.
     bindE (mapE state_element (sort_key id items)) (\<lambda>elements.
     bindE (from_elements xof elements) (\<lambda>state. encode_state (PBytes BBytes state))))"

section \<open>Preparing a change set\<close>

record assertion_input =
  in_pred :: ustr
  in_tuple :: pyval
  in_meta :: "meta_entry list"

record revocation_input =
  in_revoked :: ustr
  in_rmeta :: "meta_entry list"

text \<open>A metadata append, the private append of an annotation's storage row, or an UNSET.\<close>

datatype append_input =
    MetaAppendInput ustr meta_key ustr pyval
  | AnnotationAppendInput ustr meta_key ustr pyval
  | MetaUnsetInput ustr meta_key

record schema_transition_input =
  in_old_digest :: ustr
  in_new_ir :: pyval

record prepared_assertion =
  pa_record :: assertion_record
  pa_write :: assertion_write

record prepared_revocation =
  pv_record :: revocation_record
  pv_rows :: "meta_row list"
  pv_digest :: ustr

definition new_assertion_id :: "(nat \<Rightarrow> ustr) \<Rightarrow> nat \<Rightarrow> ustr" where
  "new_assertion_id fresh n = u ''asrt:'' @ fresh n"

definition meta_rows_of :: "ustr \<Rightarrow> meta_entry list \<Rightarrow> meta_row list" where
  "meta_rows_of a meta = map (\<lambda>e. \<lparr>m_asrt = a, m_key = MKey (me_key e), m_kind = me_kind e, m_value = me_value e\<rparr>) meta"

definition annotation_rows :: "ustr \<Rightarrow> meta_entry list \<Rightarrow> annotation_row list" where
  "annotation_rows a meta = initial_meta_annotation_rows (meta_rows_of a meta)"

definition reject_reserved_assertion_meta :: "meta_entry list \<Rightarrow> unit res" where
  "reject_reserved_assertion_meta rows = reject_reserved_meta_keys (map me_key rows)"

definition checked_initial_meta :: "meta_entry list \<Rightarrow> meta_entry list res" where
  "checked_initial_meta meta =
     bindE (normalize_meta_entries meta) (\<lambda>entries.
     bindE (reject_duplicate_initial_meta_keys entries) (\<lambda>_.
     bindE (reject_reserved_assertion_meta entries) (\<lambda>_. Ok entries)))"

definition zero_tx :: ustr where "zero_tx = u ''tx:'' @ replicate 64 48"

definition db_prepare_assertion ::
  "(bytes \<Rightarrow> bytes) \<Rightarrow> ustr \<Rightarrow> (nat \<Rightarrow> ustr) \<Rightarrow> nat \<times> assertion_input \<Rightarrow> prepared_assertion res" where
  "db_prepare_assertion sha schema fresh p = (case p of (n, item) \<Rightarrow>
     if is_system_predicate (in_pred item) then Err DatabaseError
     else
       bindE (normalize_fact_tuple (in_tuple item)) (\<lambda>facts.
       bindE (checked_initial_meta (in_meta item)) (\<lambda>meta.
       bindE (assertion_digest_for sha (in_pred item) (PTuple facts) schema meta) (\<lambda>digest.
       let a = new_assertion_id fresh n; rest_terms = tl facts;
           e_ref = (case facts of PTuple [_, PStr e] # _ \<Rightarrow> e | _ \<Rightarrow> []) in
       bindE (claim_args_from_rest_terms rest_terms) (\<lambda>rows.
         Ok \<lparr>pa_record = \<lparr>ra_asrt = a, ra_pred = in_pred item, ra_facts = facts, ra_schema = schema,
                ra_digest = digest, ra_tx = zero_tx, ra_meta = meta\<rparr>,
             pa_write = \<lparr>w_claim = \<lparr>c_asrt = a, c_pred = in_pred item, c_eref = e_ref, c_terms = rest_terms\<rparr>,
                w_args = map (\<lambda>(idx, atom, tag). \<lparr>g_asrt = a, g_idx = idx, g_atom = atom, g_tag = tag\<rparr>) rows,
                w_meta = meta_rows_of a meta, w_anno = annotation_rows a meta\<rparr>\<rparr>)))))"

definition revocation_target_digest ::
  "(bytes \<Rightarrow> bytes) \<Rightarrow> ledger \<Rightarrow> (ustr, assertion_record) dict \<Rightarrow> ustr \<Rightarrow> ustr res" where
  "revocation_target_digest sha L added target = (case dict_get added target of
      Some a \<Rightarrow> if is_system_predicate (ra_pred a) then Err DatabaseError else Ok (ra_digest a)
    | None \<Rightarrow>
        bindE (get_claim L target) (\<lambda>claim. case claim of
            None \<Rightarrow> Err DatabaseError
          | Some c \<Rightarrow>
              if is_system_predicate (c_pred c) then Err DatabaseError
              else
                bindE (has_active_revocation L target) (\<lambda>revoked.
                  if revoked then Err DatabaseError else verified_assertion_digest sha L c)))"

definition db_prepare_revocation ::
  "(bytes \<Rightarrow> bytes) \<Rightarrow> ledger \<Rightarrow> (ustr, assertion_record) dict \<Rightarrow> (nat \<Rightarrow> ustr) \<Rightarrow>
   prepared_revocation list \<Rightarrow> nat \<times> revocation_input \<Rightarrow> prepared_revocation list res" where
  "db_prepare_revocation sha L added fresh prepared p = (case p of (n, item) \<Rightarrow>
     bindE (require_asrt_id (PStr (in_revoked item))) (\<lambda>target.
     if target \<in> set (map (rr_revoked \<circ> pv_record) prepared) then Err DatabaseError
     else
       bindE (revocation_target_digest sha L added target) (\<lambda>digest.
       bindE (checked_initial_meta (in_rmeta item)) (\<lambda>meta.
       let r = new_assertion_id fresh n in
         Ok (prepared @ [\<lparr>pv_record = \<lparr>rr_revoker = r, rr_revoked = target, rr_tx = zero_tx, rr_meta = meta\<rparr>,
                          pv_rows = meta_rows_of r meta, pv_digest = digest\<rparr>])))))"

definition db_prepare_append :: "ledger \<Rightarrow> append_input \<Rightarrow> meta_append res" where
  "db_prepare_append L item = (case item of
      MetaUnsetInput a k \<Rightarrow>
        bindE (require_asrt_id (PStr a)) (\<lambda>_.
        if \<not> is_known_asrt_id (l_ix L) a then Err DatabaseError
        else if meta_key_text k = [] then Err DatabaseError
        else
          bindE (reject_reserved_meta_keys [meta_key_text k]) (\<lambda>_.
          bindE (reject_system_managed_meta_keys [meta_key_text k]) (\<lambda>_. Ok (MTombstone a k))))
    | MetaAppendInput a k kind v \<Rightarrow>
        bindE (require_asrt_id (PStr a)) (\<lambda>_.
        if \<not> is_known_asrt_id (l_ix L) a then Err DatabaseError
        else
          bindE (normalize_meta_entry \<lparr>me_key = meta_key_text k, me_kind = kind, me_value = v\<rparr>) (\<lambda>entry.
          bindE (reject_reserved_assertion_meta [entry]) (\<lambda>_.
          bindE (reject_system_managed_meta_keys [me_key entry]) (\<lambda>_.
          bindE (meta_value_bytes kind v) (\<lambda>_.
            Ok (MRow False \<lparr>m_asrt = a, m_key = k, m_kind = kind, m_value = v\<rparr>))))))
    | AnnotationAppendInput a k kind v \<Rightarrow>
        bindE (require_asrt_id (PStr a)) (\<lambda>_.
        if \<not> is_known_asrt_id (l_ix L) a then Err DatabaseError
        else
          bindE (normalize_meta_entry \<lparr>me_key = meta_key_text k, me_kind = kind, me_value = v\<rparr>) (\<lambda>_.
          if \<not> is_reserved_annotation_meta_key k then Err DatabaseError
          else
            bindE (meta_value_bytes kind v) (\<lambda>_.
              Ok (MRow True \<lparr>m_asrt = a, m_key = k, m_kind = kind, m_value = v\<rparr>)))))"

text \<open>\<open>json.loads\<close> of the canonical bytes of a schema.\<close>

definition json_read_back :: "pyval \<Rightarrow> pyval res" where
  "json_read_back v = bindE (to_jsonable v) json_canon"

definition prepare_schema_transition ::
  "(bytes \<Rightarrow> bytes) \<Rightarrow> ustr \<Rightarrow> schema_transition_input option \<Rightarrow> (ustr \<times> ustr \<times> pyval) option res" where
  "prepare_schema_transition sha current item = (case item of
      None \<Rightarrow> Ok None
    | Some i \<Rightarrow>
        bindE (require_token (u ''sha256:'') (PStr (in_old_digest i))) (\<lambda>old.
        if old \<noteq> current then Err DatabaseError
        else
          bindE (canonicalize_schema_ir_jcs (in_new_ir i)) (\<lambda>_.
          bindE (json_read_back (in_new_ir i)) (\<lambda>doc.
          bindE (schema_ir_from_canonical_bytes (Some doc)) (\<lambda>ir.
          bindE (schema_digest sha (PDict ir)) (\<lambda>new.
            if new = old then Err DatabaseError else Ok (Some (old, new, PDict ir))))))))"

section \<open>The transaction of a change set\<close>

record change_set =
  ch_assertions :: "assertion_input list"
  ch_revocations :: "revocation_input list"
  ch_appends :: "append_input list"
  ch_schema :: "schema_transition_input option"
  ch_defaults :: "meta_entry list"

record commit_plan =
  pl_parent :: database_value
  pl_tx :: tx_object
  pl_state :: ustr
  pl_assertions :: "prepared_assertion list"
  pl_revocations :: "prepared_revocation list"
  pl_appends :: "meta_append list"
  pl_schema :: "(ustr \<times> ustr \<times> pyval) option"

definition check_change_set :: "database \<Rightarrow> change_set \<Rightarrow> meta_entry list res" where
  "check_change_set D c =
     (if ch_assertions c = [] \<and> ch_revocations c = [] \<and> ch_appends c = [] \<and> ch_schema c = None \<and> ch_defaults c = []
      then Err DatabaseError
      else if ch_defaults c \<noteq> [] \<and> ch_assertions c = [] \<and> ch_revocations c = [] then Err DatabaseError
      else if ch_schema c \<noteq> None \<and> (ch_assertions c \<noteq> [] \<or> ch_revocations c \<noteq> [] \<or> ch_appends c \<noteq> [] \<or> ch_defaults c \<noteq> [])
      then Err DatabaseError
      else
        bindE (normalize_tx_meta_defaults (ch_defaults c)) (\<lambda>defaults.
        if defaults = [] then Ok []
        else (case b_schema_ir D of
            None \<Rightarrow> Err DatabaseError
          | Some ir \<Rightarrow>
              bindE (as_dict AttributeError ir) (\<lambda>schema.
              bindE (forE (\<lambda>e. catchE (require_tx_liftable_meta_key schema (me_key e))
                  (\<lambda>x. x = MetaKeyPolicyError) (\<lambda>_. Err DatabaseError)) defaults) (\<lambda>_. Ok defaults)))))"

definition check_new_ids :: "ledger \<Rightarrow> ustr list \<Rightarrow> unit res" where
  "check_new_ids L ids =
     (if \<not> distinct ids then Err DuplicateAssertionError
      else forE (\<lambda>a. bindE (get_claim L a) (\<lambda>claim.
        if claim \<noteq> None then Err DuplicateAssertionError else Ok ())) ids)"

definition add_element :: "(bytes \<Rightarrow> nat \<Rightarrow> bytes) \<Rightarrow> bytes \<Rightarrow> ustr \<times> ustr \<Rightarrow> bytes res" where
  "add_element xof state item = bindE (state_element item) (\<lambda>e. lt_add xof (PBytes BBytes state) e)"

definition remove_element :: "(bytes \<Rightarrow> nat \<Rightarrow> bytes) \<Rightarrow> bytes \<Rightarrow> ustr \<times> ustr \<Rightarrow> bytes res" where
  "remove_element xof state item = bindE (state_element item) (\<lambda>e. lt_remove xof (PBytes BBytes state) e)"

definition assertion_item :: "prepared_assertion \<Rightarrow> ustr \<times> ustr" where
  "assertion_item p = (ra_asrt (pa_record p), ra_digest (pa_record p))"

definition revocation_item :: "prepared_revocation \<Rightarrow> ustr \<times> ustr" where
  "revocation_item p = (rr_revoked (pv_record p), pv_digest p)"

definition append_change :: "meta_append \<Rightarrow> meta_change" where
  "append_change a = (case a of
      MRow _ r \<Rightarrow> SetMeta (entry_of_row r) | MTombstone _ k \<Rightarrow> UnsetMeta (meta_key_text k))"

definition assertion_op :: "prepared_assertion \<Rightarrow> tx_op" where
  "assertion_op p = OpAssertion (ra_asrt (pa_record p)) (ra_digest (pa_record p))"

definition revocation_op :: "prepared_revocation \<Rightarrow> tx_op" where
  "revocation_op p = OpRevocation (rr_revoker (pv_record p)) (rr_revoked (pv_record p)) (rr_meta (pv_record p))"

definition append_op :: "meta_append \<Rightarrow> tx_op" where
  "append_op a = OpAppendMeta (append_asrt a) (append_change a)"

definition schema_ops :: "(ustr \<times> ustr \<times> pyval) option \<Rightarrow> tx_op list" where
  "schema_ops transition = (case transition of None \<Rightarrow> [] | Some (old, new, _) \<Rightarrow> [OpSchemaChange old new])"

definition plan_commit ::
  "(bytes \<Rightarrow> bytes) \<Rightarrow> (bytes \<Rightarrow> nat \<Rightarrow> bytes) \<Rightarrow> (nat \<Rightarrow> ustr) \<Rightarrow> database \<Rightarrow> change_set \<Rightarrow> commit_plan res" where
  "plan_commit sha xof fresh D c =
     (let L = b_ledger D in
      bindE (db_ensure_open D) (\<lambda>_.
      bindE (check_change_set D c) (\<lambda>defaults.
      bindE (db_head sha D) (\<lambda>parent.
      bindE (mapE (db_prepare_assertion sha (b_schema_digest D) fresh) (enumerate 0 (ch_assertions c))) (\<lambda>prepared.
      bindE (check_new_ids L (map (ra_asrt \<circ> pa_record) prepared)) (\<lambda>_.
      bindE (foldE (db_prepare_revocation sha L (map (\<lambda>p. (ra_asrt (pa_record p), pa_record p)) prepared) fresh) []
               (enumerate (length (ch_assertions c)) (ch_revocations c))) (\<lambda>revocations.
      bindE (mapE (db_prepare_append L) (ch_appends c)) (\<lambda>appends.
      bindE (prepare_schema_transition sha (b_schema_digest D) (ch_schema c)) (\<lambda>transition.
      bindE (decode_state (PStr (hv_state parent))) (\<lambda>state.
      bindE (foldE (add_element xof) state (map assertion_item prepared)) (\<lambda>state.
      bindE (foldE (remove_element xof) state (map revocation_item revocations)) (\<lambda>state.
      bindE (encode_state (PBytes BBytes state)) (\<lambda>state_digest.
      let ops = map assertion_op prepared @ map revocation_op revocations @ map append_op appends @ schema_ops transition;
          commit_schema = (case transition of None \<Rightarrow> b_schema_digest D | Some (_, new, _) \<Rightarrow> new) in
      bindE (tx_id_for_v2 sha (Some (hv_tx parent)) commit_schema LTHASH_SCHEME (Suc (hv_seq parent)) ops defaults) (\<lambda>tx_id.
        Ok \<lparr>pl_parent = parent,
            pl_tx = \<lparr>to_id = tx_id, to_parent = Some (hv_tx parent), to_schema = commit_schema, to_scheme = LTHASH_SCHEME,
              to_seq = Suc (hv_seq parent), to_ops = ops, to_defaults = defaults\<rparr>,
            pl_state = state_digest, pl_assertions = prepared, pl_revocations = revocations, pl_appends = appends,
            pl_schema = transition\<rparr>))))))))))))))"

section \<open>Committing it\<close>

definition str_meta :: "ustr \<Rightarrow> string \<Rightarrow> ustr \<Rightarrow> meta_row" where
  "str_meta a k v = \<lparr>m_asrt = a, m_key = MKey (u k), m_kind = u ''str'', m_value = PStr v\<rparr>"

definition assertion_write_of :: "ustr \<Rightarrow> prepared_assertion \<Rightarrow> assertion_write" where
  "assertion_write_of tx_id p = (let r = pa_record p; a = ra_asrt r in
     (pa_write p)\<lparr>w_meta := w_meta (pa_write p) @
        [str_meta a ''schema_digest'' (ra_schema r), str_meta a ''assertion_digest'' (ra_digest r), str_meta a ''tx_id'' tx_id]\<rparr>)"

definition revocation_write_of :: "ustr \<Rightarrow> ustr \<Rightarrow> prepared_revocation \<Rightarrow> revocation_write" where
  "revocation_write_of schema tx_id p = (let r = pv_record p; a = rr_revoker r in
     \<lparr>v_revokes = \<lparr>r_revoker = a, r_revoked = rr_revoked r\<rparr>,
      v_meta = pv_rows p @ [str_meta a ''schema_digest'' schema, str_meta a ''tx_id'' tx_id],
      v_anno = annotation_rows a (rr_meta r)\<rparr>)"

text \<open>The objects are durable before the ledger commits.\<close>

definition write_objects ::
  "(bytes \<Rightarrow> bytes) \<Rightarrow> commit_plan \<Rightarrow> workspace \<Rightarrow> workspace \<times> unit res" where
  "write_objects sha plan files =
     (case (case pl_schema plan of
              None \<Rightarrow> Ok (f_schemas files)
            | Some (_, new, ir) \<Rightarrow>
                bindE (canonicalize_schema_ir_jcs ir) (\<lambda>b.
                bindE (json_read_back ir) (\<lambda>doc. write_schema_object sha new b (Some doc) (f_schemas files)))) of
        Inl e \<Rightarrow> (files, Inl e)
      | Inr schemas \<Rightarrow>
          (case write_tx_object sha (pl_tx plan) (f_tx files) of
             Inl e \<Rightarrow> (files\<lparr>f_schemas := schemas\<rparr>, Inl e)
           | Inr tx \<Rightarrow> (files\<lparr>f_schemas := schemas, f_tx := tx\<rparr>, Ok ())))"

definition write_plan_objects :: "(bytes \<Rightarrow> bytes) \<Rightarrow> commit_plan \<Rightarrow> database \<Rightarrow> database \<times> unit res" where
  "write_plan_objects sha plan D = (case b_files D of
      None \<Rightarrow> (D, Ok ())
    | Some files \<Rightarrow> (let (files', r) = write_objects sha plan files in (D\<lparr>b_files := Some files'\<rparr>, r)))"

definition commit_plan_batch :: "commit_plan \<Rightarrow> database \<Rightarrow> database \<times> unit res" where
  "commit_plan_batch plan D =
     (case head_metadata (b_id D) (to_schema (pl_tx plan)) (pl_state plan) (to_seq (pl_tx plan)) of
        Inl e \<Rightarrow> (D, Inl e)
      | Inr metadata \<Rightarrow>
          (let tx_id = to_id (pl_tx plan);
               (L, r) = commit_batch (map (assertion_write_of tx_id) (pl_assertions plan))
                 (map (revocation_write_of (b_schema_digest D) tx_id) (pl_revocations plan))
                 (Some (hv_tx (pl_parent plan))) tx_id metadata (pl_appends plan) (b_ledger D)
           in (D\<lparr>b_ledger := L\<rparr>, catchE r (\<lambda>e. e = LedgerHeadConflictError) (\<lambda>_. Err HeadConflictError))))"

definition default_row :: "nat \<Rightarrow> meta_entry \<Rightarrow> tx_meta_default" where
  "default_row tx_seq e = \<lparr>t_tx = tx_seq, t_key = MKey (me_key e), t_kind = me_kind e, t_value = me_value e\<rparr>"

definition record_plan_defaults :: "commit_plan \<Rightarrow> database \<Rightarrow> database \<times> unit res" where
  "record_plan_defaults plan D =
     (if to_defaults (pl_tx plan) = [] then (D, Ok ())
      else
        (let (L, r) = record_tx_meta_defaults (map (default_row (to_seq (pl_tx plan))) (to_defaults (pl_tx plan))) (b_ledger D)
         in (D\<lparr>b_ledger := L\<rparr>, r)))"

definition lazy_keys_of :: "pyval \<Rightarrow> ustr list res" where
  "lazy_keys_of ir =
     bindE (as_dict AttributeError ir) (\<lambda>schema.
     bindE (lazy_meta_keys schema) (\<lambda>ks. mapE (as_str NotModelled) ks))"

definition configure_from_schema :: "pyval \<Rightarrow> database \<Rightarrow> database \<times> unit res" where
  "configure_from_schema ir D =
     (case lazy_keys_of ir of
        Inl e \<Rightarrow> (D, Inl e)
      | Inr ks \<Rightarrow> (let (L, r) = configure_meta_load_policy ks (b_ledger D) in (D\<lparr>b_ledger := L\<rparr>, r)))"

definition adopt_schema :: "commit_plan \<Rightarrow> database \<Rightarrow> database \<times> unit res" where
  "adopt_schema plan D = (case pl_schema plan of
      None \<Rightarrow> (D, Ok ())
    | Some (_, new, ir) \<Rightarrow> configure_from_schema ir (D\<lparr>b_schema_digest := new, b_schema_ir := Some ir\<rparr>))"

definition plan_value :: "ustr \<Rightarrow> commit_plan \<Rightarrow> database_value" where
  "plan_value db_id plan =
     \<lparr>hv_db = db_id, hv_tx = to_id (pl_tx plan), hv_schema = to_schema (pl_tx plan), hv_state = pl_state plan,
      hv_scheme = LTHASH_SCHEME, hv_seq = to_seq (pl_tx plan)\<rparr>"

definition plan_result :: "ustr \<Rightarrow> commit_plan \<Rightarrow> commit_result" where
  "plan_result db_id plan =
     \<lparr>res_parent = hv_tx (pl_parent plan), res_value = plan_value db_id plan,
      res_assertions = map (\<lambda>p. (pa_record p)\<lparr>ra_tx := to_id (pl_tx plan)\<rparr>) (pl_assertions plan),
      res_revocations = map (\<lambda>p. (pv_record p)\<lparr>rr_tx := to_id (pl_tx plan)\<rparr>) (pl_revocations plan)\<rparr>"

definition commit_changes ::
  "(bytes \<Rightarrow> bytes) \<Rightarrow> (bytes \<Rightarrow> nat \<Rightarrow> bytes) \<Rightarrow> (nat \<Rightarrow> ustr) \<Rightarrow> change_set \<Rightarrow> database \<Rightarrow> database \<times> commit_result res" where
  "commit_changes sha xof fresh c D =
     (case plan_commit sha xof fresh D c of
        Inl e \<Rightarrow> (D, Inl e)
      | Inr plan \<Rightarrow>
          thenS (write_plan_objects sha plan D) (\<lambda>D _.
          thenS (commit_plan_batch plan D) (\<lambda>D _.
          thenS (record_plan_defaults plan D) (\<lambda>D _.
          thenS (adopt_schema plan D) (\<lambda>D _.
            (D, Ok (plan_result (b_id D) plan)))))))"

definition commit_assertions ::
  "(bytes \<Rightarrow> bytes) \<Rightarrow> (bytes \<Rightarrow> nat \<Rightarrow> bytes) \<Rightarrow> (nat \<Rightarrow> ustr) \<Rightarrow> assertion_input list \<Rightarrow> database \<Rightarrow> database \<times> commit_result res" where
  "commit_assertions sha xof fresh items D =
     (if items = [] then (D, Err DatabaseError)
      else commit_changes sha xof fresh
        \<lparr>ch_assertions = items, ch_revocations = [], ch_appends = [], ch_schema = None, ch_defaults = []\<rparr> D)"

definition commit_meta_appends ::
  "(bytes \<Rightarrow> bytes) \<Rightarrow> (bytes \<Rightarrow> nat \<Rightarrow> bytes) \<Rightarrow> (nat \<Rightarrow> ustr) \<Rightarrow> append_input list \<Rightarrow> database \<Rightarrow> database \<times> commit_result res" where
  "commit_meta_appends sha xof fresh items D = commit_changes sha xof fresh
     \<lparr>ch_assertions = [], ch_revocations = [], ch_appends = items, ch_schema = None, ch_defaults = []\<rparr> D"

definition commit_meta_unsets ::
  "(bytes \<Rightarrow> bytes) \<Rightarrow> (bytes \<Rightarrow> nat \<Rightarrow> bytes) \<Rightarrow> (nat \<Rightarrow> ustr) \<Rightarrow> (ustr \<times> meta_key) list \<Rightarrow> database \<Rightarrow> database \<times> commit_result res" where
  "commit_meta_unsets sha xof fresh items D =
     (if items = [] then (D, Err DatabaseError)
      else commit_meta_appends sha xof fresh (map (\<lambda>(a, k). MetaUnsetInput a k) items) D)"

definition some_result :: "database \<times> commit_result res \<Rightarrow> database \<times> commit_result option res" where
  "some_result p = (fst p, bindE (snd p) (\<lambda>r. Ok (Some r)))"

definition commit_meta_rows ::
  "(bytes \<Rightarrow> bytes) \<Rightarrow> (bytes \<Rightarrow> nat \<Rightarrow> bytes) \<Rightarrow> (nat \<Rightarrow> ustr) \<Rightarrow> meta_row list \<Rightarrow> database \<Rightarrow> database \<times> commit_result option res" where
  "commit_meta_rows sha xof fresh rows D =
     (if rows = [] then (D, Ok None)
      else some_result (commit_meta_appends sha xof fresh
        (map (\<lambda>r. MetaAppendInput (m_asrt r) (m_key r) (m_kind r) (m_value r)) rows) D))"

definition commit_annotations ::
  "(bytes \<Rightarrow> bytes) \<Rightarrow> (bytes \<Rightarrow> nat \<Rightarrow> bytes) \<Rightarrow> (nat \<Rightarrow> ustr) \<Rightarrow> annotation_row list \<Rightarrow> database \<Rightarrow> database \<times> commit_result option res" where
  "commit_annotations sha xof fresh rows D =
     (case bindE (annotation_compatibility_meta_rows rows []) (\<lambda>storage.
             bindE (forE (\<lambda>r. bindE (annotation_from_storage_key (m_asrt r) (m_key r) (m_kind r) (m_value r)) (\<lambda>_. Ok ())) storage)
               (\<lambda>_. Ok storage)) of
        Inl e \<Rightarrow> (D, Inl e)
      | Inr storage \<Rightarrow>
          if storage = [] then (D, Ok None)
          else some_result (commit_meta_appends sha xof fresh
            (map (\<lambda>r. AnnotationAppendInput (m_asrt r) (m_key r) (m_kind r) (m_value r)) storage) D))"

end
