(* ===== verification/Database_Plan.thy ===== *)
theory Database_Plan
  imports Database
begin

text \<open>
  What a planned commit holds, and its state token: the token of the parent, with the elements
  of the new assertions added and of the revoked ones removed, is the token computed from
  scratch for the assertions active after the commit.
\<close>

section \<open>The parts of a plan\<close>

lemma plan_commit_Ok:
  assumes "plan_commit sha xof fresh D c = Inr plan"
  obtains defaults parent prepared revocations appends transition s0 s1 s2 where
    "check_change_set D c = Inr defaults" "db_ensure_open D = Inr ()" "db_head sha D = Inr parent"
    "mapE (db_prepare_assertion sha (b_schema_digest D) fresh) (enumerate 0 (ch_assertions c)) = Inr prepared"
    "check_new_ids (b_ledger D) (map (ra_asrt \<circ> pa_record) prepared) = Inr ()"
    "foldE (db_prepare_revocation sha (b_ledger D) (map (\<lambda>p. (ra_asrt (pa_record p), pa_record p)) prepared) fresh) []
       (enumerate (length (ch_assertions c)) (ch_revocations c)) = Inr revocations"
    "mapE (db_prepare_append (b_ledger D)) (ch_appends c) = Inr appends"
    "prepare_schema_transition sha (b_schema_digest D) (ch_schema c) = Inr transition"
    "decode_state (PStr (hv_state parent)) = Inr s0"
    "foldE (add_element xof) s0 (map assertion_item prepared) = Inr s1"
    "foldE (remove_element xof) s1 (map revocation_item revocations) = Inr s2"
    "encode_state (PBytes BBytes s2) = Inr (pl_state plan)"
    "tx_id_for_v2 sha (Some (hv_tx parent)) (to_schema (pl_tx plan)) LTHASH_SCHEME (Suc (hv_seq parent))
       (to_ops (pl_tx plan)) defaults = Inr (to_id (pl_tx plan))"
    "to_schema (pl_tx plan) = (case transition of None \<Rightarrow> b_schema_digest D | Some (_, new, _) \<Rightarrow> new)"
    "to_ops (pl_tx plan) =
       map assertion_op prepared @ map revocation_op revocations @ map append_op appends @ schema_ops transition"
    "to_parent (pl_tx plan) = Some (hv_tx parent)" "to_scheme (pl_tx plan) = LTHASH_SCHEME"
    "to_seq (pl_tx plan) = Suc (hv_seq parent)" "to_defaults (pl_tx plan) = defaults"
    "pl_parent plan = parent" "pl_assertions plan = prepared" "pl_revocations plan = revocations"
    "pl_appends plan = appends" "pl_schema plan = transition"
proof -
  from assms show thesis
    unfolding plan_commit_def Let_def bindE_Inr_iff
    by (elim exE conjE) (rule that, assumption+, auto simp: split_def)
qed

section \<open>Elements\<close>

definition item_bytes :: "ustr \<times> ustr \<Rightarrow> bytes" where
  "item_bytes i = (case db_state_element (fst i) (snd i) of Inr b \<Rightarrow> b | Inl _ \<Rightarrow> [])"

definition good_item :: "(bytes \<Rightarrow> nat \<Rightarrow> bytes) \<Rightarrow> ustr \<times> ustr \<Rightarrow> bool" where
  "good_item xof i \<longleftrightarrow> db_state_element (fst i) (snd i) = Inr (item_bytes i) \<and> good_hash xof (item_bytes i)"

lemma state_element_Ok:
  "state_element i = Inr e \<longleftrightarrow> db_state_element (fst i) (snd i) = Inr (item_bytes i) \<and> e = PBytes BBytes (item_bytes i)"
  by (auto simp: state_element_def item_bytes_def err_simps split: sum.splits)

lemma db_state_element_inj:
  assumes "db_state_element a d = Inr b" "db_state_element a' d' = Inr b"
  shows "a = a' \<and> d = d'"
proof -
  from assms(1) obtain x y where 1: "str_field a = Inr x" "str_field d = Inr y" "b = DBSTATE_ELEMENT_V2_PREFIX @ x @ y"
    by (auto simp: db_state_element_def err_simps)
  from assms(2) obtain x' y' where 2: "str_field a' = Inr x'" "str_field d' = Inr y'" "b = DBSTATE_ELEMENT_V2_PREFIX @ x' @ y'"
    by (auto simp: db_state_element_def err_simps)
  have eq: "x @ y @ [] = x' @ y' @ []" using 1(3) 2(3) by simp
  note x = field_splits(3,4) [OF 1(1) 2(1) eq]
  note y = field_splits(3,4) [OF 1(2) 2(2) x(2)]
  show ?thesis using x(1) y(1) by simp
qed

lemma item_bytes_inj: "good_item xof i \<Longrightarrow> good_item xof j \<Longrightarrow> item_bytes i = item_bytes j \<longleftrightarrow> i = j"
  using db_state_element_inj [of "fst i" "snd i" "item_bytes i" "fst j" "snd j"]
  by (auto simp: good_item_def prod_eq_iff)

lemma item_bytes_inj_on: "\<forall>i \<in> A. good_item xof i \<Longrightarrow> inj_on item_bytes A"
  unfolding inj_on_def using item_bytes_inj by blast

lemma checked_item_same:
  "checked_item i = Inr j \<Longrightarrow> j = i"
  by (cases i) (auto simp: checked_item_def require_asrt_id_def require_token_def err_simps split: if_splits pyval.splits)

lemma checked_item_good: "good_item xof i \<Longrightarrow> checked_item i = Inr i"
  by (cases i) (auto simp: good_item_def checked_item_def db_state_element_def require_asrt_id_def
      require_token_def err_simps split: if_splits pyval.splits)

section \<open>Adding and removing\<close>

context set_accumulator
begin

lemma fold_rems:
  "invar s \<Longrightarrow> distinct xs \<Longrightarrow> distinct ys \<Longrightarrow> set ys \<subseteq> set xs \<Longrightarrow>
     foldl rem (foldl add s xs) ys = foldl add s (filter (\<lambda>x. x \<notin> set ys) xs)"
proof (induction ys arbitrary: xs)
  case (Cons y ys)
  have "rem (foldl add s xs) y = foldl add s (remove1 y xs)" using Cons.prems by (intro fold_rem) auto
  moreover have "foldl rem (foldl add s (remove1 y xs)) ys = foldl add s (filter (\<lambda>x. x \<notin> set ys) (remove1 y xs))"
    using Cons.prems by (intro Cons.IH) auto
  moreover have "filter (\<lambda>x. x \<notin> set ys) (remove1 y xs) = filter (\<lambda>x. x \<notin> set (y # ys)) xs"
    using Cons.prems(2) by (auto simp: distinct_remove1_removeAll removeAll_filter_not_eq intro: filter_cong)
  ultimately show ?case by simp
qed simp

end

lemma lt_op_Ok:
  assumes "length s = LTHASH_STATE_BYTES"
  shows "(if sub then lt_remove else lt_add) xof (PBytes BBytes s) (PBytes BBytes b) = Inr r \<longleftrightarrow>
     good_hash xof b \<and> r = lt_apply xof sub s b"
proof (cases "good_hash xof b")
  case True
  from lt_apply_good [OF this assms, of sub]
  have "(if sub then lt_remove else lt_add) xof (PBytes BBytes s) (PBytes BBytes b) = Inr (lt_apply xof sub s b)" .
  then show ?thesis using True by (simp only: sum.inject simp_thms eq_commute [of r])
next
  case False
  then have "\<not> (\<exists>h. hash_element xof (PBytes BBytes b) = Inr h \<and> length h = LTHASH_STATE_BYTES)"
    by (simp add: good_hash_def)
  then have "(if sub then lt_remove else lt_add) xof (PBytes BBytes s) (PBytes BBytes b) \<noteq> Inr r"
    unfolding lt_op_cases by (auto dest: combine_lanes)
  with False show ?thesis by simp
qed

lemma fold_elements:
  assumes "foldE (if sub then remove_element xof else add_element xof) s items = Inr s'" "length s = LTHASH_STATE_BYTES"
  shows "(\<forall>i \<in> set items. good_item xof i) \<and> s' = foldl (lt_apply xof sub) s (map item_bytes items)"
  using assms
proof (induction items arbitrary: s)
  case (Cons i items)
  from Cons.prems(1) obtain s1 where s1: "(if sub then remove_element xof else add_element xof) s i = Inr s1"
    "foldE (if sub then remove_element xof else add_element xof) s1 items = Inr s'" by (auto simp: err_simps)
  from s1(1) have e: "db_state_element (fst i) (snd i) = Inr (item_bytes i)"
    and "(if sub then lt_remove else lt_add) xof (PBytes BBytes s) (PBytes BBytes (item_bytes i)) = Inr s1"
    by (auto simp: add_element_def remove_element_def err_simps state_element_Ok split: if_splits)
  then have g: "good_hash xof (item_bytes i)" "s1 = lt_apply xof sub s (item_bytes i)"
    using lt_op_Ok [OF Cons.prems(2)] by blast+
  moreover have "length s1 = LTHASH_STATE_BYTES" using g(2) Cons.prems(2) by (simp add: lt_apply_length)
  ultimately show ?case using Cons.IH [OF s1(2)] e by (simp add: good_item_def)
qed simp

section \<open>The token of a set of assertions\<close>

lemma mapE_same: "\<forall>x \<in> set xs. f x = Inr x \<Longrightarrow> mapE f xs = Inr xs"
  by (induction xs) simp_all

lemma mapE_elements:
  "mapE state_element xs = Inr es \<longleftrightarrow>
     (\<forall>i \<in> set xs. db_state_element (fst i) (snd i) = Inr (item_bytes i)) \<and> es = map py_bytes (map item_bytes xs)"
  by (induction xs arbitrary: es) (auto simp: err_simps state_element_Ok)

lemma state_digest_Ok:
  "state_digest_for_assertions xof A = Inr tok \<longleftrightarrow>
     distinct (map item_bytes A) \<and> (\<forall>i \<in> set A. good_item xof i) \<and>
     encode_state (py_bytes (foldl (lt_apply xof False) empty_state (map item_bytes A))) = Inr tok" (is "?l \<longleftrightarrow> ?r")
proof -
  let ?S = "sort_key id A"
  have fold: "foldl (lt_apply xof False) empty_state (map item_bytes ?S) =
      foldl (lt_apply xof False) empty_state (map item_bytes A)"
    by (rule lt.fold_mset) (simp_all del: sort_key_id_if_sorted)
  have dist: "distinct (map item_bytes ?S) = distinct (map item_bytes A)" by (simp add: distinct_map)
  show ?thesis
  proof
    assume ?l
    then obtain items es s where i: "mapE checked_item A = Inr items" "mapE state_element (sort_key id items) = Inr es"
      "from_elements xof es = Inr s" "encode_state (py_bytes s) = Inr tok"
      by (auto simp: state_digest_for_assertions_def err_simps)
    have items: "items = A" using i(1) by (rule mapE_identity [of checked_item, rotated]) (rule checked_item_same)
    from i(2) have g: "\<forall>i \<in> set A. db_state_element (fst i) (snd i) = Inr (item_bytes i)"
      and es: "es = map py_bytes (map item_bytes ?S)" unfolding mapE_elements items by simp_all
    from i(3) obtain bs where bs: "map py_bytes (map item_bytes ?S) = map py_bytes bs" "distinct bs" "list_all (good_hash xof) bs"
      "s = foldl (lt_apply xof False) empty_state bs" unfolding from_elements_Ok es by blast
    from bs(1) have "bs = map item_bytes ?S" unfolding map_py_bytes_inj by simp
    with bs g i(4) dist show ?r by (auto simp: good_item_def list_all_iff fold)
  next
    assume r: ?r
    then have "mapE checked_item A = Inr A" by (intro mapE_same) (auto intro: checked_item_good)
    moreover have "mapE state_element ?S = Inr (map py_bytes (map item_bytes ?S))"
      unfolding mapE_elements using r by (auto simp: good_item_def)
    moreover have "from_elements xof (map py_bytes (map item_bytes ?S)) =
        Inr (foldl (lt_apply xof False) empty_state (map item_bytes A))"
      unfolding from_elements_Ok using r dist fold
      by (intro exI [of _ "map item_bytes ?S"]) (auto simp: good_item_def list_all_iff)
    ultimately show ?l using r by (simp add: state_digest_for_assertions_def)
  qed
qed

lemma decode_encode: "decode_state (PStr t) = Inr s \<Longrightarrow> encode_state (py_bytes s) = Inr t"
  by (auto simp: decode_state_def err_simps Let_def split: if_splits option.splits)

lemma encode_state_inj: "encode_state (py_bytes s) = Inr t \<Longrightarrow> encode_state (py_bytes s') = Inr t \<Longrightarrow> s = s'"
proof -
  assume "encode_state (py_bytes s) = Inr t" "encode_state (py_bytes s') = Inr t"
  then have "b64url_encode s = b64url_encode s'" by (auto simp: encode_state_def err_simps)
  then have "Some s = Some s'" unfolding b64url_roundtrip [symmetric] by (rule arg_cong)
  then show ?thesis by simp
qed

text \<open>The assertions active after a plan.\<close>

definition after_plan :: "commit_plan \<Rightarrow> (ustr, ustr) dict \<Rightarrow> (ustr, ustr) dict" where
  "after_plan plan active =
     filter (\<lambda>i. fst i \<notin> set (map (rr_revoked \<circ> pv_record) (pl_revocations plan)))
       (active @ map assertion_item (pl_assertions plan))"

lemma revoked_items:
  assumes "distinct (map fst (A :: ('a \<times> 'b) list))" "set R \<subseteq> set A"
  shows "filter (\<lambda>i. i \<notin> set R) A = filter (\<lambda>i. fst i \<notin> fst ` set R) A"
proof (rule filter_cong [OF refl])
  fix i assume i: "i \<in> set A"
  show "i \<notin> set R \<longleftrightarrow> fst i \<notin> fst ` set R"
  proof
    assume n: "i \<notin> set R"
    show "fst i \<notin> fst ` set R"
    proof
      assume "fst i \<in> fst ` set R"
      then obtain j where j: "j \<in> set R" "fst i = fst j" by blast
      with assms(2) have "j \<in> set A" by blast
      with i j assms(1) have "i = j" by (simp add: distinct_map inj_on_def)
      with n j show False by simp
    qed
  qed auto
qed

lemma filter_image:
  assumes "inj_on f (set A)" "set R \<subseteq> set A"
  shows "filter (\<lambda>b. b \<notin> set (map f R)) (map f A) = map f (filter (\<lambda>i. i \<notin> set R) A)"
proof -
  have "f i \<in> f ` set R \<longleftrightarrow> i \<in> set R" if "i \<in> set A" for i
    using assms(1) that assms(2) by (rule inj_on_image_mem_iff)
  then have "filter (\<lambda>i. f i \<notin> f ` set R) A = filter (\<lambda>i. i \<notin> set R) A" by (intro filter_cong) simp_all
  then show ?thesis by (simp add: filter_map o_def)
qed

lemma plan_state:
  assumes plan: "plan_commit sha xof fresh D c = Inr plan"
    and token: "state_digest_for_assertions xof active = Inr (hv_state (pl_parent plan))"
    and keys: "distinct (map fst (active @ map assertion_item (pl_assertions plan)))"
    and targets: "set (map revocation_item (pl_revocations plan)) \<subseteq> set (active @ map assertion_item (pl_assertions plan))"
    and once: "distinct (map (rr_revoked \<circ> pv_record) (pl_revocations plan))"
  shows "state_digest_for_assertions xof (after_plan plan active) = Inr (pl_state plan)"
proof -
  let ?A = "active @ map assertion_item (pl_assertions plan)" and ?R = "map revocation_item (pl_revocations plan)"
  from plan obtain s0 s1 s2 where s: "decode_state (PStr (hv_state (pl_parent plan))) = Inr s0"
    "foldE (add_element xof) s0 (map assertion_item (pl_assertions plan)) = Inr s1"
    "foldE (remove_element xof) s1 ?R = Inr s2" "encode_state (py_bytes s2) = Inr (pl_state plan)"
    by (rule plan_commit_Ok) simp
  let ?f = "foldl (lt_apply xof False) empty_state"
  from token have a: "distinct (map item_bytes active)" "\<forall>i \<in> set active. good_item xof i"
    and enc: "encode_state (py_bytes (?f (map item_bytes active))) = Inr (hv_state (pl_parent plan))"
    by (simp_all add: state_digest_Ok)
  have s0: "s0 = ?f (map item_bytes active)" using decode_encode [OF s(1)] enc by (rule encode_state_inj)
  have len: "length (?f xs) = LTHASH_STATE_BYTES" for xs by (rule lt.fold_invar) simp
  note added = fold_elements [where sub = False, simplified, OF s(2)]
  have s1: "s1 = ?f (map item_bytes ?A)" and new: "\<forall>i \<in> set ?A. good_item xof i"
    using added len a(2) by (auto simp: s0)
  have inj: "inj_on item_bytes (set ?A)" using new by (rule item_bytes_inj_on)
  have dA: "distinct ?A" using keys unfolding distinct_map by (rule conjunct1)
  have fst_R: "map fst ?R = map (rr_revoked \<circ> pv_record) (pl_revocations plan)" by (simp add: revocation_item_def)
  have dR: "distinct ?R" using once unfolding fst_R [symmetric] unfolding distinct_map by (rule conjunct1)
  have "s2 = foldl (lt_apply xof True) s1 (map item_bytes ?R)"
    using fold_elements [where sub = True, simplified, OF s(3) len [of "map item_bytes ?A", folded s1]] by blast
  also have "\<dots> = ?f (filter (\<lambda>b. b \<notin> set (map item_bytes ?R)) (map item_bytes ?A))"
    unfolding s1
  proof (rule lt.fold_rems)
    show "distinct (map item_bytes ?A)" using dA inj by (simp only: distinct_map simp_thms)
    show "distinct (map item_bytes ?R)" using dR inj_on_subset [OF inj targets] by (simp only: distinct_map simp_thms)
    show "set (map item_bytes ?R) \<subseteq> set (map item_bytes ?A)" using targets by (simp only: set_map image_mono)
  qed simp
  also have "filter (\<lambda>b. b \<notin> set (map item_bytes ?R)) (map item_bytes ?A) =
      map item_bytes (filter (\<lambda>i. i \<notin> set ?R) ?A)"
    by (rule filter_image [OF inj targets])
  also have "filter (\<lambda>i. i \<notin> set ?R) ?A = after_plan plan active"
    unfolding revoked_items [OF keys targets] after_plan_def set_map [symmetric] fst_R ..
  finally have "encode_state (py_bytes (?f (map item_bytes (after_plan plan active)))) = Inr (pl_state plan)"
    using s(4) by simp
  moreover have "\<forall>i \<in> set (after_plan plan active). good_item xof i" using new by (auto simp: after_plan_def)
  moreover have "distinct (map item_bytes (after_plan plan active))"
    unfolding distinct_map
  proof
    show "distinct (after_plan plan active)" unfolding after_plan_def using dA by (rule distinct_filter)
    show "inj_on item_bytes (set (after_plan plan active))"
      by (rule inj_on_subset [OF inj]) (auto simp: after_plan_def)
  qed
  ultimately show ?thesis by (simp add: state_digest_Ok)
qed

end
