(* ===== verification/Database_Commit.thy ===== *)
theory Database_Commit
  imports Database_Plan Ledger_Heads
begin

text \<open>
  The active assertions of a database as a scan of the claims in memory, and what a batch commit
  adds to the claims, revocations and public metadata in memory.
\<close>

section \<open>The scan\<close>

definition live :: "ledger_index \<Rightarrow> claim \<Rightarrow> bool" where
  "live ix c \<longleftrightarrow> \<not> is_system_predicate (c_pred c) \<and> c_asrt c \<notin> x_revoked ix"

definition active_item :: "(bytes \<Rightarrow> bytes) \<Rightarrow> ledger \<Rightarrow> claim \<Rightarrow> (ustr \<times> ustr) res" where
  "active_item sha L c =
     bindE (require_asrt_id (PStr (c_asrt c))) (\<lambda>a.
     bindE (verified_assertion_digest sha L c) (\<lambda>d. Ok (a, d)))"

lemma require_asrt_id_Ok: "require_asrt_id (PStr a) = Inr b \<Longrightarrow> b = a"
  by (auto simp: require_asrt_id_def Let_def split: if_splits)

lemma active_item_fst: "active_item sha L c = Inr i \<Longrightarrow> fst i = c_asrt c"
  by (auto simp: active_item_def err_simps dest: require_asrt_id_Ok)

lemma dict_set_fresh: "k \<notin> fst ` set d \<Longrightarrow> dict_set k v d = d @ [(k, v)]"
  by (induction d) auto

lemma active_fold:
  assumes "\<not> l_closed L" "distinct (map c_asrt cs)" "fst ` set acc \<inter> c_asrt ` set cs = {}"
  shows "foldE (add_active sha L) acc cs =
     bindE (mapE (active_item sha L) (filter (live (l_ix L)) cs)) (\<lambda>is. Ok (acc @ is))"
  using assms(2,3)
proof (induction cs arbitrary: acc)
  case (Cons c cs)
  have rev: "has_active_revocation L a = Inr (a \<in> x_revoked (l_ix L))" for a
    using assms(1) by (simp add: has_active_revocation_def ensure_open_def)
  show ?case
  proof (cases "live (l_ix L) c")
    case False
    then have "add_active sha L acc c = Inr acc" by (auto simp: add_active_def rev live_def)
    then show ?thesis using Cons False by simp
  next
    case True
    then have step: "add_active sha L acc c = bindE (active_item sha L c) (\<lambda>i. Ok (dict_set (fst i) (snd i) acc))"
      by (simp add: add_active_def rev live_def active_item_def bindE_assoc)
    show ?thesis
    proof (cases "active_item sha L c")
      case (Inr i)
      then have i: "fst i = c_asrt c" by (rule active_item_fst)
      then have "dict_set (fst i) (snd i) acc = acc @ [i]"
        using Cons.prems(2) by (subst dict_set_fresh) (auto simp: prod_eq_iff)
      moreover have "foldE (add_active sha L) (acc @ [i]) cs =
          bindE (mapE (active_item sha L) (filter (live (l_ix L)) cs)) (\<lambda>is. Ok ((acc @ [i]) @ is))"
        using Cons.prems i by (intro Cons.IH) auto
      ultimately show ?thesis using True Inr
        by (cases "mapE (active_item sha L) (filter (live (l_ix L)) cs)") (simp_all add: step)
    qed (simp add: step True)
  qed
qed simp

lemma active_scan:
  assumes "\<not> l_closed L" "distinct (map c_asrt (x_claims (l_ix L)))"
  shows "active_factual_assertions sha L = mapE (active_item sha L) (filter (live (l_ix L)) (x_claims (l_ix L)))"
proof -
  have "find_claims L None None = Inr (x_claims (l_ix L))" using assms(1) by (simp add: find_claims_def ensure_open_def)
  then show ?thesis
    using active_fold [OF assms, of "[]" sha]
    by (simp add: active_factual_assertions_def)
      (cases "mapE (active_item sha L) (filter (live (l_ix L)) (x_claims (l_ix L)))"; simp)
qed

lemma active_keys:
  assumes "mapE (active_item sha L) cs = Inr active"
  shows "map fst active = map c_asrt cs"
  using assms by (induction cs arbitrary: active) (auto simp: err_simps dest: active_item_fst)

section \<open>What a batch adds in memory\<close>

text \<open>No key is loaded lazily.\<close>

lemma not_lazy [simp]: "is_lazy [] k = False"
  by (cases k) (simp_all add: is_lazy_def)

definition grows_by :: "claim list \<Rightarrow> revokes_row list \<Rightarrow> meta_row list \<Rightarrow> ledger_index \<Rightarrow> ledger_index \<Rightarrow> bool" where
  "grows_by cs rs ms ix ix' \<longleftrightarrow>
     x_claims ix' = x_claims ix @ cs \<and> x_revoked ix' = x_revoked ix \<union> r_revoked ` set rs \<and> x_meta ix' = x_meta ix @ ms \<and>
     (\<forall>a. dict_get (x_system ix') a \<noteq> None \<longleftrightarrow> dict_get (x_system ix) a \<noteq> None \<or> a \<in> r_revoker ` set rs)"

lemma grows_by_refl: "grows_by [] [] [] ix ix"
  by (simp add: grows_by_def)

lemma grows_by_trans:
  "grows_by cs rs ms ix ix1 \<Longrightarrow> grows_by cs' rs' ms' ix1 ix2 \<Longrightarrow> grows_by (cs @ cs') (rs @ rs') (ms @ ms') ix ix2"
  by (auto simp: grows_by_def)

lemma grows_by_side: "same_claim_side ix ix' \<Longrightarrow> x_meta ix' = x_meta ix @ ms \<Longrightarrow> grows_by [] [] ms ix ix'"
  by (simp add: grows_by_def same_claim_side_def)

lemma append_plain_rows: "append_meta_rows (map (MRow b) rows) = rows"
  by (induction rows) (simp_all add: append_meta_rows_def List.map_filter_simps)

lemma grows_initial:
  assumes "idx_add_initial [] meta anno tx op ix = (ix', Inr ())"
  shows "grows_by [] [] meta ix ix'"
proof -
  let ?i = "idx_add_claim_meta_events [] (map (MRow False) meta) tx op True ix"
  have i: "grows_by [] [] meta ix ?i"
    by (rule grows_by_side) (simp_all add: add_events_fields append_plain_rows)
  show ?thesis
  proof (cases "anno = []")
    case True
    with assms i show ?thesis by (simp add: idx_add_initial_def Let_def)
  next
    case False
    with assms obtain rows where
      ix': "ix' = idx_add_annotation [] anno (idx_add_claim_meta_events [] (map (MRow True) rows) tx op False ?i)"
      by (auto simp: idx_add_initial_def idx_add_compatibility_def Let_def split: sum.splits)
    have "grows_by [] [] [] ?i ix'"
      unfolding ix'
    proof (rule grows_by_side)
      show "same_claim_side ?i (idx_add_annotation [] anno (idx_add_claim_meta_events [] (map (MRow True) rows) tx op False ?i))"
        by (rule same_claim_side_trans [OF add_events_fields(3)], rule add_annotation_fields [THEN conjunct2, THEN conjunct2])
    qed (simp add: add_annotation_fields add_events_fields)
    from grows_by_trans [OF i this] show ?thesis by simp
  qed
qed

lemma grows_assertion:
  assumes "idx_add_assertion_write [] tx ix (op, w) = (ix', Inr ())" "\<not> starts_with (c_pred (w_claim w)) SYSTEM_PREFIX"
  shows "grows_by [w_claim w] [] (w_meta w) ix ix'"
proof -
  from assms(1) obtain i where i: "apply_claim_index (w_claim w) tx op ix = (i, Inr ())"
    "idx_add_initial [] (w_meta w) (w_anno w) tx op i = (ix', Inr ())"
    by (auto simp: idx_add_assertion_write_def apply_assertion_indexes_def thenS_Inr_iff)
  have "grows_by [w_claim w] [] [] ix i" using add_claim_fields [OF i(1) assms(2)] by (simp add: grows_by_def)
  from grows_by_trans [OF this grows_initial [OF i(2)]] show ?thesis by simp
qed

lemma grows_revocation:
  assumes "idx_add_revocation_write [] ws tx ix (op, w) = (ix', Inr ())"
  shows "grows_by [] [v_revokes w] (v_meta w) ix ix'"
proof -
  obtain t where t: "revocation_target ix ws (r_revoked (v_revokes w)) = Some t"
    using assms by (cases "revocation_target ix ws (r_revoked (v_revokes w))") (auto simp: idx_add_revocation_write_def)
  from assms have "thenS (apply_revoke_claim (revoke_claim (v_revokes w) (c_eref t)) (v_revokes w) tx op ix)
      (\<lambda>ix _. idx_add_initial [] (v_meta w) (v_anno w) tx op ix) = (ix', Inr ())"
    by (simp add: idx_add_revocation_write_def t)
  then obtain i where i: "apply_revoke_claim (revoke_claim (v_revokes w) (c_eref t)) (v_revokes w) tx op ix = (i, Inr ())"
    "idx_add_initial [] (v_meta w) (v_anno w) tx op i = (ix', Inr ())"
    by (auto simp: thenS_Inr_iff)
  have "grows_by [] [v_revokes w] [] ix i" using i(1) by (auto simp: apply_revoke_fields grows_by_def)
  from grows_by_trans [OF this grows_initial [OF i(2)]] show ?thesis by simp
qed

definition public_row :: "meta_append \<Rightarrow> meta_row list" where
  "public_row a = (case a of MRow is_storage r \<Rightarrow> if is_storage then [] else [r] | MTombstone _ _ \<Rightarrow> [])"

lemma grows_append:
  assumes "idx_add_meta_append [] tx ix (op, a) = (ix', Inr ())"
  shows "grows_by [] [] (public_row a) ix ix'"
proof -
  have ev: "grows_by [] [] (if p then append_meta_rows [a] else []) ix (idx_add_claim_meta_events [] [a] tx op p ix)" for p
    by (rule grows_by_side) (simp_all add: add_events_fields)
  have anno: "grows_by [] [] [] i (idx_add_annotation [] rows i)" for i rows
    by (rule grows_by_side) (simp_all add: add_annotation_fields)
  have one: "append_meta_rows [MRow b r] = [r]" "append_meta_rows [MTombstone x k] = []" for b r x k
    by (simp_all add: append_meta_rows_def List.map_filter_simps)
  show ?thesis
  proof (cases a)
    case (MRow b r)
    then show ?thesis
      using assms ev [of "\<not> b"] grows_by_trans [OF ev [of "\<not> b"] anno]
      by (cases b) (auto simp: idx_add_meta_append_def public_row_def one Let_def split: sum.splits)
  next
    case (MTombstone x k)
    then show ?thesis
      using assms ev [of False] by (simp add: idx_add_meta_append_def public_row_def one Let_def)
  qed
qed

lemma grows_fold:
  assumes "foldS f ix xs = (ix', Inr ())"
    and "\<And>ix x ix'. x \<in> set xs \<Longrightarrow> f ix x = (ix', Inr ()) \<Longrightarrow> grows_by (c x) (r x) (m x) ix ix'"
  shows "grows_by (concat (map c xs)) (concat (map r xs)) (concat (map m xs)) ix ix'"
  using assms
proof (induction xs arbitrary: ix)
  case (Cons x xs)
  from Cons.prems(1) obtain i where i: "f ix x = (i, Inr ())" "foldS f i xs = (ix', Inr ())"
    by (auto simp: thenS_Inr_iff)
  have "grows_by (c x) (r x) (m x) ix i" using i(1) by (intro Cons.prems(2)) simp_all
  moreover have "grows_by (concat (map c xs)) (concat (map r xs)) (concat (map m xs)) i ix'"
    using i(2) Cons.prems(2) by (intro Cons.IH) simp_all
  ultimately show ?case by (simp add: grows_by_trans)
qed (simp add: grows_by_refl)

lemma concat_enum: "concat (map (\<lambda>p. f (snd p)) (enumerate n xs)) = concat (map f xs)"
  by (simp add: map_snd_enum)

lemma grows_batch:
  assumes "apply_batch_indexes [] ws rs ms tx ix = (ix', Inr ())"
    and user: "\<And>w. w \<in> set ws \<Longrightarrow> \<not> starts_with (c_pred (w_claim w)) SYSTEM_PREFIX"
  shows "grows_by (map w_claim ws) (map v_revokes rs)
     (concat (map w_meta ws) @ concat (map v_meta rs) @ concat (map public_row ms)) ix ix'"
proof -
  from assms(1) obtain i1 i2 where i: "foldS (idx_add_assertion_write [] tx) ix (enumerate 0 ws) = (i1, Inr ())"
    "foldS (idx_add_revocation_write [] ws tx) i1 (enumerate (length ws) rs) = (i2, Inr ())"
    "foldS (idx_add_meta_append [] tx) i2 (enumerate (length ws + length rs) ms) = (ix', Inr ())"
    by (auto simp: apply_batch_indexes_def thenS_Inr_iff)
  have member: "snd p \<in> set xs" if "p \<in> set (enumerate n xs)" for p n and xs :: "'a list"
    using imageI [OF that, of snd] by (simp flip: list.set_map)
  have s1: "grows_by (concat (map (\<lambda>p. [w_claim (snd p)]) (enumerate 0 ws))) (concat (map (\<lambda>_. []) (enumerate 0 ws)))
      (concat (map (\<lambda>p. w_meta (snd p)) (enumerate 0 ws))) ix i1"
    by (rule grows_fold [OF i(1)]) (use grows_assertion user member in \<open>metis prod.collapse\<close>)
  have s2: "grows_by (concat (map (\<lambda>_. []) (enumerate (length ws) rs)))
      (concat (map (\<lambda>p. [v_revokes (snd p)]) (enumerate (length ws) rs)))
      (concat (map (\<lambda>p. v_meta (snd p)) (enumerate (length ws) rs))) i1 i2"
    by (rule grows_fold [OF i(2)]) (use grows_revocation in \<open>metis prod.collapse\<close>)
  have s3: "grows_by (concat (map (\<lambda>_. []) (enumerate (length ws + length rs) ms)))
      (concat (map (\<lambda>_. []) (enumerate (length ws + length rs) ms)))
      (concat (map (\<lambda>p. public_row (snd p)) (enumerate (length ws + length rs) ms))) i2 ix'"
    by (rule grows_fold [OF i(3)]) (use grows_append in \<open>metis prod.collapse\<close>)
  show ?thesis
    using grows_by_trans [OF grows_by_trans [OF s1 s2] s3]
    by (simp add: concat_enum concat_map_Nil concat_singletons map_snd_enum o_def
        del: map_map)
qed

section \<open>What a batch commit does\<close>

text \<open>
  A commit of a database keeps its head sound: the state token of the head is the digest of the
  active assertions, and both move together.
\<close>

section \<open>The batch in memory\<close>

lemma validated_claim_ids:
  assumes "foldE validate_assertion_write acc ws = Inr ids" "distinct acc"
  shows "ids = acc @ map (\<lambda>w. c_asrt (w_claim w)) ws \<and> distinct ids \<and>
     (\<forall>w \<in> set ws. (\<forall>r \<in> set (w_meta w). m_asrt r = c_asrt (w_claim w)) \<and> \<not> starts_with (c_pred (w_claim w)) SYSTEM_PREFIX)"
  using assms
proof (induction ws arbitrary: acc)
  case (Cons w ws)
  from Cons.prems(1) obtain acc1 where a: "validate_assertion_write acc w = Inr acc1"
    "foldE validate_assertion_write acc1 ws = Inr ids" by (auto simp: err_simps)
  from a(1) have w: "acc1 = acc @ [c_asrt (w_claim w)]" "c_asrt (w_claim w) \<notin> set acc"
    "\<forall>r \<in> set (w_meta w). m_asrt r = c_asrt (w_claim w)"
    by (auto simp: validate_assertion_write_def err_simps Let_def list_ex_iff split: if_splits)
  have "distinct acc1" using w Cons.prems(2) by simp
  note I = Cons.IH [OF a(2) this]
  have "ids = acc @ map (\<lambda>w. c_asrt (w_claim w)) (w # ws)" using I w(1) by simp
  moreover have "distinct ids" using I by blast
  moreover have "\<forall>w \<in> set (w # ws). (\<forall>r \<in> set (w_meta w). m_asrt r = c_asrt (w_claim w)) \<and>
      \<not> starts_with (c_pred (w_claim w)) SYSTEM_PREFIX"
    using I w(3) validated_assertion(2) [OF a(1)] by simp
  ultimately show ?case by blast
qed simp

lemma validated_revoker_ids:
  assumes "foldE (validate_revocation_write cids) acc rs = Inr ids" "distinct acc" "set acc \<inter> set cids = {}"
  shows "ids = acc @ map (\<lambda>w. r_revoker (v_revokes w)) rs \<and> distinct ids \<and> set ids \<inter> set cids = {} \<and>
     (\<forall>w \<in> set rs. \<forall>r \<in> set (v_meta w). m_asrt r = r_revoker (v_revokes w))"
  using assms
proof (induction rs arbitrary: acc)
  case (Cons w rs)
  from Cons.prems(1) obtain acc1 where a: "validate_revocation_write cids acc w = Inr acc1"
    "foldE (validate_revocation_write cids) acc1 rs = Inr ids" by (auto simp: err_simps)
  from a(1) have w: "acc1 = acc @ [r_revoker (v_revokes w)]" "r_revoker (v_revokes w) \<notin> set acc"
    "r_revoker (v_revokes w) \<notin> set cids" "\<forall>r \<in> set (v_meta w). m_asrt r = r_revoker (v_revokes w)"
    by (auto simp: validate_revocation_write_def err_simps Let_def list_ex_iff split: if_splits)
  have "distinct acc1" "set acc1 \<inter> set cids = {}" using w Cons.prems(2,3) by auto
  note I = Cons.IH [OF a(2) this]
  have "ids = acc @ map (\<lambda>w. r_revoker (v_revokes w)) (w # rs)" using I w(1) by simp
  moreover have "distinct ids" "set ids \<inter> set cids = {}" using I by blast+
  moreover have "\<forall>w \<in> set (w # rs). \<forall>r \<in> set (v_meta w). m_asrt r = r_revoker (v_revokes w)" using I w(4) by simp
  ultimately show ?case by blast
qed simp

lemma commit_batch_memory:
  assumes "commit_batch ws rs expected head md ms L = (L', Inr ())" "l_lazy L = []" "ix_ok (l_ix L)"
  shows "grows_by (map w_claim ws) (map v_revokes rs)
      (concat (map w_meta ws) @ concat (map v_meta rs) @ concat (map public_row ms)) (l_ix L) (l_ix L')"
    and "l_lazy L' = []" "\<not> l_closed L'" "ix_ok (l_ix L')"
    and "distinct (batch_ids ws rs)" "\<forall>a \<in> set (batch_ids ws rs). \<not> is_known_asrt_id (l_ix L) a"
    and "\<forall>w \<in> set ws. \<forall>r \<in> set (w_meta w). m_asrt r = c_asrt (w_claim w)"
    and "\<forall>w \<in> set rs. \<forall>r \<in> set (v_meta w). m_asrt r = r_revoker (v_revokes w)"
proof -
  let ?ws = "map merge_assertion_write ws" and ?rs = "map merge_revocation_write rs"
  from assms(1) obtain tx ids where ids: "validate_batch L ?ws ?rs ms = Inr ids"
    and w: "write_session L (bindE (batch_db L ?ws ?rs expected head md ms tx ids)
      (\<lambda>db. Inr (db, apply_batch_indexes (l_lazy L) ?ws ?rs ms tx))) = (L', Inr ())"
    by (cases rule: commit_session) auto
  from ids obtain cids rids where c: "foldE validate_assertion_write [] ?ws = Inr cids"
    "foldE (validate_revocation_write cids) [] ?rs = Inr rids" "ids = cids @ rids"
    by (auto simp: validate_batch_def err_simps split: if_splits)
  note cl = validated_claim_ids [OF c(1) distinct.simps(1)[THEN iffD2, OF TrueI]]
  have "set ([] :: ustr list) \<inter> set cids = {}" by simp
  note rv = validated_revoker_ids [OF c(2) distinct.simps(1)[THEN iffD2, OF TrueI] this]
  have same: "w_claim (merge_assertion_write w) = w_claim w" "w_meta (merge_assertion_write w) = w_meta w"
    "v_revokes (merge_revocation_write r) = v_revokes r" "v_meta (merge_revocation_write r) = v_meta r" for w r
    by (simp_all add: merge_assertion_write_def merge_revocation_write_def)
  have batch: "ids = batch_ids ws rs" using cl rv c(3) by (simp add: batch_ids_def same o_def)
  have "distinct cids" "distinct rids" "set cids \<inter> set rids = {}" using cl rv by blast+
  then show "distinct (batch_ids ws rs)" unfolding batch [symmetric] c(3) by simp
  show "\<forall>w \<in> set ws. \<forall>r \<in> set (w_meta w). m_asrt r = c_asrt (w_claim w)"
    "\<forall>w \<in> set rs. \<forall>r \<in> set (v_meta w). m_asrt r = r_revoker (v_revokes w)"
    using cl rv by (simp_all add: same)
  from w obtain db ix' where b: "batch_db L ?ws ?rs expected head md ms tx ids = Inr db" "\<not> l_closed L"
    and hook: "apply_batch_indexes [] ?ws ?rs ms tx (l_ix L) = (ix', Inr ())" and L': "L' = L\<lparr>l_db := db, l_ix := ix'\<rparr>"
    by (cases rule: write_session_cases [of L "bindE (batch_db L ?ws ?rs expected head md ms tx ids)
      (\<lambda>db. Inr (db, apply_batch_indexes (l_lazy L) ?ws ?rs ms tx))"]) (auto simp: err_simps assms(2) prod_eq_iff)
  from b(1) show "\<forall>a \<in> set (batch_ids ws rs). \<not> is_known_asrt_id (l_ix L) a"
    by (auto simp: batch_db_def batch list_ex_iff split: if_splits)
  show "l_lazy L' = []" "\<not> l_closed L'" using assms(2) b(2) by (simp_all add: L')
  show "ix_ok (l_ix L')" using hook_batch [of "[]" ?ws ?rs ms tx] hook assms(3) by (metis L' fst_conv ledger.select_convs(2) ledger.simps(7) ledger.surjective ledger.update_convs(2))
  have "grows_by (map w_claim ?ws) (map v_revokes ?rs)
      (concat (map w_meta ?ws) @ concat (map v_meta ?rs) @ concat (map public_row ms)) (l_ix L) ix'"
    using hook by (rule grows_batch) (use cl in auto)
  then show "grows_by (map w_claim ws) (map v_revokes rs)
      (concat (map w_meta ws) @ concat (map v_meta rs) @ concat (map public_row ms)) (l_ix L) (l_ix L')"
    by (simp add: L' same o_def)
qed

section \<open>Digests that stay\<close>

lemma find_meta_scan:
  assumes "ix_ok (l_ix L)" "l_lazy L = []" "\<not> l_closed L"
  shows "find_meta L (Some a) None None = Inr (filter (\<lambda>r. m_asrt r = a) (x_meta (l_ix L)))"
  using assms by (simp add: find_meta_def ensure_open_def opt_ok_def ix_ok_defs grouped_def)

definition free_of_reserved :: "meta_row list \<Rightarrow> bool" where
  "free_of_reserved rows \<longleftrightarrow> (\<forall>r \<in> set rows. meta_key_text (m_key r) \<notin> set RESERVED_ASSERTION_META_KEYS)"

lemma str_rows_free:
  assumes "free_of_reserved rows" "u k \<in> set RESERVED_ASSERTION_META_KEYS"
  shows "str_rows k rows = []"
proof -
  have "\<not> (m_key r = MKey (u k) \<and> m_kind r = u ''str'')" if "r \<in> set rows" for r
    using assms that by (auto simp: free_of_reserved_def meta_key_text_def)
  then show ?thesis by (simp add: str_rows_def filter_empty_conv)
qed

lemma str_rows_append [simp]: "str_rows k (a @ b) = str_rows k a @ str_rows k b"
  by (simp add: str_rows_def)

lemma row_index_append: "str_rows k a \<noteq> [] \<Longrightarrow> row_index k (a @ b) = row_index k a \<and> row_index k a < length a"
  unfolding row_index_def str_rows_def
  by (induction a) auto

lemma verified_extends:
  assumes d: "verified_assertion_digest sha L c = Inr d"
    and rows: "find_meta L (Some (c_asrt c)) None None = Inr rows"
    and rows': "find_meta L' (Some (c_asrt c)) None None = Inr (rows @ extra)" and free: "free_of_reserved extra"
  shows "verified_assertion_digest sha L' c = Inr d"
proof -
  have reserved: "u ''assertion_digest'' \<in> set RESERVED_ASSERTION_META_KEYS" "u ''schema_digest'' \<in> set RESERVED_ASSERTION_META_KEYS"
    "u ''tx_id'' \<in> set RESERVED_ASSERTION_META_KEYS" by (simp_all add: RESERVED_ASSERTION_META_KEYS_def)
  from d rows obtain dr sr tr where one: "str_rows ''assertion_digest'' rows = [dr]"
    "str_rows ''schema_digest'' rows = [sr]" "str_rows ''tx_id'' rows = [tr]"
    by (auto simp: verified_assertion_digest_def split: list.splits)
  have ix: "row_index k (rows @ extra) = row_index k rows" "row_index k rows < length rows" if "str_rows k rows \<noteq> []" for k
    using row_index_append [OF that, of extra] by simp_all
  have t: "take (row_index ''tx_id'' rows) (rows @ extra) = take (row_index ''tx_id'' rows) rows"
    using ix(2) [of "''tx_id''"] one by simp
  have k: "row_index ''tx_id'' (rows @ extra) = row_index ''tx_id'' rows"
    "row_index ''schema_digest'' (rows @ extra) = row_index ''schema_digest'' rows"
    "row_index ''assertion_digest'' (rows @ extra) = row_index ''assertion_digest'' rows"
    using one by (simp_all add: ix(1))
  have "identity_digest sha c (rows @ extra) a b t = identity_digest sha c rows a b t" for a b t
    unfolding identity_digest_def Let_def k t ..
  with d show ?thesis
    by (simp add: verified_assertion_digest_def rows rows' str_rows_free [OF free] reserved one)
qed

section \<open>Planned assertions\<close>

lemma entity_ref_str:
  assumes "canonical_bytes_tup_v1 (PTuple [PStr (u ''entity_ref''), v] # rest) = Inr b"
  shows "\<exists>e. v = PStr e"
  using assms
  by (auto simp: canonical_bytes_tup_v1_def canonical_item_def normalize_tag_def TAG_CODE_BY_NAME_def encode_value_bytes_def
      encode_entity_ref_def err_simps split: pyval.splits if_splits)

definition planned :: "(bytes \<Rightarrow> bytes) \<Rightarrow> ustr \<Rightarrow> prepared_assertion \<Rightarrow> bool" where
  "planned sha schema p \<longleftrightarrow> (let r = pa_record p; c = w_claim (pa_write p) in
     c_asrt c = ra_asrt r \<and> c_pred c = ra_pred r \<and> \<not> is_system_predicate (ra_pred r) \<and> ra_schema r = schema \<and>
     w_meta (pa_write p) = meta_rows_of (ra_asrt r) (ra_meta r) \<and>
     set (map me_key (ra_meta r)) \<inter> set RESERVED_ASSERTION_META_KEYS = {} \<and>
     normalize_meta_entries (ra_meta r) = Inr (ra_meta r) \<and>
     assertion_digest_for sha (c_pred c) (PTuple (PTuple [PStr (u ''entity_ref''), PStr (c_eref c)] # c_terms c)) schema
       (ra_meta r) = Inr (ra_digest r))"

lemma normalize_fact_tuple_Ok:
  assumes "normalize_fact_tuple t = Inr facts"
  obtains e rest where "facts = PTuple [PStr (u ''entity_ref''), PStr e] # rest"
proof -
  from assms obtain tag v rest b where t: "facts = PTuple [tag, v] # rest" "tag = PStr (u ''entity_ref'')"
    "canonical_bytes_tup_v1 (PTuple [tag, v] # rest) = Inr b"
    by (auto simp: normalize_fact_tuple_def err_simps split: pyval.splits list.splits if_splits)
  with entity_ref_str [of v rest b] that show thesis by auto
qed

lemma checked_initial_meta_Ok:
  assumes "checked_initial_meta raw = Inr meta"
  shows "normalize_meta_entries meta = Inr meta \<and> set (map me_key meta) \<inter> set RESERVED_ASSERTION_META_KEYS = {}"
proof -
  from assms have n: "normalize_meta_entries raw = Inr meta" and r: "reject_reserved_assertion_meta meta = Inr ()"
    by (auto simp: checked_initial_meta_def err_simps)
  have "meta = raw" using n by (rule normalize_meta_entries_same)
  with n r show ?thesis
    by (auto simp: reject_reserved_assertion_meta_def reject_reserved_meta_keys_def split: if_splits)
qed

lemma prepare_planned:
  assumes "db_prepare_assertion sha schema fresh (n, item) = Inr p"
  shows "planned sha schema p"
proof -
  from assms obtain facts meta digest rows where
    sys: "\<not> is_system_predicate (in_pred item)" and f: "normalize_fact_tuple (in_tuple item) = Inr facts" and
    m: "checked_initial_meta (in_meta item) = Inr meta" and
    d: "assertion_digest_for sha (in_pred item) (PTuple facts) schema meta = Inr digest" and
    p: "p = \<lparr>pa_record = \<lparr>ra_asrt = new_assertion_id fresh n, ra_pred = in_pred item, ra_facts = facts, ra_schema = schema,
          ra_digest = digest, ra_tx = zero_tx, ra_meta = meta\<rparr>,
        pa_write = \<lparr>w_claim = \<lparr>c_asrt = new_assertion_id fresh n, c_pred = in_pred item,
            c_eref = (case facts of PTuple [_, PStr e] # _ \<Rightarrow> e | _ \<Rightarrow> []), c_terms = tl facts\<rparr>,
          w_args = map (\<lambda>(idx, atom, tag). \<lparr>g_asrt = new_assertion_id fresh n, g_idx = idx, g_atom = atom, g_tag = tag\<rparr>) rows,
          w_meta = meta_rows_of (new_assertion_id fresh n) meta, w_anno = annotation_rows (new_assertion_id fresh n) meta\<rparr>\<rparr>"
    by (auto simp: db_prepare_assertion_def err_simps Let_def split: if_splits)
  from f obtain e rest where facts: "facts = PTuple [PStr (u ''entity_ref''), PStr e] # rest" by (rule normalize_fact_tuple_Ok)
  show ?thesis using sys checked_initial_meta_Ok [OF m] d by (simp add: planned_def p Let_def facts)
qed

lemma meta_rows_free: "set (map me_key meta) \<inter> set RESERVED_ASSERTION_META_KEYS = {} \<Longrightarrow> free_of_reserved (meta_rows_of a meta)"
  by (auto simp: free_of_reserved_def meta_rows_of_def meta_key_text_def)

lemma entries_of_rows: "map entry_of_row (meta_rows_of a meta) = meta"
  by (induction meta) (simp_all add: meta_rows_of_def entry_of_row_def meta_key_text_def)

lemma verified_new:
  assumes p: "planned sha schema p" and schema: "require_token (u ''sha256:'') (PStr schema) = Inr s"
    and digest: "require_token (u ''sha256:'') (PStr (ra_digest (pa_record p))) = Inr d"
    and tx: "require_token (u ''tx:'') (PStr tx_id) = Inr t"
    and rows: "find_meta L (Some (ra_asrt (pa_record p))) None None = Inr (w_meta (assertion_write_of tx_id p))"
  shows "verified_assertion_digest sha L (w_claim (pa_write p)) = Inr (ra_digest (pa_record p))"
proof -
  let ?r = "pa_record p" and ?c = "w_claim (pa_write p)"
  let ?a = "ra_asrt ?r" and ?m = "meta_rows_of (ra_asrt ?r) (ra_meta ?r)"
  let ?rows = "?m @ [str_meta ?a ''schema_digest'' schema, str_meta ?a ''assertion_digest'' (ra_digest ?r), str_meta ?a ''tx_id'' tx_id]"
  from p have f: "c_asrt ?c = ?a" "ra_schema ?r = schema" "w_meta (pa_write p) = ?m" "free_of_reserved ?m"
    "normalize_meta_entries (ra_meta ?r) = Inr (ra_meta ?r)"
    "assertion_digest_for sha (c_pred ?c) (PTuple (PTuple [PStr (u ''entity_ref''), PStr (c_eref ?c)] # c_terms ?c)) schema
       (ra_meta ?r) = Inr (ra_digest ?r)"
    unfolding planned_def Let_def using meta_rows_free by blast+
  have w: "w_meta (assertion_write_of tx_id p) = ?rows" by (simp add: assertion_write_of_def Let_def f)
  have token: "require_token pre (PStr x) = Inr y \<Longrightarrow> require_token pre (PStr x) = Inr x" for pre x y
    by (auto simp: require_token_def split: if_splits)
  note tokens = token [OF schema] token [OF digest] token [OF tx]
  have str: "str_rows k ?m = []" if "u k \<in> set RESERVED_ASSERTION_META_KEYS" for k
    using str_rows_free [OF f(4) that] .
  have index: "row_index k (?m @ xs) = length ?m + row_index k xs" if "u k \<in> set RESERVED_ASSERTION_META_KEYS" for k xs
    using str [OF that] unfolding row_index_def str_rows_def filter_empty_conv by (simp add: takeWhile_append2)
  have reserved: "u ''assertion_digest'' \<in> set RESERVED_ASSERTION_META_KEYS" "u ''schema_digest'' \<in> set RESERVED_ASSERTION_META_KEYS"
    "u ''tx_id'' \<in> set RESERVED_ASSERTION_META_KEYS" by (simp_all add: RESERVED_ASSERTION_META_KEYS_def)
  have users: "filter (\<lambda>r. meta_key_text (m_key r) \<notin> set RESERVED_ASSERTION_META_KEYS) ?m = ?m"
    using f(4) by (simp add: free_of_reserved_def)
  have mk: "meta_key_text (MKey k) = k" for k by (simp add: meta_key_text_def)
  have identity: "identity_digest sha ?c ?rows (PStr (ra_digest ?r)) (PStr schema) (PStr tx_id) = Inr (ra_digest ?r, ra_digest ?r)"
    using reserved
    by (simp add: identity_digest_def Let_def tokens index reserved users entries_of_rows f(5,6)
        row_index_def [of _ "[x]" for x] row_index_def [of _ "x # xs" for x xs] str_meta_def mk)
  have three: "str_rows ''assertion_digest'' ?rows = [str_meta ?a ''assertion_digest'' (ra_digest ?r)]"
    "str_rows ''schema_digest'' ?rows = [str_meta ?a ''schema_digest'' schema]" "str_rows ''tx_id'' ?rows = [str_meta ?a ''tx_id'' tx_id]"
    unfolding str_rows_append using str reserved by (simp_all add: str_rows_def [of _ "x # xs" for x xs] str_meta_def)
  have cells: "m_value (str_meta x k v) = PStr v" for x k v by (simp add: str_meta_def)
  show ?thesis
    by (simp add: verified_assertion_digest_def f(1) rows w three identity cells del: str_rows_append)
qed

end
