(* ===== verification/Database_Sound.thy ===== *)
theory Database_Sound
  imports Database_Commit
begin

text \<open>
  The invariant of a database between commits, and that a commit keeps it: what the scan of the
  new ledger finds active is what was active before, with the committed assertions and without
  the revoked ones.
\<close>

section \<open>The invariant\<close>

text \<open>Metadata and revocations in memory are about assertions the ledger knows.\<close>

definition ids_known :: "ledger_index \<Rightarrow> bool" where
  "ids_known ix \<longleftrightarrow> distinct (map c_asrt (x_claims ix)) \<and>
     (\<forall>r \<in> set (x_meta ix). is_known_asrt_id ix (m_asrt r)) \<and> (\<forall>a \<in> x_revoked ix. is_known_asrt_id ix a)"

definition ledger_sound :: "ledger \<Rightarrow> bool" where
  "ledger_sound L \<longleftrightarrow> ix_ok (l_ix L) \<and> l_lazy L = [] \<and> \<not> l_closed L \<and> ids_known (l_ix L)"

definition db_sound :: "(bytes \<Rightarrow> bytes) \<Rightarrow> (bytes \<Rightarrow> nat \<Rightarrow> bytes) \<Rightarrow> database \<Rightarrow> bool" where
  "db_sound sha xof D \<longleftrightarrow> ledger_sound (b_ledger D) \<and>
     (\<exists>h active. read_ledger_head (b_ledger D) (b_schema_digest D) (b_id D) = Inr h \<and>
        active_factual_assertions sha (b_ledger D) = Inr active \<and>
        state_digest_for_assertions xof active = Inr (hv_state h))"

lemma known_claim: "ix_ok ix \<Longrightarrow> c \<in> set (x_claims ix) \<Longrightarrow> is_known_asrt_id ix (c_asrt c)"
  using latest_member [of c_asrt id "x_claims ix" "x_claim_by_id ix" "c_asrt c"]
  by (simp add: is_known_asrt_id_def ix_ok_defs)

lemma claim_by_id:
  assumes "ix_ok ix" "dict_get (x_claim_by_id ix) a = Some c"
  shows "c \<in> set (x_claims ix) \<and> c_asrt c = a"
  using latest_SomeD [of c_asrt id "x_claims ix" "x_claim_by_id ix" a c] assms by (auto simp: ix_ok_defs)

lemma known_grows:
  assumes "grows_by cs rs ms ix ix'" "ix_ok ix" "ix_ok ix'"
  shows "is_known_asrt_id ix' a \<longleftrightarrow> is_known_asrt_id ix a \<or> a \<in> c_asrt ` set cs \<or> a \<in> r_revoker ` set rs"
proof -
  have m: "dict_get (x_claim_by_id i) a \<noteq> None \<longleftrightarrow> a \<in> c_asrt ` set (x_claims i)" if "ix_ok i" for i
    using that latest_member [of c_asrt id "x_claims i" "x_claim_by_id i" a] by (simp add: ix_ok_defs)
  show ?thesis using assms(1) unfolding is_known_asrt_id_def m [OF assms(2)] m [OF assms(3)]
    by (auto simp: grows_by_def simp del: not_None_eq)
qed

section \<open>The planned revocations and appends\<close>

lemma planned_revocations:
  assumes "foldE (db_prepare_revocation sha L added fresh) acc items = Inr revs"
    and "distinct (map (rr_revoked \<circ> pv_record) acc)"
    and "\<forall>r \<in> set acc. revocation_target_digest sha L added (rr_revoked (pv_record r)) = Inr (pv_digest r)"
  shows "distinct (map (rr_revoked \<circ> pv_record) revs) \<and>
     (\<forall>r \<in> set revs. revocation_target_digest sha L added (rr_revoked (pv_record r)) = Inr (pv_digest r))"
  using assms
proof (induction items arbitrary: acc)
  case (Cons p items)
  obtain n item where p: "p = (n, item)" by (cases p)
  from Cons.prems(1) obtain acc1 where a: "db_prepare_revocation sha L added fresh acc (n, item) = Inr acc1"
    "foldE (db_prepare_revocation sha L added fresh) acc1 items = Inr revs" by (auto simp: err_simps p)
  from a(1) obtain target digest meta where t: "target \<notin> set (map (rr_revoked \<circ> pv_record) acc)"
    "revocation_target_digest sha L added target = Inr digest"
    "acc1 = acc @ [\<lparr>pv_record = \<lparr>rr_revoker = new_assertion_id fresh n, rr_revoked = target, rr_tx = zero_tx, rr_meta = meta\<rparr>,
       pv_rows = meta_rows_of (new_assertion_id fresh n) meta, pv_digest = digest\<rparr>]"
    by (auto simp: db_prepare_revocation_def err_simps Let_def split: if_splits)
  show ?case by (rule Cons.IH [OF a(2)]) (use t Cons.prems(2,3) in auto)
qed simp

lemma revoked_target:
  assumes "revocation_target_digest sha L added t = Inr d" "ledger_sound L"
    and active: "active_factual_assertions sha L = Inr active"
  shows "(t, d) \<in> set active \<or> (\<exists>a. dict_get added t = Some a \<and> ra_digest a = d)"
proof (cases "dict_get added t")
  case (Some a)
  with assms(1) show ?thesis by (auto simp: revocation_target_digest_def split: if_splits)
next
  case None
  from assms(2) have L: "ix_ok (l_ix L)" "\<not> l_closed L" "distinct (map c_asrt (x_claims (l_ix L)))"
    by (simp_all add: ledger_sound_def ids_known_def)
  from assms(1) None L(2) obtain c where c: "dict_get (x_claim_by_id (l_ix L)) t = Some c"
    "\<not> is_system_predicate (c_pred c)" "t \<notin> x_revoked (l_ix L)" "verified_assertion_digest sha L c = Inr d"
    by (auto simp: revocation_target_digest_def get_claim_def has_active_revocation_def ensure_open_def
        split: option.splits if_splits)
  from claim_by_id [OF L(1) c(1)] c have live: "c \<in> set (filter (live (l_ix L)) (x_claims (l_ix L)))" and t: "c_asrt c = t"
    by (auto simp: live_def)
  from active have "mapE (active_item sha L) (filter (live (l_ix L)) (x_claims (l_ix L))) = Inr active"
    by (simp add: active_scan [OF L(2,3)])
  with live obtain i where i: "i \<in> set active" "active_item sha L c = Inr i"
    unfolding mapE_Inr_iff list_all2_conv_all_nth in_set_conv_nth by metis
  have "i = (t, d)" using i(2) c(4) t by (auto simp: active_item_def err_simps dest: require_asrt_id_Ok)
  with i(1) show ?thesis by blast
qed

lemma planned_append:
  assumes "db_prepare_append L item = Inr a"
  shows "is_known_asrt_id (l_ix L) (append_asrt a) \<and> free_of_reserved (public_row a) \<and>
     (\<forall>r \<in> set (public_row a). m_asrt r = append_asrt a)"
  using assms
  by (cases item)
    (auto simp: db_prepare_append_def err_simps append_asrt_def public_row_def free_of_reserved_def normalize_meta_entry_def
      reject_reserved_assertion_meta_def reject_reserved_meta_keys_def split: if_splits)

section \<open>The scan after a commit\<close>

lemma mapE_filter:
  assumes "mapE f xs = Inr ys" "\<And>x y. x \<in> set xs \<Longrightarrow> f x = Inr y \<Longrightarrow> g x = Inr y \<and> (P x \<longleftrightarrow> Q y)"
  shows "mapE g (filter P xs) = Inr (filter Q ys)"
  using assms
proof (induction xs arbitrary: ys)
  case (Cons x xs)
  then obtain y zs where y: "f x = Inr y" "mapE f xs = Inr zs" "ys = y # zs" by (auto simp: err_simps)
  have "mapE g (filter P xs) = Inr (filter Q zs)" using y(2) Cons.prems(2) by (intro Cons.IH) auto
  with Cons.prems(2) [of x y] y show ?case by auto
qed simp

lemma filter_own:
  assumes "distinct (map key ws)" "\<forall>w \<in> set ws. \<forall>r \<in> set (rows w). owner r = key w" "w \<in> set ws"
  shows "filter (\<lambda>r. owner r = key w) (concat (map rows ws)) = rows w"
  using assms
proof (induction ws)
  case (Cons v ws)
  show ?case
  proof (cases "v = w")
    case True
    then have "filter (\<lambda>r. owner r = key w) (rows v) = rows w" using Cons.prems(2) by (simp add: filter_id_conv)
    moreover have "filter (\<lambda>r. owner r = key w) (concat (map rows ws)) = []"
      using Cons.prems True by (fastforce simp: filter_empty_conv image_iff)
    ultimately show ?thesis by simp
  next
    case False
    then have "filter (\<lambda>r. owner r = key w) (rows v) = []" using Cons.prems by (fastforce simp: filter_empty_conv image_iff)
    moreover have "filter (\<lambda>r. owner r = key w) (concat (map rows ws)) = rows w" using Cons False by simp
    ultimately show ?thesis by simp
  qed
qed simp

lemma filter_foreign: "\<forall>w \<in> set ws. \<forall>r \<in> set (rows w). owner r \<noteq> a \<Longrightarrow> filter (\<lambda>r. owner r = a) (concat (map rows ws)) = []"
  by (auto simp: filter_empty_conv)

text \<open>What the planned batch finds in the ledger it is applied to.\<close>

definition fits ::
  "(bytes \<Rightarrow> bytes) \<Rightarrow> (bytes \<Rightarrow> nat \<Rightarrow> bytes) \<Rightarrow> ustr \<Rightarrow> ledger \<Rightarrow> (ustr, ustr) dict \<Rightarrow> commit_plan \<Rightarrow> bool" where
  "fits sha xof schema L active plan \<longleftrightarrow>
     (\<forall>p \<in> set (pl_assertions plan). planned sha schema p \<and> good_item xof (assertion_item p)) \<and>
     distinct (map (rr_revoked \<circ> pv_record) (pl_revocations plan)) \<and>
     set (map revocation_item (pl_revocations plan)) \<subseteq> set (active @ map assertion_item (pl_assertions plan)) \<and>
     (\<forall>a \<in> set (pl_appends plan). is_known_asrt_id (l_ix L) (append_asrt a) \<and>
        free_of_reserved (public_row a) \<and> (\<forall>r \<in> set (public_row a). m_asrt r = append_asrt a))"

lemma mapE_each: "mapE f xs = Inr ys \<Longrightarrow> y \<in> set ys \<Longrightarrow> \<exists>x \<in> set xs. f x = Inr y"
  by (induction xs arbitrary: ys) (auto simp: err_simps)

lemma revocations_fit:
  assumes "\<forall>r \<in> set revs. revocation_target_digest sha L (map (\<lambda>p. (ra_asrt (pa_record p), pa_record p)) prepared)
       (rr_revoked (pv_record r)) = Inr (pv_digest r)"
    and "ledger_sound L" "active_factual_assertions sha L = Inr active"
  shows "set (map revocation_item revs) \<subseteq> set (active @ map assertion_item prepared)"
proof -
  have "revocation_item r \<in> set active \<union> assertion_item ` set prepared" if "r \<in> set revs" for r
  proof -
    from assms(1) that have "revocation_target_digest sha L (map (\<lambda>p. (ra_asrt (pa_record p), pa_record p)) prepared)
       (rr_revoked (pv_record r)) = Inr (pv_digest r)" by blast
    from revoked_target [OF this assms(2,3)] show ?thesis
    proof (elim disjE exE conjE)
      assume "(rr_revoked (pv_record r), pv_digest r) \<in> set active"
      then show ?thesis by (simp add: revocation_item_def)
    next
      fix a assume a: "dict_get (map (\<lambda>p. (ra_asrt (pa_record p), pa_record p)) prepared) (rr_revoked (pv_record r)) = Some a"
        "ra_digest a = pv_digest r"
      from map_of_SomeD [OF a(1)] obtain p where "p \<in> set prepared" "a = pa_record p"
        "rr_revoked (pv_record r) = ra_asrt (pa_record p)" by auto
      with a(2) have "revocation_item r = assertion_item p" by (simp add: revocation_item_def assertion_item_def)
      with \<open>p \<in> set prepared\<close> show ?thesis by blast
    qed
  qed
  then have "revocation_item ` set revs \<subseteq> set active \<union> assertion_item ` set prepared" by blast
  then show ?thesis by simp
qed

lemma plan_fits:
  assumes "plan_commit sha xof fresh D c = Inr plan" "ledger_sound (b_ledger D)"
    "active_factual_assertions sha (b_ledger D) = Inr active"
  shows "fits sha xof (b_schema_digest D) (b_ledger D) active plan"
proof -
  from assms(1) obtain prepared revs appends s0 s1 where
    pl: "pl_assertions plan = prepared" "pl_revocations plan = revs" "pl_appends plan = appends" and
    prep: "mapE (db_prepare_assertion sha (b_schema_digest D) fresh) (enumerate 0 (ch_assertions c)) = Inr prepared" and
    rev: "foldE (db_prepare_revocation sha (b_ledger D) (map (\<lambda>p. (ra_asrt (pa_record p), pa_record p)) prepared) fresh) []
       (enumerate (length (ch_assertions c)) (ch_revocations c)) = Inr revs" and
    app: "mapE (db_prepare_append (b_ledger D)) (ch_appends c) = Inr appends" and
    st: "decode_state (PStr (hv_state (pl_parent plan))) = Inr s0" "foldE (add_element xof) s0 (map assertion_item prepared) = Inr s1"
    by (rule plan_commit_Ok) simp
  have "length s0 = LTHASH_STATE_BYTES" using decode_encode [OF st(1)] by (auto simp: encode_state_def err_simps)
  note good = fold_elements [where sub = False, simplified, OF st(2) this]
  have "planned sha (b_schema_digest D) p" if "p \<in> set prepared" for p
    using mapE_each [OF prep that] prepare_planned by fastforce
  moreover from planned_revocations [OF rev]
  have r: "distinct (map (rr_revoked \<circ> pv_record) revs)"
    "\<forall>r \<in> set revs. revocation_target_digest sha (b_ledger D) (map (\<lambda>p. (ra_asrt (pa_record p), pa_record p)) prepared)
       (rr_revoked (pv_record r)) = Inr (pv_digest r)" by simp_all
  moreover note revocations_fit [OF r(2) assms(2,3)]
  moreover have "is_known_asrt_id (l_ix (b_ledger D)) (append_asrt a) \<and> free_of_reserved (public_row a) \<and>
      (\<forall>r \<in> set (public_row a). m_asrt r = append_asrt a)" if "a \<in> set appends" for a
    using mapE_each [OF app that] planned_append by blast
  ultimately show ?thesis using good by (simp add: fits_def pl)
qed

text \<open>What the batch leaves in memory.\<close>

definition plan_writes :: "ustr \<Rightarrow> commit_plan \<Rightarrow> assertion_write list" where
  "plan_writes tx_id plan = map (assertion_write_of tx_id) (pl_assertions plan)"

definition plan_revokes :: "ustr \<Rightarrow> ustr \<Rightarrow> commit_plan \<Rightarrow> revocation_write list" where
  "plan_revokes schema tx_id plan = map (revocation_write_of schema tx_id) (pl_revocations plan)"

definition plan_ids :: "ustr \<Rightarrow> ustr \<Rightarrow> commit_plan \<Rightarrow> ustr list" where
  "plan_ids schema tx_id plan = batch_ids (plan_writes tx_id plan) (plan_revokes schema tx_id plan)"

definition plan_rows :: "ustr \<Rightarrow> ustr \<Rightarrow> commit_plan \<Rightarrow> meta_row list" where
  "plan_rows schema tx_id plan = concat (map w_meta (plan_writes tx_id plan)) @
     concat (map v_meta (plan_revokes schema tx_id plan)) @ concat (map public_row (pl_appends plan))"

definition plan_gone :: "commit_plan \<Rightarrow> ustr set" where
  "plan_gone plan = set (map (rr_revoked \<circ> pv_record) (pl_revocations plan))"

definition applied :: "ustr \<Rightarrow> ustr \<Rightarrow> commit_plan \<Rightarrow> ledger \<Rightarrow> ledger \<Rightarrow> bool" where
  "applied schema tx_id plan L L' \<longleftrightarrow>
     grows_by (map w_claim (plan_writes tx_id plan)) (map v_revokes (plan_revokes schema tx_id plan))
       (plan_rows schema tx_id plan) (l_ix L) (l_ix L') \<and>
     ix_ok (l_ix L') \<and> l_lazy L' = [] \<and> \<not> l_closed L' \<and> distinct (plan_ids schema tx_id plan) \<and>
     (\<forall>a \<in> set (plan_ids schema tx_id plan). \<not> is_known_asrt_id (l_ix L) a) \<and>
     (\<forall>w \<in> set (plan_writes tx_id plan). \<forall>r \<in> set (w_meta w). m_asrt r = c_asrt (w_claim w)) \<and>
     (\<forall>w \<in> set (plan_revokes schema tx_id plan). \<forall>r \<in> set (v_meta w). m_asrt r = r_revoker (v_revokes w))"

lemma commit_applied:
  assumes "commit_batch (plan_writes tx_id plan) (plan_revokes schema tx_id plan) expected head md (pl_appends plan) L = (L', Inr ())"
    and "ledger_sound L"
  shows "applied schema tx_id plan L L'"
  using commit_batch_memory [OF assms(1)] assms(2)
  by (simp add: ledger_sound_def applied_def plan_ids_def plan_rows_def)

lemma write_claim [simp]: "w_claim (assertion_write_of tx_id p) = w_claim (pa_write p)"
  by (simp add: assertion_write_of_def Let_def)

lemma write_revokes [simp]: "r_revoked (v_revokes (revocation_write_of schema tx_id r)) = rr_revoked (pv_record r)"
  by (simp add: revocation_write_of_def Let_def)

abbreviation new_claims :: "commit_plan \<Rightarrow> claim list" where
  "new_claims plan \<equiv> map (w_claim \<circ> pa_write) (pl_assertions plan)"

lemma claim_of_item: "planned sha schema p \<Longrightarrow> c_asrt (w_claim (pa_write p)) = fst (assertion_item p)"
  by (simp add: planned_def Let_def assertion_item_def)

lemma applied_memory:
  assumes "applied schema tx_id plan L L'"
  shows "x_claims (l_ix L') = x_claims (l_ix L) @ new_claims plan"
    and "x_revoked (l_ix L') = x_revoked (l_ix L) \<union> plan_gone plan"
    and "x_meta (l_ix L') = x_meta (l_ix L) @ plan_rows schema tx_id plan"
  using assms by (auto simp: applied_def grows_by_def plan_writes_def plan_revokes_def plan_gone_def image_image)

lemma applied_known:
  assumes "applied schema tx_id plan L L'" "ix_ok (l_ix L)"
  shows "is_known_asrt_id (l_ix L') a \<longleftrightarrow> is_known_asrt_id (l_ix L) a \<or> a \<in> set (plan_ids schema tx_id plan)"
proof -
  have "grows_by (map w_claim (plan_writes tx_id plan)) (map v_revokes (plan_revokes schema tx_id plan))
      (plan_rows schema tx_id plan) (l_ix L) (l_ix L')" "ix_ok (l_ix L')"
    using assms(1) by (simp_all only: applied_def)
  from known_grows [OF this(1) assms(2) this(2), of a] show ?thesis
    by (simp add: plan_ids_def batch_ids_def image_image)
qed

lemma new_claim_ids:
  assumes "applied schema tx_id plan L L'"
  shows "distinct (map c_asrt (new_claims plan))"
    and "c \<in> set (new_claims plan) \<Longrightarrow> c_asrt c \<in> set (plan_ids schema tx_id plan) \<and> \<not> is_known_asrt_id (l_ix L) (c_asrt c)"
  using assms by (auto simp: applied_def plan_ids_def batch_ids_def plan_writes_def o_def)

lemma applied_distinct:
  assumes "applied schema tx_id plan L L'" "ledger_sound L"
  shows "distinct (map c_asrt (x_claims (l_ix L')))"
proof -
  have "c_asrt ` set (x_claims (l_ix L)) \<inter> c_asrt ` set (new_claims plan) = {}"
    using known_claim assms(2) new_claim_ids(2) [OF assms(1)] by (fastforce simp: ledger_sound_def)
  moreover have "distinct (map c_asrt (x_claims (l_ix L)))" using assms(2) by (simp add: ledger_sound_def ids_known_def)
  ultimately show ?thesis
    unfolding applied_memory(1) [OF assms(1)] map_append distinct_append set_map using new_claim_ids(1) [OF assms(1)] by blast
qed

lemma rows_elsewhere:
  assumes "applied schema tx_id plan L L'" "a \<notin> set (plan_ids schema tx_id plan)"
  shows "filter (\<lambda>r. m_asrt r = a) (plan_rows schema tx_id plan) =
     filter (\<lambda>r. m_asrt r = a) (concat (map public_row (pl_appends plan)))"
proof -
  have "filter (\<lambda>r. m_asrt r = a) (concat (map w_meta (plan_writes tx_id plan))) = []"
    by (rule filter_foreign) (use assms in \<open>auto simp: applied_def plan_ids_def batch_ids_def\<close>)
  moreover have "filter (\<lambda>r. m_asrt r = a) (concat (map v_meta (plan_revokes schema tx_id plan))) = []"
    by (rule filter_foreign) (use assms in \<open>auto simp: applied_def plan_ids_def batch_ids_def\<close>)
  ultimately show ?thesis by (simp add: plan_rows_def)
qed

lemma scan_meta:
  assumes "applied schema tx_id plan L L'"
  shows "find_meta L' (Some a) None None = Inr (filter (\<lambda>r. m_asrt r = a) (x_meta (l_ix L)) @
     filter (\<lambda>r. m_asrt r = a) (plan_rows schema tx_id plan))"
  using find_meta_scan [of L' a] assms by (simp add: applied_memory(3) [OF assms] applied_def)

lemma old_item:
  assumes "applied schema tx_id plan L L'" "fits sha xof schema L active plan" "ledger_sound L"
    and c: "c \<in> set (x_claims (l_ix L))" "active_item sha L c = Inr i"
  shows "active_item sha L' c = Inr i"
proof -
  from assms(3) have L: "ix_ok (l_ix L)" "l_lazy L = []" "\<not> l_closed L" by (simp_all add: ledger_sound_def)
  have "c_asrt c \<notin> set (plan_ids schema tx_id plan)"
    using known_claim [OF L(1) c(1)] assms(1) by (auto simp: applied_def)
  note elsewhere = rows_elsewhere [OF assms(1) this]
  have "free_of_reserved (filter (\<lambda>r. m_asrt r = c_asrt c) (plan_rows schema tx_id plan))"
    unfolding elsewhere using assms(2) by (auto simp: fits_def free_of_reserved_def)
  from verified_extends [OF _ find_meta_scan [OF L] scan_meta [OF assms(1)] this] c(2) show ?thesis
    by (auto simp: active_item_def err_simps)
qed

lemma own_rows:
  assumes "applied schema tx_id plan L L'" "fits sha xof schema L active plan" "ledger_sound L" "p \<in> set (pl_assertions plan)"
  shows "find_meta L' (Some (ra_asrt (pa_record p))) None None = Inr (w_meta (assertion_write_of tx_id p))"
proof -
  let ?w = "assertion_write_of tx_id p" and ?a = "ra_asrt (pa_record p)"
  have w: "?w \<in> set (plan_writes tx_id plan)" using assms(4) by (simp add: plan_writes_def)
  have a: "?a = c_asrt (w_claim ?w)" using assms(2,4) by (auto simp: fits_def planned_def Let_def)
  have "w_claim (pa_write p) \<in> set (new_claims plan)" using assms(4) by simp
  from new_claim_ids(2) [OF assms(1) this] have unknown: "\<not> is_known_asrt_id (l_ix L) ?a" using a by simp
  have "filter (\<lambda>r. m_asrt r = c_asrt (w_claim ?w)) (concat (map w_meta (plan_writes tx_id plan))) = w_meta ?w"
    by (rule filter_own [where key = "\<lambda>w. c_asrt (w_claim w)"])
      (use assms(1) w in \<open>auto simp: applied_def plan_ids_def batch_ids_def\<close>)
  moreover have "filter (\<lambda>r. m_asrt r = ?a) (concat (map v_meta (plan_revokes schema tx_id plan))) = []"
  proof (rule filter_foreign, intro ballI)
    fix v r assume v: "v \<in> set (plan_revokes schema tx_id plan)" "r \<in> set (v_meta v)"
    then have "m_asrt r = r_revoker (v_revokes v)" using assms(1) by (simp add: applied_def)
    moreover have "r_revoker (v_revokes v) \<noteq> c_asrt (w_claim ?w)"
      using assms(1) v(1) w unfolding applied_def plan_ids_def batch_ids_def distinct_append set_map by blast
    ultimately show "m_asrt r \<noteq> ?a" using a by simp
  qed
  moreover have "filter (\<lambda>r. m_asrt r = ?a) (concat (map public_row (pl_appends plan))) = []"
    by (rule filter_foreign) (use assms(2) unknown in \<open>auto simp: fits_def\<close>)
  moreover have "filter (\<lambda>r. m_asrt r = ?a) (x_meta (l_ix L)) = []"
    using unknown assms(3) by (auto simp: ledger_sound_def ids_known_def filter_empty_conv)
  ultimately show ?thesis by (simp add: scan_meta [OF assms(1)] plan_rows_def a)
qed

lemma new_item:
  assumes "applied schema tx_id plan L L'" "fits sha xof schema L active plan" "ledger_sound L" "p \<in> set (pl_assertions plan)"
    and tx: "require_token (u ''tx:'') (PStr tx_id) = Inr t"
  shows "active_item sha L' (w_claim (pa_write p)) = Inr (assertion_item p)"
proof -
  let ?c = "w_claim (pa_write p)" and ?r = "pa_record p"
  from assms(2,4) have pl: "planned sha schema p" and good: "good_item xof (assertion_item p)" by (auto simp: fits_def)
  from pl have "assertion_digest_for sha (c_pred ?c) (PTuple (PTuple [PStr (u ''entity_ref''), PStr (c_eref ?c)] # c_terms ?c))
      schema (ra_meta ?r) = Inr (ra_digest ?r)" unfolding planned_def Let_def by blast
  then obtain s where s: "require_token (u ''sha256:'') (PStr schema) = Inr s"
    by (auto simp: assertion_digest_for_def canonical_bytes_assertion_v1_def err_simps split: if_splits)
  from good obtain x y where "require_asrt_id (PStr (ra_asrt ?r)) = Inr x"
    and y: "require_token (u ''sha256:'') (PStr (ra_digest ?r)) = Inr y"
    by (auto simp: good_item_def assertion_item_def db_state_element_def err_simps)
  then have "require_asrt_id (PStr (c_asrt ?c)) = Inr (ra_asrt ?r)"
    using require_asrt_id_Ok claim_of_item [OF pl] by (auto simp: assertion_item_def)
  with verified_new [OF pl s y tx own_rows [OF assms(1-4)]] show ?thesis by (simp add: active_item_def assertion_item_def)
qed

lemma live_after:
  assumes "applied schema tx_id plan L L'" "fits sha xof schema L active plan" "ledger_sound L"
  shows "filter (live (l_ix L')) (x_claims (l_ix L')) =
     filter (\<lambda>c. c_asrt c \<notin> plan_gone plan) (filter (live (l_ix L)) (x_claims (l_ix L)) @ new_claims plan)"
proof -
  have l: "live (l_ix L') c \<longleftrightarrow> live (l_ix L) c \<and> c_asrt c \<notin> plan_gone plan" for c
    by (auto simp: live_def applied_memory [OF assms(1)])
  have "live (l_ix L) c" if "c \<in> set (new_claims plan)" for c
    using new_claim_ids(2) [OF assms(1) that] that assms(2,3)
    by (auto simp: live_def fits_def planned_def Let_def ledger_sound_def ids_known_def)
  then have "filter (live (l_ix L')) (new_claims plan) = filter (\<lambda>c. c_asrt c \<notin> plan_gone plan) (new_claims plan)"
    by (intro filter_cong) (simp_all only: l refl simp_thms)
  moreover have "filter (live (l_ix L')) (x_claims (l_ix L)) =
      filter (\<lambda>c. c_asrt c \<notin> plan_gone plan) (filter (live (l_ix L)) (x_claims (l_ix L)))"
    unfolding filter_filter by (rule filter_cong) (simp_all only: l refl)
  ultimately show ?thesis by (simp only: applied_memory(1) [OF assms(1)] filter_append)
qed

lemma active_after:
  assumes "applied schema tx_id plan L L'" "fits sha xof schema L active plan" "ledger_sound L"
    and active: "active_factual_assertions sha L = Inr active"
    and tx: "require_token (u ''tx:'') (PStr tx_id) = Inr t"
  shows "active_factual_assertions sha L' = Inr (after_plan plan active)"
    and "distinct (map fst (active @ map assertion_item (pl_assertions plan)))"
proof -
  let ?olds = "filter (live (l_ix L)) (x_claims (l_ix L))"
  from assms(3) have L: "ix_ok (l_ix L)" "\<not> l_closed L" "distinct (map c_asrt (x_claims (l_ix L)))"
    by (simp_all add: ledger_sound_def ids_known_def)
  have L': "\<not> l_closed L'" using assms(1) by (simp add: applied_def)
  have "mapE (active_item sha L) ?olds = Inr active" using active by (simp add: active_scan [OF L(2,3)])
  then have olds: "mapE (active_item sha L') ?olds = Inr active"
    using old_item [OF assms(1-3)] by (auto simp: mapE_Inr_iff elim!: list.rel_mono_strong)
  have news: "mapE (active_item sha L') (new_claims plan) = Inr (map assertion_item (pl_assertions plan))"
    using new_item [OF assms(1-3) _ tx] by (simp add: mapE_Inr_iff list_all2_map1 list_all2_map2 list.rel_refl_strong)
  have all: "mapE (active_item sha L') (?olds @ new_claims plan) = Inr (active @ map assertion_item (pl_assertions plan))"
    by (simp add: mapE_append olds news)
  then have "mapE (active_item sha L') (filter (\<lambda>c. c_asrt c \<notin> plan_gone plan) (?olds @ new_claims plan)) =
      Inr (filter (\<lambda>i. fst i \<notin> plan_gone plan) (active @ map assertion_item (pl_assertions plan)))"
    by (rule mapE_filter) (use active_item_fst in auto)
  then show "active_factual_assertions sha L' = Inr (after_plan plan active)"
    by (simp only: active_scan [OF L' applied_distinct [OF assms(1,3)]] live_after [OF assms(1-3)] after_plan_def plan_gone_def)
  have "distinct (map c_asrt (x_claims (l_ix L)) @ map c_asrt (new_claims plan))"
    using applied_distinct [OF assms(1,3)] unfolding applied_memory(1) [OF assms(1)] map_append .
  then have "distinct (map c_asrt (?olds @ new_claims plan))"
    unfolding map_append distinct_append by (auto simp: distinct_map_filter simp del: map_map)
  then show "distinct (map fst (active @ map assertion_item (pl_assertions plan)))"
    unfolding active_keys [OF all] .
qed

lemma sound_after:
  assumes "applied schema tx_id plan L L'" "fits sha xof schema L active plan" "ledger_sound L"
    and active: "active_factual_assertions sha L = Inr active"
  shows "ledger_sound L'"
proof -
  let ?known = "is_known_asrt_id (l_ix L')"
  from assms(3) have L: "ix_ok (l_ix L)" "\<not> l_closed L" "distinct (map c_asrt (x_claims (l_ix L)))"
    by (simp_all add: ledger_sound_def ids_known_def)
  note k = applied_known [OF assms(1) L(1)]
  have "?known (m_asrt r)" if "r \<in> set (plan_rows schema tx_id plan)" for r
  proof (cases "m_asrt r \<in> set (plan_ids schema tx_id plan)")
    case False
    from that have "r \<in> set (filter (\<lambda>x. m_asrt x = m_asrt r) (plan_rows schema tx_id plan))" by simp
    then have "r \<in> set (concat (map public_row (pl_appends plan)))" unfolding rows_elsewhere [OF assms(1) False] by simp
    with assms(2) show ?thesis by (auto simp: fits_def k)
  qed (simp add: k)
  moreover have "?known a" if "a \<in> plan_gone plan" for a
  proof -
    have act: "mapE (active_item sha L) (filter (live (l_ix L)) (x_claims (l_ix L))) = Inr active"
      using active by (simp add: active_scan [OF L(2,3)])
    from that obtain d where "(a, d) \<in> set (map revocation_item (pl_revocations plan))" by (auto simp: plan_gone_def revocation_item_def)
    with assms(2) have "(a, d) \<in> set active \<union> set (map assertion_item (pl_assertions plan))" by (auto simp: fits_def)
    then show ?thesis
    proof
      assume "(a, d) \<in> set active"
      then have "a \<in> set (map fst active)" by force
      then obtain c where "c \<in> set (x_claims (l_ix L))" "a = c_asrt c" unfolding active_keys [OF act] by auto
      with known_claim [OF L(1)] k show ?thesis by simp
    next
      assume "(a, d) \<in> set (map assertion_item (pl_assertions plan))"
      then have "(a, d) \<in> assertion_item ` set (pl_assertions plan)" by simp
      then obtain p where "p \<in> set (pl_assertions plan)" "(a, d) = assertion_item p" by blast
      then have p: "p \<in> set (pl_assertions plan)" "a = fst (assertion_item p)" by (metis, metis fst_conv)
      with assms(2) have "a = c_asrt (w_claim (pa_write p))" using claim_of_item by (auto simp: fits_def)
      moreover have "w_claim (pa_write p) \<in> set (new_claims plan)" using p(1) by simp
      ultimately show ?thesis using new_claim_ids(2) [OF assms(1)] k by simp
    qed
  qed
  moreover have "\<forall>r \<in> set (x_meta (l_ix L)). ?known (m_asrt r)" "\<forall>a \<in> x_revoked (l_ix L). ?known a"
    using assms(3) k by (auto simp: ledger_sound_def ids_known_def)
  ultimately have "ids_known (l_ix L')"
    using applied_distinct [OF assms(1,3)] unfolding ids_known_def applied_memory(2,3) [OF assms(1)] set_append by blast
  with assms(1) show ?thesis by (simp add: applied_def ledger_sound_def)
qed

end
