(* ===== verification/Database_Open.thy ===== *)
theory Database_Open
  imports Database Py_Value
begin

text \<open>
  Opening a workspace (\<^verbatim>\<open>core/store/database.py\<close>): the checks that its history, its head and its
  ledger agree, the check of every metadata event against the transaction that carries it, the
  creation, opening and repair of a database, and frozen views.
\<close>

section \<open>Metadata events against the history\<close>

definition event_text :: "meta_event \<Rightarrow> ustr" where "event_text e = meta_key_text (e_key e)"

definition unique_meta_events :: "ustr \<Rightarrow> meta_event list \<Rightarrow> meta_event list res" where
  "unique_meta_events a events =
     foldE (\<lambda>rows e.
       if e_asrt e \<noteq> a then Err DatabaseIntegrityError
       else if e_kind e = None then Err DatabaseIntegrityError
       else if event_text e \<in> set (map event_text rows) then Err DatabaseIntegrityError
       else Ok (rows @ [e])) [] events"

definition require_meta_event_value :: "meta_event list \<Rightarrow> ustr \<Rightarrow> ustr \<times> pyval \<Rightarrow> unit res" where
  "require_meta_event_value rows key expected = (case find (\<lambda>e. event_text e = key) rows of
      None \<Rightarrow> Err DatabaseIntegrityError
    | Some e \<Rightarrow>
        if e_kind e = Some (fst expected) \<and> py_eq (e_value e) (snd expected) then Ok () else Err DatabaseIntegrityError)"

definition event_entry :: "meta_event \<Rightarrow> meta_entry" where
  "event_entry e =
     \<lparr>me_key = event_text e, me_kind = (case e_kind e of Some k \<Rightarrow> k | None \<Rightarrow> u ''None''), me_value = e_value e\<rparr>"

definition user_entries :: "meta_event list \<Rightarrow> meta_entry list" where
  "user_entries rows = map event_entry (filter (\<lambda>e. event_text e \<notin> set RESERVED_ASSERTION_META_KEYS) rows)"

definition claim_digest :: "(bytes \<Rightarrow> bytes) \<Rightarrow> claim \<Rightarrow> ustr \<Rightarrow> meta_entry list \<Rightarrow> ustr res" where
  "claim_digest sha c schema meta = assertion_digest_for sha (c_pred c)
     (PTuple (PTuple [PStr (u ''entity_ref''), PStr (c_eref c)] # c_terms c)) schema meta"

definition check_position :: "ledger \<Rightarrow> ustr \<Rightarrow> nat \<times> nat \<Rightarrow> unit res" where
  "check_position L a pos =
     (if dict_get (x_tx_refs (l_ix L)) a \<noteq> Some (fst pos) then Err DatabaseIntegrityError
      else if dict_get (x_op_ordinals (l_ix L)) a \<noteq> Some (snd pos) then Err DatabaseIntegrityError
      else Ok ())"

definition validate_assertion_meta_operation ::
  "(bytes \<Rightarrow> bytes) \<Rightarrow> ledger \<Rightarrow> tx_object \<Rightarrow> ustr \<Rightarrow> ustr \<Rightarrow> nat \<times> nat \<Rightarrow> meta_event list \<Rightarrow> unit res" where
  "validate_assertion_meta_operation sha L t a digest pos events =
     bindE (get_claim L a) (\<lambda>claim. case claim of
         None \<Rightarrow> Err DatabaseIntegrityError
       | Some c \<Rightarrow>
           bindE (check_position L a pos) (\<lambda>_.
           bindE (unique_meta_events a events) (\<lambda>rows.
           bindE (require_meta_event_value rows (u ''schema_digest'') (u ''str'', PStr (to_schema t))) (\<lambda>_.
           bindE (require_meta_event_value rows (u ''assertion_digest'') (u ''str'', PStr digest)) (\<lambda>_.
           bindE (require_meta_event_value rows (u ''tx_id'') (u ''str'', PStr (to_id t))) (\<lambda>_.
           bindE (claim_digest sha c (to_schema t) (user_entries rows)) (\<lambda>recomputed.
             if recomputed \<noteq> digest then Err DatabaseIntegrityError else Ok ())))))))"

definition expected_revocation_rows :: "tx_object \<Rightarrow> meta_entry list \<Rightarrow> (ustr, ustr \<times> pyval) dict" where
  "expected_revocation_rows t meta =
     dict_set (u ''tx_id'') (u ''str'', PStr (to_id t))
       (dict_set (u ''schema_digest'') (u ''str'', PStr (to_schema t))
         (foldl (\<lambda>d e. dict_set (me_key e) (me_kind e, me_value e) d) [] meta))"

definition validate_revocation_meta_operation ::
  "ledger \<Rightarrow> tx_object \<Rightarrow> ustr \<Rightarrow> meta_entry list \<Rightarrow> nat \<times> nat \<Rightarrow> meta_event list \<Rightarrow> unit res" where
  "validate_revocation_meta_operation L t r meta pos events =
     (if dict_get (x_system (l_ix L)) r = None then Err DatabaseIntegrityError
      else
        bindE (check_position L r pos) (\<lambda>_.
        bindE (unique_meta_events r events) (\<lambda>rows.
        let expected = expected_revocation_rows t meta in
        if set (map event_text rows) \<noteq> set (map fst expected) then Err DatabaseIntegrityError
        else forE (\<lambda>(key, v). require_meta_event_value rows key v) expected)))"

definition validate_append_meta_operation :: "ustr \<Rightarrow> meta_change \<Rightarrow> meta_event list \<Rightarrow> unit res" where
  "validate_append_meta_operation a c events = (case events of
      [e] \<Rightarrow>
        (case c of
           UnsetMeta k \<Rightarrow>
             if e_asrt e = a \<and> event_text e = k \<and> e_kind e = None \<and> e_value e = PNone then Ok () else Err DatabaseIntegrityError
         | SetMeta m \<Rightarrow>
             if e_asrt e = a \<and> event_text e = me_key m \<and> e_kind e = Some (me_kind m) \<and> py_eq (e_value e) (me_value m)
             then Ok () else Err DatabaseIntegrityError)
    | _ \<Rightarrow> Err DatabaseIntegrityError)"

definition validate_repair_add_meta_operation ::
  "(bytes \<Rightarrow> bytes) \<Rightarrow> ledger \<Rightarrow> tx_object \<Rightarrow> ustr set \<Rightarrow> ustr \<Rightarrow> meta_event list \<Rightarrow> unit res" where
  "validate_repair_add_meta_operation sha L t known_tx_ids a events =
     bindE (get_claim L a) (\<lambda>claim. case claim of
         None \<Rightarrow> Err DatabaseIntegrityError
       | Some c \<Rightarrow>
           bindE (unique_meta_events a events) (\<lambda>rows.
           bindE (require_meta_event_value rows (u ''schema_digest'') (u ''str'', PStr (to_schema t))) (\<lambda>_.
           bindE (claim_digest sha c (to_schema t) (user_entries rows)) (\<lambda>digest.
           bindE (require_meta_event_value rows (u ''assertion_digest'') (u ''str'', PStr digest)) (\<lambda>_.
             case find (\<lambda>e. event_text e = u ''tx_id'') rows of
               None \<Rightarrow> Err DatabaseIntegrityError
             | Some e \<Rightarrow>
                 if e_kind e \<noteq> Some (u ''str'') then Err DatabaseIntegrityError
                 else if \<not> hashable (e_value e) then Err TypeError
                 else if e_value e \<notin> PStr ` known_tx_ids then Err DatabaseIntegrityError
                 else Ok ())))))"

type_synonym by_position = "(nat \<times> nat, meta_event list) dict"

definition events_by_position :: "meta_event list \<Rightarrow> by_position" where
  "events_by_position events = foldl (\<lambda>d e. dict_append (event_seq e) e d) [] events"

text \<open>A \<open>repair_add\<close> sanctions a claim where it physically is.\<close>

definition consume_repair ::
  "(bytes \<Rightarrow> bytes) \<Rightarrow> ledger \<Rightarrow> by_position \<Rightarrow> ustr set \<Rightarrow> (nat \<times> nat) set \<Rightarrow> tx_object \<times> tx_op \<Rightarrow> (nat \<times> nat) set res" where
  "consume_repair sha L actual known_tx_ids consumed p = (case p of
      (t, OpRepairAdd a) \<Rightarrow>
        (case (dict_get (x_tx_refs (l_ix L)) a, dict_get (x_op_ordinals (l_ix L)) a) of
           (Some tx, Some op) \<Rightarrow>
             bindE (validate_repair_add_meta_operation sha L t known_tx_ids a (dict_list actual (tx, op))) (\<lambda>_.
               Ok (insert (tx, op) consumed))
         | _ \<Rightarrow> Err DatabaseIntegrityError)
    | _ \<Rightarrow> Ok consumed)"

definition consume_operation ::
  "(bytes \<Rightarrow> bytes) \<Rightarrow> ledger \<Rightarrow> by_position \<Rightarrow> (nat \<times> nat) set \<Rightarrow> tx_object \<times> nat \<times> tx_op \<Rightarrow> (nat \<times> nat) set res" where
  "consume_operation sha L actual consumed p = (case p of (t, i, op) \<Rightarrow>
     let pos = (to_seq t, i); events = dict_list actual pos in
     bindE (case op of
         OpAssertion a digest \<Rightarrow> validate_assertion_meta_operation sha L t a digest pos events
       | OpRevocation r _ meta \<Rightarrow> validate_revocation_meta_operation L t r meta pos events
       | OpAppendMeta a c \<Rightarrow> validate_append_meta_operation a c events
       | _ \<Rightarrow> if events \<noteq> [] \<and> pos \<notin> consumed then Err DatabaseIntegrityError else Ok ()) (\<lambda>_.
       Ok (insert pos consumed)))"

definition validate_claim_meta_parity :: "(bytes \<Rightarrow> bytes) \<Rightarrow> tx_files \<Rightarrow> ledger \<Rightarrow> ustr \<Rightarrow> unit res" where
  "validate_claim_meta_parity sha files L head =
     bindE (tx_chain sha files {} (Some head)) (\<lambda>rev_chain.
     let chain = rev rev_chain; actual = events_by_position (x_events (l_ix L)); known = to_id ` set chain in
     bindE (foldE (consume_repair sha L actual known) {} (concat (map (\<lambda>t. map (Pair t) (to_ops t)) chain))) (\<lambda>consumed.
     bindE (foldE (consume_operation sha L actual) consumed
              (concat (map (\<lambda>t. map (Pair t) (enumerate 0 (to_ops t))) chain))) (\<lambda>consumed.
       if set (map fst actual) \<subseteq> consumed then Ok () else Err DatabaseIntegrityError)))"

section \<open>The integrity of a workspace\<close>

definition validate_workspace_integrity ::
  "(bytes \<Rightarrow> bytes) \<Rightarrow> (bytes \<Rightarrow> nat \<Rightarrow> bytes) \<Rightarrow> workspace \<Rightarrow> ledger \<Rightarrow> ustr \<Rightarrow> ustr \<Rightarrow> database_value res" where
  "validate_workspace_integrity sha xof files L expected_schema db_id =
     bindE (read_ledger_head L expected_schema db_id) (\<lambda>head.
     bindE (read_tx_object sha (f_tx files) (hv_tx head)) (\<lambda>t.
     if to_schema t \<noteq> hv_schema head then Err DatabaseIntegrityError
     else if to_scheme t \<noteq> hv_scheme head \<or> to_seq t \<noteq> hv_seq head then Err DatabaseIntegrityError
     else
       bindE (replay_history sha (f_tx files) (f_schemas files) (hv_tx head) (hv_schema head)) (\<lambda>history_ids.
       bindE (active_factual_assertions sha L) (\<lambda>active.
       if history_ids \<noteq> fst ` set active then Err DatabaseIntegrityError
       else
         bindE (state_digest_for_assertions xof active) (\<lambda>computed.
         if computed \<noteq> hv_state head then Err DatabaseIntegrityError
         else
           bindE (validate_claim_meta_parity sha (f_tx files) L (hv_tx head)) (\<lambda>_. Ok head))))))"

section \<open>The workspace description\<close>

definition DATABASE_WORKSPACE_VERSION :: ustr where "DATABASE_WORKSPACE_VERSION = u ''1''"

definition write_database_meta :: "int \<Rightarrow> ustr \<Rightarrow> pyval res" where
  "write_database_meta now db_id =
     bindE (require_db_id (PStr db_id)) (\<lambda>_.
       Ok (PDict [(key_of ''created_at_epoch_ns'', PInt now), (key_of ''database_workspace_version'', PStr DATABASE_WORKSPACE_VERSION),
                  (key_of ''db_id'', PStr db_id), (key_of ''last_saved_at_epoch_ns'', PInt now)]))"

definition epoch_ok :: "pyval \<Rightarrow> bool" where
  "epoch_ok v \<longleftrightarrow> (case v of PNone \<Rightarrow> True | PInt i \<Rightarrow> 0 \<le> i | _ \<Rightarrow> False)"

definition read_database_meta :: "pyval \<Rightarrow> (pyval \<times> pyval) list res" where
  "read_database_meta doc =
     bindE (as_dict DatabaseError doc) (\<lambda>d.
     if dict_field d ''database_workspace_version'' \<noteq> PStr DATABASE_WORKSPACE_VERSION then Err DatabaseError
     else
       bindE (as_str DatabaseError (dict_field d ''db_id'')) (\<lambda>_.
       if \<not> epoch_ok (dict_field d ''created_at_epoch_ns'') \<or> \<not> epoch_ok (dict_field d ''last_saved_at_epoch_ns'')
       then Err DatabaseError else Ok d))"

definition touch_saved_at :: "int \<Rightarrow> database \<Rightarrow> database \<times> int res" where
  "touch_saved_at now D =
     (case bindE (db_ensure_open D) (\<lambda>_. case b_files D of
             None \<Rightarrow> Err DatabaseError
           | Some files \<Rightarrow> bindE (read_database_meta (f_meta files)) (\<lambda>d. Ok (files, d))) of
        Inl e \<Rightarrow> (D, Inl e)
      | Inr (files, d) \<Rightarrow>
          (let d = dict_set (key_of ''last_saved_at_epoch_ns'') (PInt now) d;
               d = dict_setdefault (key_of ''created_at_epoch_ns'') (PInt now) d
           in (D\<lparr>b_files := Some (files\<lparr>f_meta := PDict d\<rparr>)\<rparr>, Ok now)))"

section \<open>Creating, opening, closing\<close>

definition empty_tables :: ledger_db where "empty_tables = \<lparr>d_claims = [], d_meta = [], d_cmeta = []\<rparr>"

definition head_defaults :: "(bytes \<Rightarrow> bytes) \<Rightarrow> workspace option \<Rightarrow> ledger \<Rightarrow> tx_meta_default list res" where
  "head_defaults sha files L = (case files of
      None \<Rightarrow> Ok []
    | Some f \<Rightarrow>
        bindE (get_ledger_meta L HEAD_TX_ID) (\<lambda>head. case head of
            None \<Rightarrow> Err DatabaseIntegrityError
          | Some h \<Rightarrow> tx_meta_defaults_from_history sha (f_tx f) h))"

text \<open>\<open>Database.__init__\<close>.\<close>

definition init_database ::
  "(bytes \<Rightarrow> bytes) \<Rightarrow> ledger \<Rightarrow> ustr \<Rightarrow> ustr \<Rightarrow> pyval option \<Rightarrow> workspace option \<Rightarrow> database res" where
  "init_database sha L db_id schema schema_ir files =
     bindE (require_db_id (PStr db_id)) (\<lambda>_.
     bindE (require_token (u ''sha256:'') (PStr schema)) (\<lambda>_.
     bindE (case schema_ir of
         None \<Rightarrow> Ok ()
       | Some ir \<Rightarrow>
           bindE (ensure_schema_ir ir) (\<lambda>_.
           bindE (schema_digest sha ir) (\<lambda>d. if d \<noteq> schema then Err DatabaseError else Ok ()))) (\<lambda>_.
     let D = \<lparr>b_ledger = L, b_id = db_id, b_schema_digest = schema, b_schema_ir = schema_ir, b_files = files, b_closed = False\<rparr>;
         (D, r) = (case schema_ir of None \<Rightarrow> (D, Ok ()) | Some ir \<Rightarrow> configure_from_schema ir D) in
     bindE r (\<lambda>_.
       case files of
         None \<Rightarrow> Ok D
       | Some _ \<Rightarrow>
           bindE (head_defaults sha files (b_ledger D)) (\<lambda>rows.
             let (L', r) = replace_tx_meta_defaults rows (b_ledger D) in bindE r (\<lambda>_. Ok (D\<lparr>b_ledger := L'\<rparr>)))))))"

definition db_close :: "database \<Rightarrow> database" where
  "db_close D = (if b_closed D then D else D\<lparr>b_closed := True, b_ledger := close_ledger (b_ledger D)\<rparr>)"

definition genesis :: "(bytes \<Rightarrow> bytes) \<Rightarrow> ustr \<Rightarrow> tx_object res" where
  "genesis sha schema =
     bindE (tx_id_for_v2 sha None schema LTHASH_SCHEME 0 [] []) (\<lambda>tx_id.
       Ok \<lparr>to_id = tx_id, to_parent = None, to_schema = schema, to_scheme = LTHASH_SCHEME, to_seq = 0, to_ops = [],
           to_defaults = []\<rparr>)"

definition commit_genesis :: "tx_object \<Rightarrow> ustr \<Rightarrow> ledger \<Rightarrow> ledger res" where
  "commit_genesis t db_id L =
     bindE (encode_state (PBytes BBytes empty_state)) (\<lambda>state.
     bindE (head_metadata db_id (to_schema t) state 0) (\<lambda>metadata.
       let (L', r) = commit_batch [] [] None (to_id t) metadata [] L in bindE r (\<lambda>_. Ok L')))"

definition check_empty_ledger :: "ledger \<Rightarrow> unit res" where
  "check_empty_ledger L =
     bindE (get_ledger_meta L (u ''db_id'')) (\<lambda>stored.
     if stored \<noteq> None then Err DatabaseError
     else
       bindE (find_claims L None None) (\<lambda>claims.
         if claims \<noteq> [] \<or> x_revokes (l_ix L) \<noteq> [] then Err DatabaseError else Ok ()))"

definition create_memory :: "(bytes \<Rightarrow> bytes) \<Rightarrow> ustr \<Rightarrow> pyval \<Rightarrow> database res" where
  "create_memory sha uuid schema_ir =
     bindE (open_ledger [] empty_tables) (\<lambda>L.
     bindE (check_empty_ledger L) (\<lambda>_.
     bindE (schema_digest sha schema_ir) (\<lambda>schema.
     let db_id = u ''mem:'' @ uuid in
     bindE (genesis sha schema) (\<lambda>t.
     bindE (commit_genesis t db_id L) (\<lambda>L.
       init_database sha L db_id schema (Some schema_ir) None)))))"

definition create_workspace :: "(bytes \<Rightarrow> bytes) \<Rightarrow> ustr \<Rightarrow> int \<Rightarrow> pyval \<Rightarrow> database res" where
  "create_workspace sha uuid now schema_ir =
     bindE (canonicalize_schema_ir_jcs schema_ir) (\<lambda>schema_bytes.
     bindE (schema_digest sha schema_ir) (\<lambda>schema.
     let db_id = u ''db:'' @ uuid in
     bindE (genesis sha schema) (\<lambda>t.
     bindE (open_ledger [] empty_tables) (\<lambda>L.
     bindE (check_empty_ledger L) (\<lambda>_.
     bindE (json_read_back schema_ir) (\<lambda>doc.
     bindE (write_schema_object sha schema schema_bytes (Some doc) []) (\<lambda>schemas.
     bindE (write_tx_object sha t []) (\<lambda>tx.
     bindE (write_database_meta now db_id) (\<lambda>meta.
     bindE (commit_genesis t db_id L) (\<lambda>L.
       init_database sha L db_id schema (Some schema_ir)
         (Some \<lparr>f_tx = tx, f_schemas = schemas, f_views = [], f_meta = meta\<rparr>)))))))))))"

definition open_workspace ::
  "(bytes \<Rightarrow> bytes) \<Rightarrow> (bytes \<Rightarrow> nat \<Rightarrow> bytes) \<Rightarrow> workspace \<Rightarrow> ledger_db \<Rightarrow> pyval \<Rightarrow> database res" where
  "open_workspace sha xof files tables schema_ir =
     bindE (schema_digest sha schema_ir) (\<lambda>schema.
     bindE (validate_schema_object sha (f_schemas files) schema schema_ir) (\<lambda>_.
     bindE (read_database_meta (f_meta files)) (\<lambda>meta.
     bindE (require_db_id (dict_field meta ''db_id'')) (\<lambda>db_id.
     bindE (open_ledger [] tables) (\<lambda>L.
     bindE (get_ledger_meta L (u ''digest_scheme'')) (\<lambda>stored_scheme.
     if stored_scheme \<noteq> Some LTHASH_SCHEME then Err DatabaseError
     else
       bindE (validate_workspace_integrity sha xof files L schema db_id) (\<lambda>_.
         init_database sha L db_id schema (Some schema_ir) (Some files))))))))"

section \<open>Repair\<close>

definition py_strip :: "ustr \<Rightarrow> ustr" where
  "py_strip s = rev (dropWhile (\<lambda>c. c \<in> {32, 9, 10, 11, 12, 13, 28, 29, 30, 31}) (rev (dropWhile (\<lambda>c. c \<in> {32, 9, 10, 11, 12, 13, 28, 29, 30, 31}) s)))"

definition repair_operations :: "ustr set \<Rightarrow> ustr set \<Rightarrow> ustr \<Rightarrow> ustr \<Rightarrow> ustr \<Rightarrow> tx_op list" where
  "repair_operations history_ids ledger_ids previous rebuilt reason =
     map OpRepairRemove (sorted_list_of_set (history_ids - ledger_ids)) @
     map OpRepairAdd (sorted_list_of_set (ledger_ids - history_ids)) @ [OpRepair previous rebuilt reason]"

text \<open>The repair transaction, and the state it certifies; \<open>last_repair\<close> is a note beside the head.\<close>

definition plan_repair ::
  "(bytes \<Rightarrow> bytes) \<Rightarrow> (bytes \<Rightarrow> nat \<Rightarrow> bytes) \<Rightarrow> workspace \<Rightarrow> ledger \<Rightarrow> ustr \<Rightarrow> ustr \<Rightarrow> (ustr \<times> tx_object \<times> ustr) res" where
  "plan_repair sha xof files L schema reason =
     bindE (get_ledger_meta L HEAD_TX_ID) (\<lambda>stored_head. case stored_head of
         None \<Rightarrow> Err DatabaseIntegrityError
       | Some head \<Rightarrow>
           bindE (read_tx_object sha (f_tx files) head) (\<lambda>parent.
           bindE (replay_history sha (f_tx files) (f_schemas files) head schema) (\<lambda>history_ids.
           bindE (active_factual_assertions sha L) (\<lambda>active.
           bindE (state_digest_for_assertions xof active) (\<lambda>rebuilt.
           bindE (get_ledger_meta L (u ''head_state_digest'')) (\<lambda>previous.
           let ops = repair_operations history_ids (fst ` set active)
                 (case previous of Some p \<Rightarrow> if p = [] then u ''<missing>'' else p | None \<Rightarrow> u ''<missing>'') rebuilt reason in
           bindE (tx_id_for_v2 sha (Some head) schema LTHASH_SCHEME (Suc (to_seq parent)) ops []) (\<lambda>tx_id.
             Ok (head, \<lparr>to_id = tx_id, to_parent = Some head, to_schema = schema, to_scheme = LTHASH_SCHEME,
                   to_seq = Suc (to_seq parent), to_ops = ops, to_defaults = []\<rparr>, rebuilt))))))))"

definition last_repair_note :: "ustr \<Rightarrow> int \<Rightarrow> ustr \<Rightarrow> ustr res" where
  "last_repair_note reason now tx_id =
     json_dumps (PDict [(key_of ''reason'', PStr reason), (key_of ''repaired_at_epoch_ns'', PInt now), (key_of ''tx_id'', PStr tx_id)])"

definition repair_workspace ::
  "(bytes \<Rightarrow> bytes) \<Rightarrow> (bytes \<Rightarrow> nat \<Rightarrow> bytes) \<Rightarrow> workspace \<Rightarrow> ledger_db \<Rightarrow> pyval \<Rightarrow> int \<Rightarrow> ustr \<Rightarrow> database res" where
  "repair_workspace sha xof files tables schema_ir now reason =
     (if list_ex (\<lambda>c. 128 \<le> c) reason then Err NotModelled
      else if py_strip reason = [] then Err DatabaseError
      else
        bindE (schema_digest sha schema_ir) (\<lambda>schema.
        bindE (validate_schema_object sha (f_schemas files) schema schema_ir) (\<lambda>_.
        bindE (read_database_meta (f_meta files)) (\<lambda>meta.
        bindE (require_db_id (dict_field meta ''db_id'')) (\<lambda>db_id.
        bindE (open_ledger [] tables) (\<lambda>L.
        bindE (get_ledger_meta L (u ''digest_scheme'')) (\<lambda>stored_scheme.
        if stored_scheme \<noteq> Some LTHASH_SCHEME then Err DatabaseError
        else
          bindE (plan_repair sha xof files L schema (py_strip reason)) (\<lambda>(head, t, rebuilt).
          bindE (write_tx_object sha t (f_tx files)) (\<lambda>tx.
          bindE (head_metadata db_id schema rebuilt (to_seq t)) (\<lambda>metadata.
          bindE (last_repair_note (py_strip reason) now (to_id t)) (\<lambda>note.
          let files = files\<lparr>f_tx := tx\<rparr>;
              (L, r) = commit_batch [] [] (Some head) (to_id t) (metadata @ [(u ''last_repair'', note)]) [] L in
          bindE r (\<lambda>_.
          bindE (validate_workspace_integrity sha xof files L schema db_id) (\<lambda>_.
            init_database sha L db_id schema (Some schema_ir) (Some files))))))))))))))"

section \<open>Frozen views\<close>

record frozen_view =
  fv_name :: ustr
  fv_db :: ustr
  fv_tx :: ustr
  fv_schema :: ustr
  fv_ids :: "ustr list"
  fv_digest :: ustr

definition view_payload :: "frozen_view \<Rightarrow> pyval" where
  "view_payload v = PDict [(key_of ''asrt_ids'', PList (map PStr (fv_ids v))), (key_of ''base_tx_id'', PStr (fv_tx v)),
     (key_of ''db_id'', PStr (fv_db v)), (key_of ''name'', PStr (fv_name v)), (key_of ''schema_digest'', PStr (fv_schema v)),
     (key_of ''view_digest'', PStr (fv_digest v))]"

definition write_view_object :: "(bytes \<Rightarrow> bytes) \<Rightarrow> frozen_view \<Rightarrow> tx_files \<Rightarrow> tx_files res" where
  "write_view_object sha v files =
     bindE (view_digest_for sha (fv_db v) (fv_tx v) (fv_schema v) (fv_ids v)) (\<lambda>expected.
     bindE (require_token (u ''sha256:'') (PStr (fv_digest v))) (\<lambda>_.
       if expected \<noteq> fv_digest v then Err DatabaseError else write_once (fv_digest v) (view_payload v) files))"

definition create_view ::
  "(bytes \<Rightarrow> bytes) \<Rightarrow> ustr \<Rightarrow> ustr list \<Rightarrow> database_value option \<Rightarrow> database \<Rightarrow> database \<times> frozen_view res" where
  "create_view sha name ids base D = (case b_files D of
      None \<Rightarrow> (D, Err DatabaseError)
    | Some files \<Rightarrow>
        (case
          (if list_ex (\<lambda>c. 128 \<le> c) name then Err NotModelled
           else if py_strip name = [] then Err DatabaseError
           else
             bindE (db_head sha D) (\<lambda>head.
             if base \<noteq> None \<and> base \<noteq> Some head then Err DatabaseError
             else
               bindE (normalize_view_asrt_ids ids) (\<lambda>normalized.
               bindE (forE (\<lambda>a. bindE (get_claim (b_ledger D) a) (\<lambda>c. if c = None then Err DatabaseError else Ok ())) normalized) (\<lambda>_.
               bindE (view_digest_for sha (hv_db head) (hv_tx head) (hv_schema head) normalized) (\<lambda>digest.
               let v = \<lparr>fv_name = py_strip name, fv_db = hv_db head, fv_tx = hv_tx head, fv_schema = hv_schema head,
                        fv_ids = normalized, fv_digest = digest\<rparr> in
               bindE (write_view_object sha v (f_views files)) (\<lambda>views. Ok (views, v))))))) of
           Inl e \<Rightarrow> (D, Inl e)
         | Inr (views, v) \<Rightarrow> (D\<lparr>b_files := Some (files\<lparr>f_views := views\<rparr>)\<rparr>, Ok v)))"

end
