(* ===== verification/Database_Chain.thy ===== *)
theory Database_Chain
  imports Database_Sound Database_Open
begin

text \<open>
  A commit stage by stage, and what it does to the head and to the active assertions.
\<close>

section \<open>A commit in stages\<close>

lemma commit_changes_Ok:
  assumes "commit_changes sha xof fresh c D = (D', Inr res)"
  obtains plan D1 D2 D3 where "plan_commit sha xof fresh D c = Inr plan" "write_plan_objects sha plan D = (D1, Inr ())"
    "commit_plan_batch plan D1 = (D2, Inr ())" "record_plan_defaults plan D2 = (D3, Inr ())"
    "adopt_schema plan D3 = (D', Inr ())" "res = plan_result (b_id D') plan"
  using assms by (auto simp: commit_changes_def thenS_Inr_iff split: sum.splits)

lemma write_plan_objects_frame:
  "write_plan_objects sha plan D = (D1, r) \<Longrightarrow> \<exists>files. D1 = D\<lparr>b_files := files\<rparr> \<and> (files = None \<longleftrightarrow> b_files D = None)"
  by (auto simp: write_plan_objects_def Let_def split: option.splits prod.splits intro: exI [of _ "b_files D"])

lemma commit_plan_batch_Ok:
  assumes "commit_plan_batch plan D = (D', Inr ())"
  obtains md L where "head_metadata (b_id D) (to_schema (pl_tx plan)) (pl_state plan) (to_seq (pl_tx plan)) = Inr md"
    "commit_batch (plan_writes (to_id (pl_tx plan)) plan) (plan_revokes (b_schema_digest D) (to_id (pl_tx plan)) plan)
       (Some (hv_tx (pl_parent plan))) (to_id (pl_tx plan)) md (pl_appends plan) (b_ledger D) = (L, Inr ())"
    "D' = D\<lparr>b_ledger := L\<rparr>"
  using assms
  by (auto simp: commit_plan_batch_def Let_def plan_writes_def plan_revokes_def catchE_def split: sum.splits prod.splits if_splits)

definition with_defaults :: "(nat, (meta_key, tx_meta_default) dict) dict \<Rightarrow> ledger \<Rightarrow> ledger" where
  "with_defaults d L = L\<lparr>l_ix := (l_ix L)\<lparr>x_tx_defaults := d\<rparr>\<rparr>"

lemma with_defaults_fields [simp]:
  "l_db (with_defaults d L) = l_db L" "l_lazy (with_defaults d L) = l_lazy L" "l_closed (with_defaults d L) = l_closed L"
  "x_claims (l_ix (with_defaults d L)) = x_claims (l_ix L)" "x_revoked (l_ix (with_defaults d L)) = x_revoked (l_ix L)"
  "x_meta (l_ix (with_defaults d L)) = x_meta (l_ix L)" "is_known_asrt_id (l_ix (with_defaults d L)) = is_known_asrt_id (l_ix L)"
  by (simp_all add: with_defaults_def is_known_asrt_id_def fun_eq_iff)

lemma record_plan_defaults_Ok:
  assumes "record_plan_defaults plan D = (D', Inr ())" "ix_ok (l_ix (b_ledger D))"
  obtains d where "D' = D\<lparr>b_ledger := with_defaults d (b_ledger D)\<rparr>" "ix_ok (l_ix (with_defaults d (b_ledger D)))"
proof (cases "to_defaults (pl_tx plan) = []")
  case True
  have "with_defaults (x_tx_defaults (l_ix (b_ledger D))) (b_ledger D) = b_ledger D" by (simp add: with_defaults_def)
  with True assms that [of "x_tx_defaults (l_ix (b_ledger D))"] show thesis by (simp add: record_plan_defaults_def)
next
  case False
  with assms(1) obtain rows L where r: "replace_tx_meta_defaults rows (b_ledger D) = (L, Inr ())" "D' = D\<lparr>b_ledger := L\<rparr>"
    by (auto simp: record_plan_defaults_def record_tx_meta_defaults_def Let_def split: prod.splits sum.splits)
  from r(1) obtain d where "L = with_defaults d (b_ledger D)"
    by (auto simp: replace_tx_meta_defaults_def with_defaults_def split: sum.splits)
  with r ix_ok_defaults [OF assms(2), of rows] that show thesis by simp
qed

lemma active_with_defaults: "active_factual_assertions sha (with_defaults d L) = active_factual_assertions sha L"
proof -
  have m: "find_meta (with_defaults d L) a k kd = find_meta L a k kd" for a k kd
    by (cases a; cases k; cases kd)
       (simp_all add: find_meta_def projected_meta_rows_from_sql_def ensure_open_def with_defaults_def Let_def)
  have "add_active sha (with_defaults d L) = add_active sha L"
    by (simp add: fun_eq_iff add_active_def verified_assertion_digest_def m has_active_revocation_def ensure_open_def)
  then show ?thesis
    by (simp add: active_factual_assertions_def find_claims_def ensure_open_def)
qed

lemma configure_keeps:
  assumes "configure_meta_load_policy ks L = (L', Inr ())" "l_lazy L = []" "l_lazy L' = []"
  shows "L' = L"
proof -
  have lazy: "l_lazy (fst (replace_tx_meta_defaults rows K)) = l_lazy K" for rows K
    by (simp add: replace_tx_meta_defaults_def split: sum.splits)
  have "l_lazy (fst (thenS (reload (L\<lparr>l_lazy := ks\<rparr>)) (\<lambda>K _. replace_tx_meta_defaults rows K))) = ks" for rows
    by (rule thenS_invariant [where P = "\<lambda>K. l_lazy K = ks"])
       (simp_all add: reload_def case_prod_beta Let_def lazy)
  then have "set ks \<noteq> {} \<Longrightarrow> l_lazy L' = ks" using assms(1,2)
    by (auto simp: configure_meta_load_policy_def split: sum.splits if_splits) (metis fst_conv)+
  with assms show ?thesis by (auto simp: configure_meta_load_policy_def split: sum.splits if_splits)
qed

lemma adopt_schema_Ok:
  assumes "adopt_schema plan D = (D', Inr ())" "l_lazy (b_ledger D) = []" "l_lazy (b_ledger D') = []"
  shows "b_ledger D' = b_ledger D \<and> b_id D' = b_id D \<and> b_files D' = b_files D \<and> b_closed D' = b_closed D \<and>
     b_schema_digest D' = (case pl_schema plan of None \<Rightarrow> b_schema_digest D | Some (_, new, _) \<Rightarrow> new)"
proof (cases "pl_schema plan")
  case (Some t)
  obtain old new ir where t: "t = (old, new, ir)" by (cases t)
  with Some assms(1) obtain ks L where c: "configure_meta_load_policy ks (b_ledger D) = (L, Inr ())"
    "D' = D\<lparr>b_schema_digest := new, b_schema_ir := Some ir, b_ledger := L\<rparr>"
    by (auto simp: adopt_schema_def configure_from_schema_def Let_def split: sum.splits prod.splits)
  with configure_keeps [OF c(1) assms(2)] assms(3) show ?thesis by (simp add: Some t)
qed (use assms(1) in \<open>simp add: adopt_schema_def\<close>)

section \<open>The head\<close>

lemma sha256_hex_token:
  assumes "length (sha b) = 32" "pre \<noteq> []"
  shows "require_token pre (PStr (pre @ sha256_hex sha b)) = Inr (pre @ sha256_hex sha b)"
proof -
  have "length (sha256_hex sha b) = 64" using assms(1) by (simp add: sha256_hex_def length_concat o_def sum_list_triv)
  moreover have "list_all is_hex (sha256_hex sha b)" using hex_text_is_hex by (auto simp: sha256_hex_def list_all_iff)
  ultimately show ?thesis by (simp add: require_token_def)
qed

lemma read_head_metadata:
  assumes md: "head_metadata db_id schema state q = Inr md" and L: "\<not> l_closed L"
    and meta: "\<forall>k. dict_get (d_meta (l_db L)) k = (if k = HEAD_TX_ID then Some tx
       else case dict_get md k of None \<Rightarrow> dict_get old k | Some v \<Rightarrow> Some v)"
    and tx: "require_token (u ''tx:'') (PStr tx) = Inr t"
  shows "read_ledger_head L schema db_id =
     Inr \<lparr>hv_db = db_id, hv_tx = tx, hv_schema = schema, hv_state = state, hv_scheme = LTHASH_SCHEME, hv_seq = q\<rparr>"
proof -
  from md obtain s where ok: "decode_state (PStr state) = Inr s" "require_db_id (PStr db_id) \<noteq> Inl e"
    "require_token (u ''sha256:'') (PStr schema) \<noteq> Inl e" for e
    by (auto simp: head_metadata_def err_simps)
  from md have "md = [(u ''db_id'', db_id), (u ''schema_digest'', schema), (u ''head_state_digest'', state),
      (u ''digest_scheme'', LTHASH_SCHEME), (u ''head_tx_seq'', dec_nat q)]" by (auto simp: head_metadata_def err_simps)
  with meta have get: "dict_get (d_meta (l_db L)) (u ''db_id'') = Some db_id" "dict_get (d_meta (l_db L)) (u ''schema_digest'') = Some schema"
    "dict_get (d_meta (l_db L)) (u ''head_tx_id'') = Some tx" "dict_get (d_meta (l_db L)) (u ''head_state_digest'') = Some state"
    "dict_get (d_meta (l_db L)) (u ''digest_scheme'') = Some LTHASH_SCHEME" "dict_get (d_meta (l_db L)) (u ''head_tx_seq'') = Some (dec_nat q)"
    by (simp_all add: HEAD_TX_ID_def)
  obtain a b where "require_db_id (PStr db_id) = Inr a" "require_token (u ''sha256:'') (PStr schema) = Inr b"
    using ok(2,3) by (metis sum.exhaust_sel old.sum.exhaust)
  then show ?thesis
    using L ok(1) tx dec_nat_digits [of q]
    by (simp add: read_ledger_head_def get_ledger_meta_snapshot_def HEAD_KEYS_def ensure_open_def snapshot_value_def get)
qed

section \<open>What a commit does\<close>

lemma tx_id_shape: "tx_id_for_v2 sha parent schema scheme q ops defaults = Inr t \<Longrightarrow> \<exists>b. t = u ''tx:'' @ sha256_hex sha b"
  by (auto simp: tx_id_for_v2_def err_simps)

lemma commit_effect:
  assumes "commit_changes sha xof fresh c D = (D', Inr res)" "db_sound sha xof D" "\<forall>b. length (sha b) = 32"
    "l_lazy (b_ledger D') = []"
  obtains plan active where "plan_commit sha xof fresh D c = Inr plan" "res = plan_result (b_id D) plan" "b_id D' = b_id D"
    "read_ledger_head (b_ledger D) (b_schema_digest D) (b_id D) = Inr (pl_parent plan)"
    "active_factual_assertions sha (b_ledger D) = Inr active"
    "read_ledger_head (b_ledger D') (b_schema_digest D') (b_id D') = Inr (plan_value (b_id D) plan)"
    "active_factual_assertions sha (b_ledger D') = Inr (after_plan plan active)"
    "state_digest_for_assertions xof (after_plan plan active) = Inr (pl_state plan)"
    "ledger_sound (b_ledger D')" "to_seq (pl_tx plan) = Suc (hv_seq (pl_parent plan))"
    "fits sha xof (b_schema_digest D) (b_ledger D) active plan" "ledger_sound (b_ledger D)"
    "\<exists>L2. applied (b_schema_digest D) (to_id (pl_tx plan)) plan (b_ledger D) L2 \<and>
       is_known_asrt_id (l_ix (b_ledger D')) = is_known_asrt_id (l_ix L2)"
    "\<exists>D1. write_plan_objects sha plan D = (D1, Inr ()) \<and> b_files D' = b_files D1"
    "b_schema_digest D' = to_schema (pl_tx plan)"
proof -
  from assms(1) obtain plan D1 D2 D3 where p: "plan_commit sha xof fresh D c = Inr plan" and
    st: "write_plan_objects sha plan D = (D1, Inr ())" "commit_plan_batch plan D1 = (D2, Inr ())"
      "record_plan_defaults plan D2 = (D3, Inr ())" "adopt_schema plan D3 = (D', Inr ())" and res: "res = plan_result (b_id D') plan"
    by (rule commit_changes_Ok)
  let ?tx = "to_id (pl_tx plan)" and ?s = "b_schema_digest D"
  from assms(2) obtain h active where L: "ledger_sound (b_ledger D)" and
    h: "read_ledger_head (b_ledger D) ?s (b_id D) = Inr h" and active: "active_factual_assertions sha (b_ledger D) = Inr active" and
    token: "state_digest_for_assertions xof active = Inr (hv_state h)" by (auto simp: db_sound_def)
  obtain files where D1: "D1 = D\<lparr>b_files := files\<rparr>" using write_plan_objects_frame [OF st(1)] by blast
  from st(2) obtain md L2 where md: "head_metadata (b_id D) (to_schema (pl_tx plan)) (pl_state plan) (to_seq (pl_tx plan)) = Inr md"
    and batch: "commit_batch (plan_writes ?tx plan) (plan_revokes ?s ?tx plan) (Some (hv_tx (pl_parent plan))) ?tx md
       (pl_appends plan) (b_ledger D) = (L2, Inr ())" and D2: "D2 = D1\<lparr>b_ledger := L2\<rparr>"
    by (rule commit_plan_batch_Ok) (simp add: D1)
  have seq: "to_seq (pl_tx plan) = Suc (hv_seq (pl_parent plan))" and parent: "db_head sha D = Inr (pl_parent plan)"
    and txid: "\<exists>b. ?tx = u ''tx:'' @ sha256_hex sha b"
    and schema: "to_schema (pl_tx plan) = (case pl_schema plan of None \<Rightarrow> ?s | Some (_, new, _) \<Rightarrow> new)"
    using p by (rule plan_commit_Ok, use tx_id_shape in simp)+
  have "read_ledger_head (b_ledger D) ?s (b_id D) = Inr (pl_parent plan)"
    using parent by (auto simp: db_head_def err_simps split: option.splits if_splits)
  with h have hp: "pl_parent plan = h" by simp
  have tx: "require_token (u ''tx:'') (PStr ?tx) = Inr ?tx"
    using txid assms(3) sha256_hex_token [of sha _ "u ''tx:''"] by auto
  note fit = plan_fits [OF p L active]
  note app = commit_applied [OF batch L]
  note L2 = sound_after [OF app fit L active] and scan = active_after [OF app fit L active tx]
  from L2 have ix2: "ix_ok (l_ix (b_ledger D2))" by (simp add: D2 ledger_sound_def)
  from st(3) ix2 obtain d where D3: "D3 = D2\<lparr>b_ledger := with_defaults d (b_ledger D2)\<rparr>" and
    ix3: "ix_ok (l_ix (with_defaults d (b_ledger D2)))" by (rule record_plan_defaults_Ok)
  have lazy3: "l_lazy (b_ledger D3) = []" using L2 by (simp add: D3 D2 ledger_sound_def)
  note adopted = adopt_schema_Ok [OF st(4) lazy3 assms(4)]
  have L': "b_ledger D' = with_defaults d L2" using adopted by (simp add: D3 D2)
  have id': "b_id D' = b_id D" and s': "b_schema_digest D' = to_schema (pl_tx plan)"
    using adopted by (auto simp: D3 D2 D1 schema split: option.splits)
  have sound': "ledger_sound (b_ledger D')" using L2 ix3 by (simp add: L' D2 ledger_sound_def ids_known_def)
  have "distinct (map fst md)" using md by (auto simp: head_metadata_def err_simps)
  from commit_advances [OF batch this] have adv: "\<forall>k. dict_get (d_meta (l_db L2)) k = (if k = HEAD_TX_ID then Some ?tx
      else case dict_get md k of None \<Rightarrow> dict_get (d_meta (l_db (b_ledger D))) k | Some v \<Rightarrow> Some v)"
    by (simp add: advanced_def)
  have head': "read_ledger_head (b_ledger D') (b_schema_digest D') (b_id D') = Inr (plan_value (b_id D) plan)"
    unfolding s' id' plan_value_def
    by (rule read_head_metadata [OF md _ _ tx, where old = "d_meta (l_db (b_ledger D))"])
       (use adv L2 in \<open>simp_all add: L' ledger_sound_def\<close>)
  have state: "state_digest_for_assertions xof (after_plan plan active) = Inr (pl_state plan)"
    by (rule plan_state [OF p]) (use token hp fit scan in \<open>simp_all add: fits_def\<close>)
  have active': "active_factual_assertions sha (b_ledger D') = Inr (after_plan plan active)"
    using scan by (simp add: L' active_with_defaults)
  show thesis
  proof (rule that [OF p _ id' _ active head' active' state sound' seq fit L])
    show "\<exists>L2. applied ?s ?tx plan (b_ledger D) L2 \<and> is_known_asrt_id (l_ix (b_ledger D')) = is_known_asrt_id (l_ix L2)"
      using app by (auto simp: L')
    show "\<exists>D1. write_plan_objects sha plan D = (D1, Inr ()) \<and> b_files D' = b_files D1"
      using st(1) adopted by (simp add: D3 D2)
  qed (use h hp res id' s' in simp_all)
qed

section \<open>Encoded states\<close>

lemma decode_encoded:
  assumes "length s = LTHASH_STATE_BYTES"
  shows "decode_state (PStr (LTHASH_TOKEN_PREFIX @ b64url_encode s)) = Inr s"
proof -
  have "b64url_encode s \<noteq> []"
    using assms b64url_roundtrip [of s] b64url_roundtrip [of "[]"]
    by (auto simp: LTHASH_STATE_BYTES_def LTHASH_LANES_def LTHASH_LANE_BITS_def b64url_encode_def
        base_encode_def byte_bits_def b64url_decode_def base_decode_def)
  with assms show ?thesis by (simp add: decode_state_def Let_def encode_state_def)
qed

section \<open>The chain of transactions\<close>

text \<open>
  The transaction objects of a workspace: a commit appends one to the chain behind the head, and
  replaying the longer chain finds the same assertions active and known as the ledger.
\<close>

section \<open>Longer chains\<close>

lemma read_tx_object_same:
  "dict_get files' c = dict_get files c \<Longrightarrow> read_tx_object sha files' c = read_tx_object sha files c"
  by (simp add: read_tx_object_def)

lemma chain_longer:
  assumes "tx_chain sha files seen c = Inr ts" "dict_get files n = None" "\<forall>x. x \<noteq> n \<longrightarrow> dict_get files' x = dict_get files x"
  shows "tx_chain sha files' (insert n seen) c = Inr ts"
  using assms
proof (induction sha files seen c arbitrary: ts rule: tx_chain.induct)
  case (1 sha files seen)
  then show ?case by (simp add: tx_chain.simps)
next
  case (2 sha files seen c)
  from 2(2) obtain t tl where t: "c \<notin> seen" "read_tx_object sha files c = Inr t"
      "tx_chain sha files (insert c seen) (to_parent t) = Inr tl" "ts = t # tl"
    by (auto simp: tx_chain.simps bindE_Inr_iff split: if_splits)
  have c: "c \<noteq> n" using t(2) 2(3) by (auto simp: read_tx_object_def err_simps)
  have "read_tx_object sha files' c = Inr t" using t(2) c 2(4) read_tx_object_same by metis
  moreover have "tx_chain sha files' (insert n (insert c seen)) (to_parent t) = Inr tl" by (rule 2(1) [OF t(1-3) 2(3,4)])
  ultimately show ?case using t(1,4) c by (simp add: tx_chain.simps insert_commute)
qed

lemma history_longer:
  assumes ts: "history_chain sha files h = Inr ts" and new: "dict_get files n = None"
    and files': "\<forall>x. x \<noteq> n \<longrightarrow> dict_get files' x = dict_get files x"
    and t: "read_tx_object sha files' n = Inr t" "to_parent t = Some h"
  shows "history_chain sha files' n = Inr (ts @ [t])"
proof -
  from ts obtain hs where hs: "tx_chain sha files {} (Some h) = Inr hs" "ts = rev hs"
    by (auto simp: history_chain_def err_simps require_token_def split: if_splits)
  have "require_token (u ''tx:'') (PStr n) = Inr n"
    using t(1) by (auto simp: read_tx_object_def err_simps require_token_def split: if_splits)
  moreover have "tx_chain sha files' {} (Some n) = Inr (t # hs)"
    using chain_longer [OF hs(1) new files'] t by (simp add: tx_chain.simps)
  ultimately show ?thesis using hs(2) by (simp add: history_chain_def)
qed

section \<open>Replaying the transaction of a plan\<close>

lemma replay_op_simps:
  "a \<notin> rp_known st \<Longrightarrow> replay_op st (OpAssertion a d) =
     Inr (st\<lparr>rp_known := insert a (rp_known st), rp_active := insert a (rp_active st)\<rparr>)"
  "t \<in> rp_active st \<Longrightarrow> r \<notin> rp_known st \<Longrightarrow> replay_op st (OpRevocation r t m) =
     Inr (st\<lparr>rp_active := rp_active st - {t}, rp_known := insert r (rp_known st)\<rparr>)"
  "a \<in> rp_known st \<Longrightarrow> replay_op st (OpAppendMeta a c) = Inr st"
  by (simp_all add: replay_op_def)

lemma replay_assertions:
  assumes "distinct (map (fst \<circ> assertion_item) ps)" "fst ` assertion_item ` set ps \<inter> rp_known st = {}"
  shows "foldE replay_op st (map assertion_op ps) =
     Inr \<lparr>rp_active = rp_active st \<union> fst ` assertion_item ` set ps, rp_known = rp_known st \<union> fst ` assertion_item ` set ps\<rparr>"
  using assms
proof (induction ps arbitrary: st)
  case (Cons p ps)
  let ?a = "fst (assertion_item p)"
  let ?st = "st\<lparr>rp_known := insert ?a (rp_known st), rp_active := insert ?a (rp_active st)\<rparr>"
  have "foldE replay_op ?st (map assertion_op ps) =
      Inr \<lparr>rp_active = rp_active ?st \<union> fst ` assertion_item ` set ps, rp_known = rp_known ?st \<union> fst ` assertion_item ` set ps\<rparr>"
    by (rule Cons.IH) (use Cons.prems in auto)
  moreover have "replay_op st (assertion_op p) = Inr ?st"
    using Cons.prems by (simp add: assertion_op_def assertion_item_def replay_op_simps)
  ultimately show ?case by simp
qed simp

abbreviation "revoker_of p \<equiv> rr_revoker (pv_record p)"
abbreviation "revoked_of p \<equiv> rr_revoked (pv_record p)"

lemma replay_revocations:
  assumes "distinct (map revoker_of ps)" "distinct (map revoked_of ps)" "revoked_of ` set ps \<subseteq> rp_active st"
    "revoker_of ` set ps \<inter> rp_known st = {}"
  shows "foldE replay_op st (map revocation_op ps) =
     Inr \<lparr>rp_active = rp_active st - revoked_of ` set ps, rp_known = rp_known st \<union> revoker_of ` set ps\<rparr>"
  using assms
proof (induction ps arbitrary: st)
  case (Cons p ps)
  let ?st = "st\<lparr>rp_active := rp_active st - {revoked_of p}, rp_known := insert (revoker_of p) (rp_known st)\<rparr>"
  have "foldE replay_op ?st (map revocation_op ps) =
      Inr \<lparr>rp_active = rp_active ?st - revoked_of ` set ps, rp_known = rp_known ?st \<union> revoker_of ` set ps\<rparr>"
  proof (rule Cons.IH)
    have "revoked_of p \<notin> revoked_of ` set ps" "revoker_of p \<notin> revoker_of ` set ps" using Cons.prems(1,2) by auto
    moreover have "revoked_of ` set ps \<subseteq> rp_active st" "revoker_of ` set ps \<inter> rp_known st = {}" using Cons.prems(3,4) by auto
    ultimately show "revoked_of ` set ps \<subseteq> rp_active ?st" "revoker_of ` set ps \<inter> rp_known ?st = {}"
      by (simp_all add: subset_Diff_insert Int_insert_right)
  qed (use Cons.prems(1,2) in simp_all)
  moreover have "replay_op st (revocation_op p) = Inr ?st"
    unfolding revocation_op_def by (rule replay_op_simps(2)) (use Cons.prems(3,4) in simp_all)
  ultimately show ?case by (simp add: Diff_insert2 [of "rp_active st" "revoked_of p" "revoked_of ` set ps"])
qed simp

lemma replay_appends:
  assumes "\<forall>a \<in> set as. append_asrt a \<in> rp_known st"
  shows "foldE replay_op st (map append_op as) = Inr st"
  using assms by (induction as) (simp_all add: replay_op_simps append_op_def)

definition replay_agrees :: "replay \<Rightarrow> ledger \<Rightarrow> (ustr, ustr) dict \<Rightarrow> bool" where
  "replay_agrees st L active \<longleftrightarrow> rp_active st = fst ` set active \<and> rp_known st = {a. is_known_asrt_id (l_ix L) a}"

lemma replay_plan:
  assumes app: "applied schema tx_id plan L L'" and fit: "fits sha xof schema L active plan" and sound: "ledger_sound L"
    and agrees: "replay_agrees st L active"
  shows "\<exists>st'. foldE replay_op st (map assertion_op (pl_assertions plan) @ map revocation_op (pl_revocations plan) @
       map append_op (pl_appends plan)) = Inr st' \<and> replay_agrees st' L' (after_plan plan active)"
proof -
  let ?ids = "map (fst \<circ> assertion_item) (pl_assertions plan)" and ?revokers = "map revoker_of (pl_revocations plan)"
  have L: "ix_ok (l_ix L)" using sound by (simp add: ledger_sound_def)
  have "c_asrt (w_claim (pa_write p)) = fst (assertion_item p)" if "p \<in> set (pl_assertions plan)" for p
    using fit that claim_of_item unfolding fits_def by blast
  then have ids: "plan_ids schema tx_id plan = ?ids @ ?revokers"
    by (simp add: plan_ids_def batch_ids_def plan_writes_def plan_revokes_def revocation_write_of_def Let_def)
  have d: "distinct ?ids" "distinct ?revokers" "set ?ids \<inter> set ?revokers = {}"
    "(set ?ids \<union> set ?revokers) \<inter> rp_known st = {}"
  proof -
    have a: "distinct (plan_ids schema tx_id plan)" "\<forall>a \<in> set (plan_ids schema tx_id plan). \<not> is_known_asrt_id (l_ix L) a"
      using app unfolding applied_def by blast+
    from a(1) show "distinct ?ids" "distinct ?revokers" "set ?ids \<inter> set ?revokers = {}"
      unfolding ids distinct_append by blast+
    from a(2) agrees show "(set ?ids \<union> set ?revokers) \<inter> rp_known st = {}" unfolding ids set_append replay_agrees_def by auto
  qed
  let ?new = "fst ` assertion_item ` set (pl_assertions plan)" and ?gone = "revoked_of ` set (pl_revocations plan)"
  let ?st1 = "\<lparr>rp_active = rp_active st \<union> ?new, rp_known = rp_known st \<union> ?new\<rparr>"
  let ?st2 = "\<lparr>rp_active = rp_active ?st1 - ?gone, rp_known = rp_known ?st1 \<union> revoker_of ` set (pl_revocations plan)\<rparr>"
  have sets: "set ?ids = ?new" "set ?revokers = revoker_of ` set (pl_revocations plan)" "plan_gone plan = ?gone"
    by (simp_all add: image_comp plan_gone_def)
  note d = d [unfolded sets]
  have 1: "foldE replay_op st (map assertion_op (pl_assertions plan)) = Inr ?st1"
    by (rule replay_assertions) (use d(1,4) in \<open>simp_all add: Int_Un_distrib2\<close>)
  have sub: "?gone \<subseteq> rp_active ?st1"
  proof
    fix a assume "a \<in> ?gone"
    then obtain e where "(a, e) \<in> set (map revocation_item (pl_revocations plan))" by (auto simp: revocation_item_def)
    with fit have "(a, e) \<in> set (active @ map assertion_item (pl_assertions plan))" unfolding fits_def by blast
    then have "a \<in> set (map fst (active @ map assertion_item (pl_assertions plan)))" unfolding set_map by (rule rev_image_eqI) simp
    then show "a \<in> rp_active ?st1" using agrees by (auto simp: replay_agrees_def)
  qed
  have once: "distinct (map revoked_of (pl_revocations plan))" using fit by (simp add: fits_def o_def)
  have unknown: "revoker_of ` set (pl_revocations plan) \<inter> rp_known ?st1 = {}"
    using d(3,4) by (simp add: Int_Un_distrib Int_Un_distrib2 Int_commute)
  have 2: "foldE replay_op ?st1 (map revocation_op (pl_revocations plan)) = Inr ?st2"
    by (rule replay_revocations [OF d(2) once sub unknown])
  have 3: "foldE replay_op ?st2 (map append_op (pl_appends plan)) = Inr ?st2"
    by (rule replay_appends) (use fit agrees in \<open>auto simp: fits_def replay_agrees_def\<close>)
  have "rp_active ?st2 = fst ` set (after_plan plan active)"
    using agrees by (auto simp: replay_agrees_def after_plan_def image_iff)
  moreover have "rp_known ?st2 = {a. is_known_asrt_id (l_ix L') a}"
    using agrees applied_known [OF app L] unfolding ids set_append sets by (auto simp: replay_agrees_def)
  ultimately have "replay_agrees ?st2 L' (after_plan plan active)" by (simp only: replay_agrees_def simp_thms)
  then show ?thesis using 1 2 3 by (simp add: foldE_append)
qed

section \<open>Values that survive the files\<close>

definition append_value :: "append_input \<Rightarrow> pyval option" where
  "append_value a = (case a of MetaAppendInput _ _ _ v \<Rightarrow> Some v | AnnotationAppendInput _ _ _ v \<Rightarrow> Some v
     | MetaUnsetInput _ _ \<Rightarrow> None)"

text \<open>Every metadata value of the change set is read back as it was written.\<close>

definition change_survives :: "change_set \<Rightarrow> bool" where
  "change_survives c \<longleftrightarrow> (\<forall>r \<in> set (ch_revocations c). \<forall>e \<in> set (in_rmeta r). survives (me_value e)) \<and>
     (\<forall>a \<in> set (ch_appends c). \<forall>v. append_value a = Some v \<longrightarrow> survives v) \<and>
     (\<forall>e \<in> set (ch_defaults c). survives (me_value e))"

lemma checked_initial_meta_same: "checked_initial_meta raw = Inr meta \<Longrightarrow> meta = raw"
  by (auto simp: checked_initial_meta_def err_simps dest: normalize_meta_entries_same)

lemma planned_revocation_meta:
  assumes "foldE (db_prepare_revocation sha L added fresh) acc items = Inr revs"
    "\<forall>(n, i) \<in> set items. \<forall>e \<in> set (in_rmeta i). P e" "\<forall>r \<in> set acc. \<forall>e \<in> set (rr_meta (pv_record r)). P e"
  shows "\<forall>r \<in> set revs. \<forall>e \<in> set (rr_meta (pv_record r)). P e"
  using assms(1,3)
proof (rule foldE_invariant)
  fix a x b assume x: "x \<in> set items" "\<forall>r \<in> set a. \<forall>e \<in> set (rr_meta (pv_record r)). P e"
    "db_prepare_revocation sha L added fresh a x = Inr b"
  obtain n i where i: "x = (n, i)" by (cases x)
  have "\<forall>e \<in> set (in_rmeta i). P e" using assms(2) x(1) i by blast
  with x(2,3) i show "\<forall>r \<in> set b. \<forall>e \<in> set (rr_meta (pv_record r)). P e"
    by (auto simp: db_prepare_revocation_def err_simps Let_def split: if_splits dest!: checked_initial_meta_same)
qed

lemma planned_append_value:
  assumes "db_prepare_append L item = Inr a" "\<forall>v. append_value item = Some v \<longrightarrow> survives v"
  shows "op_survives (append_op a) \<and> append_op a \<noteq> OpAppendMeta b (UnsetMeta [])"
  using assms
  by (cases item) (auto simp: db_prepare_append_def err_simps append_op_def append_change_def append_value_def op_survives_def
      entry_of_row_def split: if_splits)

lemma check_change_set_defaults:
  assumes "check_change_set D c = Inr ds"
  shows "set ds = set (ch_defaults c)"
proof -
  from assms obtain ns where n: "normalize_tx_meta_defaults (ch_defaults c) = Inr ns" "ds = ns"
    by (auto simp: check_change_set_def err_simps split: if_splits option.splits)
  from normalize_defaults_sorted [OF n(1)] show ?thesis using n(2) by simp
qed

lemma plan_survives:
  assumes "plan_commit sha xof fresh D c = Inr plan" "change_survives c"
  shows "tx_survives (pl_tx plan)"
  using assms(1)
proof (rule plan_commit_Ok)
  fix defaults parent prepared revs appends transition
  assume ds: "check_change_set D c = Inr defaults" and
    rev: "foldE (db_prepare_revocation sha (b_ledger D) (map (\<lambda>p. (ra_asrt (pa_record p), pa_record p)) prepared) fresh) []
       (enumerate (length (ch_assertions c)) (ch_revocations c)) = Inr revs" and
    app: "mapE (db_prepare_append (b_ledger D)) (ch_appends c) = Inr appends" and
    ops: "to_ops (pl_tx plan) = map assertion_op prepared @ map revocation_op revs @ map append_op appends @ schema_ops transition"
    and d: "to_defaults (pl_tx plan) = defaults"
  have "\<forall>(n, i) \<in> set (enumerate (length (ch_assertions c)) (ch_revocations c)). \<forall>e \<in> set (in_rmeta i). survives (me_value e)"
    using assms(2) by (auto simp: change_survives_def enumerate_eq_zip dest!: set_zip_rightD)
  then have "\<forall>r \<in> set revs. \<forall>e \<in> set (rr_meta (pv_record r)). survives (me_value e)"
    by (rule planned_revocation_meta [OF rev, where P = "\<lambda>e. survives (me_value e)"]) simp
  moreover have "op_survives (append_op a) \<and> append_op a \<noteq> OpAppendMeta b (UnsetMeta [])" if a: "a \<in> set appends" for a b
  proof -
    from mapE_each [OF app a] obtain i where "i \<in> set (ch_appends c)" "db_prepare_append (b_ledger D) i = Inr a"
      by blast
    with planned_append_value assms(2) show ?thesis unfolding change_survives_def by blast
  qed
  moreover have "\<forall>e \<in> set defaults. survives (me_value e)"
    using assms(2) check_change_set_defaults [OF ds] by (simp add: change_survives_def)
  ultimately show ?thesis
    by (auto simp: tx_survives_def ops d assertion_op_def revocation_op_def op_survives_def schema_ops_def split: option.splits)
qed

section \<open>A workspace between commits\<close>

definition history_sound :: "(bytes \<Rightarrow> bytes) \<Rightarrow> database \<Rightarrow> workspace \<Rightarrow> tx_object list \<Rightarrow> bool" where
  "history_sound sha D files ts \<longleftrightarrow> b_files D = Some files \<and>
     (\<exists>h st active. read_ledger_head (b_ledger D) (b_schema_digest D) (b_id D) = Inr h \<and>
        active_factual_assertions sha (b_ledger D) = Inr active \<and>
        history_chain sha (f_tx files) (hv_tx h) = Inr ts \<and> length ts = Suc (hv_seq h) \<and>
        replay_chain (validate_schema_object_digest sha (f_schemas files)) ts = Inr (st, Some (b_schema_digest D)) \<and>
        replay_agrees st (b_ledger D) active)"

lemma replay_longer:
  assumes st: "replay_chain check ts = Inr (st, Some schema)" and t: "to_seq t = length ts" "ts \<noteq> []" "to_schema t = schema"
    and ops: "filter is_schema_change (to_ops t) = []" "foldE replay_op st (to_ops t) = Inr st'"
  shows "replay_chain check (ts @ [t]) = Inr (st', Some schema)"
proof -
  have "enumerate 0 (ts @ [t]) = enumerate 0 ts @ [(length ts, t)]" by (simp add: enumerate_append_eq)
  then show ?thesis
    using st t ops unfolding replay_chain_def by (simp add: foldE_append replay_tx_def replay_schema_def Let_def)
qed

lemma write_plan_objects_tx:
  assumes "write_plan_objects sha plan D = (D1, Inr ())" "b_files D = Some files" "pl_schema plan = None"
  obtains tx where "write_tx_object sha (pl_tx plan) (f_tx files) = Inr tx" "b_files D1 = Some (files\<lparr>f_tx := tx\<rparr>)"
  using assms by (auto simp: write_plan_objects_def write_objects_def Let_def split: sum.splits prod.splits)

lemma commit_extends:
  assumes commit: "commit_changes sha xof fresh c D = (D', Inr res)" "db_sound sha xof D" "\<forall>b. length (sha b) = 32"
    "l_lazy (b_ledger D') = []"
    and c: "ch_schema c = None" "change_survives c"
    and ws: "history_sound sha D files ts" and new: "dict_get (f_tx files) (hv_tx (res_value res)) = None"
  shows "\<exists>files' t. history_sound sha D' files' (ts @ [t]) \<and> to_id t = hv_tx (res_value res)"
  using commit
proof (rule commit_effect)
  fix plan active
  assume p: "plan_commit sha xof fresh D c = Inr plan" and res: "res = plan_result (b_id D) plan" and
    h: "read_ledger_head (b_ledger D) (b_schema_digest D) (b_id D) = Inr (pl_parent plan)" and
    act: "active_factual_assertions sha (b_ledger D) = Inr active" and
    h': "read_ledger_head (b_ledger D') (b_schema_digest D') (b_id D') = Inr (plan_value (b_id D) plan)" and
    act': "active_factual_assertions sha (b_ledger D') = Inr (after_plan plan active)" and
    seq: "to_seq (pl_tx plan) = Suc (hv_seq (pl_parent plan))" and
    fit: "fits sha xof (b_schema_digest D) (b_ledger D) active plan" and L: "ledger_sound (b_ledger D)" and
    app: "\<exists>L2. applied (b_schema_digest D) (to_id (pl_tx plan)) plan (b_ledger D) L2 \<and>
       is_known_asrt_id (l_ix (b_ledger D')) = is_known_asrt_id (l_ix L2)" and
    wr: "\<exists>D1. write_plan_objects sha plan D = (D1, Inr ()) \<and> b_files D' = b_files D1" and
    s': "b_schema_digest D' = to_schema (pl_tx plan)"
  let ?t = "(pl_tx plan)\<lparr>to_defaults := sort_key me_key (to_defaults (pl_tx plan))\<rparr>" and ?id = "to_id (pl_tx plan)"
  from ws h act obtain st where files: "b_files D = Some files" and ts: "history_chain sha (f_tx files) (hv_tx (pl_parent plan)) = Inr ts"
    "length ts = Suc (hv_seq (pl_parent plan))"
    "replay_chain (validate_schema_object_digest sha (f_schemas files)) ts = Inr (st, Some (b_schema_digest D))"
    and agrees: "replay_agrees st (b_ledger D) active" by (auto simp: history_sound_def)
  have plan: "pl_schema plan = None" "to_parent (pl_tx plan) = Some (hv_tx (pl_parent plan))" "to_schema (pl_tx plan) = b_schema_digest D"
    "to_ops (pl_tx plan) = map assertion_op (pl_assertions plan) @ map revocation_op (pl_revocations plan) @ map append_op (pl_appends plan)"
    using p c(1) by (auto elim!: plan_commit_Ok simp: prepare_schema_transition_def schema_ops_def)
  from wr obtain tx where tx: "write_tx_object sha (pl_tx plan) (f_tx files) = Inr tx" "b_files D' = Some (files\<lparr>f_tx := tx\<rparr>)"
    using write_plan_objects_tx [OF _ files plan(1)] by metis
  have none: "dict_get (f_tx files) ?id = None" using new by (simp add: res plan_result_def plan_value_def)
  note stored = tx_object_back [OF tx(1) none plan_survives [OF p c(2)]]
  have other: "\<forall>x. x \<noteq> ?id \<longrightarrow> dict_get tx x = dict_get (f_tx files) x" using dict_get_other [OF tx(1)] by blast
  have chain: "history_chain sha tx ?id = Inr (ts @ [?t])"
    by (rule history_longer [OF ts(1) none other stored]) (simp add: plan(2))
  from app obtain L2 where a: "applied (b_schema_digest D) ?id plan (b_ledger D) L2"
    and k: "is_known_asrt_id (l_ix (b_ledger D')) = is_known_asrt_id (l_ix L2)" by blast
  from replay_plan [OF a fit L agrees] obtain st' where st': "foldE replay_op st (to_ops ?t) = Inr st'"
    "replay_agrees st' L2 (after_plan plan active)" by (auto simp: plan(4))
  have "filter is_schema_change (to_ops ?t) = []"
    by (auto simp: plan(4) filter_empty_conv is_schema_change_def assertion_op_def revocation_op_def append_op_def)
  from replay_longer [OF ts(3) _ _ _ this st'(1)] ts(2) seq plan(3)
  have "replay_chain (validate_schema_object_digest sha (f_schemas files)) (ts @ [?t]) = Inr (st', Some (b_schema_digest D))" by force
  then have "history_sound sha D' (files\<lparr>f_tx := tx\<rparr>) (ts @ [?t])"
    using h' act' chain tx(2) st'(2) ts(2) seq
    by (simp add: history_sound_def plan_value_def s' plan(3) replay_agrees_def k)
  moreover have "to_id ?t = hv_tx (res_value res)" by (simp add: res plan_result_def plan_value_def)
  ultimately show ?thesis by blast
qed

end
