(* ===== verification/Database_Created.thy ===== *)
theory Database_Created
  imports Database_Chain
begin

text \<open>The invariants of a database hold of a new one.\<close>

lemma open_empty:
  assumes "open_ledger [] empty_tables = Inr L"
  shows "l_ix L = reset_indexes" "l_lazy L = []" "\<not> l_closed L" "dict_get (d_meta (l_db L)) HEAD_TX_ID = None"
proof -
  have "L = \<lparr>l_db = empty_tables\<lparr>d_meta := [(u ''ledger_format_version'', u ''slice3b-v1'')]\<rparr>, l_ix = reset_indexes,
      l_lazy = [], l_closed = False\<rparr>"
    using assms by (simp add: open_ledger_def init_schema_def empty_tables_def load_from_db_def Let_def event_order_def
        dict_setdefault_def)
  then show "l_ix L = reset_indexes" "l_lazy L = []" "\<not> l_closed L" "dict_get (d_meta (l_db L)) HEAD_TX_ID = None"
    by (simp_all add: HEAD_TX_ID_def u_def)
qed

lemma genesis_Ok:
  assumes "genesis sha schema = Inr t"
  shows "to_parent t = None \<and> to_schema t = schema \<and> to_scheme t = LTHASH_SCHEME \<and> to_seq t = 0 \<and> to_ops t = [] \<and>
     to_defaults t = [] \<and> (\<exists>b. to_id t = u ''tx:'' @ sha256_hex sha b)"
  using assms by (auto simp: genesis_def tx_id_for_v2_def err_simps)

text \<open>The ledger after the genesis commit.\<close>

lemma genesis_ledger:
  assumes L0: "open_ledger [] empty_tables = Inr L0" and t: "genesis sha schema = Inr t"
    and L: "commit_genesis t db_id L0 = Inr L" and sha: "\<forall>b. length (sha b) = 32"
  shows "ledger_sound L" "x_claims (l_ix L) = []" "\<not> is_known_asrt_id (l_ix L) a"
    and "\<exists>state. encode_state (PBytes BBytes empty_state) = Inr state \<and> read_ledger_head L schema db_id =
      Inr \<lparr>hv_db = db_id, hv_tx = to_id t, hv_schema = schema, hv_state = state, hv_scheme = LTHASH_SCHEME, hv_seq = 0\<rparr>"
proof -
  note o = open_empty [OF L0] and g = genesis_Ok [OF t]
  from L obtain state md r where state: "encode_state (PBytes BBytes empty_state) = Inr state"
    and md: "head_metadata db_id (to_schema t) state 0 = Inr md"
    and r: "fst (commit_batch [] [] None (to_id t) md [] L0) = L" "snd (commit_batch [] [] None (to_id t) md [] L0) = Inr r"
    by (auto simp: commit_genesis_def err_simps Let_def case_prod_beta)
  then have c: "commit_batch [] [] None (to_id t) md [] L0 = (L, Inr ())" by (simp add: prod_eq_iff)
  have ok: "ix_ok (l_ix L0)" by (simp add: o)
  note mem = commit_batch_memory [OF c o(2) ok]
  have grows: "x_claims (l_ix L) = []" "x_revoked (l_ix L) = {}" "x_meta (l_ix L) = []"
    using mem(1) by (simp_all add: grows_by_def o reset_indexes_def)
  then show "x_claims (l_ix L) = []" by simp
  show "ledger_sound L" using mem grows by (simp add: ledger_sound_def ids_known_def)
  show "\<not> is_known_asrt_id (l_ix L) a"
    using known_grows [OF mem(1) ok mem(4), of a] by (simp add: o reset_indexes_def is_known_asrt_id_def)
  have "distinct (map fst md)" using md by (auto simp: head_metadata_def err_simps)
  from commit_advances [OF c this] have adv: "\<forall>k. dict_get (d_meta (l_db L)) k = (if k = HEAD_TX_ID then Some (to_id t)
      else case dict_get md k of None \<Rightarrow> dict_get (d_meta (l_db L0)) k | Some v \<Rightarrow> Some v)"
    by (simp add: advanced_def)
  from g sha have tx: "require_token (u ''tx:'') (PStr (to_id t)) = Inr (to_id t)"
    using sha256_hex_token [of sha _ "u ''tx:''"] by auto
  have "read_ledger_head L (to_schema t) db_id =
      Inr \<lparr>hv_db = db_id, hv_tx = to_id t, hv_schema = to_schema t, hv_state = state, hv_scheme = LTHASH_SCHEME, hv_seq = 0\<rparr>"
    by (rule read_head_metadata [OF md mem(3) adv tx])
  with state g show "\<exists>state. encode_state (PBytes BBytes empty_state) = Inr state \<and> read_ledger_head L schema db_id =
      Inr \<lparr>hv_db = db_id, hv_tx = to_id t, hv_schema = schema, hv_state = state, hv_scheme = LTHASH_SCHEME, hv_seq = 0\<rparr>"
    by auto
qed

lemma b_ledger_of: "b_ledger (D\<lparr>b_ledger := L\<rparr>) = L"
  by simp

text \<open>Initialisation configures the load policy and the defaults of the transactions.\<close>

lemma init_database_Ok:
  assumes "init_database sha L db_id schema (Some ir) files = Inr D" "ix_ok (l_ix L)" "l_lazy L = []" "l_lazy (b_ledger D) = []"
  shows "\<exists>d. b_ledger D = with_defaults d L \<and> ix_ok (l_ix (with_defaults d L))"
    and "b_id D = db_id" "b_schema_digest D = schema" "b_files D = files"
proof -
  let ?D = "\<lparr>b_ledger = L, b_id = db_id, b_schema_digest = schema, b_schema_ir = Some ir, b_files = files, b_closed = False\<rparr>"
  have same: "with_defaults (x_tx_defaults (l_ix L)) L = L" by (simp add: with_defaults_def)
  note L = assms(2,3)
  from assms(1) obtain D1 where conf: "configure_from_schema ir ?D = (D1, Inr ())"
    and rest: "(case files of None \<Rightarrow> Ok D1 | Some _ \<Rightarrow> bindE (head_defaults sha files (b_ledger D1)) (\<lambda>rows.
       let (L', r) = replace_tx_meta_defaults rows (b_ledger D1) in bindE r (\<lambda>_. Ok (D1\<lparr>b_ledger := L'\<rparr>)))) = Inr D"
    by (auto simp: init_database_def err_simps Let_def split: prod.splits)
  from conf obtain ks K where K: "configure_meta_load_policy ks L = (K, Inr ())" "D1 = ?D\<lparr>b_ledger := K\<rparr>"
    by (auto simp: configure_from_schema_def Let_def split: sum.splits prod.splits)
  have fin: "b_ledger D = K \<and> D = D1 \<or> (\<exists>rows L'. replace_tx_meta_defaults rows K = (L', Inr ()) \<and> D = D1\<lparr>b_ledger := L'\<rparr>)"
  proof (cases files)
    case (Some fs)
    with rest obtain rows where "fst (replace_tx_meta_defaults rows K) = b_ledger D \<and>
       snd (replace_tx_meta_defaults rows K) = Inr () \<and> D = D1\<lparr>b_ledger := fst (replace_tx_meta_defaults rows K)\<rparr>"
      by (auto simp: err_simps Let_def case_prod_beta K(2))
    then show ?thesis by (metis prod.collapse)
  qed (use rest K(2) in auto)
  have "l_lazy (fst (replace_tx_meta_defaults rows K)) = l_lazy K" for rows
    by (simp add: replace_tx_meta_defaults_def split: sum.splits)
  with fin have "l_lazy K = []" using assms(4) by (metis fst_conv b_ledger_of)
  then have KL: "K = L" using configure_keeps [OF K(1) L(2)] by simp
  show "\<exists>d. b_ledger D = with_defaults d L \<and> ix_ok (l_ix (with_defaults d L))"
    using fin
  proof (elim disjE exE conjE)
    assume "b_ledger D = K"
    then show ?thesis using same KL L(1) by (intro exI [of _ "x_tx_defaults (l_ix L)"]) simp
  next
    fix rows L' assume r: "replace_tx_meta_defaults rows K = (L', Inr ())" "D = D1\<lparr>b_ledger := L'\<rparr>"
    from r(1) obtain d where "L' = with_defaults d L"
      by (auto simp: replace_tx_meta_defaults_def with_defaults_def KL split: sum.splits)
    with r ix_ok_defaults [OF L(1), of rows] KL show ?thesis by auto
  qed
  show "b_id D = db_id" "b_schema_digest D = schema" "b_files D = files"
    using fin K(2) by (elim disjE exE conjE; simp)+
qed

lemma read_head_with_defaults: "read_ledger_head (with_defaults d L) schema db_id = read_ledger_head L schema db_id"
  by (simp add: read_ledger_head_def get_ledger_meta_snapshot_def ensure_open_def)

lemma sound_with_defaults: "ledger_sound L \<Longrightarrow> ix_ok (l_ix (with_defaults d L)) \<Longrightarrow> ledger_sound (with_defaults d L)"
  by (simp add: ledger_sound_def ids_known_def)

lemma nothing_active: "ledger_sound L \<Longrightarrow> x_claims (l_ix L) = [] \<Longrightarrow> active_factual_assertions sha L = Inr []"
  by (subst active_scan) (simp_all add: ledger_sound_def)

lemma created_sound:
  assumes L0: "open_ledger [] empty_tables = Inr L0" and t: "genesis sha schema = Inr t"
    and L: "commit_genesis t db_id L0 = Inr L" and init: "init_database sha L db_id schema (Some ir) files = Inr D"
    and sha: "\<forall>b. length (sha b) = 32" and lazy: "l_lazy (b_ledger D) = []"
  shows "db_sound sha xof D"
    and "\<exists>h. read_ledger_head (b_ledger D) (b_schema_digest D) (b_id D) = Inr h \<and> hv_tx h = to_id t \<and> hv_seq h = 0"
    and "active_factual_assertions sha (b_ledger D) = Inr []" "\<not> is_known_asrt_id (l_ix (b_ledger D)) a"
proof -
  note g = genesis_ledger [OF L0 t L sha]
  have "ix_ok (l_ix L)" "l_lazy L = []" using g(1) by (simp_all add: ledger_sound_def)
  note i = init_database_Ok [OF init this lazy]
  from i(1) obtain d where d: "b_ledger D = with_defaults d L" "ix_ok (l_ix (with_defaults d L))" by blast
  show act: "active_factual_assertions sha (b_ledger D) = Inr []"
    by (simp add: d active_with_defaults nothing_active g(1,2))
  show "\<not> is_known_asrt_id (l_ix (b_ledger D)) a" using g(3) by (simp add: d)
  from g(4) obtain state where s: "encode_state (PBytes BBytes empty_state) = Inr state"
    "read_ledger_head (b_ledger D) (b_schema_digest D) (b_id D) =
      Inr \<lparr>hv_db = db_id, hv_tx = to_id t, hv_schema = schema, hv_state = state, hv_scheme = LTHASH_SCHEME, hv_seq = 0\<rparr>"
    by (auto simp: d i read_head_with_defaults)
  then show "\<exists>h. read_ledger_head (b_ledger D) (b_schema_digest D) (b_id D) = Inr h \<and> hv_tx h = to_id t \<and> hv_seq h = 0" by simp
  have "state_digest_for_assertions xof [] = Inr state" using s(1) by (simp add: state_digest_Ok)
  then show "db_sound sha xof D"
    using s(2) act sound_with_defaults [OF g(1) d(2)] by (simp add: db_sound_def) (simp add: d)
qed

section \<open>Databases in use\<close>

text \<open>A database is created in memory or as a workspace, and then changed by commits.\<close>

inductive db_reachable :: "(bytes \<Rightarrow> bytes) \<Rightarrow> (bytes \<Rightarrow> nat \<Rightarrow> bytes) \<Rightarrow> database \<Rightarrow> bool"
  for sha xof where
  memory: "create_memory sha uuid ir = Inr D \<Longrightarrow> l_lazy (b_ledger D) = [] \<Longrightarrow> db_reachable sha xof D"
| workspace: "create_workspace sha uuid now ir = Inr D \<Longrightarrow> l_lazy (b_ledger D) = [] \<Longrightarrow> db_reachable sha xof D"
| commit: "db_reachable sha xof D \<Longrightarrow> commit_changes sha xof fresh c D = (D', Inr res) \<Longrightarrow> l_lazy (b_ledger D') = [] \<Longrightarrow>
    db_reachable sha xof D'"

lemma memory_sound:
  assumes "create_memory sha uuid ir = Inr D" "\<forall>b. length (sha b) = 32" "l_lazy (b_ledger D) = []"
  shows "db_sound sha xof D"
  using assms(1) created_sound(1) [OF _ _ _ _ assms(2,3)] by (auto simp: create_memory_def err_simps Let_def)

lemma workspace_parts:
  assumes "create_workspace sha uuid now ir = Inr D"
  obtains schema t L0 L doc b schemas tx meta where "genesis sha schema = Inr t" "open_ledger [] empty_tables = Inr L0"
    "commit_genesis t (u ''db:'' @ uuid) L0 = Inr L" "write_schema_object sha schema b (Some doc) [] = Inr schemas"
    "write_tx_object sha t [] = Inr tx"
    "init_database sha L (u ''db:'' @ uuid) schema (Some ir)
       (Some \<lparr>f_tx = tx, f_schemas = schemas, f_views = [], f_meta = meta\<rparr>) = Inr D"
  using assms by (auto simp: create_workspace_def err_simps Let_def)

lemma workspace_sound:
  assumes "create_workspace sha uuid now ir = Inr D" "\<forall>b. length (sha b) = 32" "l_lazy (b_ledger D) = []"
  shows "db_sound sha xof D"
  using assms(1) by (rule workspace_parts) (rule created_sound(1) [OF _ _ _ _ assms(2,3)])

lemma commit_sound:
  assumes "commit_changes sha xof fresh c D = (D', Inr res)" "db_sound sha xof D" "\<forall>b. length (sha b) = 32"
    "l_lazy (b_ledger D') = []"
  shows "db_sound sha xof D'"
  using assms(1-4) by (rule commit_effect) (auto simp: db_sound_def plan_value_def)

lemma db_reachable_sound: "db_reachable sha xof D \<Longrightarrow> \<forall>b. length (sha b) = 32 \<Longrightarrow> db_sound sha xof D"
  by (induction rule: db_reachable.induct) (auto intro: memory_sound workspace_sound commit_sound)

lemma schema_object_written:
  "write_schema_object sha d b doc [] = Inr schemas \<Longrightarrow> validate_schema_object_digest sha schemas d = Inr ()"
  by (auto simp: write_schema_object_def validate_schema_object_digest_def err_simps require_token_def split: if_splits)

text \<open>The history of a new workspace is its genesis.\<close>

lemma created_history:
  assumes ws: "create_workspace sha uuid now ir = Inr D" and sha: "\<forall>b. length (sha b) = 32" and lazy: "l_lazy (b_ledger D) = []"
  shows "\<exists>files t. history_sound sha D files [t] \<and> to_seq t = 0"
  using ws
proof (rule workspace_parts)
  fix schema t L0 L doc b schemas tx meta
  let ?files = "\<lparr>f_tx = tx, f_schemas = schemas, f_views = [], f_meta = meta\<rparr>"
  assume t: "genesis sha schema = Inr t" and L: "open_ledger [] empty_tables = Inr L0" "commit_genesis t (u ''db:'' @ uuid) L0 = Inr L"
    and files: "write_schema_object sha schema b (Some doc) [] = Inr schemas" "write_tx_object sha t [] = Inr tx"
    and init: "init_database sha L (u ''db:'' @ uuid) schema (Some ir) (Some ?files) = Inr D"
  note new = created_sound [OF L(1) t L(2) init sha lazy] and g = genesis_Ok [OF t]
  from genesis_ledger(1) [OF L(1) t L(2) sha] have "ix_ok (l_ix L)" "l_lazy L = []" by (simp_all add: ledger_sound_def)
  note i = init_database_Ok [OF init this lazy]
  have "tx_survives t" using g by (simp add: tx_survives_def)
  then have stored: "read_tx_object sha tx (to_id t) = Inr t"
    using tx_object_back [OF files(2)] g by (cases t) simp
  have "require_token (u ''tx:'') (PStr (to_id t)) = Inr (to_id t)" using g sha sha256_hex_token [of sha _ "u ''tx:''"] by auto
  then have chain: "history_chain sha tx (to_id t) = Inr [t]" using stored g by (simp add: history_chain_def tx_chain.simps)
  have "replay_chain (validate_schema_object_digest sha schemas) [t] = Inr (\<lparr>rp_active = {}, rp_known = {}\<rparr>, Some schema)"
    using g schema_object_written [OF files(1)] by (simp add: replay_chain_def replay_tx_def replay_schema_def)
  moreover have "replay_agrees \<lparr>rp_active = {}, rp_known = {}\<rparr> (b_ledger D) []"
    using new(4) by (simp add: replay_agrees_def)
  ultimately have "history_sound sha D ?files [t]"
    using new(2,3) chain i(3,4) by (auto simp: history_sound_def)
  with g show ?thesis by blast
qed

section \<open>Outcomes\<close>

text \<open>
  A commit that raises, and what opening a workspace has checked.
\<close>

section \<open>Commits that raise\<close>

lemma replace_defaults_db: "l_db (fst (replace_tx_meta_defaults rows L)) = l_db L"
  by (simp add: replace_tx_meta_defaults_def split: sum.splits)

lemma configure_db: "l_db (fst (configure_meta_load_policy ks L)) = l_db L"
proof -
  have "l_db (fst (thenS (reload (L\<lparr>l_lazy := ks\<rparr>)) (\<lambda>K _. replace_tx_meta_defaults rows K))) = l_db L" for rows
    by (rule thenS_invariant [where P = "\<lambda>K. l_db K = l_db L"]) (simp_all add: reload_def case_prod_beta Let_def replace_defaults_db)
  then show ?thesis by (auto simp: configure_meta_load_policy_def split: sum.splits)
qed

lemma record_defaults_db: "l_db (b_ledger (fst (record_plan_defaults plan D))) = l_db (b_ledger D)"
proof -
  have "l_db (fst (record_tx_meta_defaults rows L)) = l_db L" for rows L
    by (simp add: record_tx_meta_defaults_def replace_defaults_db split: sum.splits)
  then show ?thesis by (simp add: record_plan_defaults_def Let_def case_prod_beta)
qed

lemma adopt_schema_db: "l_db (b_ledger (fst (adopt_schema plan D))) = l_db (b_ledger D)"
  by (simp add: adopt_schema_def configure_from_schema_def configure_db case_prod_beta split: option.splits sum.splits)

lemma head_metadata_distinct: "head_metadata db_id schema state q = Inr md \<Longrightarrow> distinct (map fst md)"
  by (auto simp: head_metadata_def err_simps)

text \<open>The ledger of a plan that went through.\<close>

definition committed :: "ustr \<Rightarrow> ustr \<Rightarrow> commit_plan \<Rightarrow> ledger_db \<Rightarrow> ledger_db \<Rightarrow> bool" where
  "committed db_id schema plan db db' \<longleftrightarrow>
     (\<exists>md. head_metadata db_id (to_schema (pl_tx plan)) (pl_state plan) (to_seq (pl_tx plan)) = Inr md \<and>
        advanced (plan_writes (to_id (pl_tx plan)) plan) (plan_revokes schema (to_id (pl_tx plan)) plan)
          (Some (hv_tx (pl_parent plan))) (to_id (pl_tx plan)) md db db')"

lemma batch_outcome:
  assumes "commit_plan_batch plan D = (D', r)"
  shows "(b_ledger D' = b_ledger D \<and> isl r) \<or> committed (b_id D) (b_schema_digest D) plan (l_db (b_ledger D)) (l_db (b_ledger D'))"
proof (cases "head_metadata (b_id D) (to_schema (pl_tx plan)) (pl_state plan) (to_seq (pl_tx plan))")
  case (Inl e)
  with assms show ?thesis by (auto simp: commit_plan_batch_def)
next
  case (Inr md)
  let ?tx = "to_id (pl_tx plan)"
  obtain L r1 where b: "commit_batch (plan_writes ?tx plan) (plan_revokes (b_schema_digest D) ?tx plan)
      (Some (hv_tx (pl_parent plan))) ?tx md (pl_appends plan) (b_ledger D) = (L, r1)" by (cases rule: prod.exhaust)
  with Inr assms have D': "b_ledger D' = L" "r = catchE r1 (\<lambda>e. e = LedgerHeadConflictError) (\<lambda>_. Err HeadConflictError)"
    by (auto simp: commit_plan_batch_def Let_def plan_writes_def plan_revokes_def)
  from commit_advances [OF b head_metadata_distinct [OF Inr]] show ?thesis
    using Inr D' by (auto simp: committed_def catchE_def split: sum.splits)
qed

lemma commit_outcome:
  assumes "commit_changes sha xof fresh c D = (D', r)"
  shows "(b_ledger D' = b_ledger D \<and> isl r) \<or>
     (\<exists>plan. plan_commit sha xof fresh D c = Inr plan \<and>
        committed (b_id D) (b_schema_digest D) plan (l_db (b_ledger D)) (l_db (b_ledger D')))"
proof (cases "plan_commit sha xof fresh D c")
  case (Inl e)
  with assms show ?thesis by (auto simp: commit_changes_def)
next
  case plan: (Inr plan)
  obtain D1 r1 where w: "write_plan_objects sha plan D = (D1, r1)" by (cases rule: prod.exhaust)
  obtain files where D1: "D1 = D\<lparr>b_files := files\<rparr>" using write_plan_objects_frame [OF w] by blast
  show ?thesis
  proof (cases r1)
    case (Inl e)
    with assms plan w D1 show ?thesis by (auto simp: commit_changes_def thenS_def)
  next
    case (Inr x)
    obtain D2 r2 where b: "commit_plan_batch plan D1 = (D2, r2)" by (cases rule: prod.exhaust)
    let ?rest = "thenS (record_plan_defaults plan D2) (\<lambda>D _. thenS (adopt_schema plan D) (\<lambda>D _. (D, Ok (plan_result (b_id D) plan))))"
    have whole: "(D', r) = thenS (D2, r2) (\<lambda>D _. thenS (record_plan_defaults plan D) (\<lambda>D _.
        thenS (adopt_schema plan D) (\<lambda>D _. (D, Ok (plan_result (b_id D) plan)))))"
      using assms by (simp add: commit_changes_def plan w b Inr)
    note same_db = thenS_invariant [where P = "\<lambda>D. l_db (b_ledger D) = l_db (b_ledger D2)"]
    have "l_db (b_ledger (fst (thenS (adopt_schema plan D) (\<lambda>D _. (D, Ok (plan_result (b_id D) plan)))))) = l_db (b_ledger D2)"
      if "l_db (b_ledger D) = l_db (b_ledger D2)" for D
      by (rule same_db) (simp_all add: adopt_schema_db that)
    then have "l_db (b_ledger (fst ?rest)) = l_db (b_ledger D2)"
      by (rule same_db [rotated]) (simp_all add: record_defaults_db)
    then have db: "l_db (b_ledger D') = l_db (b_ledger D2)" using whole by (cases r2) (simp_all add: prod_eq_iff)
    from batch_outcome [OF b] show ?thesis
    proof
      assume "b_ledger D2 = b_ledger D1 \<and> isl r2"
      then show ?thesis using whole D1 by (cases r2) simp_all
    next
      assume "committed (b_id D1) (b_schema_digest D1) plan (l_db (b_ledger D1)) (l_db (b_ledger D2))"
      then show ?thesis using plan D1 db by auto
    qed
  qed
qed

section \<open>Opening\<close>

lemma integrity_Ok:
  assumes "validate_workspace_integrity sha xof files L schema db_id = Inr head"
  obtains t active ts st where "read_ledger_head L schema db_id = Inr head" "read_tx_object sha (f_tx files) (hv_tx head) = Inr t"
    "to_seq t = hv_seq head" "to_schema t = hv_schema head" "active_factual_assertions sha L = Inr active"
    "history_chain sha (f_tx files) (hv_tx head) = Inr ts"
    "replay_chain (validate_schema_object_digest sha (f_schemas files)) ts = Inr (st, Some (hv_schema head))"
    "rp_active st = fst ` set active" "state_digest_for_assertions xof active = Inr (hv_state head)"
  using assms
  by (auto simp: validate_workspace_integrity_def replay_history_def err_simps require_token_def split: if_splits prod.splits)

lemma open_workspace_Ok:
  assumes "open_workspace sha xof files tables ir = Inr D"
  obtains schema db_id L head where "open_ledger [] tables = Inr L"
    "validate_workspace_integrity sha xof files L schema db_id = Inr head"
    "init_database sha L db_id schema (Some ir) (Some files) = Inr D"
  using assms by (auto simp: open_workspace_def err_simps split: if_splits)

lemma head_with_defaults: "read_ledger_head (with_defaults d L) = read_ledger_head L"
  by (intro ext) (rule read_head_with_defaults)

lemma open_ledger_fresh:
  assumes "open_ledger existing tables = Inr L"
  shows "ix_ok (l_ix L) \<and> l_lazy L = []"
proof -
  from assms obtain db where "(case load_from_db [] db of (_, Inl e) \<Rightarrow> Err e
      | (ix, Inr _) \<Rightarrow> Ok \<lparr>l_db = db, l_ix = ix, l_lazy = [], l_closed = False\<rparr>) = Inr L"
    by (auto simp: open_ledger_def bindE_Inr_iff)
  then have "l_lazy L = []" by (cases "load_from_db [] db"; cases "snd (load_from_db [] db)") auto
  with ix_ok_open [OF assms] show ?thesis by simp
qed

lemma opened_database:
  assumes "open_workspace sha xof files tables ir = Inr D" "l_lazy (b_ledger D) = []"
  shows "\<exists>h active ts st. b_files D = Some files \<and> read_ledger_head (b_ledger D) (b_schema_digest D) (b_id D) = Inr h \<and>
     active_factual_assertions sha (b_ledger D) = Inr active \<and> state_digest_for_assertions xof active = Inr (hv_state h) \<and>
     history_chain sha (f_tx files) (hv_tx h) = Inr ts \<and>
     replay_chain (validate_schema_object_digest sha (f_schemas files)) ts = Inr (st, Some (hv_schema h)) \<and>
     rp_active st = fst ` set active"
  using assms(1)
proof (rule open_workspace_Ok)
  fix schema db_id L head
  assume L: "open_ledger [] tables = Inr L" and v: "validate_workspace_integrity sha xof files L schema db_id = Inr head"
    and init: "init_database sha L db_id schema (Some ir) (Some files) = Inr D"
  from open_ledger_fresh [OF L] have "ix_ok (l_ix L)" "l_lazy L = []" by simp_all
  note i = init_database_Ok [OF init this assms(2)]
  from i(1) obtain d where d: "b_ledger D = with_defaults d L" by blast
  show ?thesis
    by (rule integrity_Ok [OF v]) (auto simp: d i(2-4) head_with_defaults active_with_defaults)
qed

end
