(* ===== verification/Database_Samples.thy ===== *)
theory Database_Samples
  imports Database_Chain Database_Created
begin

text \<open>
  A small workspace, opened at its genesis, and a commit of one assertion with one metadata
  entry, on which the properties of the database are exercised.  The hash tells short inputs
  from long ones.
\<close>

definition s_sha :: "bytes \<Rightarrow> bytes" where
  "s_sha b = (if length b < 256 then replicate 32 0 else replicate 32 17)"
definition s_xof :: "bytes \<Rightarrow> nat \<Rightarrow> bytes" where "s_xof b n = replicate n 1"
definition s_fresh :: "nat \<Rightarrow> ustr" where "s_fresh n = replicate 32 (48 + n)"

definition s_schema :: ustr where "s_schema = u ''sha256:'' @ replicate 64 48"
definition s_tx :: ustr where "s_tx = u ''tx:'' @ replicate 64 48"
definition s_id :: ustr where "s_id = u ''db:sample''"
definition s_token :: ustr where "s_token = LTHASH_TOKEN_PREFIX @ b64url_encode empty_state"

section \<open>The files\<close>

definition s_ir :: pyval where
  "s_ir = PDict [(key_of ''schema_ir_version'', key_of ''1''), (key_of ''entities'', PList []), (key_of ''predicates'', PList []),
     (key_of ''projection'', PDict [(key_of ''entities'', PList []), (key_of ''predicates'', PList [])]),
     (key_of ''protocol_version'', PDict [(key_of ''idref_v1'', key_of ''1''), (key_of ''tup_v1'', key_of ''1''),
        (key_of ''export_v1'', key_of ''1'')]),
     (key_of ''generated_at'', key_of ''now'')]"

definition s_genesis :: tx_object where
  "s_genesis = \<lparr>to_id = s_tx, to_parent = None, to_schema = s_schema, to_scheme = LTHASH_SCHEME, to_seq = 0, to_ops = [],
     to_defaults = []\<rparr>"

definition s_tx_files :: tx_files where
  "s_tx_files = (case write_tx_object s_sha s_genesis [] of Inr files \<Rightarrow> files | Inl _ \<Rightarrow> [])"

definition s_schema_files :: schema_files where
  "s_schema_files = (case bindE (canonicalize_schema_ir_jcs s_ir) (\<lambda>b. bindE (json_read_back s_ir) (\<lambda>doc.
       write_schema_object s_sha s_schema b (Some doc) [])) of Inr files \<Rightarrow> files | Inl _ \<Rightarrow> [])"

definition s_workspace :: workspace where
  "s_workspace = \<lparr>f_tx = s_tx_files, f_schemas = s_schema_files, f_views = [], f_meta = PNone\<rparr>"

lemma s_genesis_read: "read_tx_object s_sha s_tx_files s_tx = Inr s_genesis"
  by code_simp

lemma s_schema_stored: "validate_schema_object_digest s_sha s_schema_files s_schema = Inr ()"
  by code_simp

section \<open>The database\<close>

definition s_ledger :: "ustr \<Rightarrow> ledger" where
  "s_ledger token = \<lparr>l_db = \<lparr>d_claims = [], d_meta = [(HEAD_TX_ID, s_tx), (u ''db_id'', s_id), (u ''schema_digest'', s_schema),
      (u ''head_state_digest'', token), (u ''digest_scheme'', LTHASH_SCHEME), (u ''head_tx_seq'', dec_nat 0)], d_cmeta = []\<rparr>,
     l_ix = reset_indexes, l_lazy = [], l_closed = False\<rparr>"

definition s_db :: database where
  "s_db = \<lparr>b_ledger = s_ledger s_token, b_id = s_id, b_schema_digest = s_schema, b_schema_ir = Some s_ir, b_files = Some s_workspace,
     b_closed = False\<rparr>"

definition s_facts :: "pyval list" where
  "s_facts = [PTuple [PStr (u ''entity_ref''), PStr (u ''idref_v1:Person:abc'')], PTuple [PStr (u ''string''), PStr (u ''Ada'')]]"

definition s_note :: meta_entry where
  "s_note = \<lparr>me_key = u ''note'', me_kind = u ''str'', me_value = PStr (u ''x'')\<rparr>"

definition s_change :: change_set where
  "s_change = \<lparr>ch_assertions = [\<lparr>in_pred = u ''person'', in_tuple = PTuple s_facts, in_meta = [s_note]\<rparr>],
     ch_revocations = [], ch_appends = [], ch_schema = None, ch_defaults = []\<rparr>"

text \<open>What the commit prepares and the transaction it plans.\<close>

definition s_asrt :: ustr where "s_asrt = u ''asrt:'' @ replicate 32 48"
definition s_digest :: ustr where "s_digest = u ''sha256:'' @ replicate 64 48"
definition s_next :: ustr where "s_next = u ''tx:'' @ replicate 64 49"

definition s_prepared :: prepared_assertion where
  "s_prepared =
     \<lparr>pa_record = \<lparr>ra_asrt = s_asrt, ra_pred = u ''person'', ra_facts = s_facts, ra_schema = s_schema,
        ra_digest = s_digest, ra_tx = zero_tx, ra_meta = [s_note]\<rparr>,
      pa_write = \<lparr>w_claim = \<lparr>c_asrt = s_asrt, c_pred = u ''person'', c_eref = u ''idref_v1:Person:abc'', c_terms = tl s_facts\<rparr>,
        w_args = [\<lparr>g_asrt = s_asrt, g_idx = 0, g_atom = PStr (u ''Ada''), g_tag = u ''string''\<rparr>],
        w_meta = meta_rows_of s_asrt [s_note], w_anno = annotation_rows s_asrt [s_note]\<rparr>\<rparr>"

lemma s_prepare: "mapE (db_prepare_assertion s_sha s_schema s_fresh) (enumerate 0 (ch_assertions s_change)) = Inr [s_prepared]"
  by code_simp

lemma s_tx_id: "tx_id_for_v2 s_sha (Some s_tx) s_schema LTHASH_SCHEME (Suc 0) [assertion_op s_prepared] [] = Inr s_next"
  by code_simp

definition s_element :: bytes where "s_element = item_bytes (assertion_item s_prepared)"

lemma s_element_Ok: "db_state_element (fst (assertion_item s_prepared)) (snd (assertion_item s_prepared)) = Inr s_element \<and>
    length s_element < 200"
  by code_simp

lemma s_tokens: "require_db_id (PStr s_id) = Inr s_id \<and> require_token (u ''sha256:'') (PStr s_schema) = Inr s_schema \<and>
    require_token (u ''tx:'') (PStr s_tx) = Inr s_tx"
  by code_simp

definition s_head_meta :: "ustr \<Rightarrow> nat \<Rightarrow> (ustr, ustr) dict" where
  "s_head_meta token q = [(u ''db_id'', s_id), (u ''schema_digest'', s_schema), (u ''head_state_digest'', token),
     (u ''digest_scheme'', LTHASH_SCHEME), (u ''head_tx_seq'', dec_nat q)]"

lemma s_batch: "snd (commit_batch [assertion_write_of s_next s_prepared] [] (Some s_tx) s_next
     (s_head_meta token' (Suc 0)) [] (s_ledger token)) = Inr ()"
  by code_simp

lemma s_head_metadata: "decode_state (PStr token) = Inr s \<Longrightarrow> head_metadata s_id s_schema token q = Inr (s_head_meta token q)"
  using s_tokens by (simp add: head_metadata_def s_head_meta_def)

lemma s_token_Ok: "decode_state (PStr s_token) = Inr empty_state"
  by (simp add: s_token_def decode_encoded)

lemma s_head:
  "read_ledger_head (s_ledger s_token) s_schema s_id =
    Inr \<lparr>hv_db = s_id, hv_tx = s_tx, hv_schema = s_schema, hv_state = s_token, hv_scheme = LTHASH_SCHEME, hv_seq = 0\<rparr>"
  by (rule read_head_metadata [OF s_head_metadata [OF s_token_Ok], where old = "[]"])
    (use s_tokens in \<open>simp_all add: s_ledger_def s_head_meta_def HEAD_TX_ID_def\<close>)

lemma s_sound: "db_sound s_sha s_xof s_db"
proof -
  have "ids_known reset_indexes" by (simp add: ids_known_def reset_indexes_def)
  moreover have "active_factual_assertions s_sha (s_ledger s_token) = Inr []"
    by (simp add: active_factual_assertions_def find_claims_def ensure_open_def s_ledger_def reset_indexes_def)
  moreover have "state_digest_for_assertions s_xof [] = Inr s_token"
    by (simp add: state_digest_Ok s_token_def encode_state_def)
  ultimately show ?thesis
    by (simp add: db_sound_def s_db_def s_head ledger_sound_def) (simp add: s_ledger_def)
qed

lemma s_added: "\<exists>s. foldE (add_element s_xof) empty_state [assertion_item s_prepared] = Inr s \<and> length s = LTHASH_STATE_BYTES"
proof -
  have x: "s_xof = (\<lambda>d n. replicate n 1)" by (simp add: s_xof_def fun_eq_iff)
  have "good_hash s_xof s_element" unfolding x using s_element_Ok by (intro good_hash_const) simp
  then have "lt_add s_xof (py_bytes empty_state) (py_bytes s_element) = Inr (lt_apply s_xof False empty_state s_element)"
    using lt_op_Ok [of empty_state False s_xof s_element] by simp
  then show ?thesis
    using s_element_Ok by (simp add: add_element_def state_element_def lt_apply_length)
qed

definition s_object :: tx_object where
  "s_object = \<lparr>to_id = s_next, to_parent = Some s_tx, to_schema = s_schema, to_scheme = LTHASH_SCHEME, to_seq = Suc 0,
     to_ops = [assertion_op s_prepared], to_defaults = []\<rparr>"

lemma s_written: "\<not> isl (write_tx_object s_sha s_object s_tx_files)"
  by code_simp

definition s_parent :: database_value where
  "s_parent = \<lparr>hv_db = s_id, hv_tx = s_tx, hv_schema = s_schema, hv_state = s_token, hv_scheme = LTHASH_SCHEME, hv_seq = 0\<rparr>"

definition s_plan :: "bytes \<Rightarrow> commit_plan" where
  "s_plan s = \<lparr>pl_parent = s_parent, pl_tx = s_object, pl_state = LTHASH_TOKEN_PREFIX @ b64url_encode s,
     pl_assertions = [s_prepared], pl_revocations = [], pl_appends = [], pl_schema = None\<rparr>"

lemma s_fields: "b_schema_digest s_db = s_schema" "b_closed s_db = False" "b_files s_db = Some s_workspace" "b_id s_db = s_id"
    "b_ledger s_db = s_ledger s_token" "ch_revocations s_change = []" "ch_appends s_change = []" "ch_schema s_change = None"
    "ch_defaults s_change = []"
  by (simp_all add: s_db_def s_change_def)

lemma s_plan_Ok:
  assumes "foldE (add_element s_xof) empty_state [assertion_item s_prepared] = Inr s" "length s = LTHASH_STATE_BYTES"
  shows "plan_commit s_sha s_xof s_fresh s_db s_change = Inr (s_plan s)"
proof -
  have check: "check_change_set s_db s_change = Inr []"
    by (simp add: check_change_set_def s_change_def normalize_tx_meta_defaults_def normalize_meta_entries_def
        reject_reserved_meta_keys_def reject_system_managed_meta_keys_def)
  have head: "db_head s_sha s_db = Inr s_parent"
    using s_genesis_read by (simp add: db_head_def db_ensure_open_def s_db_def s_head s_workspace_def s_genesis_def s_parent_def)
  have new: "check_new_ids (b_ledger s_db) [ra_asrt (pa_record s_prepared)] = Inr ()"
    by (simp add: check_new_ids_def get_claim_def s_db_def s_ledger_def reset_indexes_def ensure_open_def)
  have enc: "encode_state (py_bytes s) = Inr (LTHASH_TOKEN_PREFIX @ b64url_encode s)" using assms(2) by (simp add: encode_state_def)
  show ?thesis
    using check head new s_prepare s_token_Ok assms(1) enc s_tx_id
    by (simp add: plan_commit_def Let_def db_ensure_open_def s_fields prepare_schema_transition_def schema_ops_def s_plan_def
        s_parent_def s_object_def del: foldE.simps(2))
qed

lemma s_commit:
  "\<exists>D res. commit_changes s_sha s_xof s_fresh s_change s_db = (D, Inr res) \<and> l_lazy (b_ledger D) = [] \<and>
     hv_tx (res_value res) = s_next"
proof -
  obtain s where s: "foldE (add_element s_xof) empty_state [assertion_item s_prepared] = Inr s" "length s = LTHASH_STATE_BYTES"
    using s_added by blast
  note plan = s_plan_Ok [OF s]
  obtain tx where tx: "write_tx_object s_sha s_object s_tx_files = Inr tx"
    using s_written by (cases "write_tx_object s_sha s_object s_tx_files") auto
  let ?D1 = "s_db\<lparr>b_files := Some (s_workspace\<lparr>f_tx := tx\<rparr>)\<rparr>"
  have files: "write_plan_objects s_sha (s_plan s) s_db = (?D1, Inr ())"
    by (simp add: write_plan_objects_def write_objects_def s_fields s_plan_def) (simp add: s_workspace_def tx)
  obtain L where L: "commit_batch [assertion_write_of s_next s_prepared] [] (Some s_tx) s_next
     (s_head_meta (LTHASH_TOKEN_PREFIX @ b64url_encode s) (Suc 0)) [] (s_ledger s_token) = (L, Inr ())"
    using s_batch [of "LTHASH_TOKEN_PREFIX @ b64url_encode s" s_token] by (metis prod.collapse)
  have batch: "commit_plan_batch (s_plan s) ?D1 = (?D1\<lparr>b_ledger := L\<rparr>, Inr ())"
    using s_head_metadata [OF decode_encoded [OF s(2)], of "Suc 0"] L
    by (simp add: commit_plan_batch_def s_plan_def s_object_def s_parent_def s_fields)
  have "record_plan_defaults (s_plan s) D = (D, Inr ())" "adopt_schema (s_plan s) D = (D, Inr ())" for D
    by (simp_all add: record_plan_defaults_def adopt_schema_def s_plan_def s_object_def)
  then have "commit_changes s_sha s_xof s_fresh s_change s_db = (?D1\<lparr>b_ledger := L\<rparr>, Inr (plan_result s_id (s_plan s)))"
    using plan files batch by (simp add: commit_changes_def s_fields)
  moreover have "l_lazy L = []" by (rule commit_batch_memory(2) [OF L]) (simp_all add: s_ledger_def)
  ultimately show ?thesis by (simp add: plan_result_def plan_value_def s_plan_def s_object_def)
qed

lemma s_history: "history_sound s_sha s_db s_workspace [s_genesis]"
proof -
  have "tx_chain s_sha s_tx_files {} (Some s_tx) = Inr [s_genesis]"
    using s_genesis_read by (simp add: tx_chain.simps) (simp add: s_genesis_def tx_chain.simps)
  then have chain: "history_chain s_sha s_tx_files s_tx = Inr [s_genesis]" using s_tokens by (simp add: history_chain_def)
  have active: "active_factual_assertions s_sha (s_ledger s_token) = Inr []"
    by (simp add: active_factual_assertions_def find_claims_def ensure_open_def s_ledger_def reset_indexes_def)
  have replay: "replay_chain (validate_schema_object_digest s_sha s_schema_files) [s_genesis] =
      Inr (\<lparr>rp_active = {}, rp_known = {}\<rparr>, Some s_schema)"
    using s_schema_stored by (simp add: replay_chain_def replay_tx_def replay_schema_def s_genesis_def)
  have "replay_agrees \<lparr>rp_active = {}, rp_known = {}\<rparr> (s_ledger s_token) []"
    by (simp add: replay_agrees_def s_ledger_def reset_indexes_def is_known_asrt_id_def)
  then show ?thesis
    using chain active replay by (simp add: history_sound_def s_fields s_head) (simp add: s_workspace_def)
qed

lemma s_sha_length: "\<forall>b. length (s_sha b) = 32"
  by (simp add: s_sha_def)

section \<open>Creating and opening\<close>

text \<open>
  The small workspace again: created in memory, and opened from its files and tables.
\<close>

section \<open>Created\<close>

definition s_uuid :: ustr where "s_uuid = u ''sample''"

definition s_mem_meta :: "ustr \<Rightarrow> (ustr, ustr) dict" where
  "s_mem_meta token = [(u ''db_id'', u ''mem:sample''), (u ''schema_digest'', s_schema), (u ''head_state_digest'', token),
     (u ''digest_scheme'', LTHASH_SCHEME), (u ''head_tx_seq'', dec_nat 0)]"

definition s_empty :: ledger where
  "s_empty = (case open_ledger [] empty_tables of Inr L \<Rightarrow> L | Inl _ \<Rightarrow> s_ledger [])"

lemma s_mem_parts:
  "open_ledger [] empty_tables = Inr s_empty" "check_empty_ledger s_empty = Inr ()" "schema_digest s_sha s_ir = Inr s_schema"
  "genesis s_sha s_schema = Inr s_genesis" "require_db_id (PStr (u ''mem:sample'')) = Inr (u ''mem:sample'')"
  "u ''mem:'' @ s_uuid = u ''mem:sample''" "\<not> isl (ensure_schema_ir s_ir)" "lazy_keys_of s_ir = Inr []"
  by code_simp+

lemma s_mem_batch: "snd (commit_batch [] [] None s_tx (s_mem_meta token) [] s_empty) = Inr ()"
  by code_simp

lemma s_created: "\<exists>D. create_memory s_sha s_uuid s_ir = Inr D \<and> l_lazy (b_ledger D) = []"
proof -
  have md: "head_metadata (u ''mem:sample'') (to_schema s_genesis) s_token 0 = Inr (s_mem_meta s_token)"
    using s_tokens s_mem_parts(5) s_token_Ok by (simp add: head_metadata_def s_mem_meta_def s_genesis_def)
  obtain L where L: "commit_batch [] [] None (to_id s_genesis) (s_mem_meta s_token) [] s_empty = (L, Inr ())"
    using s_mem_batch [of s_token] by (metis prod.collapse s_genesis_def tx_object.simps(1))
  have "encode_state (py_bytes empty_state) = Inr s_token" by (simp add: s_token_def encode_state_def)
  then have genesis: "commit_genesis s_genesis (u ''mem:sample'') s_empty = Inr L" using md L by (simp add: commit_genesis_def)
  note o = open_empty [OF s_mem_parts(1)]
  have lazy: "l_lazy L = []" "\<not> l_closed L" using commit_batch_memory [OF L o(2)] by (simp_all add: o)
  obtain doc where "ensure_schema_ir s_ir = Inr doc" using s_mem_parts(7) by (cases "ensure_schema_ir s_ir") auto
  then have "\<exists>D. init_database s_sha L (u ''mem:sample'') s_schema (Some s_ir) None = Inr D \<and> b_ledger D = L"
    using s_mem_parts s_tokens lazy
    by (simp add: init_database_def configure_from_schema_def configure_meta_load_policy_def ensure_open_def)
  then show ?thesis using s_mem_parts genesis lazy by (auto simp: create_memory_def Let_def)
qed

section \<open>Opened\<close>

definition s_meta :: pyval where
  "s_meta = PDict [(key_of ''created_at_epoch_ns'', PInt 0), (key_of ''database_workspace_version'', PStr DATABASE_WORKSPACE_VERSION),
     (key_of ''db_id'', PStr s_id), (key_of ''last_saved_at_epoch_ns'', PInt 0)]"

definition s_files :: workspace where "s_files = s_workspace\<lparr>f_meta := s_meta\<rparr>"

definition s_tables :: ledger_db where
  "s_tables = (l_db (s_ledger s_token))\<lparr>d_meta := (u ''ledger_format_version'', u ''slice3b-v1'') # d_meta (l_db (s_ledger s_token))\<rparr>"

definition s_opened :: ledger where "s_opened = (s_ledger s_token)\<lparr>l_db := s_tables\<rparr>"

lemma s_open_parts:
  "validate_schema_object s_sha s_schema_files s_schema s_ir = Inr ()"
  "read_database_meta s_meta = Inr [(key_of ''created_at_epoch_ns'', PInt 0),
     (key_of ''database_workspace_version'', PStr DATABASE_WORKSPACE_VERSION), (key_of ''db_id'', PStr s_id),
     (key_of ''last_saved_at_epoch_ns'', PInt 0)]"
  "dict_field [(key_of ''created_at_epoch_ns'', PInt 0),
     (key_of ''database_workspace_version'', PStr DATABASE_WORKSPACE_VERSION), (key_of ''db_id'', PStr s_id),
     (key_of ''last_saved_at_epoch_ns'', PInt 0)] ''db_id'' = PStr s_id"
  by code_simp+

lemma s_open_ledger: "open_ledger [] s_tables = Inr s_opened"
  by (simp add: open_ledger_def init_schema_def dict_setdefault_def s_tables_def s_opened_def s_ledger_def load_from_db_def
      Let_def event_order_def)

lemma s_snapshot: "get_ledger_meta s_opened k =
   Inr (if k = u ''ledger_format_version'' then Some (u ''slice3b-v1'') else dict_get (d_meta (l_db (s_ledger s_token))) k)"
  by (simp add: get_ledger_meta_def ensure_open_def s_opened_def s_tables_def) (simp add: s_ledger_def)

lemma s_opened_head:
  "read_ledger_head s_opened s_schema s_id =
    Inr \<lparr>hv_db = s_id, hv_tx = s_tx, hv_schema = s_schema, hv_state = s_token, hv_scheme = LTHASH_SCHEME, hv_seq = 0\<rparr>"
  by (rule read_head_metadata [OF s_head_metadata [OF s_token_Ok], where old = "[(u ''ledger_format_version'', u ''slice3b-v1'')]"])
    (use s_tokens in \<open>simp_all add: s_opened_def s_tables_def s_ledger_def s_head_meta_def HEAD_TX_ID_def\<close>)

lemma s_integrity: "validate_workspace_integrity s_sha s_xof s_files s_opened s_schema s_id =
    Inr \<lparr>hv_db = s_id, hv_tx = s_tx, hv_schema = s_schema, hv_state = s_token, hv_scheme = LTHASH_SCHEME, hv_seq = 0\<rparr>"
proof -
  have files: "f_tx s_files = s_tx_files" "f_schemas s_files = s_schema_files" by (simp_all add: s_files_def s_workspace_def)
  have chain: "tx_chain s_sha s_tx_files {} (Some s_tx) = Inr [s_genesis]"
    using s_genesis_read by (simp add: tx_chain.simps) (simp add: s_genesis_def tx_chain.simps)
  have replay: "replay_history s_sha s_tx_files s_schema_files s_tx s_schema = Inr {}"
    using chain s_tokens s_schema_stored
    by (simp add: replay_history_def history_chain_def replay_chain_def replay_tx_def replay_schema_def s_genesis_def)
  have active: "active_factual_assertions s_sha s_opened = Inr []"
    by (simp add: active_factual_assertions_def find_claims_def ensure_open_def s_opened_def s_ledger_def reset_indexes_def)
  have token: "state_digest_for_assertions s_xof [] = Inr s_token"
    by (simp add: state_digest_Ok s_token_def encode_state_def)
  have "validate_claim_meta_parity s_sha s_tx_files s_opened s_tx = Inr ()"
    using chain by (simp add: validate_claim_meta_parity_def events_by_position_def s_opened_def s_ledger_def reset_indexes_def
        s_genesis_def)
  then show ?thesis
    using s_opened_head s_genesis_read replay active token
    by (simp add: validate_workspace_integrity_def files) (simp add: s_genesis_def)
qed

lemma s_open: "\<exists>D. open_workspace s_sha s_xof s_files s_tables s_ir = Inr D \<and> l_lazy (b_ledger D) = []"
proof -
  obtain doc where doc: "ensure_schema_ir s_ir = Inr doc" using s_mem_parts(7) by (cases "ensure_schema_ir s_ir") auto
  have "history_chain s_sha s_tx_files s_tx = Inr [s_genesis]"
    using s_genesis_read s_tokens by (simp add: history_chain_def tx_chain.simps) (simp add: s_genesis_def tx_chain.simps)
  then have defaults: "head_defaults s_sha (Some s_files) s_opened = Inr []"
    by (simp add: head_defaults_def s_snapshot tx_meta_defaults_from_history_def s_files_def s_workspace_def)
      (simp add: s_ledger_def tx_meta_defaults_from_history_def s_genesis_def HEAD_TX_ID_def)
  have "\<exists>D. init_database s_sha s_opened s_id s_schema (Some s_ir) (Some s_files) = Inr D \<and> l_lazy (b_ledger D) = []"
    using s_mem_parts s_tokens doc defaults
    by (simp add: init_database_def configure_from_schema_def configure_meta_load_policy_def ensure_open_def
        replace_tx_meta_defaults_def s_opened_def s_ledger_def)
  moreover have "get_ledger_meta s_opened (u ''digest_scheme'') = Inr (Some LTHASH_SCHEME)"
    by (simp add: s_snapshot) (simp add: s_ledger_def HEAD_TX_ID_def)
  ultimately show ?thesis
    using s_integrity s_open_ledger s_open_parts s_tokens s_mem_parts(3)
    by (auto simp: open_workspace_def s_files_def s_workspace_def)
qed

end
