(* ===== verification/Database_Contract.thy ===== *)
theory Database_Contract
  imports Database_Samples
begin

text \<open>
  The properties of the database: what a commit does to the head and to the active assertions,
  what ids determine, and what the object files keep.
\<close>

section \<open>Commits\<close>

text \<open>
  C2: The head of a database tells the truth. In every database that was created, in memory or
  as a workspace, and changed by any commits, the ledger is well formed, and the state token
  stored in the head is the digest of the assertions found active by scanning and verifying the
  whole ledger, although every commit only added and removed the elements it changed. (The
  condition on the lazily loaded keys says that the schema marks no metadata key as lazy.)
\<close>

theorem reachable_heads_are_true:
  assumes "db_reachable sha xof D" "\<forall>b. length (sha b) = 32"
  shows "ledger_sound (b_ledger D) \<and>
     (\<exists>h active. read_ledger_head (b_ledger D) (b_schema_digest D) (b_id D) = Inr h \<and>
        active_factual_assertions sha (b_ledger D) = Inr active \<and>
        state_digest_for_assertions xof active = Inr (hv_state h))"
  using db_reachable_sound [OF assms] by (simp add: db_sound_def)

lemma reachable_heads_are_true_witness:
  "\<exists>D h active. db_reachable s_sha s_xof D \<and> read_ledger_head (b_ledger D) (b_schema_digest D) (b_id D) = Inr h \<and>
     active_factual_assertions s_sha (b_ledger D) = Inr active \<and> state_digest_for_assertions s_xof active = Inr (hv_state h)"
proof -
  from s_created obtain D where "create_memory s_sha s_uuid s_ir = Inr D" "l_lazy (b_ledger D) = []" by blast
  then have "db_reachable s_sha s_xof D" by (rule db_reachable.memory)
  with reachable_heads_are_true [OF this s_sha_length] show ?thesis by blast
qed

text \<open>
  C9: What a commit does, as its result reports it. The new head follows the old one, the
  transaction number is one more, and the active assertions are the old ones and the committed
  ones, in this order, without the revoked ones.
\<close>

theorem commit_moves_head:
  assumes "commit_changes sha xof fresh c D = (D', Inr res)" "db_sound sha xof D" "\<forall>b. length (sha b) = 32"
    "l_lazy (b_ledger D') = []"
  shows "\<exists>h active. read_ledger_head (b_ledger D) (b_schema_digest D) (b_id D) = Inr h \<and>
     active_factual_assertions sha (b_ledger D) = Inr active \<and>
     res_parent res = hv_tx h \<and> hv_seq (res_value res) = Suc (hv_seq h) \<and>
     read_ledger_head (b_ledger D') (b_schema_digest D') (b_id D') = Inr (res_value res) \<and>
     active_factual_assertions sha (b_ledger D') =
       Inr (filter (\<lambda>i. fst i \<notin> rr_revoked ` set (res_revocations res))
         (active @ map (\<lambda>r. (ra_asrt r, ra_digest r)) (res_assertions res)))"
  using assms(1-4)
  by (rule commit_effect)
    (simp add: plan_result_def plan_value_def after_plan_def image_image assertion_item_def [abs_def] o_def)

lemma commit_moves_head_witness:
  "\<exists>D res active. commit_changes s_sha s_xof s_fresh s_change s_db = (D, Inr res) \<and>
     active_factual_assertions s_sha (s_ledger s_token) = Inr active \<and>
     active_factual_assertions s_sha (b_ledger D) =
       Inr (filter (\<lambda>i. fst i \<notin> rr_revoked ` set (res_revocations res))
         (active @ map (\<lambda>r. (ra_asrt r, ra_digest r)) (res_assertions res)))"
proof -
  from s_commit obtain D res where c: "commit_changes s_sha s_xof s_fresh s_change s_db = (D, Inr res)" "l_lazy (b_ledger D) = []"
    by blast
  from commit_moves_head [OF c(1) s_sound s_sha_length c(2)] c(1) show ?thesis unfolding s_fields by blast
qed



section \<open>The history\<close>

text \<open>
  C4: A commit appends one transaction to the history, and the history stays the ledger's. In a
  workspace whose transaction objects form a chain behind the head, numbered from the genesis,
  that replays to exactly the active and the known assertions of the ledger, the same holds
  after a commit, with the old chain followed by the new transaction. It is asked that the
  commit does not change the schema, that its metadata values survive the files, and that no
  file has the new transaction's id.
\<close>

theorem commit_extends_history:
  assumes "commit_changes sha xof fresh c D = (D', Inr res)" "db_sound sha xof D" "\<forall>b. length (sha b) = 32"
    "l_lazy (b_ledger D') = []" "ch_schema c = None" "change_survives c" "history_sound sha D files ts"
    "dict_get (f_tx files) (hv_tx (res_value res)) = None"
  shows "\<exists>files' t. history_sound sha D' files' (ts @ [t]) \<and> to_id t = hv_tx (res_value res)"
  using assms by (rule commit_extends)

lemma s_change_survives: "change_survives s_change"
  by (simp add: change_survives_def s_change_def)

lemma s_next_new: "dict_get (f_tx s_workspace) s_next = None"
  by code_simp

lemma commit_extends_history_witness:
  "\<exists>D res files t. commit_changes s_sha s_xof s_fresh s_change s_db = (D, Inr res) \<and>
     history_sound s_sha D files [s_genesis, t] \<and> to_id t = s_next"
proof -
  from s_commit obtain D res where c: "commit_changes s_sha s_xof s_fresh s_change s_db = (D, Inr res)" "l_lazy (b_ledger D) = []"
    "hv_tx (res_value res) = s_next" by blast
  from commit_extends_history [OF c(1) s_sound s_sha_length c(2) s_fields(8) s_change_survives s_history] s_next_new c(1,3)
  show ?thesis by auto
qed

text \<open>
  C16: A head commits to its whole history. Two workspaces whose histories end in the same
  transaction id have the same history, transaction by transaction (the order of metadata entries
  aside), or contain two objects of one id that exhibit a collision of SHA-256.
\<close>

theorem head_fixes_history:
  assumes "history_chain sha files head = Inr ts" "history_chain sha files' head = Inr ts'"
  shows "list_all2 same_object ts ts' \<or> (\<exists>t \<in> set ts. \<exists>t' \<in> set ts'. to_id t = to_id t' \<and> colliding sha t t')"
proof -
  from assms obtain h hs hs' where "tx_chain sha files {} (Some h) = Inr hs" "tx_chain sha files' {} (Some h) = Inr hs'"
    "ts = rev hs" "ts' = rev hs'" by (auto simp: history_chain_def bindE_Inr_iff)
  with same_head_same_chain [of sha files "{}" "Some h" hs files' "{}" hs'] show ?thesis by auto
qed

lemma s_chain: "history_chain s_sha s_tx_files s_tx = Inr [s_genesis]"
  using s_genesis_read s_tokens by (simp add: history_chain_def tx_chain.simps) (simp add: s_genesis_def tx_chain.simps)

lemma head_fixes_history_witness: "same_object s_genesis s_genesis \<or> colliding s_sha s_genesis s_genesis"
  using head_fixes_history [OF s_chain s_chain] by simp

text \<open>
  C12: What an opened workspace is known to be. When \<open>open_workspace\<close> returns, the head read from
  the ledger carries the digest of the assertions the ledger has active, and the transaction
  objects behind the head form a chain whose replay, schema transitions included, ends with the
  head's schema and the same active assertions.
\<close>

theorem opened_workspace_agrees:
  assumes "open_workspace sha xof files tables ir = Inr D" "l_lazy (b_ledger D) = []"
  shows "\<exists>h active ts st. b_files D = Some files \<and>
     read_ledger_head (b_ledger D) (b_schema_digest D) (b_id D) = Inr h \<and>
     active_factual_assertions sha (b_ledger D) = Inr active \<and> state_digest_for_assertions xof active = Inr (hv_state h) \<and>
     history_chain sha (f_tx files) (hv_tx h) = Inr ts \<and>
     replay_chain (validate_schema_object_digest sha (f_schemas files)) ts = Inr (st, Some (hv_schema h)) \<and>
     rp_active st = fst ` set active"
  using assms by (rule opened_database)

lemma opened_workspace_agrees_witness:
  "\<exists>D h ts. open_workspace s_sha s_xof s_files s_tables s_ir = Inr D \<and>
     read_ledger_head (b_ledger D) (b_schema_digest D) (b_id D) = Inr h \<and> history_chain s_sha s_tx_files (hv_tx h) = Inr ts"
proof -
  from s_open obtain D where D: "open_workspace s_sha s_xof s_files s_tables s_ir = Inr D" "l_lazy (b_ledger D) = []" by blast
  have "f_tx s_files = s_tx_files" by (simp add: s_files_def s_workspace_def)
  with opened_workspace_agrees [OF D] D(1) show ?thesis by auto
qed

section \<open>Objects and digests\<close>

text \<open>
  C19: A transaction object reads back as it was written, its defaults sorted by key, through its
  JSON document and with its id recomputed from its content, when the metadata values in it
  survive the encoding (the null, booleans, numbers, texts and bytes do).
\<close>

theorem tx_object_roundtrip:
  assumes "write_tx_object sha t files = Inr files'" "dict_get files (to_id t) = None" "tx_survives t"
  shows "read_tx_object sha files' (to_id t) = Inr (t\<lparr>to_defaults := sort_key me_key (to_defaults t)\<rparr>)"
  using assms by (rule tx_object_back)

lemma tx_object_roundtrip_witness:
  "\<exists>files'. write_tx_object s_sha s_object s_tx_files = Inr files' \<and> read_tx_object s_sha files' s_next = Inr s_object"
proof -
  obtain files' where w: "write_tx_object s_sha s_object s_tx_files = Inr files'"
    using s_written by (cases "write_tx_object s_sha s_object s_tx_files") auto
  have "dict_get s_tx_files (to_id s_object) = None" using s_next_new by (simp add: s_workspace_def s_object_def)
  moreover have "tx_survives s_object" by (simp add: tx_survives_def s_object_def op_survives_def assertion_op_def)
  ultimately show ?thesis using tx_object_roundtrip [OF w] w by (simp add: s_object_def)
qed





end
