(* ===== verification/Premise_Filter.thy ===== *)
theory Premise_Filter
  imports Ledger_Laws Meta_Policy Py_Order
begin

text \<open>
  Premise admissibility (\<^verbatim>\<open>core/store/premise_filter.py\<close>): the configured exclusions, allowances and
  blocks, the decision whether an assertion is visible to an evaluation, and the read-only ledger
  whose reads leave out what is not.
\<close>

section \<open>Configuration\<close>

record meta_exclusion =
  ex_key :: ustr
  ex_values :: "ustr set"

record premise_allowance =
  al_pred :: ustr
  al_key :: ustr
  al_values :: "ustr set"
  al_absent_ok :: bool

record premise_block =
  bl_pred :: ustr
  bl_key :: ustr
  bl_values :: "ustr set"

text \<open>The checks of \<open>__post_init__\<close>; every rejection is a \<open>ValueError\<close>.\<close>

definition nonempty_string :: "pyval \<Rightarrow> ustr res" where
  "nonempty_string v = (case v of PStr s \<Rightarrow> if s = [] then Err ValueError else Ok s | _ \<Rightarrow> Err ValueError)"

definition string_values :: "pyval \<Rightarrow> ustr set res" where
  "string_values v = (case v of
      PStr _ \<Rightarrow> Err ValueError
    | _ \<Rightarrow>
        bindE (catchE (bindE (py_iter v) (\<lambda>xs. if list_all hashable xs then Ok xs else Err TypeError))
                 (\<lambda>e. e = TypeError) (\<lambda>_. Err ValueError)) (\<lambda>xs.
        if xs = [] then Err ValueError
        else bindE (mapE nonempty_string xs) (\<lambda>ss. Ok (set ss))))"

definition make_exclusion :: "pyval \<Rightarrow> pyval \<Rightarrow> meta_exclusion res" where
  "make_exclusion key values =
     bindE (nonempty_string key) (\<lambda>k.
     bindE (string_values values) (\<lambda>vs. Ok \<lparr>ex_key = k, ex_values = vs\<rparr>))"

definition make_allowance :: "pyval \<Rightarrow> pyval \<Rightarrow> pyval \<Rightarrow> pyval \<Rightarrow> premise_allowance res" where
  "make_allowance pred_id key allowed absent_ok =
     bindE (nonempty_string pred_id) (\<lambda>p.
     bindE (nonempty_string key) (\<lambda>k.
     case absent_ok of
       PBool b \<Rightarrow>
         bindE (string_values allowed) (\<lambda>vs. Ok \<lparr>al_pred = p, al_key = k, al_values = vs, al_absent_ok = b\<rparr>)
     | _ \<Rightarrow> Err ValueError))"

definition make_block :: "pyval \<Rightarrow> pyval \<Rightarrow> pyval \<Rightarrow> premise_block res" where
  "make_block pred_id key blocked =
     bindE (nonempty_string pred_id) (\<lambda>p.
     bindE (nonempty_string key) (\<lambda>k.
     bindE (string_values blocked) (\<lambda>vs. Ok \<lparr>bl_pred = p, bl_key = k, bl_values = vs\<rparr>)))"

text \<open>What a caller configures: nothing, one rule, or an iterable (\<open>None\<close> for an entry of another class).\<close>

datatype 'a premise_input = NoPremises | OnePremise 'a | Premises "'a option list" | NotIterable

definition normalize_premise_exclusions :: "meta_exclusion premise_input \<Rightarrow> meta_exclusion list res" where
  "normalize_premise_exclusions exclusions = (case exclusions of
      NoPremises \<Rightarrow> Ok []
    | OnePremise e \<Rightarrow> Ok [e]
    | NotIterable \<Rightarrow> Err ValueError
    | Premises items \<Rightarrow> mapE (\<lambda>i. case i of None \<Rightarrow> Err ValueError | Some e \<Rightarrow> Ok e) items)"

definition distinct_predicates :: "('a \<Rightarrow> ustr) \<Rightarrow> 'a option list \<Rightarrow> 'a list res" where
  "distinct_predicates pred items =
     foldE (\<lambda>seen i. case i of
         None \<Rightarrow> Err ValueError
       | Some a \<Rightarrow> if pred a \<in> set (map pred seen) then Err ValueError else Ok (seen @ [a])) [] items"

definition normalize_premise_allowances :: "premise_allowance premise_input \<Rightarrow> premise_allowance list res" where
  "normalize_premise_allowances allowances = (case allowances of
      NoPremises \<Rightarrow> Ok []
    | OnePremise a \<Rightarrow> Ok [a]
    | NotIterable \<Rightarrow> Err ValueError
    | Premises items \<Rightarrow> distinct_predicates al_pred items)"

definition normalize_premise_blocks :: "premise_block premise_input \<Rightarrow> premise_block list res" where
  "normalize_premise_blocks blocks = (case blocks of
      NoPremises \<Rightarrow> Ok []
    | OnePremise b \<Rightarrow> Ok [b]
    | NotIterable \<Rightarrow> Err ValueError
    | Premises items \<Rightarrow> distinct_predicates bl_pred items)"

definition validate_premise_configuration ::
  "(pyval \<times> pyval) list \<Rightarrow> meta_exclusion list \<Rightarrow> premise_allowance list \<Rightarrow> premise_block list \<Rightarrow> unit res" where
  "validate_premise_configuration schema_ir exclusions allowances blocks =
     bindE (forE (\<lambda>e. require_premise_eligible_meta_key schema_ir (ex_key e)) exclusions) (\<lambda>_.
     bindE (forE (\<lambda>a. require_premise_eligible_meta_key schema_ir (al_key a)) allowances) (\<lambda>_.
       forE (\<lambda>b. require_premise_eligible_meta_key schema_ir (bl_key b)) blocks))"

section \<open>Visibility\<close>

text \<open>The value of a key in force; \<open>None\<close> when the key is missing or unset.\<close>

definition last_value :: "ledger \<Rightarrow> ustr \<Rightarrow> ustr \<Rightarrow> pyval option res" where
  "last_value L a key =
     bindE (effective_meta_rows L (Some a) (Some (MKey key)) None None) (\<lambda>rows.
       Ok (if rows = [] then None else Some (m_value (last rows))))"

definition string_in :: "ustr set \<Rightarrow> pyval option \<Rightarrow> bool" where
  "string_in vs v = (case v of Some (PStr s) \<Rightarrow> s \<in> vs | _ \<Rightarrow> False)"

definition is_premise_excluded :: "ledger \<Rightarrow> ustr \<Rightarrow> meta_exclusion list \<Rightarrow> bool res" where
  "is_premise_excluded L a exclusions =
     anyE (\<lambda>e. bindE (last_value L a (ex_key e)) (\<lambda>v. Ok (string_in (ex_values e) v))) exclusions"

definition is_predicate_premise_excluded ::
  "ledger \<Rightarrow> ustr \<Rightarrow> (ustr, premise_allowance) dict \<Rightarrow> bool res" where
  "is_predicate_premise_excluded L a allowances =
     (if allowances = [] then Ok False
      else
        bindE (get_claim L a) (\<lambda>claim. case claim of
            None \<Rightarrow> Ok False
          | Some c \<Rightarrow>
              (case dict_get allowances (c_pred c) of
                 None \<Rightarrow> Ok False
               | Some r \<Rightarrow>
                   bindE (last_value L a (al_key r)) (\<lambda>v.
                     Ok (if v = None then \<not> al_absent_ok r else \<not> string_in (al_values r) v)))))"

definition is_predicate_premise_blocked :: "ledger \<Rightarrow> ustr \<Rightarrow> (ustr, premise_block) dict \<Rightarrow> bool res" where
  "is_predicate_premise_blocked L a blocks =
     (if blocks = [] then Ok False
      else
        bindE (get_claim L a) (\<lambda>claim. case claim of
            None \<Rightarrow> Ok False
          | Some c \<Rightarrow>
              (case dict_get blocks (c_pred c) of
                 None \<Rightarrow> Ok False
               | Some r \<Rightarrow> bindE (last_value L a (bl_key r)) (\<lambda>v. Ok (string_in (bl_values r) v)))))"

section \<open>The filtered ledger\<close>

record premise_view =
  pv_base :: ledger
  pv_exclusions :: "meta_exclusion list"
  pv_allowances :: "(ustr, premise_allowance) dict"
  pv_blocks :: "(ustr, premise_block) dict"

definition make_premise_view ::
  "ledger \<Rightarrow> meta_exclusion list \<Rightarrow> premise_allowance list \<Rightarrow> premise_block list \<Rightarrow> premise_view" where
  "make_premise_view L exclusions allowances blocks =
     \<lparr>pv_base = L, pv_exclusions = exclusions,
      pv_allowances = foldl (\<lambda>d a. dict_set (al_pred a) a d) [] allowances,
      pv_blocks = foldl (\<lambda>d b. dict_set (bl_pred b) b d) [] blocks\<rparr>"

text \<open>The ledger an evaluation reads: the base itself when nothing is configured.\<close>

datatype evaluation_ledger = BaseLedger ledger | ScopedLedger premise_view

definition premise_scoped_ledger ::
  "ledger \<Rightarrow> meta_exclusion premise_input \<Rightarrow> premise_allowance premise_input \<Rightarrow> premise_block premise_input \<Rightarrow>
   evaluation_ledger res" where
  "premise_scoped_ledger L exclusions allowances blocks =
     bindE (normalize_premise_exclusions exclusions) (\<lambda>es.
     bindE (normalize_premise_allowances allowances) (\<lambda>as.
     bindE (normalize_premise_blocks blocks) (\<lambda>bs.
       Ok (if es = [] \<and> as = [] \<and> bs = [] then BaseLedger L else ScopedLedger (make_premise_view L es as bs)))))"

definition is_visible :: "premise_view \<Rightarrow> ustr \<Rightarrow> bool res" where
  "is_visible V a =
     bindE (is_premise_excluded (pv_base V) a (pv_exclusions V)) (\<lambda>excluded.
     if excluded then Ok False
     else
       bindE (is_predicate_premise_excluded (pv_base V) a (pv_allowances V)) (\<lambda>excluded.
       if excluded then Ok False
       else bindE (is_predicate_premise_blocked (pv_base V) a (pv_blocks V)) (\<lambda>blocked. Ok (\<not> blocked))))"

primrec filterE :: "('a \<Rightarrow> bool res) \<Rightarrow> 'a list \<Rightarrow> 'a list res" where
  "filterE f [] = Ok []"
| "filterE f (x # xs) =
     bindE (f x) (\<lambda>b. bindE (filterE f xs) (\<lambda>ys. Ok (if b then x # ys else ys)))"

text \<open>\<open>if asrt_id is not None and not self._is_visible(asrt_id): return []\<close>\<close>

definition when_visible :: "premise_view \<Rightarrow> ustr option \<Rightarrow> 'b \<Rightarrow> 'b res \<Rightarrow> 'b res" where
  "when_visible V a hidden read = (case a of
      None \<Rightarrow> read
    | Some a \<Rightarrow> bindE (is_visible V a) (\<lambda>b. if b then read else Ok hidden))"

definition sc_get_claim :: "premise_view \<Rightarrow> ustr \<Rightarrow> claim option res" where
  "sc_get_claim V a = when_visible V (Some a) None (get_claim (pv_base V) a)"

definition sc_claim_sequence :: "premise_view \<Rightarrow> ustr \<Rightarrow> nat option res" where
  "sc_claim_sequence V a = when_visible V (Some a) None (claim_sequence (pv_base V) a)"

definition sc_find_claims :: "premise_view \<Rightarrow> ustr option \<Rightarrow> ustr option \<Rightarrow> claim list res" where
  "sc_find_claims V p e = bindE (find_claims (pv_base V) p e) (filterE (\<lambda>c. is_visible V (c_asrt c)))"

definition sc_find_claim_args ::
  "premise_view \<Rightarrow> ustr option \<Rightarrow> nat option \<Rightarrow> ustr option \<Rightarrow> claim_arg list res" where
  "sc_find_claim_args V a i t = when_visible V a []
     (bindE (find_claim_args (pv_base V) a i t) (filterE (\<lambda>r. is_visible V (g_asrt r))))"

definition sc_find_meta ::
  "premise_view \<Rightarrow> ustr option \<Rightarrow> meta_key option \<Rightarrow> ustr option \<Rightarrow> meta_row list res" where
  "sc_find_meta V a k kd = when_visible V a []
     (bindE (find_meta (pv_base V) a k kd) (filterE (\<lambda>r. is_visible V (m_asrt r))))"

definition sc_effective_meta_rows ::
  "premise_view \<Rightarrow> ustr option \<Rightarrow> meta_key option \<Rightarrow> ustr option \<Rightarrow> (nat \<times> nat) option \<Rightarrow> meta_row list res" where
  "sc_effective_meta_rows V a k kd as_of = when_visible V a []
     (bindE (effective_meta_rows (pv_base V) a k kd as_of) (filterE (\<lambda>r. is_visible V (m_asrt r))))"

definition sc_latest_event_sequence :: "premise_view \<Rightarrow> (nat \<times> nat) option res" where
  "sc_latest_event_sequence V = latest_event_sequence (pv_base V)"

definition sc_latest_meta_event_sequence :: "premise_view \<Rightarrow> (nat \<times> nat) option res" where
  "sc_latest_meta_event_sequence V = latest_meta_event_sequence (pv_base V)"

definition sc_find_annotations ::
  "(cmeta_row list \<Rightarrow> cmeta_row list) \<Rightarrow> premise_view \<Rightarrow> ustr option \<Rightarrow> ustr option \<Rightarrow> ustr option \<Rightarrow>
   ustr option \<Rightarrow> annotation_row list res" where
  "sc_find_annotations scan V a n c k = when_visible V a []
     (bindE (find_annotations scan (pv_base V) a n c k) (filterE (\<lambda>r. is_visible V (a_asrt r))))"

text \<open>The first visible revoker, in the order of the revocations.\<close>

primrec first_visible_revoker :: "premise_view \<Rightarrow> ustr \<Rightarrow> revokes_row list \<Rightarrow> ustr option res" where
  "first_visible_revoker V a [] = Ok None"
| "first_visible_revoker V a (row # rows) =
     (if r_revoked row = a then
        bindE (is_visible V (r_revoker row)) (\<lambda>b.
          if b then Ok (Some (r_revoker row)) else first_visible_revoker V a rows)
      else first_visible_revoker V a rows)"

definition sc_find_revoker :: "premise_view \<Rightarrow> ustr \<Rightarrow> ustr option res" where
  "sc_find_revoker V a = when_visible V (Some a) None
     (bindE (find_revoker (pv_base V) a) (\<lambda>first. case first of
         None \<Rightarrow> Ok None
       | Some r \<Rightarrow>
           bindE (is_visible V r) (\<lambda>b.
             if b then Ok (Some r) else first_visible_revoker V a (x_revokes (l_ix (pv_base V))))))"

definition sc_has_active_revocation :: "premise_view \<Rightarrow> ustr \<Rightarrow> bool res" where
  "sc_has_active_revocation V a = when_visible V (Some a) False
     (bindE (find_revoker (pv_base V) a) (\<lambda>first. case first of
         None \<Rightarrow> Ok False
       | Some r \<Rightarrow>
           bindE (is_visible V r) (\<lambda>b.
             if b then Ok True else bindE (sc_find_revoker V a) (\<lambda>r. Ok (r \<noteq> None)))))"

definition sc_claims :: "premise_view \<Rightarrow> claim list res" where
  "sc_claims V = bindE (ensure_open (pv_base V)) (\<lambda>_. filterE (\<lambda>c. is_visible V (c_asrt c)) (x_claims (l_ix (pv_base V))))"

definition sc_revokes :: "premise_view \<Rightarrow> revokes_row list res" where
  "sc_revokes V = bindE (ensure_open (pv_base V)) (\<lambda>_. filterE (\<lambda>r. is_visible V (r_revoker r)) (x_revokes (l_ix (pv_base V))))"

definition sc_get_ledger_meta :: "premise_view \<Rightarrow> ustr \<Rightarrow> ustr option res" where
  "sc_get_ledger_meta V k = get_ledger_meta (pv_base V) k"

text \<open>Every write of the view.\<close>

definition reject_read_only :: "premise_view \<Rightarrow> premise_view \<times> 'a res" where
  "reject_read_only V = (V, Err RuntimeError)"

end
