(* ===== verification/Premise_View.thy ===== *)
theory Premise_View
  imports Premise_Filter
begin

text \<open>
  What an evaluation sees: the ledger with the hidden assertions removed, as a ledger of its own,
  and the proof that every read of the filtered ledger is that read of it.
\<close>

section \<open>Removing assertions\<close>

definition group_by :: "('a \<Rightarrow> 'k) \<Rightarrow> 'a list \<Rightarrow> ('k, 'a list) dict" where
  "group_by f xs = map (\<lambda>x. (f x, filter (\<lambda>y. f y = f x) xs)) xs"

text \<open>The indexes of the rows about visible assertions, and of the revocations by visible revokers.\<close>

definition hide :: "(ustr \<Rightarrow> bool) \<Rightarrow> ledger_index \<Rightarrow> ledger_index" where
  "hide vis ix =
     (let cs = filter (vis \<circ> c_asrt) (x_claims ix); es = filter (vis \<circ> e_asrt) (x_events ix);
          as = concat (map claim_arg_list cs); ms = filter (vis \<circ> m_asrt) (x_meta ix);
          ns = filter (vis \<circ> a_asrt) (x_anno ix); rs = filter (vis \<circ> r_revoker) (x_revokes ix) in
      \<lparr>x_claims = cs, x_claim_by_id = rev (map (\<lambda>c. (c_asrt c, c)) cs), x_by_pred = group_by c_pred cs,
       x_by_eref = group_by c_eref cs, x_by_pred_eref = group_by (\<lambda>c. (c_pred c, c_eref c)) cs,
       x_system = filter (\<lambda>p. vis (fst p)) (x_system ix), x_tx_refs = filter (\<lambda>p. vis (fst p)) (x_tx_refs ix),
       x_op_ordinals = filter (\<lambda>p. vis (fst p)) (x_op_ordinals ix),
       x_events = es, x_events_by_asrt = group_by e_asrt es, x_events_by_asrt_key = group_by (\<lambda>e. (e_asrt e, e_key e)) es,
       x_tx_defaults = x_tx_defaults ix,
       x_args = as, x_args_by_asrt = group_by g_asrt as,
       x_meta = ms, x_meta_by_asrt = group_by m_asrt ms, x_meta_by_kind = group_by m_kind ms,
       x_meta_by_key = group_by m_key ms, x_meta_by_asrt_key = group_by (\<lambda>r. (m_asrt r, m_key r)) ms,
       x_meta_by_asrt_key_kind = group_by (\<lambda>r. (m_asrt r, m_key r, m_kind r)) ms,
       x_ingest = map (\<lambda>k. (k, map m_asrt (filter (\<lambda>r. ingest_value r = Some k) ms))) (List.map_filter ingest_value ms),
       x_anno = ns, x_anno_by_asrt = group_by a_asrt ns, x_anno_by_ns_cat = group_by (\<lambda>r. (a_ns r, a_cat r)) ns,
       x_anno_by_key = group_by a_key ns, x_anno_by_identity = map (\<lambda>a. (anno_id a, a)) ns,
       x_revokes = rs, x_revokers = r_revoker ` set rs, x_revoked = r_revoked ` set rs,
       x_first_revoker = map (\<lambda>r. (r_revoked r, r_revoker r)) rs\<rparr>)"

definition without_hidden :: "(ustr \<Rightarrow> bool) \<Rightarrow> ledger \<Rightarrow> ledger" where
  "without_hidden vis L =
     L\<lparr>l_ix := hide vis (l_ix L),
       l_db := (l_db L)\<lparr>d_claims := filter (vis \<circ> cr_asrt) (d_claims (l_db L)),
         d_cmeta := filter (vis \<circ> cm_asrt) (d_cmeta (l_db L))\<rparr>\<rparr>"

lemma map_of_keyed: "map_of (map (\<lambda>x. (f x, g (f x))) xs) k = (if k \<in> f ` set xs then Some (g k) else None)"
  by (induction xs) auto

lemma grouped_group_by: "grouped f xs (group_by f xs)"
proof -
  have "map_of (group_by f xs) k = (if k \<in> f ` set xs then Some (filter (\<lambda>y. f y = k) xs) else None)" for k
    using map_of_keyed [of f "\<lambda>k. filter (\<lambda>y. f y = k) xs" xs k] by (simp add: group_by_def)
  then show ?thesis by (auto simp: grouped_def dict_list_def filter_empty_conv intro!: filter_False [symmetric])
qed

lemma ingest_hidden:
  "dict_list (map (\<lambda>k. (k, map m_asrt (filter (\<lambda>r. ingest_value r = Some k) ms))) (List.map_filter ingest_value ms)) k =
     map m_asrt (filter (\<lambda>r. ingest_value r = Some k) ms)"
proof -
  have "k \<in> set (List.map_filter ingest_value ms) \<longleftrightarrow> (\<exists>r \<in> set ms. ingest_value r = Some k)"
    by (auto simp: List.map_filter_def image_iff)
  then show ?thesis
    using map_of_keyed [of id "\<lambda>k. map m_asrt (filter (\<lambda>r. ingest_value r = Some k) ms)" "List.map_filter ingest_value ms" k]
    by (auto simp: dict_list_def filter_empty_conv)
qed

lemma ix_ok_hide: "ix_ok ix \<Longrightarrow> ix_ok (hide vis ix)"
  by (simp add: ix_ok_defs hide_def Let_def grouped_group_by ingest_hidden latest_def earliest_def unique_index_def
      rev_map distinct_map_filter del: filter_filter)

lemma without_hidden_simps [simp]:
  "l_ix (without_hidden vis L) = hide vis (l_ix L)" "l_lazy (without_hidden vis L) = l_lazy L"
  "l_closed (without_hidden vis L) = l_closed L" "ensure_open (without_hidden vis L) = ensure_open L"
  "d_claims (l_db (without_hidden vis L)) = filter (vis \<circ> cr_asrt) (d_claims (l_db L))"
  by (simp_all add: without_hidden_def ensure_open_def)

lemma hide_lists [simp]:
  "x_claims (hide vis ix) = filter (vis \<circ> c_asrt) (x_claims ix)" "x_meta (hide vis ix) = filter (vis \<circ> m_asrt) (x_meta ix)"
  "x_anno (hide vis ix) = filter (vis \<circ> a_asrt) (x_anno ix)" "x_events (hide vis ix) = filter (vis \<circ> e_asrt) (x_events ix)"
  "x_revokes (hide vis ix) = filter (vis \<circ> r_revoker) (x_revokes ix)"
  "x_tx_refs (hide vis ix) = filter (\<lambda>p. vis (fst p)) (x_tx_refs ix)"
  "x_op_ordinals (hide vis ix) = filter (\<lambda>p. vis (fst p)) (x_op_ordinals ix)" "x_tx_defaults (hide vis ix) = x_tx_defaults ix"
  by (simp_all add: hide_def Let_def)

section \<open>Visibility is decided\<close>

definition visible :: "premise_view \<Rightarrow> ustr \<Rightarrow> bool" where
  "visible V a \<longleftrightarrow> is_visible V a = Inr True"

definition readable :: "ledger \<Rightarrow> bool" where
  "readable L \<longleftrightarrow> ix_ok (l_ix L) \<and> \<not> l_closed L \<and> l_lazy L = []"

lemma lazy_events_none: "l_lazy L = [] \<Longrightarrow> lazy_meta_events L a k = Inr []"
  by (simp add: lazy_meta_events_def is_lazy_def event_order_def split: meta_key.splits)

lemma history_scan:
  assumes "readable L"
  shows "meta_history_events L a k =
    Inr (sort_key claim_meta_event_sort_key (filter (\<lambda>e. opt_ok a (e_asrt e) \<and> opt_ok k (e_key e)) (x_events (l_ix L))))"
proof -
  have "events_ok (l_ix L)" "\<not> l_closed L" "l_lazy L = []" using assms by (simp_all add: readable_def ix_ok_def)
  then show ?thesis
    by (cases a; cases k) (auto simp: meta_history_events_def ensure_open_def lazy_events_none events_ok_def
        grouped_lookup opt_ok_def)
qed

lemma effective_total: "readable L \<Longrightarrow> \<exists>rows. effective_meta_rows L a k kd b = Inr rows"
  by (simp add: effective_meta_rows_def effective_meta_events_def history_scan Let_def)

lemma last_value_total: "readable L \<Longrightarrow> \<exists>v. last_value L a k = Inr v"
  using effective_total [of L "Some a" "Some (MKey k)" None None] by (auto simp: last_value_def)

lemma anyE_total: "\<forall>x. \<exists>b. f x = Inr b \<Longrightarrow> \<exists>b. anyE f xs = Inr b"
proof (induction xs)
  case (Cons x xs)
  then obtain b c where "f x = Inr b" "anyE f xs = Inr c" by blast
  then show ?case by (cases b) auto
qed auto

lemma is_visible_total:
  assumes "readable (pv_base V)"
  shows "is_visible V a = Inr (visible V a)"
proof -
  have v: "\<exists>b. bindE (last_value (pv_base V) a k) (\<lambda>v. Ok (f v)) = Inr b" for k and f :: "pyval option \<Rightarrow> bool"
    using last_value_total [OF assms, of a k] by auto
  have opened: "ensure_open (pv_base V) = Inr ()" using assms by (simp add: readable_def ensure_open_def)
  have "\<exists>b. is_premise_excluded (pv_base V) a (pv_exclusions V) = Inr b"
    unfolding is_premise_excluded_def by (intro anyE_total allI v)
  moreover have "\<exists>b. is_predicate_premise_excluded (pv_base V) a (pv_allowances V) = Inr b"
    using v by (auto simp: is_predicate_premise_excluded_def get_claim_def opened split: option.splits)
  moreover have "\<exists>b. is_predicate_premise_blocked (pv_base V) a (pv_blocks V) = Inr b"
    using v by (auto simp: is_predicate_premise_blocked_def get_claim_def opened split: option.splits)
  ultimately have "\<exists>b. is_visible V a = Inr b" by (auto simp: is_visible_def)
  then show ?thesis by (auto simp: visible_def)
qed

lemma filterE_total: "(\<And>x. f x = Inr (P x)) \<Longrightarrow> filterE f xs = Inr (filter P xs)"
  by (induction xs) simp_all

text \<open>A filtered read: rows of a hidden assertion are not asked for, the others are filtered.\<close>

lemma filtered_read:
  assumes "readable (pv_base V)" "\<forall>r \<in> set rows. opt_ok a (key r)"
  shows "when_visible V a [] (filterE (\<lambda>r. is_visible V (key r)) rows) = Inr (filter (visible V \<circ> key) rows)"
proof (cases a)
  case None
  then show ?thesis by (simp add: when_visible_def filterE_total [where P = "visible V \<circ> key"] is_visible_total assms(1))
next
  case (Some x)
  then have "\<forall>r \<in> set rows. key r = x" using assms(2) by (simp add: opt_ok_def)
  then have "\<not> visible V x \<Longrightarrow> filter (visible V \<circ> key) rows = []" by (simp add: filter_empty_conv)
  with Some show ?thesis
    by (simp add: when_visible_def filterE_total [where P = "visible V \<circ> key"] is_visible_total assms(1))
qed

end
