(* ===== verification/Premise_Contract.thy ===== *)
theory Premise_Contract
  imports Premise_View Ledger_Samples
begin

text \<open>
  The properties of the premise filter: for an evaluation, a hidden assertion does not exist, and
  every configured rule hides on its own.
\<close>

section \<open>Claims and rows\<close>













section \<open>Revocations\<close>









section \<open>Effective metadata\<close>












section \<open>Hidden assertions do not exist\<close>

lemma readable_reachable: "reachable L \<Longrightarrow> \<not> l_closed L \<Longrightarrow> l_lazy L = [] \<Longrightarrow> readable L"
  by (simp add: readable_def reachable_ix_ok)


definition noted_view :: premise_view where
  "noted_view = make_premise_view sample_L3 [\<lparr>ex_key = u ''note'', ex_values = {u ''n''}\<rparr>] [] []"

lemma noted_hidden: "is_visible noted_view (u ''a1'') = Inr False \<and> is_visible noted_view (u ''v1'') = Inr True"
  by code_simp




section \<open>Rules decide independently\<close>

lemma keyed_dict:
  "distinct (map f xs) \<Longrightarrow> map_of (foldl (\<lambda>d x. dict_set (f x) x d) [] xs) k = Some x \<longleftrightarrow> x \<in> set xs \<and> f x = k"
  by (induction xs rule: rev_induct) (auto simp: image_iff)

lemma keyed_choice:
  assumes "distinct (map f xs)"
  shows "(\<exists>r \<in> set xs. f r = k \<and> P r) \<longleftrightarrow>
    (case map_of (foldl (\<lambda>d x. dict_set (f x) x d) [] xs) k of None \<Rightarrow> False | Some r \<Rightarrow> P r)"
proof (cases "map_of (foldl (\<lambda>d x. dict_set (f x) x d) [] xs) k")
  case None
  then have "\<not> (r \<in> set xs \<and> f r = k)" for r by (simp add: keyed_dict [OF assms, symmetric])
  with None show ?thesis by auto
next
  case (Some x)
  then have "\<forall>r. r \<in> set xs \<and> f r = k \<longleftrightarrow> r = x" unfolding keyed_dict [OF assms, symmetric] by auto
  then have "(\<exists>r \<in> set xs. f r = k \<and> P r) \<longleftrightarrow> P x" by metis
  with Some show ?thesis by simp
qed

lemma anyE_Inr: "\<forall>x. f x = Inr (P x) \<Longrightarrow> anyE f xs = Inr (\<exists>x \<in> set xs. P x)"
  by (induction xs) auto

definition admits :: "premise_allowance \<Rightarrow> pyval option \<Rightarrow> bool" where
  "admits r v \<longleftrightarrow> (if v = None then al_absent_ok r else string_in (al_values r) v)"

lemma excluded_Inr:
  "\<forall>k. last_value L a k = Inr (val k) \<Longrightarrow>
   is_premise_excluded L a es = Inr (\<exists>e \<in> set es. string_in (ex_values e) (val (ex_key e)))"
  unfolding is_premise_excluded_def by (rule anyE_Inr) simp

lemma predicate_excluded_Inr:
  assumes "\<forall>k. last_value L a k = Inr (val k)" "\<not> l_closed L" "distinct (map al_pred as)"
  shows "is_predicate_premise_excluded L a (foldl (\<lambda>d r. dict_set (al_pred r) r d) [] as) =
     Inr (\<exists>c. dict_get (x_claim_by_id (l_ix L)) a = Some c \<and> (\<exists>r \<in> set as. al_pred r = c_pred c \<and> \<not> admits r (val (al_key r))))"
  unfolding keyed_choice [OF assms(3)]
  by (simp add: is_predicate_premise_excluded_def get_claim_def ensure_open_def assms(1,2) admits_def split: option.split)

lemma blocked_Inr:
  assumes "\<forall>k. last_value L a k = Inr (val k)" "\<not> l_closed L" "distinct (map bl_pred bs)"
  shows "is_predicate_premise_blocked L a (foldl (\<lambda>d r. dict_set (bl_pred r) r d) [] bs) =
     Inr (\<exists>c. dict_get (x_claim_by_id (l_ix L)) a = Some c \<and>
       (\<exists>r \<in> set bs. bl_pred r = c_pred c \<and> string_in (bl_values r) (val (bl_key r))))"
  unfolding keyed_choice [OF assms(3)]
  by (simp add: is_predicate_premise_blocked_def get_claim_def ensure_open_def assms(1,2) split: option.split)

lemma normalized_distinct:
  "distinct_predicates pred items = Inr as \<Longrightarrow> distinct (map pred as)"
  unfolding distinct_predicates_def
  by (rule foldE_invariant [where P = "\<lambda>as. distinct (map pred as)"]) (auto split: option.splits if_splits)

lemma normalize_allowances_distinct: "normalize_premise_allowances A = Inr as \<Longrightarrow> distinct (map al_pred as)"
  by (auto simp: normalize_premise_allowances_def dest: normalized_distinct split: premise_input.splits)

lemma normalize_blocks_distinct: "normalize_premise_blocks B = Inr bs \<Longrightarrow> distinct (map bl_pred bs)"
  by (auto simp: normalize_premise_blocks_def dest: normalized_distinct split: premise_input.splits)

text \<open>
  C22: The rules decide independently and on the values in force. Whatever is configured, when the
  configuration is accepted every assertion has one value in force per key, and it is visible
  exactly when no exclusion lists its value, every allowance for its predicate admits its value
  (or its absence), and no block for its predicate lists its value. So no rule ever readmits what
  another one hides.
\<close>

theorem visible_iff_every_rule_admits:
  assumes "premise_scoped_ledger L E A B = Inr (ScopedLedger V)" "reachable L" "\<not> l_closed L" "l_lazy L = []"
  shows "\<exists>es as bs val. normalize_premise_exclusions E = Inr es \<and> normalize_premise_allowances A = Inr as \<and>
     normalize_premise_blocks B = Inr bs \<and> (\<forall>k. last_value L a k = Inr (val k)) \<and>
     is_visible V a = Inr (
       (\<forall>e \<in> set es. \<not> string_in (ex_values e) (val (ex_key e))) \<and>
       (\<forall>c. dict_get (x_claim_by_id (l_ix L)) a = Some c \<longrightarrow>
         (\<forall>r \<in> set as. al_pred r = c_pred c \<longrightarrow> admits r (val (al_key r))) \<and>
         (\<forall>r \<in> set bs. bl_pred r = c_pred c \<longrightarrow> \<not> string_in (bl_values r) (val (bl_key r)))))"
proof -
  from assms(1) obtain es as bs where n: "normalize_premise_exclusions E = Inr es" "normalize_premise_allowances A = Inr as"
    "normalize_premise_blocks B = Inr bs" and V: "V = make_premise_view L es as bs"
    by (auto simp: premise_scoped_ledger_def bindE_Inr_iff split: if_splits)
  from last_value_total [OF readable_reachable [OF assms(2-4)]]
  obtain val where val: "\<forall>k. last_value L a k = Inr (val k)" by metis
  have "is_visible V a = Inr (
       (\<forall>e \<in> set es. \<not> string_in (ex_values e) (val (ex_key e))) \<and>
       (\<forall>c. dict_get (x_claim_by_id (l_ix L)) a = Some c \<longrightarrow>
         (\<forall>r \<in> set as. al_pred r = c_pred c \<longrightarrow> admits r (val (al_key r))) \<and>
         (\<forall>r \<in> set bs. bl_pred r = c_pred c \<longrightarrow> \<not> string_in (bl_values r) (val (bl_key r)))))"
    unfolding V is_visible_def make_premise_view_def premise_view.select_convs excluded_Inr [OF val]
      predicate_excluded_Inr [OF val assms(3) normalize_allowances_distinct [OF n(2)]]
      blocked_Inr [OF val assms(3) normalize_blocks_distinct [OF n(3)]] by auto
  with n val show ?thesis by blast
qed

lemma noted_scoped:
  "premise_scoped_ledger sample_L3 (OnePremise \<lparr>ex_key = u ''note'', ex_values = {u ''n''}\<rparr>) NoPremises NoPremises =
     Inr (ScopedLedger noted_view)"
  by (simp add: premise_scoped_ledger_def normalize_premise_exclusions_def normalize_premise_allowances_def
      normalize_premise_blocks_def noted_view_def)

lemma visible_iff_every_rule_admits_witness:
  "\<exists>val. (\<forall>k. last_value sample_L3 (u ''a1'') k = Inr (val k)) \<and> string_in {u ''n''} (val (u ''note''))"
  using visible_iff_every_rule_admits [OF noted_scoped sample_reachable, of "u ''a1''"] sample_revoke_Ok noted_hidden
  by (auto simp: normalize_premise_exclusions_def normalize_premise_allowances_def normalize_premise_blocks_def)

end
