(* ===== verification/Spec2Isabelle.thy ===== *)
theory Spec2Isabelle
  imports Id_Ref Lt_Hash Ledger_Laws Ledger_Contract View_Contract Mapping_Contract Schema_Contract
    Write_Protocol Native_Contract Database_Contract
    Premise_Contract
begin

text \<open>
  A model of the core of factgraph (\<^verbatim>\<open>src/src/factgraph/core\<close>, Python) with the theorems that make it
  correct.  All file names below are relative to that directory.

  \<^bold>\<open>The program.\<close>  factgraph keeps typed facts in an append-only ledger backed by SQLite.  A schema
  document says which predicates exist; a caller writes a fact through the write protocol, which
  normalises its metadata, derives an idempotency key and appends a claim; a retraction appends a
  revocation.  The policy decides which claims are active and which of several active ones of a
  group is chosen; the projector turns the chosen claims into the fact tables that rules read.  A rule
  is a where-expression over those tables and over other rules: it is validated, its atoms are
  ordered so that each finds its variables bound, its body is evaluated by joins and filters, and
  the values of its head are its rows; a reference to another rule reads that rule's rows as a view.
  A database owns a ledger and commits change sets to it: each commit is a transaction object named
  by the hash of its content and its parent, and the head names the last transaction together with a
  digest of the set of active assertions that commits maintain incrementally.

  \<^bold>\<open>Theories and sources.\<close>

  \<^item> Python itself: \<open>Py_Prelude\<close> (texts as lists of code points, bytes, dynamically typed values
    \<open>pyval\<close>, exceptions by class as values of the sum type \<open>'a res\<close>, insertion-ordered dictionaries,
    dictionaries that mirror a list), \<open>Py_Codec\<close>, \<open>Py_Base\<close> (UTF-8, big-endian and decimal integers, base 64, base 32, each
    with its inverse), \<open>Py_Value\<close> (\<open>==\<close>), \<open>Py_Dict\<close> (hashable keys, \<open>str()\<close>), \<open>Py_Json\<close> (\<open>json.dumps\<close> with sorted keys).
  \<^item> \<open>Tup_V1\<close>: \<^verbatim>\<open>protocol/tup_v1.py\<close>, the canonical bytes of a tuple of tagged values; \<open>Id_Ref\<close>:
    \<^verbatim>\<open>protocol/idref_v1.py\<close> and \<^verbatim>\<open>digests.py\<close>, entity references; \<open>Lt_Hash\<close>: \<^verbatim>\<open>protocol/lthash.py\<close>,
    the lattice hash of a set with 1024 lanes of 16 bits (\<open>16 word\<close>, additions wrap).
  \<^item> \<^verbatim>\<open>store/ledger.py\<close>: rows and codecs in \<open>Ledger_Types\<close>, \<open>Ledger_Codec\<close>, \<open>Ledger_Validate\<close>; the
    in-memory indexes in \<open>Ledger_Index\<close>; the tables, statements and write sessions in
    \<open>Ledger_State\<close> (a session computes new tables, an exception drops them, the post-commit hook
    runs after the commit); every write in \<open>Ledger_Ops\<close> and \<open>Ledger_Commit\<close>; opening a file in
    \<open>Ledger_Load\<close>; every read in \<open>Ledger_Query\<close>.  The state is the record \<open>ledger\<close> of tables and
    indexes; \<open>Ledger_Steps\<close> has the step relation of its histories.
  \<^item> \<open>Policy\<close>: \<^verbatim>\<open>policy/active.py\<close>, \<^verbatim>\<open>policy/chosen.py\<close>; \<open>Projector\<close>: \<^verbatim>\<open>view/projector.py\<close>;
    \<open>Mapping_Canon\<close>: \<^verbatim>\<open>mapping/canon.py\<close>; \<open>Meta_Policy\<close> and \<open>Schema_IR\<close>: \<^verbatim>\<open>schema/meta_policy.py\<close>,
    \<^verbatim>\<open>schema/schema_ir.py\<close>, \<^verbatim>\<open>policy/policy_ir.py\<close>; \<open>Write_Protocol\<close>: \<^verbatim>\<open>evidence/write_protocol.py\<close>.
  \<^item> Where-expressions: \<open>Where_AST\<close> and \<open>Where_Validate\<close> (\<^verbatim>\<open>rules/where_ast.py\<close>,
    \<^verbatim>\<open>rules/where_ast_validate.py\<close>: nodes, parsing, lowering, dataflow), \<open>Py_Order\<close> (Python's \<open><\<close> and
    \<open>sorted\<close>), \<open>Where_Atoms\<close> (\<^verbatim>\<open>rules/where_plan.py\<close> and the atom checks), \<open>Where_Eval\<close>
    (\<^verbatim>\<open>rules/where_eval.py\<close>: matching, filters, arithmetic, negation, aggregates, bodies).
  \<^item> Rules: \<open>Rule_AST\<close> (\<^verbatim>\<open>rules/rule_ast.py\<close>, \<^verbatim>\<open>rules/rule_ast_validate.py\<close>), \<open>Rule_IR\<close>
    (\<^verbatim>\<open>rules/rule_ir.py\<close>: the registry, references, recursive evaluation with its memo and cycle
    stack), \<open>Rule_Native\<close> (\<^verbatim>\<open>rules/ruleref_substrate.py\<close>, \<^verbatim>\<open>rules/frontier.py\<close>: the evaluation that
    keeps a memo per run, and where a body runs empty).
  \<^item> \<^verbatim>\<open>store/database.py\<close>: \<open>Database_Bytes\<close> (the canonical bytes and ids of assertions, transactions
    and views), \<open>Database_History\<close> (the object files, reading and writing them, the chain behind a
    head and its replay), \<open>Database\<close> (the head, the active assertions, the preparation and the commit
    of a change set: \<open>plan_commit\<close> is everything up to the first write, \<open>commit_changes\<close> the whole
    method), \<open>Database_Open\<close> (integrity checks, creation, opening, repair, frozen views).  The state
    is the record \<open>database\<close>: the ledger, the ids and schema in force, and for a workspace its files.
  \<^item> \<open>Premise_Filter\<close>: \<^verbatim>\<open>store/premise_filter.py\<close>, the rules that hide assertions from an evaluation
    (\<open>is_visible\<close>) and the reads of the filtered ledger (\<open>sc_find_claims\<close> and so on, one per method).

  \<^bold>\<open>What the lemmas show.\<close>

  \<^item> Codecs: each encoder has its inverse; two tuples have equal bytes exactly when their stored
    arguments are equal; two entity references are equal exactly when the identities are, or SHA-256
    collides; the set commitment is independent of order and incremental.
  \<^item> Ledger: \<open>Ledger_Index_Inv\<close> (the indexes mirror their lists), \<open>Ledger_Roundtrip\<close> (columns read
    back), \<open>Ledger_Coherent\<close> to \<open>Ledger_Agree\<close> (a simulation: every operation keeps the indexes
    coherent with the tables, so a reopened ledger agrees with the live one), \<open>Ledger_Append\<close>
    (nothing is rewritten), \<open>Ledger_Heads\<close> (a batch commit is a compare-and-swap), \<open>Ledger_Atomic\<close>
    and \<open>Ledger_Contract\<close> (a failing write changes nothing, and the one case where it does),
    \<open>Ledger_Laws\<close> (what queries return).
  \<^item> \<open>View_Contract\<close>, \<open>Mapping_Contract\<close>, \<open>Schema_Contract\<close>: the choice is the latest claim, the two
    projections agree, the audit balances, resolved mappings are functional, digests depend only on
    content.
  \<^item> \<open>Where_Join\<close>, \<open>Where_Semantics\<close>, \<open>Where_Flow\<close>, \<open>Where_Sat\<close>, \<open>Where_Clauses\<close>, \<open>Where_Bindings\<close>
    and \<open>Where_Contract\<close>: a declarative satisfaction relation for a clause and the
    proof that the joins return exactly its solutions, that the order the planner picks does not
    matter, that a validated body of identity-free atoms over texts never raises, and that the
    validation gate is transparent.
  \<^item> \<open>Query_Rules\<close>, \<open>Rule_Contract\<close>, \<open>Native_Contract\<close>: the variables a rule selects are bound in every
    solution, the recursion over references ends, a rule's rows are the projections of its body's
    solutions, a reference may be replaced by the view it stands for, both evaluators agree, and the
    frontier names exactly the cases that fail.
  \<^item> \<open>Database_Digests\<close>, \<open>Database_Laws\<close>: every field of the canonical bytes delimits itself, so bytes
    fix contents, an id fixes an object up to a collision, and a head fixes its history;
    \<open>Database_Roundtrip\<close>: objects read back.  \<open>Database_Plan\<close>: the digest a commit maintains is the
    digest computed from scratch (through the laws of \<open>set_accumulator\<close>);
    \<open>Database_Commit\<close>, \<open>Database_Sound\<close>: what a batch leaves in memory and what a scan of the new
    ledger finds active; the invariants are \<open>db_sound\<close> (head and ledger agree) and, in
    \<open>Database_Chain\<close>, \<open>history_sound\<close> (files and ledger agree).  \<open>Database_Created\<close>: both hold of new
    databases, and \<open>db_sound\<close> of all that commits reach, and what failing commits and
    opening leave; \<open>Database_Samples\<close>: a small workspace on which everything is
    exercised; \<open>Database_Contract\<close>: the properties.
  \<^item> \<open>Premise_View\<close>: \<open>without_hidden\<close>, the ledger with the hidden assertions physically removed, as the
    specification of the filtered reads; \<open>Premise_Contract\<close>: every read agrees with it, and the
    rules decide independently.

  \<^bold>\<open>Assumptions.\<close>  SHA-256 and SHAKE-256 are parameters (\<open>sha\<close>, \<open>shake\<close>); the ids that \<^verbatim>\<open>uuid4\<close> makes and
  the clock are arguments of the operations that call them; the order in which SQLite scans
  a table without ORDER BY is a parameter where the code depends on it.  One thread and one
  connection: the code serialises writers by a lock and \<^verbatim>\<open>BEGIN IMMEDIATE\<close>.  Exceptions are kept by
  class, their texts are dropped.  An input whose treatment needs the text of a float or a JSON object
  with keys that are not strings is answered with the exception \<open>NotModelled\<close>, which no theorem takes
  for a result of the program.  Where the length of a hash matters it is assumed to be 32 bytes.  The
  object files of a workspace are association lists from ids to JSON documents: writing keeps what
  reading gets back (sorted keys, tuples as lists, bytes in base 64), and a file appears whole or not
  at all.  A database is used through its own methods while its schema marks no metadata key as lazily
  loaded (the premise \<open>l_lazy ... = []\<close>).

  \<^bold>\<open>Termination.\<close>  Every definition is a total function: loops over data are structural, others carry
  a measure.  The two evaluations that follow rule references recurse on the registry, not on data;
  they carry a depth whose exhaustion is the value \<open>None\<close>.  \<open>rule_recursion_ends\<close> shows that the number of
  registered rules plus two is always enough, because the cycle stack grows along every
  call, so \<open>None\<close> never stands for a result of the program.  The walk along parent ids (\<open>tx_chain\<close>) ends
  because no id is read twice and the files are finitely many.

  \<^bold>\<open>Not modelled.\<close>  File systems, locks and connections; the engines the adapters drive (not in the
  repository); prose and tree renderings of explanations; the SDK, application, audit and authoring
  layers above the core; of the core, derivations, the semantics profile and the
  meta rules of annotations.  Of the database: the migration of legacy ledgers, JSON documents that
  hold a float, names and reasons outside ASCII.  Within the rule engine: the trace that
  \<^verbatim>\<open>evaluate_rule\<close> can record and the witnesses of the native evaluation; means and sums of floats
  (IEEE rounding); \<^verbatim>\<open>repr\<close> of texts outside ASCII; the order of rows whose sort keys tie (it is the
  iteration order of a set).  These inputs give \<open>NotModelled\<close>.
\<close>

end
